(* ===== verification/Prelude.thy ===== *)
theory Prelude
  imports Main "HOL-Library.Multiset" "HOL-Library.List_Lexorder" "HOL-Library.Product_Lexorder"
begin

text \<open>
  Shared vocabulary of the development: the representation of Python values that every
  component uses (texts as lists of code points, raised exceptions as values of a sum
  type), the runtime services the code calls but does not define (a record of functions),
  and the generic lemmas and fact collections on lists, options and keyed tables that the
  component theories share.
\<close>

named_theorems row_simps \<open>selectors and updates of the table rows\<close>
named_theorems tx_simps \<open>unfolding of the transactional combinators\<close>
named_theorems inv_intros \<open>invariant preservation, one rule per operation\<close>
named_theorems frame_simps \<open>what an operation leaves unchanged\<close>

section \<open>Texts\<close>

text \<open>
  A Python \<^verbatim>\<open>str\<close> is the list of its code points, each the \<^verbatim>\<open>int\<close> that \<^verbatim>\<open>ord\<close> returns, so
  \<^verbatim>\<open>len\<close> is \<open>length\<close> and \<^verbatim>\<open><\<close> is the lexicographic order of the list.  \<open>lit\<close> writes an ASCII
  literal; other literals are written as their code points.
\<close>

type_synonym pystr = "int list"
type_synonym bytes = "int list"

definition lit :: "string \<Rightarrow> pystr" where
  "lit s = map (of_char :: char \<Rightarrow> int) s"

lemma lit_inject [simp]: "lit s = lit t \<longleftrightarrow> s = t"
  by (simp add: lit_def inj_map_eq_map inj_def)

lemma length_lit [simp]: "length (lit s) = length s"
  by (simp add: lit_def)

lemma lit_eq_Nil [simp]: "lit s = [] \<longleftrightarrow> s = []" "[] = lit s \<longleftrightarrow> s = []"
  by (auto simp: lit_def)

text \<open>The numerals of ASCII letters, digits and signs are read off their bits when a literal is evaluated.\<close>

definition num_bit :: "bool \<Rightarrow> num \<Rightarrow> num" where
  "num_bit b n = (if b then num.Bit1 n else num.Bit0 n)"

lemma numeral_num_bit: "numeral (num_bit b n) = (of_bool b + 2 * numeral n :: int)"
  using numeral_Bit1_eq_inc_double [of n, where 'a = int] numeral_Bit0_eq_double [of n, where 'a = int]
  by (cases b) (auto simp only: num_bit_def if_True if_False of_bool_eq add_0 add.commute [of 1])

fun ascii :: "char \<Rightarrow> int" where
  "ascii (Char b0 b1 b2 b3 b4 b5 b6 b7) =
    (if b7 then of_char (Char b0 b1 b2 b3 b4 b5 b6 b7)
     else if b6 then Int.Pos (num_bit b0 (num_bit b1 (num_bit b2 (num_bit b3 (num_bit b4 (num_bit b5 num.One))))))
     else if b5 then Int.Pos (num_bit b0 (num_bit b1 (num_bit b2 (num_bit b3 (num_bit b4 num.One)))))
     else of_char (Char b0 b1 b2 b3 b4 b5 b6 b7))"

lemma ascii_of_char: "ascii c = of_char c"
  by (cases c) (simp add: numeral_num_bit)

lemma lit_code [code]: "lit = map ascii"
  by (simp add: fun_eq_iff lit_def ascii_of_char)

lemma lit_append: "lit s @ lit t = lit (s @ t)"
  by (simp add: lit_def)

section \<open>JSON values\<close>

text \<open>
  A Python dictionary is the list of its items in insertion order.  A float is represented
  by the text that \<^verbatim>\<open>dumps\<close> prints for it: its \<^verbatim>\<open>repr\<close>, or one of \<^verbatim>\<open>NaN\<close>, \<^verbatim>\<open>Infinity\<close> and
  \<^verbatim>\<open>-Infinity\<close>.
\<close>

datatype json =
    JNull
  | JBool bool
  | JInt int
  | JFloat pystr
  | JStr pystr
  | JList "json list"
  | JObj "(pystr \<times> json) list"

section \<open>Exceptions and results\<close>

text \<open>
  The exceptions the source raises, or lets its libraries raise, on the paths that are
  modelled.  \<^verbatim>\<open>json.JSONDecodeError\<close> is a subclass of \<^verbatim>\<open>ValueError\<close> and is kept apart; a
  violated unique or primary key is SQLAlchemy's \<^verbatim>\<open>IntegrityError\<close>, with the name of the
  violated constraint; \<^verbatim>\<open>FileNotFoundError\<close>, a subclass of \<^verbatim>\<open>OSError\<close>, is kept apart; \<open>PyJWTError\<close> stands for the exceptions of PyJWT, which have this base class;
  \<open>HTTPException\<close> carries its status code and its detail; \<open>RequestValidationError\<close> is FastAPI's, for a request
  that its model refuses, without the list of what is wrong.
\<close>

datatype py_error =
    ValueError pystr
  | JSONDecodeError
  | KeyError pystr
  | TypeError
  | AttributeError
  | InvalidOperation
  | IntegrityError pystr
  | CardinalityViolation
  | RuntimeError pystr
  | FileNotFoundError pystr
  | OSError pystr
  | BadZipFile
  | PyJWTError pystr
  | HTTPException int json
  | RequestValidationError
  | PreflightError pystr
  | SystemExit pystr

type_synonym 'a res = "py_error + 'a"

definition bind_res :: "'e + 'a \<Rightarrow> ('a \<Rightarrow> 'e + 'b) \<Rightarrow> 'e + 'b" where
  "bind_res r f = (case r of Inl e \<Rightarrow> Inl e | Inr x \<Rightarrow> f x)"

lemma bind_res_simps [simp]: "bind_res (Inl e) f = Inl e" "bind_res (Inr x) f = f x"
  by (simp_all add: bind_res_def)

lemma bind_res_Inr: "bind_res r f = Inr y \<longleftrightarrow> (\<exists>x. r = Inr x \<and> f x = Inr y)"
  by (cases r) auto

lemma bind_res_Inl: "bind_res r f = Inl e \<longleftrightarrow> r = Inl e \<or> (\<exists>x. r = Inr x \<and> f x = Inl e)"
  by (cases r) auto

lemma bind_res_cong [fundef_cong]:
  "r = r' \<Longrightarrow> (\<And>x. r' = Inr x \<Longrightarrow> f x = g x) \<Longrightarrow> bind_res r f = bind_res r' g"
  by (cases r') auto

text \<open>A comprehension whose body may raise: the first exception ends it.\<close>

fun map_res :: "('a \<Rightarrow> 'e + 'b) \<Rightarrow> 'a list \<Rightarrow> 'e + 'b list" where
  "map_res f [] = Inr []"
| "map_res f (x # xs) = bind_res (f x) (\<lambda>y. bind_res (map_res f xs) (\<lambda>ys. Inr (y # ys)))"

lemma map_res_Inr: "map_res f xs = Inr ys \<longleftrightarrow> list_all2 (\<lambda>x y. f x = Inr y) xs ys"
  by (induction xs arbitrary: ys) (auto simp: bind_res_Inr list_all2_Cons1)

lemma map_res_total: "(\<And>x. x \<in> set xs \<Longrightarrow> f x = Inr (g x)) \<Longrightarrow> map_res f xs = Inr (map g xs)"
  by (induction xs) auto

text \<open>A guard that raises: \<^verbatim>\<open>if p: raise e\<close>.\<close>

definition raise_if :: "bool \<Rightarrow> py_error \<Rightarrow> unit res" where
  "raise_if p e = (if p then Inl e else Inr ())"

lemma raise_if_simps [simp]: "raise_if True e = Inl e" "raise_if False e = Inr ()"
  by (simp_all add: raise_if_def)

lemma raise_if_Inr: "raise_if p e = Inr u \<longleftrightarrow> \<not> p"
  by (simp add: raise_if_def)

section \<open>The runtime the code calls\<close>

text \<open>
  Services of the interpreter and of third-party code that the source calls and that are
  not under \<^verbatim>\<open>src/\<close>: the hexadecimal SHA-256 digest of a byte string (\<^verbatim>\<open>hashlib\<close>, implemented
  by OpenSSL), the text \<^verbatim>\<open>repr(float(s))\<close> of a numeral, and the Unicode database's
  \<^verbatim>\<open>isalnum\<close> of a code point beyond ASCII.  They are parameters: every theorem holds for
  every choice, with what it needs of them as a named hypothesis.
\<close>

record pyenv =
  sha256_hex :: "bytes \<Rightarrow> pystr"
  float_repr :: "pystr \<Rightarrow> pystr"
  ucd_alnum :: "int \<Rightarrow> bool"

text \<open>
  The values that the successive calls of \<^verbatim>\<open>utc_now()\<close> return during one operation: a
  callee that is entered after \<open>n\<close> calls sees the sequence from its \<open>n\<close>-th value on.
\<close>

type_synonym clock = "nat \<Rightarrow> pystr"

definition after_calls :: "nat \<Rightarrow> clock \<Rightarrow> clock" where
  "after_calls n ts = (\<lambda>i. ts (n + i))"

lemma after_calls_apply [simp]: "after_calls n ts i = ts (n + i)"
  by (simp add: after_calls_def)

section \<open>Tables\<close>

text \<open>
  A table is the list of its rows.  A row inserted into a table with an automatic integer
  key gets one more than the largest key in use, or 1, as an SQLite rowid does.
\<close>

definition fresh_id :: "int list \<Rightarrow> int" where
  "fresh_id ids = 1 + foldr max ids 0"

lemma foldr_max_ge: "i \<in> set ids \<Longrightarrow> i \<le> foldr max ids (0::int)"
  by (induction ids) auto

lemma foldr_max_nonneg: "0 \<le> foldr max ids (0::int)"
  by (induction ids) auto

lemma fresh_id_greater: "i \<in> set ids \<Longrightarrow> i < fresh_id ids"
  unfolding fresh_id_def using foldr_max_ge [of i ids] by simp

lemma fresh_id_pos: "0 < fresh_id ids"
  unfolding fresh_id_def using foldr_max_nonneg [of ids] by simp

lemma fresh_id_not_in [simp]: "fresh_id ids \<notin> set ids"
  using fresh_id_greater by blast

lemma fresh_id_Nil [simp]: "fresh_id [] = 1"
  by (simp add: fresh_id_def)

lemma sorted_wrt_snoc_fresh:
  "sorted_wrt (<) ids \<Longrightarrow> sorted_wrt (<) (ids @ [fresh_id ids])"
  by (auto simp: sorted_wrt_append fresh_id_greater)

text \<open>
  \<^verbatim>\<open>SELECT ... WHERE p ORDER BY key\<close>.  On a table whose keys increase the ordering is the
  identity.
\<close>

definition select_rows :: "('r \<Rightarrow> 'k::linorder) \<Rightarrow> ('r \<Rightarrow> bool) \<Rightarrow> 'r list \<Rightarrow> 'r list" where
  "select_rows key p rows = sort_key key (filter p rows)"

lemma set_select_rows [simp]: "set (select_rows key p rows) = {r \<in> set rows. p r}"
  by (auto simp: select_rows_def)

lemma sorted_wrt_less_map_filter:
  "sorted_wrt (<) (map key rows) \<Longrightarrow> sorted_wrt (<) (map key (filter p rows))"
  by (induction rows) auto

lemma sort_key_id: "sorted (map key rows) \<Longrightarrow> sort_key key rows = rows"
  by (rule sort_key_id_if_sorted)

lemma select_rows_sorted:
  fixes key :: "'r \<Rightarrow> 'k::linorder"
  assumes "sorted_wrt (<) (map key rows)"
  shows "select_rows key p rows = filter p rows"
proof -
  have "sorted_wrt (<) (map key (filter p rows))"
    using assms by (rule sorted_wrt_less_map_filter)
  then have "sorted (map key (filter p rows))"
    by (simp add: strict_sorted_iff)
  then show ?thesis by (simp add: select_rows_def sort_key_id)
qed

lemma select_rows_snoc:
  fixes key :: "'r \<Rightarrow> 'k::linorder"
  assumes "sorted_wrt (<) (map key (rows @ [r]))"
  shows "select_rows key p (rows @ [r]) = select_rows key p rows @ (if p r then [r] else [])"
  using assms by (simp add: select_rows_sorted sorted_wrt_append)

text \<open>\<^verbatim>\<open>UPDATE ... SET f WHERE p\<close> and the number of rows it matches.\<close>

definition update_rows :: "('r \<Rightarrow> bool) \<Rightarrow> ('r \<Rightarrow> 'r) \<Rightarrow> 'r list \<Rightarrow> 'r list" where
  "update_rows p f rows = map (\<lambda>r. if p r then f r else r) rows"

definition count_rows :: "('r \<Rightarrow> bool) \<Rightarrow> 'r list \<Rightarrow> nat" where
  "count_rows p rows = length (filter p rows)"

lemma length_update_rows [simp]: "length (update_rows p f rows) = length rows"
  by (simp add: update_rows_def)

lemma map_update_rows_id:
  "(\<And>r. p r \<Longrightarrow> key (f r) = key r) \<Longrightarrow> map key (update_rows p f rows) = map key rows"
  by (simp add: update_rows_def)

lemma set_update_rows: "set (update_rows p f rows) = (\<lambda>r. if p r then f r else r) ` set rows"
  by (simp add: update_rows_def)

lemma update_rows_no_match: "(\<And>r. r \<in> set rows \<Longrightarrow> \<not> p r) \<Longrightarrow> update_rows p f rows = rows"
  unfolding update_rows_def by (induction rows) auto

lemma filter_update_rows:
  "(\<And>r. p r \<Longrightarrow> q (f r) = q r) \<Longrightarrow>
   filter q (update_rows p f rows) = update_rows p f (filter q rows)"
  unfolding update_rows_def by (induction rows) auto

text \<open>\<^verbatim>\<open>scalar_one_or_none()\<close> / \<^verbatim>\<open>one_or_none()\<close> on a key column: at most one row matches.\<close>

definition find_row :: "('r \<Rightarrow> bool) \<Rightarrow> 'r list \<Rightarrow> 'r option" where
  "find_row p rows = find p rows"

lemma find_row_None: "find_row p rows = None \<longleftrightarrow> (\<forall>r \<in> set rows. \<not> p r)"
  by (auto simp: find_row_def find_None_iff)

lemma find_row_Some: "find_row p rows = Some r \<Longrightarrow> r \<in> set rows \<and> p r"
  by (auto simp: find_row_def find_Some_iff)

lemma find_row_append:
  "find_row p (xs @ ys) = (case find_row p xs of None \<Rightarrow> find_row p ys | Some r \<Rightarrow> Some r)"
  by (induction xs) (simp_all add: find_row_def)

lemma find_row_Cons:
  "find_row p (x # xs) = (if p x then Some x else find_row p xs)"
  by (simp add: find_row_def)

lemma find_row_Nil [simp]: "find_row p [] = None"
  by (simp add: find_row_def)

text \<open>A row whose key exceeds every other key comes last, whatever the order of the table.\<close>

lemma insort_key_snoc: "key a < key r \<Longrightarrow> insort_key key a (xs @ [r]) = insort_key key a xs @ [r]"
  for key :: "'r \<Rightarrow> 'k::linorder"
  by (induction xs) auto

lemma sort_key_snoc_greatest:
  fixes key :: "'r \<Rightarrow> 'k::linorder"
  shows "\<forall>r' \<in> set rows. key r' < key r \<Longrightarrow> sort_key key (rows @ [r]) = sort_key key rows @ [r]"
  by (induction rows) (simp_all add: insort_key_snoc)

lemma select_rows_fresh:
  assumes "key r = fresh_id (map key rows)"
  shows "select_rows key p (rows @ [r]) = select_rows key p rows @ (if p r then [r] else [])"
proof -
  have "\<forall>r' \<in> set rows. key r' < key r"
    using fresh_id_greater [of _ "map key rows"] by (simp add: assms)
  then show ?thesis by (simp add: select_rows_def sort_key_snoc_greatest)
qed

section \<open>Transactions\<close>

text \<open>
  Code that runs on an open connection takes the database and returns its value with the new
  database, or the exception it raised.
\<close>

type_synonym ('a, 'd) tx = "'d \<Rightarrow> ('a \<times> 'd) res"

definition return_tx :: "'a \<Rightarrow> ('a, 'd) tx" where
  "return_tx x d = Inr (x, d)"

definition raise_tx :: "py_error \<Rightarrow> ('a, 'd) tx" where
  "raise_tx e d = Inl e"

definition bind_tx :: "('a, 'd) tx \<Rightarrow> ('a \<Rightarrow> ('b, 'd) tx) \<Rightarrow> ('b, 'd) tx" where
  "bind_tx m f d = bind_res (m d) (\<lambda>(x, d'). f x d')"

definition lift_res :: "'a res \<Rightarrow> ('a, 'd) tx" where
  "lift_res r d = bind_res r (\<lambda>x. Inr (x, d))"

definition query_tx :: "('d \<Rightarrow> 'a) \<Rightarrow> ('a, 'd) tx" where
  "query_tx f d = Inr (f d, d)"

definition update_tx :: "('d \<Rightarrow> 'd) \<Rightarrow> (unit, 'd) tx" where
  "update_tx f d = Inr ((), f d)"

definition when_tx :: "bool \<Rightarrow> (unit, 'd) tx \<Rightarrow> (unit, 'd) tx" where
  "when_tx p m = (if p then m else return_tx ())"

text \<open>A \<^verbatim>\<open>for\<close> statement; the first exception ends it.\<close>

fun each_tx :: "('a \<Rightarrow> (unit, 'd) tx) \<Rightarrow> 'a list \<Rightarrow> (unit, 'd) tx" where
  "each_tx f [] = return_tx ()"
| "each_tx f (x # xs) = bind_tx (f x) (\<lambda>_. each_tx f xs)"

lemma bind_tx_Inr: "bind_tx m f d = Inr (y, d2) \<longleftrightarrow> (\<exists>x d1. m d = Inr (x, d1) \<and> f x d1 = Inr (y, d2))"
  by (auto simp: bind_tx_def bind_res_Inr)

lemma lift_res_Inr: "lift_res r d = Inr (y, d') \<longleftrightarrow> r = Inr y \<and> d' = d"
  by (cases r) (auto simp: lift_res_def)

lemma when_tx_Inr: "when_tx p m d = Inr (u, d') \<longleftrightarrow> (if p then m d = Inr (u, d') else d' = d)"
  by (auto simp: when_tx_def return_tx_def)

lemma tx_apply [simp]:
  "return_tx x d = Inr (x, d)" "raise_tx e d = Inl e" "query_tx q d = Inr (q d, d)"
  "update_tx u d = Inr ((), u d)"
  by (simp_all add: return_tx_def raise_tx_def query_tx_def update_tx_def)

lemmas tx_Inr = bind_tx_Inr lift_res_Inr when_tx_Inr

text \<open>What every step keeps, a loop keeps.\<close>

lemma each_tx_invariant:
  assumes "each_tx f xs d = Inr (u, d')" and "P d"
    and "\<And>x d1 u1 d2. x \<in> set xs \<Longrightarrow> P d1 \<Longrightarrow> f x d1 = Inr (u1, d2) \<Longrightarrow> P d2"
  shows "P d'"
  using assms by (induction xs arbitrary: d) (auto simp: bind_tx_Inr)

text \<open>
  \<^verbatim>\<open>with engine.begin()\<close>: the changes are committed when the block ends and rolled back when it
  raises.
\<close>

definition transaction :: "('a, 'd) tx \<Rightarrow> 'd \<Rightarrow> 'a res \<times> 'd" where
  "transaction m d = (case m d of Inl e \<Rightarrow> (Inl e, d) | Inr (x, d') \<Rightarrow> (Inr x, d'))"

lemma transaction_cases:
  assumes "transaction m d = (r, d')"
  obtains (abort) e where "r = Inl e" "d' = d" "m d = Inl e"
    | (commit) x where "r = Inr x" "m d = Inr (x, d')"
  using assms by (auto simp: transaction_def split: sum.splits prod.splits)

end
