(* ===== verification/Py_Text.thy ===== *)
theory Py_Text
  imports Prelude
begin

text \<open>
  The operations of Python's \<^verbatim>\<open>str\<close> that the source uses, on lists of code points:
  \<^verbatim>\<open>strip\<close>, \<^verbatim>\<open>upper\<close>, \<^verbatim>\<open>isalnum\<close>, \<^verbatim>\<open>join\<close>, \<^verbatim>\<open>str(int)\<close> with its inverse \<^verbatim>\<open>int(str)\<close> on
  digit strings, and UTF-8 encoding.  The two facts the other theories build on are that
  decimal numerals and UTF-8 texts are read back uniquely.
\<close>

section \<open>Characters and stripping\<close>

text \<open>The code points for which \<^verbatim>\<open>str.isspace\<close> holds.\<close>

definition py_space :: "int \<Rightarrow> bool" where
  "py_space c \<longleftrightarrow> (9 \<le> c \<and> c \<le> 13) \<or> (28 \<le> c \<and> c \<le> 32) \<or> c = 133 \<or> c = 160 \<or> c = 5760
     \<or> (8192 \<le> c \<and> c \<le> 8202) \<or> c = 8232 \<or> c = 8233 \<or> c = 8239 \<or> c = 8287 \<or> c = 12288"

definition py_strip :: "pystr \<Rightarrow> pystr" where
  "py_strip s = rev (dropWhile py_space (rev (dropWhile py_space s)))"

text \<open>\<^verbatim>\<open>s.replace("Z", "+00:00")\<close>, which the readers of timestamps apply first.\<close>

definition replace_z :: "pystr \<Rightarrow> pystr" where
  "replace_z s = concat (map (\<lambda>c. if c = 90 then lit ''+00:00'' else [c]) s)"

text \<open>\<^verbatim>\<open>not s.strip()\<close>.\<close>

definition py_blank :: "pystr \<Rightarrow> bool" where
  "py_blank s \<longleftrightarrow> py_strip s = []"

lemma py_blank_iff: "py_blank s \<longleftrightarrow> list_all py_space s"
  by (auto simp: py_blank_def py_strip_def dropWhile_eq_Nil_conv list_all_iff
      dest: set_dropWhileD) (metis dropWhile_eq_Nil_conv hd_dropWhile hd_in_set)

lemma py_blank_Nil [simp]: "py_blank []"
  by (simp add: py_blank_iff)

text \<open>
  \<^verbatim>\<open>str.upper\<close>: ASCII letters, and the ten code points beyond ASCII whose upper case is
  made of ASCII letters.  The other code points are left as they are: their upper case has
  a character beyond ASCII, so no comparison with an ASCII word depends on it.
\<close>

definition py_upper_char :: "int \<Rightarrow> pystr" where
  "py_upper_char c =
     (if 97 \<le> c \<and> c \<le> 122 then [c - 32]
      else if c = 0xDF then lit ''SS'' else if c = 0x131 then lit ''I''
      else if c = 0x17F then lit ''S'' else if c = 0xFB00 then lit ''FF''
      else if c = 0xFB01 then lit ''FI'' else if c = 0xFB02 then lit ''FL''
      else if c = 0xFB03 then lit ''FFI'' else if c = 0xFB04 then lit ''FFL''
      else if c = 0xFB05 \<or> c = 0xFB06 then lit ''ST''
      else [c])"

definition py_upper :: "pystr \<Rightarrow> pystr" where
  "py_upper s = concat (map py_upper_char s)"

definition py_isalnum_char :: "pyenv \<Rightarrow> int \<Rightarrow> bool" where
  "py_isalnum_char E c =
     (if c < 128 then (48 \<le> c \<and> c \<le> 57) \<or> (65 \<le> c \<and> c \<le> 90) \<or> (97 \<le> c \<and> c \<le> 122)
      else ucd_alnum E c)"

text \<open>\<^verbatim>\<open>str.isalnum\<close>: every character, and at least one.\<close>

definition py_isalnum :: "pyenv \<Rightarrow> pystr \<Rightarrow> bool" where
  "py_isalnum E s \<longleftrightarrow> s \<noteq> [] \<and> list_all (py_isalnum_char E) s"

text \<open>\<^verbatim>\<open>s.replace(c, "")\<close> for one character.\<close>

definition py_remove :: "int \<Rightarrow> pystr \<Rightarrow> pystr" where
  "py_remove c s = filter (\<lambda>x. x \<noteq> c) s"

section \<open>Joining\<close>

fun py_join :: "pystr \<Rightarrow> pystr list \<Rightarrow> pystr" where
  "py_join sep [] = []"
| "py_join sep [x] = x"
| "py_join sep (x # y # zs) = x @ sep @ py_join sep (y # zs)"

lemma py_join_Cons:
  "py_join sep (x # xs) = (if xs = [] then x else x @ sep @ py_join sep xs)"
  by (cases xs) auto

section \<open>Decimal numerals\<close>

definition is_digit :: "int \<Rightarrow> bool" where
  "is_digit c \<longleftrightarrow> 48 \<le> c \<and> c \<le> 57"

function str_of_nat :: "int \<Rightarrow> pystr" where
  "str_of_nat n = (if n < 10 then [48 + n] else str_of_nat (n div 10) @ [48 + n mod 10])"
  by pat_completeness auto
termination
  by (relation "measure nat") auto

declare str_of_nat.simps [simp del]

definition str_of_int :: "int \<Rightarrow> pystr" where
  "str_of_int i = (if i < 0 then 45 # str_of_nat (- i) else str_of_nat i)"

definition nat_of_digits :: "pystr \<Rightarrow> int" where
  "nat_of_digits s = foldl (\<lambda>a d. 10 * a + (d - 48)) 0 s"

lemma nat_of_digits_snoc: "nat_of_digits (s @ [d]) = 10 * nat_of_digits s + (d - 48)"
  by (simp add: nat_of_digits_def)

lemma str_of_nat_nonempty [simp]: "str_of_nat n \<noteq> []"
  by (subst str_of_nat.simps) simp

lemma str_of_nat_digits: "0 \<le> n \<Longrightarrow> list_all is_digit (str_of_nat n)"
proof (induction n rule: str_of_nat.induct)
  case (1 n)
  show ?case
  proof (cases "n < 10")
    case True
    with "1.prems" show ?thesis by (subst str_of_nat.simps) (simp add: is_digit_def)
  next
    case False
    with 1 have "list_all is_digit (str_of_nat (n div 10))" by simp
    moreover have "is_digit (48 + n mod 10)"
      using pos_mod_bound [of 10 n] pos_mod_sign [of 10 n] unfolding is_digit_def by linarith
    ultimately show ?thesis using False by (subst str_of_nat.simps) simp
  qed
qed

lemma nat_of_digits_str_of_nat: "0 \<le> n \<Longrightarrow> nat_of_digits (str_of_nat n) = n"
proof (induction n rule: str_of_nat.induct)
  case (1 n)
  show ?case
  proof (cases "n < 10")
    case True
    then show ?thesis by (subst str_of_nat.simps) (simp add: nat_of_digits_def)
  next
    case False
    with 1 have "nat_of_digits (str_of_nat (n div 10)) = n div 10" by simp
    with False show ?thesis by (subst str_of_nat.simps) (simp add: nat_of_digits_snoc)
  qed
qed

text \<open>A numeral has no leading zero, but for zero itself.\<close>

lemma str_of_nat_hd:
  "0 \<le> n \<Longrightarrow> str_of_nat n = (if n = 0 then [48] else hd (str_of_nat n) # tl (str_of_nat n))
   \<and> (n \<noteq> 0 \<longrightarrow> 49 \<le> hd (str_of_nat n) \<and> hd (str_of_nat n) \<le> 57)"
proof (induction n rule: str_of_nat.induct)
  case (1 n)
  show ?case
  proof (cases "n < 10")
    case True
    with "1.prems" show ?thesis by (simp add: str_of_nat.simps [of n])
  next
    case False
    with 1 have "49 \<le> hd (str_of_nat (n div 10)) \<and> hd (str_of_nat (n div 10)) \<le> 57" by simp
    with False show ?thesis by (simp add: str_of_nat.simps [of n])
  qed
qed

lemma str_of_nat_inject: "0 \<le> m \<Longrightarrow> 0 \<le> n \<Longrightarrow> str_of_nat m = str_of_nat n \<longleftrightarrow> m = n"
  by (metis nat_of_digits_str_of_nat)

lemma str_of_int_inject [simp]: "str_of_int m = str_of_int n \<longleftrightarrow> m = n"
proof -
  have head: "0 \<le> k \<Longrightarrow> str_of_nat k \<noteq> 45 # s" for k s
    using str_of_nat_digits [of k] by (auto simp: is_digit_def)
  have "45 # s \<noteq> str_of_nat k" if "0 \<le> k" for k s
    using head [OF that] by metis
  then show ?thesis
    using head by (auto simp: str_of_int_def str_of_nat_inject)
qed

section \<open>UTF-8\<close>

text \<open>
  \<^verbatim>\<open>s.encode("utf-8")\<close>.  A lone surrogate, which \<^verbatim>\<open>encode\<close> rejects, is outside the model: it is
  encoded like its neighbours.
\<close>

definition utf8_char :: "int \<Rightarrow> bytes" where
  "utf8_char c =
     (if c < 0x80 then [c]
      else if c < 0x800 then [0xC0 + c div 64, 0x80 + c mod 64]
      else if c < 0x10000 then [0xE0 + c div 4096, 0x80 + c div 64 mod 64, 0x80 + c mod 64]
      else [0xF0 + c div 262144, 0x80 + c div 4096 mod 64, 0x80 + c div 64 mod 64,
            0x80 + c mod 64])"

definition utf8 :: "pystr \<Rightarrow> bytes" where
  "utf8 s = concat (map utf8_char s)"

lemma utf8_simps [simp]: "utf8 [] = []" "utf8 (c # s) = utf8_char c @ utf8 s"
  by (simp_all add: utf8_def)

lemma utf8_char_nonempty [simp]: "utf8_char c \<noteq> []"
  by (simp add: utf8_char_def)

lemma div_mod_64: "(c::int) = 64 * (c div 64) + c mod 64"
  by simp

text \<open>The lead byte tells how many bytes a character takes.\<close>

lemma utf8_lead:
  shows "hd (utf8_char c) < 0x80 \<longleftrightarrow> c < 0x80"
    and "hd (utf8_char c) < 0xE0 \<longleftrightarrow> c < 0x800"
    and "hd (utf8_char c) < 0xF0 \<longleftrightarrow> c < 0x10000"
proof -
  have 2: "0x80 \<le> c \<longrightarrow> 0 \<le> c div 64" "c < 0x800 \<longrightarrow> c div 64 < 32"
    and 3: "0x800 \<le> c \<longrightarrow> 0 \<le> c div 4096" "c < 0x10000 \<longrightarrow> c div 4096 < 16"
    and 4: "0x10000 \<le> c \<longrightarrow> 0 \<le> c div 262144"
    by linarith+
  have lead: "hd (utf8_char c) = (if c < 0x80 then c else if c < 0x800 then 0xC0 + c div 64
      else if c < 0x10000 then 0xE0 + c div 4096 else 0xF0 + c div 262144)"
    by (simp add: utf8_char_def)
  show "hd (utf8_char c) < 0x80 \<longleftrightarrow> c < 0x80"
    using 2 3 4 unfolding lead by (auto split: if_splits)
  show "hd (utf8_char c) < 0xE0 \<longleftrightarrow> c < 0x800"
    using 2 3 4 unfolding lead by (auto split: if_splits)
  show "hd (utf8_char c) < 0xF0 \<longleftrightarrow> c < 0x10000"
    using 2 3 4 unfolding lead by (auto split: if_splits)
qed

lemma utf8_char_prefix_free:
  assumes "utf8_char c @ xs = utf8_char d @ ys"
  shows "c = d \<and> xs = ys"
proof -
  have "hd (utf8_char c) = hd (utf8_char d)"
    using assms by (metis hd_append2 utf8_char_nonempty)
  then have same: "c < 0x80 \<longleftrightarrow> d < 0x80" "c < 0x800 \<longleftrightarrow> d < 0x800" "c < 0x10000 \<longleftrightarrow> d < 0x10000"
    using utf8_lead [of c] utf8_lead [of d] by simp_all
  have d3: "k div 64 div 64 = k div 4096" "k div 4096 div 64 = k div 262144" for k :: int
    using zdiv_zmult2_eq [of 64 k 64] zdiv_zmult2_eq [of 64 k 4096] by simp_all
  have eq2: "k = l" if "k div 64 = l div 64" "k mod 64 = l mod 64" for k l :: int
    using that by (metis div_mult_mod_eq)
  have eq3: "k = l" if "k div 4096 = l div 4096" "k div 64 mod 64 = l div 64 mod 64"
    "k mod 64 = l mod 64" for k l :: int
    by (rule eq2 [OF eq2]) (use that in \<open>simp_all only: d3\<close>)
  have eq4: "k = l" if "k div 262144 = l div 262144" "k div 4096 mod 64 = l div 4096 mod 64"
    "k div 64 mod 64 = l div 64 mod 64" "k mod 64 = l mod 64" for k l :: int
    by (rule eq3 [OF eq2]) (use that in \<open>simp_all only: d3\<close>)
  note inj = append_Cons append_Nil list.inject add_left_cancel if_False if_True
  consider "c < 0x80" | "\<not> c < 0x80" "c < 0x800" | "\<not> c < 0x80" "\<not> c < 0x800" "c < 0x10000"
    | "\<not> c < 0x80" "\<not> c < 0x800" "\<not> c < 0x10000"
    by linarith
  then show ?thesis
  proof cases
    case 1
    from assms show ?thesis by (simp only: utf8_char_def same [symmetric] 1 inj)
  next
    case 2
    from assms show ?thesis
      by (simp only: utf8_char_def same [symmetric] 2 inj) (blast intro: eq2)
  next
    case 3
    from assms show ?thesis
      by (simp only: utf8_char_def same [symmetric] 3 inj) (blast intro: eq3)
  next
    case 4
    from assms show ?thesis
      by (simp only: utf8_char_def same [symmetric] 4 inj) (blast intro: eq4)
  qed
qed

lemma utf8_inject [simp]: "utf8 s = utf8 t \<longleftrightarrow> s = t"
proof (induction s arbitrary: t)
  case Nil
  then show ?case by (cases t) auto
next
  case (Cons c s)
  show ?case
  proof (cases t)
    case Nil
    then show ?thesis by simp
  next
    case (Cons d u)
    with Cons.IH [of u] utf8_char_prefix_free [of c "utf8 s" d "utf8 u"] show ?thesis
      by auto
  qed
qed

end
