(* ===== verification/Py_Json.thy ===== *)
theory Py_Json
  imports Py_Text
begin

text \<open>
  JSON values, \<^verbatim>\<open>core.canonical_json\<close> (\<^verbatim>\<open>json.dumps\<close> with sorted keys, no white space and
  without ASCII escaping) and \<^verbatim>\<open>json.loads\<close>.  The main facts: \<^verbatim>\<open>loads\<close> reads a canonical text
  back as the value with its keys sorted, and two objects have the same canonical text
  exactly if they are equal as dictionaries.
\<close>

section \<open>Printing\<close>

definition hex_digit :: "int \<Rightarrow> int" where
  "hex_digit n = (if n < 10 then 48 + n else 87 + n)"

definition quote_char :: "int \<Rightarrow> pystr" where
  "quote_char c =
     (if c = 34 then [92, 34] else if c = 92 then [92, 92] else if c = 10 then [92, 110]
      else if c = 13 then [92, 114] else if c = 9 then [92, 116] else if c = 12 then [92, 102]
      else if c = 8 then [92, 98]
      else if 0 \<le> c \<and> c < 32 then [92, 117, 48, 48, hex_digit (c div 16), hex_digit (c mod 16)]
      else [c])"

definition quote :: "pystr \<Rightarrow> pystr" where
  "quote s = [34] @ concat (map quote_char s) @ [34]"

fun dump :: "json \<Rightarrow> pystr" where
  "dump JNull = lit ''null''"
| "dump (JBool b) = (if b then lit ''true'' else lit ''false'')"
| "dump (JInt i) = str_of_int i"
| "dump (JFloat s) = s"
| "dump (JStr s) = quote s"
| "dump (JList xs) = [91] @ py_join [44] (map dump xs) @ [93]"
| "dump (JObj kvs) =
     [123] @ py_join [44] (map (\<lambda>(k, v). quote k @ [58] @ dump v) kvs) @ [125]"

text \<open>\<^verbatim>\<open>sort_keys=True\<close> at every level.\<close>

fun jnorm :: "json \<Rightarrow> json" where
  "jnorm (JList xs) = JList (map jnorm xs)"
| "jnorm (JObj kvs) = JObj (sort_key fst (map (\<lambda>(k, v). (k, jnorm v)) kvs))"
| "jnorm j = j"

definition canonical_json :: "json \<Rightarrow> pystr" where
  "canonical_json j = dump (jnorm j)"

section \<open>Parsing\<close>

definition json_ws :: "int \<Rightarrow> bool" where
  "json_ws c \<longleftrightarrow> c = 32 \<or> c = 9 \<or> c = 10 \<or> c = 13"

definition skip_ws :: "pystr \<Rightarrow> pystr" where
  "skip_ws s = dropWhile json_ws s"

fun strip_prefix :: "pystr \<Rightarrow> pystr \<Rightarrow> pystr option" where
  "strip_prefix [] s = Some s"
| "strip_prefix (p # ps) [] = None"
| "strip_prefix (p # ps) (c # s) = (if p = c then strip_prefix ps s else None)"

definition hex_value :: "int \<Rightarrow> int option" where
  "hex_value c =
     (if 48 \<le> c \<and> c \<le> 57 then Some (c - 48) else if 97 \<le> c \<and> c \<le> 102 then Some (c - 87)
      else if 65 \<le> c \<and> c \<le> 70 then Some (c - 55) else None)"

definition hex4 :: "int \<Rightarrow> int \<Rightarrow> int \<Rightarrow> int \<Rightarrow> int option" where
  "hex4 a b c d =
     (case (hex_value a, hex_value b, hex_value c, hex_value d) of
        (Some w, Some x, Some y, Some z) \<Rightarrow> Some (4096 * w + 256 * x + 16 * y + z)
      | _ \<Rightarrow> None)"

definition unescape :: "int \<Rightarrow> int option" where
  "unescape e =
     (if e = 34 \<or> e = 92 \<or> e = 47 then Some e else if e = 98 then Some 8
      else if e = 102 then Some 12 else if e = 110 then Some 10 else if e = 114 then Some 13
      else if e = 116 then Some 9 else None)"

text \<open>The low half of a surrogate pair, if the text goes on with one.\<close>

definition low_surrogate :: "pystr \<Rightarrow> int option" where
  "low_surrogate s =
     (case s of
        x # y # a # b # c # d # _ \<Rightarrow>
          if x = 92 \<and> y = 117 then
            (case hex4 a b c d of
               None \<Rightarrow> None
             | Some l \<Rightarrow> if 0xDC00 \<le> l \<and> l \<le> 0xDFFF then Some l else None)
          else None
      | _ \<Rightarrow> None)"

text \<open>The rest of a string literal after its opening quote.\<close>

fun scan_string :: "pystr \<Rightarrow> (pystr \<times> pystr) option" where
  "scan_string [] = None"
| "scan_string (c # s) =
     (if c = 34 then Some ([], s)
      else if c = 92 then
        (case s of
           [] \<Rightarrow> None
         | e # s1 \<Rightarrow>
             if e = 117 then
               (case s1 of
                  w # x # y # z # s2 \<Rightarrow>
                    (case hex4 w x y z of
                       None \<Rightarrow> None
                     | Some u \<Rightarrow>
                         (case (if 0xD800 \<le> u \<and> u \<le> 0xDBFF then low_surrogate s2 else None) of
                            None \<Rightarrow> map_option (\<lambda>(t, r). (u # t, r)) (scan_string s2)
                          | Some l \<Rightarrow>
                              map_option
                                (\<lambda>(t, r). ((0x10000 + (u - 0xD800) * 1024 + (l - 0xDC00)) # t, r))
                                (scan_string (drop 6 s2))))
                | _ \<Rightarrow> None)
             else
               (case unescape e of
                  None \<Rightarrow> None
                | Some u \<Rightarrow> map_option (\<lambda>(t, r). (u # t, r)) (scan_string s1)))
      else if 0 \<le> c \<and> c < 32 then None
      else map_option (\<lambda>(t, r). (c # t, r)) (scan_string s))"

text \<open>
  Numerals: an optional sign, digits without a leading zero, an optional fraction and an
  optional exponent.  The scan returns the text of the numeral, whether it is a float, and
  the rest.
\<close>

definition scan_digits :: "pystr \<Rightarrow> (pystr \<times> pystr) option" where
  "scan_digits s =
     (case s of
        [] \<Rightarrow> None
      | c # r \<Rightarrow> if c = 48 then Some ([48], r)
                 else if is_digit c then Some (takeWhile is_digit s, dropWhile is_digit s)
                 else None)"

definition scan_frac :: "pystr \<Rightarrow> pystr \<times> pystr" where
  "scan_frac s =
     (case s of
        c # d # r \<Rightarrow>
          if c = 46 \<and> is_digit d
          then (46 # takeWhile is_digit (d # r), dropWhile is_digit (d # r)) else ([], s)
      | _ \<Rightarrow> ([], s))"

definition scan_sign :: "pystr \<Rightarrow> pystr \<times> pystr" where
  "scan_sign s =
     (case s of c # r \<Rightarrow> if c = 43 \<or> c = 45 then ([c], r) else ([], s) | [] \<Rightarrow> ([], s))"

definition scan_exp :: "pystr \<Rightarrow> pystr \<times> pystr" where
  "scan_exp s =
     (case s of
        e # r \<Rightarrow>
          if e = 69 \<or> e = 101 then
            (let (sg, r') = scan_sign r
             in if r' \<noteq> [] \<and> is_digit (hd r')
                then (e # sg @ takeWhile is_digit r', dropWhile is_digit r') else ([], s))
          else ([], s)
      | [] \<Rightarrow> ([], s))"

definition scan_minus :: "pystr \<Rightarrow> pystr \<times> pystr" where
  "scan_minus s = (case s of c # r \<Rightarrow> if c = 45 then ([45], r) else ([], s) | [] \<Rightarrow> ([], s))"

definition scan_numeral :: "pystr \<Rightarrow> (pystr \<times> bool \<times> pystr) option" where
  "scan_numeral s =
     (let (sg, s1) = scan_minus s
      in case scan_digits s1 of
           None \<Rightarrow> None
         | Some (ds, s2) \<Rightarrow>
             (let (fr, s3) = scan_frac s2; (ex, s4) = scan_exp s3
              in Some (sg @ ds @ fr @ ex, fr \<noteq> [] \<or> ex \<noteq> [], s4)))"

definition int_of_numeral :: "pystr \<Rightarrow> int" where
  "int_of_numeral s =
     (case s of c # r \<Rightarrow> if c = 45 then - nat_of_digits r else nat_of_digits s | [] \<Rightarrow> 0)"

definition scan_number :: "pyenv \<Rightarrow> pystr \<Rightarrow> (json \<times> pystr) option" where
  "scan_number E s =
     map_option
       (\<lambda>(t, fl, r). (if fl then JFloat (float_repr E t) else JInt (int_of_numeral t), r))
       (scan_numeral s)"

text \<open>\<^verbatim>\<open>dict(pairs)\<close>: a repeated key keeps its place and gets the last value.\<close>

fun dict_put :: "'k \<Rightarrow> 'v \<Rightarrow> ('k \<times> 'v) list \<Rightarrow> ('k \<times> 'v) list" where
  "dict_put k v [] = [(k, v)]"
| "dict_put k v (p # ps) = (if fst p = k then (k, v) # ps else p # dict_put k v ps)"

definition dict_of :: "('k \<times> 'v) list \<Rightarrow> ('k \<times> 'v) list" where
  "dict_of kvs = foldl (\<lambda>d (k, v). dict_put k v d) [] kvs"

text \<open>The constants of the grammar, tried after strings, objects and arrays.\<close>

definition scan_constant :: "pystr \<Rightarrow> (json \<times> pystr) option" where
  "scan_constant s =
     (case strip_prefix (lit ''null'') s of Some r \<Rightarrow> Some (JNull, r) | None \<Rightarrow>
      (case strip_prefix (lit ''true'') s of Some r \<Rightarrow> Some (JBool True, r) | None \<Rightarrow>
       (case strip_prefix (lit ''false'') s of Some r \<Rightarrow> Some (JBool False, r) | None \<Rightarrow> None)))"

definition scan_special :: "pystr \<Rightarrow> (json \<times> pystr) option" where
  "scan_special s =
     (case strip_prefix (lit ''NaN'') s of Some r \<Rightarrow> Some (JFloat (lit ''NaN''), r) | None \<Rightarrow>
      (case strip_prefix (lit ''Infinity'') s of Some r \<Rightarrow> Some (JFloat (lit ''Infinity''), r) | None \<Rightarrow>
       (case strip_prefix (lit ''-Infinity'') s of
          Some r \<Rightarrow> Some (JFloat (lit ''-Infinity''), r) | None \<Rightarrow> None)))"

definition scan_atom :: "pyenv \<Rightarrow> pystr \<Rightarrow> (json \<times> pystr) option" where
  "scan_atom E s =
     (case scan_constant s of
        Some x \<Rightarrow> Some x
      | None \<Rightarrow> (case scan_number E s of Some x \<Rightarrow> Some x | None \<Rightarrow> scan_special s))"

text \<open>
  \<^verbatim>\<open>scan_once\<close> with its array and object loops.  The fuel bounds the depth of the calls;
  \<open>loads\<close> gives twice the length of the text, which \<open>scan_fuel\<close> below shows is enough.
\<close>

fun scan_value :: "pyenv \<Rightarrow> nat \<Rightarrow> pystr \<Rightarrow> (json \<times> pystr) option"
  and scan_elems :: "pyenv \<Rightarrow> nat \<Rightarrow> pystr \<Rightarrow> (json list \<times> pystr) option"
  and scan_members :: "pyenv \<Rightarrow> nat \<Rightarrow> pystr \<Rightarrow> ((pystr \<times> json) list \<times> pystr) option"
where
  "scan_value E 0 s = None"
| "scan_value E (Suc n) s =
     (case s of
        [] \<Rightarrow> None
      | c # r \<Rightarrow>
          if c = 34 then map_option (\<lambda>(t, r'). (JStr t, r')) (scan_string r)
          else if c = 123 then
            (case skip_ws r of
               [] \<Rightarrow> None
             | d # r' \<Rightarrow>
                 if d = 125 then Some (JObj [], r')
                 else map_option (\<lambda>(kvs, q). (JObj (dict_of kvs), q)) (scan_members E n (d # r')))
          else if c = 91 then
            (case skip_ws r of
               [] \<Rightarrow> None
             | d # r' \<Rightarrow>
                 if d = 93 then Some (JList [], r')
                 else map_option (\<lambda>(vs, q). (JList vs, q)) (scan_elems E n (d # r')))
          else scan_atom E s)"
| "scan_elems E 0 s = None"
| "scan_elems E (Suc n) s =
     (case scan_value E n s of
        None \<Rightarrow> None
      | Some (v, r) \<Rightarrow>
          (case skip_ws r of
             [] \<Rightarrow> None
           | d # r' \<Rightarrow>
               if d = 93 then Some ([v], r')
               else if d = 44 then
                 map_option (\<lambda>(vs, q). (v # vs, q)) (scan_elems E n (skip_ws r'))
               else None))"
| "scan_members E 0 s = None"
| "scan_members E (Suc n) s =
     (case s of
        [] \<Rightarrow> None
      | c # r \<Rightarrow>
          if c \<noteq> 34 then None
          else
            (case scan_string r of
               None \<Rightarrow> None
             | Some (k, r1) \<Rightarrow>
                 (case skip_ws r1 of
                    [] \<Rightarrow> None
                  | d # r2 \<Rightarrow>
                      if d \<noteq> 58 then None
                      else
                        (case scan_value E n (skip_ws r2) of
                           None \<Rightarrow> None
                         | Some (v, r3) \<Rightarrow>
                             (case skip_ws r3 of
                                [] \<Rightarrow> None
                              | e # r4 \<Rightarrow>
                                  if e = 125 then Some ([(k, v)], r4)
                                  else if e = 44 then
                                    map_option (\<lambda>(kvs, q). ((k, v) # kvs, q))
                                      (scan_members E n (skip_ws r4))
                                  else None)))))"

definition loads :: "pyenv \<Rightarrow> pystr \<Rightarrow> json res" where
  "loads E s =
     (case scan_value E (2 * length s + 2) (skip_ws s) of
        None \<Rightarrow> Inl JSONDecodeError
      | Some (v, r) \<Rightarrow> if skip_ws r = [] then Inr v else Inl JSONDecodeError)"

section \<open>The fuel of the parser\<close>

lemma length_skip_ws: "length (skip_ws s) \<le> length s"
  by (simp add: skip_ws_def length_dropWhile_le)

lemma skip_ws_shorter: "skip_ws s = c # r \<Longrightarrow> length r < length s"
  using length_skip_ws [of s] by simp

lemma less_skip_ws: "length a < length (skip_ws s) \<Longrightarrow> length a < length s"
  using length_skip_ws [of s] by simp

lemma scan_string_shorter: "scan_string s = Some (t, r) \<Longrightarrow> length r < length s"
proof (induction s arbitrary: t r rule: scan_string.induct)
  case 1
  then show ?case by simp
next
  case (2 c s)
  then show ?case
    by (fastforce split: if_splits list.splits option.splits)
qed

lemma strip_prefix_shorter: "strip_prefix p s = Some r \<Longrightarrow> length s = length p + length r"
  by (induction p s rule: strip_prefix.induct) (auto split: if_splits)

lemma scan_digits_shorter: "scan_digits s = Some (t, r) \<Longrightarrow> length r < length s"
  by (auto simp: scan_digits_def length_dropWhile_le less_Suc_eq_le split: list.splits if_splits)

lemma scan_frac_length: "length (snd (scan_frac s)) \<le> length s"
  by (auto simp: scan_frac_def length_dropWhile_le le_SucI split: list.splits)

lemma scan_exp_length: "length (snd (scan_exp s)) \<le> length s"
  using length_dropWhile_le [of is_digit]
  by (auto simp: scan_exp_def scan_sign_def le_SucI split: list.splits prod.splits if_splits)

lemma scan_numeral_shorter:
  assumes "scan_numeral s = Some (t, fl, r)"
  shows "length r < length s"
proof -
  obtain sg s1 where s1: "scan_minus s = (sg, s1)" by fastforce
  then have "length s1 \<le> length s" by (auto simp: scan_minus_def split: list.splits if_splits)
  moreover from assms s1 obtain ds s2 where ds: "scan_digits s1 = Some (ds, s2)"
    by (auto simp: scan_numeral_def split: option.splits)
  with assms s1 have "r = snd (scan_exp (snd (scan_frac s2)))"
    by (auto simp: scan_numeral_def Let_def case_prod_unfold)
  then have "length r \<le> length s2"
    using scan_exp_length scan_frac_length order_trans by metis
  ultimately show ?thesis using scan_digits_shorter [OF ds] by simp
qed

lemma scan_atom_shorter: "scan_atom E s = Some (v, r) \<Longrightarrow> length r < length s"
  by (auto simp: scan_atom_def scan_constant_def scan_special_def scan_number_def
      dest!: strip_prefix_shorter scan_numeral_shorter split: option.splits)

lemma scan_shorter:
  "scan_value E n s = Some (v, r) \<Longrightarrow> length r < length s"
  "scan_elems E n s = Some (vs, r) \<Longrightarrow> length r < length s"
  "scan_members E n s = Some (kvs, r) \<Longrightarrow> length r < length s"
proof (induction n arbitrary: s v vs kvs r)
  case 0
  { case 1 then show ?case by simp
  next case 2 then show ?case by simp
  next case 3 then show ?case by simp }
next
  case (Suc n)
  note IH = Suc.IH scan_string_shorter scan_atom_shorter skip_ws_shorter
  { case 1 then show ?case
      by (auto dest!: IH split: list.splits if_splits)
  next case 2 then show ?case
      by (auto dest!: IH less_skip_ws split: option.splits list.splits if_splits)
  next case 3 then show ?case
      by (auto dest!: IH less_skip_ws split: option.splits list.splits if_splits) }
qed

text \<open>Any two amounts of fuel above twice the length give the same result.\<close>

lemma scan_fuel:
  "2 * length s < n \<Longrightarrow> 2 * length s < m \<Longrightarrow> scan_value E n s = scan_value E m s"
  "2 * length s + 1 < n \<Longrightarrow> 2 * length s + 1 < m \<Longrightarrow> scan_elems E n s = scan_elems E m s"
  "2 * length s < n \<Longrightarrow> 2 * length s < m \<Longrightarrow> scan_members E n s = scan_members E m s"
proof (induction n arbitrary: s m)
  case 0
  { case 1 then show ?case by simp
  next case 2 then show ?case by simp
  next case 3 then show ?case by simp }
next
  case (Suc n)
  have skip: "2 * length (skip_ws r) < k" if "2 * length r < k" for r k
    using that length_skip_ws [of r] by linarith
  { case 1
    then obtain m' where m: "m = Suc m'" by (cases m) auto
    show ?case
    proof (cases s)
      case (Cons c r)
      have "scan_members E n (d # r') = scan_members E m' (d # r')"
        "scan_elems E n (d # r') = scan_elems E m' (d # r')"
        if "skip_ws r = d # r'" for d r'
        using that length_skip_ws [of r] 1 Cons m by (auto intro!: Suc.IH)
      with Cons m show ?thesis by (auto split: list.splits)
    qed (simp add: m)
  next case 2
    then obtain m' where m: "m = Suc m'" by (cases m) auto
    have v: "scan_value E n s = scan_value E m' s"
      using 2 m by (intro Suc.IH) auto
    have "scan_elems E n (skip_ws r') = scan_elems E m' (skip_ws r')"
      if "scan_value E m' s = Some (x, r)" "skip_ws r = d # r'" for x r d r'
      using that 2 m scan_shorter(1) [OF that(1)] skip_ws_shorter [OF that(2)] length_skip_ws [of r']
      by (intro Suc.IH) auto
    with v m show ?case by (auto split: option.splits list.splits)
  next case 3
    then obtain m' where m: "m = Suc m'" by (cases m) auto
    have v: "scan_value E n (skip_ws r2) = scan_value E m' (skip_ws r2)"
      if "s = c # r" "scan_string r = Some (k, r1)" "skip_ws r1 = d # r2" for c r k r1 d r2
      using that 3 m scan_string_shorter [OF that(2)] skip_ws_shorter [OF that(3)]
        length_skip_ws [of r2]
      by (intro Suc.IH) auto
    have "scan_members E n (skip_ws r4) = scan_members E m' (skip_ws r4)"
      if "s = c # r" "scan_string r = Some (k, r1)" "skip_ws r1 = d # r2"
        "scan_value E m' (skip_ws r2) = Some (x, r3)" "skip_ws r3 = e # r4" for c r k r1 d r2 x r3 e r4
      using that(1) 3 m scan_string_shorter [OF that(2)] skip_ws_shorter [OF that(3)]
        length_skip_ws [of r2] scan_shorter(1) [OF that(4)] skip_ws_shorter [OF that(5)]
        length_skip_ws [of r4]
      by (intro Suc.IH) auto
    with v m show ?case by (auto split: option.splits list.splits) }
qed

section \<open>Reading back what was printed\<close>

lemma hex_value_digit: "0 \<le> n \<Longrightarrow> n < 16 \<Longrightarrow> hex_value (hex_digit n) = Some n"
  by (auto simp: hex_value_def hex_digit_def)

lemma scan_string_quote_char:
  "scan_string (quote_char c @ s) = map_option (\<lambda>(t, r). (c # t, r)) (scan_string s)"
proof (cases "c \<in> {34, 92, 10, 13, 9, 12, 8} \<or> 32 \<le> c \<or> c < 0")
  case True
  then show ?thesis by (auto simp: quote_char_def unescape_def)
next
  case False
  then have "0 \<le> c" "c < 32" by auto
  then have "hex4 48 48 (hex_digit (c div 16)) (hex_digit (c mod 16)) = Some c"
    by (simp add: hex4_def hex_value_digit) (simp add: hex_value_def)
  with \<open>0 \<le> c\<close> \<open>c < 32\<close> False show ?thesis by (simp add: quote_char_def)
qed

lemma scan_string_quote:
  "scan_string (concat (map quote_char s) @ 34 # rest) = Some (s, rest)"
  by (induction s) (simp_all add: scan_string_quote_char)

text \<open>What may follow a numeral without being read as part of it.\<close>

definition num_stop :: "pystr \<Rightarrow> bool" where
  "num_stop s \<longleftrightarrow> s = [] \<or> (\<not> is_digit (hd s) \<and> hd s \<notin> {43, 45, 46, 69, 101})"

lemma num_stop_simps [simp]: "num_stop []" "num_stop (44 # s)" "num_stop (93 # s)" "num_stop (125 # s)"
  by (simp_all add: num_stop_def is_digit_def)

lemma span_digits_append:
  assumes "num_stop rest"
  shows "takeWhile is_digit (s @ rest) = takeWhile is_digit s"
    and "dropWhile is_digit (s @ rest) = dropWhile is_digit s @ rest"
  using assms by (induction s) (cases rest; simp add: num_stop_def)+

lemma scan_digits_append:
  "num_stop rest \<Longrightarrow> scan_digits s = Some (t, r) \<Longrightarrow> scan_digits (s @ rest) = Some (t, r @ rest)"
  using span_digits_append [of rest s]
  by (cases s) (auto simp: scan_digits_def split: if_splits)

lemma scan_frac_append:
  assumes "num_stop rest"
  shows "scan_frac (s @ rest) = map_prod id (\<lambda>r. r @ rest) (scan_frac s)"
proof (cases s)
  case Nil
  with assms show ?thesis by (cases rest) (auto simp: scan_frac_def num_stop_def split: list.splits)
next
  case (Cons c r)
  with assms show ?thesis
    using span_digits_append [OF assms]
    by (cases r; cases rest) (auto simp: scan_frac_def num_stop_def split: list.splits)
qed

lemma scan_exp_append:
  assumes "num_stop rest"
  shows "scan_exp (s @ rest) = map_prod id (\<lambda>r. r @ rest) (scan_exp s)"
proof (cases s)
  case Nil
  with assms show ?thesis by (cases rest) (auto simp: scan_exp_def num_stop_def)
next
  case (Cons c r)
  have sg: "snd (scan_sign (r @ rest)) \<noteq> [] \<and> is_digit (hd (snd (scan_sign (r @ rest))))
      \<longleftrightarrow> snd (scan_sign r) \<noteq> [] \<and> is_digit (hd (snd (scan_sign r)))"
    using assms
    by (cases r; cases rest) (auto simp: scan_sign_def num_stop_def hd_append is_digit_def)
  have "scan_sign (r @ rest) = map_prod id (\<lambda>q. q @ rest) (scan_sign r)"
    if "snd (scan_sign r) \<noteq> []"
    using that by (cases r) (auto simp: scan_sign_def split: list.splits)
  with Cons sg show ?thesis
    using span_digits_append [OF assms]
    by (auto simp: scan_exp_def Let_def case_prod_unfold)
qed

lemma scan_numeral_append:
  assumes "num_stop rest" "scan_numeral s = Some (t, fl, r)"
  shows "scan_numeral (s @ rest) = Some (t, fl, r @ rest)"
proof -
  have m: "scan_minus (s @ rest) = map_prod id (\<lambda>r. r @ rest) (scan_minus s)"
    using assms(2) by (cases s) (auto simp: scan_minus_def scan_numeral_def scan_digits_def)
  from assms(2) obtain ds s2 where ds: "scan_digits (snd (scan_minus s)) = Some (ds, s2)"
    by (auto simp: scan_numeral_def split: option.splits prod.splits)
  show ?thesis
    using assms(2) ds scan_digits_append [OF assms(1) ds]
    by (simp add: scan_numeral_def m case_prod_unfold Let_def scan_frac_append [OF assms(1)]
        scan_exp_append [OF assms(1)])
qed

lemma takeWhile_all: "list_all P s \<Longrightarrow> takeWhile P s = s"
  by (induction s) auto

lemma dropWhile_all: "list_all P s \<Longrightarrow> dropWhile P s = []"
  by (induction s) auto

lemma scan_digits_str_of_nat:
  assumes "0 \<le> n"
  shows "scan_digits (str_of_nat n) = Some (str_of_nat n, [])"
proof (cases "n = 0")
  case True
  then show ?thesis by (simp add: scan_digits_def str_of_nat.simps)
next
  case False
  then obtain c r where s: "str_of_nat n = c # r" "49 \<le> c" "c \<le> 57"
    using str_of_nat_hd [OF assms] by (metis list.sel(1))
  with str_of_nat_digits [OF assms] show ?thesis
    by (simp add: scan_digits_def takeWhile_all dropWhile_all)
qed

lemma scan_numeral_str_of_int: "scan_numeral (str_of_int i) = Some (str_of_int i, False, [])"
proof -
  have "scan_minus (str_of_nat n) = ([], str_of_nat n)" if "0 \<le> n" for n
    using str_of_nat_digits [OF that]
    by (cases "str_of_nat n") (auto simp: scan_minus_def is_digit_def)
  then show ?thesis
    by (auto simp: str_of_int_def scan_numeral_def scan_digits_str_of_nat scan_frac_def scan_exp_def
        scan_minus_def)
qed

lemma int_of_numeral_str_of_int: "int_of_numeral (str_of_int i) = i"
proof (cases "i < 0")
  case True
  then show ?thesis by (simp add: str_of_int_def int_of_numeral_def nat_of_digits_str_of_nat)
next
  case False
  then show ?thesis
    using str_of_nat_digits [of i] nat_of_digits_str_of_nat [of i]
    by (cases "str_of_nat i") (auto simp: str_of_int_def int_of_numeral_def is_digit_def)
qed

text \<open>
  Values that Python can hold: the keys of a dictionary are distinct, and a float is one of the
  special texts or a numeral that is its own \<^verbatim>\<open>repr\<close>.
\<close>

definition float_text :: "pyenv \<Rightarrow> pystr \<Rightarrow> bool" where
  "float_text E s \<longleftrightarrow> s \<in> {lit ''NaN'', lit ''Infinity'', lit ''-Infinity''}
     \<or> (scan_numeral s = Some (s, True, []) \<and> float_repr E s = s)"

fun wf_json :: "pyenv \<Rightarrow> json \<Rightarrow> bool" where
  "wf_json E (JFloat s) \<longleftrightarrow> float_text E s"
| "wf_json E (JList xs) \<longleftrightarrow> (\<forall>x \<in> set xs. wf_json E x)"
| "wf_json E (JObj kvs) \<longleftrightarrow> distinct (map fst kvs)
     \<and> (\<forall>kv \<in> set kvs. wf_json E (snd kv))"
| "wf_json E _ \<longleftrightarrow> True"

lemma dict_put_new: "k \<notin> fst ` set d \<Longrightarrow> dict_put k v d = d @ [(k, v)]"
  by (induction d) auto

lemma dict_of_distinct: "distinct (map fst kvs) \<Longrightarrow> dict_of kvs = kvs"
proof -
  have "foldl (\<lambda>d (k, v). dict_put k v d) d kvs = d @ kvs"
    if "distinct (map fst (d @ kvs))" for d
    using that by (induction kvs arbitrary: d) (auto simp: dict_put_new)
  from this [of "[]"] show "distinct (map fst kvs) \<Longrightarrow> dict_of kvs = kvs"
    by (simp add: dict_of_def)
qed

lemma skip_ws_hd: "\<not> json_ws c \<Longrightarrow> skip_ws (c # s) = c # s"
  by (simp add: skip_ws_def)

lemma skip_ws_simps [simp]:
  "skip_ws [] = []" "skip_ws (44 # s) = 44 # s" "skip_ws (93 # s) = 93 # s"
  "skip_ws (125 # s) = 125 # s" "skip_ws (58 # s) = 58 # s" "skip_ws (34 # s) = 34 # s"
  by (simp_all add: skip_ws_def json_ws_def)

text \<open>A printed value starts with a character that is no white space and no closing bracket.\<close>

definition value_start :: "int \<Rightarrow> bool" where
  "value_start c \<longleftrightarrow> \<not> json_ws c \<and> c \<noteq> 93 \<and> c \<noteq> 125"

definition number_start :: "int \<Rightarrow> bool" where
  "number_start c \<longleftrightarrow> c = 45 \<or> is_digit c"

lemma scan_numeral_start:
  assumes "scan_numeral s = Some (t, fl, r)"
  shows "\<exists>c s'. s = c # s' \<and> number_start c"
  using assms
  by (cases s) (auto simp: scan_numeral_def scan_minus_def scan_digits_def number_start_def is_digit_def
      split: if_splits)

lemma scan_constant_number: "number_start c \<Longrightarrow> scan_constant (c # s) = None"
  by (auto simp: scan_constant_def number_start_def is_digit_def lit_def)

lemma scan_value_number:
  assumes "scan_numeral s = Some (t, fl, [])" "num_stop rest" "0 < n"
  shows "scan_value E n (s @ rest) =
     Some (if fl then JFloat (float_repr E t) else JInt (int_of_numeral t), rest)"
proof -
  obtain c s' where s: "s = c # s'" "number_start c"
    using scan_numeral_start [OF assms(1)] by blast
  then have "scan_atom E (s @ rest) =
      Some (if fl then JFloat (float_repr E t) else JInt (int_of_numeral t), rest)"
    using scan_numeral_append [OF assms(2,1)] scan_constant_number [OF s(2)]
    by (simp add: scan_atom_def scan_number_def)
  moreover obtain m where "n = Suc m" using assms(3) by (cases n) auto
  ultimately show ?thesis using s by (auto simp: number_start_def is_digit_def)
qed

lemma scan_value_special:
  assumes "s \<in> {lit ''NaN'', lit ''Infinity'', lit ''-Infinity''}" "0 < n"
  shows "scan_value E n (s @ rest) = Some (JFloat s, rest)"
proof -
  obtain m where "n = Suc m" using assms(2) by (cases n) auto
  with assms(1) show ?thesis
    by (auto simp: lit_def scan_atom_def scan_constant_def scan_number_def scan_numeral_def
        scan_minus_def scan_digits_def is_digit_def scan_special_def)
qed

lemma dump_start: "wf_json E j \<Longrightarrow> \<exists>c s. dump j = c # s \<and> value_start c"
proof (cases j)
  case (JInt i)
  then show ?thesis
    using scan_numeral_start [OF scan_numeral_str_of_int [of i]]
    by (auto simp: number_start_def value_start_def json_ws_def is_digit_def)
next
  case (JFloat s)
  moreover assume "wf_json E j"
  ultimately consider "s \<in> {lit ''NaN'', lit ''Infinity'', lit ''-Infinity''}"
    | "scan_numeral s = Some (s, True, [])"
    by (auto simp: float_text_def)
  then show ?thesis
  proof cases
    case 1
    with JFloat show ?thesis by (auto simp: lit_def value_start_def json_ws_def)
  next
    case 2
    from scan_numeral_start [OF this] JFloat show ?thesis
      by (auto simp: number_start_def value_start_def json_ws_def is_digit_def)
  qed
qed (auto simp: lit_def quote_def value_start_def json_ws_def)

lemma skip_ws_dump: "wf_json E j \<Longrightarrow> skip_ws (dump j @ rest) = dump j @ rest"
  using dump_start [of E j] by (auto simp: value_start_def skip_ws_hd)

text \<open>Arrays and objects, given that their items are read back.\<close>

lemma scan_elems_dump:
  assumes items: "\<And>x n rest. x \<in> set xs \<Longrightarrow> num_stop rest \<Longrightarrow> 2 * length (dump x @ rest) < n \<Longrightarrow>
      scan_value E n (dump x @ rest) = Some (x, rest)"
    and wf: "\<forall>x \<in> set xs. wf_json E x"
  shows "xs \<noteq> [] \<Longrightarrow> 2 * length (py_join [44] (map dump xs) @ 93 # rest) + 1 < n \<Longrightarrow>
      scan_elems E n (py_join [44] (map dump xs) @ 93 # rest) = Some (xs, rest)"
  using items wf
proof (induction xs arbitrary: n)
  case Nil
  then show ?case by simp
next
  case (Cons x xs)
  then obtain m where n: "n = Suc m" by (cases n) auto
  show ?case
  proof (cases xs)
    case Nil
    with Cons.prems n show ?thesis by simp
  next
    case (Cons y ys)
    let ?tail = "py_join [44] (map dump xs) @ 93 # rest"
    have "scan_value E m (dump x @ 44 # ?tail) = Some (x, 44 # ?tail)"
      using Cons.prems Cons n by simp
    moreover have "scan_elems E m ?tail = Some (xs, rest)"
      using Cons.prems Cons n by (intro Cons.IH) auto
    moreover have "skip_ws ?tail = ?tail"
      using Cons.prems(4) Cons skip_ws_dump [of E y] by (simp add: py_join_Cons)
    ultimately show ?thesis using n Cons by simp
  qed
qed

lemma scan_members_dump:
  assumes items: "\<And>k v n rest. (k, v) \<in> set kvs \<Longrightarrow> num_stop rest \<Longrightarrow> 2 * length (dump v @ rest) < n \<Longrightarrow>
      scan_value E n (dump v @ rest) = Some (v, rest)"
    and wf: "\<forall>kv \<in> set kvs. wf_json E (snd kv)"
  shows "kvs \<noteq> [] \<Longrightarrow>
      2 * length (py_join [44] (map (\<lambda>(k, v). quote k @ [58] @ dump v) kvs) @ 125 # rest) < n \<Longrightarrow>
      scan_members E n (py_join [44] (map (\<lambda>(k, v). quote k @ [58] @ dump v) kvs) @ 125 # rest)
        = Some (kvs, rest)"
  using items wf
proof (induction kvs arbitrary: n)
  case Nil
  then show ?case by simp
next
  case (Cons kv kvs)
  obtain k v where kv: "kv = (k, v)" by (cases kv)
  obtain m where n: "n = Suc m" using Cons.prems(2) by (cases n) auto
  have k: "scan_string (concat (map quote_char k) @ 34 # r) = Some (k, r)" for r
    using Cons.prems(4) kv by (simp add: scan_string_quote)
  have ws: "skip_ws (dump v @ r) = dump v @ r" for r
    using Cons.prems(4) kv skip_ws_dump [of E v] by simp
  show ?case
  proof (cases kvs)
    case Nil
    have "scan_value E m (dump v @ 125 # rest) = Some (v, 125 # rest)"
      using Cons.prems(2) kv n Nil by (intro Cons.prems(3)) (auto simp: quote_def)
    with Nil n kv show ?thesis by (simp add: quote_def k ws)
  next
    case (Cons kv' kvs')
    let ?tail = "py_join [44] (map (\<lambda>(k, v). quote k @ [58] @ dump v) kvs) @ 125 # rest"
    have "scan_value E m (dump v @ 44 # ?tail) = Some (v, 44 # ?tail)"
      using Cons.prems(2) kv n Cons by (intro Cons.prems(3)) (auto simp: quote_def)
    moreover have "scan_members E m ?tail = Some (kvs, rest)"
      using Cons.prems kv n Cons by (intro Cons.IH) (auto simp: quote_def)
    moreover have "skip_ws ?tail = ?tail"
      using Cons by (auto simp: py_join_Cons quote_def case_prod_unfold)
    ultimately show ?thesis using n Cons kv by (simp add: quote_def k ws)
  qed
qed

lemma size_item: "x \<in> set xs \<Longrightarrow> size (x::json) < size (JList xs)"
  by (induction xs) auto

lemma size_member: "(k, v) \<in> set kvs \<Longrightarrow> size (v::json) < size (JObj kvs)"
  by (induction kvs) auto

lemma scan_value_dump:
  "wf_json E j \<Longrightarrow> num_stop rest \<Longrightarrow> 2 * length (dump j @ rest) < n \<Longrightarrow>
   scan_value E n (dump j @ rest) = Some (j, rest)"
proof (induction j arbitrary: n rest rule: measure_induct_rule [where f = size])
  case (less j)
  obtain m where n: "n = Suc m" using less.prems(3) by (cases n) auto
  show ?case
  proof (cases j)
    case (JInt i)
    with less.prems n show ?thesis
      using scan_value_number [OF scan_numeral_str_of_int, of rest n E i]
      by (simp add: int_of_numeral_str_of_int)
  next
    case (JFloat s)
    with less.prems n have "scan_value E n (s @ rest) = Some (JFloat s, rest)"
      using scan_value_number [of s s True rest n E] scan_value_special [of s n E rest]
      by (auto simp: float_text_def simp del: scan_value.simps)
    with JFloat show ?thesis by simp
  next
    case (JStr s)
    with less.prems n show ?thesis by (simp add: quote_def scan_string_quote)
  next
    case (JList xs)
    show ?thesis
    proof (cases "xs = []")
      case True
      with JList n show ?thesis by simp
    next
      case False
      let ?body = "py_join [44] (map dump xs) @ 93 # rest"
      have wf: "\<forall>x \<in> set xs. wf_json E x" using less.prems JList by simp
      have "scan_elems E m ?body = Some (xs, rest)"
        using less.prems JList n False wf size_item
        by (intro scan_elems_dump less.IH) auto
      moreover obtain t where "py_join [44] (map dump xs) = dump (hd xs) @ t"
        using False by (cases xs; cases "tl xs") auto
      then obtain c s where "?body = c # s" "value_start c"
        using False wf dump_start [of E "hd xs"] by auto
      ultimately show ?thesis using JList n by (simp add: value_start_def skip_ws_hd)
    qed
  next
    case (JObj kvs)
    show ?thesis
    proof (cases "kvs = []")
      case True
      with JObj n show ?thesis by simp
    next
      case False
      let ?body = "py_join [44] (map (\<lambda>(k, v). quote k @ [58] @ dump v) kvs) @ 125 # rest"
      have wf: "\<forall>kv \<in> set kvs. wf_json E (snd kv)"
        using less.prems JObj by simp
      have "scan_members E m ?body = Some (kvs, rest)"
        using less.prems JObj n False wf size_member
        by (intro scan_members_dump less.IH) auto
      moreover obtain s where "?body = 34 # s"
        using False by (cases kvs; cases "tl kvs") (auto simp: quote_def)
      ultimately show ?thesis
        using JObj n less.prems by (simp add: dict_of_distinct)
    qed
  qed (use less.prems n in \<open>auto simp: scan_atom_def scan_constant_def lit_def\<close>)
qed

lemma loads_dump: "wf_json E j \<Longrightarrow> loads E (dump j) = Inr j"
  using scan_value_dump [of E j "[]" "2 * length (dump j) + 2"] skip_ws_dump [of E j "[]"]
  by (simp add: loads_def)


section \<open>Canonical texts\<close>

lemma map_fst_sort_key: "map fst (sort_key fst kvs) = sort (map fst kvs)"
  by (rule properties_for_sort [symmetric]) simp_all

lemma alist_eq_map: "distinct (map fst kvs) \<Longrightarrow> map (\<lambda>k. (k, the (map_of kvs k))) (map fst kvs) = kvs"
proof -
  assume d: "distinct (map fst kvs)"
  have "map (\<lambda>kv. (fst kv, the (map_of kvs (fst kv)))) kvs = kvs"
  proof (rule map_idI)
    fix kv assume "kv \<in> set kvs"
    with d have "map_of kvs (fst kv) = Some (snd kv)" by (cases kv) simp
    then show "(fst kv, the (map_of kvs (fst kv))) = kv" by simp
  qed
  then show ?thesis by (simp add: comp_def)
qed

lemma map_of_sort_key:
  assumes "distinct (map fst kvs)"
  shows "map_of (sort_key fst kvs) = map_of kvs"
proof -
  have "distinct (map fst (sort_key fst kvs))"
    using assms by (simp add: map_fst_sort_key)
  with assms show ?thesis by (simp add: map_of_inject_set)
qed

lemma sort_key_fst_eq:
  assumes "distinct (map fst kvs)"
  shows "sort_key fst kvs = map (\<lambda>k. (k, the (map_of kvs k))) (sorted_list_of_set (fst ` set kvs))"
proof -
  have keys: "map fst (sort_key fst kvs) = sorted_list_of_set (fst ` set kvs)"
    using assms by (simp add: map_fst_sort_key sorted_list_of_set_sort_remdups distinct_remdups_id
        flip: set_map)
  have "distinct (map fst (sort_key fst kvs))"
    using assms by (simp add: map_fst_sort_key)
  from alist_eq_map [OF this] show ?thesis
    by (simp only: map_of_sort_key [OF assms] keys)
qed

lemma sort_key_fst_eq_iff:
  assumes "distinct (map fst a)" "distinct (map fst b)"
  shows "sort_key fst a = sort_key fst b \<longleftrightarrow> map_of a = map_of b"
proof
  assume "sort_key fst a = sort_key fst b"
  then show "map_of a = map_of b" using map_of_sort_key assms by metis
next
  assume "map_of a = map_of b"
  then have "fst ` set a = fst ` set b" by (metis dom_map_of_conv_image_fst)
  then show "sort_key fst a = sort_key fst b"
    using assms \<open>map_of a = map_of b\<close> by (simp add: sort_key_fst_eq)
qed

lemma map_fst_norm_items [simp]: "map fst (map (\<lambda>(k, v). (k, jnorm v)) kvs) = map fst kvs"
  by (induction kvs) auto

lemma wf_jnorm: "wf_json E j \<Longrightarrow> wf_json E (jnorm j)"
proof (induction j rule: jnorm.induct)
  case (2 kvs)
  have "distinct (map fst (sort_key fst (map (\<lambda>(k, v). (k, jnorm v)) kvs)))"
    using "2.prems" by (simp only: map_fst_sort_key map_fst_norm_items) simp
  then show ?case using 2 by fastforce
qed auto

lemma jnorm_idem: "jnorm (jnorm j) = jnorm j"
proof (induction j rule: jnorm.induct)
  case (2 kvs)
  let ?f = "\<lambda>(k, v). (k, jnorm v)"
  have "map ?f (sort_key fst (map ?f kvs)) = sort_key fst (map ?f kvs)"
    by (rule map_idI) (use 2 in fastforce)
  moreover have "sort_key fst (sort_key fst (map ?f kvs)) = sort_key fst (map ?f kvs)"
    by (rule sort_key_id) simp
  ultimately show ?case by simp
qed auto

theorem loads_canonical: "wf_json E j \<Longrightarrow> loads E (canonical_json j) = Inr (jnorm j)"
  by (simp add: canonical_json_def loads_dump wf_jnorm)

lemma canonical_json_inject:
  "wf_json E a \<Longrightarrow> wf_json E b \<Longrightarrow> canonical_json a = canonical_json b \<longleftrightarrow> jnorm a = jnorm b"
  by (metis loads_canonical canonical_json_def sum.inject(2))

lemma canonical_jnorm [simp]: "canonical_json (jnorm j) = canonical_json j"
  by (simp add: canonical_json_def jnorm_idem)

theorem canonical_object_eq:
  assumes "wf_json E (JObj a)" "wf_json E (JObj b)"
  shows "canonical_json (JObj a) = canonical_json (JObj b) \<longleftrightarrow>
    (\<forall>k. map_option canonical_json (map_of a k) = map_option canonical_json (map_of b k))"
proof -
  have m: "map_of (map (\<lambda>(k, v). (k, jnorm v)) kvs) k = map_option jnorm (map_of kvs k)" for kvs k
    by (induction kvs) auto
  note m' = m [unfolded case_prod_unfold]
  have item: "map_option jnorm (map_of a k) = map_option jnorm (map_of b k) \<longleftrightarrow>
      map_option canonical_json (map_of a k) = map_option canonical_json (map_of b k)" for k
    using assms canonical_json_inject [of E]
    by (cases "map_of a k"; cases "map_of b k") (force dest!: map_of_SomeD)+
  have "canonical_json (JObj a) = canonical_json (JObj b) \<longleftrightarrow> jnorm (JObj a) = jnorm (JObj b)"
    using assms by (rule canonical_json_inject)
  also have "\<dots> \<longleftrightarrow> (\<forall>k. map_option jnorm (map_of a k) = map_option jnorm (map_of b k))"
    using assms by (simp add: sort_key_fst_eq_iff fun_eq_iff m' comp_def case_prod_unfold)
  finally show ?thesis by (simp add: item)
qed

section \<open>What the parser returns\<close>

text \<open>The documented behaviour of \<^verbatim>\<open>float\<close> and \<^verbatim>\<open>repr\<close>: the text of a float reads as itself.\<close>

definition float_law :: "pyenv \<Rightarrow> bool" where
  "float_law E \<longleftrightarrow> (\<forall>t. float_text E (float_repr E t))"

lemma keys_dict_put: "fst ` set (dict_put k v d) = insert k (fst ` set d)"
  by (induction d) auto

lemma distinct_dict_put: "distinct (map fst d) \<Longrightarrow> distinct (map fst (dict_put k v d))"
proof (induction d)
  case (Cons p d)
  then show ?case using keys_dict_put [of k v d] by auto
qed simp

lemma set_dict_put: "set (dict_put k v d) \<subseteq> insert (k, v) (set d)"
  by (induction d) auto

lemma dict_of_snoc: "dict_of (kvs @ [(k, v)]) = dict_put k v (dict_of kvs)"
  by (simp add: dict_of_def)

lemma distinct_dict_of: "distinct (map fst (dict_of kvs))"
  by (induction kvs rule: rev_induct) (auto simp: dict_of_snoc distinct_dict_put, simp add: dict_of_def)

lemma set_dict_of: "set (dict_of kvs) \<subseteq> set kvs"
proof (induction kvs rule: rev_induct)
  case (snoc kv kvs)
  then show ?case using set_dict_put [of "fst kv" "snd kv" "dict_of kvs"]
    by (cases kv) (auto simp: dict_of_snoc)
qed (simp add: dict_of_def)

lemma scan_atom_wf: "float_law E \<Longrightarrow> scan_atom E s = Some (v, r) \<Longrightarrow> wf_json E v"
  by (auto simp: scan_atom_def scan_constant_def scan_special_def scan_number_def float_law_def
      float_text_def split: option.splits if_splits)

lemma scan_wf:
  assumes "float_law E"
  shows "scan_value E n s = Some (v, r) \<Longrightarrow> wf_json E v"
    and "scan_elems E n s = Some (vs, r) \<Longrightarrow> \<forall>x \<in> set vs. wf_json E x"
    and "scan_members E n s = Some (kvs, r) \<Longrightarrow> \<forall>kv \<in> set kvs. wf_json E (snd kv)"
proof (induction n arbitrary: s v vs kvs r)
  case 0
  { case 1 then show ?case by simp
  next case 2 then show ?case by simp
  next case 3 then show ?case by simp }
next
  case (Suc n)
  { case 1
    then show ?case
      using scan_atom_wf [OF assms] Suc.IH set_dict_of
      by (auto split: list.splits if_splits simp: distinct_dict_of) fastforce+
  next case 2
    then show ?case
      by (auto split: list.splits option.splits if_splits dest!: Suc.IH)
  next case 3
    then show ?case
      by (auto split: list.splits option.splits if_splits dest!: Suc.IH) fastforce+ }
qed

lemma loads_wf: "float_law E \<Longrightarrow> loads E s = Inr v \<Longrightarrow> wf_json E v"
  using scan_wf(1) [of E "2 * length s + 2" "skip_ws s"]
  by (auto simp: loads_def simp del: scan_value.simps split: option.splits if_splits)

section \<open>Hashing and a concrete runtime\<close>

text \<open>The documented shape of a digest: \<^verbatim>\<open>hexdigest()\<close> of SHA-256 has 64 hexadecimal digits.\<close>

definition is_hex :: "int \<Rightarrow> bool" where
  "is_hex c \<longleftrightarrow> (48 \<le> c \<and> c \<le> 57) \<or> (97 \<le> c \<and> c \<le> 102)"

definition sha_law :: "pyenv \<Rightarrow> bool" where
  "sha_law E \<longleftrightarrow> (\<forall>b. length (sha256_hex E b) = 64 \<and> list_all is_hex (sha256_hex E b))"

definition env_law :: "pyenv \<Rightarrow> bool" where
  "env_law E \<longleftrightarrow> sha_law E \<and> float_law E"

lemma sha_length [simp]: "env_law E \<Longrightarrow> length (sha256_hex E b) = 64"
  by (simp add: env_law_def sha_law_def)

lemma sha_hex: "env_law E \<Longrightarrow> c \<in> set (sha256_hex E b) \<Longrightarrow> is_hex c"
  by (auto simp: env_law_def sha_law_def list_all_iff)

lemma sha_nonempty: "env_law E \<Longrightarrow> sha256_hex E b \<noteq> []"
  using sha_length [of E b] by fastforce

lemma sha_not_lit: "env_law E \<Longrightarrow> length s \<noteq> 64 \<Longrightarrow> sha256_hex E b \<noteq> lit s"
  using sha_length [of E b] by fastforce

definition sha256_json :: "pyenv \<Rightarrow> json \<Rightarrow> pystr" where
  "sha256_json E v = sha256_hex E (utf8 (canonical_json v))"

lemma sha256_jnorm [simp]: "sha256_json E (jnorm v) = sha256_json E v"
  by (simp add: sha256_json_def)

text \<open>
  A concrete runtime for the witnesses: a polynomial checksum printed with 64 digits in the
  place of SHA-256, floats whose text is their own, and no letters beyond ASCII.
\<close>

definition demo_sha :: "bytes \<Rightarrow> pystr" where
  "demo_sha b = (let n = str_of_nat (foldl (\<lambda>a c. (a * 31 + c) mod 1000003) 1 b)
     in take 64 (replicate (64 - length n) 48 @ n))"

definition demo_repr :: "pystr \<Rightarrow> pystr" where
  "demo_repr t = (if scan_numeral t = Some (t, True, []) then t else lit ''0.0'')"

definition demo_alnum :: "int \<Rightarrow> bool" where
  "demo_alnum c = False"

definition demo_env :: pyenv where
  "demo_env = \<lparr>sha256_hex = demo_sha, float_repr = demo_repr, ucd_alnum = demo_alnum\<rparr>"

lemma demo_sha_shape: "length (demo_sha b) = 64" "list_all is_hex (demo_sha b)"
proof -
  define n where "n = foldl (\<lambda>a c. (a * 31 + c) mod 1000003) 1 b"
  have "0 \<le> n" unfolding n_def by (induction b rule: rev_induct) simp_all
  then have d: "list_all is_hex (str_of_nat n)"
    using str_of_nat_digits [of n] by (auto simp: list_all_iff is_hex_def is_digit_def)
  have eq: "demo_sha b = take 64 (replicate (64 - length (str_of_nat n)) 48 @ str_of_nat n)"
    by (simp add: demo_sha_def Let_def n_def)
  show "length (demo_sha b) = 64" unfolding eq by simp
  show "list_all is_hex (demo_sha b)"
    unfolding eq using d by (auto simp: list_all_iff is_hex_def dest!: in_set_takeD)
qed

lemma demo_env_law [simp]: "env_law demo_env"
proof -
  have "scan_numeral (lit ''0.0'') = Some (lit ''0.0'', True, [])" by code_simp
  then show ?thesis
    by (simp add: env_law_def sha_law_def float_law_def float_text_def demo_env_def demo_sha_shape
        demo_repr_def Let_def)
qed

definition demo_clock :: clock where
  "demo_clock i = lit ''2026-01-01T00Z''"

end
