(* ===== verification/Json_Layout.thy ===== *)
theory Json_Layout
  imports Py_Json
begin

text \<open>
  The other texts that \<^verbatim>\<open>json.dumps\<close> writes in the source: with its default separators, with
  \<^verbatim>\<open>indent=2\<close>, and with characters beyond ASCII escaped.  The main fact: \<open>loads\<close> reads a value back
  from any of these layouts, also with white space after it.
\<close>

section \<open>Layouts\<close>

text \<open>
  The white space that \<^verbatim>\<open>json.dumps\<close> puts around brackets at a depth, after commas and after colons,
  and how it writes a string.
\<close>

record layout =
  ly_bracket :: "nat \<Rightarrow> pystr"
  ly_comma :: "nat \<Rightarrow> pystr"
  ly_colon :: pystr
  ly_quote :: "pystr \<Rightarrow> pystr"

fun pdump :: "layout \<Rightarrow> nat \<Rightarrow> json \<Rightarrow> pystr" where
  "pdump L n (JStr s) = ly_quote L s"
| "pdump L n (JList xs) =
     (if xs = [] then [91, 93]
      else [91] @ ly_bracket L (Suc n) @ py_join (44 # ly_comma L (Suc n)) (map (pdump L (Suc n)) xs)
        @ ly_bracket L n @ [93])"
| "pdump L n (JObj kvs) =
     (if kvs = [] then [123, 125]
      else [123] @ ly_bracket L (Suc n) @ py_join (44 # ly_comma L (Suc n))
        (map (\<lambda>(k, v). ly_quote L k @ [58] @ ly_colon L @ pdump L (Suc n) v) kvs) @ ly_bracket L n @ [125])"
| "pdump L n j = dump j"

text \<open>The strings of a value, keys included.\<close>

fun json_texts :: "(pystr \<Rightarrow> bool) \<Rightarrow> json \<Rightarrow> bool" where
  "json_texts p (JStr s) \<longleftrightarrow> p s"
| "json_texts p (JList xs) \<longleftrightarrow> (\<forall>x \<in> set xs. json_texts p x)"
| "json_texts p (JObj kvs) \<longleftrightarrow> (\<forall>kv \<in> set kvs. p (fst kv) \<and> json_texts p (snd kv))"
| "json_texts p _ \<longleftrightarrow> True"

lemma json_texts_True [simp]: "json_texts (\<lambda>_. True) j"
  by (induction j) auto

definition layout_ok :: "layout \<Rightarrow> (pystr \<Rightarrow> bool) \<Rightarrow> bool" where
  "layout_ok L p \<longleftrightarrow> (\<forall>n. list_all json_ws (ly_bracket L n) \<and> list_all json_ws (ly_comma L n))
     \<and> list_all json_ws (ly_colon L)
     \<and> (\<forall>s rest. p s \<longrightarrow> (\<exists>t. ly_quote L s = 34 # t \<and> scan_string (t @ rest) = Some (s, rest)))"

section \<open>Reading a laid out text\<close>

lemma skip_ws_append: "list_all json_ws w \<Longrightarrow> skip_ws (w @ r) = skip_ws r"
  by (induction w) (auto simp: skip_ws_def)

lemma num_stop_ws: "list_all json_ws w \<Longrightarrow> num_stop r \<Longrightarrow> num_stop (w @ r)"
  by (cases w) (auto simp: num_stop_def json_ws_def is_digit_def)

lemma layout_okD:
  assumes "layout_ok L p"
  shows "list_all json_ws (ly_bracket L n)" "list_all json_ws (ly_comma L n)" "list_all json_ws (ly_colon L)"
  using assms by (auto simp: layout_ok_def)

lemma layout_quote:
  assumes "layout_ok L p" "p s"
  shows "\<exists>t. ly_quote L s = 34 # t \<and> (\<forall>rest. scan_string (t @ rest) = Some (s, rest))"
proof -
  from assms have *: "\<forall>rest. \<exists>t. ly_quote L s = 34 # t \<and> scan_string (t @ rest) = Some (s, rest)"
    unfolding layout_ok_def by blast
  then obtain t where t: "ly_quote L s = 34 # t" by blast
  with * have "scan_string (t @ rest) = Some (s, rest)" for rest by auto
  with t show ?thesis by blast
qed

lemma pdump_start:
  assumes "wf_json E j" "layout_ok L p" "json_texts p j"
  shows "\<exists>c s. pdump L n j = c # s \<and> value_start c"
proof (cases j)
  case (JStr s)
  with assms(3) have "p s" by simp
  with layout_quote [OF assms(2)] obtain t where "ly_quote L s = 34 # t" by blast
  with JStr show ?thesis by (simp add: value_start_def json_ws_def)
qed (use dump_start [OF assms(1)] in \<open>auto simp: value_start_def json_ws_def\<close>)

lemma skip_ws_pdump:
  "wf_json E j \<Longrightarrow> layout_ok L p \<Longrightarrow> json_texts p j \<Longrightarrow> skip_ws (pdump L n j @ rest) = pdump L n j @ rest"
  using pdump_start [of E j L p n] by (auto simp: value_start_def skip_ws_hd)

lemma scan_elems_pdump:
  assumes L: "layout_ok L p" and w: "list_all json_ws w"
    and items: "\<And>x n rest. x \<in> set xs \<Longrightarrow> num_stop rest \<Longrightarrow> 2 * length (pdump L k x @ rest) < n \<Longrightarrow>
      scan_value E n (pdump L k x @ rest) = Some (x, rest)"
    and wf: "\<forall>x \<in> set xs. wf_json E x \<and> json_texts p x"
  shows "xs \<noteq> [] \<Longrightarrow> 2 * length (py_join (44 # ly_comma L k) (map (pdump L k) xs) @ w @ 93 # rest) + 1 < n \<Longrightarrow>
      scan_elems E n (py_join (44 # ly_comma L k) (map (pdump L k) xs) @ w @ 93 # rest) = Some (xs, rest)"
  using items wf
proof (induction xs arbitrary: n)
  case Nil
  then show ?case by simp
next
  case (Cons x xs)
  then obtain m where n: "n = Suc m" by (cases n) auto
  show ?case
  proof (cases xs)
    case Nil
    have "scan_value E m (pdump L k x @ w @ 93 # rest) = Some (x, w @ 93 # rest)"
      using Cons.prems n Nil by (intro Cons.prems(3)) (auto intro: num_stop_ws [OF w])
    with Nil n show ?thesis by (simp add: skip_ws_append [OF w])
  next
    case (Cons y ys)
    let ?tail = "py_join (44 # ly_comma L k) (map (pdump L k) xs) @ w @ 93 # rest"
    have "scan_value E m (pdump L k x @ 44 # ly_comma L k @ ?tail) = Some (x, 44 # ly_comma L k @ ?tail)"
      using Cons.prems Cons n by simp
    moreover have "scan_elems E m ?tail = Some (xs, rest)"
      using Cons.prems Cons n by (intro Cons.IH) auto
    moreover have "skip_ws (ly_comma L k @ ?tail) = ?tail"
      using Cons.prems(4) Cons skip_ws_pdump [of E y L p k] L
      by (simp add: py_join_Cons skip_ws_append [OF layout_okD(2) [OF L]])
    ultimately show ?thesis using n Cons by simp
  qed
qed

lemma scan_members_pdump:
  assumes L: "layout_ok L p" and w: "list_all json_ws w"
    and items: "\<And>i v n rest. (i, v) \<in> set kvs \<Longrightarrow> num_stop rest \<Longrightarrow> 2 * length (pdump L k v @ rest) < n \<Longrightarrow>
      scan_value E n (pdump L k v @ rest) = Some (v, rest)"
    and wf: "\<forall>kv \<in> set kvs. wf_json E (snd kv) \<and> json_texts p (snd kv) \<and> p (fst kv)"
  defines "mem \<equiv> \<lambda>(i, v). ly_quote L i @ [58] @ ly_colon L @ pdump L k v"
  shows "kvs \<noteq> [] \<Longrightarrow>
      2 * length (py_join (44 # ly_comma L k) (map mem kvs) @ w @ 125 # rest) < n \<Longrightarrow>
      scan_members E n (py_join (44 # ly_comma L k) (map mem kvs) @ w @ 125 # rest) = Some (kvs, rest)"
  using items wf
proof (induction kvs arbitrary: n)
  case Nil
  then show ?case by simp
next
  case (Cons kv kvs)
  obtain i v where kv: "kv = (i, v)" by (cases kv)
  obtain m where n: "n = Suc m" using Cons.prems(2) by (cases n) auto
  from Cons.prems(4) kv have "p i" by simp
  with layout_quote [OF L] obtain t where t: "ly_quote L i = 34 # t" "\<And>rest. scan_string (t @ rest) = Some (i, rest)"
    by blast
  have ws: "skip_ws (ly_colon L @ pdump L k v @ r) = pdump L k v @ r" for r
    using Cons.prems(4) kv skip_ws_pdump [of E v L p k] L
    by (simp add: skip_ws_append [OF layout_okD(3) [OF L]])
  show ?case
  proof (cases kvs)
    case Nil
    have "scan_value E m (pdump L k v @ w @ 125 # rest) = Some (v, w @ 125 # rest)"
      using Cons.prems(2) kv n Nil t(1)
      by (intro Cons.prems(3)) (auto simp: mem_def intro: num_stop_ws [OF w])
    with Nil n kv show ?thesis by (simp add: mem_def t ws skip_ws_append [OF w])
  next
    case (Cons kv' kvs')
    let ?tail = "py_join (44 # ly_comma L k) (map mem kvs) @ w @ 125 # rest"
    have "scan_value E m (pdump L k v @ 44 # ly_comma L k @ ?tail) = Some (v, 44 # ly_comma L k @ ?tail)"
      using Cons.prems(2) kv n Cons by (intro Cons.prems(3)) (auto simp: mem_def t(1))
    moreover have "scan_members E m ?tail = Some (kvs, rest)"
      using Cons.prems kv n Cons by (intro Cons.IH) (auto simp: mem_def t(1))
    moreover obtain i' v' where kv': "kv' = (i', v')" by (cases kv')
    obtain t' where "ly_quote L i' = 34 # t'"
      using Cons.prems(4) Cons kv' layout_quote [OF L, of i'] by auto
    then have "skip_ws (ly_comma L k @ ?tail) = ?tail"
      using Cons kv' by (simp add: py_join_Cons mem_def skip_ws_append [OF layout_okD(2) [OF L]])
    ultimately show ?thesis using n Cons kv
      by (simp add: mem_def t ws)
  qed
qed

lemma scan_value_pdump:
  assumes L: "layout_ok L p"
  shows "wf_json E j \<Longrightarrow> json_texts p j \<Longrightarrow> num_stop rest \<Longrightarrow> 2 * length (pdump L k j @ rest) < n \<Longrightarrow>
   scan_value E n (pdump L k j @ rest) = Some (j, rest)"
proof (induction j arbitrary: n k rest rule: measure_induct_rule [where f = size])
  case (less j)
  obtain m where n: "n = Suc m" using less.prems(4) by (cases n) auto
  note ws = layout_okD [OF L]
  show ?case
  proof (cases j)
    case (JStr s)
    with less.prems have "p s" by simp
    with layout_quote [OF L] obtain t where "ly_quote L s = 34 # t" "\<And>rest. scan_string (t @ rest) = Some (s, rest)"
      by blast
    with n JStr show ?thesis by simp
  next
    case (JList xs)
    show ?thesis
    proof (cases "xs = []")
      case True
      with JList n show ?thesis by simp
    next
      case False
      let ?body = "py_join (44 # ly_comma L (Suc k)) (map (pdump L (Suc k)) xs) @ ly_bracket L k @ 93 # rest"
      have wf: "\<forall>x \<in> set xs. wf_json E x \<and> json_texts p x" using less.prems JList by simp
      have "scan_elems E m ?body = Some (xs, rest)"
        using less.prems JList n False wf size_item
        by (intro scan_elems_pdump [OF L ws(1)] less.IH) auto
      moreover obtain t where "py_join (44 # ly_comma L (Suc k)) (map (pdump L (Suc k)) xs) = pdump L (Suc k) (hd xs) @ t"
        using False by (cases xs; cases "tl xs") auto
      then obtain c s where "?body = c # s" "value_start c"
        using False wf pdump_start [of E "hd xs" L p "Suc k"] L by auto
      ultimately show ?thesis using JList n False
        by (simp add: value_start_def skip_ws_hd skip_ws_append [OF ws(1)])
    qed
  next
    case (JObj kvs)
    show ?thesis
    proof (cases "kvs = []")
      case True
      with JObj n show ?thesis by simp
    next
      case False
      let ?mem = "\<lambda>(i, v). ly_quote L i @ [58] @ ly_colon L @ pdump L (Suc k) v"
      let ?body = "py_join (44 # ly_comma L (Suc k)) (map ?mem kvs) @ ly_bracket L k @ 125 # rest"
      have wf: "\<forall>kv \<in> set kvs. wf_json E (snd kv) \<and> json_texts p (snd kv) \<and> p (fst kv)"
        using less.prems JObj by simp
      have "scan_members E m ?body = Some (kvs, rest)"
        using less.prems JObj n False wf size_member
        by (intro scan_members_pdump [OF L ws(1)] less.IH) auto
      moreover obtain s where "?body = 34 # s"
      proof -
        have "p (fst (hd kvs))" using False wf by simp
        with layout_quote [OF L] obtain t where "ly_quote L (fst (hd kvs)) = 34 # t" by blast
        with False that show thesis
          by (cases kvs; cases "hd kvs"; cases "tl kvs") auto
      qed
      ultimately show ?thesis
        using JObj n less.prems False by (simp add: dict_of_distinct skip_ws_append [OF ws(1)])
    qed
  qed (use less.prems scan_value_dump [of E j rest n] in auto)
qed

theorem loads_pdump:
  assumes "layout_ok L p" "wf_json E j" "json_texts p j" "list_all json_ws w"
  shows "loads E (pdump L n j @ w) = Inr j"
proof -
  have "num_stop (w @ [])" using assms(4) by (rule num_stop_ws) simp
  then have "scan_value E (2 * length (pdump L n j @ w) + 2) (pdump L n j @ w) = Some (j, w)"
    using scan_value_pdump [OF assms(1,2,3)] by (simp del: scan_value.simps)
  moreover have "skip_ws w = []" using skip_ws_append [OF assms(4), of "[]"] by simp
  ultimately show ?thesis
    using skip_ws_pdump [OF assms(2,1,3), of n w] by (simp add: loads_def del: scan_value.simps)
qed

section \<open>The layouts of the source\<close>

text \<open>\<^verbatim>\<open>separators=(",", ":")\<close>, the default separators, and \<^verbatim>\<open>indent=2\<close>.\<close>

definition compact :: layout where
  "compact = \<lparr>ly_bracket = (\<lambda>_. []), ly_comma = (\<lambda>_. []), ly_colon = [], ly_quote = quote\<rparr>"

definition spaced :: "(pystr \<Rightarrow> pystr) \<Rightarrow> layout" where
  "spaced q = \<lparr>ly_bracket = (\<lambda>_. []), ly_comma = (\<lambda>_. [32]), ly_colon = [32], ly_quote = q\<rparr>"

definition indented :: "(pystr \<Rightarrow> pystr) \<Rightarrow> layout" where
  "indented q = \<lparr>ly_bracket = (\<lambda>n. 10 # replicate (2 * n) 32), ly_comma = (\<lambda>n. 10 # replicate (2 * n) 32),
     ly_colon = [32], ly_quote = q\<rparr>"

text \<open>
  \<^verbatim>\<open>ensure_ascii=True\<close>, the default: every character beyond ASCII is written as one or two
  \<^verbatim>\<open>\uXXXX\<close> escapes.
\<close>

definition hex_escape :: "int \<Rightarrow> pystr" where
  "hex_escape c = [92, 117, hex_digit (c div 4096 mod 16), hex_digit (c div 256 mod 16),
     hex_digit (c div 16 mod 16), hex_digit (c mod 16)]"

definition ascii_char :: "int \<Rightarrow> pystr" where
  "ascii_char c =
     (if c < 127 then quote_char c
      else if c < 0x10000 then hex_escape c
      else hex_escape (0xD800 + (c - 0x10000) div 1024) @ hex_escape (0xDC00 + (c - 0x10000) mod 1024))"

definition quote_ascii :: "pystr \<Rightarrow> pystr" where
  "quote_ascii s = [34] @ concat (map ascii_char s) @ [34]"

text \<open>The code points of encodable text.\<close>

definition plain_text :: "pystr \<Rightarrow> bool" where
  "plain_text s \<longleftrightarrow> (\<forall>c \<in> set s. 0 \<le> c \<and> c < 0x110000 \<and> \<not> (0xD800 \<le> c \<and> c \<le> 0xDFFF))"

lemma hex4_escape:
  assumes "0 \<le> c" "c < 65536"
  shows "hex4 (hex_digit (c div 4096 mod 16)) (hex_digit (c div 256 mod 16))
     (hex_digit (c div 16 mod 16)) (hex_digit (c mod 16)) = Some c"
proof -
  have d: "c div 256 = c div 16 div 16" "c div 4096 = c div 256 div 16"
    using zdiv_zmult2_eq [of 16 c 16] zdiv_zmult2_eq [of 16 c 256] by simp_all
  have digits: "4096 * a + 256 * x + 16 * y + z = c" if "q1 * 16 + z = c" "q2 * 16 + y = q1" "a * 16 + x = q2"
    for a x y z q1 q2 :: int using that by linarith
  have m: "c div 16 * 16 + c mod 16 = c" "c div 256 * 16 + c div 16 mod 16 = c div 16"
    "c div 4096 * 16 + c div 256 mod 16 = c div 256"
    unfolding d by (rule div_mult_mod_eq)+
  have "0 \<le> c div 4096" using assms by simp
  moreover have "c div 4096 < 16" using assms by linarith
  ultimately have top: "c div 4096 mod 16 = c div 4096" by simp
  have "4096 * (c div 4096 mod 16) + 256 * (c div 256 mod 16) + 16 * (c div 16 mod 16) + c mod 16 = c"
    unfolding top by (rule digits [OF m])
  moreover have h: "hex_value (hex_digit (k mod 16)) = Some (k mod 16)" for k by (simp add: hex_value_digit)
  ultimately show ?thesis by (simp only: hex4_def h prod.case option.case)
qed

lemma scan_string_ascii_char:
  assumes "0 \<le> c" "c < 0x110000" "\<not> (0xD800 \<le> c \<and> c \<le> 0xDFFF)"
  shows "scan_string (ascii_char c @ s) = map_option (\<lambda>(t, r). (c # t, r)) (scan_string s)"
proof -
  consider "c < 127" | "127 \<le> c" "c < 0x10000" | "0x10000 \<le> c" by linarith
  then show ?thesis
  proof cases
    case 1
    then show ?thesis by (simp add: ascii_char_def scan_string_quote_char)
  next
    case 2
    then show ?thesis using assms hex4_escape [of c]
      by (auto simp: ascii_char_def hex_escape_def)
  next
    case 3
    let ?u = "0xD800 + (c - 0x10000) div 1024" and ?l = "0xDC00 + (c - 0x10000) mod 1024"
    have u: "0xD800 \<le> ?u" "?u \<le> 0xDBFF" using assms 3 by linarith+
    have l: "0xDC00 \<le> ?l" "?l \<le> 0xDFFF"
      using pos_mod_bound [of 1024 "c - 0x10000"] pos_mod_sign [of 1024 "c - 0x10000"] by linarith+
    have c: "0x10000 + (?u - 0xD800) * 1024 + (?l - 0xDC00) = c"
      using div_mult_mod_eq [of "c - 0x10000" 1024] by simp
    have hu: "hex4 (hex_digit (?u div 4096 mod 16)) (hex_digit (?u div 256 mod 16))
     (hex_digit (?u div 16 mod 16)) (hex_digit (?u mod 16)) = Some ?u"
      using u by (intro hex4_escape) auto
    have hl: "hex4 (hex_digit (?l div 4096 mod 16)) (hex_digit (?l div 256 mod 16))
     (hex_digit (?l div 16 mod 16)) (hex_digit (?l mod 16)) = Some ?l"
      using l by (intro hex4_escape) auto
    define u where "u = ?u"
    define l' where "l' = ?l"
    have "low_surrogate (hex_escape l' @ s) = Some l'"
      using hl l by (simp add: low_surrogate_def hex_escape_def l'_def)
    moreover have "drop 6 (hex_escape l' @ s) = s" by (simp add: hex_escape_def)
    moreover have "hex_escape u = [92, 117, hex_digit (u div 4096 mod 16), hex_digit (u div 256 mod 16),
        hex_digit (u div 16 mod 16), hex_digit (u mod 16)]" by (simp add: hex_escape_def)
    ultimately have "scan_string (hex_escape u @ hex_escape l' @ s) =
        map_option (\<lambda>(t, r). ((0x10000 + (u - 0xD800) * 1024 + (l' - 0xDC00)) # t, r)) (scan_string s)"
      using hu u by (simp add: u_def [symmetric] del: drop_Cons_numeral)
    with 3 c show ?thesis by (simp add: ascii_char_def u_def l'_def)
  qed
qed

lemma scan_string_quote_ascii:
  "plain_text s \<Longrightarrow> scan_string (concat (map ascii_char s) @ 34 # rest) = Some (s, rest)"
  by (induction s) (simp_all add: scan_string_ascii_char plain_text_def)

lemma layouts_ok [simp]:
  "layout_ok compact (\<lambda>_. True)" "layout_ok (spaced quote) (\<lambda>_. True)" "layout_ok (indented quote) (\<lambda>_. True)"
  "layout_ok (spaced quote_ascii) plain_text" "layout_ok (indented quote_ascii) plain_text"
  by (auto simp: layout_ok_def compact_def spaced_def indented_def quote_def quote_ascii_def
      scan_string_quote scan_string_quote_ascii json_ws_def list_all_iff)

lemma py_join_cong: "(\<And>x. x \<in> set xs \<Longrightarrow> f x = g x) \<Longrightarrow> py_join s (map f xs) = py_join s (map g xs)"
  by (metis map_cong)

lemma compact_simps [simp]:
  "ly_bracket compact n = []" "ly_comma compact n = []" "ly_colon compact = []" "ly_quote compact = quote"
  by (simp_all add: compact_def)

lemma pdump_compact: "pdump compact n j = dump j"
proof (induction j arbitrary: n)
  case (JList xs)
  then have "map (pdump compact (Suc n)) xs = map dump xs" by simp
  then show ?case by (simp only: pdump.simps compact_simps dump.simps) auto
next
  case (JObj kvs)
  have "map (\<lambda>(k, v). ly_quote compact k @ [58] @ ly_colon compact @ pdump compact (Suc n) v) kvs
      = map (\<lambda>(k, v). quote k @ [58] @ dump v) kvs"
    using JObj by (intro map_cong refl) (fastforce simp: snds.simps)
  then show ?case by (simp only: pdump.simps compact_simps dump.simps) auto
qed simp_all

text \<open>A canonical text followed by white space, such as the end of a line.\<close>

lemma loads_canonical_ws: "wf_json E j \<Longrightarrow> list_all json_ws w \<Longrightarrow> loads E (canonical_json j @ w) = Inr (jnorm j)"
  using loads_pdump [of compact "\<lambda>_. True" E "jnorm j" w 0]
  by (simp add: pdump_compact canonical_json_def wf_jnorm)

section \<open>The characters of a text\<close>

text \<open>
  Numerals, punctuation and literals consist of printable ASCII characters, so a property of
  characters that these have holds of a whole printed value if it holds of its strings and blanks.
\<close>

definition ascii_ok :: "(int \<Rightarrow> bool) \<Rightarrow> bool" where
  "ascii_ok p \<longleftrightarrow> (\<forall>c. 32 \<le> c \<and> c < 127 \<longrightarrow> p c)"

lemma list_all_join: "list_all p sep \<Longrightarrow> (\<forall>x \<in> set xs. list_all p x) \<Longrightarrow> list_all p (py_join sep xs)"
  by (induction sep xs rule: py_join.induct) auto

lemma ascii_digits: "ascii_ok p \<Longrightarrow> list_all is_digit s \<Longrightarrow> list_all p s"
  by (auto simp: ascii_ok_def is_digit_def list_all_iff)

lemma ascii_takeWhile: "ascii_ok p \<Longrightarrow> list_all p (takeWhile is_digit s)"
  by (rule ascii_digits) (auto simp: list_all_iff dest: set_takeWhileD)

lemma ascii_scan_parts:
  assumes p: "ascii_ok p"
  shows "list_all p (fst (scan_minus s))" "scan_digits s = Some (t, r) \<Longrightarrow> list_all p t"
  "list_all p (fst (scan_frac s))" "list_all p (fst (scan_exp s))"
proof -
  note t = ascii_takeWhile [OF p]
  show "list_all p (fst (scan_minus s))" using p by (cases s) (simp_all add: scan_minus_def ascii_ok_def)
  show "scan_digits s = Some (t, r) \<Longrightarrow> list_all p t"
    using t [of s] p by (cases s) (auto simp: scan_digits_def ascii_ok_def split: if_splits)
  show "list_all p (fst (scan_frac s))"
    using t [of "tl s"] p by (cases s; cases "tl s") (auto simp: scan_frac_def is_digit_def ascii_ok_def)
  have sg: "list_all p (fst (scan_sign r))" for r using p by (cases r) (auto simp: scan_sign_def ascii_ok_def)
  then show "list_all p (fst (scan_exp s))"
    using p t by (cases s) (auto simp: scan_exp_def Let_def case_prod_unfold ascii_ok_def)
qed

lemma ascii_numeral: "ascii_ok p \<Longrightarrow> scan_numeral s = Some (t, fl, r) \<Longrightarrow> list_all p t"
  using ascii_scan_parts [of p]
  by (auto simp: scan_numeral_def Let_def case_prod_unfold split: option.splits)

lemma ascii_str_of_int: "ascii_ok p \<Longrightarrow> list_all p (str_of_int i)"
  using ascii_digits [OF _ str_of_nat_digits [of i]] ascii_digits [OF _ str_of_nat_digits [of "- i"]]
  by (auto simp: str_of_int_def ascii_ok_def)

lemma ascii_float: "ascii_ok p \<Longrightarrow> float_text E s \<Longrightarrow> list_all p s"
  using ascii_numeral [of p s s True "[]"] by (auto simp: float_text_def lit_def ascii_ok_def)

lemma pdump_chars:
  assumes p: "ascii_ok p" and q: "\<And>s. ok s \<Longrightarrow> list_all p (ly_quote L s)"
    and w: "\<And>n. list_all p (ly_bracket L n)" "\<And>n. list_all p (ly_comma L n)" "list_all p (ly_colon L)"
  shows "wf_json E j \<Longrightarrow> json_texts ok j \<Longrightarrow> list_all p (pdump L n j)"
proof (induction j arbitrary: n)
  case (JList xs)
  then show ?case using p w by (auto intro!: list_all_join simp: ascii_ok_def)
next
  case (JObj kvs)
  have "list_all p (ly_quote L k @ [58] @ ly_colon L @ pdump L (Suc n) v)" if "(k, v) \<in> set kvs" for k v
    using JObj that p w(3) q [of k] by (fastforce simp: ascii_ok_def)
  then show ?case using p w by (auto intro!: list_all_join simp: ascii_ok_def)
qed (use p q ascii_str_of_int ascii_float in \<open>auto simp: lit_def ascii_ok_def\<close>)

lemma ascii_hex_digit: "ascii_ok p \<Longrightarrow> 0 \<le> k \<Longrightarrow> k < 16 \<Longrightarrow> p (hex_digit k)"
  by (simp add: ascii_ok_def hex_digit_def)

lemma ascii_quote_char: "ascii_ok p \<Longrightarrow> c < 0 \<or> 32 \<le> c \<Longrightarrow> p c \<Longrightarrow> list_all p (quote_char c)"
  by (auto simp: quote_char_def ascii_ok_def)

lemma ascii_quote_control: "ascii_ok p \<Longrightarrow> 0 \<le> c \<Longrightarrow> c < 32 \<Longrightarrow> list_all p (quote_char c)"
proof -
  assume p: "ascii_ok p" and c: "0 \<le> c" "c < 32"
  have "0 \<le> c div 16" "c div 16 < 16" using c by linarith+
  with p have "p (hex_digit (c div 16))" "p (hex_digit (c mod 16))" by (auto intro: ascii_hex_digit)
  with p c show ?thesis by (auto simp: quote_char_def ascii_ok_def)
qed

lemma quote_chars: "ascii_ok p \<Longrightarrow> (\<And>c. c \<in> set s \<Longrightarrow> c < 0 \<or> 32 \<le> c \<Longrightarrow> p c) \<Longrightarrow> list_all p (quote s)"
  unfolding quote_def
proof (induction s)
  case (Cons c s)
  have "list_all p (quote_char c)"
    using ascii_quote_char [of p c] ascii_quote_control [of p c] Cons.prems by fastforce
  with Cons show ?case by simp
qed (simp add: ascii_ok_def)

lemma hex_escape_chars: "ascii_ok p \<Longrightarrow> list_all p (hex_escape c)"
  by (simp add: hex_escape_def ascii_hex_digit) (simp add: ascii_ok_def)

lemma quote_ascii_chars: "ascii_ok p \<Longrightarrow> (\<forall>c \<in> set s. 0 \<le> c) \<Longrightarrow> list_all p (quote_ascii s)"
  unfolding quote_ascii_def
proof (induction s)
  case (Cons c s)
  have "list_all p (ascii_char c)"
    using ascii_quote_char [of p c] ascii_quote_control [of p c] Cons.prems hex_escape_chars [of p]
    by (cases "c < 32") (auto simp: ascii_char_def ascii_ok_def)
  with Cons show ?case by simp
qed (simp add: ascii_ok_def)

section \<open>Encodable texts\<close>

definition scalar_value :: "int \<Rightarrow> bool" where
  "scalar_value c \<longleftrightarrow> 0 \<le> c \<and> c < 0x110000 \<and> \<not> (0xD800 \<le> c \<and> c \<le> 0xDFFF)"

lemma plain_text_list_all: "plain_text s \<longleftrightarrow> list_all scalar_value s"
  by (simp add: plain_text_def list_all_iff scalar_value_def)

lemma plain_text_simps [simp]:
  "plain_text []" "plain_text (c # s) \<longleftrightarrow> (0 \<le> c \<and> c < 0x110000 \<and> \<not> (0xD800 \<le> c \<and> c \<le> 0xDFFF)) \<and> plain_text s"
  "plain_text (s @ t) \<longleftrightarrow> plain_text s \<and> plain_text t"
  by (auto simp: plain_text_def)

lemma plain_lit [simp]: "plain_text (lit s)"
proof -
  have b: "0 \<le> (of_char c :: int) \<and> (of_char c :: int) < 256" for c :: char
    using of_char_of [where 'a = int, of "of_char c"] by (metis of_char_mod_256 pos_mod_bound pos_mod_sign zero_less_numeral)
  have c: "0 \<le> (of_char c :: int) \<and> (of_char c :: int) < 0x110000
      \<and> \<not> (0xD800 \<le> (of_char c :: int) \<and> (of_char c :: int) \<le> 0xDFFF)" for c :: char
    using b [of c] by auto
  show ?thesis unfolding plain_text_def lit_def set_map using c by blast
qed

lemma plain_ascii_ok [simp]: "ascii_ok scalar_value"
  by (auto simp: ascii_ok_def scalar_value_def)

lemma plain_hex: "list_all is_hex s \<Longrightarrow> plain_text s"
  by (auto simp: plain_text_def list_all_iff is_hex_def)

lemma plain_quote: "plain_text s \<Longrightarrow> plain_text (quote s)"
  unfolding plain_text_list_all by (rule quote_chars) (simp_all add: list_all_iff)

lemma plain_quote_ascii: "plain_text s \<Longrightarrow> plain_text (quote_ascii s)"
  unfolding plain_text_list_all by (rule quote_ascii_chars) (simp_all add: list_all_iff scalar_value_def)

lemma plain_pdump:
  assumes "wf_json E j" "json_texts plain_text j"
  shows "plain_text (pdump (spaced quote) n j)" "plain_text (pdump (indented quote) n j)"
    "plain_text (pdump (spaced quote_ascii) n j)" "plain_text (pdump (indented quote_ascii) n j)"
    "plain_text (dump j)"
proof -
  have w: "plain_text (replicate k 32)" for k by (simp add: plain_text_def)
  have layouts: "plain_text (pdump L n j)"
    if "\<And>s. plain_text s \<Longrightarrow> plain_text (ly_quote L s)" "\<And>n. plain_text (ly_bracket L n)"
      "\<And>n. plain_text (ly_comma L n)" "plain_text (ly_colon L)" for L
    using that assms unfolding plain_text_list_all by (intro pdump_chars) auto
  show "plain_text (pdump (spaced quote) n j)" "plain_text (pdump (indented quote) n j)"
    "plain_text (pdump (spaced quote_ascii) n j)" "plain_text (pdump (indented quote_ascii) n j)"
    by (rule layouts; simp add: spaced_def indented_def plain_quote plain_quote_ascii w)+
  have "plain_text (pdump compact n j)" by (rule layouts) (simp_all add: plain_quote)
  then show "plain_text (dump j)" by (simp add: pdump_compact)
qed

lemma json_texts_jnorm [simp]: "json_texts p (jnorm j) \<longleftrightarrow> json_texts p j"
  by (induction j) (auto simp: snds.simps; fastforce)+

lemma plain_canonical: "wf_json E j \<Longrightarrow> json_texts plain_text j \<Longrightarrow> plain_text (canonical_json j)"
  using plain_pdump(5) [of E "jnorm j"] by (simp add: canonical_json_def wf_jnorm)

end
