(* ===== verification/Py_Bytes.thy ===== *)
theory Py_Bytes
  imports Json_Layout
begin

text \<open>
  What the code uses of Python's codecs and of its text methods on paths: \<^verbatim>\<open>split\<close> and \<^verbatim>\<open>strip\<close> with a
  character, UTF-8 decoding as the inverse of \<open>utf8\<close>, and base 64 with its round trip.
\<close>

section \<open>Splitting and trimming\<close>

text \<open>\<^verbatim>\<open>s.split(c)\<close> and \<^verbatim>\<open>s.strip(c)\<close> for one character.\<close>

fun py_split :: "int \<Rightarrow> pystr \<Rightarrow> pystr list" where
  "py_split c [] = [[]]"
| "py_split c (x # s) =
     (if x = c then [] # py_split c s else (case py_split c s of [] \<Rightarrow> [[x]] | p # ps \<Rightarrow> (x # p) # ps))"

definition py_strip_char :: "int \<Rightarrow> pystr \<Rightarrow> pystr" where
  "py_strip_char c s = rev (dropWhile (\<lambda>x. x = c) (rev (dropWhile (\<lambda>x. x = c) s)))"

text \<open>\<^verbatim>\<open>s.rstrip(c)\<close> and \<^verbatim>\<open>s.startswith(p)\<close>.\<close>

definition py_rstrip_char :: "int \<Rightarrow> pystr \<Rightarrow> pystr" where
  "py_rstrip_char c s = rev (dropWhile (\<lambda>x. x = c) (rev s))"

definition py_startswith :: "pystr \<Rightarrow> pystr \<Rightarrow> bool" where
  "py_startswith s p \<longleftrightarrow> take (length p) s = p"

text \<open>\<^verbatim>\<open>xs[:m]\<close>.\<close>

definition py_take :: "int \<Rightarrow> 'a list \<Rightarrow> 'a list" where
  "py_take m xs = (if 0 \<le> m then take (nat m) xs else take (length xs - nat (- m)) xs)"

lemma py_split_nonempty [simp]: "py_split c s \<noteq> []"
  by (induction s) (auto split: list.splits)

lemma py_join_split: "py_join [c] (py_split c s) = s"
proof (induction s)
  case (Cons x s)
  then show ?case
    by (auto simp: py_join_Cons split: list.splits)
qed simp

lemma py_split_append: "c \<notin> set x \<Longrightarrow> py_split c (x @ c # s) = x # py_split c s"
  by (induction x) auto

lemma py_split_plain: "c \<notin> set x \<Longrightarrow> py_split c x = [x]"
  by (induction x) auto

lemma py_split_join:
  "xs \<noteq> [] \<Longrightarrow> (\<forall>x \<in> set xs. c \<notin> set x) \<Longrightarrow> py_split c (py_join [c] xs) = xs"
proof (induction xs)
  case (Cons x xs)
  then show ?case by (simp add: py_join_Cons py_split_append py_split_plain)
qed simp

text \<open>What stripping leaves has no such character at its ends.\<close>

lemma strip_chars: "set (py_strip_char c s) \<subseteq> set s"
  by (auto simp: py_strip_char_def dest!: set_dropWhileD)

lemma strip_ends:
  assumes "py_strip_char c s \<noteq> []"
  shows "hd (py_strip_char c s) \<noteq> c" "last (py_strip_char c s) \<noteq> c"
proof -
  let ?t = "dropWhile (\<lambda>x. x = c) s"
  have e: "py_strip_char c s = rev (dropWhile (\<lambda>x. x = c) (rev ?t))" by (simp add: py_strip_char_def)
  with assms have ne: "dropWhile (\<lambda>x. x = c) (rev ?t) \<noteq> []" by simp
  then have "hd (dropWhile (\<lambda>x. x = c) (rev ?t)) \<noteq> c" using hd_dropWhile [of "\<lambda>x. x = c" "rev ?t"] by blast
  then show "last (py_strip_char c s) \<noteq> c" using ne by (simp add: e last_rev)
  obtain u where u: "rev ?t = u @ dropWhile (\<lambda>x. x = c) (rev ?t)" by (metis takeWhile_dropWhile_id)
  then have t: "?t = py_strip_char c s @ rev u" by (metis e rev_append rev_rev_ident)
  have "?t \<noteq> []" using t assms by force
  then have "hd ?t \<noteq> c" using hd_dropWhile [of "\<lambda>x. x = c" s] by blast
  then show "hd (py_strip_char c s) \<noteq> c" using t assms by (metis hd_append2)
qed

lemma strip_id: "s \<noteq> [] \<Longrightarrow> hd s \<noteq> c \<Longrightarrow> last s \<noteq> c \<Longrightarrow> py_strip_char c s = s"
proof -
  assume a: "s \<noteq> []" "hd s \<noteq> c" "last s \<noteq> c"
  have "dropWhile (\<lambda>x. x = c) s = s" using a by (cases s) auto
  moreover have "dropWhile (\<lambda>x. x = c) (rev s) = rev s" using a by (cases s rule: rev_cases) auto
  ultimately show ?thesis by (simp add: py_strip_char_def)
qed

section \<open>UTF-8 decoding\<close>

text \<open>
  \<^verbatim>\<open>data.decode("utf-8")\<close>: \<open>None\<close> where it raises \<^verbatim>\<open>UnicodeDecodeError\<close>; overlong forms, surrogates and
  code points beyond the last are rejected.  With \<^verbatim>\<open>"surrogatepass"\<close> surrogates pass.
\<close>

definition is_byte :: "int \<Rightarrow> bool" where
  "is_byte b \<longleftrightarrow> 0 \<le> b \<and> b < 256"

definition is_continuation :: "int \<Rightarrow> bool" where
  "is_continuation b \<longleftrightarrow> 0x80 \<le> b \<and> b < 0xC0"

function utf8_scan :: "bool \<Rightarrow> bytes \<Rightarrow> pystr option" where
  "utf8_scan pass [] = Some []"
| "utf8_scan pass (a # s) =
     (if 0 \<le> a \<and> a < 0x80 then map_option ((#) a) (utf8_scan pass s)
      else if 0xC2 \<le> a \<and> a < 0xE0 then
        (case s of
           b # s' \<Rightarrow> if is_continuation b
             then map_option ((#) ((a - 0xC0) * 64 + (b - 0x80))) (utf8_scan pass s') else None
         | _ \<Rightarrow> None)
      else if 0xE0 \<le> a \<and> a < 0xF0 then
        (case s of
           b # c # s' \<Rightarrow>
             (let u = (a - 0xE0) * 4096 + (b - 0x80) * 64 + (c - 0x80)
              in if is_continuation b \<and> is_continuation c \<and> 0x800 \<le> u \<and> (pass \<or> \<not> (0xD800 \<le> u \<and> u \<le> 0xDFFF))
                 then map_option ((#) u) (utf8_scan pass s') else None)
         | _ \<Rightarrow> None)
      else if 0xF0 \<le> a \<and> a < 0xF5 then
        (case s of
           b # c # e # s' \<Rightarrow>
             (let u = (a - 0xF0) * 262144 + (b - 0x80) * 4096 + (c - 0x80) * 64 + (e - 0x80)
              in if is_continuation b \<and> is_continuation c \<and> is_continuation e \<and> 0x10000 \<le> u \<and> u < 0x110000
                 then map_option ((#) u) (utf8_scan pass s') else None)
         | _ \<Rightarrow> None)
      else None)"
  by pat_completeness auto
termination
  by (relation "measure (length \<circ> snd)") auto

declare utf8_scan.simps(2) [simp del]

definition utf8_decode :: "bytes \<Rightarrow> pystr option" where
  "utf8_decode b = utf8_scan False b"

lemma utf8_scan_char:
  assumes "0 \<le> c" "c < 0x110000" "\<not> (0xD800 \<le> c \<and> c \<le> 0xDFFF)"
  shows "utf8_scan pass (utf8_char c @ s) = map_option ((#) c) (utf8_scan pass s)"
proof -
  have m: "0 \<le> k mod 64" "k mod 64 < 64" for k :: int by simp_all
  have d3: "k div 64 div 64 = k div 4096" "k div 4096 div 64 = k div 262144" for k :: int
    using zdiv_zmult2_eq [of 64 k 64] zdiv_zmult2_eq [of 64 k 4096] by simp_all
  have e2: "64 * (k div 64) + k mod 64 = k" for k :: int by simp
  have e3: "4096 * (c div 4096) + 64 * (c div 64 mod 64) + c mod 64 = c"
    using e2 [of "c div 64"] e2 [of c] unfolding d3(1) [of c] by linarith
  have e4: "262144 * (c div 262144) + 4096 * (c div 4096 mod 64) + 64 * (c div 64 mod 64) + c mod 64 = c"
    using e2 [of "c div 4096"] e3 unfolding d3(2) [of c] by linarith
  obtain x where x: "c mod 64 = x" "0 \<le> x" "x < 64" using m by blast
  obtain y where y: "c div 64 mod 64 = y" "0 \<le> y" "y < 64" using m by blast
  obtain z where z: "c div 4096 mod 64 = z" "0 \<le> z" "z < 64" using m by blast
  consider "c < 0x80" | "0x80 \<le> c" "c < 0x800" | "0x800 \<le> c" "c < 0x10000" | "0x10000 \<le> c" by linarith
  then show ?thesis
  proof cases
    case 1
    then show ?thesis using assms by (simp add: utf8_char_def utf8_scan.simps(2))
  next
    case 2
    then have "2 \<le> c div 64" "c div 64 < 32" by linarith+
    then obtain h where h: "c div 64 = h" "2 \<le> h" "h < 32" by blast
    have c: "c = h * 64 + x" using e2 [of c] h(1) x(1) by linarith
    have "utf8_char c = [0xC0 + h, 0x80 + x]" using 2 h(1) x(1) by (simp add: utf8_char_def)
    then show ?thesis using h(2,3) x(2,3) by (simp add: utf8_scan.simps(2) is_continuation_def c)
  next
    case 3
    then have "0 \<le> c div 4096" "c div 4096 < 16" by linarith+
    then obtain h where h: "c div 4096 = h" "0 \<le> h" "h < 16" by blast
    have c: "c = h * 4096 + y * 64 + x" using e3 h(1) x(1) y(1) by linarith
    have "utf8_char c = [0xE0 + h, 0x80 + y, 0x80 + x]" using 3 h(1) x(1) y(1) by (simp add: utf8_char_def)
    then show ?thesis using h(2,3) x(2,3) y(2,3) 3 assms(3)
      unfolding c by (auto simp: utf8_scan.simps(2) is_continuation_def Let_def add.assoc)
  next
    case 4
    then have "0 \<le> c div 262144" "c div 262144 < 5" using assms by linarith+
    then obtain h where h: "c div 262144 = h" "0 \<le> h" "h < 5" by blast
    have c: "c = h * 262144 + z * 4096 + y * 64 + x" using e4 h(1) x(1) y(1) z(1) by linarith
    have "utf8_char c = [0xF0 + h, 0x80 + z, 0x80 + y, 0x80 + x]"
      using 4 h(1) x(1) y(1) z(1) by (simp add: utf8_char_def)
    then show ?thesis using h(2,3) x(2,3) y(2,3) z(2,3) 4 assms(2)
      unfolding c by (auto simp: utf8_scan.simps(2) is_continuation_def Let_def add.assoc)
  qed
qed

lemma utf8_scan_utf8: "plain_text s \<Longrightarrow> utf8_scan pass (utf8 s) = Some s"
  by (induction s) (simp_all add: utf8_scan_char plain_text_def)

lemma utf8_decode_utf8: "plain_text s \<Longrightarrow> utf8_decode (utf8 s) = Some s"
  by (simp add: utf8_decode_def utf8_scan_utf8)

section \<open>Bytes that hold JSON\<close>

text \<open>Units of two and of four bytes; surrogates that make no pair pass.\<close>

fun byte_pairs :: "bool \<Rightarrow> bytes \<Rightarrow> int list option" where
  "byte_pairs big (a # b # s) = map_option ((#) (if big then a * 256 + b else b * 256 + a)) (byte_pairs big s)"
| "byte_pairs big s = (if s = [] then Some [] else None)"

fun join_surrogates :: "int list \<Rightarrow> pystr" where
  "join_surrogates (u # v # us) =
     (if 0xD800 \<le> u \<and> u < 0xDC00 \<and> 0xDC00 \<le> v \<and> v < 0xE000
      then (0x10000 + (u - 0xD800) * 1024 + (v - 0xDC00)) # join_surrogates us
      else u # join_surrogates (v # us))"
| "join_surrogates us = us"

fun byte_quads :: "bool \<Rightarrow> bytes \<Rightarrow> pystr option" where
  "byte_quads big (a # b # c # d # s) =
     (let u = (if big then ((a * 256 + b) * 256 + c) * 256 + d else ((d * 256 + c) * 256 + b) * 256 + a)
      in if u < 0x110000 then map_option ((#) u) (byte_quads big s) else None)"
| "byte_quads big s = (if s = [] then Some [] else None)"

definition utf16_text :: "bool \<Rightarrow> bytes \<Rightarrow> pystr option" where
  "utf16_text big b = map_option join_surrogates (byte_pairs big b)"

text \<open>
  The text that \<^verbatim>\<open>json.loads\<close> reads in bytes, \<^verbatim>\<open>b.decode(json.detect_encoding(b), "surrogatepass")\<close>: a byte order
  mark tells the encoding, else the places of zero bytes among the first four.
\<close>

definition json_bytes_text :: "bytes \<Rightarrow> pystr option" where
  "json_bytes_text b =
     (if take 4 b = [0, 0, 0xFE, 0xFF] then byte_quads True (drop 4 b)
      else if take 4 b = [0xFF, 0xFE, 0, 0] then byte_quads False (drop 4 b)
      else if take 2 b = [0xFE, 0xFF] then utf16_text True (drop 2 b)
      else if take 2 b = [0xFF, 0xFE] then utf16_text False (drop 2 b)
      else if take 3 b = [0xEF, 0xBB, 0xBF] then utf8_scan True (drop 3 b)
      else if 4 \<le> length b \<and> b ! 0 = 0 then (if b ! 1 = 0 then byte_quads True b else utf16_text True b)
      else if 4 \<le> length b \<and> b ! 1 = 0 then (if b ! 2 = 0 \<and> b ! 3 = 0 then byte_quads False b else utf16_text False b)
      else if length b = 2 \<and> b ! 0 = 0 then utf16_text True b
      else if length b = 2 \<and> b ! 1 = 0 then utf16_text False b
      else utf8_scan True b)"

lemma utf8_char_start: "c \<noteq> 0 \<Longrightarrow> 0 \<le> c \<Longrightarrow> c < 0x110000 \<Longrightarrow> \<exists>a s. utf8_char c = a # s \<and> a \<noteq> 0"
  by (auto simp: utf8_char_def)

text \<open>A text that begins with an ASCII character, and no zero after it, is read back.\<close>

lemma json_bytes_text_utf8:
  assumes "plain_text (c # s)" and "0 < c" "c < 128" and "s = [] \<or> hd s \<noteq> 0"
  shows "json_bytes_text (utf8 (c # s)) = Some (c # s)"
proof -
  have c: "utf8 (c # s) = c # utf8 s" using assms(2,3) by (simp add: utf8_char_def)
  have "s = [] \<or> (\<exists>a t. utf8 s = a # t \<and> a \<noteq> 0)"
  proof (cases s)
    case (Cons d t)
    then show ?thesis using assms(1,4) utf8_char_start [of d] by (auto simp: plain_text_def)
  qed simp
  then have "json_bytes_text (utf8 (c # s)) = utf8_scan True (utf8 (c # s))"
    using assms(2,3) unfolding c by (elim disjE exE conjE) (simp_all add: json_bytes_text_def)
  then show ?thesis using utf8_scan_utf8 [OF assms(1), of True] by simp
qed

text \<open>The texts of objects begin so.\<close>

lemma object_start:
  "\<exists>s. dump (JObj kvs) = 123 # s \<and> (s = [] \<or> hd s \<noteq> 0)" "\<exists>s. pdump (indented q) n (JObj kvs) = 123 # s \<and> (s = [] \<or> hd s \<noteq> 0)"
proof -
  show "\<exists>s. dump (JObj kvs) = 123 # s \<and> (s = [] \<or> hd s \<noteq> 0)"
    by (cases kvs) (auto simp: py_join_Cons quote_def split: prod.splits)
  show "\<exists>s. pdump (indented q) n (JObj kvs) = 123 # s \<and> (s = [] \<or> hd s \<noteq> 0)"
    by (simp add: indented_def)
qed

section \<open>Base 64\<close>

definition b64_char :: "int \<Rightarrow> int" where
  "b64_char v = (if v < 26 then 65 + v else if v < 52 then 71 + v else if v < 62 then v - 4
     else if v = 62 then 43 else 47)"

definition b64_value :: "int \<Rightarrow> int option" where
  "b64_value c = (if 65 \<le> c \<and> c \<le> 90 then Some (c - 65) else if 97 \<le> c \<and> c \<le> 122 then Some (c - 71)
     else if 48 \<le> c \<and> c \<le> 57 then Some (c + 4) else if c = 43 then Some 62 else if c = 47 then Some 63 else None)"

lemma b64_value_char [simp]: "0 \<le> v \<Longrightarrow> v < 64 \<Longrightarrow> b64_value (b64_char v) = Some v"
  by (auto simp: b64_value_def b64_char_def)

lemma b64_char_not_pad [simp]: "0 \<le> v \<Longrightarrow> v < 64 \<Longrightarrow> b64_char v \<noteq> 61"
  by (auto simp: b64_char_def)

lemma b64_char_ascii: "0 \<le> v \<Longrightarrow> v < 64 \<Longrightarrow> 0 \<le> b64_char v \<and> b64_char v < 128"
  by (auto simp: b64_char_def)

fun b64encode :: "bytes \<Rightarrow> pystr" where
  "b64encode [] = []"
| "b64encode [a] = [b64_char (a div 4), b64_char (a mod 4 * 16), 61, 61]"
| "b64encode [a, b] = [b64_char (a div 4), b64_char (a mod 4 * 16 + b div 16), b64_char (b mod 16 * 4), 61]"
| "b64encode (a # b # c # s) =
     [b64_char (a div 4), b64_char (a mod 4 * 16 + b div 16), b64_char (b mod 16 * 4 + c div 64),
      b64_char (c mod 64)] @ b64encode s"

text \<open>
  \<^verbatim>\<open>binascii.a2b_base64\<close> without validation: the position in the group of four, the bits left over,
  and the padding seen.  Characters outside the alphabet are skipped, and the text ends at a full
  padding; \<open>None\<close> where it raises.
\<close>

fun b64_scan :: "int \<Rightarrow> int \<Rightarrow> int \<Rightarrow> pystr \<Rightarrow> bytes option" where
  "b64_scan q left pads [] = (if q = 0 then Some [] else None)"
| "b64_scan q left pads (c # s) =
     (if c = 61 then
        (if 2 \<le> q \<and> 4 \<le> q + (pads + 1) then Some []
         else b64_scan q left (if 2 \<le> q then pads + 1 else pads) s)
      else case b64_value c of
        None \<Rightarrow> b64_scan q left pads s
      | Some v \<Rightarrow>
          if q = 0 then b64_scan 1 v 0 s
          else if q = 1 then map_option ((#) (left * 4 + v div 16)) (b64_scan 2 (v mod 16) 0 s)
          else if q = 2 then map_option ((#) (left * 16 + v div 4)) (b64_scan 3 (v mod 4) 0 s)
          else map_option ((#) (left * 64 + v)) (b64_scan 0 0 0 s))"

definition b64decode :: "pystr \<Rightarrow> bytes option" where
  "b64decode s = (if list_all (\<lambda>c. 0 \<le> c \<and> c < 128) s then b64_scan 0 0 0 s else None)"

lemma byte_parts:
  assumes "is_byte a"
  shows "\<exists>h l. a = h * 4 + l \<and> a div 4 = h \<and> a mod 4 = l \<and> 0 \<le> h \<and> h < 64 \<and> 0 \<le> l \<and> l < 4"
    and "\<exists>h l. a = h * 16 + l \<and> a div 16 = h \<and> a mod 16 = l \<and> 0 \<le> h \<and> h < 16 \<and> 0 \<le> l \<and> l < 16"
    and "\<exists>h l. a = h * 64 + l \<and> a div 64 = h \<and> a mod 64 = l \<and> 0 \<le> h \<and> h < 4 \<and> 0 \<le> l \<and> l < 64"
proof -
  have b: "0 \<le> a" "a < 256" using assms by (simp_all add: is_byte_def)
  have d: "a = a div 4 * 4 + a mod 4" "a = a div 16 * 16 + a mod 16" "a = a div 64 * 64 + a mod 64" by simp_all
  have q: "0 \<le> a div 4" "a div 4 < 64" "0 \<le> a div 16" "a div 16 < 16" "0 \<le> a div 64" "a div 64 < 4"
    using b by linarith+
  have m: "0 \<le> a mod 4" "a mod 4 < 4" "0 \<le> a mod 16" "a mod 16 < 16" "0 \<le> a mod 64" "a mod 64 < 64" by simp_all
  show "\<exists>h l. a = h * 4 + l \<and> a div 4 = h \<and> a mod 4 = l \<and> 0 \<le> h \<and> h < 64 \<and> 0 \<le> l \<and> l < 4"
    "\<exists>h l. a = h * 16 + l \<and> a div 16 = h \<and> a mod 16 = l \<and> 0 \<le> h \<and> h < 16 \<and> 0 \<le> l \<and> l < 16"
    "\<exists>h l. a = h * 64 + l \<and> a div 64 = h \<and> a mod 64 = l \<and> 0 \<le> h \<and> h < 4 \<and> 0 \<le> l \<and> l < 64"
    using d q m by blast+
qed

text \<open>One character of the alphabet, whose value is \<open>h * k + l\<close>.\<close>

lemma b64_scan_char:
  assumes "0 \<le> v" "v < 64"
  shows "b64_scan q left pads (b64_char v # s) =
     (if q = 0 then b64_scan 1 v 0 s
      else if q = 1 then map_option ((#) (left * 4 + v div 16)) (b64_scan 2 (v mod 16) 0 s)
      else if q = 2 then map_option ((#) (left * 16 + v div 4)) (b64_scan 3 (v mod 4) 0 s)
      else map_option ((#) (left * 64 + v)) (b64_scan 0 0 0 s))"
  using assms by simp

lemma b64_scan_second: "0 \<le> h \<Longrightarrow> h < 4 \<Longrightarrow> 0 \<le> l \<Longrightarrow> l < 16 \<Longrightarrow>
    b64_scan 1 left pads (b64_char (h * 16 + l) # s) = map_option ((#) (left * 4 + h)) (b64_scan 2 l 0 s)"
  by (subst b64_scan_char) auto

lemma b64_scan_third: "0 \<le> h \<Longrightarrow> h < 16 \<Longrightarrow> 0 \<le> l \<Longrightarrow> l < 4 \<Longrightarrow>
    b64_scan 2 left pads (b64_char (h * 4 + l) # s) = map_option ((#) (left * 16 + h)) (b64_scan 3 l 0 s)"
  by (subst b64_scan_char) auto

lemma b64_scan_first: "0 \<le> v \<Longrightarrow> v < 64 \<Longrightarrow> b64_scan 0 left pads (b64_char v # s) = b64_scan 1 v 0 s"
  by (subst b64_scan_char) auto

lemma b64_scan_fourth: "0 \<le> v \<Longrightarrow> v < 64 \<Longrightarrow>
    b64_scan 3 left pads (b64_char v # s) = map_option ((#) (left * 64 + v)) (b64_scan 0 0 0 s)"
  by (subst b64_scan_char) auto

lemma b64_scan_pads: "b64_scan 2 left 0 [61, 61] = Some []" "b64_scan 3 left 0 [61] = Some []"
  by simp_all

lemma b64_scan_second_end: "0 \<le> h \<Longrightarrow> h < 4 \<Longrightarrow>
    b64_scan 1 left pads [b64_char (h * 16), 61, 61] = Some [left * 4 + h]"
  using b64_scan_second [of h 0 left pads "[61, 61]"] by (simp only: b64_scan_pads) simp

lemma b64_scan_third_end: "0 \<le> h \<Longrightarrow> h < 16 \<Longrightarrow>
    b64_scan 2 left pads [b64_char (h * 4), 61] = Some [left * 16 + h]"
  using b64_scan_third [of h 0 left pads "[61]"] by (simp only: b64_scan_pads) simp

lemma b64_group:
  assumes "is_byte a" "is_byte b" "is_byte c"
  shows "b64_scan 0 left pads ([b64_char (a div 4), b64_char (a mod 4 * 16 + b div 16),
      b64_char (b mod 16 * 4 + c div 64), b64_char (c mod 64)] @ s) = map_option (\<lambda>t. a # b # c # t) (b64_scan 0 0 0 s)"
    and "b64_scan 0 left pads [b64_char (a div 4), b64_char (a mod 4 * 16 + b div 16), b64_char (b mod 16 * 4), 61]
      = Some [a, b]"
    and "b64_scan 0 left pads [b64_char (a div 4), b64_char (a mod 4 * 16), 61, 61] = Some [a]"
proof -
  from byte_parts(1) [OF assms(1)] byte_parts(2) [OF assms(2)] byte_parts(3) [OF assms(3)]
  obtain ah al bh bl ch cl where
    a: "a = ah * 4 + al" "a div 4 = ah" "a mod 4 = al" "0 \<le> ah" "ah < 64" "0 \<le> al" "al < 4" and
    b: "b = bh * 16 + bl" "b div 16 = bh" "b mod 16 = bl" "0 \<le> bh" "bh < 16" "0 \<le> bl" "bl < 16" and
    c: "c = ch * 64 + cl" "c div 64 = ch" "c mod 64 = cl" "0 \<le> ch" "ch < 4" "0 \<le> cl" "cl < 64"
    by (elim exE conjE)
  show "b64_scan 0 left pads ([b64_char (a div 4), b64_char (a mod 4 * 16 + b div 16),
      b64_char (b mod 16 * 4 + c div 64), b64_char (c mod 64)] @ s) = map_option (\<lambda>t. a # b # c # t) (b64_scan 0 0 0 s)"
    "b64_scan 0 left pads [b64_char (a div 4), b64_char (a mod 4 * 16 + b div 16), b64_char (b mod 16 * 4), 61]
      = Some [a, b]"
    "b64_scan 0 left pads [b64_char (a div 4), b64_char (a mod 4 * 16), 61, 61] = Some [a]"
    unfolding a(2,3) b(2,3) c(2,3) append_Cons append_Nil
      b64_scan_first [OF a(4,5)] b64_scan_second [OF a(6,7) b(4,5)] b64_scan_third [OF b(6,7) c(4,5)]
      b64_scan_fourth [OF c(6,7)] b64_scan_second_end [OF a(6,7)] b64_scan_third_end [OF b(6,7)]
    by (simp_all only: a(1) b(1) c(1) option.map option.map_comp o_def)
qed

lemma b64_scan_encode: "list_all is_byte b \<Longrightarrow> b64_scan 0 left pads (b64encode b) = Some b"
proof (induction b arbitrary: left pads rule: b64encode.induct)
  case (2 a)
  then have "is_byte a" by simp
  then show ?case using b64_group(3) [of a a a] by (simp only: b64encode.simps)
next
  case (3 a b)
  then have "is_byte a" "is_byte b" by simp_all
  then show ?case using b64_group(2) [of a b a] by (simp only: b64encode.simps)
next
  case (4 a b c s)
  then have "is_byte a" "is_byte b" "is_byte c" "b64_scan 0 0 0 (b64encode s) = Some s" by simp_all
  then show ?case using b64_group(1) [of a b c] by (simp only: b64encode.simps option.map)
qed simp

lemma b64_chars_ascii:
  assumes "is_byte a" "is_byte b" "is_byte c"
  shows "\<forall>x \<in> {b64_char (a div 4), b64_char (a mod 4 * 16 + b div 16), b64_char (b mod 16 * 4 + c div 64),
      b64_char (c mod 64), b64_char (a mod 4 * 16), b64_char (b mod 16 * 4)}. 0 \<le> x \<and> x < 128"
proof -
  have r: "0 \<le> a" "a < 256" "0 \<le> b" "b < 256" "0 \<le> c" "c < 256" using assms by (simp_all add: is_byte_def)
  have m: "0 \<le> a mod 4" "a mod 4 < 4" "0 \<le> b mod 16" "b mod 16 < 16" "0 \<le> c mod 64" "c mod 64 < 64" by simp_all
  have d: "0 \<le> a div 4" "a div 4 < 64" "0 \<le> b div 16" "b div 16 < 16" "0 \<le> c div 64" "c div 64 < 4"
    using r by linarith+
  have s: "0 \<le> a mod 4 * 16 + b div 16" "a mod 4 * 16 + b div 16 < 64" "0 \<le> b mod 16 * 4 + c div 64"
    "b mod 16 * 4 + c div 64 < 64" "0 \<le> a mod 4 * 16" "a mod 4 * 16 < 64" "0 \<le> b mod 16 * 4" "b mod 16 * 4 < 64"
    using m d by linarith+
  show ?thesis
    using b64_char_ascii [OF d(1,2)] b64_char_ascii [OF s(1,2)] b64_char_ascii [OF s(3,4)]
      b64_char_ascii [OF m(5,6)] b64_char_ascii [OF s(5,6)] b64_char_ascii [OF s(7,8)] by blast
qed

lemma b64encode_ascii: "list_all is_byte b \<Longrightarrow> list_all (\<lambda>c. 0 \<le> c \<and> c < 128) (b64encode b)"
proof (induction b rule: b64encode.induct)
  case (2 a)
  then show ?case using b64_chars_ascii [of a a a] by simp
next
  case (3 a b)
  then show ?case using b64_chars_ascii [of a b a] by simp
next
  case (4 a b c s)
  then show ?case using b64_chars_ascii [of a b c] by simp
qed simp

theorem b64_roundtrip: "list_all is_byte b \<Longrightarrow> b64decode (b64encode b) = Some b"
  by (simp add: b64decode_def b64encode_ascii b64_scan_encode)

end
