(* ===== verification/Py_Decimal.thy ===== *)
theory Py_Decimal
  imports Py_Json Complex_Main
begin

text \<open>
  \<^verbatim>\<open>decimal.Decimal\<close> as the source uses it: construction from a text, \<^verbatim>\<open>str\<close>, \<^verbatim>\<open>quantize\<close> with
  half-up rounding, and multiplication, subtraction and comparison in the default context.
  The main facts: a printed decimal is read back exactly, \<^verbatim>\<open>quantize\<close> returns the nearest
  multiple of its quantum, and arithmetic is exact within the context precision.
\<close>

section \<open>Numbers\<close>

text \<open>
  A finite \<^verbatim>\<open>decimal.Decimal\<close>: \<open>Dec c e\<close> is \<open>c \<cdot> 10\<^sup>e\<close>.  The sign of a zero and the special
  values are outside the model.
\<close>

datatype decimal = Dec (coeff: int) (expo: int)

definition dec_val :: "decimal \<Rightarrow> rat" where
  "dec_val d = of_int (coeff d) * 10 powi expo d"

definition num_digits :: "int \<Rightarrow> int" where
  "num_digits c = int (length (str_of_nat \<bar>c\<bar>))"

text \<open>The default context: 28 significant digits.\<close>

definition dec_prec :: int where
  "dec_prec = 28"

text \<open>Rounding a quotient by \<open>p > 0\<close>: \<^verbatim>\<open>ROUND_HALF_UP\<close> and \<^verbatim>\<open>ROUND_HALF_EVEN\<close>.\<close>

definition div_half_up :: "int \<Rightarrow> int \<Rightarrow> int" where
  "div_half_up c p = sgn c * ((2 * \<bar>c\<bar> + p) div (2 * p))"

definition div_half_even :: "int \<Rightarrow> int \<Rightarrow> int" where
  "div_half_even c p =
     (let q = \<bar>c\<bar> div p; r = \<bar>c\<bar> mod p
      in sgn c * (if 2 * r > p \<or> (2 * r = p \<and> odd q) then q + 1 else q))"

text \<open>\<^verbatim>\<open>d.quantize(Decimal(10) ** e, rounding=ROUND_HALF_UP)\<close>.\<close>

definition quantize_half_up :: "int \<Rightarrow> decimal \<Rightarrow> decimal res" where
  "quantize_half_up e d =
     (let c = (if e \<le> expo d then coeff d * 10 ^ nat (expo d - e)
               else div_half_up (coeff d) (10 ^ nat (e - expo d)))
      in if num_digits c > dec_prec then Inl InvalidOperation else Inr (Dec c e))"

text \<open>The rounding of an arithmetic result to the context precision.\<close>

definition dec_fix :: "decimal \<Rightarrow> decimal" where
  "dec_fix d =
     (let k = num_digits (coeff d) - dec_prec
      in if k \<le> 0 then d
         else
           (let c = div_half_even (coeff d) (10 ^ nat k)
            in if num_digits c > dec_prec then Dec (c div 10) (expo d + k + 1)
               else Dec c (expo d + k)))"

definition dec_mul :: "decimal \<Rightarrow> decimal \<Rightarrow> decimal" where
  "dec_mul a b = dec_fix (Dec (coeff a * coeff b) (expo a + expo b))"

text \<open>The coefficient at a smaller exponent.\<close>

definition rescale :: "int \<Rightarrow> decimal \<Rightarrow> int" where
  "rescale e d = coeff d * 10 ^ nat (expo d - e)"

definition dec_sub :: "decimal \<Rightarrow> decimal \<Rightarrow> decimal" where
  "dec_sub a b = (let e = min (expo a) (expo b) in dec_fix (Dec (rescale e a - rescale e b) e))"

definition dec_abs :: "decimal \<Rightarrow> decimal" where
  "dec_abs d = dec_fix (Dec \<bar>coeff d\<bar> (expo d))"

definition dec_le :: "decimal \<Rightarrow> decimal \<Rightarrow> bool" where
  "dec_le a b \<longleftrightarrow> (let e = min (expo a) (expo b) in rescale e a \<le> rescale e b)"

definition dec_less :: "decimal \<Rightarrow> decimal \<Rightarrow> bool" where
  "dec_less a b \<longleftrightarrow> \<not> dec_le b a"

section \<open>Texts\<close>

text \<open>\<^verbatim>\<open>str(d)\<close>.\<close>

definition dec_str :: "decimal \<Rightarrow> pystr" where
  "dec_str d =
     (let ds = str_of_nat \<bar>coeff d\<bar>; n = int (length ds); left = expo d + n;
          dot = (if expo d \<le> 0 \<and> left > -6 then left else 1);
          (ip, fp) = (if dot \<le> 0 then ([48], 46 # replicate (nat (- dot)) 48 @ ds)
                      else if dot \<ge> n then (ds @ replicate (nat (dot - n)) 48, [])
                      else (take (nat dot) ds, 46 # drop (nat dot) ds));
          ex = (if left = dot then []
                else 69 # (if left < dot then 45 else 43) # str_of_nat \<bar>left - dot\<bar>)
      in (if coeff d < 0 then [45] else []) @ ip @ fp @ ex)"

text \<open>
  \<^verbatim>\<open>Decimal(s)\<close>: white space around the numeral and underscores are dropped.  Texts of special
  values raise here, as every other text that is no numeral does.
\<close>

definition parse_exponent :: "pystr \<Rightarrow> int option" where
  "parse_exponent s =
     (case s of
        [] \<Rightarrow> Some 0
      | e # r \<Rightarrow>
          if e = 69 \<or> e = 101 then
            (let (sg, ds) = scan_sign r
             in if ds \<noteq> [] \<and> list_all is_digit ds
                then Some ((if sg = [45] then -1 else 1) * nat_of_digits ds) else None)
          else None)"

definition parse_unsigned :: "pystr \<Rightarrow> (int \<times> int) option" where
  "parse_unsigned s =
     (let ip = takeWhile is_digit s; r = dropWhile is_digit s;
          (fp, r') = (if r \<noteq> [] \<and> hd r = 46
                      then (takeWhile is_digit (tl r), dropWhile is_digit (tl r)) else ([], r))
      in if ip @ fp = [] then None
         else map_option (\<lambda>x. (nat_of_digits (ip @ fp), x - int (length fp))) (parse_exponent r'))"

definition dec_parse :: "pystr \<Rightarrow> decimal res" where
  "dec_parse s =
     (let (sg, r) = scan_sign (py_remove 95 (py_strip s))
      in case parse_unsigned r of
           None \<Rightarrow> Inl InvalidOperation
         | Some (c, e) \<Rightarrow> Inr (Dec (if sg = [45] then - c else c) e))"

section \<open>Reading a printed decimal\<close>

lemma foldl_digits: "foldl (\<lambda>a d. 10 * a + (d - 48)) x s
    = x * 10 ^ length s + foldl (\<lambda>a d. 10 * a + (d - 48)) (0::int) s"
proof (induction s arbitrary: x)
  case (Cons d s)
  show ?case
    using Cons.IH [of "10 * x + (d - 48)"] Cons.IH [of "d - 48"] by (simp add: algebra_simps)
qed simp

lemma nat_of_digits_append:
  "nat_of_digits (s @ t) = nat_of_digits s * 10 ^ length t + nat_of_digits t"
  unfolding nat_of_digits_def by (simp add: foldl_digits [of "foldl _ _ _"])

lemma nat_of_digits_zeros [simp]: "nat_of_digits (replicate k 48) = 0"
  by (induction k) (simp_all add: nat_of_digits_def)

lemma nat_of_digits_zero [simp]: "nat_of_digits (48 # s) = nat_of_digits s"
  by (simp add: nat_of_digits_def)

lemma span_digits_stop:
  assumes "list_all is_digit s" "rest = [] \<or> \<not> is_digit (hd rest)"
  shows "takeWhile is_digit (s @ rest) = s" "dropWhile is_digit (s @ rest) = rest"
  using assms by (induction s) (cases rest; simp)+

lemma parse_exponent_Nil [simp]: "parse_exponent [] = Some 0"
  by (simp add: parse_exponent_def)

lemma parse_exponent_str:
  "0 \<le> n \<Longrightarrow> parse_exponent (69 # (if neg then 45 else 43) # str_of_nat n)
     = Some (if neg then - n else n)"
  by (simp add: parse_exponent_def scan_sign_def str_of_nat_digits nat_of_digits_str_of_nat)

lemma parse_unsigned_plain:
  assumes "list_all is_digit ip" "ip \<noteq> []" "ex = [] \<or> hd ex = 69"
  shows "parse_unsigned (ip @ ex) = map_option (\<lambda>x. (nat_of_digits ip, x)) (parse_exponent ex)"
proof -
  have "ex = [] \<or> \<not> is_digit (hd ex)" using assms(3) by (auto simp: is_digit_def)
  from span_digits_stop [OF assms(1) this] assms(2,3) show ?thesis
    by (auto simp: parse_unsigned_def Let_def)
qed

lemma parse_unsigned_frac:
  assumes "list_all is_digit ip" "list_all is_digit fp" "ip \<noteq> []" "ex = [] \<or> hd ex = 69"
  shows "parse_unsigned (ip @ 46 # fp @ ex)
    = map_option (\<lambda>x. (nat_of_digits (ip @ fp), x - int (length fp))) (parse_exponent ex)"
proof -
  have "ex = [] \<or> \<not> is_digit (hd ex)" using assms(4) by (auto simp: is_digit_def)
  with assms show ?thesis
    using span_digits_stop [of ip "46 # fp @ ex"] span_digits_stop [of fp ex]
    by (simp add: parse_unsigned_def Let_def is_digit_def)
qed

text \<open>The unsigned part of a printed decimal.\<close>

definition dec_str_unsigned :: "int \<Rightarrow> int \<Rightarrow> pystr" where
  "dec_str_unsigned c e =
     (let ds = str_of_nat c; n = int (length ds); left = e + n;
          dot = (if e \<le> 0 \<and> left > -6 then left else 1);
          (ip, fp) = (if dot \<le> 0 then ([48], 46 # replicate (nat (- dot)) 48 @ ds)
                      else if dot \<ge> n then (ds @ replicate (nat (dot - n)) 48, [])
                      else (take (nat dot) ds, 46 # drop (nat dot) ds));
          ex = (if left = dot then []
                else 69 # (if left < dot then 45 else 43) # str_of_nat \<bar>left - dot\<bar>)
      in ip @ fp @ ex)"

lemma dec_str_split:
  "dec_str (Dec c e) = (if c < 0 then [45] else []) @ dec_str_unsigned \<bar>c\<bar> e"
  by (simp add: dec_str_def dec_str_unsigned_def Let_def split: prod.split)

lemma list_all_take_drop:
  "list_all P s \<Longrightarrow> list_all P (take n s)" "list_all P s \<Longrightarrow> list_all P (drop n s)"
  by (auto simp: list_all_iff dest: in_set_takeD in_set_dropD)

lemma parse_dec_str_unsigned:
  assumes c: "0 \<le> c"
  shows "parse_unsigned (dec_str_unsigned c e) = Some (c, e)"
proof -
  define ds where "ds = str_of_nat c"
  define n where "n = int (length ds)"
  define dot where "dot = (if e \<le> 0 \<and> e + n > -6 then e + n else 1)"
  define ex where "ex = (if e + n = dot then []
    else 69 # (if e + n < dot then 45 else 43) # str_of_nat \<bar>e + n - dot\<bar>)"
  have ds: "list_all is_digit ds" "ds \<noteq> []" "nat_of_digits ds = c" "1 \<le> n"
    using c str_of_nat_digits [of c] nat_of_digits_str_of_nat [of c] str_of_nat_nonempty [of c]
    by (auto simp: ds_def n_def Suc_le_eq)
  have ex: "ex = [] \<or> hd ex = 69" "parse_exponent ex = Some (e + n - dot)"
    using parse_exponent_str [of "\<bar>e + n - dot\<bar>" "e + n < dot"] by (auto simp: ex_def)
  have txt_eq: "dec_str_unsigned c e =
      (if dot \<le> 0 then [48] @ 46 # (replicate (nat (- dot)) 48 @ ds) @ ex
       else if dot \<ge> n then (ds @ replicate (nat (dot - n)) 48) @ ex
       else take (nat dot) ds @ 46 # drop (nat dot) ds @ ex)"
    by (simp add: dec_str_unsigned_def Let_def ds_def n_def dot_def ex_def)
  consider "dot \<le> 0" | "0 < dot" "n \<le> dot" | "0 < dot" "dot < n" by linarith
  then show ?thesis
  proof cases
    case 1
    then have "dot = e + n" by (simp add: dot_def split: if_splits)
    moreover have "list_all is_digit (replicate (nat (- dot)) 48 @ ds)"
      using ds(1) by (auto simp: list_all_iff is_digit_def set_replicate_conv_if)
    ultimately show ?thesis
      using 1 parse_unsigned_frac [of "[48]" "replicate (nat (- dot)) 48 @ ds" ex] ds(2-4) ex
      by (simp add: txt_eq is_digit_def nat_of_digits_append n_def)
  next
    case 2
    then have "dot = n" using ds(4) by (auto simp: dot_def split: if_splits)
    with 2 show ?thesis
      using parse_unsigned_plain [of ds ex] ds ex by (simp add: txt_eq)
  next
    case 3
    then have "take (nat dot) ds \<noteq> []" using ds(2) by simp
    moreover have "int (length (drop (nat dot) ds)) = n - dot" using 3 by (simp add: n_def)
    ultimately show ?thesis
      using 3 parse_unsigned_frac [of "take (nat dot) ds" "drop (nat dot) ds" ex] ds ex
      by (simp add: txt_eq list_all_take_drop)
  qed
qed

text \<open>No character of a printed decimal is dropped by the parser.\<close>

definition dec_char :: "int \<Rightarrow> bool" where
  "dec_char x \<longleftrightarrow> is_digit x \<or> x \<in> {43, 45, 46, 69}"

lemma dec_str_unsigned_chars:
  assumes "0 \<le> c"
  shows "list_all dec_char (dec_str_unsigned c e)" "is_digit (hd (dec_str_unsigned c e))"
    "dec_str_unsigned c e \<noteq> []"
proof -
  have d: "list_all dec_char (str_of_nat k)" if "0 \<le> k" for k
    using str_of_nat_digits [OF that] by (simp add: list_all_iff dec_char_def)
  have h: "is_digit (hd (str_of_nat c))"
    using str_of_nat_digits [OF assms] by (cases "str_of_nat c") auto
  show "list_all dec_char (dec_str_unsigned c e)"
    using d [OF assms] d [OF abs_ge_zero]
    by (auto simp: dec_str_unsigned_def Let_def list_all_take_drop)
      (auto simp: dec_char_def list_all_iff is_digit_def)
  show "is_digit (hd (dec_str_unsigned c e))" "dec_str_unsigned c e \<noteq> []"
    using h by (auto simp: dec_str_unsigned_def Let_def is_digit_def hd_append)
qed

lemma dropWhile_hd: "s \<noteq> [] \<Longrightarrow> \<not> P (hd s) \<Longrightarrow> dropWhile P s = s"
  by (cases s) auto

lemma py_strip_no_space: "list_all (\<lambda>c. \<not> py_space c) s \<Longrightarrow> py_strip s = s"
proof (cases "s = []")
  case False
  moreover assume "list_all (\<lambda>c. \<not> py_space c) s"
  ultimately show ?thesis
    by (simp add: py_strip_def dropWhile_hd list_all_iff hd_rev)
qed (simp add: py_strip_def)

theorem dec_parse_str: "dec_parse (dec_str d) = Inr d"
proof (cases d)
  case (Dec c e)
  let ?u = "dec_str_unsigned \<bar>c\<bar> e"
  have chars: "list_all dec_char (dec_str d)"
    using dec_str_unsigned_chars(1) [of "\<bar>c\<bar>" e]
    by (simp add: Dec dec_str_split dec_char_def)
  have "py_strip (dec_str d) = dec_str d"
    by (rule py_strip_no_space)
      (use chars in \<open>auto simp: list_all_iff dec_char_def is_digit_def py_space_def\<close>)
  moreover have "py_remove 95 (dec_str d) = dec_str d"
    using chars by (auto simp: py_remove_def list_all_iff dec_char_def is_digit_def filter_id_conv)
  moreover have "scan_sign (dec_str d) = (if c < 0 then [45] else [], ?u)"
    using dec_str_unsigned_chars(2,3) [of "\<bar>c\<bar>" e]
    by (cases ?u) (auto simp: Dec dec_str_split scan_sign_def is_digit_def)
  ultimately show ?thesis
    using parse_dec_str_unsigned [of "\<bar>c\<bar>" e] by (simp add: dec_parse_def Dec)
qed

section \<open>Rounding\<close>

lemma div_half_up_error:
  assumes p: "0 < p"
  shows "2 * \<bar>div_half_up c p * p - c\<bar> \<le> p"
    and "2 * \<bar>div_half_up c p * p - c\<bar> = p \<longrightarrow> \<bar>c\<bar> < \<bar>div_half_up c p * p\<bar>"
proof -
  define k where "k = (2 * \<bar>c\<bar> + p) div (2 * p)"
  define m where "m = 2 * \<bar>c\<bar> + p"
  have "m = 2 * p * k + m mod (2 * p)" "0 \<le> m mod (2 * p)" "m mod (2 * p) < 2 * p"
    using p mult_div_mod_eq [of "2 * p" m] by (simp_all add: k_def m_def)
  then have "2 * p * k \<le> 2 * \<bar>c\<bar> + p" "2 * \<bar>c\<bar> + p < 2 * p * k + 2 * p"
    unfolding m_def by linarith+
  then have k: "2 * (k * p) \<le> 2 * \<bar>c\<bar> + p" "2 * \<bar>c\<bar> < 2 * (k * p) + p"
    by (simp_all add: mult.commute mult.left_commute)
  have "0 \<le> k" using p by (simp add: k_def pos_imp_zdiv_nonneg_iff)
  then have "0 \<le> k * p" using p by simp
  have q: "div_half_up c p * p = sgn c * (k * p)"
    by (simp add: div_half_up_def k_def)
  have err: "2 * \<bar>div_half_up c p * p - c\<bar> = 2 * \<bar>k * p - \<bar>c\<bar>\<bar>" if "c \<noteq> 0"
    using that by (cases "0 < c") (simp_all add: q)
  have zero: "div_half_up 0 p * p = 0" by (simp add: div_half_up_def)
  show "2 * \<bar>div_half_up c p * p - c\<bar> \<le> p"
  proof (cases "c = 0")
    case False
    have "2 * (k * p) - 2 * \<bar>c\<bar> \<le> p" "2 * \<bar>c\<bar> - 2 * (k * p) \<le> p" using k by linarith+
    then show ?thesis unfolding err [OF False] by (simp add: abs_if)
  qed (use p zero in simp)
  show "2 * \<bar>div_half_up c p * p - c\<bar> = p \<longrightarrow> \<bar>c\<bar> < \<bar>div_half_up c p * p\<bar>"
  proof
    assume tie: "2 * \<bar>div_half_up c p * p - c\<bar> = p"
    have "c \<noteq> 0" using tie p zero by auto
    then have "2 * \<bar>k * p - \<bar>c\<bar>\<bar> = p" using tie err by simp
    then have "2 * (k * p) - 2 * \<bar>c\<bar> = p"
      using k by (cases "0 \<le> k * p - \<bar>c\<bar>") (simp_all add: abs_if)
    then have "\<bar>c\<bar> < k * p" using p by linarith
    moreover have "\<bar>div_half_up c p * p\<bar> = k * p"
      using \<open>c \<noteq> 0\<close> \<open>0 \<le> k * p\<close> by (cases "0 < c") (simp_all add: q)
    ultimately show "\<bar>c\<bar> < \<bar>div_half_up c p * p\<bar>" by simp
  qed
qed

lemma powi_nat_diff: "e \<le> x \<Longrightarrow> (10::rat) powi x = 10 ^ nat (x - e) * 10 powi e"
  using power_int_add [of "10::rat" "x - e" e] by (simp add: power_int_def)

lemma dec_val_rescale: "e \<le> expo d \<Longrightarrow> dec_val d = of_int (rescale e d) * 10 powi e"
  by (simp add: dec_val_def rescale_def powi_nat_diff [of e "expo d"])

lemma quantize_expo: "quantize_half_up e d = Inr q \<Longrightarrow> expo q = e"
  by (auto simp: quantize_half_up_def Let_def split: if_splits)

text \<open>
  A successful \<^verbatim>\<open>quantize\<close> returns the nearest multiple of its quantum, and the one farther
  from zero when two are equally near.
\<close>

lemma quantize_nearest:
  assumes q: "quantize_half_up e d = Inr q"
  shows "2 * \<bar>dec_val q - dec_val d\<bar> \<le> 10 powi e"
    and "2 * \<bar>dec_val q - dec_val d\<bar> = 10 powi e \<longrightarrow> \<bar>dec_val d\<bar> < \<bar>dec_val q\<bar>"
proof -
  have pos: "(0::rat) < 10 powi k" for k by simp
  have "2 * \<bar>dec_val q - dec_val d\<bar> \<le> 10 powi e \<and>
      (2 * \<bar>dec_val q - dec_val d\<bar> = 10 powi e \<longrightarrow> \<bar>dec_val d\<bar> < \<bar>dec_val q\<bar>)"
  proof (cases "e \<le> expo d")
    case True
    with q have "q = Dec (rescale e d) e"
      by (auto simp: quantize_half_up_def Let_def rescale_def split: if_splits)
    with True have "dec_val q = dec_val d"
      by (simp add: dec_val_rescale) (simp add: dec_val_def)
    then show ?thesis using pos [of e] by simp
  next
    case False
    define p :: int where "p = 10 ^ nat (e - expo d)"
    define c where "c = div_half_up (coeff d) p"
    have p: "0 < p" by (simp add: p_def)
    have qc: "q = Dec c e"
      using q False by (auto simp: quantize_half_up_def Let_def p_def c_def split: if_splits)
    have v: "dec_val q = of_int (c * p) * 10 powi expo d"
      using False by (simp add: qc dec_val_def p_def powi_nat_diff [of "expo d" e])
    have diff: "\<bar>dec_val q - dec_val d\<bar> = of_int \<bar>c * p - coeff d\<bar> * 10 powi expo d"
      using pos [of "expo d"]
      unfolding v by (simp add: dec_val_def abs_mult flip: left_diff_distrib)
    have quantum: "10 powi e = of_int p * (10::rat) powi expo d"
      using False by (simp add: p_def powi_nat_diff [of "expo d" e])
    have bound: "of_int (2 * \<bar>c * p - coeff d\<bar>) \<le> (of_int p :: rat)"
      using div_half_up_error(1) [OF p, of "coeff d"] by (simp only: of_int_le_iff c_def)
    have "2 * \<bar>dec_val q - dec_val d\<bar> \<le> 10 powi e"
      using mult_right_mono [OF bound, of "10 powi expo d"] pos [of "expo d"]
      by (simp add: diff quantum)
    moreover have "\<bar>dec_val d\<bar> < \<bar>dec_val q\<bar>" if "2 * \<bar>dec_val q - dec_val d\<bar> = 10 powi e"
    proof -
      have "of_int (2 * \<bar>c * p - coeff d\<bar>) * (10::rat) powi expo d = of_int p * 10 powi expo d"
        using that by (simp add: diff quantum)
      then have "2 * \<bar>c * p - coeff d\<bar> = p"
        using pos [of "expo d"] by (metis mult_right_cancel of_int_eq_iff less_irrefl)
      then have "\<bar>coeff d\<bar> < \<bar>c * p\<bar>"
        using div_half_up_error(2) [OF p, of "coeff d"] by (simp add: c_def)
      then have "of_int \<bar>coeff d\<bar> < (of_int \<bar>c * p\<bar> :: rat)"
        by (simp only: of_int_less_iff)
      from mult_strict_right_mono [OF this pos [of "expo d"]]
      show "\<bar>dec_val d\<bar> < \<bar>dec_val q\<bar>"
        using pos [of "expo d"] unfolding v by (simp add: dec_val_def abs_mult)
    qed
    ultimately show ?thesis by blast
  qed
  then show "2 * \<bar>dec_val q - dec_val d\<bar> \<le> 10 powi e"
    "2 * \<bar>dec_val q - dec_val d\<bar> = 10 powi e \<longrightarrow> \<bar>dec_val d\<bar> < \<bar>dec_val q\<bar>"
    by blast+
qed

lemma dec_le_val: "dec_le a b \<longleftrightarrow> dec_val a \<le> dec_val b"
proof -
  let ?e = "min (expo a) (expo b)"
  have "(0::rat) < 10 powi ?e" by simp
  then show ?thesis
    by (simp add: dec_le_def Let_def dec_val_rescale [of ?e a] dec_val_rescale [of ?e b])
qed

lemma dec_less_val: "dec_less a b \<longleftrightarrow> dec_val a < dec_val b"
  by (auto simp: dec_less_def dec_le_val)

text \<open>Arithmetic is exact as long as the result fits the context precision.\<close>

lemma dec_fix_exact: "num_digits (coeff d) \<le> dec_prec \<Longrightarrow> dec_fix d = d"
  by (simp add: dec_fix_def)

lemma num_digits_bound: "\<bar>c\<bar> < 10 ^ n \<Longrightarrow> 0 < n \<Longrightarrow> num_digits c \<le> int n"
proof (induction n arbitrary: c)
  case (Suc n)
  show ?case
  proof (cases "\<bar>c\<bar> < 10")
    case True
    then show ?thesis by (simp add: num_digits_def str_of_nat.simps [of "\<bar>c\<bar>"])
  next
    case False
    then have "\<bar>\<bar>c\<bar> div 10\<bar> < 10 ^ n" "n \<noteq> 0"
      using Suc.prems by (auto simp: div_less_iff_less_mult pos_imp_zdiv_nonneg_iff intro: gr0I)
    with Suc.IH [of "\<bar>c\<bar> div 10"] have "num_digits (\<bar>c\<bar> div 10) \<le> int n" by simp
    with False show ?thesis
      by (simp add: num_digits_def str_of_nat.simps [of "\<bar>c\<bar>"] pos_imp_zdiv_nonneg_iff)
  qed
qed simp

lemma dec_mul_exact:
  assumes "\<bar>coeff a * coeff b\<bar> < 10 ^ 28"
  shows "dec_mul a b = Dec (coeff a * coeff b) (expo a + expo b)"
  using num_digits_bound [OF assms] by (simp add: dec_mul_def dec_fix_exact dec_prec_def)

lemma dec_val_mul:
  "\<bar>coeff a * coeff b\<bar> < 10 ^ 28 \<Longrightarrow> dec_val (dec_mul a b) = dec_val a * dec_val b"
  by (simp add: dec_mul_exact dec_val_def power_int_add)

lemma dec_val_sub:
  assumes "\<bar>rescale (min (expo a) (expo b)) a - rescale (min (expo a) (expo b)) b\<bar> < 10 ^ 28"
  shows "dec_val (dec_sub a b) = dec_val a - dec_val b"
proof -
  let ?e = "min (expo a) (expo b)"
  have "dec_sub a b = Dec (rescale ?e a - rescale ?e b) ?e"
    using num_digits_bound [OF assms] by (simp add: dec_sub_def Let_def dec_fix_exact dec_prec_def)
  then show ?thesis
    by (simp add: dec_val_rescale [of ?e a] dec_val_rescale [of ?e b])
      (simp add: dec_val_def left_diff_distrib)
qed

end
