(* ===== verification/Py_Dict.thy ===== *)
theory Py_Dict
  imports Py_Decimal
begin

text \<open>
  Python's operations on values that came from JSON: subscription, \<^verbatim>\<open>get\<close>, iteration,
  truthiness, \<^verbatim>\<open>str\<close>, equality of hashable values, \<^verbatim>\<open>int\<close> and \<^verbatim>\<open>Decimal(str(...))\<close>, each
  with the exception it raises on a value of another type.
\<close>

section \<open>Access\<close>

text \<open>\<^verbatim>\<open>v[k]\<close> with a literal text as key.\<close>

definition jget :: "pystr \<Rightarrow> json \<Rightarrow> json res" where
  "jget k v = (case v of
     JObj kvs \<Rightarrow> (case map_of kvs k of None \<Rightarrow> Inl (KeyError k) | Some x \<Rightarrow> Inr x)
   | _ \<Rightarrow> Inl TypeError)"

text \<open>\<^verbatim>\<open>v.get(k, default)\<close>.\<close>

definition jget_or :: "pystr \<Rightarrow> json \<Rightarrow> json \<Rightarrow> json res" where
  "jget_or k dflt v = (case v of
     JObj kvs \<Rightarrow> Inr (case map_of kvs k of None \<Rightarrow> dflt | Some x \<Rightarrow> x)
   | _ \<Rightarrow> Inl AttributeError)"

text \<open>The elements of \<^verbatim>\<open>for x in v\<close>.\<close>

definition jiter :: "json \<Rightarrow> json list res" where
  "jiter v = (case v of
     JList xs \<Rightarrow> Inr xs
   | JObj kvs \<Rightarrow> Inr (map (\<lambda>kv. JStr (fst kv)) kvs)
   | JStr s \<Rightarrow> Inr (map (\<lambda>c. JStr [c]) s)
   | _ \<Rightarrow> Inl TypeError)"

section \<open>Truth, text, equality\<close>

fun truthy :: "json \<Rightarrow> bool" where
  "truthy JNull \<longleftrightarrow> False"
| "truthy (JBool b) \<longleftrightarrow> b"
| "truthy (JInt i) \<longleftrightarrow> i \<noteq> 0"
| "truthy (JFloat s) \<longleftrightarrow> s \<noteq> lit ''0.0'' \<and> s \<noteq> lit ''-0.0''"
| "truthy (JStr s) \<longleftrightarrow> s \<noteq> []"
| "truthy (JList xs) \<longleftrightarrow> xs \<noteq> []"
| "truthy (JObj kvs) \<longleftrightarrow> kvs \<noteq> []"

definition float_str :: "pystr \<Rightarrow> pystr" where
  "float_str s = (if s = lit ''NaN'' then lit ''nan'' else if s = lit ''Infinity'' then lit ''inf''
     else if s = lit ''-Infinity'' then lit ''-inf'' else s)"

text \<open>
  \<^verbatim>\<open>str(v)\<close> of a hashable value.  The source prints a value only in messages about rules, and
  no accepted rule pack gets as far as printing a list or a dictionary.
\<close>

fun scalar_str :: "json \<Rightarrow> pystr" where
  "scalar_str JNull = lit ''None''"
| "scalar_str (JBool b) = (if b then lit ''True'' else lit ''False'')"
| "scalar_str (JInt i) = str_of_int i"
| "scalar_str (JFloat s) = float_str s"
| "scalar_str (JStr s) = s"
| "scalar_str _ = []"

fun hashable :: "json \<Rightarrow> bool" where
  "hashable (JList xs) \<longleftrightarrow> False"
| "hashable (JObj kvs) \<longleftrightarrow> False"
| "hashable _ \<longleftrightarrow> True"

text \<open>
  \<^verbatim>\<open>==\<close> on hashable values: booleans are the integers 0 and 1, a \<^verbatim>\<open>NaN\<close> differs from itself, and
  other floats are compared by the decimal value of their texts.
\<close>

definition number_of :: "json \<Rightarrow> decimal option" where
  "number_of v = (case v of
     JBool b \<Rightarrow> Some (Dec (if b then 1 else 0) 0)
   | JInt i \<Rightarrow> Some (Dec i 0)
   | JFloat s \<Rightarrow> (case dec_parse s of Inl _ \<Rightarrow> None | Inr d \<Rightarrow> Some d)
   | _ \<Rightarrow> None)"

definition scalar_eq :: "json \<Rightarrow> json \<Rightarrow> bool" where
  "scalar_eq a b = (case (number_of a, number_of b) of
     (Some x, Some y) \<Rightarrow> dec_le x y \<and> dec_le y x
   | (None, None) \<Rightarrow> a = b \<and> a \<noteq> JFloat (lit ''NaN'')
   | _ \<Rightarrow> False)"

text \<open>\<^verbatim>\<open>Decimal(str(v))\<close>.\<close>

fun json_decimal :: "json \<Rightarrow> decimal res" where
  "json_decimal (JInt i) = Inr (Dec i 0)"
| "json_decimal (JFloat s) = dec_parse s"
| "json_decimal (JStr s) = dec_parse s"
| "json_decimal _ = Inl InvalidOperation"

text \<open>
  \<^verbatim>\<open>int(v)\<close>.  A float is truncated; a text is a numeral with an optional sign and white space
  around it (digit groups with underscores are not read).
\<close>

fun json_int :: "json \<Rightarrow> int res" where
  "json_int (JInt i) = Inr i"
| "json_int (JBool b) = Inr (if b then 1 else 0)"
| "json_int (JFloat s) = (case dec_parse s of
     Inl _ \<Rightarrow> Inl (ValueError (lit ''cannot convert float to integer''))
   | Inr d \<Rightarrow> Inr (if 0 \<le> expo d then coeff d * 10 ^ nat (expo d)
       else sgn (coeff d) * (\<bar>coeff d\<bar> div 10 ^ nat (- expo d))))"
| "json_int (JStr s) =
     (let (sg, ds) = scan_sign (py_strip s)
      in if ds \<noteq> [] \<and> list_all is_digit ds
         then Inr ((if sg = [45] then -1 else 1) * nat_of_digits ds)
         else Inl (ValueError (lit ''invalid literal for int()'')))"
| "json_int _ = Inl TypeError"

text \<open>A value bound to a text column.\<close>

fun json_text :: "json \<Rightarrow> pystr res" where
  "json_text (JStr s) = Inr s"
| "json_text _ = Inl TypeError"

definition opt_json :: "pystr option \<Rightarrow> json" where
  "opt_json v = (case v of None \<Rightarrow> JNull | Some s \<Rightarrow> JStr s)"

section \<open>Lemmas\<close>

lemma jget_simps [simp]:
  "jget k (JObj kvs) = (case map_of kvs k of None \<Rightarrow> Inl (KeyError k) | Some x \<Rightarrow> Inr x)"
  "jget_or k dflt (JObj kvs) = Inr (case map_of kvs k of None \<Rightarrow> dflt | Some x \<Rightarrow> x)"
  "jiter (JList xs) = Inr xs"
  by (simp_all add: jget_def jget_or_def jiter_def)

lemma jget_Inr: "jget k v = Inr x \<longleftrightarrow> (\<exists>kvs. v = JObj kvs \<and> map_of kvs k = Some x)"
  by (auto simp: jget_def split: json.splits option.splits)

lemma scalar_eq_JStr [simp]: "scalar_eq (JStr s) (JStr t) \<longleftrightarrow> s = t"
  by (simp add: scalar_eq_def number_of_def)

lemma scalar_eq_JStr_left: "scalar_eq (JStr s) v \<longleftrightarrow> v = JStr s"
  by (auto simp: scalar_eq_def number_of_def split: json.splits option.splits sum.splits)

lemma scalar_eq_JStr_right: "scalar_eq v (JStr s) \<longleftrightarrow> v = JStr s"
  by (auto simp: scalar_eq_def number_of_def split: json.splits option.splits sum.splits)

end
