(* ===== verification/Authorization.thy ===== *)
theory Authorization
  imports Py_Dict Py_Bytes
begin

text \<open>
  \<^verbatim>\<open>authorization.py\<close>: the check of a caller's resource scopes.  A scope is a shell pattern, which
  \<^verbatim>\<open>fnmatch.fnmatchcase\<close> matches with the text \<^verbatim>\<open>type:id:action\<close>; the matcher is proved to be the
  cutting of the text into parts that fit the items of the pattern, and the check to grant exactly
  what some scope matches.
\<close>

section \<open>Shell patterns\<close>

text \<open>
  \<^verbatim>\<open>fnmatch.fnmatchcase\<close>.  A pattern is a list of items; a bracket expression is kept as the chunks
  that \<^verbatim>\<open>fnmatch.translate\<close> cuts it into at the hyphens that make ranges.
\<close>

datatype glob_item = AnyText | AnyChar | OneOf bool "pystr list" | Literally int

fun find_char :: "int \<Rightarrow> nat \<Rightarrow> pystr \<Rightarrow> nat option" where
  "find_char c k [] = None"
| "find_char c 0 (x # s) = (if x = c then Some 0 else map_option Suc (find_char c 0 s))"
| "find_char c (Suc k) (x # s) = map_option Suc (find_char c k s)"

lemma find_char_less: "find_char c k s = Some j \<Longrightarrow> j < length s"
  by (induction c k s arbitrary: j rule: find_char.induct) (auto split: if_splits)

text \<open>The chunks of a bracket expression: the search for the next hyphen starts at \<open>k\<close>.\<close>

function split_chunks :: "nat \<Rightarrow> pystr \<Rightarrow> pystr list" where
  "split_chunks k s = (case find_char 45 k s of
     None \<Rightarrow> [s]
   | Some j \<Rightarrow> take j s # split_chunks 2 (drop (Suc j) s))"
  by pat_completeness auto
termination
  by (relation "measure (\<lambda>(k, s). length s)") (auto dest: find_char_less)

declare split_chunks.simps [simp del]

text \<open>A trailing hyphen belongs to the last chunk.\<close>

definition close_chunks :: "pystr list \<Rightarrow> pystr list" where
  "close_chunks cs = (if last cs \<noteq> [] \<or> length cs = 1 then cs
     else butlast (butlast cs) @ [last (butlast cs) @ [45]])"

text \<open>Ranges whose ends are the wrong way round are cut out, from the right.\<close>

definition join_chunk :: "pystr \<Rightarrow> pystr list \<Rightarrow> pystr list" where
  "join_chunk a cs = (case cs of
     [] \<Rightarrow> [a]
   | b # bs \<Rightarrow> if last a > hd b then (butlast a @ tl b) # bs else a # b # bs)"

definition bracket_chunks :: "pystr \<Rightarrow> pystr list" where
  "bracket_chunks s =
     (if 45 \<notin> set s then [s]
      else foldr join_chunk (close_chunks (split_chunks (if hd s = 33 then 2 else 1) s)) [])"

text \<open>
  A leading \<^verbatim>\<open>!\<close> negates, also where cutting out a range has brought it to the front; a hyphen right
  after it stands for itself.
\<close>

definition bracket_item :: "pystr \<Rightarrow> glob_item" where
  "bracket_item s =
     (let cs = bracket_chunks s
      in if hd cs \<noteq> [] \<and> hd (hd cs) = 33 then
           OneOf True (if tl (hd cs) = [] \<and> tl cs \<noteq> [] then (45 # hd (tl cs)) # tl (tl cs) else tl (hd cs) # tl cs)
         else OneOf False cs)"

text \<open>Where the bracket expression ends: the first \<^verbatim>\<open>]\<close> after an optional \<^verbatim>\<open>!\<close> and an optional \<^verbatim>\<open>]\<close>.\<close>

definition bracket_end :: "pystr \<Rightarrow> nat option" where
  "bracket_end s =
     (let i = (if s \<noteq> [] \<and> hd s = 33 then 1 else 0);
          j = (if i < length s \<and> s ! i = 93 then Suc i else i)
      in find_char 93 j s)"

lemma bracket_end_less: "bracket_end s = Some j \<Longrightarrow> j < length s"
  by (auto simp: bracket_end_def Let_def dest: find_char_less)

function glob :: "pystr \<Rightarrow> glob_item list" where
  "glob [] = []"
| "glob (c # s) =
     (if c = 42 then AnyText # glob s
      else if c = 63 then AnyChar # glob s
      else if c = 91 then
        (case bracket_end s of
           None \<Rightarrow> Literally 91 # glob s
         | Some j \<Rightarrow> bracket_item (take j s) # glob (drop (Suc j) s))
      else Literally c # glob s)"
  by pat_completeness auto
termination
  by (relation "measure length") (auto dest: bracket_end_less)

section \<open>Matching\<close>

fun chunk_gaps :: "pystr list \<Rightarrow> (int \<times> int) list" where
  "chunk_gaps (a # b # cs) = (last a, hd b) # chunk_gaps (b # cs)"
| "chunk_gaps _ = []"

definition in_chunks :: "pystr list \<Rightarrow> int \<Rightarrow> bool" where
  "in_chunks cs c \<longleftrightarrow> c \<in> set (concat cs) \<or> list_ex (\<lambda>(lo, hi). lo \<le> c \<and> c \<le> hi) (chunk_gaps cs)"

fun item_matches :: "glob_item \<Rightarrow> int \<Rightarrow> bool" where
  "item_matches AnyText c \<longleftrightarrow> True"
| "item_matches AnyChar c \<longleftrightarrow> True"
| "item_matches (OneOf neg cs) c \<longleftrightarrow> in_chunks cs c \<noteq> neg"
| "item_matches (Literally a) c \<longleftrightarrow> a = c"

fun glob_match :: "glob_item list \<Rightarrow> pystr \<Rightarrow> bool" where
  "glob_match [] s \<longleftrightarrow> s = []"
| "glob_match (p # ps) [] \<longleftrightarrow> p = AnyText \<and> glob_match ps []"
| "glob_match (p # ps) (c # s) \<longleftrightarrow>
     (if p = AnyText then glob_match ps (c # s) \<or> glob_match (p # ps) s
      else item_matches p c \<and> glob_match ps s)"

definition fnmatchcase :: "pystr \<Rightarrow> pystr \<Rightarrow> bool" where
  "fnmatchcase name pat = glob_match (glob pat) name"

text \<open>The reference: the name is cut into one part for each item, a single character unless the item is \<^verbatim>\<open>*\<close>.\<close>

definition fits :: "glob_item \<Rightarrow> pystr \<Rightarrow> bool" where
  "fits p w \<longleftrightarrow> p = AnyText \<or> (\<exists>c. w = [c] \<and> item_matches p c)"

lemma fits_AnyText [simp]: "fits AnyText w"
  by (simp add: fits_def)

lemma cut_Cons:
  "(\<exists>ws. t = concat ws \<and> list_all2 fits (p # ps) ws) \<longleftrightarrow>
   (\<exists>w ws. t = w @ concat ws \<and> fits p w \<and> list_all2 fits ps ws)"
proof
  assume "\<exists>ws. t = concat ws \<and> list_all2 fits (p # ps) ws"
  then show "\<exists>w ws. t = w @ concat ws \<and> fits p w \<and> list_all2 fits ps ws"
    unfolding list_all2_Cons1 by force
next
  assume "\<exists>w ws. t = w @ concat ws \<and> fits p w \<and> list_all2 fits ps ws"
  then obtain w ws where "t = w @ concat ws" "fits p w" "list_all2 fits ps ws" by blast
  then show "\<exists>ws. t = concat ws \<and> list_all2 fits (p # ps) ws"
    by (intro exI [of _ "w # ws"]) simp
qed

lemma glob_match_iff: "glob_match ps s \<longleftrightarrow> (\<exists>ws. s = concat ws \<and> list_all2 fits ps ws)"
proof (induction ps s rule: glob_match.induct)
  case (1 s)
  show ?case by simp
next
  case (2 p ps)
  show ?case
  proof
    assume "glob_match (p # ps) []"
    with 2 obtain ws where "p = AnyText" "[] = concat ws" "list_all2 fits ps ws" by auto
    then show "\<exists>ws. [] = concat ws \<and> list_all2 fits (p # ps) ws"
      by (intro exI [of _ "[] # ws"]) simp
  next
    assume "\<exists>ws. [] = concat ws \<and> list_all2 fits (p # ps) ws"
    then obtain w ws where w: "[] = w @ concat ws" "fits p w" "list_all2 fits ps ws"
      by (auto simp: list_all2_Cons1)
    then have "p = AnyText" "[] = concat ws" by (auto simp: fits_def)
    moreover from this(2) w(3) 2 have "glob_match ps []" by blast
    ultimately show "glob_match (p # ps) []" by simp
  qed
next
  case (3 p ps c s)
  show ?case
  proof (cases "p = AnyText")
    case True
    have "(\<exists>ws. c # s = concat ws \<and> list_all2 fits (p # ps) ws) \<longleftrightarrow>
        (\<exists>w ws. c # s = w @ concat ws \<and> list_all2 fits ps ws)"
      unfolding cut_Cons using True by simp
    also have "\<dots> \<longleftrightarrow> (\<exists>ws. c # s = concat ws \<and> list_all2 fits ps ws)
        \<or> (\<exists>w ws. s = w @ concat ws \<and> list_all2 fits ps ws)" (is "?l \<longleftrightarrow> ?r")
    proof
      assume ?l
      then obtain w ws where w: "c # s = w @ concat ws" "list_all2 fits ps ws" by blast
      then show ?r by (cases w) auto
    next
      assume ?r
      then show ?l by (metis append_Cons append_Nil)
    qed
    also have "(\<exists>w ws. s = w @ concat ws \<and> list_all2 fits ps ws) \<longleftrightarrow> (\<exists>ws. s = concat ws \<and> list_all2 fits (p # ps) ws)"
      unfolding cut_Cons using True by simp
    finally have "(\<exists>ws. c # s = concat ws \<and> list_all2 fits (p # ps) ws) \<longleftrightarrow>
        (\<exists>ws. c # s = concat ws \<and> list_all2 fits ps ws) \<or> (\<exists>ws. s = concat ws \<and> list_all2 fits (p # ps) ws)" .
    with 3(1,2) True show ?thesis by simp
  next
    case False
    have "(\<exists>w ws. c # s = w @ concat ws \<and> fits p w \<and> list_all2 fits ps ws) \<longleftrightarrow>
        item_matches p c \<and> (\<exists>ws. s = concat ws \<and> list_all2 fits ps ws)"
    proof
      assume "item_matches p c \<and> (\<exists>ws. s = concat ws \<and> list_all2 fits ps ws)"
      then obtain ws where "item_matches p c" "s = concat ws" "list_all2 fits ps ws" by blast
      then show "\<exists>w ws. c # s = w @ concat ws \<and> fits p w \<and> list_all2 fits ps ws"
        by (intro exI [of _ "[c]"] exI [of _ ws]) (simp add: fits_def)
    qed (use False in \<open>auto simp: fits_def\<close>)
    then have "(\<exists>ws. c # s = concat ws \<and> list_all2 fits (p # ps) ws) \<longleftrightarrow>
        item_matches p c \<and> (\<exists>ws. s = concat ws \<and> list_all2 fits ps ws)"
      unfolding cut_Cons .
    with 3(3) False show ?thesis by simp
  qed
qed

section \<open>Resource scopes\<close>

definition required_scope :: "pystr \<Rightarrow> pystr \<Rightarrow> pystr \<Rightarrow> pystr" where
  "required_scope resource_type resource_id action = resource_type @ [58] @ resource_id @ [58] @ action"

definition access_denied :: "pystr \<Rightarrow> py_error" where
  "access_denied required = HTTPException 403
     (JObj [(lit ''code'', JStr (lit ''resource_access_denied'')), (lit ''required'', JStr required)])"

definition scope_grants :: "pystr \<Rightarrow> json \<Rightarrow> bool" where
  "scope_grants required scope = (case scope of JStr pat \<Rightarrow> fnmatchcase required pat | _ \<Rightarrow> False)"

definition authorize_resource :: "json \<Rightarrow> pystr \<Rightarrow> pystr \<Rightarrow> pystr \<Rightarrow> unit res" where
  "authorize_resource claims resource_type resource_id action =
     (let required = required_scope resource_type resource_id action
      in bind_res (jget_or (lit ''resource_scopes'') (JList []) claims) (\<lambda>scopes.
           raise_if (case scopes of JList xs \<Rightarrow> \<not> list_ex (scope_grants required) xs | _ \<Rightarrow> True)
             (access_denied required)))"

lemma authorize_resource_list:
  "authorize_resource (JObj kvs) ty rid act =
     (case map_of kvs (lit ''resource_scopes'') of
        Some (JList xs) \<Rightarrow>
          if \<exists>s \<in> set xs. scope_grants (required_scope ty rid act) s then Inr ()
          else Inl (access_denied (required_scope ty rid act))
      | _ \<Rightarrow> Inl (access_denied (required_scope ty rid act)))"
  by (auto simp: authorize_resource_def Let_def raise_if_def list_ex_iff split: option.splits json.splits)

text \<open>A character that stands for itself in a pattern, and texts of such characters.\<close>

definition plain_char :: "int \<Rightarrow> bool" where
  "plain_char c \<longleftrightarrow> c \<noteq> 42 \<and> c \<noteq> 63 \<and> c \<noteq> 91"

lemma glob_plain: "list_all plain_char a \<Longrightarrow> glob (a @ s) = map Literally a @ glob s"
  by (induction a) (simp_all add: plain_char_def)

lemma glob_star [simp]: "glob (42 # s) = AnyText # glob s"
  by simp

lemma fits_Literally [simp]: "fits (Literally c) w \<longleftrightarrow> w = [c]"
  by (auto simp: fits_def)

lemma fits_literals: "list_all2 fits (map Literally a) ws \<longleftrightarrow> ws = map (\<lambda>c. [c]) a"
proof (induction a arbitrary: ws)
  case (Cons c a)
  show ?case by (cases ws) (simp_all add: Cons)
qed simp

lemma concat_singles [simp]: "concat (map (\<lambda>c. [c]) a) = a"
  by (induction a) auto

lemma fnmatchcase_plain: "list_all plain_char a \<Longrightarrow> fnmatchcase s a \<longleftrightarrow> s = a"
  using glob_plain [of a "[]"] by (simp add: fnmatchcase_def glob_match_iff fits_literals)

lemma fnmatchcase_star:
  assumes "list_all plain_char a" "list_all plain_char b"
  shows "fnmatchcase s (a @ 42 # b) \<longleftrightarrow> (\<exists>w. s = a @ w @ b)"
proof -
  have g: "glob (a @ 42 # b) = map Literally a @ AnyText # map Literally b"
    using glob_plain [OF assms(1), of "42 # b"] glob_plain [OF assms(2), of "[]"] by simp
  show ?thesis
    unfolding fnmatchcase_def glob_match_iff g
  proof
    assume "\<exists>ws. s = concat ws \<and> list_all2 fits (map Literally a @ AnyText # map Literally b) ws"
    then obtain us w vs where "s = concat (us @ w # vs)" "list_all2 fits (map Literally a) us"
      "list_all2 fits (map Literally b) vs"
      by (fastforce simp: list_all2_append1 list_all2_Cons1)
    then show "\<exists>w. s = a @ w @ b" by (auto simp: fits_literals)
  next
    assume "\<exists>w. s = a @ w @ b"
    then obtain w where "s = a @ w @ b" by blast
    then show "\<exists>ws. s = concat ws \<and> list_all2 fits (map Literally a @ AnyText # map Literally b) ws"
      by (intro exI [of _ "map (\<lambda>c. [c]) a @ w # map (\<lambda>c. [c]) b"])
         (simp add: list_all2_appendI fits_literals)
  qed
qed

lemma scope_grants_iff:
  "scope_grants r s \<longleftrightarrow> (\<exists>pat parts. s = JStr pat \<and> r = concat parts \<and> list_all2 fits (glob pat) parts)"
  by (cases s) (simp_all add: scope_grants_def fnmatchcase_def glob_match_iff)

lemma some_scope_grants: "(\<exists>s \<in> set xs. scope_grants r s) \<longleftrightarrow>
    (\<exists>pat parts. JStr pat \<in> set xs \<and> r = concat parts \<and> list_all2 fits (glob pat) parts)"
  unfolding scope_grants_iff by blast

section \<open>The documented reading\<close>

text \<open>
  What the docstring of \<^verbatim>\<open>authorize_resource\<close> says of a scope: it has three segments, and each is a pattern
  for its own segment of \<^verbatim>\<open>type:id:action\<close>.
\<close>

definition segment_grants :: "pystr \<Rightarrow> pystr \<Rightarrow> pystr \<Rightarrow> pystr \<Rightarrow> bool" where
  "segment_grants ty rid act pat = (case py_split 58 pat of
     [p, q, r] \<Rightarrow> fnmatchcase ty p \<and> fnmatchcase rid q \<and> fnmatchcase act r
   | _ \<Rightarrow> False)"

lemma glob_append: "91 \<notin> set a \<Longrightarrow> glob (a @ s) = glob a @ glob s"
  by (induction a) simp_all

lemma fnmatchcase_append:
  assumes "91 \<notin> set p" "fnmatchcase a p" "fnmatchcase b q"
  shows "fnmatchcase (a @ b) (p @ q)"
proof -
  from assms(2,3) obtain us vs where "a = concat us" "list_all2 fits (glob p) us" "b = concat vs" "list_all2 fits (glob q) vs"
    unfolding fnmatchcase_def glob_match_iff by blast
  then have "a @ b = concat (us @ vs) \<and> list_all2 fits (glob (p @ q)) (us @ vs)"
    by (simp add: glob_append [OF assms(1)] list_all2_appendI)
  then show ?thesis unfolding fnmatchcase_def glob_match_iff by blast
qed

text \<open>Without brackets, the whole text matches where its segments do.\<close>

lemma segments_match:
  assumes "segment_grants ty rid act pat" "91 \<notin> set pat"
  shows "fnmatchcase (required_scope ty rid act) pat"
proof -
  from assms(1) obtain p q r where split: "py_split 58 pat = [p, q, r]"
    and m: "fnmatchcase ty p" "fnmatchcase rid q" "fnmatchcase act r"
    by (auto simp: segment_grants_def split: list.splits)
  then have pat: "pat = p @ [58] @ q @ [58] @ r"
    using py_join_split [of 58 pat] by (simp add: py_join_Cons)
  have colon: "fnmatchcase [58] [58]" by (simp add: fnmatchcase_plain plain_char_def)
  show ?thesis
    using assms(2) m colon unfolding required_scope_def pat by (intro fnmatchcase_append) auto
qed

text \<open>
  A scope with one \<^verbatim>\<open>*\<close> and otherwise plain characters grants exactly the texts \<^verbatim>\<open>type:id:action\<close> that begin with
  what precedes the star and end with what follows it; what lies between may contain colons.
\<close>

lemma wildcard_spans_segments:
  assumes "list_all plain_char a" and "list_all plain_char b"
  shows "authorize_resource (JObj [(lit ''resource_scopes'', JList [JStr (a @ 42 # b)])]) ty rid act = Inr ()
    \<longleftrightarrow> (\<exists>w. ty @ [58] @ rid @ [58] @ act = a @ w @ b)"
  by (simp add: authorize_resource_list scope_grants_def fnmatchcase_star [OF assms] required_scope_def)

section \<open>Properties\<close>

text \<open>
  C16: Scopes are matched as whole texts, which grants more than the docstring says.  \<^verbatim>\<open>authorize_resource\<close>
  returns if one of the scopes of the claims is a text whose pattern items the text \<^verbatim>\<open>type:id:action\<close> can be
  cut into parts for, each part fitting its item, and raises the exception with status 403 and the required
  scope otherwise.  What a scope without brackets grants by the documented reading, segment by segment, it
  grants; but a star is not local to a segment: \<^verbatim>\<open>tax_run:*\<close>, which has no three segments, grants every action on
  every run, although the documented reading grants nothing by it.
\<close>

theorem authorize_resource_exact:
  "authorize_resource (JObj kvs) ty rid act =
     (if \<exists>xs pat parts. map_of kvs (lit ''resource_scopes'') = Some (JList xs) \<and> JStr pat \<in> set xs
           \<and> ty @ [58] @ rid @ [58] @ act = concat parts \<and> list_all2 fits (glob pat) parts
      then Inr ()
      else Inl (HTTPException 403 (JObj [(lit ''code'', JStr (lit ''resource_access_denied'')),
             (lit ''required'', JStr (ty @ [58] @ rid @ [58] @ act))])))
   \<and> (map_of kvs (lit ''resource_scopes'') = Some (JList scopes) \<and> JStr scope \<in> set scopes \<and> 91 \<notin> set scope
        \<and> segment_grants ty rid act scope \<longrightarrow> authorize_resource (JObj kvs) ty rid act = Inr ())
   \<and> \<not> segment_grants (lit ''tax_run'') rid act (lit ''tax_run:*'')
   \<and> authorize_resource (JObj [(lit ''resource_scopes'', JList [JStr (lit ''tax_run:*'')])]) (lit ''tax_run'') rid act = Inr ()"
proof (intro conjI impI)
  show "authorize_resource (JObj kvs) ty rid act =
     (if \<exists>xs pat parts. map_of kvs (lit ''resource_scopes'') = Some (JList xs) \<and> JStr pat \<in> set xs
           \<and> ty @ [58] @ rid @ [58] @ act = concat parts \<and> list_all2 fits (glob pat) parts
      then Inr ()
      else Inl (HTTPException 403 (JObj [(lit ''code'', JStr (lit ''resource_access_denied'')),
             (lit ''required'', JStr (ty @ [58] @ rid @ [58] @ act))])))"
  proof (cases "\<exists>xs. map_of kvs (lit ''resource_scopes'') = Some (JList xs)")
    case True
    then obtain xs where xs: "map_of kvs (lit ''resource_scopes'') = Some (JList xs)" by blast
    show ?thesis
      by (simp only: authorize_resource_list xs option.case json.case some_scope_grants option.inject json.inject
          simp_thms ex_simps required_scope_def access_denied_def)
  next
    case False
    then show ?thesis
      by (auto simp: authorize_resource_list required_scope_def access_denied_def split: option.splits json.splits)
  qed
next
  assume "map_of kvs (lit ''resource_scopes'') = Some (JList scopes) \<and> JStr scope \<in> set scopes \<and> 91 \<notin> set scope
        \<and> segment_grants ty rid act scope"
  then have scopes: "map_of kvs (lit ''resource_scopes'') = Some (JList scopes)"
    and "\<exists>s \<in> set scopes. scope_grants (required_scope ty rid act) s"
    using segments_match [of ty rid act scope] by (auto simp: scope_grants_def intro!: bexI [of _ "JStr scope"])
  then show "authorize_resource (JObj kvs) ty rid act = Inr ()" by (simp add: authorize_resource_list)
next
  have "py_split 58 (lit ''tax_run:*'') = [lit ''tax_run'', [42]]" by code_simp
  then show "\<not> segment_grants (lit ''tax_run'') rid act (lit ''tax_run:*'')" by (simp add: segment_grants_def)
  have star: "lit ''tax_run:*'' = lit ''tax_run:'' @ 42 # []" "list_all plain_char (lit ''tax_run:'')" "list_all plain_char []"
    "lit ''tax_run:'' = lit ''tax_run'' @ [58]" by code_simp+
  show "authorize_resource (JObj [(lit ''resource_scopes'', JList [JStr (lit ''tax_run:*'')])]) (lit ''tax_run'') rid act = Inr ()"
    using wildcard_spans_segments [OF star(2,3), of "lit ''tax_run''" rid act] unfolding star(1) by (simp add: star(4))
qed

section \<open>Witnesses\<close>

text \<open>The docstring's example: \<^verbatim>\<open>tax_run:*:read\<close> grants reading a run, by both readings.\<close>

lemma authorize_resource_exact_witness:
  "authorize_resource (JObj [(lit ''resource_scopes'', JList [JStr (lit ''tax_run:*:read'')])])
     (lit ''tax_run'') (lit ''r1'') (lit ''read'') = Inr ()"
proof -
  have "segment_grants (lit ''tax_run'') (lit ''r1'') (lit ''read'') (lit ''tax_run:*:read'')" "91 \<notin> set (lit ''tax_run:*:read'')"
    by code_simp+
  then show ?thesis
    using authorize_resource_exact [of "[(lit ''resource_scopes'', JList [JStr (lit ''tax_run:*:read'')])]"
        "lit ''tax_run''" "lit ''r1''" "lit ''read''" "[JStr (lit ''tax_run:*:read'')]" "lit ''tax_run:*:read''",
        THEN conjunct2, THEN conjunct1] by simp
qed

end
