(* ===== verification/Object_Store.thy ===== *)
theory Object_Store
  imports Py_Bytes Py_Dict Authorization
begin

text \<open>
  \<^verbatim>\<open>object_store.py\<close>: the create-only store of evidence and backups, on the local file system and on S3.
  The file system is the list of the files below the store's root with their bytes.  The main fact:
  what a put has stored is read back unchanged after any further puts.
\<close>

section \<open>Stored objects\<close>

record stored_object =
  so_key :: pystr
  so_version_id :: pystr
  so_sha256 :: pystr
  so_size :: int
  so_retain_until :: pystr

definition stored_dict :: "stored_object \<Rightarrow> json" where
  "stored_dict s = JObj [(lit ''key'', JStr (so_key s)), (lit ''version_id'', JStr (so_version_id s)),
     (lit ''sha256'', JStr (so_sha256 s)), (lit ''size'', JInt (so_size s)),
     (lit ''retain_until'', JStr (so_retain_until s))]"

text \<open>
  \<^verbatim>\<open>StoredObject(**d)\<close>: exactly the fields of the class.  The class does not check their types; a
  record of other types, which the store does not write, raises here.
\<close>

definition stored_of_json :: "json \<Rightarrow> stored_object res" where
  "stored_of_json v = (case v of
     JObj kvs \<Rightarrow>
       if set (map fst kvs) \<noteq> {lit ''key'', lit ''version_id'', lit ''sha256'', lit ''size'', lit ''retain_until''}
       then Inl TypeError
       else bind_res (bind_res (jget (lit ''key'') v) json_text) (\<lambda>key.
         bind_res (bind_res (jget (lit ''version_id'') v) json_text) (\<lambda>version.
         bind_res (bind_res (jget (lit ''sha256'') v) json_text) (\<lambda>sha.
         bind_res (jget (lit ''size'') v) (\<lambda>size.
         bind_res (case size of JInt n \<Rightarrow> Inr n | _ \<Rightarrow> Inl TypeError) (\<lambda>n.
         bind_res (bind_res (jget (lit ''retain_until'') v) json_text) (\<lambda>retain.
           Inr \<lparr>so_key = key, so_version_id = version, so_sha256 = sha, so_size = n, so_retain_until = retain\<rparr>))))))
   | _ \<Rightarrow> Inl TypeError)"

definition safe_key :: "pystr \<Rightarrow> pystr res" where
  "safe_key key =
     (let normalized = py_strip_char 47 (map (\<lambda>c. if c = 92 then 47 else c) key);
          parts = py_split 47 normalized
      in if normalized = [] \<or> list_ex (\<lambda>p. p \<in> {[], lit ''.'', lit ''..''}) parts
         then Inl (ValueError (lit ''invalid object key'')) else Inr normalized)"

section \<open>Files\<close>

text \<open>
  The files under the store's root, by their path relative to it; a directory exists if a file is
  below it.  No symbolic links are below the root, so a safe key's path does not leave it.
\<close>

type_synonym files = "(pystr \<times> bytes) list"

definition is_dir :: "files \<Rightarrow> pystr \<Rightarrow> bool" where
  "is_dir fs path = list_ex (\<lambda>f. py_startswith (fst f) (path @ [47])) fs"

text \<open>A file stands where a directory of the path should be.\<close>

definition blocked :: "files \<Rightarrow> pystr \<Rightarrow> bool" where
  "blocked fs path = list_ex (\<lambda>f. py_startswith path (fst f @ [47])) fs"

definition read_bytes :: "files \<Rightarrow> pystr \<Rightarrow> bytes res" where
  "read_bytes fs path =
     (if is_dir fs path \<or> blocked fs path then Inl (OSError path)
      else case map_of fs path of None \<Rightarrow> Inl (FileNotFoundError path) | Some data \<Rightarrow> Inr data)"

text \<open>
  \<^verbatim>\<open>json.loads(path.read_text(encoding="utf-8"))\<close>.  Reading in text mode translates line ends, which
  no JSON text distinguishes.
\<close>

definition read_json :: "pyenv \<Rightarrow> files \<Rightarrow> pystr \<Rightarrow> json res" where
  "read_json E fs path = bind_res (read_bytes fs path) (\<lambda>data.
     case utf8_decode data of
       None \<Rightarrow> Inl (ValueError (lit ''invalid utf-8''))
     | Some s \<Rightarrow> loads E s)"

definition version_path :: "pystr \<Rightarrow> pystr \<Rightarrow> pystr" where
  "version_path path version = path @ [46] @ version"

definition metadata_suffix :: pystr where
  "metadata_suffix = lit ''.metadata.json''"

definition metadata_bytes :: "stored_object \<Rightarrow> bytes" where
  "metadata_bytes s = utf8 (pdump (spaced quote_ascii) 0 (jnorm (stored_dict s)))"

section \<open>The local store\<close>

text \<open>
  \<^verbatim>\<open>put_immutable\<close>; \<open>deadline n\<close> is the text of the current time plus \<open>n\<close> days.  The version file is
  written before the metadata, and stays if writing the metadata fails.
\<close>

definition put_immutable ::
  "pyenv \<Rightarrow> (int \<Rightarrow> pystr) \<Rightarrow> pystr \<Rightarrow> bytes \<Rightarrow> int \<Rightarrow> files \<Rightarrow> stored_object res \<times> files" where
  "put_immutable E deadline key data retention_days fs =
     (case bind_res (raise_if (retention_days < 1) (ValueError (lit ''retention_days must be positive'')))
         (\<lambda>_. safe_key key) of
        Inl e \<Rightarrow> (Inl e, fs)
      | Inr path \<Rightarrow>
          (let digest = sha256_hex E data;
               vp = version_path path digest;
               mp = vp @ metadata_suffix;
               stored = \<lparr>so_key = path, so_version_id = digest, so_sha256 = digest, so_size = int (length data),
                 so_retain_until = deadline retention_days\<rparr>
           in if blocked fs path then (Inl (OSError path), fs)
              else if is_dir fs vp then (Inl (OSError vp), fs)
              else case map_of fs vp of
                Some existing \<Rightarrow>
                  (bind_res (raise_if (sha256_hex E existing \<noteq> digest) (ValueError (lit ''immutable object collision'')))
                     (\<lambda>_. bind_res (read_json E fs mp) stored_of_json), fs)
              | None \<Rightarrow>
                  (let fs' = dict_put vp data fs
                   in if is_dir fs mp then (Inl (OSError mp), fs')
                      else (Inr stored, dict_put mp (metadata_bytes stored) fs'))))"

text \<open>
  The names in the directory of a path that match its name followed by \<^verbatim>\<open>.*\<close>, and are not metadata.
\<close>

definition dir_of :: "pystr \<Rightarrow> pystr" where
  "dir_of path = rev (dropWhile (\<lambda>c. c \<noteq> 47) (rev path))"

definition name_of :: "pystr \<Rightarrow> pystr" where
  "name_of path = rev (takeWhile (\<lambda>c. c \<noteq> 47) (rev path))"

definition dir_names :: "files \<Rightarrow> pystr \<Rightarrow> pystr list" where
  "dir_names fs dir = remdups (map (\<lambda>f. takeWhile (\<lambda>c. c \<noteq> 47) (drop (length dir) (fst f)))
     (filter (\<lambda>f. py_startswith (fst f) dir) fs))"

definition py_endswith :: "pystr \<Rightarrow> pystr \<Rightarrow> bool" where
  "py_endswith s t \<longleftrightarrow> py_startswith (rev s) (rev t)"

definition version_names :: "files \<Rightarrow> pystr \<Rightarrow> pystr list" where
  "version_names fs path = filter (\<lambda>n. \<not> py_endswith n metadata_suffix)
     (sort (filter (\<lambda>n. fnmatchcase n (name_of path @ lit ''.*'')) (dir_names fs (dir_of path))))"

definition get_object :: "pyenv \<Rightarrow> files \<Rightarrow> pystr \<Rightarrow> pystr option \<Rightarrow> bytes res" where
  "get_object E fs key version =
     bind_res (safe_key key) (\<lambda>path.
     bind_res (case version of
         None \<Rightarrow> (case version_names fs path of [n] \<Rightarrow> Inr (dir_of path @ n) | _ \<Rightarrow> Inl (FileNotFoundError key))
       | Some v \<Rightarrow> if 47 \<in> set v then Inl (ValueError (lit ''Invalid name'')) else Inr (version_path path v)) (\<lambda>target.
     bind_res (read_bytes fs target) (\<lambda>data.
     bind_res (read_json E fs (target @ metadata_suffix)) (\<lambda>metadata.
     bind_res (jget (lit ''sha256'') metadata) (\<lambda>sha.
     bind_res (raise_if (JStr (sha256_hex E data) \<noteq> sha) (ValueError (lit ''stored object integrity check failed''))) (\<lambda>_.
       Inr data))))))"

section \<open>Paths\<close>

lemma map_of_dict_put: "map_of (dict_put k v d) = (map_of d)(k \<mapsto> v)"
  by (induction d) auto

lemma keys_put: "fst ` set (dict_put k v d) = insert k (fst ` set d)"
  by (induction d) auto

lemma startswith_iff: "py_startswith s p \<longleftrightarrow> (\<exists>t. s = p @ t)"
  unfolding py_startswith_def by (metis append_eq_conv_conj)

text \<open>A digest as the version of an object.\<close>

definition is_digest :: "pystr \<Rightarrow> bool" where
  "is_digest h \<longleftrightarrow> length h = 64 \<and> list_all is_hex h"

lemma digest_sha [simp]: "env_law E \<Longrightarrow> is_digest (sha256_hex E b)"
  by (simp add: is_digest_def env_law_def sha_law_def)

lemma digest_chars: "is_digest h \<Longrightarrow> h \<noteq> [] \<and> 47 \<notin> set h \<and> 110 \<notin> set h \<and> plain_text h"
  by (auto simp: is_digest_def list_all_iff is_hex_def plain_text_def)

lemma version_path_inject:
  assumes "is_digest h" "is_digest h'"
  shows "version_path k h = version_path k' h' \<longleftrightarrow> k = k' \<and> h = h'"
proof -
  have "length ([46] @ h) = length ([46] @ h')" using assms by (simp add: is_digest_def)
  then show ?thesis by (auto simp: version_path_def)
qed

lemma metadata_inject [simp]: "p @ metadata_suffix = q @ metadata_suffix \<longleftrightarrow> p = q"
  by simp

lemma metadata_not_version: "is_digest h \<Longrightarrow> version_path k h \<noteq> p @ metadata_suffix"
proof
  assume h: "is_digest h" and eq: "version_path k h = p @ metadata_suffix"
  have "last (p @ metadata_suffix) = 110" by (simp add: metadata_suffix_def lit_def)
  moreover have "last (version_path k h) \<in> set h" using digest_chars [OF h] by (simp add: version_path_def)
  ultimately show False using digest_chars [OF h] eq by simp
qed

text \<open>A directory above a version file or its metadata is above the object's path.\<close>

lemma startswith_dir:
  assumes "py_startswith (path @ t) (f @ [47])" "47 \<notin> set t"
  shows "py_startswith path (f @ [47])"
proof -
  from assms(1) obtain u where u: "path @ t = f @ 47 # u" by (auto simp: startswith_iff)
  have "length f < length path"
  proof (rule ccontr)
    assume "\<not> length f < length path"
    moreover have "(path @ t) ! length f = 47" "length (path @ t) = Suc (length f + length u)" unfolding u by simp_all
    ultimately have "t ! (length f - length path) = 47" "length f - length path < length t"
      by (simp_all add: nth_append)
    then show False using assms(2) nth_mem by metis
  qed
  moreover have "take (Suc (length f)) (path @ t) = f @ [47]" unfolding u by simp
  ultimately show ?thesis by (simp add: py_startswith_def)
qed

lemma no_slash_suffix:
  "is_digest h \<Longrightarrow> 47 \<notin> set ([46] @ h)" "is_digest h \<Longrightarrow> 47 \<notin> set (([46] @ h) @ metadata_suffix)"
  using digest_chars [of h] by (auto simp: metadata_suffix_def lit_def)

section \<open>Safe keys\<close>

lemma safe_key_Inr:
  assumes "safe_key key = Inr path"
  shows "safe_key path = Inr path" and "path \<noteq> []" and "set path \<subseteq> insert 47 (set key)"
proof -
  let ?r = "map (\<lambda>c. if c = 92 then 47 else c) key"
  from assms have p: "path = py_strip_char 47 ?r" "path \<noteq> []"
    "\<not> list_ex (\<lambda>p. p \<in> {[], lit ''.'', lit ''..''}) (py_split 47 path)"
    by (auto simp: safe_key_def Let_def split: if_splits)
  show "path \<noteq> []" by (fact p)
  have s: "set path \<subseteq> set ?r" unfolding p(1) by (rule strip_chars)
  then show "set path \<subseteq> insert 47 (set key)" by auto
  have "92 \<notin> set path" using s by auto
  then have "map (\<lambda>c. if c = 92 then 47 else c) path = path" by (intro map_idI) auto
  moreover have "py_strip_char 47 path = path"
    using strip_ends [of 47 ?r] p(1,2) by (intro strip_id) auto
  ultimately show "safe_key path = Inr path" using p by (simp add: safe_key_def)
qed

section \<open>Metadata\<close>

lemma stored_dict_sorted: "jnorm (stored_dict s) = JObj [(lit ''key'', JStr (so_key s)),
     (lit ''retain_until'', JStr (so_retain_until s)), (lit ''sha256'', JStr (so_sha256 s)),
     (lit ''size'', JInt (so_size s)), (lit ''version_id'', JStr (so_version_id s))]"
  by (simp add: stored_dict_def lit_def)

definition plain_stored :: "stored_object \<Rightarrow> bool" where
  "plain_stored s \<longleftrightarrow> plain_text (so_key s) \<and> plain_text (so_version_id s) \<and> plain_text (so_sha256 s)
     \<and> plain_text (so_retain_until s)"

lemma stored_of_metadata: "stored_of_json (jnorm (stored_dict s)) = Inr s"
proof -
  have "set (map fst [(lit ''key'', JStr (so_key s)),
     (lit ''retain_until'', JStr (so_retain_until s)), (lit ''sha256'', JStr (so_sha256 s)),
     (lit ''size'', JInt (so_size s)), (lit ''version_id'', JStr (so_version_id s))])
    = {lit ''key'', lit ''version_id'', lit ''sha256'', lit ''size'', lit ''retain_until''}" by auto
  then show ?thesis by (simp add: stored_dict_sorted stored_of_json_def)
qed

lemma metadata_read:
  assumes "plain_stored s"
  shows "utf8_decode (metadata_bytes s) = Some (pdump (spaced quote_ascii) 0 (jnorm (stored_dict s)))"
    and "loads E (pdump (spaced quote_ascii) 0 (jnorm (stored_dict s))) = Inr (jnorm (stored_dict s))"
proof -
  have w: "wf_json E (jnorm (stored_dict s))" "json_texts plain_text (jnorm (stored_dict s))" for E
    using assms by (simp_all add: stored_dict_sorted plain_stored_def)
  from plain_pdump(3) [OF w]
  show "utf8_decode (metadata_bytes s) = Some (pdump (spaced quote_ascii) 0 (jnorm (stored_dict s)))"
    by (simp add: metadata_bytes_def utf8_decode_utf8)
  show "loads E (pdump (spaced quote_ascii) 0 (jnorm (stored_dict s))) = Inr (jnorm (stored_dict s))"
    using loads_pdump [OF layouts_ok(4) w, of "[]"] by simp
qed

section \<open>Reachable stores\<close>

text \<open>
  A store's history: puts of any objects, which succeed or fail, with keys and clock readings that
  can be encoded.
\<close>

inductive store_step :: "pyenv \<Rightarrow> files \<Rightarrow> files \<Rightarrow> bool" for E where
  put: "put_immutable E deadline key data n fs = (r, fs') \<Longrightarrow> plain_text key \<Longrightarrow> (\<And>n. plain_text (deadline n)) \<Longrightarrow>
    store_step E fs fs'"

text \<open>No file is below another, and versions and metadata are what their paths say.\<close>

definition tree_ok :: "files \<Rightarrow> bool" where
  "tree_ok fs \<longleftrightarrow> (\<forall>f \<in> fst ` set fs. \<forall>g \<in> fst ` set fs. \<not> py_startswith f (g @ [47]))"

definition describes :: "stored_object \<Rightarrow> pystr \<Rightarrow> pystr \<Rightarrow> bool" where
  "describes s k h \<longleftrightarrow> so_key s = k \<and> so_version_id s = h \<and> so_sha256 s = h \<and> plain_stored s \<and> safe_key k = Inr k"

definition versions_ok :: "pyenv \<Rightarrow> files \<Rightarrow> bool" where
  "versions_ok E fs \<longleftrightarrow> (\<forall>k h. is_digest h \<longrightarrow>
     (\<forall>x. map_of fs (version_path k h) = Some x \<longrightarrow> sha256_hex E x = h)
     \<and> (\<forall>m. map_of fs (version_path k h @ metadata_suffix) = Some m \<longrightarrow> (\<exists>s. m = metadata_bytes s \<and> describes s k h)))"

lemma tree_ok_empty [simp]: "tree_ok []" "versions_ok E []"
  by (simp_all add: tree_ok_def versions_ok_def)

lemma read_bytes_file: "tree_ok fs \<Longrightarrow> map_of fs p = Some x \<Longrightarrow> read_bytes fs p = Inr x"
proof -
  assume t: "tree_ok fs" and x: "map_of fs p = Some x"
  from x have "p \<in> fst ` set fs" by (metis domI dom_map_of_conv_image_fst)
  with t have "\<not> is_dir fs p" "\<not> blocked fs p" by (auto simp: tree_ok_def is_dir_def blocked_def list_ex_iff)
  with x show ?thesis by (simp add: read_bytes_def)
qed

text \<open>What a put does: nothing, or it creates the version and then perhaps its metadata.\<close>

lemma put_cases:
  assumes "put_immutable E deadline key data n fs = (r, fs')"
  obtains (same) "fs' = fs"
  | (created) path where "safe_key key = Inr path" "\<not> blocked fs path"
      "\<not> is_dir fs (version_path path (sha256_hex E data))" "map_of fs (version_path path (sha256_hex E data)) = None"
      "fs' = dict_put (version_path path (sha256_hex E data)) data fs
       \<or> \<not> is_dir fs (version_path path (sha256_hex E data) @ metadata_suffix)
         \<and> fs' = dict_put (version_path path (sha256_hex E data) @ metadata_suffix)
            (metadata_bytes \<lparr>so_key = path, so_version_id = sha256_hex E data, so_sha256 = sha256_hex E data,
               so_size = int (length data), so_retain_until = deadline n\<rparr>)
            (dict_put (version_path path (sha256_hex E data)) data fs)"
  using assms unfolding put_immutable_def Let_def
  by (auto split: sum.splits if_splits option.splits simp: bind_res_Inr)

lemma tree_ok_put:
  assumes "tree_ok fs" "\<not> is_dir fs p" "\<forall>f \<in> fst ` set fs. \<not> py_startswith p (f @ [47])"
  shows "tree_ok (dict_put p x fs)"
  using assms by (auto simp: tree_ok_def keys_put is_dir_def list_ex_iff startswith_iff)

lemma store_step_tree:
  assumes "store_step E fs fs'" "env_law E" "tree_ok fs"
  shows "tree_ok fs'"
  using assms(1)
proof cases
  case (put deadline key data n r)
  from put(1) show ?thesis
  proof (cases rule: put_cases)
    case same
    with assms(3) show ?thesis by simp
  next
    case (created path)
    let ?h = "sha256_hex E data" and ?vp = "version_path path (sha256_hex E data)"
    have free: "\<not> py_startswith (path @ t) (f @ [47])" if "f \<in> fst ` set fs" "47 \<notin> set t" for f t
      using created(2) that startswith_dir [of path t f] by (auto simp: blocked_def list_ex_iff)
    have vp: "tree_ok (dict_put ?vp data fs)"
      using created(3) free no_slash_suffix [OF digest_sha [OF assms(2)], of data]
      by (intro tree_ok_put assms(3)) (auto simp: version_path_def)
    have "tree_ok (dict_put (?vp @ metadata_suffix) m (dict_put ?vp data fs))"
      if "\<not> is_dir fs (?vp @ metadata_suffix)" for m
    proof (rule tree_ok_put [OF vp])
      show "\<not> is_dir (dict_put ?vp data fs) (?vp @ metadata_suffix)"
        using that by (auto simp: is_dir_def list_ex_iff keys_put startswith_iff dest!: set_dict_put [THEN subsetD])
      show "\<forall>f \<in> fst ` set (dict_put ?vp data fs). \<not> py_startswith (?vp @ metadata_suffix) (f @ [47])"
        using free [of _ "([46] @ ?h) @ metadata_suffix"] no_slash_suffix [OF digest_sha [OF assms(2)], of data]
        by (auto simp: keys_put version_path_def startswith_iff metadata_suffix_def lit_def)
    qed
    with created(5) vp show ?thesis by blast
  qed
qed

lemma versions_ok_version:
  assumes "versions_ok E fs" "is_digest h" "sha256_hex E x = h"
  shows "versions_ok E (dict_put (version_path k h) x fs)"
  unfolding versions_ok_def
proof (intro allI impI conjI)
  fix k' h' assume h': "is_digest h'"
  have f: "map_of (dict_put (version_path k h) x fs) (version_path k' h') =
      (if k' = k \<and> h' = h then Some x else map_of fs (version_path k' h'))"
    using version_path_inject [OF h' assms(2)] by (simp add: map_of_dict_put)
  show "sha256_hex E y = h'" if "map_of (dict_put (version_path k h) x fs) (version_path k' h') = Some y" for y
    using that assms h' unfolding f versions_ok_def by (auto split: if_splits)
  show "\<exists>s. m = metadata_bytes s \<and> describes s k' h'"
    if "map_of (dict_put (version_path k h) x fs) (version_path k' h' @ metadata_suffix) = Some m" for m
    using that assms(1) h' metadata_not_version [OF assms(2), of k "version_path k' h'"]
    unfolding versions_ok_def map_of_dict_put by (metis fun_upd_other)
qed

lemma versions_ok_metadata:
  assumes "versions_ok E fs" "is_digest h" "describes s k h"
  shows "versions_ok E (dict_put (version_path k h @ metadata_suffix) (metadata_bytes s) fs)"
  unfolding versions_ok_def
proof (intro allI impI conjI)
  fix k' h' assume h': "is_digest h'"
  let ?m = "dict_put (version_path k h @ metadata_suffix) (metadata_bytes s) fs"
  show "sha256_hex E y = h'" if "map_of ?m (version_path k' h') = Some y" for y
    using that assms(1) h' metadata_not_version [OF h', of k' "version_path k h"]
    unfolding versions_ok_def map_of_dict_put by (metis fun_upd_other)
  have f: "map_of ?m (version_path k' h' @ metadata_suffix) =
      (if k' = k \<and> h' = h then Some (metadata_bytes s) else map_of fs (version_path k' h' @ metadata_suffix))"
    using version_path_inject [OF h' assms(2)] by (simp add: map_of_dict_put)
  show "\<exists>s. m = metadata_bytes s \<and> describes s k' h'" if "map_of ?m (version_path k' h' @ metadata_suffix) = Some m" for m
    using that assms h' unfolding f versions_ok_def by (auto split: if_splits)
qed

lemma store_step_versions:
  assumes "store_step E fs fs'" "env_law E" "versions_ok E fs"
  shows "versions_ok E fs'"
  using assms(1)
proof cases
  case (put deadline key data n r)
  from put(1) show ?thesis
  proof (cases rule: put_cases)
    case same
    with assms(3) show ?thesis by simp
  next
    case (created path)
    let ?h = "sha256_hex E data"
    let ?s = "\<lparr>so_key = path, so_version_id = ?h, so_sha256 = ?h, so_size = int (length data),
      so_retain_until = deadline n\<rparr>"
    note key = safe_key_Inr [OF created(1)]
    have "plain_text path" using put(2) key(3) by (auto simp: plain_text_def)
    then have s: "describes ?s path ?h"
      using put(3) key(1) digest_chars [OF digest_sha [OF assms(2)]] by (simp add: describes_def plain_stored_def)
    have h: "is_digest ?h" using assms(2) by simp
    have d: "versions_ok E (dict_put (version_path path ?h) data fs)"
      by (rule versions_ok_version [OF assms(3) h refl])
    have "versions_ok E (dict_put (version_path path ?h @ metadata_suffix) (metadata_bytes ?s)
        (dict_put (version_path path ?h) data fs))"
      by (rule versions_ok_metadata [OF d h s])
    with created(5) d show ?thesis by blast
  qed
qed

text \<open>A step keeps every version, and every file stays.\<close>

lemma store_step_keeps:
  assumes "store_step E fs fs'" "env_law E"
  shows "map_of fs (version_path k h) = Some x \<Longrightarrow> is_digest h \<Longrightarrow> map_of fs' (version_path k h) = Some x"
    and "map_of fs p \<noteq> None \<Longrightarrow> map_of fs' p \<noteq> None"
proof -
  from assms(1) obtain deadline key data n r where put: "put_immutable E deadline key data n fs = (r, fs')"
    by cases
  show "map_of fs' (version_path k h) = Some x" if "map_of fs (version_path k h) = Some x" "is_digest h"
    using put
  proof (cases rule: put_cases)
    case (created path)
    with that assms(2) have ne: "version_path k h \<noteq> version_path path (sha256_hex E data)" by auto
    note m = metadata_not_version [OF that(2), of k]
    from created(5) show ?thesis using that(1) ne m by (auto simp: map_of_dict_put)
  qed (use that in simp)
  show "map_of fs' p \<noteq> None" if "map_of fs p \<noteq> None"
    using put that by (cases rule: put_cases) (auto simp: map_of_dict_put)
qed

lemma stores_keep:
  assumes "(store_step E)\<^sup>*\<^sup>* fs fs'" "env_law E"
  shows "(map_of fs (version_path k h) = Some x \<longrightarrow> is_digest h \<longrightarrow> map_of fs' (version_path k h) = Some x)
    \<and> (map_of fs p \<noteq> None \<longrightarrow> map_of fs' p \<noteq> None) \<and> (tree_ok fs \<longrightarrow> tree_ok fs') \<and> (versions_ok E fs \<longrightarrow> versions_ok E fs')"
  using assms(1)
  by (induction rule: rtranclp_induct)
    (auto dest: store_step_keeps [OF _ assms(2)] store_step_tree [OF _ assms(2)] store_step_versions [OF _ assms(2)])

text \<open>The version file and the metadata of a kept object.\<close>

definition holds_object :: "pyenv \<Rightarrow> files \<Rightarrow> stored_object \<Rightarrow> bytes \<Rightarrow> bool" where
  "holds_object E fs s x \<longleftrightarrow> describes s (so_key s) (sha256_hex E x)
     \<and> map_of fs (version_path (so_key s) (sha256_hex E x)) = Some x
     \<and> map_of fs (version_path (so_key s) (sha256_hex E x) @ metadata_suffix) \<noteq> None"

lemma read_metadata:
  assumes "tree_ok fs" "map_of fs p = Some (metadata_bytes s)" "plain_stored s"
  shows "read_json E fs p = Inr (jnorm (stored_dict s))"
  using metadata_read [OF assms(3)] read_bytes_file [OF assms(1,2)] by (simp add: read_json_def)

lemma put_holds:
  assumes "put_immutable E deadline key data n fs = (Inr s, fs')" "env_law E" "tree_ok fs" "versions_ok E fs"
    and "plain_text key" "\<And>n. plain_text (deadline n)"
  obtains x where "holds_object E fs' s x" "sha256_hex E x = sha256_hex E data"
    "x = data \<or> map_of fs (version_path (so_key s) (so_version_id s)) = Some x"
proof -
  let ?h = "sha256_hex E data"
  have h: "is_digest ?h" using assms(2) by simp
  from assms(1) obtain path where path: "safe_key key = Inr path"
    by (auto simp: put_immutable_def bind_res_Inr split: sum.splits)
  note key = safe_key_Inr [OF path]
  let ?vp = "version_path path ?h"
  show thesis
  proof (cases "map_of fs ?vp")
    case None
    let ?s = "\<lparr>so_key = path, so_version_id = ?h, so_sha256 = ?h, so_size = int (length data),
      so_retain_until = deadline n\<rparr>"
    from None assms(1) path have s: "s = ?s" "fs' = dict_put (?vp @ metadata_suffix) (metadata_bytes ?s) (dict_put ?vp data fs)"
      by (auto simp: put_immutable_def Let_def bind_res_Inr raise_if_def split: sum.splits if_splits)
    have "plain_text path" using assms(5) key(3) by (auto simp: plain_text_def)
    then have "describes ?s path ?h"
      using assms(6) key(1) digest_chars [OF h] by (simp add: describes_def plain_stored_def)
    then have "holds_object E fs' s data"
      using s metadata_not_version [OF h, of path ?vp] by (simp add: holds_object_def map_of_dict_put)
    then show thesis using that by blast
  next
    case (Some x)
    from Some assms(1) path have b: "bind_res (read_json E fs (?vp @ metadata_suffix)) stored_of_json = Inr s" "fs' = fs"
      by (auto simp: put_immutable_def Let_def bind_res_Inr raise_if_def split: sum.splits if_splits)
    then obtain v where v: "read_json E fs (?vp @ metadata_suffix) = Inr v" "stored_of_json v = Inr s"
      by (auto simp: bind_res_Inr)
    from v(1) obtain m where m: "map_of fs (?vp @ metadata_suffix) = Some m"
      by (auto simp: read_json_def read_bytes_def bind_res_Inr split: if_splits option.splits)
    with assms(4) h obtain s' where s': "m = metadata_bytes s'" "describes s' path ?h"
      unfolding versions_ok_def by blast
    then have "v = jnorm (stored_dict s')"
      using read_metadata [OF assms(3), of _ s' E] m v(1) by (auto simp: describes_def)
    then have "s = s'" using v(2) stored_of_metadata by simp
    moreover have "sha256_hex E x = ?h" using assms(4) h Some unfolding versions_ok_def by blast
    ultimately have "holds_object E fs' s x" "sha256_hex E x = sha256_hex E data"
      "map_of fs (version_path (so_key s) (so_version_id s)) = Some x"
      using s' m Some b(2) by (simp_all add: holds_object_def describes_def)
    then show thesis using that by blast
  qed
qed

lemma holds_get:
  assumes "holds_object E fs s x" "env_law E" "tree_ok fs" "versions_ok E fs"
  shows "get_object E fs (so_key s) (Some (so_version_id s)) = Inr x"
proof -
  let ?h = "sha256_hex E x" and ?k = "so_key s"
  have h: "is_digest ?h" using assms(2) by simp
  from assms(1) have d: "describes s ?k ?h" and x: "map_of fs (version_path ?k ?h) = Some x"
    and m: "map_of fs (version_path ?k ?h @ metadata_suffix) \<noteq> None"
    by (simp_all add: holds_object_def)
  from m assms(4) h obtain s' where s': "map_of fs (version_path ?k ?h @ metadata_suffix) = Some (metadata_bytes s')"
    "describes s' ?k ?h" unfolding versions_ok_def by blast
  then have "plain_stored s'" by (simp add: describes_def)
  from read_metadata [OF assms(3) s'(1) this, of E] s'(2) d read_bytes_file [OF assms(3) x] digest_chars [OF h]
  show ?thesis
    by (simp add: get_object_def describes_def stored_dict_sorted raise_if_def)
qed

lemma put_then_get:
  assumes "env_law E" and "(store_step E)\<^sup>*\<^sup>* [] fs" and "plain_text key" and "\<And>n. plain_text (deadline n)"
    and "put_immutable E deadline key data n fs = (Inr s, fs1)" and "(store_step E)\<^sup>*\<^sup>* fs1 fs2"
  shows "get_object E fs2 (so_key s) (Some (so_version_id s)) = Inr data
    \<or> (\<exists>other. map_of fs (version_path (so_key s) (so_version_id s)) = Some other
         \<and> other \<noteq> data \<and> sha256_hex E other = sha256_hex E data)"
proof -
  have ok: "tree_ok fs" "versions_ok E fs" using stores_keep [OF assms(2,1)] by simp_all
  have "(store_step E)\<^sup>*\<^sup>* fs fs1" using store_step.put [OF assms(5,3,4)] by blast
  then have ok1: "tree_ok fs1" "versions_ok E fs1" using stores_keep [OF _ assms(1), of fs fs1] ok by blast+
  from put_holds [OF assms(5,1) ok assms(3,4)] obtain x where
    x: "holds_object E fs1 s x" "sha256_hex E x = sha256_hex E data"
      "x = data \<or> map_of fs (version_path (so_key s) (so_version_id s)) = Some x" .
  have "holds_object E fs2 s x"
    using x(1) stores_keep [OF assms(6,1)] digest_sha [OF assms(1)] unfolding holds_object_def by blast
  then have "get_object E fs2 (so_key s) (Some (so_version_id s)) = Inr x"
    using holds_get assms(1) stores_keep [OF assms(6,1)] ok1 by blast
  with x(2,3) show ?thesis by (cases "x = data") auto
qed

section \<open>The contract of a store\<close>

text \<open>
  What a client of an object store relies on: what a put returns is a description under which every
  later state of the store gives the same bytes, unless they collide with what the store held there.
\<close>

type_synonym 's store_put = "pystr \<Rightarrow> bytes \<Rightarrow> int \<Rightarrow> 's \<Rightarrow> stored_object res \<times> 's"
type_synonym 's store_get = "'s \<Rightarrow> pystr \<Rightarrow> pystr option \<Rightarrow> bytes res"

locale immutable_store =
  fixes put :: "'s store_put" and get :: "'s store_get" and ok :: "'s \<Rightarrow> bool" and later :: "'s \<Rightarrow> 's \<Rightarrow> bool"
    and collides :: "'s \<Rightarrow> stored_object \<Rightarrow> bytes \<Rightarrow> bool"
  assumes get_put: "ok st \<Longrightarrow> plain_text key \<Longrightarrow> put key data n st = (Inr stored, st1) \<Longrightarrow> later st1 st2 \<Longrightarrow>
      get st2 (so_key stored) (Some (so_version_id stored)) = Inr data \<or> collides st stored data"

definition sha_collision :: "pyenv \<Rightarrow> files \<Rightarrow> stored_object \<Rightarrow> bytes \<Rightarrow> bool" where
  "sha_collision E fs s data \<longleftrightarrow> (\<exists>other. map_of fs (version_path (so_key s) (so_version_id s)) = Some other
     \<and> other \<noteq> data \<and> sha256_hex E other = sha256_hex E data)"

text \<open>A local store that only puts have written, with a clock whose readings can be encoded.\<close>

definition written :: "pyenv \<Rightarrow> (int \<Rightarrow> pystr) \<Rightarrow> files \<Rightarrow> bool" where
  "written E deadline fs \<longleftrightarrow> env_law E \<and> (\<forall>n. plain_text (deadline n)) \<and> (store_step E)\<^sup>*\<^sup>* [] fs"

definition store_later :: "pyenv \<Rightarrow> files \<Rightarrow> files \<Rightarrow> bool" where
  "store_later E = (store_step E)\<^sup>*\<^sup>*"

interpretation local_store: immutable_store "put_immutable E deadline" "get_object E" "written E deadline"
    "store_later E" "sha_collision E" for E deadline
  by unfold_locales
    (use put_then_get in \<open>unfold written_def store_later_def sha_collision_def, blast\<close>)

text \<open>
  C19: What was stored stays.  In a store that only puts have written, whatever they put and however
  they ended, a put that succeeds returns a description under which, after any further puts, the same
  bytes are read; or the store held other bytes with the same digest under the same key, and keeps those.
\<close>

theorem stored_object_stays:
  assumes "env_law E" and "(store_step E)\<^sup>*\<^sup>* [] fs" and "plain_text key" and "\<And>n. plain_text (deadline n)"
    and "put_immutable E deadline key data n fs = (Inr s, fs1)" and "(store_step E)\<^sup>*\<^sup>* fs1 fs2"
  shows "get_object E fs2 (so_key s) (Some (so_version_id s)) = Inr data
    \<or> (\<exists>other. map_of fs (version_path (so_key s) (so_version_id s)) = Some other
         \<and> other \<noteq> data \<and> sha256_hex E other = sha256_hex E data)"
  using local_store.get_put [of E deadline fs key data n s fs1 fs2] assms
  by (simp add: written_def store_later_def sha_collision_def)

section \<open>The S3 adapter\<close>

text \<open>
  A client is a state with \<^verbatim>\<open>put_object\<close>, which answers a request with a version or without one, and
  \<^verbatim>\<open>get_object\<close>, which answers with the bytes and the \<^verbatim>\<open>sha256\<close> metadata if there is one.
\<close>

record s3_request =
  s3_bucket :: pystr
  s3_key :: pystr
  s3_body :: bytes
  s3_content_type :: pystr
  s3_checksum :: pystr
  s3_lock_mode :: pystr
  s3_retain_until :: pystr
  s3_metadata_sha256 :: pystr

record 's s3_client =
  s3_put_object :: "s3_request \<Rightarrow> 's \<Rightarrow> pystr option res \<times> 's"
  s3_get_object :: "pystr \<Rightarrow> pystr \<Rightarrow> pystr option \<Rightarrow> 's \<Rightarrow> (bytes \<times> pystr option) res"

fun unhex :: "pystr \<Rightarrow> bytes" where
  "unhex (a # b # s) = (16 * (if a < 58 then a - 48 else a - 87) + (if b < 58 then b - 48 else b - 87)) # unhex s"
| "unhex _ = []"

definition base64_sha256 :: "pyenv \<Rightarrow> bytes \<Rightarrow> pystr" where
  "base64_sha256 E data = b64encode (unhex (sha256_hex E data))"

definition s3_object_key :: "pystr \<Rightarrow> pystr \<Rightarrow> pystr res" where
  "s3_object_key prefix key =
     (let p = py_strip_char 47 prefix
      in bind_res (safe_key key) (\<lambda>k. Inr (if p = [] then k else p @ [47] @ k)))"

definition s3_put_immutable ::
  "pyenv \<Rightarrow> 's s3_client \<Rightarrow> pystr \<Rightarrow> pystr \<Rightarrow> (int \<Rightarrow> pystr) \<Rightarrow> pystr \<Rightarrow> bytes \<Rightarrow> pystr \<Rightarrow> int \<Rightarrow> 's
     \<Rightarrow> stored_object res \<times> 's" where
  "s3_put_immutable E client bucket prefix deadline key data content_type retention_days st =
     (case bind_res (raise_if (retention_days < 1) (ValueError (lit ''retention_days must be positive'')))
         (\<lambda>_. bind_res (s3_object_key prefix key) (\<lambda>k. bind_res (safe_key key) (\<lambda>p. Inr (k, p)))) of
        Inl e \<Rightarrow> (Inl e, st)
      | Inr (k, path) \<Rightarrow>
          (let digest = sha256_hex E data;
               (response, st') = s3_put_object client
                 \<lparr>s3_bucket = bucket, s3_key = k, s3_body = data, s3_content_type = content_type,
                   s3_checksum = base64_sha256 E data, s3_lock_mode = lit ''COMPLIANCE'',
                   s3_retain_until = deadline retention_days, s3_metadata_sha256 = digest\<rparr> st
           in (bind_res response (\<lambda>version. case version of
                 Some (v # vs) \<Rightarrow> Inr \<lparr>so_key = path, so_version_id = v # vs, so_sha256 = digest,
                   so_size = int (length data), so_retain_until = deadline retention_days\<rparr>
               | _ \<Rightarrow> Inl (RuntimeError (lit ''S3 Object Lock store must return a version id''))), st')))"

definition s3_get ::
  "pyenv \<Rightarrow> 's s3_client \<Rightarrow> pystr \<Rightarrow> pystr \<Rightarrow> pystr \<Rightarrow> pystr option \<Rightarrow> 's \<Rightarrow> bytes res" where
  "s3_get E client bucket prefix key version st =
     bind_res (s3_object_key prefix key) (\<lambda>k.
     bind_res (s3_get_object client bucket k (if version = Some [] then None else version) st) (\<lambda>(data, expected).
     bind_res (raise_if (case expected of Some (c # cs) \<Rightarrow> sha256_hex E data \<noteq> c # cs | _ \<Rightarrow> False)
        (ValueError (lit ''stored object integrity check failed''))) (\<lambda>_.
       Inr data)))"

section \<open>Witnesses\<close>

definition demo_key :: pystr where
  "demo_key = lit ''acme/tax/r1.zip''"

definition demo_deadline :: "int \<Rightarrow> pystr" where
  "demo_deadline n = lit ''2033-01-01T00:00:00+00:00''"

definition demo_stored :: "bytes \<Rightarrow> stored_object" where
  "demo_stored data = \<lparr>so_key = demo_key, so_version_id = demo_sha data, so_sha256 = demo_sha data,
     so_size = int (length data), so_retain_until = demo_deadline 30\<rparr>"

definition demo_files :: "bytes \<Rightarrow> files" where
  "demo_files data = dict_put (version_path demo_key (demo_sha data) @ metadata_suffix)
     (metadata_bytes (demo_stored data)) (dict_put (version_path demo_key (demo_sha data)) data [])"

lemma demo_put: "put_immutable demo_env demo_deadline demo_key data 30 [] = (Inr (demo_stored data), demo_files data)"
proof -
  have k: "safe_key demo_key = Inr demo_key" by code_simp
  have e: "sha256_hex demo_env = demo_sha" by (simp add: demo_env_def)
  show ?thesis
    by (simp add: put_immutable_def k e Let_def blocked_def is_dir_def demo_stored_def demo_files_def)
qed

lemma demo_deadline_plain: "plain_text (demo_deadline n)" "plain_text demo_key"
  by (simp_all add: demo_deadline_def demo_key_def)

lemma stored_object_stays_witness:
  "get_object demo_env (demo_files [1, 2, 3]) demo_key (Some (demo_sha [1, 2, 3])) = Inr [1, 2, 3]"

  using stored_object_stays [OF demo_env_law rtranclp.rtrancl_refl demo_deadline_plain(2,1) demo_put
      rtranclp.rtrancl_refl, of "[1, 2, 3]"]
  by (simp add: demo_stored_def)

end
