(* ===== verification/Schema.thy ===== *)
theory Schema
  imports Py_Decimal
begin

text \<open>
  The tables of \<^verbatim>\<open>sql_models.py\<close>: one record per mapped class, with a prefix for its fields,
  and the database as the record of its tables.  \<^verbatim>\<open>Integer\<close> columns are integers, \<^verbatim>\<open>String\<close> and
  \<^verbatim>\<open>Text\<close> columns texts, \<^verbatim>\<open>Numeric\<close> columns decimals, and a nullable column an option.  Column
  lengths and numeric widths are limits of the database server and are not modelled; unique
  and primary keys are, at the insertions that can violate them.
\<close>

section \<open>Rows\<close>

record audit_event =
  ae_id :: int
  ae_tenant :: pystr
  ae_module :: pystr
  ae_event_type :: pystr
  ae_entity_id :: pystr
  ae_occurred_at :: pystr
  ae_payload_json :: pystr
  ae_previous_hash :: pystr
  ae_event_hash :: pystr

record tax_transaction_row =
  tx_id :: int
  tx_tenant :: pystr
  tx_invoice_id :: pystr
  tx_seller_tax_id :: "pystr option"
  tx_buyer_tax_id :: "pystr option"
  tx_invoice_date :: pystr
  tx_amount :: decimal
  tx_tax_rate :: decimal
  tx_tax_amount :: decimal
  tx_currency :: pystr
  tx_source_hash :: pystr
  tx_ingested_at :: pystr

record tax_rule_run =
  tr_run_id :: pystr
  tr_tenant :: pystr
  tr_rule_version :: pystr
  tr_rule_pack_json :: pystr
  tr_started_at :: pystr
  tr_completed_at :: "pystr option"
  tr_transaction_count :: int
  tr_finding_count :: int

record tax_finding =
  tf_id :: int
  tf_tenant :: pystr
  tf_run_id :: pystr
  tf_transaction_id :: "int option"
  tf_invoice_id :: pystr
  tf_rule_code :: pystr
  tf_severity :: pystr
  tf_explanation :: pystr
  tf_evidence_json :: pystr

record tax_run_workflow =
  rw_run_id :: pystr
  rw_tenant :: pystr
  rw_requested_by :: pystr
  rw_status :: pystr
  rw_version :: int
  rw_reviewed_by :: "pystr option"
  rw_reviewed_at :: "pystr option"
  rw_decision_comment :: "pystr option"

record regulation_document =
  rd_id :: int
  rd_tenant :: pystr
  rd_document_key :: pystr
  rd_title :: pystr
  rd_source_url :: pystr
  rd_published_at :: pystr
  rd_version_hash :: pystr
  rd_content :: pystr

record control_event_row =
  ce_id :: int
  ce_tenant :: pystr
  ce_event_id :: pystr
  ce_event_type :: pystr
  ce_actor :: pystr
  ce_resource :: pystr
  ce_occurred_at :: pystr
  ce_approved :: int
  ce_privileged :: int
  ce_outcome :: pystr
  ce_payload_json :: pystr
  ce_evidence_hash :: pystr

record control_case =
  cc_id :: int
  cc_tenant :: pystr
  cc_event_id :: pystr
  cc_control_id :: pystr
  cc_severity :: pystr
  cc_explanation :: pystr
  cc_evidence_hash :: pystr
  cc_status :: pystr
  cc_version :: int

record control_case_transition =
  ct_id :: int
  ct_tenant :: pystr
  ct_case_id :: int
  ct_from_status :: pystr
  ct_to_status :: pystr
  ct_actor :: pystr
  ct_reason :: pystr
  ct_occurred_at :: pystr

record graph_entity =
  ge_tenant :: pystr
  ge_entity_id :: pystr
  ge_entity_type :: pystr
  ge_attributes_json :: pystr

record graph_edge =
  gx_id :: int
  gx_tenant :: pystr
  gx_source_id :: pystr
  gx_target_id :: pystr
  gx_relation :: pystr
  gx_amount :: decimal
  gx_occurred_at :: pystr
  gx_evidence_json :: pystr

record idempotency_record =
  ir_tenant :: pystr
  ir_operation :: pystr
  ir_key :: pystr
  ir_request_hash :: pystr
  ir_response_json :: pystr
  ir_status_code :: int
  ir_created_at :: pystr

record outbox_event =
  ox_id :: int
  ox_tenant :: pystr
  ox_topic :: pystr
  ox_aggregate_id :: pystr
  ox_payload_json :: pystr
  ox_created_at :: pystr
  ox_published_at :: "pystr option"
  ox_attempts :: int
  ox_last_error :: "pystr option"
  ox_dead_lettered_at :: "pystr option"

record dead_letter_event =
  dl_id :: int
  dl_outbox_id :: int
  dl_tenant :: pystr
  dl_topic :: pystr
  dl_aggregate_id :: pystr
  dl_payload_json :: pystr
  dl_failure_reason :: pystr
  dl_failed_at :: pystr
  dl_replayed_at :: "pystr option"

record consumer_receipt =
  cr_consumer_name :: pystr
  cr_event_id :: pystr
  cr_tenant :: pystr
  cr_processed_at :: pystr

section \<open>The database\<close>

record db =
  audit_events :: "audit_event list"
  tax_transactions :: "tax_transaction_row list"
  tax_rule_runs :: "tax_rule_run list"
  tax_findings :: "tax_finding list"
  tax_run_workflows :: "tax_run_workflow list"
  regulation_documents :: "regulation_document list"
  control_events :: "control_event_row list"
  control_cases :: "control_case list"
  control_case_transitions :: "control_case_transition list"
  graph_entities :: "graph_entity list"
  graph_edges :: "graph_edge list"
  idempotency_records :: "idempotency_record list"
  outbox_events :: "outbox_event list"
  dead_letter_events :: "dead_letter_event list"
  consumer_receipts :: "consumer_receipt list"

definition empty_db :: db where
  "empty_db = \<lparr>audit_events = [], tax_transactions = [], tax_rule_runs = [], tax_findings = [],
     tax_run_workflows = [], regulation_documents = [], control_events = [], control_cases = [],
     control_case_transitions = [], graph_entities = [], graph_edges = [],
     idempotency_records = [], outbox_events = [], dead_letter_events = [],
     consumer_receipts = []\<rparr>"

end
