(* ===== verification/Hash_Chain.thy ===== *)
theory Hash_Chain
  imports Py_Json
begin

text \<open>
  Hash chains, the interface that the audit trail of \<^verbatim>\<open>core.py\<close> and the event stream of
  \<^verbatim>\<open>event_stream.py\<close> share: every record stores the seal of its predecessor (its link) and its
  own seal, which is the digest of its material.  The lemmas say what a verified chain rules
  out: two verified chains that end in the same seal hold the same material, unless two
  different materials that were hashed have the same digest.
\<close>

fun chained :: "('r \<Rightarrow> 'h) \<Rightarrow> ('r \<Rightarrow> 'h) \<Rightarrow> ('r \<Rightarrow> bool) \<Rightarrow> 'h \<Rightarrow> 'r list \<Rightarrow> bool" where
  "chained link seal intact prev [] \<longleftrightarrow> True"
| "chained link seal intact prev (r # rs) \<longleftrightarrow>
     link r = prev \<and> intact r \<and> chained link seal intact (seal r) rs"

text \<open>The seal a new record has to link to.\<close>

definition chain_head :: "('r \<Rightarrow> 'h) \<Rightarrow> 'h \<Rightarrow> 'r list \<Rightarrow> 'h" where
  "chain_head seal prev rs = (if rs = [] then prev else seal (last rs))"

lemma chain_head_simps [simp]:
  "chain_head seal prev [] = prev"
  "chain_head seal prev (rs @ [r]) = seal r"
  "chain_head seal prev (r # rs) = chain_head seal (seal r) rs"
  by (simp_all add: chain_head_def)

lemma chained_append:
  "chained link seal intact prev (rs @ ss) \<longleftrightarrow>
     chained link seal intact prev rs \<and> chained link seal intact (chain_head seal prev rs) ss"
  by (induction rs arbitrary: prev) auto

lemma chained_snoc:
  "chained link seal intact prev (rs @ [r]) \<longleftrightarrow>
     chained link seal intact prev rs \<and> link r = chain_head seal prev rs \<and> intact r"
  by (simp add: chained_append)

lemma chained_intact: "chained link seal intact prev rs \<Longrightarrow> r \<in> set rs \<Longrightarrow> intact r"
  by (induction rs arbitrary: prev) auto

lemma chained_take: "chained link seal intact prev rs \<Longrightarrow> chained link seal intact prev (take n rs)"
  by (metis append_take_drop_id chained_append)

text \<open>Removing an inner record leaves a chain only if the record repeats its predecessor's seal.\<close>

lemma chained_remove:
  assumes "chained link seal intact prev (rs @ r # s # ss)"
    and "chained link seal intact prev (rs @ s # ss)"
  shows "seal r = chain_head seal prev rs"
  using assms by (auto simp: chained_append)

locale hash_chain =
  fixes link :: "'r \<Rightarrow> 'h"
    and seal :: "'r \<Rightarrow> 'h"
    and intact :: "'r \<Rightarrow> bool"
    and material :: "'r \<Rightarrow> 'm"
    and digest :: "'m \<Rightarrow> 'h"
  assumes intact_seal: "intact r \<Longrightarrow> seal r = digest (material r)"
    and material_link: "intact r \<Longrightarrow> intact s \<Longrightarrow> material r = material s \<Longrightarrow> link r = link s"
begin

definition colliding :: "'r list \<Rightarrow> 'r list \<Rightarrow> bool" where
  "colliding rs ss \<longleftrightarrow> (\<exists>r \<in> set rs. \<exists>s \<in> set ss.
     material r \<noteq> material s \<and> digest (material r) = digest (material s))"

lemma colliding_mono: "colliding rs ss \<Longrightarrow> set rs \<subseteq> set rs' \<Longrightarrow> set ss \<subseteq> set ss' \<Longrightarrow> colliding rs' ss'"
  unfolding colliding_def by blast

lemma same_seal:
  assumes "intact r" "intact s" "seal r = seal s"
  shows "material r = material s \<and> link r = link s \<or> colliding [r] [s]"
proof (cases "material r = material s")
  case True
  from material_link [OF assms(1,2) True] True show ?thesis by blast
next
  case False
  have "digest (material r) = digest (material s)"
    using assms(3) by (simp only: intact_seal [OF assms(1)] intact_seal [OF assms(2)])
  with False have "colliding [r] [s]" by (simp add: colliding_def)
  then show ?thesis ..
qed

text \<open>Chains of one length with one head agree in every record.\<close>

lemma same_head:
  assumes "length rs = length ss"
    and "chained link seal intact p rs" "chained link seal intact q ss"
    and "rs \<noteq> []" "seal (last rs) = seal (last ss)"
  shows "map material rs = map material ss \<and> p = q \<or> colliding rs ss"
  using assms
proof (induction rs ss rule: rev_induct2)
  case (4 r rs s ss)
  then have rs: "chained link seal intact p rs" "link r = chain_head seal p rs" "intact r"
    and ss: "chained link seal intact q ss" "link s = chain_head seal q ss" "intact s"
    and len: "length rs = length ss" and seals: "seal r = seal s"
    by (auto simp: chained_snoc)
  from same_seal [OF rs(3) ss(3) seals] consider
    (eq) "material r = material s" "link r = link s" | (clash) "colliding [r] [s]" by blast
  then show ?case
  proof cases
    case clash
    then show ?thesis by (auto intro: colliding_mono)
  next
    case eq
    show ?thesis
    proof (cases "rs = []")
      case True
      with len eq rs ss show ?thesis by simp
    next
      case False
      with len have "ss \<noteq> []" by auto
      with False eq rs ss have "seal (last rs) = seal (last ss)"
        by (simp add: chain_head_def)
      with "4.IH" [OF len rs(1) ss(1) False] eq len show ?thesis
        by (auto intro: colliding_mono)
    qed
  qed
qed auto

text \<open>Without a common length one chain may start earlier, at a record whose seal is the root.\<close>

lemma same_head_any:
  assumes "chained link seal intact p rs" "chained link seal intact p ss"
    and "length rs \<le> length ss" and "chain_head seal p rs = chain_head seal p ss"
  shows "map material rs = map material (drop (length ss - length rs) ss)
      \<and> (length rs < length ss \<longrightarrow> p \<in> digest ` material ` set ss)
    \<or> colliding rs ss"
proof -
  define k where "k = length ss - length rs"
  have split: "ss = take k ss @ drop k ss" and len: "length rs = length (drop k ss)"
    using assms(3) by (auto simp: k_def)
  from assms(2) split have t: "chained link seal intact p (take k ss)"
    and d: "chained link seal intact (chain_head seal p (take k ss)) (drop k ss)"
    by (metis chained_append)+
  have "map material rs = map material (drop k ss) \<and> p = chain_head seal p (take k ss)
      \<or> colliding rs (drop k ss)"
  proof (cases "rs = []")
    case True
    with assms len show ?thesis by (auto simp: k_def)
  next
    case False
    with len have "drop k ss \<noteq> []" by auto
    with False assms(4) have "seal (last rs) = seal (last (drop k ss))"
      by (auto simp: chain_head_def)
    with same_head [OF len assms(1) d False] show ?thesis by blast
  qed
  moreover have "p \<in> digest ` material ` set ss"
    if "length rs < length ss" "p = chain_head seal p (take k ss)"
  proof -
    from that have "take k ss \<noteq> []" by (auto simp: k_def)
    then have l: "last (take k ss) \<in> set (take k ss)" "p = seal (last (take k ss))"
      using that by (auto simp: chain_head_def)
    with t have "p = digest (material (last (take k ss)))"
      using chained_intact intact_seal by metis
    with l(1) show ?thesis by (meson image_eqI in_set_takeD)
  qed
  ultimately show ?thesis
    using colliding_mono [of rs "drop k ss" rs ss] by (auto simp: k_def dest: in_set_dropD)
qed

end

end
