(* ===== verification/Core.thy ===== *)
theory Core
  imports Schema Hash_Chain
begin

text \<open>
  \<^verbatim>\<open>core.py\<close>: connections, the transactional outbox's append, and the tamper-evident audit
  trail.  Every state-changing service appends to the audit trail through
  \<open>append_audit_event\<close>, so its two facts (an append keeps a verifiable chain verifiable, and a
  verified chain determines what was recorded) are what the service theories build on.
\<close>

section \<open>Definitions\<close>

datatype dialect = Sqlite | Postgres

text \<open>
  \<^verbatim>\<open>Database.connect\<close>: on PostgreSQL the tenant is checked before the session variable that the
  row-level policies read is set; the body runs in one transaction.
\<close>

definition tenant_accepted :: "pyenv \<Rightarrow> pystr \<Rightarrow> bool" where
  "tenant_accepted E t \<longleftrightarrow> t \<noteq> [] \<and> length t \<le> 64
     \<and> py_isalnum E (py_remove (of_char CHR ''-'') (py_remove (of_char CHR ''_'') t))"

definition connect :: "pyenv \<Rightarrow> dialect \<Rightarrow> pystr option \<Rightarrow> ('a, db) tx \<Rightarrow> db \<Rightarrow> 'a res \<times> db" where
  "connect E dl tenant body = transaction
     (case tenant of
        None \<Rightarrow> body
      | Some t \<Rightarrow>
          if dl = Postgres \<and> \<not> tenant_accepted E t then raise_tx (ValueError (lit ''invalid tenant_id''))
          else body)"

definition append_outbox_event ::
  "clock \<Rightarrow> pystr \<Rightarrow> pystr \<Rightarrow> pystr \<Rightarrow> json \<Rightarrow> (unit, db) tx" where
  "append_outbox_event ts tenant topic aggregate payload = update_tx (\<lambda>d.
     d\<lparr>outbox_events := outbox_events d @
         [\<lparr>ox_id = fresh_id (map ox_id (outbox_events d)), ox_tenant = tenant, ox_topic = topic,
           ox_aggregate_id = aggregate, ox_payload_json = canonical_json payload,
           ox_created_at = ts 0, ox_published_at = None, ox_attempts = 0, ox_last_error = None,
           ox_dead_lettered_at = None\<rparr>]\<rparr>)"

definition genesis :: pystr where
  "genesis = lit ''GENESIS''"

definition audit_material ::
  "pystr \<Rightarrow> pystr \<Rightarrow> pystr \<Rightarrow> pystr \<Rightarrow> pystr \<Rightarrow> json \<Rightarrow> pystr \<Rightarrow> json" where
  "audit_material tenant mdl event_type entity occurred payload previous = JObj
     [(lit ''tenant_id'', JStr tenant), (lit ''module'', JStr mdl),
      (lit ''event_type'', JStr event_type), (lit ''entity_id'', JStr entity),
      (lit ''occurred_at'', JStr occurred), (lit ''payload'', payload),
      (lit ''previous_hash'', JStr previous)]"

text \<open>\<^verbatim>\<open>SELECT ... WHERE tenant_id = t ORDER BY id\<close>, and the hash of the last of these rows.\<close>

definition audit_rows :: "pystr \<Rightarrow> db \<Rightarrow> audit_event list" where
  "audit_rows t d = select_rows ae_id (\<lambda>r. ae_tenant r = t) (audit_events d)"

definition previous_hash :: "pystr \<Rightarrow> db \<Rightarrow> pystr" where
  "previous_hash t d =
     (case rev (audit_rows t d) of
        [] \<Rightarrow> genesis
      | r # _ \<Rightarrow> if ae_event_hash r = [] then genesis else ae_event_hash r)"

definition insert_audit_event :: "audit_event \<Rightarrow> (unit, db) tx" where
  "insert_audit_event r d =
     (if \<exists>r' \<in> set (audit_events d). ae_tenant r' = ae_tenant r \<and> ae_event_hash r' = ae_event_hash r
      then Inl (IntegrityError (lit ''uq_audit_tenant_hash''))
      else Inr ((), d\<lparr>audit_events := audit_events d @ [r]\<rparr>))"

definition append_audit_event ::
  "pyenv \<Rightarrow> clock \<Rightarrow> pystr \<Rightarrow> pystr \<Rightarrow> pystr \<Rightarrow> json \<Rightarrow> pystr \<Rightarrow> (pystr, db) tx" where
  "append_audit_event E ts mdl event_type entity payload tenant d =
     (let previous = previous_hash tenant d;
          occurred = ts 0;
          hash = sha256_json E (audit_material tenant mdl event_type entity occurred payload previous)
      in bind_tx
          (insert_audit_event
             \<lparr>ae_id = fresh_id (map ae_id (audit_events d)), ae_tenant = tenant, ae_module = mdl,
              ae_event_type = event_type, ae_entity_id = entity, ae_occurred_at = occurred,
              ae_payload_json = canonical_json payload, ae_previous_hash = previous,
              ae_event_hash = hash\<rparr>)
          (\<lambda>_. bind_tx
            (append_outbox_event (after_calls 1 ts) tenant (lit ''audit.event.created'') entity
               (JObj [(lit ''module'', JStr mdl), (lit ''event_type'', JStr event_type),
                      (lit ''event_hash'', JStr hash)]))
            (\<lambda>_. return_tx hash)) d)"

text \<open>
  \<^verbatim>\<open>verify_audit_chain\<close>: the loop over the tenant's rows; \<open>json.loads\<close> may raise on a stored
  payload that is no JSON text.
\<close>

fun verify_rows ::
  "pyenv \<Rightarrow> pystr \<Rightarrow> pystr \<Rightarrow> int \<Rightarrow> audit_event list \<Rightarrow> (bool \<times> int \<times> pystr option) res" where
  "verify_rows E t previous n [] = Inr (True, n, None)"
| "verify_rows E t previous n (r # rs) =
     bind_res (loads E (ae_payload_json r)) (\<lambda>payload.
       let material = audit_material t (ae_module r) (ae_event_type r) (ae_entity_id r)
             (ae_occurred_at r) payload (ae_previous_hash r)
       in if ae_previous_hash r \<noteq> previous \<or> sha256_json E material \<noteq> ae_event_hash r
          then Inr (False, n, Some (ae_event_hash r))
          else verify_rows E t (ae_event_hash r) (n + 1) rs)"

definition verify_audit_chain :: "pyenv \<Rightarrow> pystr \<Rightarrow> db \<Rightarrow> (bool \<times> int \<times> pystr option) res" where
  "verify_audit_chain E t d = verify_rows E t genesis 0 (audit_rows t d)"

text \<open>\<^verbatim>\<open>database_health\<close>: the count is read and dropped.\<close>

definition dialect_name :: "dialect \<Rightarrow> pystr" where
  "dialect_name dl = (case dl of Sqlite \<Rightarrow> lit ''sqlite'' | Postgres \<Rightarrow> lit ''postgresql'')"

definition database_health :: "pyenv \<Rightarrow> dialect \<Rightarrow> db \<Rightarrow> json res \<times> db" where
  "database_health E dl = connect E dl None (return_tx
     (JObj [(lit ''database'', JStr (lit ''up'')), (lit ''dialect'', JStr (dialect_name dl))]))"

section \<open>Connections\<close>

lemma connect_commit: "connect E dl t m d = (Inr x, d') \<Longrightarrow> m d = Inr (x, d')"
  by (auto simp: connect_def transaction_def split: option.splits sum.splits prod.splits if_splits)

lemma connect_abort: "connect E dl t m d = (Inl e, d') \<Longrightarrow> d' = d"
  by (auto simp: connect_def transaction_def split: option.splits sum.splits prod.splits if_splits)

lemma connect_eq:
  "connect E dl (Some t) m d =
     (if dl = Postgres \<and> \<not> tenant_accepted E t then (Inl (ValueError (lit ''invalid tenant_id'')), d)
      else case m d of Inl e \<Rightarrow> (Inl e, d) | Inr (x, d') \<Rightarrow> (Inr x, d'))"
  by (simp add: connect_def transaction_def)

text \<open>A connected operation keeps what its committed body keeps.\<close>

lemma connect_invariant:
  assumes "connect E dl t m d = (r, d')" "P d" "\<And>x. m d = Inr (x, d') \<Longrightarrow> P d'"
  shows "P d'"
proof (cases r)
  case (Inl e)
  with assms(1) have "d' = d" by (auto dest: connect_abort)
  with assms(2) show ?thesis by simp
next
  case (Inr x)
  with assms(1) have "m d = Inr (x, d')" by (auto dest: connect_commit)
  then show ?thesis by (rule assms(3))
qed

section \<open>The audit trail\<close>

definition audit_intact :: "pyenv \<Rightarrow> pystr \<Rightarrow> audit_event \<Rightarrow> bool" where
  "audit_intact E t r \<longleftrightarrow> (case loads E (ae_payload_json r) of Inl _ \<Rightarrow> False | Inr payload \<Rightarrow>
     wf_json E payload \<and> sha256_json E (audit_material t (ae_module r) (ae_event_type r)
       (ae_entity_id r) (ae_occurred_at r) payload (ae_previous_hash r)) = ae_event_hash r)"

text \<open>What an auditor reads in a row: its columns, and its payload as a value.\<close>

definition audit_reading ::
  "pyenv \<Rightarrow> audit_event \<Rightarrow> pystr \<times> pystr \<times> pystr \<times> pystr \<times> pystr \<times> json res" where
  "audit_reading E r = (ae_module r, ae_event_type r, ae_entity_id r, ae_occurred_at r,
     ae_previous_hash r, map_sum id jnorm (loads E (ae_payload_json r)))"

definition audit_bytes :: "pyenv \<Rightarrow> pystr \<Rightarrow> audit_event \<Rightarrow> bytes" where
  "audit_bytes E t r = utf8 (canonical_json (audit_material t (ae_module r) (ae_event_type r)
     (ae_entity_id r) (ae_occurred_at r)
     (case loads E (ae_payload_json r) of Inl _ \<Rightarrow> JNull | Inr payload \<Rightarrow> payload)
     (ae_previous_hash r)))"

abbreviation audit_chained :: "pyenv \<Rightarrow> pystr \<Rightarrow> pystr \<Rightarrow> audit_event list \<Rightarrow> bool" where
  "audit_chained E t \<equiv> chained ae_previous_hash ae_event_hash (audit_intact E t)"

lemma quote_char_nonempty [simp]: "quote_char c \<noteq> []"
  by (simp add: quote_char_def)

lemma canonical_JStr [simp]: "canonical_json (JStr s) = canonical_json (JStr t) \<longleftrightarrow> s = t"
proof -
  let ?E = "\<lparr>sha256_hex = id, float_repr = id, ucd_alnum = (\<lambda>_. False)\<rparr>"
  have "canonical_json (JStr s) = canonical_json (JStr t) \<longleftrightarrow> jnorm (JStr s) = jnorm (JStr t)"
    by (rule canonical_json_inject [of ?E]) simp_all
  then show ?thesis by simp
qed

text \<open>The hashed text determines every field of the material.\<close>

lemma audit_material_inject:
  assumes "wf_json E p" "wf_json E q"
  shows "canonical_json (audit_material t m e i oc p h) = canonical_json (audit_material t' m' e' i' oc' q h')
    \<longleftrightarrow> t = t' \<and> m = m' \<and> e = e' \<and> i = i' \<and> oc = oc' \<and> jnorm p = jnorm q \<and> h = h'"
proof -
  have ks: "canonical_json (audit_material t m e i oc p h) = canonical_json (audit_material t' m' e' i' oc' q h')
    \<longleftrightarrow> jnorm (audit_material t m e i oc p h) = jnorm (audit_material t' m' e' i' oc' q h')"
    using assms by (intro canonical_json_inject [of E]) (simp_all add: audit_material_def)
  let ?kvs = "\<lambda>t m e i oc p h. [(lit ''tenant_id'', JStr t), (lit ''module'', JStr m),
      (lit ''event_type'', JStr e), (lit ''entity_id'', JStr i),
      (lit ''occurred_at'', JStr oc), (lit ''payload'', jnorm p),
      (lit ''previous_hash'', JStr h)]"
  have n: "jnorm (audit_material t m e i oc p h) = JObj (sort_key fst (?kvs t m e i oc p h))"
    for t m e i oc p h by (simp only: audit_material_def jnorm.simps list.map prod.case)
  have "jnorm (audit_material t m e i oc p h) = jnorm (audit_material t' m' e' i' oc' q h')
     \<longleftrightarrow> map_of (?kvs t m e i oc p h) = map_of (?kvs t' m' e' i' oc' q h')"
    unfolding n json.inject by (rule sort_key_fst_eq_iff) simp_all
  also have "\<dots> \<longleftrightarrow> t = t' \<and> m = m' \<and> e = e' \<and> i = i' \<and> oc = oc' \<and> jnorm p = jnorm q \<and> h = h'"
  proof
    assume eq: "map_of (?kvs t m e i oc p h) = map_of (?kvs t' m' e' i' oc' q h')"
    show "t = t' \<and> m = m' \<and> e = e' \<and> i = i' \<and> oc = oc' \<and> jnorm p = jnorm q \<and> h = h'"
      using fun_cong [OF eq, of "lit ''tenant_id''"] fun_cong [OF eq, of "lit ''module''"]
        fun_cong [OF eq, of "lit ''event_type''"] fun_cong [OF eq, of "lit ''entity_id''"]
        fun_cong [OF eq, of "lit ''occurred_at''"] fun_cong [OF eq, of "lit ''payload''"]
        fun_cong [OF eq, of "lit ''previous_hash''"] by simp
  qed simp
  finally show ?thesis using ks by simp
qed

interpretation audit_log: hash_chain ae_previous_hash ae_event_hash "audit_intact E t" "audit_bytes E t"
    "sha256_hex E" for E t
proof
  show "ae_event_hash r = sha256_hex E (audit_bytes E t r)" if "audit_intact E t r" for r
    using that by (auto simp: audit_intact_def audit_bytes_def sha256_json_def split: sum.splits)
  show "ae_previous_hash r = ae_previous_hash s"
    if "audit_intact E t r" "audit_intact E t s" "audit_bytes E t r = audit_bytes E t s" for r s
    using that by (auto simp: audit_intact_def audit_bytes_def audit_material_inject split: sum.splits)
qed

lemma audit_bytes_reading:
  assumes "audit_intact E t r" "audit_intact E t s" "audit_bytes E t r = audit_bytes E t s"
  shows "audit_reading E r = audit_reading E s"
  using assms
  by (auto simp: audit_intact_def audit_bytes_def audit_reading_def audit_material_inject split: sum.splits)

text \<open>The verification loop succeeds exactly on chains, and stops at the first broken row.\<close>

lemma verify_rows_True:
  assumes "env_law E"
  shows "verify_rows E t p n rs = Inr (True, m, h) \<longleftrightarrow>
    audit_chained E t p rs \<and> m = n + int (length rs) \<and> h = None"
  using assms
proof (induction rs arbitrary: p n)
  case (Cons r rs)
  then show ?case
    by (cases "loads E (ae_payload_json r)")
      (auto simp: audit_intact_def Let_def env_law_def intro: loads_wf)
qed auto

lemma verify_rows_False:
  assumes "env_law E"
  shows "verify_rows E t p n rs = Inr (False, m, h) \<longleftrightarrow>
    (\<exists>k < length rs. m = n + int k \<and> h = Some (ae_event_hash (rs ! k))
       \<and> (\<exists>v. loads E (ae_payload_json (rs ! k)) = Inr v)
       \<and> audit_chained E t p (take k rs) \<and> \<not> audit_chained E t p (take (Suc k) rs))"
proof (induction rs arbitrary: p n)
  case Nil
  show ?case by simp
next
  case (Cons r rs)
  show ?case
  proof (cases "loads E (ae_payload_json r)")
    case (Inl e)
    then have "\<not> audit_intact E t r" by (simp add: audit_intact_def)
    with Inl show ?thesis by (simp add: Ex_less_Suc2)
  next
    case (Inr v)
    with assms have wf: "wf_json E v" by (auto simp: env_law_def intro: loads_wf)
    show ?thesis
    proof (cases "ae_previous_hash r = p \<and> audit_intact E t r")
      case True
      with Inr have "verify_rows E t p n (r # rs) = Inr (False, m, h) \<longleftrightarrow>
          verify_rows E t (ae_event_hash r) (n + 1) rs = Inr (False, m, h)"
        by (auto simp: audit_intact_def Let_def)
      with True Cons.IH [of "ae_event_hash r" "n + 1"] show ?thesis
        by (simp add: Ex_less_Suc2 add.commute add.left_commute)
    next
      case False
      with Inr wf have "verify_rows E t p n (r # rs) = Inr (False, m, h) \<longleftrightarrow>
          m = n \<and> h = Some (ae_event_hash r)"
        by (auto simp: audit_intact_def Let_def)
      with False Inr show ?thesis by (auto simp: Ex_less_Suc2)
    qed
  qed
qed

section \<open>Appending\<close>

definition audit_ok :: "pyenv \<Rightarrow> db \<Rightarrow> bool" where
  "audit_ok E d \<longleftrightarrow> (\<forall>t. audit_chained E t genesis (audit_rows t d))"

definition audit_row ::
  "pyenv \<Rightarrow> clock \<Rightarrow> pystr \<Rightarrow> pystr \<Rightarrow> pystr \<Rightarrow> json \<Rightarrow> pystr \<Rightarrow> db \<Rightarrow> audit_event" where
  "audit_row E ts mdl event_type entity payload tenant d =
     \<lparr>ae_id = fresh_id (map ae_id (audit_events d)), ae_tenant = tenant, ae_module = mdl,
      ae_event_type = event_type, ae_entity_id = entity, ae_occurred_at = ts 0,
      ae_payload_json = canonical_json payload, ae_previous_hash = previous_hash tenant d,
      ae_event_hash = sha256_json E (audit_material tenant mdl event_type entity (ts 0) payload
        (previous_hash tenant d))\<rparr>"

lemma append_audit_event_cases:
  assumes "append_audit_event E ts mdl event_type entity payload tenant d = Inr (h, d')"
  defines "r \<equiv> audit_row E ts mdl event_type entity payload tenant d"
  obtains ev where "h = ae_event_hash r"
    and "d' = d\<lparr>audit_events := audit_events d @ [r], outbox_events := outbox_events d @ [ev]\<rparr>"
    and "ox_id ev = fresh_id (map ox_id (outbox_events d))" "ox_tenant ev = tenant"
      "ox_topic ev = lit ''audit.event.created''" "ox_aggregate_id ev = entity"
      "ox_published_at ev = None" "ox_attempts ev = 0" "ox_dead_lettered_at ev = None"
      "ox_payload_json ev = canonical_json (JObj [(lit ''module'', JStr mdl),
         (lit ''event_type'', JStr event_type), (lit ''event_hash'', JStr h)])"
proof -
  show thesis
    using assms(1)
    by (auto simp: append_audit_event_def Let_def bind_tx_Inr insert_audit_event_def
        append_outbox_event_def r_def audit_row_def split: if_splits intro!: that)
qed

lemma audit_rows_snoc:
  "ae_id r = fresh_id (map ae_id (audit_events d)) \<Longrightarrow>
   audit_rows t (d\<lparr>audit_events := audit_events d @ [r], outbox_events := os\<rparr>) =
     audit_rows t d @ (if ae_tenant r = t then [r] else [])"
  by (simp add: audit_rows_def select_rows_fresh)

lemma audit_rows_cong: "audit_events d' = audit_events d \<Longrightarrow> audit_rows t d' = audit_rows t d"
  by (simp add: audit_rows_def)

lemma audit_ok_cong: "audit_events d' = audit_events d \<Longrightarrow> audit_ok E d' \<longleftrightarrow> audit_ok E d"
  by (simp add: audit_ok_def audit_rows_def)

lemma audit_ok_empty [simp]: "audit_ok E empty_db"
  by (simp add: audit_ok_def audit_rows_def empty_db_def select_rows_def)

lemma audit_row_intact:
  assumes "env_law E" "wf_json E payload"
  shows "audit_intact E tenant (audit_row E ts mdl event_type entity payload tenant d)"
proof -
  have "canonical_json (audit_material tenant mdl event_type entity oc (jnorm payload) p) =
      canonical_json (audit_material tenant mdl event_type entity oc payload p)" for oc p
    using assms(2) wf_jnorm [OF assms(2)]
    by (simp add: audit_material_inject [of E] jnorm_idem)
  then show ?thesis
    using assms by (simp add: audit_intact_def audit_row_def loads_canonical wf_jnorm sha256_json_def)
qed

lemma intact_hash_nonempty: "env_law E \<Longrightarrow> audit_intact E t r \<Longrightarrow> ae_event_hash r \<noteq> []"
  by (auto simp: audit_intact_def sha256_json_def sha_nonempty split: sum.splits)

text \<open>On a chain the hash an append links to is the head of the chain.\<close>

lemma previous_hash_head:
  assumes "env_law E" "audit_chained E t genesis (audit_rows t d)"
  shows "previous_hash t d = chain_head ae_event_hash genesis (audit_rows t d)"
proof (cases "audit_rows t d" rule: rev_cases)
  case Nil
  then show ?thesis by (simp add: previous_hash_def)
next
  case (snoc rs r)
  with assms have "ae_event_hash r \<noteq> []"
    by (auto simp: chained_snoc intact_hash_nonempty)
  with snoc show ?thesis by (simp add: previous_hash_def)
qed

lemma append_audit_event_rows:
  assumes "append_audit_event E ts mdl event_type entity payload tenant d = Inr (h, d')"
  shows "audit_rows t d' = audit_rows t d @
    (if t = tenant then [audit_row E ts mdl event_type entity payload tenant d] else [])"
  using assms
  by (rule append_audit_event_cases) (simp only: audit_rows_snoc audit_row_def audit_event.simps, auto)

lemma append_audit_event_ok [inv_intros]:
  assumes "append_audit_event E ts mdl event_type entity payload tenant d = Inr (h, d')"
    and "env_law E" "wf_json E payload" "audit_ok E d"
  shows "audit_ok E d'"
  unfolding audit_ok_def
proof
  fix t
  have "audit_chained E t genesis (audit_rows t d)" for t
    using assms(4) by (simp add: audit_ok_def)
  with assms show "audit_chained E t genesis (audit_rows t d')"
    by (simp add: append_audit_event_rows chained_snoc audit_row_intact)
      (simp add: audit_row_def previous_hash_head)
qed

lemma verify_audit_chain_ok:
  "env_law E \<Longrightarrow> audit_ok E d \<Longrightarrow> verify_audit_chain E t d = Inr (True, int (length (audit_rows t d)), None)"
  by (simp add: verify_audit_chain_def verify_rows_True audit_ok_def)

lemma append_audit_event_frame [frame_simps]:
  assumes "append_audit_event E ts mdl event_type entity payload tenant d = Inr (h, d')"
  shows "d'\<lparr>audit_events := audit_events d, outbox_events := outbox_events d\<rparr> = d"
  using assms by (rule append_audit_event_cases) simp

section \<open>Properties\<close>

text \<open>
  Appending keeps the trail verifiable.  If every tenant's trail verifies, then after
  \<open>append_audit_event\<close> every tenant's trail verifies again, the tenant's count has grown by one and
  the other tenants' counts are unchanged.
\<close>

theorem append_then_verify:
  assumes "env_law E" and "wf_json E payload"
    and "\<And>t. \<exists>n. verify_audit_chain E t d = Inr (True, n, None)"
    and "append_audit_event E ts mdl event_type entity payload tenant d = Inr (h, d')"
    and "verify_audit_chain E t d = Inr (True, n, None)"
  shows "verify_audit_chain E t d' = Inr (True, n + (if t = tenant then 1 else 0), None)"
proof -
  have ok: "audit_ok E d"
    using assms(1,3) by (simp add: audit_ok_def verify_audit_chain_def verify_rows_True)
  then have "audit_ok E d'" by (rule append_audit_event_ok [OF assms(4,1,2)])
  with ok assms show ?thesis
    by (simp add: verify_audit_chain_ok append_audit_event_rows)
qed

text \<open>A trail of two events, for the witnesses.\<close>

definition demo_append :: "pystr \<Rightarrow> json \<Rightarrow> db \<Rightarrow> db" where
  "demo_append entity payload d = snd (projr (append_audit_event demo_env demo_clock (lit ''tax'')
     (lit ''ingest'') entity payload (lit ''acme'') d))"

definition demo_trail :: db where
  "demo_trail = demo_append (lit ''b'') (JObj [(lit ''n'', JInt 2)])
     (demo_append (lit ''a'') (JObj [(lit ''n'', JInt 1)]) empty_db)"

lemma append_then_verify_witness:
  "verify_audit_chain demo_env (lit ''acme'') (demo_append (lit ''a'') (JObj [(lit ''n'', JInt 1)]) empty_db)
     = Inr (True, 1, None)"
proof -
  have run: "append_audit_event demo_env demo_clock (lit ''tax'') (lit ''ingest'') (lit ''a'')
      (JObj [(lit ''n'', JInt 1)]) (lit ''acme'') empty_db = Inr (h, d')
    \<Longrightarrow> demo_append (lit ''a'') (JObj [(lit ''n'', JInt 1)]) empty_db = d'" for h d'
    by (simp add: demo_append_def)
  have "\<exists>h d'. append_audit_event demo_env demo_clock (lit ''tax'') (lit ''ingest'') (lit ''a'')
      (JObj [(lit ''n'', JInt 1)]) (lit ''acme'') empty_db = Inr (h, d')"
    by (simp add: append_audit_event_def Let_def bind_tx_def insert_audit_event_def empty_db_def
        append_outbox_event_def)
  then obtain h d' where "append_audit_event demo_env demo_clock (lit ''tax'') (lit ''ingest'')
      (lit ''a'') (JObj [(lit ''n'', JInt 1)]) (lit ''acme'') empty_db = Inr (h, d')" by blast
  from append_then_verify [OF demo_env_law _ _ this, of "lit ''acme''" 0] run [OF this]
  show ?thesis
    by (simp add: verify_audit_chain_def audit_rows_def empty_db_def select_rows_def)
qed

text \<open>
  C6: Tampering is detected.  If the trails of two databases both verify, and record equally many
  events for the tenant and end in the same event hash, then they read the same in every row:
  modules, types, entities, times, links and payloads; or two different texts that the
  verification hashed have the same digest.
\<close>

theorem audit_tamper_evident:
  assumes "env_law E"
    and "verify_audit_chain E t d = Inr (True, n, None)" "verify_audit_chain E t d' = Inr (True, n, None)"
    and "audit_rows t d \<noteq> []"
    and "ae_event_hash (last (audit_rows t d)) = ae_event_hash (last (audit_rows t d'))"
  shows "map (audit_reading E) (audit_rows t d) = map (audit_reading E) (audit_rows t d')
    \<or> (\<exists>r \<in> set (audit_rows t d). \<exists>s \<in> set (audit_rows t d').
         audit_bytes E t r \<noteq> audit_bytes E t s
         \<and> sha256_hex E (audit_bytes E t r) = sha256_hex E (audit_bytes E t s))"
proof -
  let ?rs = "audit_rows t d" and ?ss = "audit_rows t d'"
  have ch: "audit_chained E t genesis ?rs" "audit_chained E t genesis ?ss"
    and len: "length ?rs = length ?ss"
    using assms(1-3) by (simp_all add: verify_audit_chain_def verify_rows_True)
  from audit_log.same_head [OF len ch assms(4,5)] consider
    (same) "map (audit_bytes E t) ?rs = map (audit_bytes E t) ?ss"
    | (clash) "audit_log.colliding E t ?rs ?ss" by blast
  then show ?thesis
  proof cases
    case clash
    then show ?thesis by (simp add: audit_log.colliding_def)
  next
    case same
    have "map (audit_reading E) ?rs = map (audit_reading E) ?ss"
    proof (rule nth_equalityI)
      fix i assume "i < length (map (audit_reading E) ?rs)"
      then have i: "i < length ?rs" "i < length ?ss" using len by simp_all
      then have "audit_bytes E t (?rs ! i) = audit_bytes E t (?ss ! i)"
        using same by (metis nth_map)
      moreover have "audit_intact E t (?rs ! i)" "audit_intact E t (?ss ! i)"
        using ch i by (meson chained_intact nth_mem)+
      ultimately have "audit_reading E (?rs ! i) = audit_reading E (?ss ! i)"
        by (intro audit_bytes_reading [of E t])
      with i show "map (audit_reading E) ?rs ! i = map (audit_reading E) ?ss ! i"
        by simp
    qed (simp add: len)
    then show ?thesis ..
  qed
qed

text \<open>The first row's payload text with white space: another row, the same reading.\<close>

definition demo_respaced :: db where
  "demo_respaced = demo_trail\<lparr>audit_events := update_rows (\<lambda>r. ae_id r = 1)
     (\<lambda>r. r\<lparr>ae_payload_json := lit ''{ \"n\": 1 }''\<rparr>) (audit_events demo_trail)\<rparr>"

lemma audit_tamper_evident_witness:
  "demo_trail \<noteq> demo_respaced
   \<and> map (audit_reading demo_env) (audit_rows (lit ''acme'') demo_trail)
     = map (audit_reading demo_env) (audit_rows (lit ''acme'') demo_respaced)"
proof -
  have v: "verify_audit_chain demo_env (lit ''acme'') demo_trail = Inr (True, 2, None)"
    by code_simp
  have w: "verify_audit_chain demo_env (lit ''acme'') demo_respaced = Inr (True, 2, None)"
    by code_simp
  have ne: "audit_rows (lit ''acme'') demo_trail \<noteq> []" by code_simp
  have hd: "ae_event_hash (last (audit_rows (lit ''acme'') demo_trail))
      = ae_event_hash (last (audit_rows (lit ''acme'') demo_respaced))" by code_simp
  have "\<not> (\<exists>r \<in> set (audit_rows (lit ''acme'') demo_trail). \<exists>s \<in> set (audit_rows (lit ''acme'') demo_respaced).
         audit_bytes demo_env (lit ''acme'') r \<noteq> audit_bytes demo_env (lit ''acme'') s
         \<and> sha256_hex demo_env (audit_bytes demo_env (lit ''acme'') r)
           = sha256_hex demo_env (audit_bytes demo_env (lit ''acme'') s))"
    by code_simp
  moreover have "map ae_payload_json (audit_rows (lit ''acme'') demo_trail)
      \<noteq> map ae_payload_json (audit_rows (lit ''acme'') demo_respaced)" by code_simp
  ultimately show ?thesis
    using audit_tamper_evident [OF demo_env_law v w ne hd] by metis
qed

text \<open>
  The verifier reports the first broken row.  It answers \<^verbatim>\<open>False\<close> with a count and a hash
  exactly if the row at that position is readable JSON, the rows before it form a chain from
  \<^verbatim>\<open>GENESIS\<close>, and the row breaks it (a wrong link, or a digest that is not its hash).
\<close>

theorem verify_reports_first_break:
  assumes "env_law E"
  shows "verify_audit_chain E t d = Inr (False, m, h) \<longleftrightarrow>
    (\<exists>k < length (audit_rows t d). m = int k \<and> h = Some (ae_event_hash (audit_rows t d ! k))
       \<and> (\<exists>v. loads E (ae_payload_json (audit_rows t d ! k)) = Inr v)
       \<and> audit_chained E t genesis (take k (audit_rows t d))
       \<and> \<not> audit_chained E t genesis (take (Suc k) (audit_rows t d)))"
  using verify_rows_False [OF assms] by (simp add: verify_audit_chain_def)

text \<open>The second row's link is overwritten.\<close>

definition demo_broken :: db where
  "demo_broken = demo_trail\<lparr>audit_events := update_rows (\<lambda>r. ae_id r = 2)
     (\<lambda>r. r\<lparr>ae_previous_hash := genesis\<rparr>) (audit_events demo_trail)\<rparr>"

lemma verify_reports_first_break_witness:
  "\<exists>h. verify_audit_chain demo_env (lit ''acme'') demo_broken = Inr (False, 1, h)"
proof -
  let ?rs = "audit_rows (lit ''acme'') demo_broken"
  have len: "1 < length ?rs" by code_simp
  have read: "\<not> isl (loads demo_env (ae_payload_json (?rs ! 1)))" by code_simp
  have chain: "audit_chained demo_env (lit ''acme'') genesis (take 1 ?rs)" by code_simp
  have break: "\<not> audit_chained demo_env (lit ''acme'') genesis (take (Suc 1) ?rs)" by code_simp
  have "\<exists>v. loads demo_env (ae_payload_json (?rs ! 1)) = Inr v"
    using read by (cases "loads demo_env (ae_payload_json (?rs ! 1))") auto
  with len chain break have "\<exists>k < length ?rs. 1 = int k
       \<and> Some (ae_event_hash (?rs ! 1)) = Some (ae_event_hash (?rs ! k))
       \<and> (\<exists>v. loads demo_env (ae_payload_json (?rs ! k)) = Inr v)
       \<and> audit_chained demo_env (lit ''acme'') genesis (take k ?rs)
       \<and> \<not> audit_chained demo_env (lit ''acme'') genesis (take (Suc k) ?rs)"
    by (intro exI [of _ "1::nat"]) simp
  then show ?thesis
    using verify_reports_first_break [OF demo_env_law, of "lit ''acme''" demo_broken 1] by blast
qed

end
