(* ===== verification/Py_Time.thy ===== *)
theory Py_Time
  imports Py_Text
begin

text \<open>
  \<^verbatim>\<open>datetime.fromisoformat\<close> as the source uses it: whether a text is an ISO 8601 date with an
  optional time and offset, and the hour it names.  The extended format is read (dates as
  \<^verbatim>\<open>YYYY-MM-DD\<close>, times and offsets as \<^verbatim>\<open>HH\<close>, \<^verbatim>\<open>HH:MM\<close> or \<^verbatim>\<open>HH:MM:SS\<close> with an optional
  fraction); the basic format and week dates, which Python also reads, raise here.
\<close>

definition iso_error :: "'a res" where
  "iso_error = Inl (ValueError (lit ''Invalid isoformat string''))"

definition leap_year :: "int \<Rightarrow> bool" where
  "leap_year y \<longleftrightarrow> y mod 4 = 0 \<and> (y mod 100 \<noteq> 0 \<or> y mod 400 = 0)"

definition days_in_month :: "int \<Rightarrow> int \<Rightarrow> int" where
  "days_in_month y m = (if m = 2 then (if leap_year y then 29 else 28)
     else if m = 4 \<or> m = 6 \<or> m = 9 \<or> m = 11 then 30 else 31)"

fun iso_date :: "pystr \<Rightarrow> bool" where
  "iso_date [a, b, c, d, h1, e, f, h2, g, h] \<longleftrightarrow>
     h1 = 45 \<and> h2 = 45 \<and> list_all is_digit [a, b, c, d, e, f, g, h] \<and>
     (let y = nat_of_digits [a, b, c, d]; m = nat_of_digits [e, f]; k = nat_of_digits [g, h]
      in 1 \<le> y \<and> 1 \<le> m \<and> m \<le> 12 \<and> 1 \<le> k \<and> k \<le> days_in_month y m)"
| "iso_date _ \<longleftrightarrow> False"

text \<open>Hours, minutes, seconds and the digits of the fraction; absent parts are zero.\<close>

definition two_digits :: "int \<Rightarrow> int \<Rightarrow> int option" where
  "two_digits a b = (if is_digit a \<and> is_digit b then Some (nat_of_digits [a, b]) else None)"

definition iso_fraction :: "pystr \<Rightarrow> bool" where
  "iso_fraction s \<longleftrightarrow> (case s of [] \<Rightarrow> True
     | c # r \<Rightarrow> (c = 46 \<or> c = 44) \<and> r \<noteq> [] \<and> list_all is_digit r)"

fun iso_clock :: "pystr \<Rightarrow> (int \<times> int \<times> int) option" where
  "iso_clock [a, b] = map_option (\<lambda>h. (h, 0, 0)) (two_digits a b)"
| "iso_clock [a, b, c, d, e] =
     (if c = 58 then (case (two_digits a b, two_digits d e) of
        (Some h, Some m) \<Rightarrow> Some (h, m, 0) | _ \<Rightarrow> None) else None)"
| "iso_clock (a # b # c # d # e # f # g # h # r) =
     (if c = 58 \<and> f = 58 \<and> iso_fraction r then
        (case (two_digits a b, two_digits d e, two_digits g h) of
           (Some x, Some m, Some s) \<Rightarrow> Some (x, m, s) | _ \<Rightarrow> None) else None)"
| "iso_clock _ = None"

definition clock_in_range :: "int \<times> int \<times> int \<Rightarrow> bool" where
  "clock_in_range t = (case t of (h, m, s) \<Rightarrow> h \<le> 23 \<and> m \<le> 59 \<and> s \<le> 59)"

text \<open>The offset after a sign, and the \<^verbatim>\<open>Z\<close> of UTC.\<close>

definition iso_offset :: "pystr \<Rightarrow> bool" where
  "iso_offset s \<longleftrightarrow> (case s of [] \<Rightarrow> True
     | c # r \<Rightarrow> c = 90 \<and> r = []
         \<or> (c = 43 \<or> c = 45) \<and> (case iso_clock r of None \<Rightarrow> False | Some t \<Rightarrow> clock_in_range t))"

definition offset_start :: "int \<Rightarrow> bool" where
  "offset_start c \<longleftrightarrow> c = 43 \<or> c = 45 \<or> c = 90"

definition iso_hour :: "pystr \<Rightarrow> int res" where
  "iso_hour s =
     (if \<not> iso_date (take 10 s) then iso_error
      else case drop 11 s of
        [] \<Rightarrow> Inr 0
      | tm \<Rightarrow>
          (case iso_clock (takeWhile (\<lambda>c. \<not> offset_start c) tm) of
             None \<Rightarrow> iso_error
           | Some t \<Rightarrow>
               if clock_in_range t \<and> iso_offset (dropWhile (\<lambda>c. \<not> offset_start c) tm)
               then Inr (fst t) else iso_error))"

lemma two_digits_range: "two_digits a b = Some n \<Longrightarrow> 0 \<le> n"
  by (auto simp: two_digits_def nat_of_digits_def is_digit_def split: if_splits)

lemma iso_clock_nonneg: "iso_clock s = Some t \<Longrightarrow> 0 \<le> fst t"
  by (cases s rule: iso_clock.cases)
    (auto split: if_splits option.splits dest: two_digits_range)

text \<open>An accepted text names an hour of a day.\<close>

lemma iso_hour_range: "iso_hour s = Inr h \<Longrightarrow> 0 \<le> h \<and> h < 24"
  by (auto simp: iso_hour_def iso_error_def clock_in_range_def split: if_splits list.splits option.splits
      dest!: iso_clock_nonneg)

end
