(* ===== verification/Control_Pulse.thy ===== *)
theory Control_Pulse
  imports Core Py_Dict Py_Time
begin

text \<open>
  \<^verbatim>\<open>controlpulse.py\<close>: control events, the four controls that are evaluated on an event, and the
  case that a violated control opens with its transitions.  The main facts: a case's stored
  history is a path of allowed transitions from \<^verbatim>\<open>OPEN\<close> to its status, its version counts the
  transitions, and no case is closed by the actor of its event.
\<close>

section \<open>Events and controls\<close>

record control_event =
  ev_event_id :: pystr
  ev_event_type :: pystr
  ev_actor :: pystr
  ev_resource :: pystr
  ev_occurred_at :: pystr
  ev_approved :: bool
  ev_privileged :: bool
  ev_outcome :: pystr
  ev_payload :: json

definition event_dict :: "control_event \<Rightarrow> json" where
  "event_dict e = JObj
     [(lit ''event_id'', JStr (ev_event_id e)), (lit ''event_type'', JStr (ev_event_type e)),
      (lit ''actor'', JStr (ev_actor e)), (lit ''resource'', JStr (ev_resource e)),
      (lit ''occurred_at'', JStr (ev_occurred_at e)), (lit ''approved'', JBool (ev_approved e)),
      (lit ''privileged'', JBool (ev_privileged e)), (lit ''outcome'', JStr (ev_outcome e)),
      (lit ''payload'', ev_payload e)]"

text \<open>The dictionary of a case that the service returns.\<close>

record case_report =
  cp_control_id :: pystr
  cp_severity :: pystr
  cp_explanation :: pystr
  cp_evidence_hash :: pystr

definition disabled_account :: "control_event \<Rightarrow> bool res" where
  "disabled_account e =
     bind_res (jget_or (lit ''account_status'') JNull (ev_payload e)) (\<lambda>v. Inr (v = JStr (lit ''DISABLED'')))"

text \<open>\<^verbatim>\<open>_evaluate\<close>: the payload is read only when the first two conditions of its control hold.\<close>

definition evaluate_event :: "control_event \<Rightarrow> pystr \<Rightarrow> case_report list res" where
  "evaluate_event e evidence =
     bind_res (iso_hour (replace_z (ev_occurred_at e))) (\<lambda>hour.
     bind_res (if ev_event_type e = lit ''LOGIN'' \<and> ev_outcome e = lit ''SUCCESS''
               then disabled_account e else Inr False) (\<lambda>disabled.
       Inr ((if ev_privileged e \<and> (hour < 7 \<or> hour \<ge> 22)
             then [\<lparr>cp_control_id = lit ''AC-PRIV-001'', cp_severity = lit ''HIGH'',
               cp_explanation = [29305, 26435, 25805, 20316, 21457, 29983, 22312, 38750, 24037, 20316, 26102, 27573],
               cp_evidence_hash = evidence\<rparr>] else []) @
            (if ev_event_type e = lit ''DEPLOYMENT'' \<and> \<not> ev_approved e
             then [\<lparr>cp_control_id = lit ''CM-APPROVAL-001'', cp_severity = lit ''HIGH'',
               cp_explanation = [29983, 20135, 21464, 26356, 32570, 23569, 23457, 25209],
               cp_evidence_hash = evidence\<rparr>] else []) @
            (if ev_event_type e = lit ''BACKUP'' \<and> ev_outcome e \<noteq> lit ''SUCCESS''
             then [\<lparr>cp_control_id = lit ''OP-BACKUP-001'', cp_severity = lit ''HIGH'',
               cp_explanation = [22791, 20221, 20219, 21153, 22833, 36133],
               cp_evidence_hash = evidence\<rparr>] else []) @
            (if disabled
             then [\<lparr>cp_control_id = lit ''AC-TERM-001'', cp_severity = lit ''CRITICAL'',
               cp_explanation = [24050, 20572, 29992, 36134, 21495, 30331, 24405, 25104, 21151],
               cp_evidence_hash = evidence\<rparr>] else []))))"

section \<open>Ingestion\<close>

definition is_event :: "pystr \<Rightarrow> pystr \<Rightarrow> control_event_row \<Rightarrow> bool" where
  "is_event tenant event_id r \<longleftrightarrow> ce_tenant r = tenant \<and> ce_event_id r = event_id"

definition report_of :: "control_case \<Rightarrow> case_report" where
  "report_of c = \<lparr>cp_control_id = cc_control_id c, cp_severity = cc_severity c,
     cp_explanation = cc_explanation c, cp_evidence_hash = cc_evidence_hash c\<rparr>"

definition stored_reports :: "pystr \<Rightarrow> pystr \<Rightarrow> db \<Rightarrow> case_report list" where
  "stored_reports tenant event_id d = map report_of
     (select_rows cc_id (\<lambda>c. cc_tenant c = tenant \<and> cc_event_id c = event_id) (control_cases d))"

definition py_int_of_bool :: "bool \<Rightarrow> int" where
  "py_int_of_bool b = (if b then 1 else 0)"

definition insert_control_event :: "pystr \<Rightarrow> control_event \<Rightarrow> pystr \<Rightarrow> (unit, db) tx" where
  "insert_control_event tenant e evidence d =
     (if \<exists>r \<in> set (control_events d). is_event tenant (ev_event_id e) r
      then Inl (IntegrityError (lit ''uq_control_event_tenant''))
      else Inr ((), d\<lparr>control_events := control_events d @
        [\<lparr>ce_id = fresh_id (map ce_id (control_events d)), ce_tenant = tenant,
          ce_event_id = ev_event_id e, ce_event_type = ev_event_type e, ce_actor = ev_actor e,
          ce_resource = ev_resource e, ce_occurred_at = ev_occurred_at e,
          ce_approved = py_int_of_bool (ev_approved e), ce_privileged = py_int_of_bool (ev_privileged e),
          ce_outcome = ev_outcome e, ce_payload_json = canonical_json (ev_payload e),
          ce_evidence_hash = evidence\<rparr>]\<rparr>))"

definition new_case :: "pystr \<Rightarrow> pystr \<Rightarrow> pystr \<Rightarrow> int \<Rightarrow> case_report \<Rightarrow> control_case" where
  "new_case tenant event_id evidence i item =
     \<lparr>cc_id = i, cc_tenant = tenant, cc_event_id = event_id, cc_control_id = cp_control_id item,
      cc_severity = cp_severity item, cc_explanation = cp_explanation item,
      cc_evidence_hash = evidence, cc_status = lit ''OPEN'', cc_version = 1\<rparr>"

fun insert_cases ::
  "pystr \<Rightarrow> pystr \<Rightarrow> pystr \<Rightarrow> case_report list \<Rightarrow> control_case list \<Rightarrow> control_case list" where
  "insert_cases tenant event_id evidence [] rows = rows"
| "insert_cases tenant event_id evidence (item # items) rows =
     insert_cases tenant event_id evidence items
       (rows @ [new_case tenant event_id evidence (fresh_id (map cc_id rows)) item])"

definition ingest_event_body ::
  "pyenv \<Rightarrow> clock \<Rightarrow> pystr \<Rightarrow> control_event \<Rightarrow> pystr \<Rightarrow> case_report list \<Rightarrow> (case_report list, db) tx" where
  "ingest_event_body E ts tenant e evidence cases =
     bind_tx (query_tx (\<lambda>d. find_row (is_event tenant (ev_event_id e)) (control_events d))) (\<lambda>existing.
       if existing \<noteq> None then query_tx (stored_reports tenant (ev_event_id e))
       else
         bind_tx (insert_control_event tenant e evidence) (\<lambda>_.
         bind_tx (update_tx (\<lambda>d.
           d\<lparr>control_cases := insert_cases tenant (ev_event_id e) evidence cases (control_cases d)\<rparr>)) (\<lambda>_.
         bind_tx (append_audit_event E ts (lit ''controlpulse'') (lit ''EVENT_EVALUATED'') (ev_event_id e)
           (JObj [(lit ''evidence_hash'', JStr evidence), (lit ''case_count'', JInt (int (length cases)))]) tenant) (\<lambda>_.
         return_tx cases))))"

definition ingest_and_evaluate ::
  "pyenv \<Rightarrow> dialect \<Rightarrow> clock \<Rightarrow> pystr \<Rightarrow> control_event \<Rightarrow> db \<Rightarrow> case_report list res \<times> db" where
  "ingest_and_evaluate E dl ts tenant e d =
     (let evidence = sha256_json E (event_dict e)
      in case evaluate_event e evidence of
           Inl err \<Rightarrow> (Inl err, d)
         | Inr cases \<Rightarrow> connect E dl (Some tenant) (ingest_event_body E ts tenant e evidence cases) d)"

section \<open>Cases\<close>

definition open_cases :: "pyenv \<Rightarrow> dialect \<Rightarrow> pystr \<Rightarrow> db \<Rightarrow> control_case list res \<times> db" where
  "open_cases E dl tenant = connect E dl (Some tenant)
     (query_tx (\<lambda>d. select_rows cc_id (\<lambda>c. cc_tenant c = tenant \<and> cc_status c \<noteq> lit ''CLOSED'') (control_cases d)))"

text \<open>The dictionary \<^verbatim>\<open>allowed\<close>.\<close>

definition allowed_targets :: "pystr \<Rightarrow> pystr list" where
  "allowed_targets current =
     (if current = lit ''OPEN'' then [lit ''IN_REVIEW'']
      else if current = lit ''IN_REVIEW'' then [lit ''REMEDIATED'']
      else if current = lit ''REMEDIATED'' then [lit ''CLOSED'']
      else if current = lit ''CLOSED'' then [lit ''OPEN'']
      else [])"

definition is_case :: "int \<Rightarrow> pystr \<Rightarrow> control_case \<Rightarrow> bool" where
  "is_case case_id tenant c \<longleftrightarrow> cc_id c = case_id \<and> cc_tenant c = tenant"

text \<open>The case joined with its event.\<close>

definition case_with_event :: "int \<Rightarrow> pystr \<Rightarrow> db \<Rightarrow> (control_case \<times> control_event_row) option" where
  "case_with_event case_id tenant d =
     (case find_row (is_case case_id tenant) (control_cases d) of
        None \<Rightarrow> None
      | Some c \<Rightarrow> map_option (\<lambda>e. (c, e)) (find_row (is_event (cc_tenant c) (cc_event_id c)) (control_events d)))"

definition check_transition ::
  "pystr \<Rightarrow> pystr \<Rightarrow> (control_case \<times> control_event_row) option \<Rightarrow> control_case res" where
  "check_transition actor target row = (case row of
     None \<Rightarrow> Inl (ValueError (lit ''unknown case_id''))
   | Some (c, e) \<Rightarrow>
       if target \<notin> set (allowed_targets (cc_status c))
       then Inl (ValueError (lit ''invalid transition '' @ cc_status c @ lit ''->'' @ target))
       else if target = lit ''CLOSED'' \<and> actor = ce_actor e
       then Inl (ValueError (lit ''four-eyes control requires an independent closer''))
       else Inr c)"

record transition_report =
  tp_case_id :: int
  tp_from_status :: pystr
  tp_to_status :: pystr
  tp_actor :: pystr

definition apply_transition ::
  "pyenv \<Rightarrow> clock \<Rightarrow> pystr \<Rightarrow> int \<Rightarrow> pystr \<Rightarrow> pystr \<Rightarrow> pystr \<Rightarrow> control_case \<Rightarrow> (transition_report, db) tx" where
  "apply_transition E ts tenant case_id actor target reason c =
     (let current = (\<lambda>r. is_case case_id tenant r \<and> cc_status r = cc_status c \<and> cc_version r = cc_version c)
      in bind_tx (query_tx (\<lambda>d. count_rows current (control_cases d))) (\<lambda>matched.
         bind_tx (update_tx (\<lambda>d. d\<lparr>control_cases := update_rows current
           (\<lambda>r. r\<lparr>cc_status := target, cc_version := cc_version c + 1\<rparr>) (control_cases d)\<rparr>)) (\<lambda>_.
         bind_tx (when_tx (matched \<noteq> 1) (raise_tx (ValueError (lit ''concurrent case transition conflict'')))) (\<lambda>_.
         bind_tx (update_tx (\<lambda>d. d\<lparr>control_case_transitions := control_case_transitions d @
           [\<lparr>ct_id = fresh_id (map ct_id (control_case_transitions d)), ct_tenant = tenant, ct_case_id = case_id,
             ct_from_status = cc_status c, ct_to_status = target, ct_actor = actor, ct_reason = reason,
             ct_occurred_at = ts 0\<rparr>]\<rparr>)) (\<lambda>_.
         bind_tx (append_audit_event E (after_calls 1 ts) (lit ''controlpulse'') (lit ''CASE_TRANSITIONED'')
           (str_of_int case_id)
           (JObj [(lit ''from'', JStr (cc_status c)), (lit ''to'', JStr target), (lit ''actor'', JStr actor),
                  (lit ''reason'', JStr reason)]) tenant) (\<lambda>_.
         return_tx \<lparr>tp_case_id = case_id, tp_from_status = cc_status c, tp_to_status = target,
           tp_actor = actor\<rparr>))))))"

definition transition_case ::
  "pyenv \<Rightarrow> dialect \<Rightarrow> clock \<Rightarrow> pystr \<Rightarrow> int \<Rightarrow> pystr \<Rightarrow> pystr \<Rightarrow> pystr \<Rightarrow> db
     \<Rightarrow> transition_report res \<times> db" where
  "transition_case E dl ts tenant case_id actor to_status reason d =
     (let target = py_upper to_status
      in if py_blank reason then (Inl (ValueError (lit ''transition reason is required'')), d)
         else connect E dl (Some tenant)
           (bind_tx (query_tx (case_with_event case_id tenant)) (\<lambda>row.
            bind_tx (lift_res (check_transition actor target row))
              (apply_transition E ts tenant case_id actor target reason))) d)"

definition case_history ::
  "pyenv \<Rightarrow> dialect \<Rightarrow> pystr \<Rightarrow> int \<Rightarrow> db \<Rightarrow> control_case_transition list res \<times> db" where
  "case_history E dl tenant case_id = connect E dl (Some tenant)
     (query_tx (\<lambda>d. select_rows ct_id (\<lambda>x. ct_tenant x = tenant \<and> ct_case_id x = case_id)
        (control_case_transitions d)))"

section \<open>The history of a case\<close>

fun status_path :: "pystr \<Rightarrow> control_case_transition list \<Rightarrow> pystr \<Rightarrow> bool" where
  "status_path s [] s' \<longleftrightarrow> s' = s"
| "status_path s (x # xs) s' \<longleftrightarrow> ct_from_status x = s \<and> ct_to_status x \<in> set (allowed_targets s)
     \<and> status_path (ct_to_status x) xs s'"

lemma status_path_snoc:
  "status_path s (xs @ [x]) s' \<longleftrightarrow> status_path s xs (ct_from_status x)
     \<and> ct_to_status x \<in> set (allowed_targets (ct_from_status x)) \<and> s' = ct_to_status x"
  by (induction xs arbitrary: s) auto

definition history :: "db \<Rightarrow> control_case \<Rightarrow> control_case_transition list" where
  "history d c = filter (\<lambda>x. ct_tenant x = cc_tenant c \<and> ct_case_id x = cc_id c) (control_case_transitions d)"

lemma moved_simps [simp]:
  "history d (c\<lparr>cc_status := s, cc_version := v\<rparr>) = history d c"
  "is_case i t (c\<lparr>cc_status := s, cc_version := v\<rparr>) = is_case i t c"
  by (simp_all add: history_def is_case_def)

text \<open>
  The invariant: case ids are distinct, transitions refer to cases, a case's history is a path of
  allowed transitions from \<^verbatim>\<open>OPEN\<close> to its status, its version is one more than the length of that
  path, event ids are unique in a tenant, and whoever closed a case was not the actor of its event.
\<close>

definition cases_ok :: "db \<Rightarrow> bool" where
  "cases_ok d \<longleftrightarrow>
     distinct (map cc_id (control_cases d))
     \<and> (\<forall>x \<in> set (control_case_transitions d). ct_case_id x \<in> cc_id ` set (control_cases d))
     \<and> (\<forall>c \<in> set (control_cases d). status_path (lit ''OPEN'') (history d c) (cc_status c)
          \<and> cc_version c = 1 + int (length (history d c)))"

definition independent_closer :: "db \<Rightarrow> control_case_transition \<Rightarrow> bool" where
  "independent_closer d x \<longleftrightarrow> (\<exists>c \<in> set (control_cases d). is_case (ct_case_id x) (ct_tenant x) c
     \<and> (\<forall>e \<in> set (control_events d). is_event (cc_tenant c) (cc_event_id c) e \<longrightarrow> ct_actor x \<noteq> ce_actor e)
     \<and> (\<exists>e \<in> set (control_events d). is_event (cc_tenant c) (cc_event_id c) e))"

definition closers_ok :: "db \<Rightarrow> bool" where
  "closers_ok d \<longleftrightarrow>
     distinct (map (\<lambda>r. (ce_tenant r, ce_event_id r)) (control_events d))
     \<and> (\<forall>x \<in> set (control_case_transitions d). ct_to_status x = lit ''CLOSED'' \<longrightarrow> independent_closer d x)"

lemma cases_ok_empty [simp]: "cases_ok empty_db" "closers_ok empty_db"
  by (simp_all add: cases_ok_def closers_ok_def empty_db_def)

lemma cases_ok_cong:
  "control_cases d' = control_cases d \<Longrightarrow> control_case_transitions d' = control_case_transitions d \<Longrightarrow>
   cases_ok d' \<longleftrightarrow> cases_ok d"
  by (simp add: cases_ok_def history_def)

lemma closers_ok_cong:
  "control_cases d' = control_cases d \<Longrightarrow> control_case_transitions d' = control_case_transitions d \<Longrightarrow>
   control_events d' = control_events d \<Longrightarrow> closers_ok d' \<longleftrightarrow> closers_ok d"
  by (simp add: closers_ok_def independent_closer_def)

lemma append_audit_event_control [frame_simps]:
  assumes "append_audit_event E ts m et i p t d = Inr (h, d')"
  shows "control_events d' = control_events d" "control_cases d' = control_cases d"
    "control_case_transitions d' = control_case_transitions d"
  using assms by (auto elim!: append_audit_event_cases)

section \<open>Opening cases\<close>

lemma insert_cases_append:
  "\<exists>new. insert_cases t e h items rows = rows @ new \<and> map report_of new = map (\<lambda>i. i\<lparr>cp_evidence_hash := h\<rparr>) items
     \<and> (\<forall>c \<in> set new. cc_tenant c = t \<and> cc_event_id c = e \<and> cc_status c = lit ''OPEN'' \<and> cc_version c = 1)
     \<and> (distinct (map cc_id rows) \<longrightarrow> distinct (map cc_id (rows @ new)))
     \<and> sorted_wrt (<) (map cc_id new) \<and> (\<forall>c \<in> set new. \<forall>r \<in> set rows. cc_id r < cc_id c)"
proof (induction items arbitrary: rows)
  case (Cons i items)
  let ?c = "new_case t e h (fresh_id (map cc_id rows)) i"
  from Cons.IH [of "rows @ [?c]"] obtain new where
    new: "insert_cases t e h items (rows @ [?c]) = (rows @ [?c]) @ new"
      "map report_of new = map (\<lambda>i. i\<lparr>cp_evidence_hash := h\<rparr>) items"
      "\<forall>c \<in> set new. cc_tenant c = t \<and> cc_event_id c = e \<and> cc_status c = lit ''OPEN'' \<and> cc_version c = 1"
      "distinct (map cc_id (rows @ [?c])) \<longrightarrow> distinct (map cc_id ((rows @ [?c]) @ new))"
      "sorted_wrt (<) (map cc_id new)" "\<forall>c \<in> set new. \<forall>r \<in> set (rows @ [?c]). cc_id r < cc_id c" by blast
  have "cc_id ?c = fresh_id (map cc_id rows)" by (simp add: new_case_def)
  then have "distinct (map cc_id rows) \<longrightarrow> distinct (map cc_id (rows @ [?c]))"
    using fresh_id_not_in [of "map cc_id rows"] by (simp del: fresh_id_not_in)
  moreover have "report_of ?c = i\<lparr>cp_evidence_hash := h\<rparr>"
    by (simp add: report_of_def new_case_def)
  moreover have "\<forall>r \<in> set rows. cc_id r < cc_id ?c"
    using fresh_id_greater [of _ "map cc_id rows"] by (simp add: new_case_def)
  ultimately show ?case
    using new by (intro exI [of _ "?c # new"]) (auto simp: new_case_def)
qed simp

lemma cases_ok_open:
  assumes "cases_ok d" "control_cases d' = insert_cases t e h items (control_cases d)"
    "control_case_transitions d' = control_case_transitions d"
  shows "cases_ok d'"
proof -
  obtain new where new: "control_cases d' = control_cases d @ new"
    "\<forall>c \<in> set new. cc_status c = lit ''OPEN'' \<and> cc_version c = 1" "distinct (map cc_id (control_cases d @ new))"
    using insert_cases_append [of t e h items "control_cases d"] assms(1,2) by (auto simp: cases_ok_def)
  have hist: "history d' c = history d c" for c by (simp add: history_def assms(3))
  have "history d c = []" if "c \<in> set new" for c
  proof -
    have "cc_id c \<notin> cc_id ` set (control_cases d)"
      using new(3) that by (auto simp: disjoint_iff)
    with assms(1) show ?thesis
      unfolding history_def cases_ok_def filter_empty_conv by metis
  qed
  with new assms(1,3) hist show ?thesis by (auto simp: cases_ok_def)
qed

lemma ingest_event_body_cases:
  assumes "ingest_event_body E ts tenant e evidence cases d = Inr (out, d')"
  obtains (known) r where "find_row (is_event tenant (ev_event_id e)) (control_events d) = Some r"
      "d' = d" "out = stored_reports tenant (ev_event_id e) d"
    | (new) d1 r h where "find_row (is_event tenant (ev_event_id e)) (control_events d) = None"
      "is_event tenant (ev_event_id e) r" "ce_actor r = ev_actor e"
      "d1 = d\<lparr>control_events := control_events d @ [r],
         control_cases := insert_cases tenant (ev_event_id e) evidence cases (control_cases d)\<rparr>"
      "append_audit_event E ts (lit ''controlpulse'') (lit ''EVENT_EVALUATED'') (ev_event_id e)
         (JObj [(lit ''evidence_hash'', JStr evidence), (lit ''case_count'', JInt (int (length cases)))]) tenant d1
         = Inr (h, d')"
      "out = cases"
proof (cases "find_row (is_event tenant (ev_event_id e)) (control_events d)")
  case None
  with assms show thesis
    by (auto simp: ingest_event_body_def tx_Inr insert_control_event_def split: if_splits
        intro!: new [OF None _ _ refl]) (auto simp: is_event_def)
next
  case (Some r)
  with assms show thesis by (auto simp: ingest_event_body_def tx_Inr intro: known)
qed

lemma ingest_event_cases_ok [inv_intros]:
  assumes "ingest_event_body E ts tenant e evidence cases d = Inr (out, d')" "cases_ok d"
  shows "cases_ok d'"
  using assms(1)
proof (cases rule: ingest_event_body_cases)
  case (new d1 r h)
  show ?thesis
    by (rule cases_ok_open [OF assms(2)])
      (use append_audit_event_control [OF new(5)] new(4) in simp_all)
qed (use assms(2) in simp)

lemma ingest_event_closers_ok [inv_intros]:
  assumes "ingest_event_body E ts tenant e evidence cases d = Inr (out, d')" "closers_ok d"
  shows "closers_ok d'"
  using assms(1)
proof (cases rule: ingest_event_body_cases)
  case (new d1 r h)
  note fr = append_audit_event_control [OF new(5)]
  obtain cs where cs: "control_cases d' = control_cases d @ cs"
    using insert_cases_append [of tenant "ev_event_id e" evidence cases "control_cases d"] fr new(4) by auto
  have ev: "control_events d' = control_events d @ [r]" "control_case_transitions d' = control_case_transitions d"
    using fr new(4) by simp_all
  have fresh: "\<forall>x \<in> set (control_events d). \<not> is_event tenant (ev_event_id e) x"
    using new(1) by (simp add: find_row_None)
  have old: "\<not> is_event (cc_tenant c) (cc_event_id c) r" if "x \<in> set (control_events d)"
    "is_event (cc_tenant c) (cc_event_id c) x" for x c
    using fresh that new(2) by (auto simp: is_event_def)
  have "distinct (map (\<lambda>r. (ce_tenant r, ce_event_id r)) (control_events d @ [r]))"
    using assms(2) fresh new(2) by (auto simp: closers_ok_def is_event_def)
  moreover have "independent_closer d' x" if "independent_closer d x" for x
    using that old unfolding independent_closer_def ev cs by (simp add: ball_Un bex_Un) blast
  ultimately show ?thesis
    using assms(2) by (simp add: closers_ok_def ev)
qed (use assms(2) in simp)

section \<open>Moving a case\<close>

lemma find_case_unique:
  assumes "distinct (map cc_id rows)" "c \<in> set rows"
  shows "is_case (cc_id c) t c' \<and> c' \<in> set rows \<longrightarrow> c' = c"
  using assms by (auto simp: is_case_def distinct_map inj_on_def)

text \<open>The effect of a committed transition.\<close>

lemma transition_commit:
  assumes "transition_case E dl ts tenant case_id actor to_status reason d = (Inr rep, d')"
    and ids: "distinct (map cc_id (control_cases d))"
  obtains c e x where "find_row (is_case case_id tenant) (control_cases d) = Some c"
    "find_row (is_event tenant (cc_event_id c)) (control_events d) = Some e"
    "py_upper to_status \<in> set (allowed_targets (cc_status c))" "\<not> py_blank reason"
    "py_upper to_status = lit ''CLOSED'' \<longrightarrow> actor \<noteq> ce_actor e"
    "control_cases d' = update_rows (is_case case_id tenant)
       (\<lambda>r. r\<lparr>cc_status := py_upper to_status, cc_version := cc_version c + 1\<rparr>) (control_cases d)"
    "control_case_transitions d' = control_case_transitions d @ [x]"
    "ct_tenant x = tenant" "ct_case_id x = case_id" "ct_from_status x = cc_status c"
    "ct_to_status x = py_upper to_status" "ct_actor x = actor" "ct_reason x = reason"
    "ct_id x = fresh_id (map ct_id (control_case_transitions d))"
    "control_events d' = control_events d"
    "rep = \<lparr>tp_case_id = case_id, tp_from_status = cc_status c, tp_to_status = py_upper to_status, tp_actor = actor\<rparr>"
proof -
  have nb: "\<not> py_blank reason"
    using assms(1) by (auto simp: transition_case_def Let_def split: if_splits)
  with assms(1) have "bind_tx (query_tx (case_with_event case_id tenant)) (\<lambda>row.
      bind_tx (lift_res (check_transition actor (py_upper to_status) row))
        (apply_transition E ts tenant case_id actor (py_upper to_status) reason)) d = Inr (rep, d')"
    by (auto simp: transition_case_def Let_def dest: connect_commit)
  then obtain c e where ce: "case_with_event case_id tenant d = Some (c, e)"
    "py_upper to_status \<in> set (allowed_targets (cc_status c))"
    "py_upper to_status = lit ''CLOSED'' \<longrightarrow> actor \<noteq> ce_actor e"
    and ap: "apply_transition E ts tenant case_id actor (py_upper to_status) reason c d = Inr (rep, d')"
    by (auto simp: tx_Inr check_transition_def split: option.splits if_splits)
  then have c: "find_row (is_case case_id tenant) (control_cases d) = Some c"
    and e: "find_row (is_event tenant (cc_event_id c)) (control_events d) = Some e"
    by (auto simp: case_with_event_def is_case_def split: option.splits dest: find_row_Some)
  let ?cur = "\<lambda>r. is_case case_id tenant r \<and> cc_status r = cc_status c \<and> cc_version r = cc_version c"
  let ?f = "\<lambda>r. r\<lparr>cc_status := py_upper to_status, cc_version := cc_version c + 1\<rparr>"
  have "r = c" if "r \<in> set (control_cases d)" "is_case case_id tenant r" for r
    using find_row_Some [OF c] that ids by (auto simp: is_case_def distinct_map inj_on_def)
  then have "?cur r \<longleftrightarrow> is_case case_id tenant r" if "r \<in> set (control_cases d)" for r
    using that by auto
  then have same: "update_rows ?cur ?f (control_cases d) = update_rows (is_case case_id tenant) ?f (control_cases d)"
    by (auto simp: update_rows_def)
  show thesis
    using ap
    by (auto simp: apply_transition_def Let_def tx_Inr same split: if_splits
        elim!: append_audit_event_cases intro!: that [OF c e ce(2) nb ce(3)])
qed

lemma history_update:
  assumes "control_case_transitions d' = control_case_transitions d @ [x]" "ct_tenant x = tenant" "ct_case_id x = i"
  shows "history d' c = history d c @ (if is_case i tenant c then [x] else [])"
  using assms by (auto simp: history_def is_case_def)

lemma transition_cases_ok [inv_intros]:
  assumes "transition_case E dl ts tenant case_id actor to_status reason d = (Inr rep, d')" "cases_ok d"
  shows "cases_ok d'"
proof -
  have ids: "distinct (map cc_id (control_cases d))" using assms(2) by (simp add: cases_ok_def)
  from assms(1) ids show ?thesis
  proof (rule transition_commit)
    fix c :: control_case and e x
    let ?f = "\<lambda>r::control_case. r\<lparr>cc_status := py_upper to_status, cc_version := cc_version c + 1\<rparr>"
    assume c: "find_row (is_case case_id tenant) (control_cases d) = Some c"
      and target: "py_upper to_status \<in> set (allowed_targets (cc_status c))"
      and upd: "control_cases d' = update_rows (is_case case_id tenant) ?f (control_cases d)"
      and tr: "control_case_transitions d' = control_case_transitions d @ [x]" "ct_tenant x = tenant"
        "ct_case_id x = case_id" "ct_from_status x = cc_status c" "ct_to_status x = py_upper to_status"
    have cmem: "c \<in> set (control_cases d)" "is_case case_id tenant c" using find_row_Some [OF c] by auto
    have keys: "map cc_id (control_cases d') = map cc_id (control_cases d)"
      unfolding upd by (rule map_update_rows_id) simp
    then have keys': "cc_id ` set (control_cases d') = cc_id ` set (control_cases d)"
      by (metis set_map)
    have one: "r = c" if "r \<in> set (control_cases d)" "is_case case_id tenant r" for r
      using cmem that ids by (auto simp: is_case_def distinct_map inj_on_def)
    have "status_path (lit ''OPEN'') (history d' r) (cc_status r) \<and> cc_version r = 1 + int (length (history d' r))"
      if "r \<in> set (control_cases d')" for r
    proof -
      from that obtain r0 where r0: "r0 \<in> set (control_cases d)"
        "r = (if is_case case_id tenant r0 then ?f r0 else r0)"
        unfolding upd set_update_rows by blast
      have ok: "status_path (lit ''OPEN'') (history d r0) (cc_status r0)"
        "cc_version r0 = 1 + int (length (history d r0))"
        using assms(2) r0(1) by (auto simp: cases_ok_def)
      show ?thesis
      proof (cases "is_case case_id tenant r0")
        case False
        with r0(2) ok show ?thesis by (simp add: history_update [OF tr(1-3)])
      next
        case True
        with one [OF r0(1)] r0(2) ok target tr(4,5) show ?thesis
          by (simp add: history_update [OF tr(1-3)] status_path_snoc)
      qed
    qed
    moreover have "ct_case_id x \<in> cc_id ` set (control_cases d)"
      using cmem tr(3) by (force simp: is_case_def)
    ultimately show ?thesis
      using assms(2) keys keys' tr(1) by (auto simp: cases_ok_def)
  qed
qed

lemma transition_closers_ok [inv_intros]:
  assumes "transition_case E dl ts tenant case_id actor to_status reason d = (Inr rep, d')"
    and "cases_ok d" "closers_ok d"
  shows "closers_ok d'"
proof -
  have ids: "distinct (map cc_id (control_cases d))" using assms(2) by (simp add: cases_ok_def)
  from assms(1) ids show ?thesis
  proof (rule transition_commit)
    fix c :: control_case and e x
    let ?f = "\<lambda>r::control_case. r\<lparr>cc_status := py_upper to_status, cc_version := cc_version c + 1\<rparr>"
    assume c: "find_row (is_case case_id tenant) (control_cases d) = Some c"
      and e: "find_row (is_event tenant (cc_event_id c)) (control_events d) = Some e"
      and closer: "py_upper to_status = lit ''CLOSED'' \<longrightarrow> actor \<noteq> ce_actor e"
      and upd: "control_cases d' = update_rows (is_case case_id tenant) ?f (control_cases d)"
      and tr: "control_case_transitions d' = control_case_transitions d @ [x]" "ct_tenant x = tenant"
        "ct_case_id x = case_id" "ct_to_status x = py_upper to_status" "ct_actor x = actor"
      and evs: "control_events d' = control_events d"
    have cmem: "c \<in> set (control_cases d)" "is_case case_id tenant c" using find_row_Some [OF c] by auto
    have emem: "e \<in> set (control_events d)" "is_event tenant (cc_event_id c) e" using find_row_Some [OF e] by auto
    have only: "e' = e" if "e' \<in> set (control_events d)" "is_event tenant (cc_event_id c) e'" for e'
      using that emem assms(3) by (auto simp: closers_ok_def is_event_def distinct_map inj_on_def)
    have moved: "\<exists>r' \<in> set (control_cases d'). cc_id r' = cc_id r \<and> cc_tenant r' = cc_tenant r
        \<and> cc_event_id r' = cc_event_id r" if "r \<in> set (control_cases d)" for r
      using that
      by (intro bexI [of _ "if is_case case_id tenant r then ?f r else r"]) (auto simp: upd set_update_rows)
    have old: "independent_closer d' y" if "independent_closer d y" for y
    proof -
      from that obtain r where r: "r \<in> set (control_cases d)" "is_case (ct_case_id y) (ct_tenant y) r"
        "\<forall>e \<in> set (control_events d). is_event (cc_tenant r) (cc_event_id r) e \<longrightarrow> ct_actor y \<noteq> ce_actor e"
        "\<exists>e \<in> set (control_events d). is_event (cc_tenant r) (cc_event_id r) e"
        by (auto simp: independent_closer_def)
      from moved [OF r(1)] obtain r' where "r' \<in> set (control_cases d')" "cc_id r' = cc_id r"
        "cc_tenant r' = cc_tenant r" "cc_event_id r' = cc_event_id r" by blast
      with r(2-4) show ?thesis
        unfolding independent_closer_def evs by (intro bexI [of _ r']) (simp_all add: is_case_def)
    qed
    have ten: "cc_tenant c = tenant" using cmem by (simp add: is_case_def)
    have "independent_closer d x" if "ct_to_status x = lit ''CLOSED''"
    proof -
      have "\<forall>e' \<in> set (control_events d). is_event (cc_tenant c) (cc_event_id c) e' \<longrightarrow> ct_actor x \<noteq> ce_actor e'"
        using closer only that tr(4,5) ten by auto
      then show ?thesis
        unfolding independent_closer_def using cmem emem tr(2,3) ten by (intro bexI [of _ c]) auto
    qed
    with assms(3) old show ?thesis
      unfolding closers_ok_def evs tr(1) by auto
  qed
qed

section \<open>Repeated events\<close>

text \<open>Every case belongs to a stored event.\<close>

definition events_ok :: "db \<Rightarrow> bool" where
  "events_ok d \<longleftrightarrow> (\<forall>c \<in> set (control_cases d). \<exists>e \<in> set (control_events d).
     is_event (cc_tenant c) (cc_event_id c) e)"

lemma events_ok_empty [simp]: "events_ok empty_db"
  by (simp add: events_ok_def empty_db_def)

lemma events_ok_cong:
  "control_cases d' = control_cases d \<Longrightarrow> control_events d' = control_events d \<Longrightarrow> events_ok d' \<longleftrightarrow> events_ok d"
  by (simp add: events_ok_def)

lemma ingest_event_events_ok [inv_intros]:
  assumes "ingest_event_body E ts tenant e evidence cases d = Inr (out, d')" "events_ok d"
  shows "events_ok d'"
  using assms(1)
proof (cases rule: ingest_event_body_cases)
  case (new d1 r h)
  note fr = append_audit_event_control [OF new(5)]
  obtain cs where "control_cases d' = control_cases d @ cs" "\<forall>c \<in> set cs. cc_tenant c = tenant \<and> cc_event_id c = ev_event_id e"
    using insert_cases_append [of tenant "ev_event_id e" evidence cases "control_cases d"] fr new(4) by auto
  moreover have "control_events d' = control_events d @ [r]" using fr new(4) by simp
  ultimately show ?thesis using assms(2) new(2) by (auto simp: events_ok_def)
qed (use assms(2) in simp)

lemma transition_events_ok [inv_intros]:
  assumes "transition_case E dl ts tenant case_id actor to_status reason d = (Inr rep, d')"
    and "cases_ok d" "events_ok d"
  shows "events_ok d'"
proof -
  have ids: "distinct (map cc_id (control_cases d))" using assms(2) by (simp add: cases_ok_def)
  from assms(1) ids show ?thesis
    by (rule transition_commit) (use assms(3) in \<open>auto simp: events_ok_def set_update_rows\<close>)
qed

lemma evaluate_event_evidence:
  "evaluate_event e h = Inr cases \<Longrightarrow> map (\<lambda>i. i\<lparr>cp_evidence_hash := h\<rparr>) cases = cases"
  by (auto simp: evaluate_event_def bind_res_Inr)

lemma stored_reports_new:
  assumes "events_ok d" "find_row (is_event t i) (control_events d) = None"
    and "control_cases d' = insert_cases t i h cases (control_cases d)"
    and "map (\<lambda>c. c\<lparr>cp_evidence_hash := h\<rparr>) cases = cases"
  shows "stored_reports t i d' = cases"
proof -
  obtain new where new: "control_cases d' = control_cases d @ new" "map report_of new = cases"
    "\<forall>c \<in> set new. cc_tenant c = t \<and> cc_event_id c = i" "sorted_wrt (<) (map cc_id new)"
    using insert_cases_append [of t i h cases "control_cases d"] assms(3,4) by auto
  have "\<forall>c \<in> set (control_cases d). \<not> (cc_tenant c = t \<and> cc_event_id c = i)"
    using assms(1,2) by (auto simp: events_ok_def find_row_None)
  then have "filter (\<lambda>c. cc_tenant c = t \<and> cc_event_id c = i) (control_cases d') = new"
    using new(1,3) by (simp add: filter_empty_conv filter_id_conv)
  moreover have "sorted (map cc_id new)"
    using new(4) by (simp add: strict_sorted_iff)
  ultimately show ?thesis
    using new(2) by (simp add: stored_reports_def select_rows_def sort_key_id)
qed

lemma ingest_event_commit:
  assumes "ingest_and_evaluate E dl ts tenant e d = (Inr out, d')"
  obtains cases where "evaluate_event e (sha256_json E (event_dict e)) = Inr cases"
    "ingest_event_body E ts tenant e (sha256_json E (event_dict e)) cases d = Inr (out, d')"
    "dl \<noteq> Postgres \<or> tenant_accepted E tenant"
  using assms that
  by (auto simp: ingest_and_evaluate_def Let_def connect_eq split: sum.splits if_splits)

lemma ingest_event_known:
  assumes "find_row (is_event tenant (ev_event_id e)) (control_events d) = Some r"
    and "evaluate_event e (sha256_json E (event_dict e)) = Inr cases" "dl \<noteq> Postgres \<or> tenant_accepted E tenant"
  shows "ingest_and_evaluate E dl ts tenant e d = (Inr (stored_reports tenant (ev_event_id e) d), d)"
  using assms by (auto simp: ingest_and_evaluate_def Let_def connect_eq ingest_event_body_def bind_tx_def)

section \<open>Properties\<close>

text \<open>
  Ingestion is idempotent in the event id.  After an event has been ingested, any event of the
  tenant with its id that evaluates without an exception, be its content the same or not, returns
  the cases of the first one and changes nothing.
\<close>

theorem ingest_event_idempotent:
  assumes "ingest_and_evaluate E dl ts tenant e d = (Inr out, d1)" and "events_ok d"
    and "ev_event_id e' = ev_event_id e"
    and "evaluate_event e' (sha256_json E (event_dict e')) = Inr cases'"
  shows "ingest_and_evaluate E dl ts' tenant e' d1 = (Inr out, d1)"
proof -
  from assms(1) obtain cases where ev: "evaluate_event e (sha256_json E (event_dict e)) = Inr cases"
    and body: "ingest_event_body E ts tenant e (sha256_json E (event_dict e)) cases d = Inr (out, d1)"
    and acc: "dl \<noteq> Postgres \<or> tenant_accepted E tenant" by (rule ingest_event_commit)
  have "\<exists>r. find_row (is_event tenant (ev_event_id e)) (control_events d1) = Some r
      \<and> out = stored_reports tenant (ev_event_id e) d1"
    using body
  proof (cases rule: ingest_event_body_cases)
    case (new d2 r h)
    note fr = append_audit_event_control [OF new(5)]
    have "stored_reports tenant (ev_event_id e) d1 = cases"
      by (rule stored_reports_new [OF assms(2) new(1) _ evaluate_event_evidence [OF ev]])
        (use fr new(4) in simp)
    with new fr show ?thesis by (simp add: find_row_append find_row_Cons)
  qed auto
  then obtain r where "find_row (is_event tenant (ev_event_id e')) (control_events d1) = Some r"
    "out = stored_reports tenant (ev_event_id e') d1" using assms(3) by auto
  with ingest_event_known [OF this(1) assms(4) acc] show ?thesis by simp
qed

text \<open>
  The four controls.  An event whose time is readable opens a case for exactly the controls it
  violates, in their order: a privileged operation before 7 or from 22 on, a deployment that was
  not approved, a failed backup, and a successful login to a disabled account.
\<close>

theorem evaluate_event_controls:
  assumes "iso_hour (replace_z (ev_occurred_at e)) = Inr hour" and "ev_payload e = JObj kvs"
  shows "\<exists>cases. evaluate_event e h = Inr cases \<and> map cp_control_id cases =
    (if ev_privileged e \<and> \<not> (7 \<le> hour \<and> hour < 22) then [lit ''AC-PRIV-001''] else []) @
    (if ev_event_type e = lit ''DEPLOYMENT'' \<and> \<not> ev_approved e then [lit ''CM-APPROVAL-001''] else []) @
    (if ev_event_type e = lit ''BACKUP'' \<and> ev_outcome e \<noteq> lit ''SUCCESS'' then [lit ''OP-BACKUP-001''] else []) @
    (if ev_event_type e = lit ''LOGIN'' \<and> ev_outcome e = lit ''SUCCESS''
        \<and> map_of kvs (lit ''account_status'') = Some (JStr (lit ''DISABLED'')) then [lit ''AC-TERM-001''] else [])"
  using assms by (auto simp: evaluate_event_def disabled_account_def split: option.splits)

text \<open>
  A transition follows the table.  A successful \<open>transition_case\<close> moved a case of the tenant to
  a status that \<^verbatim>\<open>allowed\<close> lists for its former one, with a reason, and not to \<^verbatim>\<open>CLOSED\<close> by the actor
  of its event; the case has the new status and the next version, the other cases are unchanged,
  and the history has one new entry, with the former and the new status, the actor and the reason.
\<close>

theorem transition_follows_table:
  assumes "transition_case E dl ts tenant case_id actor to_status reason d = (Inr rep, d')"
    and "distinct (map cc_id (control_cases d))"
  shows "\<exists>c e x. find_row (is_case case_id tenant) (control_cases d) = Some c
    \<and> find_row (is_event tenant (cc_event_id c)) (control_events d) = Some e
    \<and> py_upper to_status \<in> set (allowed_targets (cc_status c)) \<and> \<not> py_blank reason
    \<and> \<not> (py_upper to_status = lit ''CLOSED'' \<and> actor = ce_actor e)
    \<and> find_row (is_case case_id tenant) (control_cases d') =
        Some (c\<lparr>cc_status := py_upper to_status, cc_version := cc_version c + 1\<rparr>)
    \<and> filter (\<lambda>r. \<not> is_case case_id tenant r) (control_cases d') =
        filter (\<lambda>r. \<not> is_case case_id tenant r) (control_cases d)
    \<and> control_case_transitions d' = control_case_transitions d @ [x]
    \<and> (ct_tenant x, ct_case_id x, ct_from_status x, ct_to_status x, ct_actor x, ct_reason x) =
        (tenant, case_id, cc_status c, py_upper to_status, actor, reason)"
  using assms
proof (rule transition_commit)
  fix c :: control_case and e x
  let ?f = "\<lambda>r::control_case. r\<lparr>cc_status := py_upper to_status, cc_version := cc_version c + 1\<rparr>"
  assume a: "find_row (is_case case_id tenant) (control_cases d) = Some c"
    "find_row (is_event tenant (cc_event_id c)) (control_events d) = Some e"
    "py_upper to_status \<in> set (allowed_targets (cc_status c))" "\<not> py_blank reason"
    "py_upper to_status = lit ''CLOSED'' \<longrightarrow> actor \<noteq> ce_actor e"
    "control_case_transitions d' = control_case_transitions d @ [x]"
    "ct_tenant x = tenant" "ct_case_id x = case_id" "ct_from_status x = cc_status c"
    "ct_to_status x = py_upper to_status" "ct_actor x = actor" "ct_reason x = reason"
    and upd: "control_cases d' = update_rows (is_case case_id tenant) ?f (control_cases d)"
  have "find_row (is_case case_id tenant) (control_cases d') = Some (?f c)"
  proof -
    have "find_row (is_case case_id tenant) (update_rows (is_case case_id tenant) ?f rows)
        = map_option ?f (find_row (is_case case_id tenant) rows)" for rows
      by (induction rows) (simp_all add: update_rows_def find_row_Cons)
    with a(1) show ?thesis by (simp add: upd)
  qed
  moreover have "filter (\<lambda>r. \<not> is_case case_id tenant r) (control_cases d') =
      filter (\<lambda>r. \<not> is_case case_id tenant r) (control_cases d)"
  proof -
    have "filter (\<lambda>r. \<not> is_case case_id tenant r) (update_rows (is_case case_id tenant) ?f rows)
        = filter (\<lambda>r. \<not> is_case case_id tenant r) rows" for rows
      by (induction rows) (simp_all add: update_rows_def)
    then show ?thesis by (simp add: upd)
  qed
  ultimately show ?thesis using a by blast
qed

section \<open>Witnesses\<close>

definition demo_event :: control_event where
  "demo_event = \<lparr>ev_event_id = lit ''e1'', ev_event_type = lit ''DEPLOYMENT'', ev_actor = lit ''alice'',
     ev_resource = lit ''r'', ev_occurred_at = lit ''2026-01-01T23:00:00Z'', ev_approved = False,
     ev_privileged = True, ev_outcome = lit ''SUCCESS'', ev_payload = JObj []\<rparr>"

lemma demo_hour: "iso_hour (replace_z (ev_occurred_at demo_event)) = Inr 23"
  by code_simp

lemma evaluate_event_controls_witness:
  "\<exists>cases. evaluate_event demo_event [] = Inr cases
     \<and> map cp_control_id cases = [lit ''AC-PRIV-001'', lit ''CM-APPROVAL-001'']"
  using evaluate_event_controls [OF demo_hour, of "[]" "[]"] by (simp add: demo_event_def)

lemma demo_event_ingested:
  "\<exists>out d1. ingest_and_evaluate demo_env Sqlite demo_clock (lit ''acme'') demo_event empty_db = (Inr out, d1)"
proof -
  obtain hour where "iso_hour (replace_z (ev_occurred_at demo_event)) = Inr hour" using demo_hour by blast
  then show ?thesis
    by (simp add: ingest_and_evaluate_def Let_def evaluate_event_def connect_eq ingest_event_body_def bind_tx_def
      empty_db_def insert_control_event_def append_audit_event_def insert_audit_event_def append_outbox_event_def,
      simp add: demo_event_def)
qed

lemma ingest_event_idempotent_witness:
  "\<exists>out d1. ingest_and_evaluate demo_env Sqlite demo_clock (lit ''acme'') demo_event empty_db = (Inr out, d1)
     \<and> ingest_and_evaluate demo_env Sqlite demo_clock (lit ''acme'') (demo_event\<lparr>ev_approved := True\<rparr>) d1 = (Inr out, d1)"
proof -
  obtain out d1 where i: "ingest_and_evaluate demo_env Sqlite demo_clock (lit ''acme'') demo_event empty_db = (Inr out, d1)"
    using demo_event_ingested by blast
  have "iso_hour (replace_z (ev_occurred_at (demo_event\<lparr>ev_approved := True\<rparr>))) = Inr 23" by code_simp
  then obtain cases where "evaluate_event (demo_event\<lparr>ev_approved := True\<rparr>)
      (sha256_json demo_env (event_dict (demo_event\<lparr>ev_approved := True\<rparr>))) = Inr cases"
    by (simp add: evaluate_event_def) (simp add: demo_event_def)
  with ingest_event_idempotent [OF i events_ok_empty] i show ?thesis by auto
qed

definition demo_case_db :: db where
  "demo_case_db = empty_db\<lparr>
     control_events := [\<lparr>ce_id = 1, ce_tenant = lit ''acme'', ce_event_id = lit ''e1'', ce_event_type = [],
       ce_actor = lit ''alice'', ce_resource = [], ce_occurred_at = [], ce_approved = 0, ce_privileged = 0,
       ce_outcome = [], ce_payload_json = [], ce_evidence_hash = []\<rparr>],
     control_cases := [new_case (lit ''acme'') (lit ''e1'') [] 1
       \<lparr>cp_control_id = [], cp_severity = [], cp_explanation = [], cp_evidence_hash = []\<rparr>]\<rparr>"

lemma transition_follows_table_witness:
  "\<exists>rep d' x. transition_case demo_env Sqlite demo_clock (lit ''acme'') 1 (lit ''bob'') (lit ''in_review'') (lit ''look'')
      demo_case_db = (Inr rep, d') \<and> control_case_transitions d' = [x] \<and> ct_to_status x = lit ''IN_REVIEW''"
proof -
  have up: "py_upper (lit ''in_review'') = lit ''IN_REVIEW''" by code_simp
  have nb: "\<not> py_blank (lit ''look'')" by code_simp
  have "\<exists>rep d'. transition_case demo_env Sqlite demo_clock (lit ''acme'') 1 (lit ''bob'') (lit ''in_review'') (lit ''look'')
      demo_case_db = (Inr rep, d')"
    by (simp add: transition_case_def Let_def up nb connect_eq bind_tx_def lift_res_def case_with_event_def
        check_transition_def apply_transition_def demo_case_db_def empty_db_def new_case_def is_case_def is_event_def
        find_row_Cons allowed_targets_def count_rows_def when_tx_def append_audit_event_def
        insert_audit_event_def append_outbox_event_def)
  then obtain rep d' where t: "transition_case demo_env Sqlite demo_clock (lit ''acme'') 1 (lit ''bob'')
      (lit ''in_review'') (lit ''look'') demo_case_db = (Inr rep, d')" by blast
  have "distinct (map cc_id (control_cases demo_case_db))" "control_case_transitions demo_case_db = []"
    by (simp_all add: demo_case_db_def empty_db_def)
  with transition_follows_table [OF t] t show ?thesis by (auto simp: up)
qed

end
