(* ===== verification/Event_Stream.thy ===== *)
theory Event_Stream
  imports Control_Pulse Py_Bytes
begin

text \<open>
  \<^verbatim>\<open>event_stream.py\<close>: the append-only stream of control events, a file of one JSON record per line
  with offsets and a hash chain, and the processor that feeds it to the control service and keeps
  a checkpoint.  The main facts: what is appended is read back and verifies, two verified streams
  with one last hash hold the same records, and a restart or a replay does not repeat anything.
\<close>

section \<open>Lines of a file\<close>

text \<open>
  A file is its text, or \<open>None\<close> where it does not exist.  Reading in text mode turns every line end
  into a line feed, and iteration yields the lines with their line feeds.
\<close>

fun newlines :: "bool \<Rightarrow> pystr \<Rightarrow> pystr" where
  "newlines after_cr [] = []"
| "newlines after_cr (c # s) =
     (if c = 13 then 10 # newlines True s
      else if c = 10 \<and> after_cr then newlines False s
      else c # newlines False s)"

definition universal_newlines :: "pystr \<Rightarrow> pystr" where
  "universal_newlines s = newlines False s"

fun text_lines :: "pystr \<Rightarrow> pystr list" where
  "text_lines [] = []"
| "text_lines (c # s) =
     (if c = 10 then [c] # text_lines s
      else case text_lines s of [] \<Rightarrow> [[c]] | l # ls \<Rightarrow> (c # l) # ls)"

section \<open>The stream\<close>

definition read_line :: "pyenv \<Rightarrow> pystr \<Rightarrow> (json \<times> int) res" where
  "read_line E line = bind_res (loads E line) (\<lambda>record.
     bind_res (jget (lit ''offset'') record) (\<lambda>pos. bind_res (json_int pos) (\<lambda>i. Inr (record, i))))"

definition read_from :: "pyenv \<Rightarrow> pystr option \<Rightarrow> int \<Rightarrow> json list res" where
  "read_from E file offset = (case file of
     None \<Rightarrow> Inr []
   | Some text \<Rightarrow>
       bind_res (map_res (read_line E) (filter (\<lambda>l. \<not> py_blank l) (text_lines (universal_newlines text)))) (\<lambda>rs.
         Inr (map fst (filter (\<lambda>(record, i). i \<ge> offset) rs))))"

text \<open>\<^verbatim>\<open>records[-1]["offset"] + 1\<close>.  Offsets that are floats, which no stream of the program has, raise.\<close>

fun json_succ :: "json \<Rightarrow> json res" where
  "json_succ (JInt i) = Inr (JInt (i + 1))"
| "json_succ (JBool b) = Inr (JInt (if b then 2 else 1))"
| "json_succ _ = Inl TypeError"

definition stream_position :: "json list \<Rightarrow> (json \<times> json) res" where
  "stream_position records =
     (if records = [] then Inr (JInt 0, JStr genesis)
      else bind_res (jget (lit ''offset'') (last records)) (\<lambda>pos.
        bind_res (json_succ pos) (\<lambda>offset.
        bind_res (jget (lit ''record_hash'') (last records)) (\<lambda>h. Inr (offset, h)))))"

definition record_fields :: "pystr \<Rightarrow> control_event \<Rightarrow> json \<Rightarrow> json \<Rightarrow> (pystr \<times> json) list" where
  "record_fields now e offset previous =
     [(lit ''offset'', offset), (lit ''recorded_at'', JStr now), (lit ''event'', event_dict e),
      (lit ''previous_hash'', previous)]"

definition sealed_record :: "pyenv \<Rightarrow> (pystr \<times> json) list \<Rightarrow> json" where
  "sealed_record E kvs = JObj (kvs @ [(lit ''record_hash'', JStr (sha256_json E (JObj kvs)))])"

text \<open>\<^verbatim>\<open>append\<close>: the record, and the file with its line.\<close>

definition stream_append :: "pyenv \<Rightarrow> pystr \<Rightarrow> control_event \<Rightarrow> pystr option \<Rightarrow> (json \<times> pystr option) res" where
  "stream_append E now e file =
     bind_res (read_from E file 0) (\<lambda>records.
     bind_res (stream_position records) (\<lambda>(offset, previous).
       let record = sealed_record E (record_fields now e offset previous)
       in Inr (record, Some ((case file of None \<Rightarrow> [] | Some text \<Rightarrow> text) @ canonical_json record @ [10]))))"

text \<open>
  \<^verbatim>\<open>verify\<close>: the loop over the records.  \<^verbatim>\<open>previous\<close> is a text, since it is a digest that the
  comparison before has confirmed.
\<close>

definition material_of :: "json \<Rightarrow> json" where
  "material_of record = (case record of
     JObj kvs \<Rightarrow> JObj (filter (\<lambda>kv. fst kv \<noteq> lit ''record_hash'') kvs) | _ \<Rightarrow> record)"

fun verify_records :: "pyenv \<Rightarrow> pystr \<Rightarrow> int \<Rightarrow> json list \<Rightarrow> (bool \<times> int \<times> json) res" where
  "verify_records E previous expected [] = Inr (True, expected, JNull)"
| "verify_records E previous expected (record # rs) =
     bind_res (jget (lit ''record_hash'') record) (\<lambda>supplied.
     bind_res (jget (lit ''offset'') record) (\<lambda>pos.
       if \<not> scalar_eq pos (JInt expected) then Inr (False, expected, supplied)
       else bind_res (jget (lit ''previous_hash'') record) (\<lambda>link.
         if link \<noteq> JStr previous \<or> JStr (sha256_json E (material_of record)) \<noteq> supplied
         then Inr (False, expected, supplied)
         else verify_records E (sha256_json E (material_of record)) (expected + 1) rs)))"

definition stream_verify :: "pyenv \<Rightarrow> pystr option \<Rightarrow> (bool \<times> int \<times> json) res" where
  "stream_verify E file = bind_res (read_from E file 0) (verify_records E genesis 0)"

section \<open>The processor\<close>

text \<open>
  \<^verbatim>\<open>ControlEvent(**record["event"])\<close>: exactly the fields of the class.  The class does not check the
  types of its fields; an event whose fields have other types than the class declares, which no
  stream of the program has, raises here.
\<close>

definition event_fields :: "pystr list" where
  "event_fields = [lit ''event_id'', lit ''event_type'', lit ''actor'', lit ''resource'', lit ''occurred_at'',
     lit ''approved'', lit ''privileged'', lit ''outcome'', lit ''payload'']"

definition json_bool :: "json \<Rightarrow> bool res" where
  "json_bool v = (case v of JBool b \<Rightarrow> Inr b | _ \<Rightarrow> Inl TypeError)"

definition event_of_json :: "json \<Rightarrow> control_event res" where
  "event_of_json v = (case v of
     JObj kvs \<Rightarrow>
       if set (map fst kvs) \<noteq> set event_fields then Inl TypeError
       else bind_res (bind_res (jget (lit ''event_id'') v) json_text) (\<lambda>event_id.
         bind_res (bind_res (jget (lit ''event_type'') v) json_text) (\<lambda>event_type.
         bind_res (bind_res (jget (lit ''actor'') v) json_text) (\<lambda>actor.
         bind_res (bind_res (jget (lit ''resource'') v) json_text) (\<lambda>resource.
         bind_res (bind_res (jget (lit ''occurred_at'') v) json_text) (\<lambda>occurred_at.
         bind_res (bind_res (jget (lit ''approved'') v) json_bool) (\<lambda>approved.
         bind_res (bind_res (jget (lit ''privileged'') v) json_bool) (\<lambda>privileged.
         bind_res (bind_res (jget (lit ''outcome'') v) json_text) (\<lambda>outcome.
         bind_res (jget (lit ''payload'') v) (\<lambda>payload.
           Inr \<lparr>ev_event_id = event_id, ev_event_type = event_type, ev_actor = actor, ev_resource = resource,
             ev_occurred_at = occurred_at, ev_approved = approved, ev_privileged = privileged,
             ev_outcome = outcome, ev_payload = payload\<rparr>)))))))))
   | _ \<Rightarrow> Inl TypeError)"

text \<open>The checkpoint file, written as a whole: a temporary file replaces it.\<close>

definition checkpoint_text :: "int \<Rightarrow> pystr" where
  "checkpoint_text n = pdump (spaced quote_ascii) 0 (JObj [(lit ''next_offset'', JInt n)])"

definition checkpoint :: "pyenv \<Rightarrow> pystr option \<Rightarrow> int res" where
  "checkpoint E file = (case file of
     None \<Rightarrow> Inr 0
   | Some text \<Rightarrow> bind_res (loads E text) (\<lambda>v. bind_res (jget (lit ''next_offset'') v) json_int))"

text \<open>
  The loop of \<^verbatim>\<open>process_available\<close> over the records: the cases so far, the next offset, the database
  and the checkpoint file; \<open>clk\<close> gives the clock readings of each turn.  An exception keeps what the
  turns before have committed.
\<close>

fun process_records ::
  "pyenv \<Rightarrow> dialect \<Rightarrow> (nat \<Rightarrow> clock) \<Rightarrow> pystr \<Rightarrow> json list \<Rightarrow> int \<Rightarrow> int \<Rightarrow> db \<Rightarrow> pystr option
     \<Rightarrow> (int \<times> int) res \<times> db \<times> pystr option" where
  "process_records E dl clk tenant [] cases next d ck = (Inr (cases, next), d, ck)"
| "process_records E dl clk tenant (record # rs) cases next d ck =
     (case bind_res (jget (lit ''event'') record) event_of_json of
        Inl err \<Rightarrow> (Inl err, d, ck)
      | Inr event \<Rightarrow>
          (case ingest_and_evaluate E dl (clk 0) tenant event d of
             (Inl err, d') \<Rightarrow> (Inl err, d', ck)
           | (Inr opened, d') \<Rightarrow>
               (case bind_res (jget (lit ''offset'') record) json_int of
                  Inl err \<Rightarrow> (Inl err, d', ck)
                | Inr pos \<Rightarrow> process_records E dl (\<lambda>i. clk (Suc i)) tenant rs (cases + int (length opened)) (pos + 1)
                    d' (Some (checkpoint_text (pos + 1))))))"

record process_report =
  pp_start_offset :: int
  pp_next_offset :: int
  pp_processed :: int
  pp_cases :: int

definition process_available ::
  "pyenv \<Rightarrow> dialect \<Rightarrow> (nat \<Rightarrow> clock) \<Rightarrow> pystr \<Rightarrow> int option \<Rightarrow> pystr option \<Rightarrow> db \<Rightarrow> pystr option
     \<Rightarrow> process_report res \<times> db \<times> pystr option" where
  "process_available E dl clk tenant max_records file d ck =
     (case bind_res (checkpoint E ck) (\<lambda>start. bind_res (read_from E file start) (\<lambda>rs. Inr (start, rs))) of
        Inl err \<Rightarrow> (Inl err, d, ck)
      | Inr (start, rs) \<Rightarrow>
          (let records = (case max_records of None \<Rightarrow> rs | Some m \<Rightarrow> py_take m rs)
           in case process_records E dl clk tenant records 0 start d ck of
                (Inl err, d', ck') \<Rightarrow> (Inl err, d', ck')
              | (Inr (cases, next), d', ck') \<Rightarrow>
                  (Inr \<lparr>pp_start_offset = start, pp_next_offset = next, pp_processed = int (length records),
                     pp_cases = cases\<rparr>, d', ck')))"

definition replay_stream ::
  "pyenv \<Rightarrow> dialect \<Rightarrow> (nat \<Rightarrow> clock) \<Rightarrow> pystr \<Rightarrow> pystr option \<Rightarrow> db \<Rightarrow> process_report res \<times> db \<times> pystr option" where
  "replay_stream E dl clk tenant file d =
     process_available E dl clk tenant None file d (Some (checkpoint_text 0))"

section \<open>Lines\<close>

text \<open>A canonical text has no control characters, hence no line ends.\<close>

definition printable :: "pystr \<Rightarrow> bool" where
  "printable s \<longleftrightarrow> (\<forall>c \<in> set s. c < 0 \<or> 32 \<le> c)"

lemma printable_simps [simp]:
  "printable []" "printable (c # s) \<longleftrightarrow> (c < 0 \<or> 32 \<le> c) \<and> printable s" "printable (s @ t) \<longleftrightarrow> printable s \<and> printable t"
  by (auto simp: printable_def)

lemma printable_list_all: "printable s \<longleftrightarrow> list_all (\<lambda>c. c < 0 \<or> 32 \<le> c) s"
  by (simp add: printable_def list_all_iff)

lemma printable_dump: "wf_json E j \<Longrightarrow> printable (dump j)"
  unfolding printable_list_all pdump_compact [symmetric, of _ 0]
  by (rule pdump_chars [where ok = "\<lambda>_. True"]) (auto simp: ascii_ok_def intro: quote_chars)

lemma printable_canonical: "wf_json E j \<Longrightarrow> printable (canonical_json j)"
  using printable_dump [OF wf_jnorm] by (simp add: canonical_json_def)

lemma newlines_line: "printable l \<Longrightarrow> newlines f (l @ 10 # s) = (if l = [] \<and> f then newlines False s else l @ 10 # newlines False s)"
  by (induction l arbitrary: f) auto

lemma newlines_id: "printable l \<Longrightarrow> newlines False (l @ 10 # s) = l @ 10 # newlines False s"
  by (simp add: newlines_line)

lemma text_lines_line: "printable l \<Longrightarrow> text_lines (l @ 10 # s) = (l @ [10]) # text_lines s"
  by (induction l) auto

definition file_of :: "json list \<Rightarrow> pystr" where
  "file_of rs = concat (map (\<lambda>r. canonical_json r @ [10]) rs)"

lemma lines_file_of:
  "\<forall>r \<in> set rs. wf_json E r \<Longrightarrow> text_lines (universal_newlines (file_of rs)) = map (\<lambda>r. canonical_json r @ [10]) rs"
proof (induction rs)
  case (Cons r rs)
  then have p: "printable (canonical_json r)" using printable_canonical by auto
  with Cons show ?case
    by (simp add: file_of_def universal_newlines_def newlines_id text_lines_line)
qed (simp add: file_of_def universal_newlines_def)

lemma canonical_object_not_blank: "\<not> py_blank (canonical_json (JObj kvs) @ s)"
  by (simp add: canonical_json_def py_blank_iff py_space_def)

section \<open>Records\<close>

text \<open>Looking a key up commutes with sorting the keys.\<close>

lemma jget_jnorm:
  assumes "distinct (map fst kvs)"
  shows "jget k (jnorm (JObj kvs)) = map_sum id jnorm (jget k (JObj kvs))"
proof -
  have m: "map_of (map (\<lambda>(k, v). (k, jnorm v)) xs) k = map_option jnorm (map_of xs k)" for xs
    by (induction xs) auto
  have d: "distinct (map fst (map (\<lambda>(k, v). (k, jnorm v)) kvs))" using assms unfolding map_fst_norm_items .
  show ?thesis
    using m [of kvs] by (simp add: jget_def map_of_sort_key [OF d] split: option.splits)
qed

lemma map_of_filter_key: "map_of (filter (\<lambda>kv. fst kv \<noteq> k) kvs) = (map_of kvs)(k := None)"
  by (induction kvs) auto

lemma canonical_material:
  assumes "wf_json E (JObj kvs)" "lit ''record_hash'' \<notin> set (map fst kvs)" "wf_json E h"
  shows "canonical_json (material_of (jnorm (JObj (kvs @ [(lit ''record_hash'', h)])))) = canonical_json (JObj kvs)"
proof -
  let ?k = "lit ''record_hash''" and ?all = "kvs @ [(lit ''record_hash'', h)]"
  let ?n = "\<lambda>xs. map (\<lambda>(k, v). (k, jnorm v)) xs"
  have wf: "wf_json E (JObj ?all)" using assms by auto
  then have d: "distinct (map fst (?n ?all))" unfolding map_fst_norm_items by simp
  obtain ys where ys: "jnorm (JObj ?all) = JObj ys" "ys = sort_key fst (?n ?all)" by simp
  have "wf_json E (JObj ys)" using wf_jnorm [OF wf] unfolding ys(1) .
  then have wfm: "wf_json E (JObj (filter (\<lambda>kv. fst kv \<noteq> ?k) ys))"
    by (auto simp: distinct_map_filter)
  have m: "map_of (?n xs) k = map_option jnorm (map_of xs k)" for xs k
    by (induction xs) auto
  have "map_of (filter (\<lambda>kv. fst kv \<noteq> ?k) ys) k = map_option jnorm (map_of kvs k)" for k
  proof -
    have "map_of ys = map_of (?n ?all)" unfolding ys(2) by (rule map_of_sort_key [OF d])
    moreover have "map_of kvs ?k = None" using assms(2) by (simp add: map_of_eq_None_iff)
    ultimately show ?thesis using m [of ?all k] m [of kvs k]
      by (auto simp: map_of_filter_key map_add_def split: option.splits)
  qed
  then have "canonical_json (JObj (filter (\<lambda>kv. fst kv \<noteq> ?k) ys)) = canonical_json (JObj kvs)"
    by (subst canonical_object_eq [OF wfm assms(1)]) (simp add: option.map_comp comp_def)
  then show ?thesis by (simp add: material_of_def ys(1) del: jnorm.simps)
qed

definition wf_event :: "pyenv \<Rightarrow> control_event \<Rightarrow> bool" where
  "wf_event E e \<longleftrightarrow> wf_json E (ev_payload e)"

lemma wf_event_dict: "wf_event E e \<Longrightarrow> wf_json E (event_dict e)"
  by (simp add: wf_event_def event_dict_def)

text \<open>The event of a record is read back with the keys of its payload sorted.\<close>

definition norm_event :: "control_event \<Rightarrow> control_event" where
  "norm_event e = e\<lparr>ev_payload := jnorm (ev_payload e)\<rparr>"

lemma event_of_json_dict: "event_of_json (jnorm (event_dict e)) = Inr (norm_event e)"
proof -
  let ?kvs = "[(lit ''event_id'', JStr (ev_event_id e)), (lit ''event_type'', JStr (ev_event_type e)),
      (lit ''actor'', JStr (ev_actor e)), (lit ''resource'', JStr (ev_resource e)),
      (lit ''occurred_at'', JStr (ev_occurred_at e)), (lit ''approved'', JBool (ev_approved e)),
      (lit ''privileged'', JBool (ev_privileged e)), (lit ''outcome'', JStr (ev_outcome e)),
      (lit ''payload'', ev_payload e)]"
  have d: "distinct (map fst ?kvs)" by simp
  have g: "jget k (jnorm (event_dict e)) = map_sum id jnorm (jget k (event_dict e))" for k
    unfolding event_dict_def by (rule jget_jnorm [OF d])
  have "set (map fst (sort_key fst (map (\<lambda>(k, v). (k, jnorm v)) kvs))) = set (map fst kvs)" for kvs
    by (simp only: set_map set_sort) (force simp: image_iff)
  then obtain ys where ys: "jnorm (event_dict e) = JObj ys" "set (map fst ys) = set (map fst ?kvs)"
    unfolding event_dict_def jnorm.simps by blast
  have keys: "set (map fst ?kvs) = set event_fields" by (simp add: event_fields_def)
  note v = g [unfolded ys(1)]
  have "jget (lit ''event_id'') (JObj ys) = Inr (JStr (ev_event_id e))"
    "jget (lit ''event_type'') (JObj ys) = Inr (JStr (ev_event_type e))"
    "jget (lit ''actor'') (JObj ys) = Inr (JStr (ev_actor e))"
    "jget (lit ''resource'') (JObj ys) = Inr (JStr (ev_resource e))"
    "jget (lit ''occurred_at'') (JObj ys) = Inr (JStr (ev_occurred_at e))"
    "jget (lit ''approved'') (JObj ys) = Inr (JBool (ev_approved e))"
    "jget (lit ''privileged'') (JObj ys) = Inr (JBool (ev_privileged e))"
    "jget (lit ''outcome'') (JObj ys) = Inr (JStr (ev_outcome e))"
    "jget (lit ''payload'') (JObj ys) = Inr (jnorm (ev_payload e))"
    unfolding v by (simp_all add: event_dict_def)
  note got = this
  have "set (map fst ys) = set event_fields" using ys(2) keys by simp
  then show ?thesis
    unfolding event_of_json_def ys(1) json.case got
    by (simp add: json_bool_def norm_event_def del: jget_simps)
qed

abbreviation stream_record :: "pyenv \<Rightarrow> pystr \<Rightarrow> control_event \<Rightarrow> int \<Rightarrow> pystr \<Rightarrow> json" where
  "stream_record E now e i previous \<equiv> sealed_record E (record_fields now e (JInt i) (JStr previous))"

abbreviation record_seal :: "pyenv \<Rightarrow> pystr \<Rightarrow> control_event \<Rightarrow> int \<Rightarrow> pystr \<Rightarrow> pystr" where
  "record_seal E now e i previous \<equiv> sha256_json E (JObj (record_fields now e (JInt i) (JStr previous)))"

lemma stream_record_fields:
  fixes now p :: pystr and i :: int
  assumes "wf_event E e"
  defines "r \<equiv> stream_record E now e i p"
  shows "wf_json E r" "jget (lit ''offset'') (jnorm r) = Inr (JInt i)"
    "jget (lit ''record_hash'') (jnorm r) = Inr (JStr (record_seal E now e i p))"
    "jget (lit ''previous_hash'') (jnorm r) = Inr (JStr p)"
    "jget (lit ''event'') (jnorm r) = Inr (jnorm (event_dict e))"
    "sha256_json E (material_of (jnorm r)) = record_seal E now e i p"
    "\<exists>kvs. r = JObj kvs"
proof -
  let ?f = "record_fields now e (JInt i) (JStr p)"
  have w: "wf_json E (event_dict e)" using assms(1) by (rule wf_event_dict)
  have wf: "wf_json E (JObj ?f)" using w by (simp add: record_fields_def)
  show "wf_json E r" using w by (simp add: r_def sealed_record_def record_fields_def)
  have d: "distinct (map fst (?f @ [(lit ''record_hash'', JStr (record_seal E now e i p))]))"
    by (simp add: record_fields_def)
  note g = jget_jnorm [OF d, folded sealed_record_def, folded r_def]
  show "jget (lit ''offset'') (jnorm r) = Inr (JInt i)"
    "jget (lit ''record_hash'') (jnorm r) = Inr (JStr (record_seal E now e i p))"
    "jget (lit ''previous_hash'') (jnorm r) = Inr (JStr p)"
    "jget (lit ''event'') (jnorm r) = Inr (jnorm (event_dict e))"
    unfolding g by (simp_all add: r_def sealed_record_def record_fields_def)
  have "canonical_json (material_of (jnorm r)) = canonical_json (JObj ?f)"
    unfolding r_def sealed_record_def
    by (rule canonical_material [OF wf]) (simp_all add: record_fields_def)
  then show "sha256_json E (material_of (jnorm r)) = record_seal E now e i p"
    by (simp add: sha256_json_def)
  show "\<exists>kvs. r = JObj kvs" by (simp add: r_def sealed_record_def)
qed

section \<open>Streams\<close>

text \<open>The records that appending events, each with the time of its record, leads to.\<close>

fun stream_records :: "pyenv \<Rightarrow> (pystr \<times> control_event) list \<Rightarrow> int \<Rightarrow> pystr \<Rightarrow> json list" where
  "stream_records E [] i p = []"
| "stream_records E ((now, e) # xs) i p =
     stream_record E now e i p # stream_records E xs (i + 1) (record_seal E now e i p)"

fun stream_head :: "pyenv \<Rightarrow> (pystr \<times> control_event) list \<Rightarrow> int \<Rightarrow> pystr \<Rightarrow> pystr" where
  "stream_head E [] i p = p"
| "stream_head E ((now, e) # xs) i p = stream_head E xs (i + 1) (record_seal E now e i p)"

abbreviation wf_events :: "pyenv \<Rightarrow> (pystr \<times> control_event) list \<Rightarrow> bool" where
  "wf_events E xs \<equiv> \<forall>x \<in> set xs. wf_event E (snd x)"

lemma stream_records_snoc:
  "stream_records E (xs @ [(now, e)]) i p =
     stream_records E xs i p @ [stream_record E now e (i + int (length xs)) (stream_head E xs i p)]"
  "stream_head E (xs @ [(now, e)]) i p = record_seal E now e (i + int (length xs)) (stream_head E xs i p)"
  by (induction E xs i p rule: stream_records.induct) (simp_all add: algebra_simps)

lemma length_stream_records [simp]: "length (stream_records E xs i p) = length xs"
  by (induction E xs i p rule: stream_records.induct) simp_all

text \<open>The fields of a record that has been read.\<close>

definition offset_of :: "json \<Rightarrow> int" where
  "offset_of r = projr (bind_res (jget (lit ''offset'') (jnorm r)) json_int)"

lemma stream_records_good:
  "wf_events E xs \<Longrightarrow> r \<in> set (stream_records E xs i p) \<Longrightarrow>
   wf_json E r \<and> (\<exists>kvs. r = JObj kvs) \<and> bind_res (jget (lit ''offset'') (jnorm r)) json_int = Inr (offset_of r)"
proof (induction E xs i p rule: stream_records.induct)
  case (2 E now e xs i p)
  then show ?case using stream_record_fields [of E e now i p] by (auto simp: offset_of_def)
qed simp

lemma read_file_of:
  assumes "\<And>r. r \<in> set rs \<Longrightarrow> wf_json E r \<and> (\<exists>kvs. r = JObj kvs)
    \<and> bind_res (jget (lit ''offset'') (jnorm r)) json_int = Inr (offset_of r)"
  shows "read_from E (Some (file_of rs)) k = Inr (map jnorm (filter (\<lambda>r. offset_of r \<ge> k) rs))"
proof -
  let ?line = "\<lambda>r. canonical_json r @ [10]"
  have wf: "\<forall>r \<in> set rs. wf_json E r" using assms by blast
  have nb: "filter (\<lambda>r. \<not> py_blank (?line r)) rs = rs"
    using assms canonical_object_not_blank by (fastforce simp: filter_id_conv)
  have "read_line E (?line r) = Inr (jnorm r, offset_of r)" if "r \<in> set rs" for r
    using assms [OF that] loads_canonical_ws [of E r "[10]"]
    by (auto simp: read_line_def json_ws_def bind_res_Inr)
  then have "map_res (\<lambda>r. read_line E (?line r)) rs = Inr (map (\<lambda>r. (jnorm r, offset_of r)) rs)"
    by (rule map_res_total)
  moreover have "map_res (read_line E) (map ?line xs) = map_res (\<lambda>r. read_line E (?line r)) xs" for xs
    by (induction xs) simp_all
  ultimately show ?thesis
    by (simp add: read_from_def lines_file_of [OF wf] nb filter_map comp_def)
qed

lemma filter_offsets:
  "wf_events E xs \<Longrightarrow> filter (\<lambda>r. offset_of r \<ge> k) (stream_records E xs i p) = drop (nat (k - i)) (stream_records E xs i p)"
proof (induction E xs i p rule: stream_records.induct)
  case (2 E now e xs i p)
  have o: "offset_of (stream_record E now e i p) = i"
    using 2(2) stream_record_fields(2) [of E e now i p] by (simp add: offset_of_def)
  show ?case
  proof (cases "k \<le> i")
    case True
    with 2 o show ?thesis by simp
  next
    case False
    then have "nat (k - i) = Suc (nat (k - (i + 1)))" by simp
    with False 2 o show ?thesis by simp
  qed
qed simp

lemma read_stream:
  "wf_events E xs \<Longrightarrow> read_from E (Some (file_of (stream_records E xs i p))) k =
     Inr (map jnorm (drop (nat (k - i)) (stream_records E xs i p)))"
  using read_file_of [of "stream_records E xs i p" E k] stream_records_good [where E = E and xs = xs and i = i and p = p]
  by (simp add: filter_offsets)

lemma scalar_eq_JInt [simp]: "scalar_eq (JInt a) (JInt b) \<longleftrightarrow> a = b"
  by (auto simp: scalar_eq_def number_of_def dec_le_def rescale_def)

lemma verify_stream_records:
  "wf_events E xs \<Longrightarrow> verify_records E p i (map jnorm (stream_records E xs i p)) = Inr (True, i + int (length xs), JNull)"
proof (induction E xs i p rule: stream_records.induct)
  case (2 E now e xs i p)
  then show ?case using stream_record_fields(2-6) [of E e now i p] by simp
qed simp

definition stream_file :: "pyenv \<Rightarrow> (pystr \<times> control_event) list \<Rightarrow> pystr option" where
  "stream_file E xs = (if xs = [] then None else Some (file_of (stream_records E xs 0 genesis)))"

lemma read_stream_file:
  "wf_events E xs \<Longrightarrow> read_from E (stream_file E xs) (int k) = Inr (map jnorm (drop k (stream_records E xs 0 genesis)))"
  using read_stream [where E = E and xs = xs and i = 0 and p = genesis and k = "int k"] by (simp add: stream_file_def read_from_def)

lemma stream_position_records:
  assumes "wf_events E xs"
  shows "stream_position (map jnorm (stream_records E xs 0 genesis)) = Inr (JInt (int (length xs)), JStr (stream_head E xs 0 genesis))"
proof (cases xs rule: rev_cases)
  case Nil
  then show ?thesis by (simp add: stream_position_def)
next
  case (snoc ys x)
  obtain now e where x: "x = (now, e)" by (cases x)
  with assms snoc have "wf_event E e" by simp
  from stream_record_fields(2,3) [OF this, of now "int (length ys)" "stream_head E ys 0 genesis"]
  show ?thesis unfolding snoc x stream_records_snoc
    by (simp add: stream_position_def stream_records_snoc)
qed

lemma stream_append_file:
  assumes "wf_events E xs"
  shows "stream_append E now e (stream_file E xs) =
    Inr (stream_record E now e (int (length xs)) (stream_head E xs 0 genesis), stream_file E (xs @ [(now, e)]))"
proof -
  have "(case stream_file E xs of None \<Rightarrow> [] | Some text \<Rightarrow> text) = file_of (stream_records E xs 0 genesis)"
    by (simp add: stream_file_def file_of_def)
  moreover have "read_from E (stream_file E xs) 0 = Inr (map jnorm (stream_records E xs 0 genesis))"
    using read_stream_file [OF assms, of 0] by simp
  ultimately show ?thesis
    by (simp add: stream_append_def stream_position_records [OF assms] Let_def stream_file_def
        stream_records_snoc) (simp add: file_of_def)
qed

fun stream_appends :: "pyenv \<Rightarrow> (pystr \<times> control_event) list \<Rightarrow> pystr option \<Rightarrow> (json list \<times> pystr option) res" where
  "stream_appends E [] file = Inr ([], file)"
| "stream_appends E ((now, e) # xs) file =
     bind_res (stream_append E now e file) (\<lambda>(r, file').
     bind_res (stream_appends E xs file') (\<lambda>(rs, file''). Inr (r # rs, file'')))"

lemma stream_appends_file:
  "wf_events E (xs @ ys) \<Longrightarrow> stream_appends E ys (stream_file E xs) =
     Inr (stream_records E ys (int (length xs)) (stream_head E xs 0 genesis), stream_file E (xs @ ys))"
proof (induction ys arbitrary: xs)
  case (Cons y ys)
  obtain now e where y: "y = (now, e)" by (cases y)
  have "wf_events E xs" using Cons.prems by simp
  note a = stream_append_file [OF this, of now e]
  have "wf_events E ((xs @ [y]) @ ys)" using Cons.prems by simp
  note ih = Cons.IH [OF this]
  show ?case
    using ih by (simp add: y a stream_records_snoc algebra_simps)
qed simp

lemma stream_appends_None:
  "wf_events E xs \<Longrightarrow> stream_appends E xs None = Inr (stream_records E xs 0 genesis, stream_file E xs)"
  using stream_appends_file [where E = E and xs = "[]" and ys = xs] by (simp add: stream_file_def)

definition record_event :: "json \<Rightarrow> control_event res" where
  "record_event record = bind_res (jget (lit ''event'') record) event_of_json"

lemma stream_record_events:
  "wf_events E xs \<Longrightarrow> map_res record_event (map jnorm (stream_records E xs i p)) = Inr (map (norm_event \<circ> snd) xs)"
proof (induction E xs i p rule: stream_records.induct)
  case (2 E now e xs i p)
  then show ?case using stream_record_fields(5) [of E e now i p]
    by (simp add: record_event_def event_of_json_dict)
qed simp

section \<open>The chain\<close>

definition text_field :: "pystr \<Rightarrow> json \<Rightarrow> pystr" where
  "text_field k r = (case jget k r of Inr (JStr s) \<Rightarrow> s | _ \<Rightarrow> [])"

definition record_bytes :: "json \<Rightarrow> bytes" where
  "record_bytes r = utf8 (canonical_json (material_of r))"

definition record_intact :: "pyenv \<Rightarrow> json \<Rightarrow> bool" where
  "record_intact E r \<longleftrightarrow> wf_json E r \<and> (\<exists>kvs. r = JObj kvs)
     \<and> jget (lit ''record_hash'') r = Inr (JStr (sha256_hex E (record_bytes r)))
     \<and> (\<exists>p. jget (lit ''previous_hash'') r = Inr (JStr p))"

abbreviation stream_link :: "json \<Rightarrow> pystr" where "stream_link \<equiv> text_field (lit ''previous_hash'')"
abbreviation stream_seal :: "json \<Rightarrow> pystr" where "stream_seal \<equiv> text_field (lit ''record_hash'')"

text \<open>Records with the same hashed text agree in every field but the hash.\<close>

lemma same_material:
  assumes "wf_json E (JObj a)" "wf_json E (JObj b)" "record_bytes (JObj a) = record_bytes (JObj b)"
    and "k \<noteq> lit ''record_hash''"
  shows "map_option canonical_json (map_of a k) = map_option canonical_json (map_of b k)"
proof -
  let ?f = "filter (\<lambda>kv. fst kv \<noteq> lit ''record_hash'')"
  have "canonical_json (JObj (?f a)) = canonical_json (JObj (?f b))"
    using assms(3) by (simp add: record_bytes_def material_of_def)
  moreover have "wf_json E (JObj (?f a))" "wf_json E (JObj (?f b))"
    using assms(1,2) by (auto simp: distinct_map_filter)
  ultimately have "map_option canonical_json (map_of (?f a) k) = map_option canonical_json (map_of (?f b) k)"
    using canonical_object_eq by blast
  then show ?thesis using assms(4) by (simp add: map_of_filter_key)
qed

lemma record_reading:
  assumes "record_intact E r" "record_intact E s" "record_bytes r = record_bytes s"
  shows "canonical_json r = canonical_json s"
proof -
  from assms(1,2) obtain a b where ab: "r = JObj a" "s = JObj b" by (auto simp: record_intact_def)
  have wf: "wf_json E (JObj a)" "wf_json E (JObj b)" using assms(1,2) ab by (auto simp: record_intact_def)
  have "map_option canonical_json (map_of a k) = map_option canonical_json (map_of b k)" for k
  proof (cases "k = lit ''record_hash''")
    case True
    with assms ab show ?thesis
      by (auto simp: record_intact_def jget_def split: option.splits)
  next
    case False
    with same_material [OF wf] assms(3) ab show ?thesis by blast
  qed
  then show ?thesis using canonical_object_eq [OF wf] ab by blast
qed

interpretation stream_log: hash_chain stream_link stream_seal "record_intact E" record_bytes "sha256_hex E" for E
proof
  show "stream_seal r = sha256_hex E (record_bytes r)" if "record_intact E r" for r
    using that by (auto simp: record_intact_def text_field_def)
  show "stream_link r = stream_link s"
    if "record_intact E r" "record_intact E s" "record_bytes r = record_bytes s" for r s
  proof -
    from that obtain a b where ab: "r = JObj a" "s = JObj b" by (auto simp: record_intact_def)
    have wf: "wf_json E (JObj a)" "wf_json E (JObj b)" using that ab by (auto simp: record_intact_def)
    have "map_option canonical_json (map_of a (lit ''previous_hash'')) = map_option canonical_json (map_of b (lit ''previous_hash''))"
      using same_material [OF wf] that(3) ab by simp
    moreover from that obtain p q where pq: "jget (lit ''previous_hash'') r = Inr (JStr p)"
      "jget (lit ''previous_hash'') s = Inr (JStr q)" by (auto simp: record_intact_def)
    then have "map_of a (lit ''previous_hash'') = Some (JStr p)" "map_of b (lit ''previous_hash'') = Some (JStr q)"
      using ab unfolding jget_Inr by auto
    ultimately have "p = q" by simp
    with pq show ?thesis by (simp add: text_field_def)
  qed
qed

lemma verify_records_chained:
  assumes "verify_records E p i rs = Inr (True, m, h)" "\<forall>r \<in> set rs. wf_json E r"
  shows "chained stream_link stream_seal (record_intact E) p rs \<and> m = i + int (length rs)"
  using assms
proof (induction rs arbitrary: p i)
  case (Cons r rs)
  have o: "\<exists>kvs. r = JObj kvs" if "jget k r = Inr v" for k v
    using that by (auto simp: jget_def split: json.splits)
  from Cons.prems(1) have r: "jget (lit ''record_hash'') r = Inr (JStr (sha256_json E (material_of r)))"
    "jget (lit ''previous_hash'') r = Inr (JStr p)"
    and v: "verify_records E (sha256_json E (material_of r)) (i + 1) rs = Inr (True, m, h)"
    by (auto simp: bind_res_Inr split: if_splits)
  have "record_intact E r" using r o Cons.prems(2)
    by (auto simp: record_intact_def record_bytes_def sha256_json_def)
  with r v Cons.IH [OF v] Cons.prems(2) show ?case
    by (auto simp: text_field_def)
qed simp

lemma read_from_wf:
  assumes "float_law E" "read_from E file k = Inr rs"
  shows "\<forall>r \<in> set rs. wf_json E r"
proof -
  have line: "wf_json E (fst p)" if "read_line E l = Inr p" for l p
    using that assms(1) by (auto simp: read_line_def bind_res_Inr intro: loads_wf)
  have "\<forall>p \<in> set ps. wf_json E (fst p)" if "map_res (read_line E) ls = Inr ps" for ls ps
    using that line by (auto simp: map_res_Inr list_all2_conv_all_nth in_set_conv_nth) metis
  then have all: "wf_json E a" if "map_res (read_line E) ls = Inr ps" "(a, b) \<in> set ps" for ls ps a b
    using that by force
  with assms(2) show ?thesis
    by (auto simp: read_from_def bind_res_Inr split: option.splits intro: all)
qed

section \<open>Processing what is known\<close>

definition known_event :: "pystr \<Rightarrow> db \<Rightarrow> control_event \<Rightarrow> bool" where
  "known_event t d e \<longleftrightarrow> find_row (is_event t (ev_event_id e)) (control_events d) \<noteq> None"

text \<open>A record whose event is stored, and evaluates without an exception.\<close>

definition known_record :: "pyenv \<Rightarrow> pystr \<Rightarrow> db \<Rightarrow> json \<Rightarrow> bool" where
  "known_record E t d r \<longleftrightarrow> (\<exists>e cases i. record_event r = Inr e
     \<and> evaluate_event e (sha256_json E (event_dict e)) = Inr cases
     \<and> bind_res (jget (lit ''offset'') r) json_int = Inr i \<and> known_event t d e)"

definition record_cases :: "pystr \<Rightarrow> db \<Rightarrow> json \<Rightarrow> int" where
  "record_cases t d r = int (length (stored_reports t (ev_event_id (projr (record_event r))) d))"

definition record_offset :: "json \<Rightarrow> int" where
  "record_offset r = projr (bind_res (jget (lit ''offset'') r) json_int)"

text \<open>Where a run over records ends.\<close>

definition end_offset :: "int \<Rightarrow> json list \<Rightarrow> int" where
  "end_offset next rs = (if rs = [] then next else record_offset (last rs) + 1)"

definition end_checkpoint :: "pystr option \<Rightarrow> json list \<Rightarrow> pystr option" where
  "end_checkpoint ck rs = (if rs = [] then ck else Some (checkpoint_text (record_offset (last rs) + 1)))"

lemma end_simps [simp]:
  "end_offset next [] = next" "end_offset next (r # rs) = end_offset (record_offset r + 1) rs"
  "end_checkpoint ck [] = ck" "end_checkpoint ck (r # rs) = end_checkpoint (Some (checkpoint_text (record_offset r + 1))) rs"
  by (simp_all add: end_offset_def end_checkpoint_def)

lemma process_known:
  assumes "\<forall>r \<in> set xs. known_record E t d r" "dl \<noteq> Postgres \<or> tenant_accepted E t"
  shows "process_records E dl clk t (xs @ ys) n next d ck =
    process_records E dl (\<lambda>i. clk (length xs + i)) t ys (n + sum_list (map (record_cases t d) xs)) (end_offset next xs) d
      (end_checkpoint ck xs)"
  using assms(1)
proof (induction xs arbitrary: clk n "next" ck)
  case (Cons r xs)
  then obtain e cases i where r: "record_event r = Inr e"
    "evaluate_event e (sha256_json E (event_dict e)) = Inr cases"
    "bind_res (jget (lit ''offset'') r) json_int = Inr i" "known_event t d e"
    by (auto simp: known_record_def)
  from r(4) obtain row where "find_row (is_event t (ev_event_id e)) (control_events d) = Some row"
    by (auto simp: known_event_def)
  from ingest_event_known [OF this r(2) assms(2)]
  have i: "ingest_and_evaluate E dl (clk 0) t e d = (Inr (stored_reports t (ev_event_id e) d), d)" .
  have c: "record_cases t d r = int (length (stored_reports t (ev_event_id e) d))" "record_offset r = i"
    using r by (simp_all add: record_cases_def record_offset_def)
  have step: "process_records E dl clk t ((r # xs) @ ys) n next d ck =
      process_records E dl (\<lambda>i. clk (Suc i)) t (xs @ ys) (n + record_cases t d r) (record_offset r + 1) d
        (Some (checkpoint_text (record_offset r + 1)))"
    using r i c by (simp add: record_event_def)
  have "\<forall>r \<in> set xs. known_record E t d r" using Cons.prems by simp
  from Cons.IH [OF this] show ?case unfolding step by (simp add: add.assoc)
qed simp

text \<open>Ingesting an event keeps what is stored of the events before it.\<close>

lemma ingest_keeps_known:
  assumes "ingest_and_evaluate E dl ts t e d = (Inr out, d')" "known_event t d e'"
  shows "known_event t d' e'" "stored_reports t (ev_event_id e') d' = stored_reports t (ev_event_id e') d"
proof -
  from assms(1) obtain cases where
    "ingest_event_body E ts t e (sha256_json E (event_dict e)) cases d = Inr (out, d')"
    by (rule ingest_event_commit)
  then have "known_event t d' e' \<and> stored_reports t (ev_event_id e') d' = stored_reports t (ev_event_id e') d"
  proof (cases rule: ingest_event_body_cases)
    case (known r)
    with assms(2) show ?thesis by simp
  next
    case (new d1 r h)
    note fr = append_audit_event_control [OF new(5)]
    from assms(2) new(1) have ne: "ev_event_id e' \<noteq> ev_event_id e" by (auto simp: known_event_def)
    obtain cs where cs: "control_cases d' = control_cases d @ cs" "\<forall>c \<in> set cs. cc_tenant c = t \<and> cc_event_id c = ev_event_id e"
      using insert_cases_append [of t "ev_event_id e" "sha256_json E (event_dict e)" cases "control_cases d"] fr new(4) by auto
    have "filter (\<lambda>c. cc_tenant c = t \<and> cc_event_id c = ev_event_id e') cs = []"
      using cs(2) ne by (auto simp: filter_empty_conv)
    then have "stored_reports t (ev_event_id e') d' = stored_reports t (ev_event_id e') d"
      unfolding stored_reports_def cs(1) by (simp add: select_rows_def)
    with assms(2) fr new(4) show ?thesis
      by (auto simp: known_event_def find_row_append split: option.splits)
  qed
  then show "known_event t d' e'" "stored_reports t (ev_event_id e') d' = stored_reports t (ev_event_id e') d" by blast+
qed

lemma ingest_makes_known:
  assumes "ingest_and_evaluate E dl ts t e d = (Inr out, d')" "events_ok d"
  shows "known_event t d' e" "stored_reports t (ev_event_id e) d' = out" "events_ok d'"
    "\<exists>cases. evaluate_event e (sha256_json E (event_dict e)) = Inr cases" "dl \<noteq> Postgres \<or> tenant_accepted E t"
proof -
  from assms(1) obtain cases where c: "evaluate_event e (sha256_json E (event_dict e)) = Inr cases"
    "ingest_event_body E ts t e (sha256_json E (event_dict e)) cases d = Inr (out, d')"
    "dl \<noteq> Postgres \<or> tenant_accepted E t" by (rule ingest_event_commit)
  from c(1,3) show "\<exists>cases. evaluate_event e (sha256_json E (event_dict e)) = Inr cases" "dl \<noteq> Postgres \<or> tenant_accepted E t"
    by blast+
  from c(2) assms(2) show "events_ok d'" by (rule ingest_event_events_ok)
  from c(2) have "known_event t d' e \<and> stored_reports t (ev_event_id e) d' = out"
  proof (cases rule: ingest_event_body_cases)
    case (known r)
    then show ?thesis by (simp add: known_event_def)
  next
    case (new d1 r h)
    note fr = append_audit_event_control [OF new(5)]
    have "stored_reports t (ev_event_id e) d' = cases"
      by (rule stored_reports_new [OF assms(2) new(1) _ evaluate_event_evidence [OF c(1)]])
        (use fr new(4) in simp)
    with new fr show ?thesis by (simp add: known_event_def find_row_append find_row_Cons)
  qed
  then show "known_event t d' e" "stored_reports t (ev_event_id e) d' = out" by blast+
qed

lemma process_keeps_known:
  "process_records E dl clk t rs n next d ck = (Inr (n', next'), d', ck') \<Longrightarrow> known_event t d e \<Longrightarrow>
   known_event t d' e \<and> stored_reports t (ev_event_id e) d' = stored_reports t (ev_event_id e) d"
proof (induction rs arbitrary: clk n "next" d ck)
  case (Cons r rs)
  from Cons.prems(1) obtain e' out d1 i where
    "ingest_and_evaluate E dl (clk 0) t e' d = (Inr out, d1)"
    "process_records E dl (\<lambda>i. clk (Suc i)) t rs (n + int (length out)) (i + 1) d1
       (Some (checkpoint_text (i + 1))) = (Inr (n', next'), d', ck')"
    by (auto split: sum.splits prod.splits)
  with Cons.IH [of "\<lambda>i. clk (Suc i)"] ingest_keeps_known Cons.prems(2) show ?case by metis
qed simp

text \<open>What a run that returned has done: every record is known, and its cases are counted.\<close>

lemma process_success:
  assumes "process_records E dl clk t rs n next d ck = (Inr (n', next'), d', ck')" "events_ok d"
  shows "(\<forall>r \<in> set rs. known_record E t d' r) \<and> n' = n + sum_list (map (record_cases t d') rs)
    \<and> next' = end_offset next rs \<and> ck' = end_checkpoint ck rs \<and> (rs \<noteq> [] \<longrightarrow> dl \<noteq> Postgres \<or> tenant_accepted E t)"
  using assms
proof (induction rs arbitrary: clk n "next" d ck)
  case (Cons r rs)
  from Cons.prems(1) obtain e out d1 i where
    r: "record_event r = Inr e" "ingest_and_evaluate E dl (clk 0) t e d = (Inr out, d1)"
      "bind_res (jget (lit ''offset'') r) json_int = Inr i"
    and p: "process_records E dl (\<lambda>i. clk (Suc i)) t rs (n + int (length out)) (i + 1) d1
       (Some (checkpoint_text (i + 1))) = (Inr (n', next'), d', ck')"
    by (auto simp: record_event_def split: sum.splits prod.splits)
  note k = ingest_makes_known [OF r(2) Cons.prems(2)]
  note ih = Cons.IH [OF p k(3)]
  have kd: "known_event t d' e" "stored_reports t (ev_event_id e) d' = out"
    using process_keeps_known [OF p k(1)] k(2) by auto
  have "known_record E t d' r" using r k(4) kd(1) by (auto simp: known_record_def)
  moreover have "record_cases t d' r = int (length out)" "record_offset r = i"
    using r kd(2) by (simp_all add: record_cases_def record_offset_def)
  ultimately show ?case using ih k(5) by simp
qed simp

lemma checkpoint_written: "checkpoint E (Some (checkpoint_text n)) = Inr n"
proof -
  have "loads E (checkpoint_text n @ []) = Inr (JObj [(lit ''next_offset'', JInt n)])"
    unfolding checkpoint_text_def
    by (rule loads_pdump [of _ plain_text]) (simp_all add: plain_text_def lit_def)
  then show ?thesis by (simp add: checkpoint_def)
qed

section \<open>Properties\<close>

text \<open>
  C14: What is appended is read back.  Appending events to a stream that does not exist succeeds, one
  record for each event; reading from any offset returns the records from that offset on, their
  events are the appended ones in order, with sorted payload keys, and \<^verbatim>\<open>verify\<close> accepts the stream.
\<close>

theorem stream_roundtrip:
  assumes "wf_events E xs"
  shows "\<exists>rs file. stream_appends E xs None = Inr (rs, file) \<and> length rs = length xs
    \<and> (\<forall>k. read_from E file (int k) = Inr (map jnorm (drop k rs)))
    \<and> map_res record_event (map jnorm rs) = Inr (map (norm_event \<circ> snd) xs)
    \<and> stream_verify E file = Inr (True, int (length xs), JNull)"
proof -
  have "stream_verify E (stream_file E xs) = Inr (True, int (length xs), JNull)"
    using read_stream_file [OF assms, of 0] verify_stream_records [OF assms, of genesis 0]
    by (simp add: stream_verify_def)
  then show ?thesis
    using stream_appends_None [OF assms] read_stream_file [OF assms] stream_record_events [OF assms]
    by fastforce
qed

text \<open>
  Tampering with the stream is detected.  If \<^verbatim>\<open>verify\<close> accepts two files, with equally many records
  and the same hash in their last records, then all their records are the same up to the order of
  keys; or two different texts that were hashed have the same digest.
\<close>

theorem stream_tamper_evident:
  assumes "env_law E"
    and "read_from E f 0 = Inr rs" "read_from E g 0 = Inr ss" "rs \<noteq> []" "length rs = length ss"
    and "stream_verify E f = Inr (True, m, h)" "stream_verify E g = Inr (True, n, k)"
    and "jget (lit ''record_hash'') (last rs) = jget (lit ''record_hash'') (last ss)"
  shows "map canonical_json rs = map canonical_json ss
    \<or> (\<exists>r \<in> set rs. \<exists>s \<in> set ss. record_bytes r \<noteq> record_bytes s
         \<and> sha256_hex E (record_bytes r) = sha256_hex E (record_bytes s))"
proof -
  have fl: "float_law E" using assms(1) by (simp add: env_law_def)
  note wf = read_from_wf [OF fl assms(2)] read_from_wf [OF fl assms(3)]
  have c: "chained stream_link stream_seal (record_intact E) genesis rs"
    "chained stream_link stream_seal (record_intact E) genesis ss"
    using assms verify_records_chained wf by (auto simp: stream_verify_def bind_res_Inr)
  have "stream_seal (last rs) = stream_seal (last ss)"
    using assms(8) by (simp add: text_field_def)
  from stream_log.same_head [OF assms(5) c assms(4) this]
  consider (eq) "map record_bytes rs = map record_bytes ss" | (clash) "stream_log.colliding E rs ss" by blast
  then show ?thesis
  proof cases
    case clash
    then show ?thesis unfolding stream_log.colliding_def by blast
  next
    case eq
    have "canonical_json (rs ! i) = canonical_json (ss ! i)" if "i < length rs" for i
    proof (rule record_reading [of E])
      show "record_intact E (rs ! i)" "record_intact E (ss ! i)"
        using that assms(5) chained_intact [OF c(1)] chained_intact [OF c(2)] by simp_all
      show "record_bytes (rs ! i) = record_bytes (ss ! i)"
        using that assms(5) arg_cong [OF eq, of "\<lambda>l. l ! i"] by simp
    qed
    then show ?thesis using assms(5) by (auto intro: nth_equalityI)
  qed
qed

text \<open>
  C15: A restart after a crash continues where the run stopped.  If a run over the records from a
  checkpoint on has ingested some of them, then a new run with that checkpoint, which ingests them
  again, ends as if it had gone on from where the first one stopped: the same database, the same
  counts and the same checkpoint.
\<close>

theorem resume_after_crash:
  assumes "checkpoint E ck = Inr start" and "read_from E file start = Inr (xs @ ys)"
    and "process_records E dl clk t xs 0 start d ck0 = (Inr (n, next), d1, ck1)"
    and "events_ok d" and "xs \<noteq> []"
  shows "process_available E dl clk' t None file d1 ck =
    (case process_records E dl (\<lambda>i. clk' (length xs + i)) t ys n next d1 (Some (checkpoint_text next)) of
       (Inl err, d', ck') \<Rightarrow> (Inl err, d', ck')
     | (Inr (cases, next'), d', ck') \<Rightarrow>
         (Inr \<lparr>pp_start_offset = start, pp_next_offset = next', pp_processed = int (length (xs @ ys)),
            pp_cases = cases\<rparr>, d', ck'))"
proof -
  note s = process_success [OF assms(3,4)]
  from s assms(5) have acc: "dl \<noteq> Postgres \<or> tenant_accepted E t" by blast
  from s have known: "\<forall>r \<in> set xs. known_record E t d1 r" by blast
  have e: "end_checkpoint ck xs = Some (checkpoint_text next)" "next = end_offset start xs"
    using s assms(5) by (simp_all add: end_checkpoint_def end_offset_def)
  have "n = 0 + sum_list (map (record_cases t d1) xs)" using s by simp
  with process_known [OF known acc, of clk' ys 0 start ck] e
  have "process_records E dl clk' t (xs @ ys) 0 start d1 ck =
      process_records E dl (\<lambda>i. clk' (length xs + i)) t ys n next d1 (Some (checkpoint_text next))" by simp
  then show ?thesis
    using assms(1,2) by (simp add: process_available_def)
qed

text \<open>
  Replaying a stream changes nothing.  After a run over the whole stream, \<^verbatim>\<open>replay\<close> processes every
  record again and returns the same report, the database stays as it is, and the checkpoint is again
  behind the last record.
\<close>

theorem replay_changes_nothing:
  assumes "process_available E dl clk t None file d None = (Inr rep, d1, ck)" and "events_ok d"
  shows "replay_stream E dl clk' t file d1 = (Inr rep, d1, Some (checkpoint_text (pp_next_offset rep)))"
proof -
  from assms(1) obtain rs n "next" where rs: "read_from E file 0 = Inr rs"
    and p: "process_records E dl clk t rs 0 0 d None = (Inr (n, next), d1, ck)"
    and rep: "rep = \<lparr>pp_start_offset = 0, pp_next_offset = next, pp_processed = int (length rs), pp_cases = n\<rparr>"
    by (auto simp: process_available_def checkpoint_def bind_res_Inr split: sum.splits prod.splits)
  note s = process_success [OF p assms(2)]
  have "process_records E dl clk' t rs 0 0 d1 (Some (checkpoint_text 0)) =
      (Inr (n, next), d1, Some (checkpoint_text next))"
  proof (cases "rs = []")
    case True
    with s show ?thesis by simp
  next
    case False
    with s have "dl \<noteq> Postgres \<or> tenant_accepted E t" "\<forall>r \<in> set rs. known_record E t d1 r" by blast+
    from process_known [OF this(2,1), of clk' "[]" 0 0 "Some (checkpoint_text 0)"] s False show ?thesis
      by (simp add: end_checkpoint_def end_offset_def)
  qed
  then show ?thesis
    by (simp add: replay_stream_def process_available_def checkpoint_written rs rep)
qed

section \<open>Witnesses\<close>

lemma demo_wf_event: "wf_event E demo_event"
  by (simp add: wf_event_def demo_event_def)

lemma demo_norm_event: "norm_event demo_event = demo_event"
  by (simp add: norm_event_def demo_event_def)

definition demo_entries :: "(pystr \<times> control_event) list" where
  "demo_entries = [(lit ''t1'', demo_event), (lit ''t2'', demo_event\<lparr>ev_event_id := lit ''e2''\<rparr>)]"

lemma demo_wf_entries: "wf_events E demo_entries"
  by (simp add: demo_entries_def wf_event_def demo_event_def)

lemma stream_roundtrip_witness:
  "\<exists>rs file. stream_appends demo_env demo_entries None = Inr (rs, file)
     \<and> read_from demo_env file 1 = Inr (map jnorm (drop 1 rs))
     \<and> stream_verify demo_env file = Inr (True, 2, JNull)"
proof -
  from stream_roundtrip [OF demo_wf_entries [of demo_env]] obtain rs f where
    "stream_appends demo_env demo_entries None = Inr (rs, f)"
    "read_from demo_env f (int 1) = Inr (map jnorm (drop 1 rs))"
    "stream_verify demo_env f = Inr (True, int (length demo_entries), JNull)" by blast
  then show ?thesis by (simp add: demo_entries_def)
qed

lemma demo_stream_read:
  "read_from demo_env (stream_file demo_env demo_entries) 0 = Inr (map jnorm (stream_records demo_env demo_entries 0 genesis))"
  "stream_verify demo_env (stream_file demo_env demo_entries) = Inr (True, 2, JNull)"
  using read_stream_file [OF demo_wf_entries [of demo_env], of 0]
    verify_stream_records [OF demo_wf_entries [of demo_env], of genesis 0]
  by (simp_all add: stream_verify_def) (simp add: demo_entries_def)

lemma stream_tamper_evident_witness:
  "\<exists>rs. read_from demo_env (stream_file demo_env demo_entries) 0 = Inr rs \<and> length rs = 2
     \<and> (map canonical_json rs = map canonical_json rs
        \<or> (\<exists>r \<in> set rs. \<exists>s \<in> set rs. record_bytes r \<noteq> record_bytes s
             \<and> sha256_hex demo_env (record_bytes r) = sha256_hex demo_env (record_bytes s)))"
proof -
  let ?rs = "map jnorm (stream_records demo_env demo_entries 0 genesis)"
  have "?rs \<noteq> []" "length ?rs = 2" by (simp_all add: demo_entries_def)
  with stream_tamper_evident [OF demo_env_law demo_stream_read(1) demo_stream_read(1) _ refl
      demo_stream_read(2) demo_stream_read(2) refl] demo_stream_read(1)
  show ?thesis by blast
qed

text \<open>A stream with one event, processed into an empty database.\<close>

lemma demo_stream_process:
  "\<exists>rec n d1. read_from demo_env (stream_file demo_env [(lit ''t1'', demo_event)]) 0 = Inr [rec]
     \<and> process_records demo_env Sqlite (\<lambda>_. demo_clock) (lit ''acme'') [rec] 0 0 empty_db None =
         (Inr (n, 1), d1, Some (checkpoint_text 1))"
proof -
  have wf: "wf_events demo_env [(lit ''t1'', demo_event)]" by (simp add: demo_wf_event)
  let ?r = "stream_record demo_env (lit ''t1'') demo_event 0 genesis"
  obtain out d1 where i: "ingest_and_evaluate demo_env Sqlite demo_clock (lit ''acme'') demo_event empty_db = (Inr out, d1)"
    using demo_event_ingested by blast
  have "process_records demo_env Sqlite (\<lambda>_. demo_clock) (lit ''acme'') [jnorm ?r] 0 0 empty_db None =
         (Inr (int (length out), 1), d1, Some (checkpoint_text 1))"
    using i stream_record_fields(2,5) [of demo_env demo_event "lit ''t1''" 0 genesis] demo_wf_event
    by (simp add: event_of_json_dict demo_norm_event)
  then show ?thesis using read_stream_file [OF wf, of 0] by auto
qed

lemma resume_after_crash_witness:
  "\<exists>file rep d1 n. process_available demo_env Sqlite (\<lambda>_. demo_clock) (lit ''acme'') None file d1 None = (Inr rep, d1, Some (checkpoint_text 1))
     \<and> pp_processed rep = 1 \<and> pp_cases rep = n \<and> pp_next_offset rep = 1"
proof -
  from demo_stream_process obtain rec n d1 where r:
    "read_from demo_env (stream_file demo_env [(lit ''t1'', demo_event)]) 0 = Inr ([rec] @ [])"
    "process_records demo_env Sqlite (\<lambda>_. demo_clock) (lit ''acme'') [rec] 0 0 empty_db None =
         (Inr (n, 1), d1, Some (checkpoint_text 1))" by auto
  have "checkpoint demo_env None = Inr 0" by (simp add: checkpoint_def)
  from resume_after_crash [OF this r events_ok_empty, of "\<lambda>_. demo_clock"] show ?thesis by fastforce
qed

lemma replay_changes_nothing_witness:
  "\<exists>file rep d1. replay_stream demo_env Sqlite (\<lambda>_. demo_clock) (lit ''acme'') file d1 = (Inr rep, d1, Some (checkpoint_text 1))
     \<and> pp_processed rep = 1"
proof -
  let ?f = "stream_file demo_env [(lit ''t1'', demo_event)]"
  from demo_stream_process obtain rec n d1 where r: "read_from demo_env ?f 0 = Inr [rec]"
    "process_records demo_env Sqlite (\<lambda>_. demo_clock) (lit ''acme'') [rec] 0 0 empty_db None =
         (Inr (n, 1), d1, Some (checkpoint_text 1))" by blast
  let ?rep = "\<lparr>pp_start_offset = 0, pp_next_offset = 1, pp_processed = 1, pp_cases = n\<rparr>"
  have "process_available demo_env Sqlite (\<lambda>_. demo_clock) (lit ''acme'') None ?f empty_db None = (Inr ?rep, d1, Some (checkpoint_text 1))"
    using r by (simp add: process_available_def checkpoint_def del: process_records.simps)
  from replay_changes_nothing [OF this events_ok_empty, of "\<lambda>_. demo_clock"] show ?thesis
    by (intro exI [of _ ?f] exI [of _ ?rep] exI [of _ d1]) simp
qed

end
