(* ===== verification/Observability.thy ===== *)
theory Observability
  imports Object_Store Event_Stream
begin

text \<open>
  \<^verbatim>\<open>observability.py\<close> and the middleware that feeds it: log records as lines of JSON, and the request
  counters with their labels.  Floating point durations, the digits of Unicode and the trace context are
  parameters.
\<close>

section \<open>Log records\<close>

record log_record =
  lr_timestamp :: pystr
  lr_level :: pystr
  lr_logger :: pystr
  lr_message :: pystr
  lr_extra :: "(pystr \<times> json) list"

definition log_fields :: "pystr list" where
  "log_fields = map lit [''request_id'', ''method'', ''path'', ''status_code'', ''duration_ms'', ''tenant_id'']"

text \<open>\<^verbatim>\<open>getattr(record, field, None)\<close> for an attribute that the caller's \<^verbatim>\<open>extra\<close> sets.\<close>

definition extra_fields :: "log_record \<Rightarrow> (pystr \<times> json) list" where
  "extra_fields r = concat (map (\<lambda>f. case map_of (lr_extra r) f of
     None \<Rightarrow> [] | Some v \<Rightarrow> if v = JNull then [] else [(f, v)]) log_fields)"

definition log_payload :: "(pystr \<times> pystr) option \<Rightarrow> log_record \<Rightarrow> (pystr \<times> json) list" where
  "log_payload trace r =
     [(lit ''timestamp'', JStr (lr_timestamp r)), (lit ''level'', JStr (lr_level r)),
      (lit ''logger'', JStr (lr_logger r)), (lit ''message'', JStr (lr_message r))] @ extra_fields r
     @ (case trace of None \<Rightarrow> [] | Some (trace_id, span_id) \<Rightarrow>
          [(lit ''trace_id'', JStr trace_id), (lit ''span_id'', JStr span_id)])"

definition format_record :: "(pystr \<times> pystr) option \<Rightarrow> log_record \<Rightarrow> pystr" where
  "format_record trace r = dump (JObj (log_payload trace r))"

section \<open>Counters\<close>

text \<open>Floating point numbers: zero, addition, the digits of \<^verbatim>\<open>:.6f\<close>, and the digits of Unicode.\<close>

record 'f metric_lib =
  fm_zero :: 'f
  fm_add :: "'f \<Rightarrow> 'f \<Rightarrow> 'f"
  fm_six :: "'f \<Rightarrow> pystr"
  fm_digit :: "int \<Rightarrow> bool"

record 'f metrics =
  mt_requests :: "((pystr \<times> pystr \<times> int) \<times> int) list"
  mt_durations :: "((pystr \<times> pystr) \<times> 'f) list"

definition no_metrics :: "'f metrics" where
  "no_metrics = \<lparr>mt_requests = [], mt_durations = []\<rparr>"

definition normal_segment :: "'f metric_lib \<Rightarrow> pystr \<Rightarrow> pystr" where
  "normal_segment L s = (if s \<noteq> [] \<and> list_all (fm_digit L) s \<or> length s = 36 then lit ''{id}'' else s)"

definition normal_path :: "'f metric_lib \<Rightarrow> pystr \<Rightarrow> pystr" where
  "normal_path L path = 47 # py_join [47] (map (normal_segment L) (py_split 47 (py_strip_char 47 path)))"

text \<open>\<^verbatim>\<open>counter[key] += x\<close>.\<close>

definition counter_add :: "('b \<Rightarrow> 'b \<Rightarrow> 'b) \<Rightarrow> 'b \<Rightarrow> 'a \<Rightarrow> 'b \<Rightarrow> ('a \<times> 'b) list \<Rightarrow> ('a \<times> 'b) list" where
  "counter_add add zero key x c = dict_put key (add (case map_of c key of None \<Rightarrow> zero | Some y \<Rightarrow> y) x) c"

definition observe_request ::
  "'f metric_lib \<Rightarrow> pystr \<Rightarrow> pystr \<Rightarrow> int \<Rightarrow> 'f \<Rightarrow> 'f metrics \<Rightarrow> 'f metrics" where
  "observe_request L verb path status duration m = (let route = normal_path L path in
     m\<lparr>mt_requests := counter_add (+) 0 (verb, route, status) 1 (mt_requests m),
       mt_durations := counter_add (fm_add L) (fm_zero L) (verb, route) duration (mt_durations m)\<rparr>)"

definition request_line :: "(pystr \<times> pystr \<times> int) \<times> int \<Rightarrow> pystr" where
  "request_line x = (case x of ((verb, route, status), n) \<Rightarrow>
     lit ''flagship_http_requests_total{method='' @ [34] @ verb @ [34] @ lit '',route='' @ [34] @ route @ [34]
     @ lit '',status='' @ [34] @ str_of_int status @ [34] @ lit ''} '' @ str_of_int n)"

definition duration_line :: "'f metric_lib \<Rightarrow> (pystr \<times> pystr) \<times> 'f \<Rightarrow> pystr" where
  "duration_line L x = (case x of ((verb, route), duration) \<Rightarrow>
     lit ''flagship_http_request_duration_seconds_sum{method='' @ [34] @ verb @ [34] @ lit '',route='' @ [34] @ route @ [34]
     @ lit ''} '' @ fm_six L duration)"

definition render :: "'f metric_lib \<Rightarrow> 'f metrics \<Rightarrow> pystr" where
  "render L m = py_join [10]
     ([lit ''# HELP flagship_http_requests_total HTTP requests.'', lit ''# TYPE flagship_http_requests_total counter'']
      @ map request_line (sort_key fst (mt_requests m))
      @ [lit ''# HELP flagship_http_request_duration_seconds_sum Cumulative request duration.'',
         lit ''# TYPE flagship_http_request_duration_seconds_sum counter'']
      @ map (duration_line L) (sort_key fst (mt_durations m))) @ [10]"

section \<open>Routes\<close>

lemma normal_segment_idem: "\<not> fm_digit L 123 \<Longrightarrow> normal_segment L (normal_segment L s) = normal_segment L s"
  by (simp add: normal_segment_def lit_def)

lemma normal_segment_ok: "47 \<notin> set s \<Longrightarrow> 47 \<notin> set (normal_segment L s)" "normal_segment L s = [] \<longleftrightarrow> s = []"
  by (auto simp: normal_segment_def lit_def)

lemma split_no_char: "x \<in> set (py_split c s) \<Longrightarrow> c \<notin> set x"
  by (induction s arbitrary: x) (auto split: if_splits list.splits)

lemma hd_join: "xs \<noteq> [] \<Longrightarrow> hd xs \<noteq> [] \<Longrightarrow> py_join sep xs \<noteq> [] \<and> hd (py_join sep xs) = hd (hd xs)"
  by (cases xs) (auto simp: py_join_Cons)

lemma last_join: "xs \<noteq> [] \<Longrightarrow> last xs \<noteq> [] \<Longrightarrow> py_join sep xs \<noteq> [] \<and> last (py_join sep xs) = last (last xs)"
  by (induction xs) (auto simp: py_join_Cons)

lemma hd_split: "s \<noteq> [] \<Longrightarrow> hd s \<noteq> c \<Longrightarrow> hd (py_split c s) \<noteq> []"
  by (cases s) (auto split: list.splits)

lemma last_split: "s \<noteq> [] \<Longrightarrow> last s \<noteq> c \<Longrightarrow> last (py_split c s) \<noteq> []"
  by (induction s) (auto split: list.splits if_splits)

lemma last_member: "xs \<noteq> [] \<Longrightarrow> c \<notin> set (last xs) \<Longrightarrow> last xs \<noteq> [] \<Longrightarrow> last (last xs) \<noteq> c"
  by (metis last_in_set)

text \<open>Stripping the slash that a normal path begins with gives its segments back.\<close>

lemma split_normal_path:
  "py_split 47 (py_strip_char 47 (normal_path L path)) = map (normal_segment L) (py_split 47 (py_strip_char 47 path))"
proof -
  let ?b = "py_strip_char 47 path"
  let ?n = "map (normal_segment L) (py_split 47 ?b)"
  let ?j = "py_join [47] ?n"
  have clean: "\<forall>x \<in> set ?n. 47 \<notin> set x" using normal_segment_ok(1) [OF split_no_char] by auto
  have ne: "?n \<noteq> []" by simp
  have "py_strip_char 47 (47 # ?j) = ?j"
  proof (cases "?b = []")
    case True
    then have "?j = []" by (simp add: normal_segment_ok(2) del: py_join.simps(3))
    then show ?thesis by (simp add: py_strip_char_def del: map_eq_Cons_conv)
  next
    case False
    with strip_ends [OF False] have "hd (py_split 47 ?b) \<noteq> []" "last (py_split 47 ?b) \<noteq> []"
      by (simp_all add: hd_split last_split)
    then have e: "hd ?n \<noteq> []" "last ?n \<noteq> []"
      by (simp_all add: hd_map last_map normal_segment_ok(2))
    have "47 \<notin> set (hd ?n)" "47 \<notin> set (last ?n)" using clean hd_in_set [OF ne] last_in_set [OF ne] by blast+
    with hd_in_set [OF e(1)] last_in_set [OF e(2)] have "hd (hd ?n) \<noteq> 47 \<and> last (last ?n) \<noteq> 47" by metis
    then have "?j \<noteq> []" "hd ?j \<noteq> 47" "last ?j \<noteq> 47"
      using hd_join [OF ne e(1), of "[47]"] last_join [OF ne e(2), of "[47]"] by (blast, metis, metis)
    then have "py_strip_char 47 ?j = ?j" by (rule strip_id)
    then show ?thesis by (simp add: py_strip_char_def)
  qed
  then show ?thesis using py_split_join [OF ne clean] by (simp add: normal_path_def)
qed

text \<open>Normalising a path again changes nothing, so that a route has one label.\<close>

lemma normal_path_idem: "\<not> fm_digit L 123 \<Longrightarrow> normal_path L (normal_path L path) = normal_path L path"
  by (subst (1) normal_path_def) (simp add: split_normal_path o_def normal_segment_idem, simp add: normal_path_def)

section \<open>Counting\<close>

text \<open>The requests that were observed: method, path, status and duration.\<close>

type_synonym 'f observation = "pystr \<times> pystr \<times> int \<times> 'f"

definition observe_all :: "'f metric_lib \<Rightarrow> 'f observation list \<Rightarrow> 'f metrics \<Rightarrow> 'f metrics" where
  "observe_all L = fold (\<lambda>(verb, path, status, duration). observe_request L verb path status duration)"

definition label_of :: "'f metric_lib \<Rightarrow> 'f observation \<Rightarrow> pystr \<times> pystr \<times> int" where
  "label_of L x = (case x of (verb, path, status, duration) \<Rightarrow> (verb, normal_path L path, status))"

lemma map_of_counter_add: "map_of (counter_add add zero k x c) k' =
    (if k' = k then Some (add (case map_of c k of None \<Rightarrow> zero | Some y \<Rightarrow> y) x) else map_of c k')"
  by (simp add: counter_add_def map_of_dict_put)

lemma distinct_counter_add: "distinct (map fst c) \<Longrightarrow> distinct (map fst (counter_add add zero k x c))"
  by (simp add: counter_add_def distinct_dict_put)

definition counted :: "'f metrics \<Rightarrow> pystr \<times> pystr \<times> int \<Rightarrow> int" where
  "counted m k = (case map_of (mt_requests m) k of None \<Rightarrow> 0 | Some n \<Rightarrow> n)"

lemma counted_observe: "counted (observe_request L verb path status duration m) k
    = counted m k + (if k = (verb, normal_path L path, status) then 1 else 0)"
  by (simp add: counted_def observe_request_def Let_def map_of_counter_add)

lemma counted_all: "counted (observe_all L xs m) k = counted m k + int (count_list (map (label_of L) xs) k)"
  by (induction xs arbitrary: m) (auto simp: observe_all_def counted_observe label_of_def)

lemma distinct_all: "distinct (map fst (mt_requests m)) \<Longrightarrow> distinct (map fst (mt_requests (observe_all L xs m)))"
  by (induction xs arbitrary: m) (auto simp: observe_all_def observe_request_def Let_def distinct_counter_add)

lemma keys_observe: "fst ` set (mt_requests (observe_request L verb path status duration m))
    = insert (verb, normal_path L path, status) (fst ` set (mt_requests m))"
  by (simp add: observe_request_def Let_def counter_add_def keys_dict_put)

lemma keys_all: "fst ` set (mt_requests (observe_all L xs m)) = fst ` set (mt_requests m) \<union> set (map (label_of L) xs)"
proof (induction xs arbitrary: m)
  case (Cons x xs)
  obtain verb path status duration where x: "x = (verb, path, status, duration)" by (cases x)
  have e: "observe_all L (x # xs) m = observe_all L xs (observe_request L verb path status duration m)"
    by (simp add: observe_all_def x)
  show ?case unfolding e Cons.IH keys_observe by (simp add: x label_of_def)
qed (simp add: observe_all_def)

lemma items_by_key:
  assumes "distinct (map fst c)"
  shows "sort_key fst c = map (\<lambda>k. (k, the (map_of c k))) (sort (map fst c))"
proof -
  have "sort (map fst c) = map fst (sort_key fst c)"
    by (rule map_sorted_distinct_set_unique [of id, simplified])
      (use assms in \<open>simp_all add: distinct_map\<close>)
  moreover have "the (map_of c (fst x)) = snd x" if "x \<in> set c" for x
    using that assms by (metis map_of_is_SomeI option.sel prod.collapse)
  then have "map (\<lambda>x. (fst x, the (map_of c (fst x)))) (sort_key fst c) = sort_key fst c"
    by (intro map_idI) auto
  ultimately show ?thesis by (simp add: o_def)
qed

lemma counted_items:
  "sort_key fst (mt_requests (observe_all L xs no_metrics)) =
     map (\<lambda>k. (k, int (count_list (map (label_of L) xs) k))) (sort (remdups (map (label_of L) xs)))"
proof -
  let ?c = "mt_requests (observe_all L xs no_metrics)" and ?ls = "map (label_of L) xs"
  have d: "distinct (map fst ?c)" by (rule distinct_all) (simp add: no_metrics_def)
  have k: "set (map fst ?c) = set ?ls" using keys_all [of L xs no_metrics] by (simp add: no_metrics_def)
  have "sort (map fst ?c) = sort (remdups ?ls)"
    using d k by (intro sorted_distinct_set_unique) simp_all
  moreover have "the (map_of ?c k) = int (count_list ?ls k)" if "k \<in> set ?ls" for k
  proof -
    from that k have "k \<in> fst ` set ?c" by simp
    then obtain n where "map_of ?c k = Some n" by (cases "map_of ?c k") (auto simp: map_of_eq_None_iff)
    then show ?thesis using counted_all [of L xs no_metrics k] by (simp add: counted_def no_metrics_def)
  qed
  ultimately show ?thesis unfolding items_by_key [OF d] by simp
qed

text \<open>
  The counters count.  After any sequence of requests the rendered metrics have, in the order of
  their labels, exactly one line for every method, normal path and status that was observed, with the
  number of requests observed under it.
\<close>

theorem rendered_counts:
  "render L (observe_all L xs no_metrics) = py_join [10]
     ([lit ''# HELP flagship_http_requests_total HTTP requests.'', lit ''# TYPE flagship_http_requests_total counter'']
      @ map (\<lambda>k. request_line (k, int (count_list (map (label_of L) xs) k))) (sort (remdups (map (label_of L) xs)))
      @ [lit ''# HELP flagship_http_request_duration_seconds_sum Cumulative request duration.'',
         lit ''# TYPE flagship_http_request_duration_seconds_sum counter'']
      @ map (duration_line L) (sort_key fst (mt_durations (observe_all L xs no_metrics)))) @ [10]"
  by (simp add: render_def counted_items o_def)

section \<open>Lines\<close>

lemma extra_names: "map fst (extra_fields r) = filter (\<lambda>f. \<exists>v. map_of (lr_extra r) f = Some v \<and> v \<noteq> JNull) log_fields"
proof -
  have "map fst (concat (map (\<lambda>f. case map_of (lr_extra r) f of None \<Rightarrow> [] | Some v \<Rightarrow> if v = JNull then [] else [(f, v)]) fs))
      = filter (\<lambda>f. \<exists>v. map_of (lr_extra r) f = Some v \<and> v \<noteq> JNull) fs" for fs
    by (induction fs) (auto split: option.splits)
  then show ?thesis by (simp add: extra_fields_def)
qed

lemma extra_values: "(k, v) \<in> set (extra_fields r) \<Longrightarrow> (k, v) \<in> set (lr_extra r)"
  by (auto simp: extra_fields_def split: option.splits if_splits dest!: map_of_SomeD [OF sym])

lemma wf_log_payload:
  assumes "\<forall>(k, v) \<in> set (lr_extra r). wf_json E v"
  shows "wf_json E (JObj (log_payload trace r))"
proof -
  have "distinct log_fields" by (simp add: log_fields_def)
  then have d: "distinct (map fst (extra_fields r))" unfolding extra_names by simp
  have s: "fst ` set (extra_fields r) \<subseteq> set log_fields" using arg_cong [OF extra_names, of set] by auto
  have n: "set log_fields \<inter> {lit ''timestamp'', lit ''level'', lit ''logger'', lit ''message'', lit ''trace_id'', lit ''span_id''} = {}"
    by (simp add: log_fields_def)
  have "distinct (map fst (log_payload trace r))"
    using d s n by (cases trace) (auto simp: log_payload_def)
  moreover have "\<forall>(k, v) \<in> set (log_payload trace r). wf_json E v"
    using assms extra_values by (cases trace) (auto simp: log_payload_def)
  ultimately show ?thesis by auto
qed

text \<open>
  A log record is one line of JSON.  Whatever the message, the path and the other fields of a record
  hold, its line contains no line break, so that no request can forge a record, and it is read
  back as exactly the fields of the record.
\<close>

theorem format_record_line:
  assumes "env_law E" and "\<forall>(k, v) \<in> set (lr_extra r). wf_json E v"
  shows "10 \<notin> set (format_record trace r) \<and> 13 \<notin> set (format_record trace r)
    \<and> loads E (format_record trace r) = Inr (JObj (log_payload trace r))"
  using printable_dump [OF wf_log_payload [OF assms(2), of trace]] loads_dump [OF wf_log_payload [OF assms(2), of trace]]
  by (auto simp: format_record_def printable_def)

lemma format_record_line_witness:
  "loads demo_env (format_record None \<lparr>lr_timestamp = lit ''t'', lr_level = lit ''INFO'', lr_logger = lit ''flagship.request'',
      lr_message = [34, 10, 123], lr_extra = [(lit ''path'', JStr [47, 10])]\<rparr>)
    = Inr (JObj [(lit ''timestamp'', JStr (lit ''t'')), (lit ''level'', JStr (lit ''INFO'')),
        (lit ''logger'', JStr (lit ''flagship.request'')), (lit ''message'', JStr [34, 10, 123]), (lit ''path'', JStr [47, 10])])"
  using format_record_line [OF demo_env_law, of "\<lparr>lr_timestamp = lit ''t'', lr_level = lit ''INFO'',
      lr_logger = lit ''flagship.request'', lr_message = [34, 10, 123], lr_extra = [(lit ''path'', JStr [47, 10])]\<rparr>" None]
  by (simp add: log_payload_def extra_fields_def log_fields_def)

section \<open>The middleware\<close>

text \<open>
  What \<^verbatim>\<open>request_trace\<close> adds to a response: \<open>fresh\<close> is \<^verbatim>\<open>uuid4().hex\<close>, \<open>server_timing\<close> the text \<^verbatim>\<open>app;dur=...\<close> and
  \<open>rounded\<close> the milliseconds of the log record.
\<close>

definition request_id_of :: "pystr option \<Rightarrow> pystr \<Rightarrow> pystr" where
  "request_id_of header fresh = (case header of Some (c # cs) \<Rightarrow> c # cs | _ \<Rightarrow> fresh)"

definition trace_headers :: "pystr \<Rightarrow> pystr \<Rightarrow> (pystr \<times> pystr) list" where
  "trace_headers request_id server_timing =
     [(lit ''X-Request-ID'', request_id), (lit ''Server-Timing'', server_timing), (lit ''X-Content-Type-Options'', lit ''nosniff''),
      (lit ''X-Frame-Options'', lit ''DENY''), (lit ''Referrer-Policy'', lit ''no-referrer''), (lit ''Cache-Control'', lit ''no-store'')]"

definition request_trace ::
  "'f metric_lib \<Rightarrow> pystr option \<Rightarrow> pystr \<Rightarrow> pystr \<Rightarrow> pystr \<Rightarrow> int \<Rightarrow> 'f \<Rightarrow> pystr \<Rightarrow> json \<Rightarrow> (pystr \<times> pystr) list
     \<Rightarrow> 'f metrics \<Rightarrow> (pystr \<times> pystr) list \<times> (pystr \<times> json) list \<times> 'f metrics" where
  "request_trace L header fresh verb path status duration server_timing rounded headers m =
     (let request_id = request_id_of header fresh in
      (fold (\<lambda>(k, v). dict_put k v) (trace_headers request_id server_timing) headers,
       [(lit ''request_id'', JStr request_id), (lit ''method'', JStr verb), (lit ''path'', JStr path),
        (lit ''status_code'', JInt status), (lit ''duration_ms'', rounded)],
       observe_request L verb path status duration m))"

end
