(* ===== verification/Preflight.thy ===== *)
theory Preflight
  imports Py_Bytes Py_Dict
begin

text \<open>
  \<^verbatim>\<open>preflight.py\<close>: the checks before a production deployment accepts requests.  The answers of
  PostgreSQL's catalogue are a parameter; what is shown is what a passed preflight says of the role,
  the schema and the tables.
\<close>

section \<open>Strict base64\<close>

text \<open>
  \<^verbatim>\<open>base64.b64decode(s, validate=True)\<close>: as \<open>b64_scan\<close>, but a character outside the alphabet, data after
  the padding, or padding at the beginning raises.
\<close>

fun b64_strict_scan :: "bool \<Rightarrow> int \<Rightarrow> int \<Rightarrow> int \<Rightarrow> pystr \<Rightarrow> bytes option" where
  "b64_strict_scan padded q left pads [] = (if q = 0 then Some [] else None)"
| "b64_strict_scan padded q left pads (c # s) =
     (if c = 61 then
        (if 2 \<le> q \<and> 4 \<le> q + (pads + 1) then (if s = [] then Some [] else None)
         else b64_strict_scan True q left (if 2 \<le> q then pads + 1 else pads) s)
      else case b64_value c of
        None \<Rightarrow> None
      | Some v \<Rightarrow>
          if padded then None
          else if q = 0 then b64_strict_scan padded 1 v 0 s
          else if q = 1 then map_option ((#) (left * 4 + v div 16)) (b64_strict_scan padded 2 (v mod 16) 0 s)
          else if q = 2 then map_option ((#) (left * 16 + v div 4)) (b64_strict_scan padded 3 (v mod 4) 0 s)
          else map_option ((#) (left * 64 + v)) (b64_strict_scan padded 0 0 0 s))"

definition b64decode_strict :: "pystr \<Rightarrow> bytes option" where
  "b64decode_strict s = (if list_all (\<lambda>c. 0 \<le> c \<and> c < 128) s \<and> (s = [] \<or> hd s \<noteq> 61)
     then b64_strict_scan False 0 0 0 s else None)"

text \<open>What is decoded strictly is decoded leniently to the same bytes.\<close>

lemma b64_strict_scan_scan: "b64_strict_scan padded q left pads s = Some b \<Longrightarrow> b64_scan q left pads s = Some b"
  by (induction padded q left pads s arbitrary: b rule: b64_strict_scan.induct) (auto split: if_splits option.splits)

lemma b64_strict_decode: "b64decode_strict s = Some b \<Longrightarrow> b64decode s = Some b"
  by (auto simp: b64decode_strict_def b64decode_def b64_strict_scan_scan split: if_splits)

section \<open>The checks\<close>

definition expected_revision :: pystr where
  "expected_revision = lit ''20260812_0005''"

definition tenant_tables :: "pystr list" where
  "tenant_tables = map lit [''audit_events'', ''tax_transactions'', ''tax_rule_runs'', ''tax_findings'', ''tax_run_workflow'',
     ''regulation_documents'', ''control_events'', ''control_cases'', ''control_case_transitions'', ''graph_entities'',
     ''graph_edges'', ''idempotency_records'', ''outbox_events'', ''dead_letter_events'', ''consumer_receipts'']"

definition backup_key_check :: "pystr \<Rightarrow> unit res" where
  "backup_key_check encoded = (case b64decode_strict encoded of
     None \<Rightarrow> Inl (PreflightError (lit ''backup key must be valid base64''))
   | Some key \<Rightarrow> raise_if (length key \<noteq> 32) (PreflightError (lit ''backup key must decode to exactly 32 bytes'')))"

record pg_role =
  role_name :: pystr
  role_super :: bool
  role_bypass :: bool

record pg_table =
  pt_name :: pystr
  pt_owner :: pystr
  pt_rls :: bool
  pt_forced :: bool

text \<open>What connecting and the three queries of the catalogue give.\<close>

record pg_catalogue =
  pg_open :: "unit res"
  pg_role_row :: "pg_role res"
  pg_revision :: "pystr option res"
  pg_table_rows :: "pg_table list res"

definition tables_named :: "pg_table list \<Rightarrow> (pystr \<times> pg_table) list" where
  "tables_named rows = dict_of (map (\<lambda>r. (pt_name r, r)) rows)"

definition missing_tables :: "(pystr \<times> pg_table) list \<Rightarrow> pystr list" where
  "missing_tables tables = sort (filter (\<lambda>n. map_of tables n = None) tenant_tables)"

definition owned_tables :: "pystr \<Rightarrow> (pystr \<times> pg_table) list \<Rightarrow> pystr list" where
  "owned_tables role tables = filter (\<lambda>n. pt_owner (the (map_of tables n)) = role) tenant_tables"

definition unprotected_tables :: "(pystr \<times> pg_table) list \<Rightarrow> pystr list" where
  "unprotected_tables tables = sort (filter (\<lambda>n. case the (map_of tables n) of r \<Rightarrow> \<not> pt_rls r \<or> \<not> pt_forced r) tenant_tables)"

definition check_tables :: "pg_role \<Rightarrow> pg_table list \<Rightarrow> unit res" where
  "check_tables role rows = (let tables = tables_named rows; missing = missing_tables tables in
     bind_res (raise_if (missing \<noteq> []) (PreflightError (lit ''missing tenant tables: '' @ py_join (lit '', '') missing))) (\<lambda>_.
     bind_res (raise_if (owned_tables (role_name role) tables \<noteq> [])
        (PreflightError (lit ''request database role must not own tenant tables''))) (\<lambda>_.
     raise_if (unprotected_tables tables \<noteq> [])
        (PreflightError (lit ''tenant tables must enforce RLS: '' @ py_join (lit '', '') (unprotected_tables tables))))))"

definition check_settings :: "pystr \<Rightarrow> pystr \<Rightarrow> pystr \<Rightarrow> pystr \<Rightarrow> pystr \<Rightarrow> bool \<Rightarrow> unit res" where
  "check_settings database_url issuer audience jwks_url backup_key allow_dev_tokens =
     bind_res (raise_if (\<not> py_startswith database_url (lit ''postgresql+psycopg://''))
        (PreflightError (lit ''production database must use postgresql+psycopg''))) (\<lambda>_.
     bind_res (raise_if allow_dev_tokens (PreflightError (lit ''development token endpoint must be disabled''))) (\<lambda>_.
     bind_res (raise_if (\<not> py_startswith issuer (lit ''https://'') \<or> audience = [] \<or> \<not> py_startswith jwks_url (lit ''https://''))
        (PreflightError (lit ''production OIDC requires HTTPS issuer/JWKS and audience''))) (\<lambda>_.
     backup_key_check backup_key)))"

definition preflight_report :: "pystr \<Rightarrow> pystr \<Rightarrow> json" where
  "preflight_report user revision = JObj [(lit ''valid'', JBool True),
     (lit ''database'', JObj [(lit ''dialect'', JStr (lit ''postgresql'')), (lit ''user'', JStr user),
        (lit ''superuser'', JBool False), (lit ''bypass_rls'', JBool False), (lit ''owns_tenant_tables'', JBool False),
        (lit ''forced_rls_tables'', JInt (int (length tenant_tables)))]),
     (lit ''schema_revision'', JStr revision), (lit ''auth_mode'', JStr (lit ''oidc'')),
     (lit ''backup_key'', JStr (lit ''configured-32-bytes''))]"

definition run_preflight ::
  "pystr \<Rightarrow> pystr \<Rightarrow> pystr \<Rightarrow> pystr \<Rightarrow> pystr \<Rightarrow> bool \<Rightarrow> pg_catalogue \<Rightarrow> json res" where
  "run_preflight database_url issuer audience jwks_url backup_key allow_dev_tokens pg =
     bind_res (check_settings database_url issuer audience jwks_url backup_key allow_dev_tokens) (\<lambda>_.
     bind_res (pg_open pg) (\<lambda>_.
     bind_res (pg_role_row pg) (\<lambda>role.
     bind_res (raise_if (role_super role) (PreflightError (lit ''request database role must not be superuser''))) (\<lambda>_.
     bind_res (raise_if (role_bypass role) (PreflightError (lit ''request database role must be NOBYPASSRLS''))) (\<lambda>_.
     bind_res (pg_revision pg) (\<lambda>revision.
     bind_res (raise_if (revision \<noteq> Some expected_revision)
        (PreflightError (lit ''database schema must be at revision '' @ expected_revision))) (\<lambda>_.
     bind_res (pg_table_rows pg) (\<lambda>rows.
     bind_res (check_tables role rows) (\<lambda>_.
       Inr (preflight_report (role_name role) expected_revision))))))))))"

section \<open>What a passed preflight says\<close>

lemma tables_named_distinct: "distinct (map pt_name rows) \<Longrightarrow> tables_named rows = map (\<lambda>r. (pt_name r, r)) rows"
  by (simp add: tables_named_def dict_of_distinct o_def)

lemma named_table:
  "distinct (map pt_name rows) \<Longrightarrow> map_of (map (\<lambda>r. (pt_name r, r)) rows) n = Some r \<longleftrightarrow> r \<in> set rows \<and> pt_name r = n"
  by (induction rows) (auto simp: image_iff)

lemma check_settings_ok: "check_settings url issuer audience jwks key dev = Inr () \<longleftrightarrow>
    py_startswith url (lit ''postgresql+psycopg://'') \<and> \<not> dev \<and> py_startswith issuer (lit ''https://'') \<and> audience \<noteq> []
    \<and> py_startswith jwks (lit ''https://'') \<and> (\<exists>k. b64decode_strict key = Some k \<and> length k = 32)"
  by (auto simp: check_settings_def backup_key_check_def bind_res_Inr raise_if_Inr split: option.splits)

definition protected :: "pystr \<Rightarrow> pg_table \<Rightarrow> bool" where
  "protected role r \<longleftrightarrow> pt_owner r \<noteq> role \<and> pt_rls r \<and> pt_forced r"

lemma sort_empty: "sort xs = [] \<longleftrightarrow> xs = []"
  by (metis length_0_conv length_sort)

lemma check_tables_ok:
  assumes "distinct (map pt_name rows)"
  shows "check_tables role rows = Inr () \<longleftrightarrow>
    (\<forall>n \<in> set tenant_tables. \<exists>r \<in> set rows. pt_name r = n \<and> protected (role_name role) r)"
proof -
  let ?t = "map (\<lambda>r. (pt_name r, r)) rows"
  have "check_tables role rows = Inr () \<longleftrightarrow> (\<forall>n \<in> set tenant_tables. map_of ?t n \<noteq> None
      \<and> protected (role_name role) (the (map_of ?t n)))"
    by (auto simp: check_tables_def tables_named_distinct [OF assms] Let_def bind_res_Inr raise_if_Inr missing_tables_def
        owned_tables_def unprotected_tables_def sort_empty filter_empty_conv protected_def)
  also have "\<dots> \<longleftrightarrow> (\<forall>n \<in> set tenant_tables. \<exists>r. map_of ?t n = Some r \<and> protected (role_name role) r)"
    by (intro ball_cong refl) auto
  finally show ?thesis unfolding named_table [OF assms] by blast
qed

text \<open>
  C28: What a preflight passes.  It returns exactly if the settings are those of a production deployment
  (a PostgreSQL URL, no development tokens, an HTTPS issuer and key set, an audience, a 32-byte backup
  key), the database answers, the request role is no superuser and cannot bypass row-level security, the
  schema is at the expected revision, and every tenant table exists, belongs to another role and
  forces row-level security; its report names the role.
\<close>

theorem preflight_exact:
  assumes "\<And>rows. pg_table_rows pg = Inr rows \<Longrightarrow> distinct (map pt_name rows)"
  shows "run_preflight url issuer audience jwks key dev pg = Inr report \<longleftrightarrow>
    py_startswith url (lit ''postgresql+psycopg://'') \<and> \<not> dev \<and> py_startswith issuer (lit ''https://'') \<and> audience \<noteq> []
    \<and> py_startswith jwks (lit ''https://'') \<and> (\<exists>k. b64decode_strict key = Some k \<and> length k = 32)
    \<and> (\<exists>role rows. pg_open pg = Inr () \<and> pg_role_row pg = Inr role \<and> \<not> role_super role \<and> \<not> role_bypass role
         \<and> pg_revision pg = Inr (Some expected_revision) \<and> pg_table_rows pg = Inr rows
         \<and> (\<forall>n \<in> set tenant_tables. \<exists>r \<in> set rows. pt_name r = n \<and> protected (role_name role) r)
         \<and> report = preflight_report (role_name role) expected_revision)"
  using check_tables_ok [OF assms]
  by (auto simp: run_preflight_def bind_res_Inr raise_if_Inr check_settings_ok)

definition demo_pg :: pg_catalogue where
  "demo_pg = \<lparr>pg_open = Inr (), pg_role_row = Inr \<lparr>role_name = lit ''app'', role_super = False, role_bypass = False\<rparr>,
     pg_revision = Inr (Some expected_revision),
     pg_table_rows = Inr (map (\<lambda>n. \<lparr>pt_name = n, pt_owner = lit ''owner'', pt_rls = True, pt_forced = True\<rparr>) tenant_tables)\<rparr>"

lemma preflight_exact_witness:
  "run_preflight (lit ''postgresql+psycopg://db'') (lit ''https://id'') (lit ''api'') (lit ''https://id/keys'')
     (replicate 43 65 @ [61]) False demo_pg = Inr (preflight_report (lit ''app'') expected_revision)"
proof -
  have d: "distinct tenant_tables" by code_simp
  have k: "b64decode_strict (replicate 43 65 @ [61]) = Some (replicate 32 0)" by code_simp
  have "distinct (map pt_name rows)" if "pg_table_rows demo_pg = Inr rows" for rows
    using that d by (auto simp: demo_pg_def o_def)
  from preflight_exact [OF this, of demo_pg "lit ''postgresql+psycopg://db''" "lit ''https://id''" "lit ''api''" "lit ''https://id/keys''"
      "replicate 43 65 @ [61]" False "preflight_report (lit ''app'') expected_revision"]
  show ?thesis
    by (simp add: demo_pg_def protected_def k py_startswith_def) (simp add: lit_def)
qed

end
