(* ===== verification/Migrations.thy ===== *)
theory Migrations
  imports Preflight Core
begin

text \<open>
  The migrations of \<^verbatim>\<open>migrations/versions\<close> and \<^verbatim>\<open>migrations/env.py\<close>: the schema that a production database has,
  which the program's mapped classes have to fit and which the preflight inspects.  A revision is the
  list of the DDL statements that it issues; their effect is that of PostgreSQL on the definitions of
  the tables.  Rows, and SQLite's way of altering a table by copying it, are not modelled.
\<close>

section \<open>Tables and statements\<close>

datatype sql_type = Int_type | Text_type | Float_type | String_type int | Numeric_type int int

record column_def =
  cl_name :: pystr
  cl_type :: sql_type
  cl_null :: bool
  cl_default :: "pystr option"

record index =
  ix_name :: pystr
  ix_columns :: "pystr list"
  ix_unique :: bool

text \<open>
  A table: its columns, its primary key with the constraint's name, its unique constraints, its
  indexes, its foreign keys (a column, the table and the column it refers to), and its row-level security
  with the columns that each policy reads.
\<close>

record table_def =
  tb_name :: pystr
  tb_columns :: "column_def list"
  tb_key :: "pystr list"
  tb_key_name :: "pystr option"
  tb_uniques :: "pystr list list"
  tb_indexes :: "index list"
  tb_foreign :: "(pystr \<times> pystr \<times> pystr) list"
  tb_rls :: bool
  tb_forced :: bool
  tb_policies :: "(pystr \<times> pystr list) list"

type_synonym schema = "table_def list"

datatype ddl =
    Create_table table_def
  | Drop_table pystr
  | Add_column pystr column_def
  | Alter_type pystr pystr sql_type
  | Drop_column pystr pystr
  | Create_index pystr index
  | Drop_index pystr pystr
  | Drop_primary pystr pystr
  | Create_primary pystr pystr "pystr list"
  | Enable_rls pystr
  | Force_rls pystr
  | Disable_rls pystr
  | Create_policy pystr pystr "pystr list"
  | Drop_policy pystr pystr

datatype ddl_error =
    Duplicate_table pystr
  | Undefined_table pystr
  | Duplicate_column pystr pystr
  | Undefined_column pystr pystr
  | Duplicate_index pystr
  | Undefined_object pystr
  | Invalid_table pystr
  | Dependent_objects pystr
  | Walked_too_far

type_synonym 'a ddl_res = "ddl_error + 'a"

definition table_named :: "pystr \<Rightarrow> schema \<Rightarrow> table_def option" where
  "table_named n s = find_row (\<lambda>t. tb_name t = n) s"

definition column_names :: "table_def \<Rightarrow> pystr list" where
  "column_names t = map cl_name (tb_columns t)"

text \<open>A statement on one table, which has to exist.\<close>

definition on_table :: "pystr \<Rightarrow> (table_def \<Rightarrow> table_def ddl_res) \<Rightarrow> schema \<Rightarrow> schema ddl_res" where
  "on_table n f s = (case table_named n s of
     None \<Rightarrow> Inl (Undefined_table n)
   | Some t \<Rightarrow> (case f t of Inl e \<Rightarrow> Inl e | Inr t' \<Rightarrow> Inr (map (\<lambda>u. if tb_name u = n then t' else u) s)))"

definition refuse :: "bool \<Rightarrow> ddl_error \<Rightarrow> table_def \<Rightarrow> table_def ddl_res" where
  "refuse c e t = (if c then Inl e else Inr t)"

definition referred :: "schema \<Rightarrow> pystr \<Rightarrow> bool" where
  "referred s n \<longleftrightarrow> list_ex (\<lambda>t. tb_name t \<noteq> n \<and> list_ex (\<lambda>(c, target, k). target = n) (tb_foreign t)) s"

definition index_names :: "schema \<Rightarrow> pystr list" where
  "index_names s = concat (map (\<lambda>t. map ix_name (tb_indexes t)) s)"

text \<open>
  \<^verbatim>\<open>ALTER TABLE ... DROP COLUMN\<close>: indexes and constraints that involve the column go with it; a policy that
  reads it, or a foreign key that refers to it, forbids it.
\<close>

definition without_column :: "pystr \<Rightarrow> table_def \<Rightarrow> table_def" where
  "without_column c t = t\<lparr>tb_columns := filter (\<lambda>x. cl_name x \<noteq> c) (tb_columns t),
     tb_key := (if c \<in> set (tb_key t) then [] else tb_key t),
     tb_key_name := (if c \<in> set (tb_key t) then None else tb_key_name t),
     tb_uniques := filter (\<lambda>u. c \<notin> set u) (tb_uniques t),
     tb_indexes := filter (\<lambda>i. c \<notin> set (ix_columns i)) (tb_indexes t),
     tb_foreign := filter (\<lambda>(k, target, r). k \<noteq> c) (tb_foreign t)\<rparr>"

definition column_used :: "schema \<Rightarrow> pystr \<Rightarrow> table_def \<Rightarrow> bool" where
  "column_used s c t \<longleftrightarrow> list_ex (\<lambda>(n, cs). c \<in> set cs) (tb_policies t)
     \<or> list_ex (\<lambda>u. list_ex (\<lambda>(k, target, r). target = tb_name t \<and> r = c) (tb_foreign u)) s"

fun run_ddl :: "ddl \<Rightarrow> schema \<Rightarrow> schema ddl_res" where
  "run_ddl (Create_table t) s =
     (if table_named (tb_name t) s \<noteq> None then Inl (Duplicate_table (tb_name t))
      else if \<not> list_all (\<lambda>(c, target, k). table_named target s \<noteq> None) (tb_foreign t) then Inl (Undefined_table (tb_name t))
      else Inr (s @ [t]))"
| "run_ddl (Drop_table n) s =
     (if table_named n s = None then Inl (Undefined_table n)
      else if referred s n then Inl (Dependent_objects n)
      else Inr (filter (\<lambda>t. tb_name t \<noteq> n) s))"
| "run_ddl (Add_column n c) s = on_table n (\<lambda>t.
     refuse (cl_name c \<in> set (column_names t)) (Duplicate_column n (cl_name c)) (t\<lparr>tb_columns := tb_columns t @ [c]\<rparr>)) s"
| "run_ddl (Alter_type n c ty) s = on_table n (\<lambda>t.
     refuse (c \<notin> set (column_names t)) (Undefined_column n c)
       (t\<lparr>tb_columns := map (\<lambda>x. if cl_name x = c then x\<lparr>cl_type := ty\<rparr> else x) (tb_columns t)\<rparr>)) s"
| "run_ddl (Drop_column n c) s = on_table n (\<lambda>t.
     if c \<notin> set (column_names t) then Inl (Undefined_column n c)
     else refuse (column_used s c t) (Dependent_objects n) (without_column c t)) s"
| "run_ddl (Create_index n i) s = on_table n (\<lambda>t.
     if ix_name i \<in> set (index_names s) then Inl (Duplicate_index (ix_name i))
     else refuse (\<not> set (ix_columns i) \<subseteq> set (column_names t)) (Undefined_column n (ix_name i)) (t\<lparr>tb_indexes := tb_indexes t @ [i]\<rparr>)) s"
| "run_ddl (Drop_index n i) s = on_table n (\<lambda>t.
     refuse (i \<notin> set (map ix_name (tb_indexes t))) (Undefined_object i)
       (t\<lparr>tb_indexes := filter (\<lambda>x. ix_name x \<noteq> i) (tb_indexes t)\<rparr>)) s"
| "run_ddl (Drop_primary n k) s = on_table n (\<lambda>t.
     refuse (tb_key_name t \<noteq> Some k) (Undefined_object k) (t\<lparr>tb_key := [], tb_key_name := None\<rparr>)) s"
| "run_ddl (Create_primary n k cs) s = on_table n (\<lambda>t.
     if tb_key_name t \<noteq> None then Inl (Invalid_table n)
     else refuse (\<not> set cs \<subseteq> set (column_names t)) (Undefined_column n k) (t\<lparr>tb_key := cs, tb_key_name := Some k\<rparr>)) s"
| "run_ddl (Enable_rls n) s = on_table n (\<lambda>t. Inr (t\<lparr>tb_rls := True\<rparr>)) s"
| "run_ddl (Force_rls n) s = on_table n (\<lambda>t. Inr (t\<lparr>tb_forced := True\<rparr>)) s"
| "run_ddl (Disable_rls n) s = on_table n (\<lambda>t. Inr (t\<lparr>tb_rls := False\<rparr>)) s"
| "run_ddl (Create_policy n p cs) s = on_table n (\<lambda>t.
     if p \<in> set (map fst (tb_policies t)) then Inl (Invalid_table n)
     else refuse (\<not> set cs \<subseteq> set (column_names t)) (Undefined_column n p) (t\<lparr>tb_policies := tb_policies t @ [(p, cs)]\<rparr>)) s"
| "run_ddl (Drop_policy n p) s = on_table n (\<lambda>t. Inr (t\<lparr>tb_policies := filter (\<lambda>x. fst x \<noteq> p) (tb_policies t)\<rparr>)) s"

fun run_ddls :: "ddl list \<Rightarrow> schema \<Rightarrow> schema ddl_res" where
  "run_ddls [] s = Inr s"
| "run_ddls (x # xs) s = (case run_ddl x s of Inl e \<Rightarrow> Inl e | Inr s' \<Rightarrow> run_ddls xs s')"

section \<open>Revision 20260811_0001\<close>

text \<open>Columns as the migrations write them: \<^verbatim>\<open>sa.Column(name, type, nullable=False)\<close> and the others.\<close>

definition required :: "string \<Rightarrow> sql_type \<Rightarrow> column_def" where
  "required n ty = \<lparr>cl_name = lit n, cl_type = ty, cl_null = False, cl_default = None\<rparr>"

definition optional :: "string \<Rightarrow> sql_type \<Rightarrow> column_def" where
  "optional n ty = \<lparr>cl_name = lit n, cl_type = ty, cl_null = True, cl_default = None\<rparr>"

definition defaulted :: "string \<Rightarrow> sql_type \<Rightarrow> string \<Rightarrow> column_def" where
  "defaulted n ty v = \<lparr>cl_name = lit n, cl_type = ty, cl_null = False, cl_default = Some (lit v)\<rparr>"

text \<open>A new table; PostgreSQL names the constraint of an unnamed primary key after the table.\<close>

definition new_table :: "string \<Rightarrow> column_def list \<Rightarrow> string list \<Rightarrow> table_def" where
  "new_table n cs k = \<lparr>tb_name = lit n, tb_columns = cs, tb_key = map lit k, tb_key_name = Some (lit n @ lit ''_pkey''),
     tb_uniques = [], tb_indexes = [], tb_foreign = [], tb_rls = False, tb_forced = False, tb_policies = []\<rparr>"

definition plain_index :: "string \<Rightarrow> string list \<Rightarrow> index" where
  "plain_index n cs = \<lparr>ix_name = lit n, ix_columns = map lit cs, ix_unique = False\<rparr>"

definition unique_index :: "string \<Rightarrow> string list \<Rightarrow> index" where
  "unique_index n cs = \<lparr>ix_name = lit n, ix_columns = map lit cs, ix_unique = True\<rparr>"

definition upgrade_0001 :: "ddl list" where
  "upgrade_0001 =
    [Create_table ((new_table ''audit_events''
       [required ''id'' Int_type, required ''module'' (String_type 50), required ''event_type'' (String_type 100),
        required ''entity_id'' (String_type 100), required ''occurred_at'' (String_type 40), required ''payload_json'' Text_type,
        required ''previous_hash'' (String_type 64), required ''event_hash'' (String_type 64)] [''id''])
       \<lparr>tb_uniques := [[lit ''event_hash'']]\<rparr>),
     Create_table (new_table ''tax_transactions''
       [required ''id'' Int_type, required ''invoice_id'' (String_type 100), optional ''seller_tax_id'' (String_type 100),
        optional ''buyer_tax_id'' (String_type 100), required ''invoice_date'' (String_type 20), required ''amount'' Float_type,
        required ''tax_rate'' Float_type, required ''tax_amount'' Float_type, required ''currency'' (String_type 3),
        required ''source_hash'' (String_type 64), required ''ingested_at'' (String_type 40)] [''id'']),
     Create_index (lit ''tax_transactions'') (plain_index ''ix_tax_transactions_invoice_id'' [''invoice_id'']),
     Create_table (new_table ''tax_rule_runs''
       [required ''run_id'' (String_type 36), required ''rule_version'' (String_type 100), required ''started_at'' (String_type 40),
        optional ''completed_at'' (String_type 40), required ''transaction_count'' Int_type, required ''finding_count'' Int_type]
       [''run_id'']),
     Create_table ((new_table ''tax_findings''
       [required ''id'' Int_type, required ''run_id'' (String_type 36), optional ''transaction_id'' Int_type,
        required ''invoice_id'' (String_type 100), required ''rule_code'' (String_type 100), required ''severity'' (String_type 20),
        required ''explanation'' Text_type, required ''evidence_json'' Text_type] [''id''])
       \<lparr>tb_foreign := [(lit ''run_id'', lit ''tax_rule_runs'', lit ''run_id'')]\<rparr>),
     Create_table (new_table ''regulation_documents''
       [required ''id'' Int_type, required ''document_key'' (String_type 100), required ''title'' (String_type 300),
        required ''source_url'' Text_type, required ''published_at'' (String_type 20), required ''version_hash'' (String_type 64),
        required ''content'' Text_type] [''id'']),
     Create_index (lit ''regulation_documents'') (unique_index ''uq_reg_doc_version'' [''document_key'', ''version_hash'']),
     Create_table ((new_table ''control_events''
       [required ''id'' Int_type, required ''event_id'' (String_type 100), required ''event_type'' (String_type 100),
        required ''actor'' (String_type 100), required ''resource'' (String_type 200), required ''occurred_at'' (String_type 40),
        required ''approved'' Int_type, required ''privileged'' Int_type, required ''outcome'' (String_type 50),
        required ''payload_json'' Text_type, required ''evidence_hash'' (String_type 64)] [''id''])
       \<lparr>tb_uniques := [[lit ''event_id'']]\<rparr>),
     Create_table (new_table ''control_cases''
       [required ''id'' Int_type, required ''event_id'' (String_type 100), required ''control_id'' (String_type 100),
        required ''severity'' (String_type 20), required ''explanation'' Text_type, required ''evidence_hash'' (String_type 64),
        defaulted ''status'' (String_type 20) ''OPEN''] [''id'']),
     Create_table ((new_table ''graph_entities''
       [required ''entity_id'' (String_type 100), required ''entity_type'' (String_type 50), required ''attributes_json'' Text_type]
       [''entity_id''])\<lparr>tb_key_name := Some (lit ''pk_graph_entities'')\<rparr>),
     Create_table (new_table ''graph_edges''
       [required ''id'' Int_type, required ''source_id'' (String_type 100), required ''target_id'' (String_type 100),
        required ''relation'' (String_type 100), required ''amount'' Float_type, required ''occurred_at'' (String_type 40),
        required ''evidence_json'' Text_type] [''id'']),
     Create_index (lit ''graph_edges'') (plain_index ''ix_graph_edges_source_id'' [''source_id'']),
     Create_index (lit ''graph_edges'') (plain_index ''ix_graph_edges_target_id'' [''target_id''])]"

definition downgrade_0001 :: "ddl list" where
  "downgrade_0001 = map (Drop_table \<circ> lit) [''graph_edges'', ''graph_entities'', ''control_cases'', ''control_events'',
     ''regulation_documents'', ''tax_findings'', ''tax_rule_runs'', ''tax_transactions'', ''audit_events'']"

section \<open>Revision 20260811_0002\<close>

definition upgrade_0002 :: "schema \<Rightarrow> ddl list" where
  "upgrade_0002 s =
    (if table_named (lit ''tax_run_workflow'') s = None then
      [Create_table ((new_table ''tax_run_workflow''
         [required ''run_id'' Text_type, required ''requested_by'' Text_type, defaulted ''status'' Text_type ''PENDING_REVIEW'',
          optional ''reviewed_by'' Text_type, optional ''reviewed_at'' Text_type, optional ''decision_comment'' Text_type] [''run_id''])
         \<lparr>tb_foreign := [(lit ''run_id'', lit ''tax_rule_runs'', lit ''run_id'')]\<rparr>)] else [])
    @ (if table_named (lit ''control_case_transitions'') s = None then
      [Create_table ((new_table ''control_case_transitions''
         [required ''id'' Int_type, required ''case_id'' Int_type, required ''from_status'' Text_type, required ''to_status'' Text_type,
          required ''actor'' Text_type, required ''reason'' Text_type, required ''occurred_at'' Text_type] [''id''])
         \<lparr>tb_foreign := [(lit ''case_id'', lit ''control_cases'', lit ''id'')]\<rparr>),
       Create_index (lit ''control_case_transitions'') (plain_index ''idx_control_case_transitions_case'' [''case_id'', ''id''])] else [])"

definition downgrade_0002 :: "schema \<Rightarrow> ddl list" where
  "downgrade_0002 s =
    (case table_named (lit ''control_case_transitions'') s of None \<Rightarrow> []
     | Some t \<Rightarrow> (if lit ''idx_control_case_transitions_case'' \<in> set (map ix_name (tb_indexes t))
         then [Drop_index (lit ''control_case_transitions'') (lit ''idx_control_case_transitions_case'')] else [])
         @ [Drop_table (lit ''control_case_transitions'')])
    @ (if table_named (lit ''tax_run_workflow'') s \<noteq> None then [Drop_table (lit ''tax_run_workflow'')] else [])"

section \<open>Revision 20260812_0003\<close>

definition tenant_tables_0003 :: "pystr list" where
  "tenant_tables_0003 = map lit [''audit_events'', ''tax_transactions'', ''tax_rule_runs'', ''tax_findings'', ''tax_run_workflow'',
     ''regulation_documents'', ''control_events'', ''control_cases'', ''control_case_transitions'', ''graph_entities'', ''graph_edges'']"

definition upgrade_0003 :: "ddl list" where
  "upgrade_0003 =
     map (\<lambda>t. Add_column t (defaulted ''tenant_id'' (String_type 64) ''default'')) tenant_tables_0003
   @ [Alter_type (lit ''tax_transactions'') (lit ''amount'') (Numeric_type 20 4),
      Alter_type (lit ''tax_transactions'') (lit ''tax_rate'') (Numeric_type 9 6),
      Alter_type (lit ''tax_transactions'') (lit ''tax_amount'') (Numeric_type 20 4),
      Create_index (lit ''tax_transactions'') (plain_index ''ix_tax_tenant_invoice'' [''tenant_id'', ''invoice_id'']),
      Add_column (lit ''tax_rule_runs'') (defaulted ''rule_pack_json'' Text_type ''{}''),
      Add_column (lit ''tax_run_workflow'') (defaulted ''version'' Int_type ''1''),
      Add_column (lit ''control_cases'') (defaulted ''version'' Int_type ''1''),
      Alter_type (lit ''graph_edges'') (lit ''amount'') (Numeric_type 20 4),
      Create_index (lit ''graph_edges'') (plain_index ''ix_graph_tenant_source'' [''tenant_id'', ''source_id'']),
      Create_index (lit ''graph_edges'') (plain_index ''ix_graph_tenant_target'' [''tenant_id'', ''target_id'']),
      Drop_primary (lit ''graph_entities'') (lit ''pk_graph_entities''),
      Create_primary (lit ''graph_entities'') (lit ''pk_graph_entities'') [lit ''tenant_id'', lit ''entity_id''],
      Create_index (lit ''audit_events'') (plain_index ''ix_audit_tenant_id'' [''tenant_id'', ''id'']),
      Create_index (lit ''tax_findings'') (plain_index ''ix_tax_findings_tenant_run'' [''tenant_id'', ''run_id'']),
      Create_index (lit ''control_case_transitions'') (plain_index ''ix_control_transition_tenant_case'' [''tenant_id'', ''case_id'', ''id'']),
      Create_table (new_table ''idempotency_records''
        [required ''tenant_id'' (String_type 64), required ''operation'' (String_type 100), required ''idempotency_key'' (String_type 100),
         required ''request_hash'' (String_type 64), required ''response_json'' Text_type, required ''status_code'' Int_type,
         required ''created_at'' (String_type 40)] [''tenant_id'', ''operation'', ''idempotency_key'']),
      Create_table (new_table ''outbox_events''
        [required ''id'' Int_type, required ''tenant_id'' (String_type 64), required ''topic'' (String_type 100),
         required ''aggregate_id'' (String_type 100), required ''payload_json'' Text_type, required ''created_at'' (String_type 40),
         optional ''published_at'' (String_type 40), defaulted ''attempts'' Int_type ''0''] [''id'']),
      Create_index (lit ''outbox_events'') (plain_index ''ix_outbox_events_tenant_id'' [''tenant_id'']),
      Create_index (lit ''outbox_events'') (plain_index ''ix_outbox_unpublished'' [''published_at'', ''id''])]"

definition downgrade_0003 :: "ddl list" where
  "downgrade_0003 = [Drop_table (lit ''outbox_events''), Drop_table (lit ''idempotency_records'')]
     @ map (\<lambda>t. Drop_column t (lit ''tenant_id'')) (rev tenant_tables_0003)"

section \<open>Revisions 20260812_0004 and 20260812_0005\<close>

definition upgrade_0004 :: "ddl list" where
  "upgrade_0004 =
    [Add_column (lit ''outbox_events'') (optional ''last_error'' Text_type),
     Add_column (lit ''outbox_events'') (optional ''dead_lettered_at'' (String_type 40)),
     Create_table ((new_table ''dead_letter_events''
       [required ''id'' Int_type, required ''outbox_id'' Int_type, required ''tenant_id'' (String_type 64), required ''topic'' (String_type 100),
        required ''aggregate_id'' (String_type 100), required ''payload_json'' Text_type, required ''failure_reason'' Text_type,
        required ''failed_at'' (String_type 40), optional ''replayed_at'' (String_type 40)] [''id''])
       \<lparr>tb_uniques := [[lit ''outbox_id'']]\<rparr>),
     Create_index (lit ''dead_letter_events'') (plain_index ''ix_dead_letter_events_tenant_id'' [''tenant_id'']),
     Create_table (new_table ''consumer_receipts''
       [required ''consumer_name'' (String_type 100), required ''event_id'' (String_type 100), required ''tenant_id'' (String_type 64),
        required ''processed_at'' (String_type 40)] [''consumer_name'', ''event_id'']),
     Create_index (lit ''consumer_receipts'') (plain_index ''ix_consumer_receipts_tenant_id'' [''tenant_id''])]"

definition downgrade_0004 :: "ddl list" where
  "downgrade_0004 = [Drop_table (lit ''consumer_receipts''), Drop_table (lit ''dead_letter_events''),
     Drop_column (lit ''outbox_events'') (lit ''dead_lettered_at''), Drop_column (lit ''outbox_events'') (lit ''last_error'')]"

definition rls_tables :: "pystr list" where
  "rls_tables = map lit [''audit_events'', ''tax_transactions'', ''tax_rule_runs'', ''tax_findings'', ''tax_run_workflow'',
     ''regulation_documents'', ''control_events'', ''control_cases'', ''control_case_transitions'', ''graph_entities'', ''graph_edges'',
     ''idempotency_records'', ''outbox_events'', ''dead_letter_events'', ''consumer_receipts'']"

definition upgrade_0005 :: "dialect \<Rightarrow> ddl list" where
  "upgrade_0005 dl = (if dl \<noteq> Postgres then []
     else concat (map (\<lambda>t. [Enable_rls t, Force_rls t, Create_policy t (lit ''tenant_isolation'') [lit ''tenant_id'']]) rls_tables))"

definition downgrade_0005 :: "dialect \<Rightarrow> ddl list" where
  "downgrade_0005 dl = (if dl \<noteq> Postgres then []
     else concat (map (\<lambda>t. [Drop_policy t (lit ''tenant_isolation''), Disable_rls t]) (rev rls_tables)))"

section \<open>Running migrations\<close>

record migration =
  mg_revision :: pystr
  mg_down :: "pystr option"
  mg_upgrade :: "dialect \<Rightarrow> schema \<Rightarrow> ddl list"
  mg_downgrade :: "dialect \<Rightarrow> schema \<Rightarrow> ddl list"

definition migrations :: "migration list" where
  "migrations =
    [\<lparr>mg_revision = lit ''20260811_0001'', mg_down = None, mg_upgrade = (\<lambda>dl s. upgrade_0001), mg_downgrade = (\<lambda>dl s. downgrade_0001)\<rparr>,
     \<lparr>mg_revision = lit ''20260811_0002'', mg_down = Some (lit ''20260811_0001''), mg_upgrade = (\<lambda>dl s. upgrade_0002 s),
       mg_downgrade = (\<lambda>dl s. downgrade_0002 s)\<rparr>,
     \<lparr>mg_revision = lit ''20260812_0003'', mg_down = Some (lit ''20260811_0002''), mg_upgrade = (\<lambda>dl s. upgrade_0003),
       mg_downgrade = (\<lambda>dl s. downgrade_0003)\<rparr>,
     \<lparr>mg_revision = lit ''20260812_0004'', mg_down = Some (lit ''20260812_0003''), mg_upgrade = (\<lambda>dl s. upgrade_0004),
       mg_downgrade = (\<lambda>dl s. downgrade_0004)\<rparr>,
     \<lparr>mg_revision = lit ''20260812_0005'', mg_down = Some (lit ''20260812_0004''), mg_upgrade = (\<lambda>dl s. upgrade_0005 dl),
       mg_downgrade = (\<lambda>dl s. downgrade_0005 dl)\<rparr>]"

text \<open>A database: the revision in \<^verbatim>\<open>alembic_version\<close>, and its tables.\<close>

type_synonym migrated = "pystr option \<times> schema"

text \<open>
  The revision whose \<^verbatim>\<open>down_revision\<close> is the present one is applied, as often as there is one.  A run is
  one transaction (\<^verbatim>\<open>context.begin_transaction\<close>): one that raises leaves the database as it was.
\<close>

definition upgrade_one :: "dialect \<Rightarrow> migrated \<Rightarrow> migrated option ddl_res" where
  "upgrade_one dl m = (case find_row (\<lambda>x. mg_down x = fst m) migrations of
     None \<Rightarrow> Inr None
   | Some x \<Rightarrow> (case run_ddls (mg_upgrade x dl (snd m)) (snd m) of
       Inl e \<Rightarrow> Inl e | Inr s \<Rightarrow> Inr (Some (Some (mg_revision x), s))))"

definition downgrade_one :: "dialect \<Rightarrow> migrated \<Rightarrow> migrated option ddl_res" where
  "downgrade_one dl m = (case find_row (\<lambda>x. Some (mg_revision x) = fst m) migrations of
     None \<Rightarrow> Inr None
   | Some x \<Rightarrow> (case run_ddls (mg_downgrade x dl (snd m)) (snd m) of
       Inl e \<Rightarrow> Inl e | Inr s \<Rightarrow> Inr (Some (mg_down x, s))))"

fun steps :: "nat \<Rightarrow> (migrated \<Rightarrow> migrated option ddl_res) \<Rightarrow> migrated \<Rightarrow> migrated ddl_res" where
  "steps 0 f m = Inr m"
| "steps (Suc n) f m = (case f m of Inl e \<Rightarrow> Inl e | Inr None \<Rightarrow> Inr m | Inr (Some m') \<Rightarrow> steps n f m')"

definition in_transaction :: "migrated ddl_res \<Rightarrow> migrated \<Rightarrow> unit ddl_res \<times> migrated" where
  "in_transaction r m = (case r of Inl e \<Rightarrow> (Inl e, m) | Inr m' \<Rightarrow> (Inr (), m'))"

text \<open>\<^verbatim>\<open>alembic upgrade head\<close>: no revision is applied twice, so their number is enough.\<close>

definition upgrade_head :: "dialect \<Rightarrow> migrated \<Rightarrow> unit ddl_res \<times> migrated" where
  "upgrade_head dl m = in_transaction (steps (length migrations) (upgrade_one dl) m) m"

text \<open>
  \<^verbatim>\<open>alembic downgrade -n\<close>, for a positive \<open>n\<close>; no step where \<open>n\<close> is zero.  Alembic finds its target first, among the
  revisions that the present one descends from, and raises where there are fewer than \<open>n\<close>.
\<close>

definition lineage :: "pystr option \<Rightarrow> nat" where
  "lineage revision = (case revision of None \<Rightarrow> 0
     | Some r \<Rightarrow> Suc (length (takeWhile (\<lambda>x. mg_revision x \<noteq> r) migrations)))"

definition downgrade :: "dialect \<Rightarrow> nat \<Rightarrow> migrated \<Rightarrow> unit ddl_res \<times> migrated" where
  "downgrade dl n m = (if lineage (fst m) < n then (Inl Walked_too_far, m) else in_transaction (steps n (downgrade_one dl) m) m)"

section \<open>The mapped classes\<close>

text \<open>
  The tables as \<^verbatim>\<open>sql_models.py\<close> declares them.  A column with \<^verbatim>\<open>index=True\<close> has an index named after it; defaults
  are the mapper's, not the server's.
\<close>

definition tenant_index :: "string \<Rightarrow> index" where
  "tenant_index t = plain_index (''ix_'' @ t @ ''_tenant_id'') [''tenant_id'']"

definition mapped_schema :: schema where
  "mapped_schema =
    [(new_table ''audit_events''
       [required ''id'' Int_type, required ''tenant_id'' (String_type 64), required ''module'' (String_type 50),
        required ''event_type'' (String_type 100), required ''entity_id'' (String_type 100), required ''occurred_at'' (String_type 40),
        required ''payload_json'' Text_type, required ''previous_hash'' (String_type 64), required ''event_hash'' (String_type 64)] [''id''])
       \<lparr>tb_uniques := [[lit ''tenant_id'', lit ''event_hash'']],
         tb_indexes := [tenant_index ''audit_events'', plain_index ''ix_audit_tenant_id'' [''tenant_id'', ''id'']]\<rparr>,
     (new_table ''tax_transactions''
       [required ''id'' Int_type, required ''tenant_id'' (String_type 64), required ''invoice_id'' (String_type 100),
        optional ''seller_tax_id'' (String_type 100), optional ''buyer_tax_id'' (String_type 100), required ''invoice_date'' (String_type 20),
        required ''amount'' (Numeric_type 20 4), required ''tax_rate'' (Numeric_type 9 6), required ''tax_amount'' (Numeric_type 20 4),
        required ''currency'' (String_type 3), required ''source_hash'' (String_type 64), required ''ingested_at'' (String_type 40)] [''id''])
       \<lparr>tb_indexes := [tenant_index ''tax_transactions'', plain_index ''ix_tax_tenant_invoice'' [''tenant_id'', ''invoice_id'']]\<rparr>,
     (new_table ''tax_rule_runs''
       [required ''run_id'' (String_type 36), required ''tenant_id'' (String_type 64), required ''rule_version'' (String_type 100),
        required ''rule_pack_json'' Text_type, required ''started_at'' (String_type 40), optional ''completed_at'' (String_type 40),
        required ''transaction_count'' Int_type, required ''finding_count'' Int_type] [''run_id''])
       \<lparr>tb_indexes := [tenant_index ''tax_rule_runs'']\<rparr>,
     (new_table ''tax_findings''
       [required ''id'' Int_type, required ''tenant_id'' (String_type 64), required ''run_id'' (String_type 36),
        optional ''transaction_id'' Int_type, required ''invoice_id'' (String_type 100), required ''rule_code'' (String_type 100),
        required ''severity'' (String_type 20), required ''explanation'' Text_type, required ''evidence_json'' Text_type] [''id''])
       \<lparr>tb_foreign := [(lit ''run_id'', lit ''tax_rule_runs'', lit ''run_id'')],
         tb_indexes := [tenant_index ''tax_findings'', plain_index ''ix_tax_findings_tenant_run'' [''tenant_id'', ''run_id'']]\<rparr>,
     (new_table ''tax_run_workflow''
       [required ''run_id'' (String_type 36), required ''tenant_id'' (String_type 64), required ''requested_by'' (String_type 100),
        required ''status'' (String_type 20), required ''version'' Int_type, optional ''reviewed_by'' (String_type 100),
        optional ''reviewed_at'' (String_type 40), optional ''decision_comment'' Text_type] [''run_id''])
       \<lparr>tb_foreign := [(lit ''run_id'', lit ''tax_rule_runs'', lit ''run_id'')], tb_indexes := [tenant_index ''tax_run_workflow'']\<rparr>,
     (new_table ''regulation_documents''
       [required ''id'' Int_type, required ''tenant_id'' (String_type 64), required ''document_key'' (String_type 100),
        required ''title'' (String_type 300), required ''source_url'' Text_type, required ''published_at'' (String_type 20),
        required ''version_hash'' (String_type 64), required ''content'' Text_type] [''id''])
       \<lparr>tb_uniques := [[lit ''tenant_id'', lit ''document_key'', lit ''version_hash'']], tb_indexes := [tenant_index ''regulation_documents'']\<rparr>,
     (new_table ''control_events''
       [required ''id'' Int_type, required ''tenant_id'' (String_type 64), required ''event_id'' (String_type 100),
        required ''event_type'' (String_type 100), required ''actor'' (String_type 100), required ''resource'' (String_type 200),
        required ''occurred_at'' (String_type 40), required ''approved'' Int_type, required ''privileged'' Int_type,
        required ''outcome'' (String_type 50), required ''payload_json'' Text_type, required ''evidence_hash'' (String_type 64)] [''id''])
       \<lparr>tb_uniques := [[lit ''tenant_id'', lit ''event_id'']], tb_indexes := [tenant_index ''control_events'']\<rparr>,
     (new_table ''control_cases''
       [required ''id'' Int_type, required ''tenant_id'' (String_type 64), required ''event_id'' (String_type 100),
        required ''control_id'' (String_type 100), required ''severity'' (String_type 20), required ''explanation'' Text_type,
        required ''evidence_hash'' (String_type 64), required ''status'' (String_type 20), required ''version'' Int_type] [''id''])
       \<lparr>tb_indexes := [tenant_index ''control_cases'']\<rparr>,
     (new_table ''control_case_transitions''
       [required ''id'' Int_type, required ''tenant_id'' (String_type 64), required ''case_id'' Int_type, required ''from_status'' (String_type 20),
        required ''to_status'' (String_type 20), required ''actor'' (String_type 100), required ''reason'' Text_type,
        required ''occurred_at'' (String_type 40)] [''id''])
       \<lparr>tb_foreign := [(lit ''case_id'', lit ''control_cases'', lit ''id'')],
         tb_indexes := [tenant_index ''control_case_transitions'',
           plain_index ''ix_control_transition_tenant_case'' [''tenant_id'', ''case_id'', ''id'']]\<rparr>,
     new_table ''graph_entities''
       [required ''tenant_id'' (String_type 64), required ''entity_id'' (String_type 100), required ''entity_type'' (String_type 50),
        required ''attributes_json'' Text_type] [''tenant_id'', ''entity_id''],
     (new_table ''graph_edges''
       [required ''id'' Int_type, required ''tenant_id'' (String_type 64), required ''source_id'' (String_type 100),
        required ''target_id'' (String_type 100), required ''relation'' (String_type 100), required ''amount'' (Numeric_type 20 4),
        required ''occurred_at'' (String_type 40), required ''evidence_json'' Text_type] [''id''])
       \<lparr>tb_indexes := [tenant_index ''graph_edges'', plain_index ''ix_graph_tenant_source'' [''tenant_id'', ''source_id''],
          plain_index ''ix_graph_tenant_target'' [''tenant_id'', ''target_id'']]\<rparr>,
     new_table ''idempotency_records''
       [required ''tenant_id'' (String_type 64), required ''operation'' (String_type 100), required ''idempotency_key'' (String_type 100),
        required ''request_hash'' (String_type 64), required ''response_json'' Text_type, required ''status_code'' Int_type,
        required ''created_at'' (String_type 40)] [''tenant_id'', ''operation'', ''idempotency_key''],
     (new_table ''outbox_events''
       [required ''id'' Int_type, required ''tenant_id'' (String_type 64), required ''topic'' (String_type 100),
        required ''aggregate_id'' (String_type 100), required ''payload_json'' Text_type, required ''created_at'' (String_type 40),
        optional ''published_at'' (String_type 40), required ''attempts'' Int_type, optional ''last_error'' Text_type,
        optional ''dead_lettered_at'' (String_type 40)] [''id''])
       \<lparr>tb_indexes := [tenant_index ''outbox_events'', plain_index ''ix_outbox_unpublished'' [''published_at'', ''id'']]\<rparr>,
     (new_table ''dead_letter_events''
       [required ''id'' Int_type, required ''outbox_id'' Int_type, required ''tenant_id'' (String_type 64), required ''topic'' (String_type 100),
        required ''aggregate_id'' (String_type 100), required ''payload_json'' Text_type, required ''failure_reason'' Text_type,
        required ''failed_at'' (String_type 40), optional ''replayed_at'' (String_type 40)] [''id''])
       \<lparr>tb_uniques := [[lit ''outbox_id'']], tb_indexes := [tenant_index ''dead_letter_events'']\<rparr>,
     (new_table ''consumer_receipts''
       [required ''consumer_name'' (String_type 100), required ''event_id'' (String_type 100), required ''tenant_id'' (String_type 64),
        required ''processed_at'' (String_type 40)] [''consumer_name'', ''event_id''])
       \<lparr>tb_indexes := [tenant_index ''consumer_receipts'']\<rparr>]"

section \<open>What a schema lets in\<close>

definition unique_keys :: "table_def \<Rightarrow> pystr list list" where
  "unique_keys t = tb_key t # tb_uniques t @ map ix_columns (filter ix_unique (tb_indexes t))"

text \<open>A row gives each column a value; the columns of the unique keys are never null.\<close>

definition rows_allowed :: "table_def \<Rightarrow> (pystr \<Rightarrow> 'v) list \<Rightarrow> bool" where
  "rows_allowed t rows \<longleftrightarrow> (\<forall>k \<in> set (unique_keys t). distinct (map (\<lambda>r. map r k) rows))"

text \<open>Every value of one type is one of the other.\<close>

fun type_fits :: "sql_type \<Rightarrow> sql_type \<Rightarrow> bool" where
  "type_fits (String_type n) (String_type m) \<longleftrightarrow> n \<le> m"
| "type_fits (String_type n) Text_type \<longleftrightarrow> True"
| "type_fits a b \<longleftrightarrow> a = b"

definition column_fits :: "column_def \<Rightarrow> column_def \<Rightarrow> bool" where
  "column_fits m t \<longleftrightarrow> cl_name m = cl_name t \<and> cl_null m = cl_null t \<and> type_fits (cl_type m) (cl_type t)"

text \<open>Each of the mapped class's columns has one of the table that it fits, no column is left over, and the keys agree.\<close>

definition columns_fit :: "table_def \<Rightarrow> table_def \<Rightarrow> bool" where
  "columns_fit m t \<longleftrightarrow> list_all (\<lambda>c. list_ex (column_fits c) (tb_columns t)) (tb_columns m)
     \<and> length (tb_columns m) = length (tb_columns t) \<and> distinct (column_names m) \<and> set (tb_key m) = set (tb_key t)"

definition keys_implied :: "table_def \<Rightarrow> table_def \<Rightarrow> bool" where
  "keys_implied m t \<longleftrightarrow> list_all (\<lambda>k. list_ex (\<lambda>k'. set k' \<subseteq> set k) (unique_keys t)) (unique_keys m)"

lemma distinct_more_columns:
  assumes "distinct (map (\<lambda>r. map r k') rows)" and "set k' \<subseteq> set k"
  shows "distinct (map (\<lambda>r. map r k) rows)"
  using assms unfolding distinct_map inj_on_def map_eq_conv by (meson subsetD)

lemma keys_implied_rows:
  assumes "keys_implied m t" "rows_allowed t rows"
  shows "rows_allowed m rows"
  unfolding rows_allowed_def
proof
  fix k assume "k \<in> set (unique_keys m)"
  with assms(1) obtain k' where k: "k' \<in> set (unique_keys t)" "set k' \<subseteq> set k"
    by (auto simp: keys_implied_def list_all_iff list_ex_iff)
  from k(1) assms(2) have "distinct (map (\<lambda>r. map r k') rows)" by (simp add: rows_allowed_def)
  from distinct_more_columns [OF this k(2)] show "distinct (map (\<lambda>r. map r k) rows)" .
qed

definition fits_schema :: "schema \<Rightarrow> schema \<Rightarrow> bool" where
  "fits_schema ms s \<longleftrightarrow> length ms = length s
     \<and> list_all (\<lambda>m. case table_named (tb_name m) s of None \<Rightarrow> False | Some t \<Rightarrow> columns_fit m t \<and> keys_implied m t) ms"

section \<open>The head revision\<close>

text \<open>Its tables, written out: those of the revision before, every one protected in the same way.\<close>

definition tenant_column :: column_def where
  "tenant_column = defaulted ''tenant_id'' (String_type 64) ''default''"

definition tables_0004 :: schema where
  "tables_0004 =
    [(new_table ''audit_events''
       [required ''id'' Int_type, required ''module'' (String_type 50), required ''event_type'' (String_type 100),
        required ''entity_id'' (String_type 100), required ''occurred_at'' (String_type 40), required ''payload_json'' Text_type,
        required ''previous_hash'' (String_type 64), required ''event_hash'' (String_type 64), tenant_column] [''id''])
       \<lparr>tb_uniques := [[lit ''event_hash'']], tb_indexes := [plain_index ''ix_audit_tenant_id'' [''tenant_id'', ''id'']]\<rparr>,
     (new_table ''tax_transactions''
       [required ''id'' Int_type, required ''invoice_id'' (String_type 100), optional ''seller_tax_id'' (String_type 100),
        optional ''buyer_tax_id'' (String_type 100), required ''invoice_date'' (String_type 20), required ''amount'' (Numeric_type 20 4),
        required ''tax_rate'' (Numeric_type 9 6), required ''tax_amount'' (Numeric_type 20 4), required ''currency'' (String_type 3),
        required ''source_hash'' (String_type 64), required ''ingested_at'' (String_type 40), tenant_column] [''id''])
       \<lparr>tb_indexes := [plain_index ''ix_tax_transactions_invoice_id'' [''invoice_id''],
          plain_index ''ix_tax_tenant_invoice'' [''tenant_id'', ''invoice_id'']]\<rparr>,
     new_table ''tax_rule_runs''
       [required ''run_id'' (String_type 36), required ''rule_version'' (String_type 100), required ''started_at'' (String_type 40),
        optional ''completed_at'' (String_type 40), required ''transaction_count'' Int_type, required ''finding_count'' Int_type,
        tenant_column, defaulted ''rule_pack_json'' Text_type ''{}''] [''run_id''],
     (new_table ''tax_findings''
       [required ''id'' Int_type, required ''run_id'' (String_type 36), optional ''transaction_id'' Int_type,
        required ''invoice_id'' (String_type 100), required ''rule_code'' (String_type 100), required ''severity'' (String_type 20),
        required ''explanation'' Text_type, required ''evidence_json'' Text_type, tenant_column] [''id''])
       \<lparr>tb_foreign := [(lit ''run_id'', lit ''tax_rule_runs'', lit ''run_id'')],
         tb_indexes := [plain_index ''ix_tax_findings_tenant_run'' [''tenant_id'', ''run_id'']]\<rparr>,
     (new_table ''regulation_documents''
       [required ''id'' Int_type, required ''document_key'' (String_type 100), required ''title'' (String_type 300),
        required ''source_url'' Text_type, required ''published_at'' (String_type 20), required ''version_hash'' (String_type 64),
        required ''content'' Text_type, tenant_column] [''id''])
       \<lparr>tb_indexes := [unique_index ''uq_reg_doc_version'' [''document_key'', ''version_hash'']]\<rparr>,
     (new_table ''control_events''
       [required ''id'' Int_type, required ''event_id'' (String_type 100), required ''event_type'' (String_type 100),
        required ''actor'' (String_type 100), required ''resource'' (String_type 200), required ''occurred_at'' (String_type 40),
        required ''approved'' Int_type, required ''privileged'' Int_type, required ''outcome'' (String_type 50),
        required ''payload_json'' Text_type, required ''evidence_hash'' (String_type 64), tenant_column] [''id''])
       \<lparr>tb_uniques := [[lit ''event_id'']]\<rparr>,
     new_table ''control_cases''
       [required ''id'' Int_type, required ''event_id'' (String_type 100), required ''control_id'' (String_type 100),
        required ''severity'' (String_type 20), required ''explanation'' Text_type, required ''evidence_hash'' (String_type 64),
        defaulted ''status'' (String_type 20) ''OPEN'', tenant_column, defaulted ''version'' Int_type ''1''] [''id''],
     (new_table ''graph_entities''
       [required ''entity_id'' (String_type 100), required ''entity_type'' (String_type 50), required ''attributes_json'' Text_type,
        tenant_column] [''tenant_id'', ''entity_id''])\<lparr>tb_key_name := Some (lit ''pk_graph_entities'')\<rparr>,
     (new_table ''graph_edges''
       [required ''id'' Int_type, required ''source_id'' (String_type 100), required ''target_id'' (String_type 100),
        required ''relation'' (String_type 100), required ''amount'' (Numeric_type 20 4), required ''occurred_at'' (String_type 40),
        required ''evidence_json'' Text_type, tenant_column] [''id''])
       \<lparr>tb_indexes := [plain_index ''ix_graph_edges_source_id'' [''source_id''], plain_index ''ix_graph_edges_target_id'' [''target_id''],
          plain_index ''ix_graph_tenant_source'' [''tenant_id'', ''source_id''],
          plain_index ''ix_graph_tenant_target'' [''tenant_id'', ''target_id'']]\<rparr>,
     (new_table ''tax_run_workflow''
       [required ''run_id'' Text_type, required ''requested_by'' Text_type, defaulted ''status'' Text_type ''PENDING_REVIEW'',
        optional ''reviewed_by'' Text_type, optional ''reviewed_at'' Text_type, optional ''decision_comment'' Text_type,
        tenant_column, defaulted ''version'' Int_type ''1''] [''run_id''])
       \<lparr>tb_foreign := [(lit ''run_id'', lit ''tax_rule_runs'', lit ''run_id'')]\<rparr>,
     (new_table ''control_case_transitions''
       [required ''id'' Int_type, required ''case_id'' Int_type, required ''from_status'' Text_type, required ''to_status'' Text_type,
        required ''actor'' Text_type, required ''reason'' Text_type, required ''occurred_at'' Text_type, tenant_column] [''id''])
       \<lparr>tb_foreign := [(lit ''case_id'', lit ''control_cases'', lit ''id'')],
         tb_indexes := [plain_index ''idx_control_case_transitions_case'' [''case_id'', ''id''],
           plain_index ''ix_control_transition_tenant_case'' [''tenant_id'', ''case_id'', ''id'']]\<rparr>,
     new_table ''idempotency_records''
       [required ''tenant_id'' (String_type 64), required ''operation'' (String_type 100), required ''idempotency_key'' (String_type 100),
        required ''request_hash'' (String_type 64), required ''response_json'' Text_type, required ''status_code'' Int_type,
        required ''created_at'' (String_type 40)] [''tenant_id'', ''operation'', ''idempotency_key''],
     (new_table ''outbox_events''
       [required ''id'' Int_type, required ''tenant_id'' (String_type 64), required ''topic'' (String_type 100),
        required ''aggregate_id'' (String_type 100), required ''payload_json'' Text_type, required ''created_at'' (String_type 40),
        optional ''published_at'' (String_type 40), defaulted ''attempts'' Int_type ''0'', optional ''last_error'' Text_type,
        optional ''dead_lettered_at'' (String_type 40)] [''id''])
       \<lparr>tb_indexes := [plain_index ''ix_outbox_events_tenant_id'' [''tenant_id''],
          plain_index ''ix_outbox_unpublished'' [''published_at'', ''id'']]\<rparr>,
     (new_table ''dead_letter_events''
       [required ''id'' Int_type, required ''outbox_id'' Int_type, required ''tenant_id'' (String_type 64), required ''topic'' (String_type 100),
        required ''aggregate_id'' (String_type 100), required ''payload_json'' Text_type, required ''failure_reason'' Text_type,
        required ''failed_at'' (String_type 40), optional ''replayed_at'' (String_type 40)] [''id''])
       \<lparr>tb_uniques := [[lit ''outbox_id'']], tb_indexes := [plain_index ''ix_dead_letter_events_tenant_id'' [''tenant_id'']]\<rparr>,
     (new_table ''consumer_receipts''
       [required ''consumer_name'' (String_type 100), required ''event_id'' (String_type 100), required ''tenant_id'' (String_type 64),
        required ''processed_at'' (String_type 40)] [''consumer_name'', ''event_id''])
       \<lparr>tb_indexes := [plain_index ''ix_consumer_receipts_tenant_id'' [''tenant_id'']]\<rparr>]"

definition under_rls :: "table_def \<Rightarrow> table_def" where
  "under_rls t = t\<lparr>tb_rls := True, tb_forced := True, tb_policies := [(lit ''tenant_isolation'', [lit ''tenant_id''])]\<rparr>"

definition head_tables :: schema where
  "head_tables = map under_rls tables_0004"

definition at_revision :: "string \<Rightarrow> schema \<Rightarrow> migrated" where
  "at_revision r s = (Some (lit r), s)"

definition head :: migrated where
  "head = snd (upgrade_head Postgres (None, []))"

end
