(* ===== verification/Upgrades.thy ===== *)
theory Upgrades
  imports Migrations
begin

text \<open>
  What the migrations achieve: the schema at the head revision against the mapped classes, the preflight
  of an upgraded database, and going back and forth between revisions.
\<close>

section \<open>Row-level security, table by table\<close>

definition rls_free :: "table_def \<Rightarrow> bool" where
  "rls_free t \<longleftrightarrow> tb_policies t = [] \<and> lit ''tenant_id'' \<in> set (column_names t)"

lemma table_named_Some: "table_named n s = Some t \<Longrightarrow> t \<in> set s \<and> tb_name t = n"
  by (auto simp: table_named_def dest: find_row_Some)

lemma table_named_member: "n \<in> set (map tb_name s) \<Longrightarrow> \<exists>t. table_named n s = Some t"
  by (cases "table_named n s") (auto simp: table_named_def find_row_None)

lemma on_table_ok:
  assumes "distinct (map tb_name s)" and "t \<in> set s" and "f t = Inr t'"
  shows "on_table (tb_name t) f s = Inr (map (\<lambda>u. if tb_name u = tb_name t then t' else u) s)"
proof -
  obtain u where u: "table_named (tb_name t) s = Some u" using table_named_member [of "tb_name t" s] assms(2) by auto
  with table_named_Some [OF u] assms(1,2) have "u = t" by (auto simp: distinct_map inj_on_def)
  with u assms(3) show ?thesis by (simp add: on_table_def)
qed

lemma on_table_rls:
  assumes "distinct (map tb_name s)" and "t \<in> set s" and "rls_free t"
  shows "run_ddls [Enable_rls (tb_name t), Force_rls (tb_name t), Create_policy (tb_name t) (lit ''tenant_isolation'') [lit ''tenant_id'']] s
    = Inr (map (\<lambda>u. if tb_name u = tb_name t then under_rls t else u) s)"
proof -
  let ?n = "tb_name t"
  define t1 where "t1 = t\<lparr>tb_rls := True\<rparr>"
  define t2 where "t2 = t1\<lparr>tb_forced := True\<rparr>"
  define s1 where "s1 = map (\<lambda>u. if tb_name u = ?n then t1 else u) s"
  define s2 where "s2 = map (\<lambda>u. if tb_name u = ?n then t2 else u) s1"
  have n: "tb_name t1 = ?n" "tb_name t2 = ?n" by (simp_all add: t1_def t2_def)
  have "map tb_name s1 = map tb_name s" "map tb_name s2 = map tb_name s" by (auto simp: s1_def s2_def n)
  with assms(1) have d: "distinct (map tb_name s1)" "distinct (map tb_name s2)" by simp_all
  have m: "t1 \<in> set s1" "t2 \<in> set s2" using assms(2) by (auto simp: s1_def s2_def n)
  have "run_ddl (Enable_rls ?n) s = Inr s1"
    using on_table_ok [OF assms(1,2), of "\<lambda>t. Inr (t\<lparr>tb_rls := True\<rparr>)" t1] by (simp add: s1_def t1_def)
  moreover have "run_ddl (Force_rls ?n) s1 = Inr s2"
    using on_table_ok [OF d(1) m(1), of "\<lambda>t. Inr (t\<lparr>tb_forced := True\<rparr>)" t2] by (simp add: s2_def t2_def n)
  moreover have "run_ddl (Create_policy ?n (lit ''tenant_isolation'') [lit ''tenant_id'']) s2
      = Inr (map (\<lambda>u. if tb_name u = ?n then under_rls t else u) s2)"
    unfolding run_ddl.simps using assms(3) on_table_ok [OF d(2) m(2), unfolded n]
    by (simp add: rls_free_def refuse_def t1_def t2_def column_names_def under_rls_def)
  moreover have "map (\<lambda>u. if tb_name u = ?n then under_rls t else u) s2 = map (\<lambda>u. if tb_name u = ?n then under_rls t else u) s"
    by (simp add: s1_def s2_def n)
  ultimately show ?thesis by simp
qed

lemma run_ddls_append: "run_ddls (xs @ ys) s = (case run_ddls xs s of Inl e \<Rightarrow> Inl e | Inr s' \<Rightarrow> run_ddls ys s')"
  by (induction xs arbitrary: s) (auto split: sum.splits)

text \<open>The loop of the last revision protects the tables that it names, whatever their order.\<close>

lemma rls_loop:
  assumes "distinct (map tb_name s)" and "set ns \<subseteq> tb_name ` {t \<in> set s. rls_free t}" and "distinct ns"
  shows "run_ddls (concat (map (\<lambda>n. [Enable_rls n, Force_rls n, Create_policy n (lit ''tenant_isolation'') [lit ''tenant_id'']]) ns)) s
    = Inr (map (\<lambda>u. if tb_name u \<in> set ns then under_rls u else u) s)"
  using assms(2,3)
proof (induction ns rule: rev_induct)
  case (snoc n ns)
  let ?s = "map (\<lambda>u. if tb_name u \<in> set ns then under_rls u else u) s"
  from snoc.prems obtain t where t: "t \<in> set s" "rls_free t" "n = tb_name t" "n \<notin> set ns" by auto
  have "map tb_name ?s = map tb_name s" by (simp add: under_rls_def)
  then have "distinct (map tb_name ?s)" using assms(1) by (simp only:)
  moreover have "t \<in> set ?s" using t by force
  ultimately have "run_ddls [Enable_rls n, Force_rls n, Create_policy n (lit ''tenant_isolation'') [lit ''tenant_id'']] ?s
      = Inr (map (\<lambda>u. if tb_name u = n then under_rls t else u) ?s)"
    using on_table_rls [of ?s t] t by simp
  also have "map (\<lambda>u. if tb_name u = n then under_rls t else u) ?s = map (\<lambda>u. if tb_name u \<in> set (ns @ [n]) then under_rls u else u) s"
    using t assms(1) by (auto simp: under_rls_def distinct_map inj_on_def)
  finally show ?case using snoc by (simp add: run_ddls_append)
qed simp

definition rls_ready :: "schema \<Rightarrow> bool" where
  "rls_ready s \<longleftrightarrow> distinct (map tb_name s) \<and> list_all rls_free s \<and> set (map tb_name s) = set rls_tables"

lemma distinct_rls_tables: "distinct rls_tables"
  by (simp add: rls_tables_def)

lemma protect_all:
  assumes "rls_ready s"
  shows "upgrade_one Postgres (at_revision ''20260812_0004'' s) = Inr (Some (at_revision ''20260812_0005'' (map under_rls s)))"
proof -
  have "run_ddls (upgrade_0005 Postgres) s = Inr (map (\<lambda>u. if tb_name u \<in> set rls_tables then under_rls u else u) s)"
  proof -
    have "{t \<in> set s. rls_free t} = set s" "distinct (map tb_name s)" "tb_name ` set s = set rls_tables"
      using assms by (auto simp: rls_ready_def list_all_iff)
    then show ?thesis using rls_loop [of s rls_tables] distinct_rls_tables by (simp add: upgrade_0005_def)
  qed
  also have "map (\<lambda>u. if tb_name u \<in> set rls_tables then under_rls u else u) s = map under_rls s"
    using assms by (auto simp: rls_ready_def)
  finally show ?thesis
    by (simp add: upgrade_one_def at_revision_def migrations_def find_row_def)
qed

lemma ready_0004: "rls_ready tables_0004"
  by code_simp

lemma steps_append: "steps (m + n) f x = (case steps m f x of Inl e \<Rightarrow> Inl e | Inr y \<Rightarrow> steps n f y)"
proof (induction m arbitrary: x)
  case (Suc m)
  show ?case
  proof (cases "f x")
    case (Inr r)
    with Suc show ?thesis by (cases r; cases n) auto
  qed simp
qed simp

lemma upgrade_0004_reached: "steps 4 (upgrade_one Postgres) (None, []) = Inr (at_revision ''20260812_0004'' tables_0004)"
  by code_simp

text \<open>Upgrading a new database creates the tables of the head revision.\<close>

lemma upgrade_empty: "upgrade_head Postgres (None, []) = (Inr (), at_revision ''20260812_0005'' head_tables)"
proof -
  have "length migrations = 4 + 1" by (simp add: migrations_def)
  then show ?thesis
    by (simp only: upgrade_head_def steps_append upgrade_0004_reached sum.case)
      (simp add: protect_all [OF ready_0004] in_transaction_def head_tables_def)
qed

lemma head_eq: "head = at_revision ''20260812_0005'' head_tables"
  by (simp add: head_def upgrade_empty)

lemma head_fits: "fits_schema mapped_schema tables_0004"
  by code_simp

section \<open>The schema and the mapped classes\<close>

lemma under_rls_same [simp]: "tb_name (under_rls t) = tb_name t" "columns_fit m (under_rls t) = columns_fit m t"
    "unique_keys (under_rls t) = unique_keys t" "keys_implied m (under_rls t) = keys_implied m t"
    "rows_allowed (under_rls t) rows = rows_allowed t rows"
  by (simp_all add: under_rls_def columns_fit_def unique_keys_def keys_implied_def rows_allowed_def)

lemma table_named_under_rls: "table_named n (map under_rls s) = map_option under_rls (table_named n s)"
  by (induction s) (simp_all add: table_named_def find_row_Cons)

text \<open>
  C32: The migrations produce the schema that the mapped classes rely on.  \<^verbatim>\<open>alembic upgrade head\<close> of an empty
  PostgreSQL database succeeds and ends at the revision that the preflight expects.  Every mapped class has its
  table, with the same columns, nullable or not, in which every value of the class fits, and with the
  same primary key; and all rows that the table's unique keys let in satisfy those of the class.
\<close>

theorem upgraded_schema_fits:
  "\<exists>s. upgrade_head Postgres (None, []) = (Inr (), Some expected_revision, s) \<and> length s = length mapped_schema
     \<and> (\<forall>m \<in> set mapped_schema. \<exists>t. table_named (tb_name m) s = Some t \<and> columns_fit m t
          \<and> (\<forall>rows :: (pystr \<Rightarrow> 'v) list. rows_allowed t rows \<longrightarrow> rows_allowed m rows))"
  (is "\<exists>s. ?up s \<and> ?len s \<and> (\<forall>m \<in> _. ?fit s m)")
proof (rule exI [of _ head_tables], intro conjI ballI)
  show "upgrade_head Postgres (None, []) = (Inr (), Some expected_revision, head_tables)"
    by (simp add: upgrade_empty at_revision_def expected_revision_def)
  show "length head_tables = length mapped_schema"
    using head_fits by (simp add: fits_schema_def head_tables_def)
  fix m assume "m \<in> set mapped_schema"
  with head_fits obtain t where t: "table_named (tb_name m) tables_0004 = Some t" "columns_fit m t" "keys_implied m t"
    by (auto simp: fits_schema_def list_all_iff split: option.splits)
  have "\<forall>rows :: (pystr \<Rightarrow> 'v) list. rows_allowed t rows \<longrightarrow> rows_allowed m rows"
    using keys_implied_rows [OF t(3)] by blast
  with t(1,2) show "?fit head_tables m"
    by (simp add: head_tables_def table_named_under_rls)
qed

lemma upgraded_schema_fits_witness:
  "\<exists>s m t. upgrade_head Postgres (None, []) = (Inr (), Some expected_revision, s)
     \<and> table_named (lit ''control_events'') mapped_schema = Some m \<and> table_named (lit ''control_events'') s = Some t
     \<and> columns_fit m t \<and> rows_allowed m ([] :: (pystr \<Rightarrow> int) list)"
proof -
  obtain m where m: "table_named (lit ''control_events'') mapped_schema = Some m"
    by (simp add: mapped_schema_def table_named_def find_row_def new_table_def)
  from upgraded_schema_fits [where 'v = int] obtain s where s: "upgrade_head Postgres (None, []) = (Inr (), Some expected_revision, s)"
    "\<forall>m \<in> set mapped_schema. \<exists>t. table_named (tb_name m) s = Some t \<and> columns_fit m t
       \<and> (\<forall>rows :: (pystr \<Rightarrow> int) list. rows_allowed t rows \<longrightarrow> rows_allowed m rows)" by blast
  have "rows_allowed t ([] :: (pystr \<Rightarrow> int) list)" for t by (simp add: rows_allowed_def)
  with s table_named_Some [OF m] m show ?thesis by metis
qed

section \<open>What the keys do not say\<close>

text \<open>
  The columns of an \<^verbatim>\<open>ON CONFLICT\<close> clause have to be those of a unique key; PostgreSQL refuses the statement
  where they are not.
\<close>

definition conflict_target :: "table_def \<Rightarrow> pystr list \<Rightarrow> bool" where
  "conflict_target t cs \<longleftrightarrow> list_ex (\<lambda>k. set k = set cs) (unique_keys t)"

text \<open>The targets that \<^verbatim>\<open>RegIntelService.add_document\<close> and \<^verbatim>\<open>RiskGraphService.add_entities\<close> name.\<close>

definition document_target :: "pystr list" where
  "document_target = [lit ''tenant_id'', lit ''document_key'', lit ''version_hash'']"

definition entity_target :: "pystr list" where
  "entity_target = [lit ''tenant_id'', lit ''entity_id'']"

lemma migrated_keys:
  "\<exists>t. table_named (lit ''regulation_documents'') tables_0004 = Some t \<and> unique_keys t = [[lit ''id''], [lit ''document_key'', lit ''version_hash'']]"
  "\<exists>t. table_named (lit ''control_events'') tables_0004 = Some t \<and> unique_keys t = [[lit ''id''], [lit ''event_id'']]"
  "\<exists>t. table_named (lit ''graph_entities'') tables_0004 = Some t \<and> unique_keys t = [[lit ''tenant_id'', lit ''entity_id'']]"
  by (simp_all add: tables_0004_def table_named_def find_row_def new_table_def unique_keys_def unique_index_def)

lemma mapped_keys:
  "\<exists>t. table_named (lit ''regulation_documents'') mapped_schema = Some t
     \<and> unique_keys t = [[lit ''id''], [lit ''tenant_id'', lit ''document_key'', lit ''version_hash'']]"
  "\<exists>t. table_named (lit ''control_events'') mapped_schema = Some t \<and> unique_keys t = [[lit ''id''], [lit ''tenant_id'', lit ''event_id'']]"
  "\<exists>t. table_named (lit ''graph_entities'') mapped_schema = Some t \<and> unique_keys t = [[lit ''tenant_id'', lit ''entity_id'']]"
  by (simp_all add: mapped_schema_def table_named_def find_row_def new_table_def unique_keys_def tenant_index_def plain_index_def)

definition table_in :: "schema \<Rightarrow> string \<Rightarrow> table_def" where
  "table_in s n = the (table_named (lit n) s)"

lemma migrated_in: "unique_keys (table_in head_tables ''regulation_documents'') = [[lit ''id''], [lit ''document_key'', lit ''version_hash'']]"
  "unique_keys (table_in head_tables ''control_events'') = [[lit ''id''], [lit ''event_id'']]"
  "unique_keys (table_in head_tables ''graph_entities'') = [[lit ''tenant_id'', lit ''entity_id'']]"
  using migrated_keys by (auto simp: table_in_def head_tables_def table_named_under_rls)

lemma mapped_in: "unique_keys (table_in mapped_schema ''regulation_documents'') =
    [[lit ''id''], [lit ''tenant_id'', lit ''document_key'', lit ''version_hash'']]"
  "unique_keys (table_in mapped_schema ''control_events'') = [[lit ''id''], [lit ''tenant_id'', lit ''event_id'']]"
  "unique_keys (table_in mapped_schema ''graph_entities'') = [[lit ''tenant_id'', lit ''entity_id'']]"
  using mapped_keys by (auto simp: table_in_def)

text \<open>
  C33: Two keys that the migrations left without the tenant.  The mapped classes let two tenants record
  control events with the same event id, and give \<^verbatim>\<open>add_document\<close> the unique key that its \<^verbatim>\<open>ON CONFLICT\<close>
  clause names.  In the migrated schema the second tenant's event violates a unique key, and no key has
  the columns of the clause, which \<^verbatim>\<open>add_entities\<close>, whose key was migrated, does have.
\<close>

theorem keys_without_tenant:
  assumes "r (lit ''id'') \<noteq> r' (lit ''id'')" and "r (lit ''tenant_id'') \<noteq> r' (lit ''tenant_id'')"
    and "r (lit ''event_id'') = r' (lit ''event_id'')"
  shows "rows_allowed (table_in mapped_schema ''control_events'') [r, r']
    \<and> \<not> rows_allowed (table_in head_tables ''control_events'') [r, r']
    \<and> conflict_target (table_in mapped_schema ''regulation_documents'') document_target
    \<and> \<not> conflict_target (table_in head_tables ''regulation_documents'') document_target
    \<and> conflict_target (table_in head_tables ''graph_entities'') entity_target"
proof -
  have "\<not> set [lit ''document_key'', lit ''version_hash''] = set document_target" "\<not> set [lit ''id''] = set document_target"
    by (auto simp: document_target_def dest: equalityD2)
  then show ?thesis
    using assms by (auto simp: rows_allowed_def conflict_target_def migrated_in mapped_in document_target_def entity_target_def)
qed

lemma keys_without_tenant_witness:
  "let event = (\<lambda>(i :: int) (t :: int) k. if k = lit ''id'' then i else if k = lit ''tenant_id'' then t else 0) in
     rows_allowed (table_in mapped_schema ''control_events'') [event 1 7, event 2 8]
     \<and> \<not> rows_allowed (table_in head_tables ''control_events'') [event 1 7, event 2 8]"
  unfolding Let_def
  using keys_without_tenant [of "\<lambda>k. if k = lit ''id'' then 1 else if k = lit ''tenant_id'' then 7 else (0 :: int)"
    "\<lambda>k. if k = lit ''id'' then 2 else if k = lit ''tenant_id'' then 8 else (0 :: int)"]
  by simp

section \<open>Going back\<close>

lemma steps_more: "steps n f m = Inr m' \<Longrightarrow> f m' = Inr None \<Longrightarrow> steps (n + k) f m = Inr m'"
  unfolding steps_append by (cases k) simp_all

lemma failed_unchanged: "fst (upgrade_head dl m) = Inl e \<Longrightarrow> upgrade_head dl m = (Inl e, m)"
  by (auto simp: upgrade_head_def in_transaction_def split: sum.splits)

text \<open>
  The tables after one and two steps down; taking back row-level security leaves \<^verbatim>\<open>FORCE\<close> set.  The tables that
  revision 4 creates anew do not have it.
\<close>

definition forced :: "table_def \<Rightarrow> table_def" where
  "forced t = t\<lparr>tb_forced := True\<rparr>"

definition tables_0003 :: schema where
  "tables_0003 = map (\<lambda>t. if tb_name t = lit ''outbox_events'' then t\<lparr>tb_columns := take 8 (tb_columns t)\<rparr> else t)
     (take 13 (map forced tables_0004))"

definition tables_again :: schema where
  "tables_again = take 13 (map forced tables_0004) @ drop 13 tables_0004"

lemma down_1: "downgrade_one Postgres (at_revision ''20260812_0005'' head_tables) = Inr (Some (at_revision ''20260812_0004'' (map forced tables_0004)))"
  by code_simp

lemma down_2: "downgrade_one Postgres (at_revision ''20260812_0004'' (map forced tables_0004)) = Inr (Some (at_revision ''20260812_0003'' tables_0003))"
  by code_simp

lemma up_2: "upgrade_one Postgres (at_revision ''20260812_0003'' tables_0003) = Inr (Some (at_revision ''20260812_0004'' tables_again))"
  by code_simp

lemma ready_forced: "rls_ready (map forced tables_0004)"
  using ready_0004 by (auto simp: rls_ready_def rls_free_def forced_def column_names_def comp_def list_all_iff)

lemma protect_forced: "map under_rls (map forced s) = map under_rls s"
  by (simp add: forced_def under_rls_def)

lemma ready_again: "rls_ready tables_again"
proof -
  have "map tb_name tables_again = map tb_name (take 13 tables_0004 @ drop 13 tables_0004)"
    by (simp add: tables_again_def take_map forced_def del: append_take_drop_id)
  moreover have "rls_free t" if "t \<in> set tables_again" for t
  proof -
    from that obtain u where "u \<in> set tables_0004" "t = u \<or> t = forced u"
      by (auto simp: tables_again_def take_map dest: in_set_takeD in_set_dropD)
    with ready_0004 show ?thesis by (auto simp: rls_ready_def list_all_iff rls_free_def forced_def column_names_def)
  qed
  ultimately show ?thesis using ready_0004 by (simp add: rls_ready_def list_all_iff)
qed

lemma protect_again: "map under_rls tables_again = head_tables"
proof -
  have "map under_rls tables_again = take 13 (map under_rls tables_0004) @ drop 13 (map under_rls tables_0004)"
    by (simp add: tables_again_def protect_forced take_map drop_map del: map_map)
  then show ?thesis by (simp add: head_tables_def)
qed

text \<open>Two steps further down, and what going up again meets.\<close>

definition tables_0002 :: schema where
  "tables_0002 = (case run_ddls downgrade_0003 tables_0003 of Inr s \<Rightarrow> s | Inl e \<Rightarrow> [])"

definition tables_0001 :: schema where
  "tables_0001 = (case run_ddls (downgrade_0002 tables_0002) tables_0002 of Inr s \<Rightarrow> s | Inl e \<Rightarrow> [])"

definition leftover :: ddl_error where
  "leftover = Duplicate_column (lit ''tax_rule_runs'') (lit ''rule_pack_json'')"

lemma down_3: "\<not> isl (run_ddls downgrade_0003 tables_0003)"
  by code_simp

lemma down_4: "\<not> isl (run_ddls (downgrade_0002 tables_0002) tables_0002)"
  by code_simp

lemma down_5: "run_ddls downgrade_0001 tables_0001 = Inr []"
  by code_simp

lemma up_3: "run_ddls upgrade_0003 tables_0002 = Inl leftover"
  by code_simp

lemma up_4: "(case run_ddls (upgrade_0002 tables_0001) tables_0001 of Inr s \<Rightarrow> Some (run_ddls upgrade_0003 s) | Inl e \<Rightarrow> None) = Some (Inl leftover)"
  by code_simp

lemma find_migrations:
  "find_row (\<lambda>x. mg_down x = None) migrations = Some (migrations ! 0)"
  "find_row (\<lambda>x. mg_down x = Some (lit ''20260811_0001'')) migrations = Some (migrations ! 1)"
  "find_row (\<lambda>x. mg_down x = Some (lit ''20260811_0002'')) migrations = Some (migrations ! 2)"
  "find_row (\<lambda>x. mg_down x = Some (lit ''20260812_0005'')) migrations = None"
  "find_row (\<lambda>x. Some (mg_revision x) = Some (lit ''20260811_0001'')) migrations = Some (migrations ! 0)"
  "find_row (\<lambda>x. Some (mg_revision x) = Some (lit ''20260811_0002'')) migrations = Some (migrations ! 1)"
  "find_row (\<lambda>x. Some (mg_revision x) = Some (lit ''20260812_0003'')) migrations = Some (migrations ! 2)"
  "find_row (\<lambda>x. Some (mg_revision x) = None) migrations = None"
  by (simp_all add: migrations_def find_row_def)

lemma down_steps:
  "downgrade_one Postgres (at_revision ''20260812_0003'' tables_0003) = Inr (Some (at_revision ''20260811_0002'' tables_0002))"
  "downgrade_one Postgres (at_revision ''20260811_0002'' tables_0002) = Inr (Some (at_revision ''20260811_0001'' tables_0001))"
  "downgrade_one Postgres (at_revision ''20260811_0001'' tables_0001) = Inr (Some (None, []))"
  "downgrade_one Postgres (None, []) = Inr None"
proof -
  have "run_ddls downgrade_0003 tables_0003 = Inr tables_0002"
    using down_3 by (cases "run_ddls downgrade_0003 tables_0003") (simp_all add: tables_0002_def)
  then show "downgrade_one Postgres (at_revision ''20260812_0003'' tables_0003) = Inr (Some (at_revision ''20260811_0002'' tables_0002))"
    unfolding downgrade_one_def at_revision_def fst_conv snd_conv find_migrations by (simp add: migrations_def)
  have "run_ddls (downgrade_0002 tables_0002) tables_0002 = Inr tables_0001"
    using down_4 by (cases "run_ddls (downgrade_0002 tables_0002) tables_0002") (simp_all add: tables_0001_def)
  then show "downgrade_one Postgres (at_revision ''20260811_0002'' tables_0002) = Inr (Some (at_revision ''20260811_0001'' tables_0001))"
    unfolding downgrade_one_def at_revision_def fst_conv snd_conv find_migrations by (simp add: migrations_def)
  show "downgrade_one Postgres (at_revision ''20260811_0001'' tables_0001) = Inr (Some (None, []))"
    unfolding downgrade_one_def at_revision_def fst_conv snd_conv find_migrations by (simp add: migrations_def down_5)
  show "downgrade_one Postgres (None, []) = Inr None"
    unfolding downgrade_one_def fst_conv find_migrations by simp
qed

text \<open>The database after \<open>n\<close> steps down from the head.\<close>

definition down :: "nat \<Rightarrow> migrated" where
  "down n = (if n = 0 then head else if n = 1 then at_revision ''20260812_0004'' (map forced tables_0004)
     else if n = 2 then at_revision ''20260812_0003'' tables_0003 else if n = 3 then at_revision ''20260811_0002'' tables_0002
     else if n = 4 then at_revision ''20260811_0001'' tables_0001 else (None, []))"

lemma downgrade_steps: "steps n (downgrade_one Postgres) head = Inr (down n)"
proof (induction n)
  case (Suc n)
  have "downgrade_one Postgres (down n) = Inr (if n < 5 then Some (down (Suc n)) else None)" "\<not> n < 5 \<longrightarrow> down (Suc n) = down n"
    by (auto simp: down_def head_eq down_1 down_2 down_steps numeral_eq_Suc less_Suc_eq)
  with Suc steps_append [of n 1 "downgrade_one Postgres" head] show ?case by (simp split: if_splits)
qed (simp add: down_def)

lemma lineage_head: "lineage (fst head) = 5"
proof -
  have "lineage (Some (lit ''20260812_0005'')) = 5" by code_simp
  then show ?thesis by (simp add: head_eq at_revision_def)
qed

lemma downgrade_head: "downgrade Postgres n head = (if n \<le> 5 then (Inr (), down n) else (Inl Walked_too_far, head))"
  by (simp add: downgrade_def in_transaction_def downgrade_steps lineage_head)

lemma up_steps:
  "upgrade_one Postgres (at_revision ''20260812_0005'' s) = Inr None"
  "upgrade_one Postgres (at_revision ''20260811_0002'' tables_0002) = Inl leftover"
  "\<exists>s. upgrade_one Postgres (at_revision ''20260811_0001'' tables_0001) = Inr (Some (at_revision ''20260811_0002'' s))
     \<and> upgrade_one Postgres (at_revision ''20260811_0002'' s) = Inl leftover"
proof -
  show "upgrade_one Postgres (at_revision ''20260812_0005'' s) = Inr None"
    unfolding upgrade_one_def at_revision_def fst_conv find_migrations by simp
  have three: "upgrade_one Postgres (at_revision ''20260811_0002'' s) = Inl leftover" if "run_ddls upgrade_0003 s = Inl leftover" for s
    using that unfolding upgrade_one_def at_revision_def fst_conv snd_conv find_migrations by (simp add: migrations_def)
  then show "upgrade_one Postgres (at_revision ''20260811_0002'' tables_0002) = Inl leftover" using up_3 by simp
  from up_4 obtain s where s: "run_ddls (upgrade_0002 tables_0001) tables_0001 = Inr s" "run_ddls upgrade_0003 s = Inl leftover"
    by (auto split: sum.splits)
  then have "upgrade_one Postgres (at_revision ''20260811_0001'' tables_0001) = Inr (Some (at_revision ''20260811_0002'' s))"
    unfolding upgrade_one_def at_revision_def fst_conv snd_conv find_migrations by (simp add: migrations_def)
  with three [OF s(2)] show "\<exists>s. upgrade_one Postgres (at_revision ''20260811_0001'' tables_0001) = Inr (Some (at_revision ''20260811_0002'' s))
     \<and> upgrade_one Postgres (at_revision ''20260811_0002'' s) = Inl leftover" by blast
qed

lemma up_again: "upgrade_head Postgres (down n) = (if n = 3 \<or> n = 4 then (Inl leftover, down n) else (Inr (), head))"
proof -
  have len: "length migrations = Suc (Suc (Suc (Suc (Suc 0))))" by (simp add: migrations_def)
  have p: "upgrade_one Postgres (at_revision ''20260812_0004'' (map forced tables_0004)) = Inr (Some head)"
    "upgrade_one Postgres (at_revision ''20260812_0004'' tables_again) = Inr (Some head)"
    using protect_all [OF ready_forced] protect_all [OF ready_again]
    by (simp_all only: protect_forced protect_again head_eq head_tables_def [symmetric])
  have h: "upgrade_one Postgres head = Inr None" by (simp add: head_eq up_steps)
  from up_steps(3) obtain s where s: "upgrade_one Postgres (at_revision ''20260811_0001'' tables_0001) = Inr (Some (at_revision ''20260811_0002'' s))"
    "upgrade_one Postgres (at_revision ''20260811_0002'' s) = Inl leftover" by blast
  consider "n = 0" | "n = 1" | "n = 2" | "n = 3" | "n = 4" | "5 \<le> n" by linarith
  then show ?thesis
  proof cases
    case 6
    then show ?thesis by (simp add: down_def upgrade_empty head_eq)
  qed (simp_all add: upgrade_head_def in_transaction_def len down_def h p up_2 s up_steps(2))
qed

text \<open>
  C34: Which downgrades can be taken back.  From the head, \<^verbatim>\<open>alembic downgrade -n\<close> succeeds for \<open>n\<close> from one to the
  five revisions that there are, and raises for more.  Upgrading again after it restores the head exactly if \<open>n\<close>
  is one, two or five: revision 3 does not drop the columns that it added beside the tenant, so that from
  revisions 1 and 2 every upgrade raises and leaves the database where it is.
\<close>

theorem redeployment_exact:
  "if n \<le> 5 then \<exists>m. downgrade Postgres n head = (Inr (), m)
       \<and> upgrade_head Postgres m = (if n = 3 \<or> n = 4 then (Inl leftover, m) else (Inr (), head))
   else downgrade Postgres n head = (Inl Walked_too_far, head)"
  using downgrade_head up_again by simp

section \<open>The preflight of a migrated database\<close>

text \<open>What the catalogue queries return for a database whose tables belong to \<open>owner\<close>; \<^verbatim>\<open>alembic_version\<close> is one of them.\<close>

definition catalogue_of :: "pystr \<Rightarrow> pg_role \<Rightarrow> migrated \<Rightarrow> pg_catalogue" where
  "catalogue_of owner role m = \<lparr>pg_open = Inr (), pg_role_row = Inr role, pg_revision = Inr (fst m),
     pg_table_rows = Inr (\<lparr>pt_name = lit ''alembic_version'', pt_owner = owner, pt_rls = False, pt_forced = False\<rparr>
       # map (\<lambda>t. \<lparr>pt_name = tb_name t, pt_owner = owner, pt_rls = tb_rls t, pt_forced = tb_forced t\<rparr>) (snd m))\<rparr>"

lemma tenant_tables_rls: "set tenant_tables = set rls_tables"
  by (auto simp: tenant_tables_def rls_tables_def)

lemma head_tables_protected:
  assumes "owner \<noteq> role_name role"
  shows "check_tables role (\<lparr>pt_name = lit ''alembic_version'', pt_owner = owner, pt_rls = False, pt_forced = False\<rparr>
       # map (\<lambda>t. \<lparr>pt_name = tb_name t, pt_owner = owner, pt_rls = tb_rls t, pt_forced = tb_forced t\<rparr>) head_tables) = Inr ()"
proof -
  have n: "map tb_name head_tables = map tb_name tables_0004" by (simp add: head_tables_def)
  have r: "distinct (map tb_name head_tables)" "set (map tb_name head_tables) = set rls_tables"
    using ready_0004 unfolding n by (simp_all add: rls_ready_def)
  have "lit ''alembic_version'' \<notin> set rls_tables" by (simp add: rls_tables_def)
  with r have d: "distinct (map pt_name (\<lparr>pt_name = lit ''alembic_version'', pt_owner = owner, pt_rls = False, pt_forced = False\<rparr>
       # map (\<lambda>t. \<lparr>pt_name = tb_name t, pt_owner = owner, pt_rls = tb_rls t, pt_forced = tb_forced t\<rparr>) head_tables))"
    by (auto simp: comp_def)
  have "tb_rls t \<and> tb_forced t" if "t \<in> set head_tables" for t
    using that by (auto simp: head_tables_def under_rls_def)
  with r(2) assms show ?thesis unfolding check_tables_ok [OF d] tenant_tables_rls
    by (force simp: protected_def)
qed

lemma down_revision: "0 < n \<Longrightarrow> fst (down n) \<noteq> Some expected_revision"
  by (simp add: down_def at_revision_def expected_revision_def)

text \<open>
  C35: The preflight accepts the migrated database and no older one.  With the settings of a production
  deployment and a request role that is no superuser, cannot bypass row-level security and does not own the
  tables, the preflight of the head revision returns its report; after a downgrade of any number of steps it is
  refused for its revision.
\<close>

theorem migrated_preflight:
  assumes "check_settings url issuer audience jwks key dev = Inr ()"
    and "\<not> role_super role" and "\<not> role_bypass role" and "owner \<noteq> role_name role"
    and "downgrade Postgres n (snd (upgrade_head Postgres (None, []))) = (Inr (), m)"
  shows "run_preflight url issuer audience jwks key dev (catalogue_of owner role m) =
    (if n = 0 then Inr (preflight_report (role_name role) expected_revision)
     else Inl (PreflightError (lit ''database schema must be at revision '' @ expected_revision)))"
proof -
  have m: "m = down n" using assms(5) downgrade_head [of n] by (simp add: head_def split: if_splits)
  show ?thesis
  proof (cases n)
    case 0
    then show ?thesis using assms(1-4) head_tables_protected [OF assms(4)]
      by (simp add: m run_preflight_def catalogue_of_def raise_if_def down_def head_eq at_revision_def expected_revision_def)
  next
    case (Suc k)
    then show ?thesis using assms(1-3) down_revision [of n]
      by (simp add: m run_preflight_def catalogue_of_def raise_if_def)
  qed
qed

lemma migrated_preflight_witness:
  "\<exists>m. downgrade Postgres 1 (snd (upgrade_head Postgres (None, []))) = (Inr (), m)
    \<and> run_preflight (lit ''postgresql+psycopg://db'') (lit ''https://id'') (lit ''api'') (lit ''https://id/keys'') (replicate 43 65 @ [61]) False
        (catalogue_of (lit ''owner'') \<lparr>role_name = lit ''app'', role_super = False, role_bypass = False\<rparr> m)
      = Inl (PreflightError (lit ''database schema must be at revision '' @ expected_revision))"
proof -
  have c: "check_settings (lit ''postgresql+psycopg://db'') (lit ''https://id'') (lit ''api'') (lit ''https://id/keys'')
      (replicate 43 65 @ [61]) False = Inr ()" by code_simp
  have d: "downgrade Postgres 1 (snd (upgrade_head Postgres (None, []))) = (Inr (), down 1)"
    using downgrade_head [of 1] by (simp add: head_def)
  show ?thesis
    using d migrated_preflight [OF c _ _ _ d, of "\<lparr>role_name = lit ''app'', role_super = False, role_bypass = False\<rparr>" "lit ''owner''"] by simp
qed

end
