(* ===== verification/Repo_Checks.thy ===== *)
theory Repo_Checks
  imports Py_Bytes Py_Dict Py_Time
begin

text \<open>
  The scripts of the repository: whether the main branch is protected, whether the audited dependencies are
  the declared ones, and whether the one exception for a vulnerability is still in force.
\<close>

section \<open>Branch protection (\<open>verify_github_governance.py\<close>)\<close>

text \<open>What running \<^verbatim>\<open>gh api\<close> gives.\<close>

record gh_reply =
  gh_code :: int
  gh_out :: pystr
  gh_err :: pystr

definition github_actions_app_id :: int where
  "github_actions_app_id = 15368"

definition governance_failed :: "pystr \<Rightarrow> py_error" where
  "governance_failed message = SystemExit (lit ''governance verification failed: '' @ message)"

definition demand :: "bool \<Rightarrow> string \<Rightarrow> unit res" where
  "demand c message = raise_if (\<not> c) (governance_failed (lit message))"

text \<open>\<open>wrong\<close> is the text of a \<^verbatim>\<open>JSONDecodeError\<close>.\<close>

definition gh_api :: "pyenv \<Rightarrow> (pystr \<Rightarrow> pystr) \<Rightarrow> (pystr \<Rightarrow> gh_reply) \<Rightarrow> pystr \<Rightarrow> json res" where
  "gh_api E wrong gh path = (let r = gh path in
     if gh_code r \<noteq> 0
     then Inl (governance_failed (if py_strip (gh_err r) \<noteq> [] then py_strip (gh_err r)
       else lit ''GitHub API request failed: '' @ path))
     else if py_strip (gh_out r) = [] then Inr JNull
     else case loads E (gh_out r) of
       Inl JSONDecodeError \<Rightarrow> Inl (governance_failed (lit ''GitHub API returned invalid JSON for '' @ path @ lit '': '' @ wrong (gh_out r)))
     | x \<Rightarrow> x)"

definition field :: "string \<Rightarrow> (pystr \<times> json) list \<Rightarrow> json" where
  "field k kvs = (case map_of kvs (lit k) of None \<Rightarrow> JNull | Some v \<Rightarrow> v)"

definition enabled :: "json \<Rightarrow> bool" where
  "enabled v = (case v of JObj kvs \<Rightarrow> field ''enabled'' kvs = JBool True | _ \<Rightarrow> False)"

text \<open>\<^verbatim>\<open>v.get(k)\<close>, and \<^verbatim>\<open>v or default\<close>.\<close>

definition get :: "string \<Rightarrow> json \<Rightarrow> json res" where
  "get k v = jget_or (lit k) JNull v"

definition or_else :: "json \<Rightarrow> json \<Rightarrow> json" where
  "or_else v dflt = (if truthy v then v else dflt)"

definition object_value :: "json \<Rightarrow> bool" where
  "object_value v = (case v of JObj kvs \<Rightarrow> True | _ \<Rightarrow> False)"

text \<open>A pair \<^verbatim>\<open>(item.get("context"), item.get("app_id"))\<close> of the set that is built.\<close>

definition check_pair :: "json \<Rightarrow> (json \<times> json) res" where
  "check_pair item = bind_res (get ''context'' item) (\<lambda>c. bind_res (get ''app_id'' item) (\<lambda>a.
     bind_res (raise_if (\<not> hashable c \<or> \<not> hashable a) TypeError) (\<lambda>_. Inr (c, a))))"

definition bound_check :: "(json \<times> json) list \<Rightarrow> pystr \<Rightarrow> bool" where
  "bound_check actual name = list_ex (\<lambda>(c, a). scalar_eq c (JStr name) \<and> scalar_eq a (JInt github_actions_app_id)) actual"

fun demand_checks :: "(json \<times> json) list \<Rightarrow> pystr list \<Rightarrow> unit res" where
  "demand_checks actual [] = Inr ()"
| "demand_checks actual (name # names) = bind_res
     (raise_if (\<not> bound_check actual name) (governance_failed (name @ lit '' is missing or not bound to GitHub Actions'')))
     (\<lambda>_. demand_checks actual names)"

definition foreign_checks :: "(json \<times> json) list \<Rightarrow> pystr list" where
  "foreign_checks actual = sort (map (\<lambda>(c, a). scalar_str c) (filter (\<lambda>(c, a). \<not> scalar_eq a (JInt github_actions_app_id)) actual))"

definition verify_protection :: "pystr list \<Rightarrow> json \<Rightarrow> unit res" where
  "verify_protection expected protection =
     bind_res (get ''required_status_checks'' protection) (\<lambda>st. let status = or_else st (JObj []) in
     bind_res (get ''required_pull_request_reviews'' protection) (\<lambda>reviews.
     bind_res (get ''strict'' status) (\<lambda>strict.
     bind_res (demand (strict = JBool True) ''required checks are not strict'') (\<lambda>_.
     bind_res (get ''enforce_admins'' protection) (\<lambda>admins.
     bind_res (demand (enabled admins) ''administrators are not bound by protection'') (\<lambda>_.
     bind_res (demand (object_value reviews) ''pull requests are not required'') (\<lambda>_.
     bind_res (get ''required_approving_review_count'' reviews) (\<lambda>n.
     bind_res (demand (scalar_eq n (JInt 0)) ''single-maintainer approval count must be zero'') (\<lambda>_.
     bind_res (get ''required_linear_history'' protection) (\<lambda>linear.
     bind_res (demand (enabled linear) ''linear history is not required'') (\<lambda>_.
     bind_res (get ''required_conversation_resolution'' protection) (\<lambda>resolution.
     bind_res (demand (enabled resolution) ''conversation resolution is not required'') (\<lambda>_.
     bind_res (get ''allow_force_pushes'' protection) (\<lambda>pushes.
     bind_res (demand (\<not> enabled pushes) ''force pushes are allowed'') (\<lambda>_.
     bind_res (get ''allow_deletions'' protection) (\<lambda>deletions.
     bind_res (demand (\<not> enabled deletions) ''branch deletion is allowed'') (\<lambda>_.
     bind_res (get ''checks'' status) (\<lambda>cs.
     bind_res (jiter (or_else cs (JList []))) (\<lambda>checks.
     bind_res (map_res check_pair checks) (\<lambda>actual.
     bind_res (demand_checks actual expected) (\<lambda>_.
       raise_if (foreign_checks actual \<noteq> [])
         (governance_failed (lit ''checks are bound to unexpected applications: '' @ py_join (lit '', '') (foreign_checks actual)))
     )))))))))))))))))))))"

fun demand_features :: "json \<Rightarrow> string list \<Rightarrow> unit res" where
  "demand_features security [] = Inr ()"
| "demand_features security (name # names) =
     bind_res (get name security) (\<lambda>v. bind_res (get ''status'' (or_else v (JObj []))) (\<lambda>status.
     bind_res (demand (status = JStr (lit ''enabled'')) (name @ '' is not enabled'')) (\<lambda>_. demand_features security names)))"

definition security_features :: "string list" where
  "security_features = [''secret_scanning'', ''secret_scanning_push_protection'', ''dependabot_security_updates'']"

definition verify_repository :: "json \<Rightarrow> unit res" where
  "verify_repository repo =
     bind_res (get ''security_and_analysis'' repo) (\<lambda>sec.
     bind_res (demand_features (or_else sec (JObj [])) security_features) (\<lambda>_.
     bind_res (get ''allow_auto_merge'' repo) (\<lambda>auto_merge.
     bind_res (demand (auto_merge = JBool True) ''automatic merge is not enabled'') (\<lambda>_.
     bind_res (get ''delete_branch_on_merge'' repo) (\<lambda>delete_branch.
       demand (delete_branch = JBool True) ''merged branches are not deleted'')))))"

definition expected_names :: "pystr \<Rightarrow> pystr list" where
  "expected_names raw = filter (\<lambda>s. s \<noteq> []) (map py_strip (py_split 44 raw))"

definition governance_report :: "pystr \<Rightarrow> pystr list \<Rightarrow> json" where
  "governance_report repository expected = JObj
     [(lit ''administrators_enforced'', JBool True), (lit ''deletions'', JBool False), (lit ''dependabot_security_updates'', JBool True),
      (lit ''force_pushes'', JBool False), (lit ''push_protection'', JBool True), (lit ''repository'', JStr repository),
      (lit ''required_checks'', JList (map JStr expected)), (lit ''required_checks_app_id'', JInt github_actions_app_id),
      (lit ''secret_scanning'', JBool True), (lit ''valid'', JBool True)]"

definition verify_governance ::
  "pyenv \<Rightarrow> (pystr \<Rightarrow> pystr) \<Rightarrow> (pystr \<Rightarrow> gh_reply) \<Rightarrow> (pystr \<Rightarrow> pystr option) \<Rightarrow> json res" where
  "verify_governance E wrong gh env =
     (let var = \<lambda>name. (case env (lit name) of None \<Rightarrow> [] | Some v \<Rightarrow> v);
          repository = py_strip (var ''GITHUB_REPOSITORY''); expected = expected_names (var ''EXPECTED_REQUIRED_CHECKS'');
          repos = lit ''repos/'' @ repository in
     bind_res (demand (var ''GH_TOKEN'' \<noteq> []) ''GH_TOKEN is required (for example: GH_TOKEN=$(gh auth token))'') (\<lambda>_.
     bind_res (demand (47 \<in> set repository) ''GITHUB_REPOSITORY must be owner/repository'') (\<lambda>_.
     bind_res (demand (expected \<noteq> []) ''EXPECTED_REQUIRED_CHECKS is required'') (\<lambda>_.
     bind_res (gh_api E wrong gh (repos @ lit ''/branches/main/protection'')) (\<lambda>protection.
     bind_res (gh_api E wrong gh repos) (\<lambda>repo.
     bind_res (verify_protection expected protection) (\<lambda>_.
     bind_res (verify_repository repo) (\<lambda>_.
     bind_res (gh_api E wrong gh (repos @ lit ''/vulnerability-alerts'')) (\<lambda>_.
     bind_res (gh_api E wrong gh (repos @ lit ''/automated-security-fixes'')) (\<lambda>_.
       Inr (governance_report repository expected)))))))))))"

text \<open>A branch that is protected as the repository's policy says.\<close>

definition policy_held :: "pystr list \<Rightarrow> (pystr \<times> json) list \<Rightarrow> bool" where
  "policy_held expected p \<longleftrightarrow> (\<exists>status reviews checks.
     field ''required_status_checks'' p = JObj status \<and> field ''strict'' status = JBool True
     \<and> field ''required_pull_request_reviews'' p = JObj reviews
     \<and> scalar_eq (field ''required_approving_review_count'' reviews) (JInt 0)
     \<and> enabled (field ''enforce_admins'' p) \<and> enabled (field ''required_linear_history'' p)
     \<and> enabled (field ''required_conversation_resolution'' p)
     \<and> \<not> enabled (field ''allow_force_pushes'' p) \<and> \<not> enabled (field ''allow_deletions'' p)
     \<and> field ''checks'' status = JList checks
     \<and> (\<forall>x \<in> set checks. \<exists>kvs. x = JObj kvs \<and> hashable (field ''context'' kvs) \<and> hashable (field ''app_id'' kvs)
          \<and> scalar_eq (field ''app_id'' kvs) (JInt github_actions_app_id))
     \<and> (\<forall>n \<in> set expected. \<exists>kvs. JObj kvs \<in> set checks \<and> field ''context'' kvs = JStr n))"

lemma demand_ok: "demand c message = Inr () \<longleftrightarrow> c"
  by (simp add: demand_def raise_if_Inr)

lemma get_ok: "get k v = Inr x \<longleftrightarrow> (\<exists>kvs. v = JObj kvs \<and> x = field k kvs)"
  by (auto simp: get_def jget_or_def field_def split: json.splits option.splits)

lemma get_JObj [simp]: "get k (JObj kvs) = Inr (field k kvs)"
  by (simp add: get_def field_def)

lemma object_value_iff: "object_value v \<longleftrightarrow> (\<exists>kvs. v = JObj kvs)"
  by (cases v) (simp_all add: object_value_def)

lemma or_else_object: "or_else v (JObj []) = JObj kvs \<longleftrightarrow> v = JObj kvs \<or> \<not> truthy v \<and> kvs = []"
  by (auto simp: or_else_def)

lemma check_pair_ok: "check_pair item = Inr (c, a) \<longleftrightarrow> (\<exists>kvs. item = JObj kvs \<and> c = field ''context'' kvs \<and> a = field ''app_id'' kvs
    \<and> hashable c \<and> hashable a)"
  by (auto simp: check_pair_def bind_res_Inr get_ok raise_if_Inr)

lemma demand_checks_ok: "demand_checks actual names = Inr () \<longleftrightarrow> (\<forall>n \<in> set names. bound_check actual n)"
  by (induction names) (auto simp: bind_res_Inr raise_if_Inr)

lemma foreign_checks_none: "foreign_checks actual = [] \<longleftrightarrow> (\<forall>(c, a) \<in> set actual. scalar_eq a (JInt github_actions_app_id))"
proof -
  have "sort xs = [] \<longleftrightarrow> xs = []" for xs :: "pystr list" by (metis length_0_conv length_sort)
  then show ?thesis by (auto simp: foreign_checks_def filter_empty_conv)
qed

lemma all2_left: "list_all2 P xs ys \<Longrightarrow> x \<in> set xs \<Longrightarrow> \<exists>y \<in> set ys. P x y"
  by (induction rule: list_all2_induct) auto

lemma all2_right: "list_all2 P xs ys \<Longrightarrow> y \<in> set ys \<Longrightarrow> \<exists>x \<in> set xs. P x y"
  by (induction rule: list_all2_induct) auto

lemma check_list_ok:
  assumes "names \<noteq> []"
  shows "(\<exists>checks actual. jiter (or_else cs (JList [])) = Inr checks \<and> map_res check_pair checks = Inr actual
      \<and> (\<forall>n \<in> set names. bound_check actual n) \<and> foreign_checks actual = [])
    \<longleftrightarrow> (\<exists>checks. cs = JList checks
      \<and> (\<forall>x \<in> set checks. \<exists>kvs. x = JObj kvs \<and> hashable (field ''context'' kvs) \<and> hashable (field ''app_id'' kvs)
           \<and> scalar_eq (field ''app_id'' kvs) (JInt github_actions_app_id))
      \<and> (\<forall>n \<in> set names. \<exists>kvs. JObj kvs \<in> set checks \<and> field ''context'' kvs = JStr n))"
  (is "?l \<longleftrightarrow> ?r")
proof
  assume ?l
  then obtain checks actual where a: "jiter (or_else cs (JList [])) = Inr checks" "list_all2 (\<lambda>x y. check_pair x = Inr y) checks actual"
    "\<forall>n \<in> set names. bound_check actual n" "foreign_checks actual = []" by (auto simp: map_res_Inr)
  from assms a(3) have "actual \<noteq> []" by (cases names) (auto simp: bound_check_def)
  with a(2) have "\<exists>kvs. JObj kvs \<in> set checks"
    by (cases checks; cases actual) (auto simp: check_pair_ok)
  then obtain kvs where "JObj kvs \<in> set checks" ..
  with a(1) have cs: "cs = JList checks"
    by (cases cs) (auto simp: or_else_def jiter_def split: if_splits)
  moreover have "\<exists>kvs. x = JObj kvs \<and> hashable (field ''context'' kvs) \<and> hashable (field ''app_id'' kvs)
      \<and> scalar_eq (field ''app_id'' kvs) (JInt github_actions_app_id)" if "x \<in> set checks" for x
  proof -
    from all2_left [OF a(2) that] obtain c i where "(c, i) \<in> set actual" "check_pair x = Inr (c, i)" by auto
    with a(4) show ?thesis by (fastforce simp: foreign_checks_none check_pair_ok)
  qed
  moreover have "\<exists>kvs. JObj kvs \<in> set checks \<and> field ''context'' kvs = JStr n" if "n \<in> set names" for n
  proof -
    from a(3) that obtain c i where "(c, i) \<in> set actual" "c = JStr n"
      by (auto simp: bound_check_def list_ex_iff scalar_eq_JStr_right)
    with all2_right [OF a(2)] show ?thesis by (fastforce simp: check_pair_ok)
  qed
  ultimately show ?r by blast
next
  assume ?r
  then obtain checks where c: "cs = JList checks"
    "\<forall>x \<in> set checks. \<exists>kvs. x = JObj kvs \<and> hashable (field ''context'' kvs) \<and> hashable (field ''app_id'' kvs)
       \<and> scalar_eq (field ''app_id'' kvs) (JInt github_actions_app_id)"
    "\<forall>n \<in> set names. \<exists>kvs. JObj kvs \<in> set checks \<and> field ''context'' kvs = JStr n" by blast
  let ?f = "\<lambda>x. case x of JObj kvs \<Rightarrow> (field ''context'' kvs, field ''app_id'' kvs) | _ \<Rightarrow> (JNull, JNull)"
  have m: "map_res check_pair checks = Inr (map ?f checks)"
    using c(2) by (auto simp: map_res_Inr list_all2_map2 list_all2_same check_pair_ok)
  have "bound_check (map ?f checks) n" if "n \<in> set names" for n
  proof -
    from c(3) that obtain kvs where "JObj kvs \<in> set checks" "field ''context'' kvs = JStr n" by blast
    with c(2) have "scalar_eq (field ''context'' kvs) (JStr n) \<and> scalar_eq (field ''app_id'' kvs) (JInt github_actions_app_id)"
      by auto
    with \<open>JObj kvs \<in> set checks\<close> show ?thesis
      by (auto simp: bound_check_def list_ex_iff intro!: bexI [of _ "JObj kvs"])
  qed
  moreover have "foreign_checks (map ?f checks) = []" using c(2) by (auto simp: foreign_checks_none)
  moreover have "jiter (or_else cs (JList [])) = Inr checks" by (simp add: c(1) or_else_def)
  ultimately show ?l using m by blast
qed

lemma verify_protection_ok:
  assumes "expected \<noteq> []"
  shows "verify_protection expected v = Inr () \<longleftrightarrow> (\<exists>p. v = JObj p \<and> policy_held expected p)"
proof (cases "\<exists>p. v = JObj p")
  case False
  then show ?thesis by (auto simp: verify_protection_def bind_res_Inr get_ok)
next
  case True
  then obtain p where v: "v = JObj p" by blast
  let ?sv = "field ''required_status_checks'' p"
  show ?thesis
  proof (cases "\<exists>status. ?sv = JObj status \<and> field ''strict'' status = JBool True")
    case False
    have "field ''strict'' [] \<noteq> JBool True" by (simp add: field_def)
    with False have "get ''strict'' (or_else ?sv (JObj [])) \<noteq> Inr (JBool True)"
      by (auto simp: get_ok or_else_object)
    then have "verify_protection expected v \<noteq> Inr ()"
      by (auto simp: verify_protection_def v Let_def bind_res_Inr demand_ok)
    with False show ?thesis by (auto simp: v policy_held_def)
  next
    case True
    then obtain status where s: "?sv = JObj status" "field ''strict'' status = JBool True" by blast
    from s(2) have "status \<noteq> []" by (auto simp: field_def)
    then have "or_else ?sv (JObj []) = JObj status" by (simp add: s(1) or_else_def)
    then have "verify_protection expected v = Inr () \<longleftrightarrow>
        enabled (field ''enforce_admins'' p) \<and> (\<exists>reviews. field ''required_pull_request_reviews'' p = JObj reviews
          \<and> scalar_eq (field ''required_approving_review_count'' reviews) (JInt 0))
        \<and> enabled (field ''required_linear_history'' p) \<and> enabled (field ''required_conversation_resolution'' p)
        \<and> \<not> enabled (field ''allow_force_pushes'' p) \<and> \<not> enabled (field ''allow_deletions'' p)
        \<and> (\<exists>checks actual. jiter (or_else (field ''checks'' status) (JList [])) = Inr checks \<and> map_res check_pair checks = Inr actual
          \<and> (\<forall>n \<in> set expected. bound_check actual n) \<and> foreign_checks actual = [])"
      by (auto simp: verify_protection_def v Let_def bind_res_Inr demand_ok s(2) get_ok object_value_iff demand_checks_ok raise_if_Inr)
    also have "\<dots> \<longleftrightarrow> policy_held expected p"
      unfolding check_list_ok [OF assms] policy_held_def using s by auto
    finally show ?thesis by (simp add: v)
  qed
qed

text \<open>A repository whose security features and merge settings are the required ones.\<close>

definition settings_held :: "(pystr \<times> json) list \<Rightarrow> bool" where
  "settings_held r \<longleftrightarrow> (\<exists>sec. field ''security_and_analysis'' r = JObj sec
       \<and> (\<forall>name \<in> set security_features. \<exists>kvs. field name sec = JObj kvs \<and> field ''status'' kvs = JStr (lit ''enabled'')))
     \<and> field ''allow_auto_merge'' r = JBool True \<and> field ''delete_branch_on_merge'' r = JBool True"

lemma demand_features_ok: "demand_features v names = Inr () \<longleftrightarrow> names = [] \<or> (\<exists>sec. v = JObj sec
    \<and> (\<forall>name \<in> set names. \<exists>kvs. field name sec = JObj kvs \<and> field ''status'' kvs = JStr (lit ''enabled'')))"
proof (induction names)
  case (Cons name names)
  have "field ''status'' [] \<noteq> JStr (lit ''enabled'')" by (simp add: field_def)
  then have "get ''status'' (or_else w (JObj [])) = Inr (JStr (lit ''enabled'')) \<longleftrightarrow>
      (\<exists>kvs. w = JObj kvs \<and> field ''status'' kvs = JStr (lit ''enabled''))" for w
    by (cases w) (auto simp: or_else_def get_ok field_def split: if_splits)
  with Cons show ?case by (auto simp: bind_res_Inr demand_ok get_ok [of name])
qed simp

lemma verify_repository_ok: "verify_repository v = Inr () \<longleftrightarrow> (\<exists>r. v = JObj r \<and> settings_held r)"
proof -
  have "field name [] = JNull" for name by (simp add: field_def)
  then have "demand_features (or_else s (JObj [])) security_features = Inr () \<longleftrightarrow> (\<exists>sec. s = JObj sec
      \<and> (\<forall>name \<in> set security_features. \<exists>kvs. field name sec = JObj kvs \<and> field ''status'' kvs = JStr (lit ''enabled'')))" for s
    unfolding demand_features_ok by (cases s) (auto simp: or_else_def security_features_def)
  then show ?thesis
    by (auto simp: verify_repository_def bind_res_Inr demand_ok get_ok settings_held_def)
qed

text \<open>
  C37: What the governance check accepts.  It passes exactly if a token, an owner's repository and at
  least one expected check are configured, every call of the API succeeds, the branch's
  protection is the required one (strict checks that only GitHub Actions provides, with every
  expected one among them, administrators bound, pull requests, a linear history, resolved
  conversations, no force pushes or deletions), and the repository's settings are.
\<close>

theorem governance_exact:
  "verify_governance E wrong gh env = Inr report \<longleftrightarrow>
    (\<exists>token owner raw p r x y. env (lit ''GH_TOKEN'') = Some token \<and> token \<noteq> []
      \<and> env (lit ''GITHUB_REPOSITORY'') = Some owner \<and> 47 \<in> set (py_strip owner)
      \<and> env (lit ''EXPECTED_REQUIRED_CHECKS'') = Some raw \<and> expected_names raw \<noteq> []
      \<and> gh_api E wrong gh (lit ''repos/'' @ py_strip owner @ lit ''/branches/main/protection'') = Inr (JObj p)
      \<and> gh_api E wrong gh (lit ''repos/'' @ py_strip owner) = Inr (JObj r)
      \<and> policy_held (expected_names raw) p \<and> settings_held r
      \<and> gh_api E wrong gh (lit ''repos/'' @ py_strip owner @ lit ''/vulnerability-alerts'') = Inr x
      \<and> gh_api E wrong gh (lit ''repos/'' @ py_strip owner @ lit ''/automated-security-fixes'') = Inr y
      \<and> report = governance_report (py_strip owner) (expected_names raw))"
proof -
  have e: "expected_names [] = []" "47 \<notin> set (py_strip [])" by (simp_all add: expected_names_def py_strip_def)
  show ?thesis
    by (cases "env (lit ''GH_TOKEN'')"; cases "env (lit ''GITHUB_REPOSITORY'')"; cases "env (lit ''EXPECTED_REQUIRED_CHECKS'')")
      (auto simp: verify_governance_def Let_def bind_res_Inr demand_ok e verify_protection_ok verify_repository_ok)
qed

section \<open>The audited dependencies (\<open>verify_dependency_manifest.py\<close>)\<close>

text \<open>\<^verbatim>\<open>s.splitlines()\<close>.\<close>

definition line_end :: "int \<Rightarrow> bool" where
  "line_end c \<longleftrightarrow> c \<in> {10, 11, 12, 13, 28, 29, 30, 133, 8232, 8233}"

text \<open>The flag is set just after a carriage return, which a line feed may follow.\<close>

fun split_lines :: "bool \<Rightarrow> pystr \<Rightarrow> pystr \<Rightarrow> pystr list" where
  "split_lines cr cur [] = (if cur = [] then [] else [cur])"
| "split_lines cr cur (c # s) = (if cr \<and> c = 10 then split_lines False [] s
     else if line_end c then cur # split_lines (c = 13) [] s else split_lines False (cur @ [c]) s)"

definition manifest_lines :: "pystr \<Rightarrow> pystr list" where
  "manifest_lines contents = map py_strip (filter (\<lambda>line. py_strip line \<noteq> [] \<and> \<not> py_startswith (dropWhile py_space line) [35])
     (split_lines False [] contents))"

text \<open>\<open>toml\<close> is \<^verbatim>\<open>tomllib.loads\<close>; what is printed is the number of dependencies.\<close>

definition verify_manifest :: "(pystr \<Rightarrow> json res) \<Rightarrow> pystr \<Rightarrow> pystr \<Rightarrow> int res" where
  "verify_manifest toml project requirements =
     bind_res (toml project) (\<lambda>document. bind_res (jget (lit ''project'') document) (\<lambda>p. bind_res (jget (lit ''dependencies'') p) (\<lambda>declared.
     bind_res (raise_if (JList (map JStr (manifest_lines requirements)) \<noteq> declared)
       (SystemExit (lit ''requirements-audit.txt must exactly match project.dependencies; regenerate it from pyproject.toml'')))
       (\<lambda>_. Inr (int (length (manifest_lines requirements)))))))"

text \<open>A dependency as \<^verbatim>\<open>pyproject.toml\<close> writes it: on one line, without space at its ends, no comment.\<close>

definition dependency :: "pystr \<Rightarrow> bool" where
  "dependency d \<longleftrightarrow> d \<noteq> [] \<and> list_all (\<lambda>c. \<not> line_end c) d \<and> \<not> py_space (hd d) \<and> \<not> py_space (last d) \<and> hd d \<noteq> 35"

lemma split_lines_line: "list_all (\<lambda>c. \<not> line_end c) d \<Longrightarrow> split_lines False cur (d @ 10 # s) = (cur @ d) # split_lines False [] s"
  by (induction d arbitrary: cur) (auto simp: line_end_def)

lemma strip_dependency: "dependency d \<Longrightarrow> py_strip d = d \<and> dropWhile py_space d = d"
proof -
  assume d: "dependency d"
  then have a: "dropWhile py_space d = d" by (cases d) (auto simp: dependency_def)
  moreover have "dropWhile py_space (rev d) = rev d"
    using d by (cases "rev d") (auto simp: dependency_def last_conv_nth hd_rev [symmetric] dest: arg_cong [of _ _ rev])
  ultimately show ?thesis by (simp add: py_strip_def)
qed

lemma manifest_of_dependencies:
  "list_all dependency ds \<Longrightarrow> manifest_lines (concat (map (\<lambda>d. d @ [10]) ds)) = ds"
proof (induction ds)
  case (Cons d ds)
  then have "list_all (\<lambda>c. \<not> line_end c) d" "dependency d" by (auto simp: dependency_def)
  moreover from this have "\<not> py_startswith d [35]" by (cases d) (auto simp: dependency_def py_startswith_def)
  ultimately show ?case using split_lines_line [of d "[]" "concat (map (\<lambda>d. d @ [10]) ds)"] strip_dependency [of d] Cons
    by (auto simp: manifest_lines_def dependency_def)
qed (simp add: manifest_lines_def)

section \<open>The vulnerability exception (\<open>verify_vulnerability_exceptions.py\<close>)\<close>

text \<open>\<^verbatim>\<open>date.toordinal\<close>: the number of days from the first one of the year 1.\<close>

definition date_ordinal :: "int \<Rightarrow> int \<Rightarrow> int \<Rightarrow> int" where
  "date_ordinal y m d = 365 * (y - 1) + (y - 1) div 4 - (y - 1) div 100 + (y - 1) div 400
     + sum_list (map (\<lambda>k. days_in_month y (int k)) [1..<nat m]) + d"

definition date_of_iso :: "pystr \<Rightarrow> int res" where
  "date_of_iso s = (if iso_date s
     then Inr (date_ordinal (nat_of_digits (take 4 s)) (nat_of_digits (take 2 (drop 5 s))) (nat_of_digits (drop 8 s)))
     else iso_error)"

definition required_fields :: "pystr list" where
  "required_fields = map lit [''id'', ''package'', ''version'', ''status'', ''scope'', ''justification'', ''source'', ''approved_by'',
     ''approved_on'', ''expires_on'', ''review_condition'']"

definition reviewed_reason :: pystr where
  "reviewed_reason = lit ''Time-bounded VEX: service does not import html.parser or parse untrusted HTML; tracked in security/vulnerability-exceptions.json''"

definition html_module :: "pystr \<Rightarrow> bool" where
  "html_module name \<longleftrightarrow> name = lit ''html'' \<or> py_startswith name (lit ''html.'')"

text \<open>
  \<open>today\<close> is the ordinal of the present day, \<open>sources\<close> the files below \<^verbatim>\<open>src\<close> with the names that their import
  statements mention (what \<^verbatim>\<open>ast.parse\<close> and \<^verbatim>\<open>ast.walk\<close> find), and \<open>names\<close> prints a list of names.
\<close>

definition verify_exceptions ::
  "(pystr list \<Rightarrow> pystr) \<Rightarrow> int \<Rightarrow> json \<Rightarrow> json \<Rightarrow> (pystr \<times> pystr list) list \<Rightarrow> pystr res" where
  "verify_exceptions names today policy grype sources =
     bind_res (jget_or (lit ''exceptions'') (JList []) policy) (\<lambda>exceptions.
     bind_res (case exceptions of JList xs \<Rightarrow> Inr (length xs) | JObj kvs \<Rightarrow> Inr (length kvs) | JStr s \<Rightarrow> Inr (length s) | _ \<Rightarrow> Inl TypeError) (\<lambda>n.
     bind_res (raise_if (n \<noteq> 1) (SystemExit (lit ''exactly one reviewed vulnerability exception is permitted''))) (\<lambda>_.
     bind_res (case exceptions of JList xs \<Rightarrow> Inr (hd xs) | JObj _ \<Rightarrow> Inl (KeyError []) | _ \<Rightarrow> Inr (JStr [])) (\<lambda>item.
     bind_res (case item of JObj kvs \<Rightarrow> Inr kvs | _ \<Rightarrow> Inl AttributeError) (\<lambda>kvs.
     let missing = filter (\<lambda>k. k \<notin> fst ` set kvs) (sort required_fields) in
     bind_res (raise_if (missing \<noteq> []) (SystemExit (lit ''exception record is incomplete: '' @ names missing))) (\<lambda>_.
     bind_res (raise_if (map (\<lambda>k. map_of kvs (lit k)) [''id'', ''package'', ''version'', ''status'']
         \<noteq> map (\<lambda>v. Some (JStr (lit v))) [''CVE-2026-15308'', ''python'', ''3.13.15'', ''not_affected''])
       (SystemExit (lit ''unreviewed vulnerability exception''))) (\<lambda>_.
     bind_res (bind_res (jget (lit ''expires_on'') item) json_text) (\<lambda>until.
     bind_res (date_of_iso until) (\<lambda>expiry.
     bind_res (raise_if (\<not> (today < expiry \<and> expiry \<le> today + 90))
       (SystemExit (lit ''exception must be active and expire within 90 days: '' @ until))) (\<lambda>_.
     bind_res (raise_if (jnorm grype \<noteq> jnorm (JObj [(lit ''ignore'', JList [JObj
           [(lit ''vulnerability'', field ''id'' kvs),
            (lit ''package'', JObj [(lit ''name'', field ''package'' kvs), (lit ''version'', field ''version'' kvs)]),
            (lit ''reason'', JStr reviewed_reason)]])]))
       (SystemExit (lit ''Grype ignore rules must exactly match the reviewed exception''))) (\<lambda>_.
     case find (\<lambda>(file, imports). list_ex html_module imports) sources of
       Some (file, imports) \<Rightarrow> Inl (SystemExit (lit ''HTML parser entered executable source; revoke exception: '' @ file))
     | None \<Rightarrow> Inr until)))))))))))"

end
