(* ===== verification/Tax_Rules.thy ===== *)
theory Tax_Rules
  imports Py_Dict Schema
begin

text \<open>
  \<^verbatim>\<open>tax_rules.py\<close>: the default rule pack, the validation of a rule pack, and the evaluation of
  one rule on one row.  A rule pack is a JSON value, as the caller supplies it; every
  subscription, iteration and conversion that may raise does so here.
\<close>

section \<open>Rule packs\<close>

definition rule_tax_id :: json where
  "rule_tax_id = JObj
     [(lit ''code'', JStr (lit ''TAX_ID_REQUIRED'')), (lit ''operator'', JStr (lit ''required_all'')),
      (lit ''fields'', JList [JStr (lit ''seller_tax_id''), JStr (lit ''buyer_tax_id'')]),
      (lit ''severity'', JStr (lit ''HIGH'')),
      (lit ''message'', JStr [20132, 26131, 23545, 25163, 31246, 21495, 32570, 22833])]"

definition rule_vat :: json where
  "rule_vat = JObj
     [(lit ''code'', JStr (lit ''VAT_RECALC'')), (lit ''operator'', JStr (lit ''computed_equal'')),
      (lit ''actual'', JStr (lit ''tax_amount'')),
      (lit ''factors'', JList [JStr (lit ''amount''), JStr (lit ''tax_rate'')]),
      (lit ''tolerance'', JFloat (lit ''0.01'')), (lit ''severity'', JStr (lit ''HIGH'')),
      (lit ''message'', JStr [31246, 39069, 19982, 37329, 39069, 215, 31246, 29575, 19981, 19968, 33268])]"

definition rule_duplicate :: json where
  "rule_duplicate = JObj
     [(lit ''code'', JStr (lit ''DUPLICATE_INVOICE'')), (lit ''operator'', JStr (lit ''in_set'')),
      (lit ''field'', JStr (lit ''invoice_id'')), (lit ''context'', JStr (lit ''duplicate_invoice_ids'')),
      (lit ''severity'', JStr (lit ''MEDIUM'')),
      (lit ''message'', JStr [21457, 31080, 21495, 30721, 37325, 22797])]"

definition rule_extreme :: json where
  "rule_extreme = JObj
     [(lit ''code'', JStr (lit ''EXTREME_AMOUNT'')), (lit ''operator'', JStr (lit ''gte'')),
      (lit ''field'', JStr (lit ''amount'')), (lit ''value'', JInt 5000000),
      (lit ''severity'', JStr (lit ''MEDIUM'')),
      (lit ''message'', JStr ([37329, 39069, 36229, 36807, 28436, 31034, 38408, 20540] @ lit ''500''
         @ [19975, 20803]))]"

definition default_rule_pack :: json where
  "default_rule_pack = JObj
     [(lit ''pack_id'', JStr (lit ''cn-tax-demo'')), (lit ''version'', JStr (lit ''2026.08.2'')),
      (lit ''rules'', JList [rule_tax_id, rule_vat, rule_duplicate, rule_extreme])]"

definition allowed_operators :: "pystr list" where
  "allowed_operators = [lit ''required_all'', lit ''computed_equal'', lit ''in_set'', lit ''gte'']"

definition allowed_severities :: "pystr list" where
  "allowed_severities = [lit ''LOW'', lit ''MEDIUM'', lit ''HIGH'', lit ''CRITICAL'']"

text \<open>\<^verbatim>\<open>v in names\<close> for a set of texts: an unhashable value raises.\<close>

definition in_names :: "json \<Rightarrow> pystr list \<Rightarrow> bool res" where
  "in_names v names =
     (if \<not> hashable v then Inl TypeError else Inr (\<exists>s \<in> set names. v = JStr s))"

text \<open>One turn of the loop: the set of codes seen so far with the code of this rule.\<close>

definition validate_rule :: "json list \<Rightarrow> json \<Rightarrow> json list res" where
  "validate_rule codes rule =
     bind_res (jget_or (lit ''code'') JNull rule) (\<lambda>code.
     bind_res (if \<not> truthy code then Inr True
               else if \<not> hashable code then Inl TypeError
               else Inr (\<exists>c \<in> set codes. scalar_eq code c)) (\<lambda>bad.
     bind_res (raise_if bad (ValueError (lit ''rule codes must be non-empty and unique''))) (\<lambda>_.
     bind_res (jget_or (lit ''operator'') JNull rule) (\<lambda>operator.
     bind_res (in_names operator allowed_operators) (\<lambda>ok.
     bind_res (raise_if (\<not> ok) (ValueError (lit ''unsupported operator for '' @ scalar_str code))) (\<lambda>_.
     bind_res (jget_or (lit ''severity'') JNull rule) (\<lambda>severity.
     bind_res (in_names severity allowed_severities) (\<lambda>ok.
     bind_res (raise_if (\<not> ok) (ValueError (lit ''unsupported severity for '' @ scalar_str code))) (\<lambda>_.
     bind_res (jget_or (lit ''message'') JNull rule) (\<lambda>message.
     bind_res (raise_if (\<not> truthy message) (ValueError (lit ''missing message for '' @ scalar_str code))) (\<lambda>_.
     Inr (codes @ [code]))))))))))))"

fun validate_rules :: "json list \<Rightarrow> json list \<Rightarrow> unit res" where
  "validate_rules codes [] = Inr ()"
| "validate_rules codes (r # rs) = bind_res (validate_rule codes r) (\<lambda>codes'. validate_rules codes' rs)"

definition validate_rule_pack :: "json \<Rightarrow> unit res" where
  "validate_rule_pack pack =
     bind_res (jget_or (lit ''pack_id'') JNull pack) (\<lambda>pack_id.
     bind_res (jget_or (lit ''version'') JNull pack) (\<lambda>version.
     bind_res (jget_or (lit ''rules'') JNull pack) (\<lambda>rules.
       case rules of
         JList rs \<Rightarrow> if truthy pack_id \<and> truthy version then validate_rules [] rs
                     else Inl (ValueError (lit ''rule pack requires pack_id, version and rules''))
       | _ \<Rightarrow> Inl (ValueError (lit ''rule pack requires pack_id, version and rules'')))))"

section \<open>Evaluating a rule\<close>

text \<open>A value of a row's column.\<close>

datatype cell = CNull | CInt int | CStr pystr | CDec decimal

definition opt_cell :: "pystr option \<Rightarrow> cell" where
  "opt_cell v = (case v of None \<Rightarrow> CNull | Some s \<Rightarrow> CStr s)"

definition row_cells :: "tax_transaction_row \<Rightarrow> (pystr \<times> cell) list" where
  "row_cells r =
     [(lit ''id'', CInt (tx_id r)), (lit ''tenant_id'', CStr (tx_tenant r)),
      (lit ''invoice_id'', CStr (tx_invoice_id r)),
      (lit ''seller_tax_id'', opt_cell (tx_seller_tax_id r)),
      (lit ''buyer_tax_id'', opt_cell (tx_buyer_tax_id r)),
      (lit ''invoice_date'', CStr (tx_invoice_date r)), (lit ''amount'', CDec (tx_amount r)),
      (lit ''tax_rate'', CDec (tx_tax_rate r)), (lit ''tax_amount'', CDec (tx_tax_amount r)),
      (lit ''currency'', CStr (tx_currency r)), (lit ''source_hash'', CStr (tx_source_hash r)),
      (lit ''ingested_at'', CStr (tx_ingested_at r))]"

text \<open>\<^verbatim>\<open>row[field]\<close>: an unknown column is a \<^verbatim>\<open>KeyError\<close>.\<close>

definition row_get :: "tax_transaction_row \<Rightarrow> json \<Rightarrow> cell res" where
  "row_get r field = (case field of
     JStr k \<Rightarrow> (case map_of (row_cells r) k of None \<Rightarrow> Inl (KeyError k) | Some c \<Rightarrow> Inr c)
   | _ \<Rightarrow> if hashable field then Inl (KeyError (scalar_str field)) else Inl TypeError)"

text \<open>\<^verbatim>\<open>Decimal(str(cell))\<close>, and the cell as a JSON value (\<^verbatim>\<open>default=str\<close> for a decimal).\<close>

fun cell_decimal :: "cell \<Rightarrow> decimal res" where
  "cell_decimal CNull = Inl InvalidOperation"
| "cell_decimal (CInt i) = Inr (Dec i 0)"
| "cell_decimal (CStr s) = dec_parse s"
| "cell_decimal (CDec d) = dec_parse (dec_str d)"

fun cell_json :: "cell \<Rightarrow> json" where
  "cell_json CNull = JNull"
| "cell_json (CInt i) = JInt i"
| "cell_json (CStr s) = JStr s"
| "cell_json (CDec d) = JStr (dec_str d)"

fun missing_fields :: "tax_transaction_row \<Rightarrow> json list \<Rightarrow> json list res" where
  "missing_fields row [] = Inr []"
| "missing_fields row (f # fs) =
     bind_res (row_get row f) (\<lambda>c. bind_res (missing_fields row fs) (\<lambda>ms.
       Inr (if c = CNull \<or> c = CStr [] then f # ms else ms)))"

fun product_of :: "tax_transaction_row \<Rightarrow> decimal \<Rightarrow> json list \<Rightarrow> decimal res" where
  "product_of row acc [] = Inr acc"
| "product_of row acc (f # fs) =
     bind_res (row_get row f) (\<lambda>c. bind_res (cell_decimal c) (\<lambda>d. product_of row (dec_mul acc d) fs))"

text \<open>\<^verbatim>\<open>context[name]\<close>: the sets of texts that the caller supplies.\<close>

type_synonym rule_context = "(pystr \<times> pystr list) list"

definition context_get :: "rule_context \<Rightarrow> json \<Rightarrow> pystr list res" where
  "context_get cx name = (case name of
     JStr k \<Rightarrow> (case map_of cx k of None \<Rightarrow> Inl (KeyError k) | Some s \<Rightarrow> Inr s)
   | _ \<Rightarrow> if hashable name then Inl (KeyError (scalar_str name)) else Inl TypeError)"

definition eval_required_all :: "json \<Rightarrow> tax_transaction_row \<Rightarrow> (bool \<times> (pystr \<times> json) list) res" where
  "eval_required_all rule row =
     bind_res (jget (lit ''fields'') rule) (\<lambda>v. bind_res (jiter v) (\<lambda>fields.
     bind_res (missing_fields row fields) (\<lambda>missing.
       Inr (missing \<noteq> [], [(lit ''missing_fields'', JList missing)]))))"

definition eval_computed_equal :: "json \<Rightarrow> tax_transaction_row \<Rightarrow> (bool \<times> (pystr \<times> json) list) res" where
  "eval_computed_equal rule row =
     bind_res (jget (lit ''factors'') rule) (\<lambda>v. bind_res (jiter v) (\<lambda>factors.
     bind_res (product_of row (Dec 1 0) factors) (\<lambda>product.
     bind_res (quantize_half_up (-2) product) (\<lambda>expected.
     bind_res (jget (lit ''actual'') rule) (\<lambda>field.
     bind_res (row_get row field) (\<lambda>c. bind_res (cell_decimal c) (\<lambda>actual.
     bind_res (jget_or (lit ''tolerance'') (JInt 0) rule) (\<lambda>t. bind_res (json_decimal t) (\<lambda>tolerance.
       Inr (dec_less tolerance (dec_abs (dec_sub expected actual)),
            [(lit ''expected'', JStr (dec_str expected)), (lit ''actual'', JStr (dec_str actual))]))))))))))"

definition eval_in_set ::
  "json \<Rightarrow> tax_transaction_row \<Rightarrow> rule_context \<Rightarrow> (bool \<times> (pystr \<times> json) list) res" where
  "eval_in_set rule row cx =
     bind_res (jget (lit ''field'') rule) (\<lambda>field. bind_res (row_get row field) (\<lambda>c.
     bind_res (jget (lit ''context'') rule) (\<lambda>name. bind_res (context_get cx name) (\<lambda>names.
       Inr (\<exists>s \<in> set names. c = CStr s, [(lit ''value'', cell_json c)])))))"

definition eval_gte :: "json \<Rightarrow> tax_transaction_row \<Rightarrow> (bool \<times> (pystr \<times> json) list) res" where
  "eval_gte rule row =
     bind_res (jget (lit ''field'') rule) (\<lambda>field. bind_res (row_get row field) (\<lambda>c.
     bind_res (cell_decimal c) (\<lambda>actual.
     bind_res (jget (lit ''value'') rule) (\<lambda>v. bind_res (json_decimal v) (\<lambda>threshold.
       Inr (dec_le threshold actual,
            [(lit ''actual'', JStr (dec_str actual)), (lit ''threshold'', JStr (dec_str threshold))]))))))"

definition evaluate_rule ::
  "json \<Rightarrow> tax_transaction_row \<Rightarrow> rule_context \<Rightarrow> (bool \<times> (pystr \<times> json) list) res" where
  "evaluate_rule rule row cx =
     bind_res (jget (lit ''operator'') rule) (\<lambda>operator.
       if operator = JStr (lit ''required_all'') then eval_required_all rule row
       else if operator = JStr (lit ''computed_equal'') then eval_computed_equal rule row
       else if operator = JStr (lit ''in_set'') then eval_in_set rule row cx
       else if operator = JStr (lit ''gte'') then eval_gte rule row
       else Inl (ValueError (lit ''unsupported operator: '' @ scalar_str operator)))"

section \<open>What validation accepts\<close>

definition rule_code :: "json \<Rightarrow> json" where
  "rule_code rule = (case rule of
     JObj kvs \<Rightarrow> (case map_of kvs (lit ''code'') of None \<Rightarrow> JNull | Some c \<Rightarrow> c)
   | _ \<Rightarrow> JNull)"

definition rule_ok :: "json \<Rightarrow> bool" where
  "rule_ok rule \<longleftrightarrow> (\<exists>kvs. rule = JObj kvs \<and> truthy (rule_code rule) \<and> hashable (rule_code rule)
     \<and> (\<exists>s \<in> set allowed_operators. map_of kvs (lit ''operator'') = Some (JStr s))
     \<and> (\<exists>s \<in> set allowed_severities. map_of kvs (lit ''severity'') = Some (JStr s))
     \<and> (\<exists>m. map_of kvs (lit ''message'') = Some m \<and> truthy m))"

definition pack_ok :: "json \<Rightarrow> bool" where
  "pack_ok pack \<longleftrightarrow> (\<exists>kvs rs p v. pack = JObj kvs
     \<and> map_of kvs (lit ''pack_id'') = Some p \<and> truthy p
     \<and> map_of kvs (lit ''version'') = Some v \<and> truthy v
     \<and> map_of kvs (lit ''rules'') = Some (JList rs)
     \<and> (\<forall>r \<in> set rs. rule_ok r)
     \<and> sorted_wrt (\<lambda>a b. \<not> scalar_eq b a) (map rule_code rs))"

lemma in_names_Inr: "in_names v names = Inr True \<longleftrightarrow> (\<exists>s \<in> set names. v = JStr s)"
  by (auto simp: in_names_def)

lemma in_names_JStr [simp]: "in_names (JStr s) names = Inr (s \<in> set names)"
  by (auto simp: in_names_def)

lemma validate_rule_Inr:
  "validate_rule codes rule = Inr codes' \<longleftrightarrow>
     rule_ok rule \<and> (\<forall>c \<in> set codes. \<not> scalar_eq (rule_code rule) c) \<and> codes' = codes @ [rule_code rule]"
proof (cases rule)
  case (JObj kvs)
  then show ?thesis
    by (auto simp: validate_rule_def rule_ok_def rule_code_def bind_res_Inr raise_if_Inr in_names_Inr
        split: option.splits if_splits)
qed (auto simp: validate_rule_def rule_ok_def jget_or_def)

lemma validate_rules_Inr:
  "validate_rules codes rs = Inr () \<longleftrightarrow> (\<forall>r \<in> set rs. rule_ok r)
     \<and> (\<forall>r \<in> set rs. \<forall>c \<in> set codes. \<not> scalar_eq (rule_code r) c)
     \<and> sorted_wrt (\<lambda>a b. \<not> scalar_eq b a) (map rule_code rs)"
  by (induction rs arbitrary: codes) (auto simp: bind_res_Inr validate_rule_Inr)

lemma validate_rule_pack_iff: "validate_rule_pack pack = Inr () \<longleftrightarrow> pack_ok pack"
proof (cases pack)
  case (JObj kvs)
  then show ?thesis
    by (auto simp: validate_rule_pack_def pack_ok_def validate_rules_Inr split: option.splits json.splits if_splits)
qed (auto simp: validate_rule_pack_def pack_ok_def jget_or_def)

section \<open>Exceptions of an accepted rule\<close>

definition no_value_error :: "'a res \<Rightarrow> bool" where
  "no_value_error r \<longleftrightarrow> (\<forall>m. r \<noteq> Inl (ValueError m))"

lemma no_value_error_bind [intro!]:
  "no_value_error r \<Longrightarrow> (\<And>x. r = Inr x \<Longrightarrow> no_value_error (f x)) \<Longrightarrow> no_value_error (bind_res r f)"
  by (cases r) (auto simp: no_value_error_def)

lemma no_value_error_simps [simp]:
  "no_value_error (Inr x)" "no_value_error (jget k v)" "no_value_error (jget_or k dflt v)"
  "no_value_error (jiter v)" "no_value_error (row_get row f)" "no_value_error (context_get cx f)"
  "no_value_error (dec_parse s)" "no_value_error (quantize_half_up e d)"
  by (auto simp: no_value_error_def jget_def jget_or_def jiter_def row_get_def context_get_def dec_parse_def
      quantize_half_up_def Let_def split: json.splits option.splits prod.splits if_splits)

lemma no_value_error_decimal [simp]: "no_value_error (cell_decimal c)" "no_value_error (json_decimal v)"
  by (cases c; simp add: no_value_error_def [of "Inl InvalidOperation"])
     (cases v; simp add: no_value_error_def [of "Inl InvalidOperation"])

lemma no_value_error_fields [simp]: "no_value_error (missing_fields row fs)"
  by (induction fs) auto

lemma no_value_error_product [simp]: "no_value_error (product_of row acc fs)"
  by (induction fs arbitrary: acc) auto

lemma evaluate_rule_no_value_error:
  assumes "rule_ok rule"
  shows "no_value_error (evaluate_rule rule row cx)"
proof -
  from assms obtain kvs s where r: "rule = JObj kvs" "s \<in> set allowed_operators"
    "map_of kvs (lit ''operator'') = Some (JStr s)"
    by (auto simp: rule_ok_def)
  then have op: "jget (lit ''operator'') rule = Inr (JStr s)" by simp
  have "no_value_error (eval_required_all rule row)" "no_value_error (eval_computed_equal rule row)"
    "no_value_error (eval_in_set rule row cx)" "no_value_error (eval_gte rule row)"
    by (auto simp: eval_required_all_def eval_computed_equal_def eval_in_set_def eval_gte_def)
  with r(2) show ?thesis
    by (auto simp: evaluate_rule_def op allowed_operators_def)
qed

section \<open>The default rules\<close>

text \<open>
  A row as \<open>ingest\<close> stores it: amounts with four decimals, rates with six, of a size that the
  decimal context multiplies exactly.
\<close>

definition row_scaled :: "tax_transaction_row \<Rightarrow> bool" where
  "row_scaled r \<longleftrightarrow> expo (tx_amount r) = -4 \<and> expo (tx_tax_rate r) = -6 \<and> expo (tx_tax_amount r) = -4
     \<and> \<bar>coeff (tx_amount r)\<bar> < 10 ^ 19 \<and> \<bar>coeff (tx_tax_rate r)\<bar> < 10 ^ 9
     \<and> \<bar>coeff (tx_tax_amount r)\<bar> < 10 ^ 20"

text \<open>The tax that the rule expects, in hundredths.\<close>

definition expected_cents :: "tax_transaction_row \<Rightarrow> int" where
  "expected_cents r = div_half_up (coeff (tx_amount r) * coeff (tx_tax_rate r)) (10 ^ 8)"

lemma decide_rule_tax_id:
  "evaluate_rule rule_tax_id r cx =
     (let ms = filter (\<lambda>f. map_of [(lit ''seller_tax_id'', tx_seller_tax_id r),
            (lit ''buyer_tax_id'', tx_buyer_tax_id r)] f \<in> {Some None, Some (Some [])})
          [lit ''seller_tax_id'', lit ''buyer_tax_id'']
      in Inr (ms \<noteq> [], [(lit ''missing_fields'', JList (map JStr ms))]))"
  by (cases "tx_seller_tax_id r"; cases "tx_buyer_tax_id r")
    (simp_all add: evaluate_rule_def rule_tax_id_def eval_required_all_def row_get_def row_cells_def
      opt_cell_def)

lemma decide_rule_duplicate:
  "evaluate_rule rule_duplicate r [(lit ''duplicate_invoice_ids'', dups)] =
     Inr (tx_invoice_id r \<in> set dups, [(lit ''value'', JStr (tx_invoice_id r))])"
  by (auto simp add: evaluate_rule_def rule_duplicate_def eval_in_set_def row_get_def row_cells_def
      context_get_def)

lemma decide_rule_extreme:
  "evaluate_rule rule_extreme r cx =
     Inr (5000000 \<le> dec_val (tx_amount r),
       [(lit ''actual'', JStr (dec_str (tx_amount r))), (lit ''threshold'', JStr (lit ''5000000''))])"
proof -
  have "dec_str (Dec 5000000 0) = lit ''5000000''" by code_simp
  moreover have "dec_val (Dec 5000000 0) = 5000000" by (simp add: dec_val_def)
  ultimately show ?thesis
    by (simp add: evaluate_rule_def rule_extreme_def eval_gte_def row_get_def row_cells_def
        dec_parse_str dec_le_val)
qed

lemma abs_mult_less: "\<bar>a\<bar> < m \<Longrightarrow> \<bar>b\<bar> < n \<Longrightarrow> \<bar>a * b\<bar> < m * n" for a b :: int
  by (simp add: abs_mult mult_strict_mono')

lemma expected_cents_bound: "row_scaled r \<Longrightarrow> \<bar>expected_cents r\<bar> < 10 ^ 21"
proof -
  assume "row_scaled r"
  then have "\<bar>coeff (tx_amount r) * coeff (tx_tax_rate r)\<bar> < 10 ^ 19 * 10 ^ 9"
    by (intro abs_mult_less) (simp_all add: row_scaled_def)
  then have b: "\<bar>coeff (tx_amount r) * coeff (tx_tax_rate r)\<bar> < 10 ^ 28" by simp
  have "2 * \<bar>expected_cents r * 10 ^ 8 - coeff (tx_amount r) * coeff (tx_tax_rate r)\<bar> \<le> 10 ^ 8"
    unfolding expected_cents_def by (rule div_half_up_error) simp
  with b show ?thesis by simp
qed

lemma decide_rule_vat:
  assumes "row_scaled r"
  defines "e \<equiv> Dec (expected_cents r) (-2)"
  shows "evaluate_rule rule_vat r cx =
     Inr (1 / 100 < \<bar>dec_val e - dec_val (tx_tax_amount r)\<bar>,
       [(lit ''expected'', JStr (dec_str e)), (lit ''actual'', JStr (dec_str (tx_tax_amount r)))])"
proof -
  obtain a where a: "tx_amount r = Dec a (-4)" using assms by (cases "tx_amount r") (simp add: row_scaled_def)
  obtain p where p: "tx_tax_rate r = Dec p (-6)" using assms by (cases "tx_tax_rate r") (simp add: row_scaled_def)
  obtain t where t: "tx_tax_amount r = Dec t (-4)" using assms by (cases "tx_tax_amount r") (simp add: row_scaled_def)
  have ap: "\<bar>a * p\<bar> < 10 ^ 28"
    using abs_mult_less [of a "10 ^ 19" p "10 ^ 9"] assms by (simp add: row_scaled_def a p)
  have a1: "dec_mul (Dec 1 0) (Dec a (-4)) = Dec a (-4)"
    using assms by (subst dec_mul_exact) (simp_all add: row_scaled_def a)
  have a2: "dec_mul (Dec a (-4)) (Dec p (-6)) = Dec (a * p) (-10)"
    using ap by (subst dec_mul_exact) simp_all
  have c: "div_half_up (a * p) 100000000 = expected_cents r"
    by (simp add: expected_cents_def a p)
  have "num_digits (expected_cents r) \<le> int 21"
    by (rule num_digits_bound) (use expected_cents_bound [OF assms(1)] in simp_all)
  then have q: "quantize_half_up (-2) (Dec (a * p) (-10)) = Inr e"
    by (simp add: quantize_half_up_def Let_def c e_def dec_prec_def)
  have fit: "\<bar>expected_cents r * 100 - t\<bar> < 10 ^ 24"
  proof -
    have "\<bar>t\<bar> < 10 ^ 20" using assms(1) by (simp add: row_scaled_def t)
    with expected_cents_bound [OF assms(1)] show ?thesis by (simp add: abs_less_iff)
  qed
  then have fit': "num_digits (expected_cents r * 100 - t) \<le> dec_prec"
    using num_digits_bound [of "expected_cents r * 100 - t" 24] by (simp add: dec_prec_def)
  then have s: "dec_sub e (Dec t (-4)) = Dec (expected_cents r * 100 - t) (-4)"
    by (simp add: dec_sub_def Let_def rescale_def e_def dec_fix_exact)
  have "num_digits \<bar>expected_cents r * 100 - t\<bar> = num_digits (expected_cents r * 100 - t)"
    by (simp add: num_digits_def)
  with fit' have s': "dec_abs (dec_sub e (Dec t (-4))) = Dec \<bar>expected_cents r * 100 - t\<bar> (-4)"
    by (simp add: s dec_abs_def dec_fix_exact)
  have tol: "dec_parse (lit ''0.01'') = Inr (Dec 1 (-2))" by code_simp
  have cmp: "dec_less (Dec 1 (-2)) (Dec \<bar>expected_cents r * 100 - t\<bar> (-4)) \<longleftrightarrow>
      1 / 100 < \<bar>dec_val e - dec_val (Dec t (-4))\<bar>"
  proof -
    have "dec_val e - dec_val (Dec t (-4)) = of_int (expected_cents r * 100 - t) / 10000"
      by (simp add: dec_val_def e_def power_int_minus field_simps)
    moreover have "\<bar>of_int k / 10000 :: rat\<bar> = of_int \<bar>k\<bar> / 10000" for k by simp
    ultimately have "\<bar>dec_val e - dec_val (Dec t (-4))\<bar> = of_int \<bar>expected_cents r * 100 - t\<bar> / 10000"
      by (simp only:)
    moreover have "dec_val (Dec \<bar>expected_cents r * 100 - t\<bar> (-4)) = of_int \<bar>expected_cents r * 100 - t\<bar> / 10000"
      by (simp add: dec_val_def power_int_minus)
    moreover have "dec_val (Dec 1 (-2)) = 1 / 100"
      by (simp add: dec_val_def power_int_minus)
    ultimately show ?thesis by (simp only: dec_less_val)
  qed
  show ?thesis
    by (simp add: evaluate_rule_def rule_vat_def eval_computed_equal_def row_get_def row_cells_def
        dec_parse_str a p t a1 a2 q s' tol cmp del: of_int_diff of_int_abs)
qed

lemma expected_cents_nearest:
  "2 * \<bar>dec_val (Dec (expected_cents r) (-2)) - dec_val (tx_amount r) * dec_val (tx_tax_rate r)\<bar> \<le> 1 / 100"
  if "row_scaled r"
proof -
  let ?n = "coeff (tx_amount r) * coeff (tx_tax_rate r)"
  have "2 * \<bar>expected_cents r * 10 ^ 8 - ?n\<bar> \<le> 10 ^ 8"
    unfolding expected_cents_def by (rule div_half_up_error) simp
  then have b: "of_int (2 * \<bar>expected_cents r * 10 ^ 8 - ?n\<bar>) \<le> (10 ^ 8 :: rat)"
    by (metis of_int_le_iff of_int_numeral of_int_power)
  have "dec_val (Dec (expected_cents r) (-2)) - dec_val (tx_amount r) * dec_val (tx_tax_rate r)
      = of_int (expected_cents r * 10 ^ 8 - ?n) / 10 ^ 10"
    using that by (simp add: dec_val_def row_scaled_def power_int_minus field_simps)
  moreover have "2 * \<bar>of_int k / 10 ^ 10 :: rat\<bar> = of_int (2 * \<bar>k\<bar>) / 10 ^ 10" for k
    by simp
  ultimately have "2 * \<bar>dec_val (Dec (expected_cents r) (-2)) - dec_val (tx_amount r) * dec_val (tx_tax_rate r)\<bar>
      = of_int (2 * \<bar>expected_cents r * 10 ^ 8 - ?n\<bar>) / 10 ^ 10"
    by (simp only:)
  with b show ?thesis by simp
qed

section \<open>Properties\<close>

text \<open>
  Rule-pack validation.  \<open>validate_rule_pack\<close> accepts exactly the dictionaries with a pack id, a
  version and a list of rules in which every rule has a code, no code occurs twice, operators and
  severities are allowed ones, and messages are not empty.
\<close>

theorem validate_rule_pack_spec: "validate_rule_pack pack = Inr () \<longleftrightarrow> pack_ok pack"
  by (rule validate_rule_pack_iff)

text \<open>
  The evaluation of a rule of an accepted pack never ends in \<^verbatim>\<open>unsupported operator\<close>: the only
  exceptions left are those of a missing key, a value of the wrong type and a failed decimal
  operation.
\<close>

theorem accepted_rule_operator_supported:
  assumes "validate_rule_pack (JObj kvs) = Inr ()"
    and "map_of kvs (lit ''rules'') = Some (JList rs)" and "rule \<in> set rs"
  shows "evaluate_rule rule row cx \<noteq> Inl (ValueError m)"
proof -
  from assms have "rule_ok rule" by (auto simp: validate_rule_pack_iff pack_ok_def)
  from evaluate_rule_no_value_error [OF this] show ?thesis by (simp add: no_value_error_def)
qed

lemma accepted_rule_operator_supported_witness:
  "evaluate_rule rule_vat \<lparr>tx_id = 1, tx_tenant = [], tx_invoice_id = [], tx_seller_tax_id = None,
     tx_buyer_tax_id = None, tx_invoice_date = [], tx_amount = Dec 1 (-4), tx_tax_rate = Dec 1 (-6),
     tx_tax_amount = Dec 1 (-4), tx_currency = [], tx_source_hash = [], tx_ingested_at = []\<rparr> []
   \<noteq> Inl (ValueError (lit ''unsupported operator: computed_equal''))"
proof (rule accepted_rule_operator_supported)
  let ?kvs = "[(lit ''pack_id'', JStr (lit ''cn-tax-demo'')), (lit ''version'', JStr (lit ''2026.08.2'')),
      (lit ''rules'', JList [rule_tax_id, rule_vat, rule_duplicate, rule_extreme])]"
  show "validate_rule_pack (JObj ?kvs) = Inr ()" by code_simp
  show "map_of ?kvs (lit ''rules'') = Some (JList [rule_tax_id, rule_vat, rule_duplicate, rule_extreme])"
    by simp
qed simp

text \<open>
  C9: The VAT rule recomputes the tax exactly.  On a stored row it never raises; the expected
  amount that it reports is the multiple of one hundredth nearest to amount times rate, and it
  matches exactly if that differs from the recorded tax by more than one hundredth.
\<close>

theorem vat_rule_exact:
  assumes "row_scaled r"
  shows "\<exists>e. expo e = -2
    \<and> 2 * \<bar>dec_val e - dec_val (tx_amount r) * dec_val (tx_tax_rate r)\<bar> \<le> 1 / 100
    \<and> evaluate_rule rule_vat r cx =
        Inr (1 / 100 < \<bar>dec_val e - dec_val (tx_tax_amount r)\<bar>,
          [(lit ''expected'', JStr (dec_str e)), (lit ''actual'', JStr (dec_str (tx_tax_amount r)))])"
  using expected_cents_nearest [OF assms] decide_rule_vat [OF assms]
  by (intro exI [of _ "Dec (expected_cents r) (-2)"]) simp

lemma vat_rule_exact_witness:
  "\<exists>e b. evaluate_rule rule_vat \<lparr>tx_id = 1, tx_tenant = [], tx_invoice_id = [], tx_seller_tax_id = None,
     tx_buyer_tax_id = None, tx_invoice_date = [], tx_amount = Dec 1000000 (-4), tx_tax_rate = Dec 130000 (-6),
     tx_tax_amount = Dec 130000 (-4), tx_currency = [], tx_source_hash = [], tx_ingested_at = []\<rparr> [] =
     Inr (b, [(lit ''expected'', JStr e), (lit ''actual'', JStr (dec_str (Dec 130000 (-4))))])"
  using vat_rule_exact [of "\<lparr>tx_id = 1, tx_tenant = [], tx_invoice_id = [], tx_seller_tax_id = None,
     tx_buyer_tax_id = None, tx_invoice_date = [], tx_amount = Dec 1000000 (-4), tx_tax_rate = Dec 130000 (-6),
     tx_tax_amount = Dec 130000 (-4), tx_currency = [], tx_source_hash = [], tx_ingested_at = []\<rparr>" "[]"]
  by (auto simp: row_scaled_def)

end
