(* ===== verification/Tax_Flow.thy ===== *)
theory Tax_Flow
  imports Core Tax_Rules
begin

text \<open>
  \<^verbatim>\<open>taxflow.py\<close>: amounts and transactions, idempotent ingestion, rule runs, and the review of a
  run by a second person.  The operations of \<^verbatim>\<open>TaxFlowService\<close> take the runtime, the dialect, the
  clock and the tenant of the service; \<^verbatim>\<open>uuid4\<close> values are arguments.
\<close>

section \<open>Amounts and transactions\<close>

text \<open>\<^verbatim>\<open>money\<close> and \<^verbatim>\<open>rate\<close> of a decimal, a text, an integer, or a float given by its text.\<close>

definition money :: "cell \<Rightarrow> decimal res" where
  "money v = bind_res (cell_decimal v) (quantize_half_up (-4))"

definition rate :: "cell \<Rightarrow> decimal res" where
  "rate v = bind_res (cell_decimal v) (quantize_half_up (-6))"

record tax_transaction =
  tt_invoice_id :: pystr
  tt_seller_tax_id :: "pystr option"
  tt_buyer_tax_id :: "pystr option"
  tt_invoice_date :: pystr
  tt_amount :: decimal
  tt_tax_rate :: decimal
  tt_tax_amount :: decimal
  tt_currency :: pystr

text \<open>The constructor with \<^verbatim>\<open>__post_init__\<close>.\<close>

definition make_tax_transaction ::
  "pystr \<Rightarrow> pystr option \<Rightarrow> pystr option \<Rightarrow> pystr \<Rightarrow> cell \<Rightarrow> cell \<Rightarrow> cell \<Rightarrow> pystr \<Rightarrow> tax_transaction res" where
  "make_tax_transaction invoice seller buyer dt amount tax_rate tax_amount currency =
     bind_res (money amount) (\<lambda>a. bind_res (rate tax_rate) (\<lambda>p. bind_res (money tax_amount) (\<lambda>t.
       Inr \<lparr>tt_invoice_id = invoice, tt_seller_tax_id = seller, tt_buyer_tax_id = buyer,
            tt_invoice_date = dt, tt_amount = a, tt_tax_rate = p, tt_tax_amount = t,
            tt_currency = currency\<rparr>)))"

text \<open>\<^verbatim>\<open>asdict\<close> as \<^verbatim>\<open>canonical_json\<close> prints it: \<^verbatim>\<open>default=str\<close> makes texts of the decimals.\<close>

definition tx_dict :: "tax_transaction \<Rightarrow> json" where
  "tx_dict x = JObj
     [(lit ''invoice_id'', JStr (tt_invoice_id x)), (lit ''seller_tax_id'', opt_json (tt_seller_tax_id x)),
      (lit ''buyer_tax_id'', opt_json (tt_buyer_tax_id x)), (lit ''invoice_date'', JStr (tt_invoice_date x)),
      (lit ''amount'', JStr (dec_str (tt_amount x))), (lit ''tax_rate'', JStr (dec_str (tt_tax_rate x))),
      (lit ''tax_amount'', JStr (dec_str (tt_tax_amount x))), (lit ''currency'', JStr (tt_currency x))]"

section \<open>Idempotency keys\<close>

text \<open>
  \<^verbatim>\<open>_idempotent_response\<close>: \<open>JNull\<close> is Python's \<^verbatim>\<open>None\<close>, no stored response.
\<close>

definition has_key :: "pystr \<Rightarrow> pystr \<Rightarrow> pystr \<Rightarrow> idempotency_record \<Rightarrow> bool" where
  "has_key tenant operation key r \<longleftrightarrow> ir_tenant r = tenant \<and> ir_operation r = operation \<and> ir_key r = key"

definition idempotent_response ::
  "pyenv \<Rightarrow> pystr \<Rightarrow> pystr \<Rightarrow> pystr option \<Rightarrow> pystr \<Rightarrow> db \<Rightarrow> json res" where
  "idempotent_response E tenant operation key request_hash d =
     (case key of
        None \<Rightarrow> Inr JNull
      | Some k \<Rightarrow>
          if py_blank k \<or> length k > 100
          then Inl (ValueError (lit ''idempotency key must contain 1-100 characters''))
          else case find_row (has_key tenant operation k) (idempotency_records d) of
            None \<Rightarrow> Inr JNull
          | Some r \<Rightarrow>
              if ir_request_hash r \<noteq> request_hash
              then Inl (ValueError (lit ''idempotency key was already used with a different request''))
              else loads E (ir_response_json r))"

definition store_idempotent_response ::
  "clock \<Rightarrow> pystr \<Rightarrow> pystr \<Rightarrow> pystr option \<Rightarrow> pystr \<Rightarrow> json \<Rightarrow> (unit, db) tx" where
  "store_idempotent_response ts tenant operation key request_hash response d =
     (case key of
        None \<Rightarrow> Inr ((), d)
      | Some k \<Rightarrow>
          if \<exists>r \<in> set (idempotency_records d). has_key tenant operation k r
          then Inl (IntegrityError (lit ''idempotency_records''))
          else Inr ((), d\<lparr>idempotency_records := idempotency_records d @
            [\<lparr>ir_tenant = tenant, ir_operation = operation, ir_key = k, ir_request_hash = request_hash,
              ir_response_json = canonical_json response, ir_status_code = 201,
              ir_created_at = ts 0\<rparr>]\<rparr>))"

section \<open>Ingestion\<close>

definition transaction_row ::
  "pyenv \<Rightarrow> pystr \<Rightarrow> pystr \<Rightarrow> int \<Rightarrow> tax_transaction \<Rightarrow> tax_transaction_row" where
  "transaction_row E tenant now i x =
     \<lparr>tx_id = i, tx_tenant = tenant, tx_invoice_id = tt_invoice_id x,
      tx_seller_tax_id = tt_seller_tax_id x, tx_buyer_tax_id = tt_buyer_tax_id x,
      tx_invoice_date = tt_invoice_date x, tx_amount = tt_amount x, tx_tax_rate = tt_tax_rate x,
      tx_tax_amount = tt_tax_amount x, tx_currency = tt_currency x,
      tx_source_hash = sha256_json E (tx_dict x), tx_ingested_at = now\<rparr>"

fun insert_transactions ::
  "pyenv \<Rightarrow> pystr \<Rightarrow> pystr \<Rightarrow> tax_transaction list \<Rightarrow> tax_transaction_row list \<Rightarrow> tax_transaction_row list" where
  "insert_transactions E tenant now [] rows = rows"
| "insert_transactions E tenant now (x # xs) rows =
     insert_transactions E tenant now xs
       (rows @ [transaction_row E tenant now (fresh_id (map tx_id rows)) x])"

definition ingest_request_hash :: "pyenv \<Rightarrow> tax_transaction list \<Rightarrow> pystr" where
  "ingest_request_hash E rows = sha256_json E (JList (map tx_dict rows))"

definition ingest_body ::
  "pyenv \<Rightarrow> clock \<Rightarrow> pystr \<Rightarrow> pystr \<Rightarrow> tax_transaction list \<Rightarrow> pystr option \<Rightarrow> (int, db) tx" where
  "ingest_body E ts uid tenant rows key =
     bind_tx (\<lambda>d. lift_res (idempotent_response E tenant (lit ''tax.ingest'') key (ingest_request_hash E rows) d) d)
       (\<lambda>replay.
         if replay \<noteq> JNull then
           lift_res (bind_res (jget (lit ''ingested'') replay) json_int)
         else
           bind_tx (update_tx (\<lambda>d.
             d\<lparr>tax_transactions := insert_transactions E tenant (ts 0) rows (tax_transactions d)\<rparr>)) (\<lambda>_.
           bind_tx (append_audit_event E (after_calls 1 ts) (lit ''taxflow'') (lit ''BATCH_INGESTED'') uid
             (JObj [(lit ''rows'', JInt (int (length rows)))]) tenant) (\<lambda>_.
           bind_tx (store_idempotent_response (after_calls 3 ts) tenant (lit ''tax.ingest'') key
             (ingest_request_hash E rows) (JObj [(lit ''ingested'', JInt (int (length rows)))])) (\<lambda>_.
           return_tx (int (length rows))))))"

definition ingest ::
  "pyenv \<Rightarrow> dialect \<Rightarrow> clock \<Rightarrow> pystr \<Rightarrow> pystr \<Rightarrow> tax_transaction list \<Rightarrow> pystr option \<Rightarrow> db
     \<Rightarrow> int res \<times> db" where
  "ingest E dl ts uid tenant rows key = connect E dl (Some tenant) (ingest_body E ts uid tenant rows key)"

section \<open>Rule runs\<close>

record finding =
  fi_transaction_id :: int
  fi_invoice_id :: pystr
  fi_rule_code :: json
  fi_severity :: json
  fi_explanation :: json
  fi_evidence :: json

text \<open>\<^verbatim>\<open>_evaluate_row\<close>: the rules in order; the first exception ends the row.\<close>

definition rule_finding ::
  "tax_transaction_row \<Rightarrow> json \<Rightarrow> (pystr \<times> json) list \<Rightarrow> finding res" where
  "rule_finding row rule evidence =
     bind_res (jget (lit ''code'') rule) (\<lambda>code.
     bind_res (jget (lit ''severity'') rule) (\<lambda>severity.
     bind_res (jget (lit ''message'') rule) (\<lambda>message.
       Inr \<lparr>fi_transaction_id = tx_id row, fi_invoice_id = tx_invoice_id row, fi_rule_code = code,
            fi_severity = severity, fi_explanation = message,
            fi_evidence = JObj (dict_of ([(lit ''source_hash'', JStr (tx_source_hash row)),
              (lit ''invoice_date'', JStr (tx_invoice_date row))] @ evidence))\<rparr>)))"

fun evaluate_rules :: "tax_transaction_row \<Rightarrow> rule_context \<Rightarrow> json list \<Rightarrow> finding list res" where
  "evaluate_rules row cx [] = Inr []"
| "evaluate_rules row cx (rule # rs) =
     bind_res (evaluate_rule rule row cx) (\<lambda>(matched, evidence).
     bind_res (if matched then map_res (rule_finding row rule) [evidence] else Inr []) (\<lambda>here.
     bind_res (evaluate_rules row cx rs) (\<lambda>rest. Inr (here @ rest))))"

definition evaluate_row :: "tax_transaction_row \<Rightarrow> pystr list \<Rightarrow> json \<Rightarrow> finding list res" where
  "evaluate_row row duplicates pack =
     bind_res (jget (lit ''rules'') pack) (\<lambda>v. bind_res (jiter v) (\<lambda>rules.
       evaluate_rules row [(lit ''duplicate_invoice_ids'', duplicates)] rules))"

text \<open>\<^verbatim>\<open>GROUP BY invoice_id HAVING count(*) > 1\<close>.\<close>

definition duplicate_invoice_ids :: "tax_transaction_row list \<Rightarrow> pystr list" where
  "duplicate_invoice_ids rows =
     filter (\<lambda>i. count_rows (\<lambda>r. tx_invoice_id r = i) rows > 1) (remdups (map tx_invoice_id rows))"

definition tenant_transactions :: "pystr \<Rightarrow> db \<Rightarrow> tax_transaction_row list" where
  "tenant_transactions tenant d = select_rows tx_id (\<lambda>r. tx_tenant r = tenant) (tax_transactions d)"

definition collect_findings :: "json \<Rightarrow> tax_transaction_row list \<Rightarrow> finding list res" where
  "collect_findings pack rows =
     map_sum id concat (map_res (\<lambda>r. evaluate_row r (duplicate_invoice_ids rows) pack) rows)"

fun insert_findings ::
  "pystr \<Rightarrow> pystr \<Rightarrow> finding list \<Rightarrow> tax_finding list \<Rightarrow> tax_finding list res" where
  "insert_findings tenant run_id [] rows = Inr rows"
| "insert_findings tenant run_id (f # fs) rows =
     bind_res (json_text (fi_rule_code f)) (\<lambda>code.
     bind_res (json_text (fi_severity f)) (\<lambda>severity.
     bind_res (json_text (fi_explanation f)) (\<lambda>explanation.
       insert_findings tenant run_id fs (rows @
         [\<lparr>tf_id = fresh_id (map tf_id rows), tf_tenant = tenant, tf_run_id = run_id,
           tf_transaction_id = Some (fi_transaction_id f), tf_invoice_id = fi_invoice_id f,
           tf_rule_code = code, tf_severity = severity, tf_explanation = explanation,
           tf_evidence_json = canonical_json (fi_evidence f)\<rparr>]))))"

definition insert_rule_run ::
  "pystr \<Rightarrow> pystr \<Rightarrow> pystr \<Rightarrow> json \<Rightarrow> pystr \<Rightarrow> (unit, db) tx" where
  "insert_rule_run run_id tenant version pack now d =
     (if \<exists>r \<in> set (tax_rule_runs d). tr_run_id r = run_id
      then Inl (IntegrityError (lit ''tax_rule_runs''))
      else Inr ((), d\<lparr>tax_rule_runs := tax_rule_runs d @
        [\<lparr>tr_run_id = run_id, tr_tenant = tenant, tr_rule_version = version,
          tr_rule_pack_json = canonical_json pack, tr_started_at = now, tr_completed_at = None,
          tr_transaction_count = 0, tr_finding_count = 0\<rparr>]\<rparr>))"

text \<open>What the run records: inserted findings, and the counts on its row.\<close>

definition store_findings ::
  "pystr \<Rightarrow> pystr \<Rightarrow> pystr \<Rightarrow> finding list \<Rightarrow> int \<Rightarrow> (unit, db) tx" where
  "store_findings tenant run_id now found transactions d =
     bind_res (insert_findings tenant run_id found (tax_findings d)) (\<lambda>rows.
       Inr ((), d\<lparr>tax_findings := rows,
         tax_rule_runs := update_rows (\<lambda>r. tr_run_id r = run_id)
           (\<lambda>r. r\<lparr>tr_completed_at := Some now, tr_transaction_count := transactions,
                  tr_finding_count := int (length found)\<rparr>) (tax_rule_runs d)\<rparr>))"

definition run_response :: "pyenv \<Rightarrow> pystr \<Rightarrow> pystr \<Rightarrow> json \<Rightarrow> int \<Rightarrow> int \<Rightarrow> json" where
  "run_response E run_id version pack transactions findings = JObj
     [(lit ''run_id'', JStr run_id), (lit ''rule_version'', JStr version),
      (lit ''transactions'', JInt transactions), (lit ''findings'', JInt findings),
      (lit ''rule_pack_hash'', JStr (sha256_json E pack))]"

definition run_rules_body ::
  "pyenv \<Rightarrow> clock \<Rightarrow> pystr \<Rightarrow> pystr \<Rightarrow> pystr \<Rightarrow> json \<Rightarrow> pystr option \<Rightarrow> (json, db) tx" where
  "run_rules_body E ts run_id tenant version pack key =
     (let request_hash = sha256_json E (JObj [(lit ''rule_version'', JStr version), (lit ''rule_pack'', pack)])
      in bind_tx (\<lambda>d. lift_res (idempotent_response E tenant (lit ''tax.run_rules'') key request_hash d) d)
        (\<lambda>replay.
          if replay \<noteq> JNull then return_tx replay
          else
            bind_tx (insert_rule_run run_id tenant version pack (ts 0)) (\<lambda>_.
            bind_tx (query_tx (tenant_transactions tenant)) (\<lambda>rows.
            bind_tx (lift_res (collect_findings pack rows)) (\<lambda>found.
            bind_tx (store_findings tenant run_id (ts 1) found (int (length rows))) (\<lambda>_.
            bind_tx (append_audit_event E (after_calls 2 ts) (lit ''taxflow'') (lit ''RULE_RUN_COMPLETED'') run_id
              (JObj [(lit ''rule_version'', JStr version), (lit ''transactions'', JInt (int (length rows))),
                (lit ''findings'', JInt (int (length found))),
                (lit ''rule_pack_hash'', JStr (sha256_json E pack))]) tenant) (\<lambda>_.
            bind_tx (store_idempotent_response (after_calls 4 ts) tenant (lit ''tax.run_rules'') key request_hash
              (run_response E run_id version pack (int (length rows)) (int (length found)))) (\<lambda>_.
            return_tx (run_response E run_id version pack (int (length rows)) (int (length found)))))))))))"

definition effective_version :: "pystr option \<Rightarrow> json \<Rightarrow> pystr res" where
  "effective_version rule_version pack =
     (case rule_version of
        Some (c # s) \<Rightarrow> Inr (c # s)
      | _ \<Rightarrow> bind_res (jget (lit ''pack_id'') pack) (\<lambda>p. bind_res (jget (lit ''version'') pack) (\<lambda>v.
          Inr (scalar_str p @ lit ''/'' @ scalar_str v))))"

definition chosen_pack :: "json option \<Rightarrow> json" where
  "chosen_pack rule_pack = (case rule_pack of
     Some p \<Rightarrow> if truthy p then p else default_rule_pack
   | None \<Rightarrow> default_rule_pack)"

definition run_rules ::
  "pyenv \<Rightarrow> dialect \<Rightarrow> clock \<Rightarrow> pystr \<Rightarrow> pystr \<Rightarrow> pystr option \<Rightarrow> json option \<Rightarrow> pystr option \<Rightarrow> db
     \<Rightarrow> json res \<times> db" where
  "run_rules E dl ts run_id tenant rule_version rule_pack key d =
     (let pack = chosen_pack rule_pack
      in case bind_res (validate_rule_pack pack) (\<lambda>_. effective_version rule_version pack) of
           Inl e \<Rightarrow> (Inl e, d)
         | Inr version \<Rightarrow> connect E dl (Some tenant) (run_rules_body E ts run_id tenant version pack key) d)"

section \<open>Reviews\<close>

definition pending_review :: pystr where
  "pending_review = lit ''PENDING_REVIEW''"

definition is_workflow :: "pystr \<Rightarrow> pystr \<Rightarrow> tax_run_workflow \<Rightarrow> bool" where
  "is_workflow run_id tenant r \<longleftrightarrow> rw_run_id r = run_id \<and> rw_tenant r = tenant"

text \<open>\<^verbatim>\<open>.mappings().one()\<close>: no row raises.\<close>

definition workflow_row :: "pystr \<Rightarrow> pystr \<Rightarrow> (tax_run_workflow, db) tx" where
  "workflow_row run_id tenant d =
     (case find_row (is_workflow run_id tenant) (tax_run_workflows d) of
        None \<Rightarrow> Inl (RuntimeError (lit ''no row was found'')) | Some r \<Rightarrow> Inr (r, d))"

definition insert_workflow :: "tax_run_workflow \<Rightarrow> (unit, db) tx" where
  "insert_workflow r d =
     (if \<exists>r' \<in> set (tax_run_workflows d). rw_run_id r' = rw_run_id r
      then Inl (IntegrityError (lit ''tax_run_workflow''))
      else Inr ((), d\<lparr>tax_run_workflows := tax_run_workflows d @ [r]\<rparr>))"

definition request_review_body ::
  "pyenv \<Rightarrow> clock \<Rightarrow> pystr \<Rightarrow> pystr \<Rightarrow> pystr \<Rightarrow> (tax_run_workflow, db) tx" where
  "request_review_body E ts tenant run_id requested_by =
     bind_tx (query_tx (\<lambda>d. find_row (\<lambda>r. tr_run_id r = run_id \<and> tr_tenant r = tenant) (tax_rule_runs d)))
       (\<lambda>run. case run of
          None \<Rightarrow> raise_tx (ValueError (lit ''unknown run_id''))
        | Some _ \<Rightarrow>
            bind_tx (query_tx (\<lambda>d. find_row (is_workflow run_id tenant) (tax_run_workflows d))) (\<lambda>current.
            bind_tx (when_tx (current = None)
              (bind_tx (insert_workflow \<lparr>rw_run_id = run_id, rw_tenant = tenant, rw_requested_by = requested_by,
                  rw_status = pending_review, rw_version = 1, rw_reviewed_by = None,
                  rw_reviewed_at = None, rw_decision_comment = None\<rparr>) (\<lambda>_.
               bind_tx (append_audit_event E ts (lit ''taxflow'') (lit ''REVIEW_REQUESTED'') run_id
                  (JObj [(lit ''requested_by'', JStr requested_by)]) tenant) (\<lambda>_.
               return_tx ())))) (\<lambda>_.
            workflow_row run_id tenant)))"

definition request_review ::
  "pyenv \<Rightarrow> dialect \<Rightarrow> clock \<Rightarrow> pystr \<Rightarrow> pystr \<Rightarrow> pystr \<Rightarrow> db \<Rightarrow> tax_run_workflow res \<times> db" where
  "request_review E dl ts tenant run_id requested_by d =
     (if py_blank requested_by then (Inl (ValueError (lit ''requested_by is required'')), d)
      else connect E dl (Some tenant) (request_review_body E ts tenant run_id requested_by) d)"

text \<open>
  \<^verbatim>\<open>review_run\<close> reads the workflow row, checks it, and then updates it only where it still has the
  version that was read.  The two halves are kept apart, because another reviewer's transaction
  may commit between them.
\<close>

definition check_review :: "pystr \<Rightarrow> tax_run_workflow option \<Rightarrow> tax_run_workflow res" where
  "check_review reviewer row = (case row of
     None \<Rightarrow> Inl (ValueError (lit ''review was not requested''))
   | Some r \<Rightarrow>
       if rw_status r \<noteq> pending_review then Inl (ValueError (lit ''review is already final''))
       else if rw_requested_by r = reviewer
         then Inl (ValueError (lit ''four-eyes control requires an independent reviewer''))
       else Inr r)"

definition review_status :: "pystr \<Rightarrow> pystr" where
  "review_status normalized = (if normalized = lit ''APPROVE'' then lit ''APPROVED'' else lit ''REJECTED'')"

definition decide_review ::
  "pyenv \<Rightarrow> clock \<Rightarrow> pystr \<Rightarrow> pystr \<Rightarrow> pystr \<Rightarrow> pystr \<Rightarrow> pystr \<Rightarrow> tax_run_workflow \<Rightarrow> (tax_run_workflow, db) tx" where
  "decide_review E ts tenant run_id reviewer normalized comment row =
     (let status = review_status normalized;
          current = (\<lambda>r. is_workflow run_id tenant r \<and> rw_status r = pending_review \<and> rw_version r = rw_version row)
      in bind_tx (query_tx (\<lambda>d. count_rows current (tax_run_workflows d))) (\<lambda>matched.
         bind_tx (update_tx (\<lambda>d. d\<lparr>tax_run_workflows := update_rows current
             (\<lambda>r. r\<lparr>rw_status := status, rw_version := rw_version row + 1, rw_reviewed_by := Some reviewer,
                    rw_reviewed_at := Some (ts 0), rw_decision_comment := Some comment\<rparr>) (tax_run_workflows d)\<rparr>)) (\<lambda>_.
         bind_tx (when_tx (matched \<noteq> 1) (raise_tx (ValueError (lit ''concurrent review conflict'')))) (\<lambda>_.
         bind_tx (append_audit_event E (after_calls 1 ts) (lit ''taxflow'') (lit ''REVIEW_DECIDED'') run_id
           (JObj [(lit ''status'', JStr status), (lit ''reviewed_by'', JStr reviewer),
                  (lit ''comment'', JStr comment)]) tenant) (\<lambda>_.
         workflow_row run_id tenant)))))"

definition review_body ::
  "pyenv \<Rightarrow> clock \<Rightarrow> pystr \<Rightarrow> pystr \<Rightarrow> pystr \<Rightarrow> pystr \<Rightarrow> pystr \<Rightarrow> (tax_run_workflow, db) tx" where
  "review_body E ts tenant run_id reviewer normalized comment =
     bind_tx (query_tx (\<lambda>d. find_row (is_workflow run_id tenant) (tax_run_workflows d))) (\<lambda>row.
     bind_tx (lift_res (check_review reviewer row))
       (decide_review E ts tenant run_id reviewer normalized comment))"

text \<open>The checks that precede the connection.\<close>

definition check_decision :: "pystr \<Rightarrow> pystr \<Rightarrow> unit res" where
  "check_decision normalized comment =
     (if normalized \<noteq> lit ''APPROVE'' \<and> normalized \<noteq> lit ''REJECT''
      then Inl (ValueError (lit ''decision must be APPROVE or REJECT''))
      else raise_if (py_blank comment) (ValueError (lit ''review comment is required'')))"

definition review_run ::
  "pyenv \<Rightarrow> dialect \<Rightarrow> clock \<Rightarrow> pystr \<Rightarrow> pystr \<Rightarrow> pystr \<Rightarrow> pystr \<Rightarrow> pystr \<Rightarrow> db
     \<Rightarrow> tax_run_workflow res \<times> db" where
  "review_run E dl ts tenant run_id reviewer decision comment d =
     (case check_decision (py_upper decision) comment of
        Inl e \<Rightarrow> (Inl e, d)
      | Inr _ \<Rightarrow> connect E dl (Some tenant)
          (review_body E ts tenant run_id reviewer (py_upper decision) comment) d)"

definition workflow ::
  "pyenv \<Rightarrow> dialect \<Rightarrow> pystr \<Rightarrow> pystr \<Rightarrow> db \<Rightarrow> tax_run_workflow option res \<times> db" where
  "workflow E dl tenant run_id = connect E dl (Some tenant)
     (query_tx (\<lambda>d. find_row (is_workflow run_id tenant) (tax_run_workflows d)))"

definition findings :: "pyenv \<Rightarrow> dialect \<Rightarrow> pystr \<Rightarrow> pystr \<Rightarrow> db \<Rightarrow> tax_finding list res \<times> db" where
  "findings E dl tenant run_id = connect E dl (Some tenant)
     (query_tx (\<lambda>d. select_rows tf_id (\<lambda>r. tf_run_id r = run_id \<and> tf_tenant r = tenant) (tax_findings d)))"

section \<open>Lemmas on idempotency keys\<close>

lemma has_key_simps [simp]:
  "has_key t op k \<lparr>ir_tenant = t', ir_operation = op', ir_key = k', ir_request_hash = h, ir_response_json = j,
     ir_status_code = c, ir_created_at = a\<rparr> \<longleftrightarrow> t' = t \<and> op' = op \<and> k' = k"
  by (simp add: has_key_def)

text \<open>The lookup is decided by the records alone, and later records do not change it.\<close>

lemma idempotent_response_append:
  assumes "idempotency_records d' = idempotency_records d @ new"
    and "find_row (has_key t op k) (idempotency_records d) \<noteq> None"
  shows "idempotent_response E t op (Some k) h d' = idempotent_response E t op (Some k) h d"
  using assms by (auto simp: idempotent_response_def find_row_append split: option.splits)

lemma idempotent_response_value:
  assumes "idempotent_response E t op (Some k) h d = Inr v" "v \<noteq> JNull"
  shows "find_row (has_key t op k) (idempotency_records d) \<noteq> None"
  using assms by (auto simp: idempotent_response_def split: if_splits option.splits)

text \<open>A stored response is the one that the next request with the key and the hash reads.\<close>

lemma store_then_respond:
  assumes "store_idempotent_response ts t op (Some k) h v d = Inr (u, d')"
    and "\<not> py_blank k" "length k \<le> 100" "wf_json E v"
    and "idempotency_records d2 = idempotency_records d' @ new"
  shows "idempotent_response E t op (Some k) h d2 = Inr (jnorm v)"
proof -
  have none: "find_row (has_key t op k) (idempotency_records d) = None"
    using assms(1) by (auto simp: store_idempotent_response_def find_row_None split: if_splits)
  have "idempotency_records d2 = idempotency_records d @
     [\<lparr>ir_tenant = t, ir_operation = op, ir_key = k, ir_request_hash = h,
       ir_response_json = canonical_json v, ir_status_code = 201, ir_created_at = ts 0\<rparr>] @ new"
    using assms(1,5) by (auto simp: store_idempotent_response_def split: if_splits)
  with none assms(2-4) show ?thesis
    by (simp add: idempotent_response_def find_row_append find_row_Cons loads_canonical)
qed

lemma idempotent_response_key_ok:
  "idempotent_response E t op (Some k) h d = Inr v \<Longrightarrow> \<not> py_blank k \<and> length k \<le> 100"
  by (auto simp: idempotent_response_def split: if_splits)

lemma store_keeps_db:
  "store_idempotent_response ts t op key h v d = Inr (u, d') \<Longrightarrow>
   \<exists>new. d' = d\<lparr>idempotency_records := idempotency_records d @ new\<rparr>"
  by (auto simp: store_idempotent_response_def split: option.splits if_splits)
     (metis append_Nil2 db.surjective db.update_convs(12))

text \<open>
  The contract of a key, for an operation whose body looks the key up, and otherwise runs and
  stores its response: the second request with the key and the hash reads the first response.
  What differs between the attempts (clock, fresh identifiers) is the argument of \<open>run\<close>.
\<close>

locale keyed_operation =
  fixes E :: pyenv and tenant operation :: pystr and request_hash :: pystr
    and run :: "'a \<Rightarrow> (json, db) tx"
  assumes run_records: "run a d = Inr (v, d') \<Longrightarrow> idempotency_records d' = idempotency_records d"
    and run_wf: "run a d = Inr (v, d') \<Longrightarrow> wf_json E v"
begin

definition keyed :: "'a \<Rightarrow> clock \<Rightarrow> pystr option \<Rightarrow> (json, db) tx" where
  "keyed a ts key =
     bind_tx (\<lambda>d. lift_res (idempotent_response E tenant operation key request_hash d) d) (\<lambda>replay.
       if replay \<noteq> JNull then return_tx replay
       else bind_tx (run a) (\<lambda>v. bind_tx (store_idempotent_response ts tenant operation key request_hash v)
         (\<lambda>_. return_tx v)))"

lemma keyed_replay:
  assumes "keyed a ts (Some k) d = Inr (v, d1)" "v \<noteq> JNull"
    and "idempotency_records d2 = idempotency_records d1 @ new"
  shows "\<exists>v'. keyed a' ts' (Some k) d2 = Inr (v', d2)
    \<and> (v' = v \<or> v' = jnorm v \<and> (\<exists>d0 d0'. run a d0 = Inr (v, d0')))"
proof -
  from assms(1) obtain r where r: "idempotent_response E tenant operation (Some k) request_hash d = Inr r"
    by (auto simp: keyed_def tx_Inr)
  show ?thesis
  proof (cases "r = JNull")
    case False
    with assms(1) r have "d1 = d" "v = r" by (auto simp: keyed_def tx_Inr)
    with r False assms(3) idempotent_response_append [of d2 d new]
      idempotent_response_value [OF r False]
    have "idempotent_response E tenant operation (Some k) request_hash d2 = Inr v" by simp
    with False \<open>v = r\<close> show ?thesis by (simp add: keyed_def bind_tx_def lift_res_def)
  next
    case True
    with assms(1) r obtain d0 where run: "run a d = Inr (v, d0)"
      and st: "store_idempotent_response ts tenant operation (Some k) request_hash v d0 = Inr ((), d1)"
      by (auto simp: keyed_def tx_Inr)
    from idempotent_response_key_ok [OF r] store_then_respond [OF st _ _ run_wf [OF run] assms(3)]
    have "idempotent_response E tenant operation (Some k) request_hash d2 = Inr (jnorm v)" by simp
    moreover have "jnorm v \<noteq> JNull" using assms(2) by (cases v) auto
    ultimately show ?thesis using run by (auto simp add: keyed_def bind_tx_def lift_res_def)
  qed
qed

text \<open>After a successful request the key is bound to its hash.\<close>

lemma keyed_bound:
  assumes "keyed a ts (Some k) d = Inr (v, d1)" "v \<noteq> JNull"
  shows "\<exists>r. find_row (has_key tenant operation k) (idempotency_records d1) = Some r
    \<and> ir_request_hash r = request_hash \<and> \<not> py_blank k \<and> length k \<le> 100"
proof -
  from assms(1) obtain r where r: "idempotent_response E tenant operation (Some k) request_hash d = Inr r"
    by (auto simp: keyed_def tx_Inr)
  show ?thesis
  proof (cases "r = JNull")
    case False
    with assms(1) r have "d1 = d" by (auto simp: keyed_def tx_Inr)
    with r False show ?thesis
      by (auto simp: idempotent_response_def split: option.splits if_splits)
  next
    case True
    with assms(1) r obtain d0 where "store_idempotent_response ts tenant operation (Some k) request_hash v d0 = Inr ((), d1)"
      by (auto simp: keyed_def tx_Inr)
    moreover from this have "find_row (has_key tenant operation k) (idempotency_records d0) = None"
      by (auto simp: store_idempotent_response_def find_row_None split: if_splits)
    ultimately show ?thesis using idempotent_response_key_ok [OF r]
      by (auto simp: store_idempotent_response_def find_row_append find_row_Cons split: if_splits)
  qed
qed

lemma keyed_conflict:
  assumes "find_row (has_key tenant operation k) (idempotency_records d) = Some r"
    and "ir_request_hash r \<noteq> request_hash" "\<not> py_blank k" "length k \<le> 100"
  shows "keyed a ts (Some k) d =
    Inl (ValueError (lit ''idempotency key was already used with a different request''))"
  using assms by (simp add: keyed_def idempotent_response_def bind_tx_def lift_res_def)

end

section \<open>Ingestion and rule runs are keyed operations\<close>

definition ingest_run ::
  "pyenv \<Rightarrow> pystr \<Rightarrow> tax_transaction list \<Rightarrow> clock \<times> pystr \<Rightarrow> (json, db) tx" where
  "ingest_run E tenant rows = (\<lambda>(ts, uid).
     bind_tx (update_tx (\<lambda>d.
       d\<lparr>tax_transactions := insert_transactions E tenant (ts 0) rows (tax_transactions d)\<rparr>)) (\<lambda>_.
     bind_tx (append_audit_event E (after_calls 1 ts) (lit ''taxflow'') (lit ''BATCH_INGESTED'') uid
       (JObj [(lit ''rows'', JInt (int (length rows)))]) tenant) (\<lambda>_.
     return_tx (JObj [(lit ''ingested'', JInt (int (length rows)))]))))"

definition run_rules_run ::
  "pyenv \<Rightarrow> pystr \<Rightarrow> pystr \<Rightarrow> json \<Rightarrow> clock \<times> pystr \<Rightarrow> (json, db) tx" where
  "run_rules_run E tenant version pack = (\<lambda>(ts, run_id).
     bind_tx (insert_rule_run run_id tenant version pack (ts 0)) (\<lambda>_.
     bind_tx (query_tx (tenant_transactions tenant)) (\<lambda>rows.
     bind_tx (lift_res (collect_findings pack rows)) (\<lambda>found.
     bind_tx (store_findings tenant run_id (ts 1) found (int (length rows))) (\<lambda>_.
     bind_tx (append_audit_event E (after_calls 2 ts) (lit ''taxflow'') (lit ''RULE_RUN_COMPLETED'') run_id
       (JObj [(lit ''rule_version'', JStr version), (lit ''transactions'', JInt (int (length rows))),
         (lit ''findings'', JInt (int (length found))),
         (lit ''rule_pack_hash'', JStr (sha256_json E pack))]) tenant) (\<lambda>_.
     return_tx (run_response E run_id version pack (int (length rows)) (int (length found)))))))))"

lemma append_audit_event_shape:
  assumes "append_audit_event E ts m et i p t d = Inr (h, d')"
  obtains ev where "d' = d\<lparr>audit_events := audit_events d @ [audit_row E ts m et i p t d],
     outbox_events := outbox_events d @ [ev]\<rparr>"
    "ox_tenant ev = t" "ox_id ev = fresh_id (map ox_id (outbox_events d))"
    "ox_published_at ev = None" "ox_attempts ev = 0" "ox_dead_lettered_at ev = None"
  using assms by (rule append_audit_event_cases) (rule that)

lemma append_audit_event_idem [frame_simps]:
  assumes "append_audit_event E ts m et i p t d = Inr (h, d')"
  shows "idempotency_records d' = idempotency_records d"
  using assms by (rule append_audit_event_shape) simp

lemma store_findings_frame:
  "store_findings t run_id now found n d = Inr (u, d') \<Longrightarrow>
     \<exists>fs rs. d' = d\<lparr>tax_findings := fs, tax_rule_runs := rs\<rparr>"
  by (auto simp: store_findings_def bind_res_Inr)

lemma insert_rule_run_frame:
  "insert_rule_run run_id t v p now d = Inr (u, d') \<Longrightarrow> \<exists>rs. d' = d\<lparr>tax_rule_runs := rs\<rparr>"
  by (auto simp: insert_rule_run_def split: if_splits)

interpretation ingestion: keyed_operation E tenant "lit ''tax.ingest''" "ingest_request_hash E rows"
    "ingest_run E tenant rows" for E tenant rows
proof
  fix a d v d'
  assume "ingest_run E tenant rows a d = Inr (v, d')"
  then show "idempotency_records d' = idempotency_records d" "wf_json E v"
    by (auto simp: ingest_run_def tx_Inr split: prod.splits dest!: append_audit_event_idem)
qed

interpretation rule_run: keyed_operation E tenant "lit ''tax.run_rules''"
    "sha256_json E (JObj [(lit ''rule_version'', JStr version), (lit ''rule_pack'', pack)])"
    "run_rules_run E tenant version pack" for E tenant version pack
proof
  fix a d v d'
  assume "run_rules_run E tenant version pack a d = Inr (v, d')"
  then show "idempotency_records d' = idempotency_records d" "wf_json E v"
    by (auto simp: run_rules_run_def run_response_def tx_Inr split: prod.splits
        dest!: append_audit_event_idem store_findings_frame insert_rule_run_frame)
qed

lemma bind_tx_assoc: "bind_tx (bind_tx m f) g = bind_tx m (\<lambda>x. bind_tx (f x) g)"
  by (rule ext) (auto simp: bind_tx_def bind_res_def split: sum.splits prod.splits)

lemma bind_return_tx [simp]: "bind_tx (return_tx x) f = f x"
  by (rule ext) (simp add: bind_tx_def)

lemma run_rules_body_keyed:
  "run_rules_body E ts run_id tenant version pack key =
     rule_run.keyed E tenant version pack (ts, run_id) (after_calls 4 ts) key"
  unfolding rule_run.keyed_def run_rules_body_def Let_def
  by (simp add: run_rules_run_def bind_tx_assoc cong: if_cong)

lemma ingest_body_keyed:
  "ingest_body E ts uid tenant rows key =
     bind_tx (ingestion.keyed E tenant rows (ts, uid) (after_calls 3 ts) key)
       (\<lambda>v. lift_res (bind_res (jget (lit ''ingested'') v) json_int))"
proof -
  have step: "bind_tx m f = bind_tx m g" if "\<And>x. f x = g x" for m :: "('a, 'b) tx" and f g :: "'a \<Rightarrow> ('c, 'b) tx"
    using that by presburger
  have l: "lift_res (Inr n) = return_tx n" for n :: int
    by (rule ext) (simp add: lift_res_def)
  show ?thesis
    unfolding ingest_body_def ingestion.keyed_def bind_tx_assoc
    by (rule step) (auto simp add: ingest_run_def bind_tx_assoc l cong: if_cong simp del: tx_apply)
qed

section \<open>What the default rules find\<close>

definition tax_id_missing :: "pystr option \<Rightarrow> bool" where
  "tax_id_missing v \<longleftrightarrow> v = None \<or> v = Some []"

definition tax_off :: "tax_transaction_row \<Rightarrow> bool" where
  "tax_off r \<longleftrightarrow> 1 / 100 < \<bar>dec_val (Dec (expected_cents r) (-2)) - dec_val (tx_tax_amount r)\<bar>"

text \<open>The codes of the rules that a row violates among the rows of its tenant.\<close>

definition violations :: "tax_transaction_row list \<Rightarrow> tax_transaction_row \<Rightarrow> pystr list" where
  "violations rows r =
     (if tax_id_missing (tx_seller_tax_id r) \<or> tax_id_missing (tx_buyer_tax_id r)
      then [lit ''TAX_ID_REQUIRED''] else []) @
     (if tax_off r then [lit ''VAT_RECALC''] else []) @
     (if count_rows (\<lambda>r'. tx_invoice_id r' = tx_invoice_id r) rows > 1
      then [lit ''DUPLICATE_INVOICE''] else []) @
     (if 5000000 \<le> dec_val (tx_amount r) then [lit ''EXTREME_AMOUNT''] else [])"

definition finding_key :: "finding \<Rightarrow> int \<times> pystr \<times> json" where
  "finding_key f = (fi_transaction_id f, fi_invoice_id f, fi_rule_code f)"

text \<open>A rule that matches contributes one finding with its code, its severity and its message.\<close>

lemma evaluate_rules_step:
  assumes "evaluate_rule (JObj kvs) row cx = Inr (matched, ev)"
    and "map_of kvs (lit ''code'') = Some c" "map_of kvs (lit ''severity'') = Some s"
      "map_of kvs (lit ''message'') = Some m"
    and "evaluate_rules row cx rs = Inr fs"
  shows "\<exists>gs. evaluate_rules row cx (JObj kvs # rs) = Inr (gs @ fs)
     \<and> map finding_key gs = (if matched then [(tx_id row, tx_invoice_id row, c)] else [])
     \<and> (\<forall>g \<in> set gs. fi_severity g = s \<and> fi_explanation g = m)"
  using assms by (auto simp: rule_finding_def finding_key_def)

lemma duplicate_invoice_ids_iff:
  "r \<in> set rows \<Longrightarrow> tx_invoice_id r \<in> set (duplicate_invoice_ids rows) \<longleftrightarrow>
    count_rows (\<lambda>r'. tx_invoice_id r' = tx_invoice_id r) rows > 1"
  by (auto simp: duplicate_invoice_ids_def)

definition text_finding :: "finding \<Rightarrow> bool" where
  "text_finding f \<longleftrightarrow> (\<exists>s m. fi_severity f = JStr s \<and> fi_explanation f = JStr m)"

lemma evaluate_row_default:
  assumes "row_scaled r" "r \<in> set rows"
  shows "\<exists>fs. evaluate_row r (duplicate_invoice_ids rows) default_rule_pack = Inr fs
    \<and> map finding_key fs = map (\<lambda>c. (tx_id r, tx_invoice_id r, JStr c)) (violations rows r)
    \<and> (\<forall>f \<in> set fs. text_finding f)"
proof -
  let ?cx = "[(lit ''duplicate_invoice_ids'', duplicate_invoice_ids rows)]"
  obtain k1 k2 k3 k4 where k: "rule_tax_id = JObj k1" "rule_vat = JObj k2" "rule_duplicate = JObj k3"
    "rule_extreme = JObj k4"
    by (auto simp: rule_tax_id_def rule_vat_def rule_duplicate_def rule_extreme_def)
  let ?txt = "\<lambda>kvs code. \<exists>s m. map_of kvs (lit ''code'') = Some (JStr (lit code))
     \<and> map_of kvs (lit ''severity'') = Some (JStr s) \<and> map_of kvs (lit ''message'') = Some (JStr m)"
  have t: "?txt k1 ''TAX_ID_REQUIRED''" "?txt k2 ''VAT_RECALC''" "?txt k3 ''DUPLICATE_INVOICE''"
    "?txt k4 ''EXTREME_AMOUNT''"
    using k by (auto simp: rule_tax_id_def rule_vat_def rule_duplicate_def rule_extreme_def)
  have step: "\<exists>fs'. evaluate_rules r ?cx (JObj kvs # rs) = Inr fs'
     \<and> map finding_key fs' = (if b then [(tx_id r, tx_invoice_id r, JStr (lit code))] else []) @ ks
     \<and> (\<forall>f \<in> set fs'. text_finding f)"
    if "\<exists>ev. evaluate_rule (JObj kvs) r ?cx = Inr (b, ev)" "?txt kvs code"
      "\<exists>fs. evaluate_rules r ?cx rs = Inr fs \<and> map finding_key fs = ks \<and> (\<forall>f \<in> set fs. text_finding f)"
    for kvs b code rs ks
  proof -
    from that obtain ev s m fs where
      a: "evaluate_rule (JObj kvs) r ?cx = Inr (b, ev)" "map_of kvs (lit ''code'') = Some (JStr (lit code))"
        "map_of kvs (lit ''severity'') = Some (JStr s)" "map_of kvs (lit ''message'') = Some (JStr m)"
        "evaluate_rules r ?cx rs = Inr fs" and fs: "map finding_key fs = ks" "\<forall>f \<in> set fs. text_finding f"
      by blast
    from evaluate_rules_step [OF a] fs show ?thesis
      by (auto simp: text_finding_def)
  qed
  have e1: "\<exists>ev. evaluate_rule (JObj k1) r ?cx =
      Inr (tax_id_missing (tx_seller_tax_id r) \<or> tax_id_missing (tx_buyer_tax_id r), ev)"
    unfolding k(1) [symmetric] decide_rule_tax_id by (auto simp: tax_id_missing_def)
  have e2: "\<exists>ev. evaluate_rule (JObj k2) r ?cx = Inr (tax_off r, ev)"
    unfolding k(2) [symmetric] decide_rule_vat [OF assms(1)] by (simp add: tax_off_def)
  have e3: "\<exists>ev. evaluate_rule (JObj k3) r ?cx =
      Inr (count_rows (\<lambda>r'. tx_invoice_id r' = tx_invoice_id r) rows > 1, ev)"
    unfolding k(3) [symmetric] decide_rule_duplicate duplicate_invoice_ids_iff [OF assms(2)] by simp
  have e4: "\<exists>ev. evaluate_rule (JObj k4) r ?cx = Inr (5000000 \<le> dec_val (tx_amount r), ev)"
    unfolding k(4) [symmetric] decide_rule_extreme by simp
  have nil: "\<exists>fs. evaluate_rules r ?cx [] = Inr fs \<and> map finding_key fs = [] \<and> (\<forall>f \<in> set fs. text_finding f)"
    by simp
  from step [OF e1 t(1) step [OF e2 t(2) step [OF e3 t(3) step [OF e4 t(4) nil]]]] obtain fs where
    fs: "evaluate_rules r ?cx [JObj k1, JObj k2, JObj k3, JObj k4] = Inr fs"
      "map finding_key fs =
        (if tax_id_missing (tx_seller_tax_id r) \<or> tax_id_missing (tx_buyer_tax_id r)
         then [(tx_id r, tx_invoice_id r, JStr (lit ''TAX_ID_REQUIRED''))] else []) @
        (if tax_off r then [(tx_id r, tx_invoice_id r, JStr (lit ''VAT_RECALC''))] else []) @
        (if count_rows (\<lambda>r'. tx_invoice_id r' = tx_invoice_id r) rows > 1
         then [(tx_id r, tx_invoice_id r, JStr (lit ''DUPLICATE_INVOICE''))] else []) @
        (if 5000000 \<le> dec_val (tx_amount r)
         then [(tx_id r, tx_invoice_id r, JStr (lit ''EXTREME_AMOUNT''))] else []) @ []"
      "\<forall>f \<in> set fs. text_finding f" by blast
  have "evaluate_row r (duplicate_invoice_ids rows) default_rule_pack = Inr fs"
    using fs(1) by (simp add: evaluate_row_def default_rule_pack_def k)
  with fs(2,3) show ?thesis
    by (intro exI [of _ fs]) (simp add: violations_def)
qed

text \<open>The findings of all rows, in the order of the rows.\<close>

lemma map_res_concat:
  assumes "\<And>r. r \<in> set rows \<Longrightarrow> \<exists>fs. g r = Inr fs \<and> map key fs = ks r \<and> (\<forall>f \<in> set fs. P f)"
  shows "\<exists>fss. map_res g rows = Inr fss \<and> map key (concat fss) = concat (map ks rows)
    \<and> (\<forall>f \<in> set (concat fss). P f)"
  using assms
proof (induction rows)
  case (Cons r rows)
  then obtain fs fss where "g r = Inr fs" "map key fs = ks r" "\<forall>f \<in> set fs. P f"
    "map_res g rows = Inr fss" "map key (concat fss) = concat (map ks rows)" "\<forall>f \<in> set (concat fss). P f"
    by (metis list.set_intros)
  then show ?case by (intro exI [of _ "fs # fss"]) auto
qed simp

lemma collect_findings_default:
  assumes "\<forall>r \<in> set rows. row_scaled r"
  shows "\<exists>fs. collect_findings default_rule_pack rows = Inr fs
    \<and> map finding_key fs =
        concat (map (\<lambda>r. map (\<lambda>c. (tx_id r, tx_invoice_id r, JStr c)) (violations rows r)) rows)
    \<and> (\<forall>f \<in> set fs. text_finding f)"
proof -
  have "\<exists>fss. map_res (\<lambda>r. evaluate_row r (duplicate_invoice_ids rows) default_rule_pack) rows = Inr fss
    \<and> map finding_key (concat fss) =
        concat (map (\<lambda>r. map (\<lambda>c. (tx_id r, tx_invoice_id r, JStr c)) (violations rows r)) rows)
    \<and> (\<forall>f \<in> set (concat fss). text_finding f)"
    by (rule map_res_concat, rule evaluate_row_default) (use assms in auto)
  then obtain fss where fss: "map_res (\<lambda>r. evaluate_row r (duplicate_invoice_ids rows) default_rule_pack) rows = Inr fss"
    "map finding_key (concat fss) =
        concat (map (\<lambda>r. map (\<lambda>c. (tx_id r, tx_invoice_id r, JStr c)) (violations rows r)) rows)"
    "\<forall>f \<in> set (concat fss). text_finding f" by blast
  then show ?thesis
    by (intro exI [of _ "concat fss"]) (simp add: collect_findings_def)
qed

text \<open>The stored findings of a run.\<close>

definition stored_key :: "tax_finding \<Rightarrow> int option \<times> pystr \<times> pystr" where
  "stored_key f = (tf_transaction_id f, tf_invoice_id f, tf_rule_code f)"

lemma insert_findings_keys:
  assumes "insert_findings t run_id fs rows = Inr rows'"
  shows "\<exists>new. rows' = rows @ new \<and> (\<forall>f \<in> set new. tf_run_id f = run_id \<and> tf_tenant f = t)
    \<and> map (\<lambda>f. (tf_transaction_id f, tf_invoice_id f, JStr (tf_rule_code f))) new
      = map (\<lambda>f. (Some (fi_transaction_id f), fi_invoice_id f, fi_rule_code f)) fs"
  using assms
proof (induction fs arbitrary: rows)
  case (Cons f fs)
  then obtain code s e where *: "json_text (fi_rule_code f) = Inr code"
    "insert_findings t run_id fs (rows @ [\<lparr>tf_id = fresh_id (map tf_id rows), tf_tenant = t, tf_run_id = run_id,
           tf_transaction_id = Some (fi_transaction_id f), tf_invoice_id = fi_invoice_id f,
           tf_rule_code = code, tf_severity = s, tf_explanation = e,
           tf_evidence_json = canonical_json (fi_evidence f)\<rparr>]) = Inr rows'"
    by (auto simp: bind_res_Inr)
  from *(1) have "fi_rule_code f = JStr code" by (cases "fi_rule_code f") auto
  with Cons.IH [OF *(2)] show ?case by auto
qed simp

lemma insert_findings_total:
  assumes "\<forall>f \<in> set fs. text_finding f" "\<forall>f \<in> set fs. \<exists>c. fi_rule_code f = JStr c"
  shows "\<exists>rows'. insert_findings t run_id fs rows = Inr rows'"
  using assms by (induction fs arbitrary: rows) (auto simp: text_finding_def)

lemma update_rows_member: "r \<in> set rows \<Longrightarrow> p r \<Longrightarrow> f r \<in> set (update_rows p f rows)"
  by (force simp: set_update_rows)

lemma map_JStr_inject:
  "map (\<lambda>f. (a f, b f, JStr (c f))) xs = map (\<lambda>(i, n, k). (Some i, n, k)) (map (\<lambda>(i, n, k). (i, n, JStr k)) ys)
   \<Longrightarrow> map (\<lambda>f. (a f, b f, c f)) xs = map (\<lambda>(i, n, k). (Some i, n, k)) ys"
proof (induction xs arbitrary: ys)
  case (Cons x xs)
  then show ?case by (cases ys) auto
qed simp

definition expected_findings :: "tax_transaction_row list \<Rightarrow> (int option \<times> pystr \<times> pystr) list" where
  "expected_findings rows =
     concat (map (\<lambda>r. map (\<lambda>c. (Some (tx_id r), tx_invoice_id r, c)) (violations rows r)) rows)"

text \<open>A body that runs the default pack without a key.\<close>

lemma run_default_body:
  assumes run: "run_rules_body E ts run_id tenant version default_rule_pack None d = Inr (v, d')"
    and rows: "\<forall>r \<in> set (tenant_transactions tenant d). row_scaled r"
  shows "\<exists>new. tax_findings d' = tax_findings d @ new
    \<and> (\<forall>f \<in> set new. tf_run_id f = run_id \<and> tf_tenant f = tenant)
    \<and> map stored_key new = expected_findings (tenant_transactions tenant d)
    \<and> (\<exists>r \<in> set (tax_rule_runs d'). tr_run_id r = run_id \<and> tr_tenant r = tenant
         \<and> tr_transaction_count r = int (length (tenant_transactions tenant d))
         \<and> tr_finding_count r = int (length new))
    \<and> v = run_response E run_id version default_rule_pack
        (int (length (tenant_transactions tenant d))) (int (length new))"
proof -
  let ?rows = "tenant_transactions tenant d"
  obtain fs where fs: "collect_findings default_rule_pack ?rows = Inr fs"
    "map finding_key fs = concat (map (\<lambda>r. map (\<lambda>c. (tx_id r, tx_invoice_id r, JStr c)) (violations ?rows r)) ?rows)"
    using collect_findings_default [OF rows] by blast
  have rest: "run_rules_run E tenant version default_rule_pack (ts, run_id) d = Inr (v, d')"
    using run unfolding run_rules_body_keyed rule_run.keyed_def
    by (auto simp: tx_Inr idempotent_response_def store_idempotent_response_def)
  then obtain d1 where d1: "insert_rule_run run_id tenant version default_rule_pack (ts 0) d = Inr ((), d1)"
    by (auto simp: tx_Inr run_rules_run_def)
  have rows1: "tenant_transactions tenant d1 = ?rows" and f1: "tax_findings d1 = tax_findings d"
    using insert_rule_run_frame [OF d1] by (auto simp: tenant_transactions_def)
  from rest d1 rows1 fs(1) obtain d2 d3 h where
    st: "store_findings tenant run_id (ts 1) fs (int (length ?rows)) d1 = Inr ((), d2)"
    and au: "append_audit_event E (after_calls 2 ts) (lit ''taxflow'') (lit ''RULE_RUN_COMPLETED'') run_id
        (JObj [(lit ''rule_version'', JStr version), (lit ''transactions'', JInt (int (length ?rows))),
           (lit ''findings'', JInt (int (length fs))),
           (lit ''rule_pack_hash'', JStr (sha256_json E default_rule_pack))]) tenant d2 = Inr (h, d')"
    and v: "v = run_response E run_id version default_rule_pack (int (length ?rows)) (int (length fs))"
    by (auto simp: run_rules_run_def tx_Inr)
  from st obtain new where new: "tax_findings d2 = tax_findings d @ new"
    "\<forall>f \<in> set new. tf_run_id f = run_id \<and> tf_tenant f = tenant"
    "map (\<lambda>f. (tf_transaction_id f, tf_invoice_id f, JStr (tf_rule_code f))) new
      = map (\<lambda>f. (Some (fi_transaction_id f), fi_invoice_id f, fi_rule_code f)) fs"
    and runs: "tax_rule_runs d2 = update_rows (\<lambda>r. tr_run_id r = run_id)
           (\<lambda>r. r\<lparr>tr_completed_at := Some (ts 1), tr_transaction_count := int (length ?rows),
                  tr_finding_count := int (length fs)\<rparr>) (tax_rule_runs d1)"
    by (auto simp: store_findings_def bind_res_Inr f1 dest!: insert_findings_keys)
  have len: "length new = length fs" using arg_cong [OF new(3), of length] by simp
  have "map (\<lambda>f. (Some (fi_transaction_id f), fi_invoice_id f, fi_rule_code f)) fs
      = map (\<lambda>(i, n, k). (Some i, n, k)) (map finding_key fs)"
    by (simp add: finding_key_def)
  also have "map finding_key fs = map (\<lambda>(i, n, k). (i, n, JStr k))
      (concat (map (\<lambda>r. map (\<lambda>c. (tx_id r, tx_invoice_id r, c)) (violations ?rows r)) ?rows))"
    by (simp add: fs(2) map_concat comp_def)
  finally have fi: "map (\<lambda>f. (Some (fi_transaction_id f), fi_invoice_id f, fi_rule_code f)) fs
      = map (\<lambda>(i, n, k). (Some i, n, k)) (map (\<lambda>(i, n, k). (i, n, JStr k))
      (concat (map (\<lambda>r. map (\<lambda>c. (tx_id r, tx_invoice_id r, c)) (violations ?rows r)) ?rows)))" .
  have "map stored_key new = map (\<lambda>(i, n, k). (Some i, n, k))
      (concat (map (\<lambda>r. map (\<lambda>c. (tx_id r, tx_invoice_id r, c)) (violations ?rows r)) ?rows))"
    unfolding stored_key_def by (rule map_JStr_inject) (rule trans [OF new(3) fi])
  then have keys: "map stored_key new = expected_findings ?rows"
    by (simp add: expected_findings_def map_concat comp_def)
  have "\<exists>r \<in> set (tax_rule_runs d1). tr_run_id r = run_id \<and> tr_tenant r = tenant"
    using d1 by (auto simp: insert_rule_run_def split: if_splits)
  then obtain r where r: "r \<in> set (tax_rule_runs d1)" "tr_run_id r = run_id" "tr_tenant r = tenant"
    by blast
  have run_row: "\<exists>r \<in> set (tax_rule_runs d2). tr_run_id r = run_id \<and> tr_tenant r = tenant
         \<and> tr_transaction_count r = int (length ?rows) \<and> tr_finding_count r = int (length new)"
    unfolding runs by (rule bexI [OF _ update_rows_member [OF r(1)]]) (simp_all add: r len)
  from au have eqs: "tax_findings d' = tax_findings d2" "tax_rule_runs d' = tax_rule_runs d2"
    by (auto elim!: append_audit_event_shape)
  show ?thesis
  proof (intro exI [of _ new] conjI)
    show "tax_findings d' = tax_findings d @ new" by (simp only: eqs new(1))
    show "\<forall>f \<in> set new. tf_run_id f = run_id \<and> tf_tenant f = tenant" by (rule new(2))
    show "v = run_response E run_id version default_rule_pack (int (length ?rows)) (int (length new))"
      by (simp only: v len)
  qed (use keys run_row eqs in simp_all)
qed

section \<open>Reviews\<close>

lemma find_row_update_rows:
  assumes "\<And>r. q (f r) = q r"
  shows "find_row q (update_rows p f rows) = map_option (\<lambda>r. if p r then f r else r) (find_row q rows)"
  using assms by (induction rows) (auto simp: update_rows_def find_row_Cons)

lemma append_audit_event_workflows [frame_simps]:
  "append_audit_event E ts m et i p t d = Inr (h, d') \<Longrightarrow> tax_run_workflows d' = tax_run_workflows d"
  by (auto elim!: append_audit_event_shape)

definition reviewed :: "clock \<Rightarrow> pystr \<Rightarrow> pystr \<Rightarrow> pystr \<Rightarrow> tax_run_workflow \<Rightarrow> tax_run_workflow" where
  "reviewed ts reviewer normalized comment r =
     r\<lparr>rw_status := review_status normalized, rw_version := rw_version r + 1, rw_reviewed_by := Some reviewer,
       rw_reviewed_at := Some (ts 0), rw_decision_comment := Some comment\<rparr>"

lemma decide_review_Inr:
  assumes "decide_review E ts tenant run_id reviewer normalized comment row d = Inr (w, d')"
    and "find_row (is_workflow run_id tenant) (tax_run_workflows d) = Some row"
    and "rw_status row = pending_review"
  shows "w = reviewed ts reviewer normalized comment row"
    and "find_row (is_workflow run_id tenant) (tax_run_workflows d') = Some w"
proof -
  let ?c = "\<lambda>r. is_workflow run_id tenant r \<and> rw_status r = pending_review \<and> rw_version r = rw_version row"
  let ?f = "\<lambda>r. r\<lparr>rw_status := review_status normalized, rw_version := rw_version row + 1,
      rw_reviewed_by := Some reviewer, rw_reviewed_at := Some (ts 0), rw_decision_comment := Some comment\<rparr>"
  from assms(1) have rows: "tax_run_workflows d' = update_rows ?c ?f (tax_run_workflows d)"
    and last: "workflow_row run_id tenant d' = Inr (w, d')"
    by (auto simp: decide_review_def Let_def tx_Inr workflow_row_def dest!: append_audit_event_workflows
        split: option.splits if_splits)
  have "find_row (is_workflow run_id tenant) (tax_run_workflows d') = Some (?f row)"
    unfolding rows using find_row_Some [OF assms(2)] assms(2,3)
    by (subst find_row_update_rows) (simp_all add: is_workflow_def)
  with last show "w = reviewed ts reviewer normalized comment row"
    "find_row (is_workflow run_id tenant) (tax_run_workflows d') = Some w"
    by (auto simp: workflow_row_def reviewed_def)
qed

lemma review_run_Inr:
  assumes "review_run E dl ts tenant run_id reviewer decision comment d = (Inr w, d')"
  obtains row where "find_row (is_workflow run_id tenant) (tax_run_workflows d) = Some row"
    "rw_status row = pending_review" "rw_requested_by row \<noteq> reviewer" "\<not> py_blank comment"
    "py_upper decision \<in> {lit ''APPROVE'', lit ''REJECT''}"
    "w = reviewed ts reviewer (py_upper decision) comment row"
    "find_row (is_workflow run_id tenant) (tax_run_workflows d') = Some w"
proof -
  from assms have pre: "check_decision (py_upper decision) comment = Inr ()"
    and body: "review_body E ts tenant run_id reviewer (py_upper decision) comment d = Inr (w, d')"
    by (auto simp: review_run_def split: sum.splits dest!: connect_commit)
  from body obtain row where row: "find_row (is_workflow run_id tenant) (tax_run_workflows d) = Some row"
    "rw_status row = pending_review" "rw_requested_by row \<noteq> reviewer"
    and dec: "decide_review E ts tenant run_id reviewer (py_upper decision) comment row d = Inr (w, d')"
    by (auto simp: review_body_def tx_Inr check_review_def split: option.splits if_splits)
  from pre have "\<not> py_blank comment" "py_upper decision \<in> {lit ''APPROVE'', lit ''REJECT''}"
    by (auto simp: check_decision_def raise_if_Inr split: if_splits)
  with that row decide_review_Inr [OF dec row(1,2)] show thesis by blast
qed

lemma review_status_final: "review_status s \<noteq> pending_review"
  by (simp add: review_status_def pending_review_def)

lemma reviewed_final: "rw_status (reviewed ts reviewer normalized comment r) \<noteq> pending_review"
  by (simp add: reviewed_def review_status_final)

lemma review_rejected:
  assumes "find_row (is_workflow run_id tenant) (tax_run_workflows d) = Some w" "rw_status w \<noteq> pending_review"
  shows "\<exists>e. review_run E dl ts tenant run_id reviewer decision comment d = (Inl e, d)"
  using assms
  by (auto simp: review_run_def connect_eq review_body_def bind_tx_def lift_res_def check_review_def
      split: sum.splits)

section \<open>Concurrent reviewers\<close>

text \<open>
  Several calls of \<^verbatim>\<open>review_run\<close> on one run whose transactions interleave: each reads and checks
  the row, and later updates it and commits or aborts.  An attempt is the reviewer, the
  normalized decision and the comment.
\<close>

datatype review_stage = Waiting | Checked tax_run_workflow | Decided | Refused

inductive review_step ::
  "pyenv \<Rightarrow> clock \<Rightarrow> pystr \<Rightarrow> pystr \<Rightarrow> (pystr \<times> pystr \<times> pystr) list
    \<Rightarrow> db \<times> review_stage list \<Rightarrow> db \<times> review_stage list \<Rightarrow> bool"
  for E ts tenant run_id attempts where
  read: "i < length stages \<Longrightarrow> stages ! i = Waiting \<Longrightarrow> attempts ! i = (reviewer, normalized, comment) \<Longrightarrow>
    check_review reviewer (find_row (is_workflow run_id tenant) (tax_run_workflows d)) = Inr row \<Longrightarrow>
    review_step E ts tenant run_id attempts (d, stages) (d, stages[i := Checked row])"
| refuse: "i < length stages \<Longrightarrow> stages ! i = Waiting \<Longrightarrow> attempts ! i = (reviewer, normalized, comment) \<Longrightarrow>
    check_review reviewer (find_row (is_workflow run_id tenant) (tax_run_workflows d)) = Inl e \<Longrightarrow>
    review_step E ts tenant run_id attempts (d, stages) (d, stages[i := Refused])"
| commit: "i < length stages \<Longrightarrow> stages ! i = Checked row \<Longrightarrow> attempts ! i = (reviewer, normalized, comment) \<Longrightarrow>
    transaction (decide_review E ts tenant run_id reviewer normalized comment row) d = (Inr w, d') \<Longrightarrow>
    review_step E ts tenant run_id attempts (d, stages) (d', stages[i := Decided])"
| abort: "i < length stages \<Longrightarrow> stages ! i = Checked row \<Longrightarrow> attempts ! i = (reviewer, normalized, comment) \<Longrightarrow>
    transaction (decide_review E ts tenant run_id reviewer normalized comment row) d = (Inl e, d') \<Longrightarrow>
    review_step E ts tenant run_id attempts (d, stages) (d', stages[i := Refused])"

lemma find_row_unique:
  assumes "distinct (map rw_run_id rows)" "r \<in> set rows" "is_workflow run_id tenant r"
  shows "find_row (is_workflow run_id tenant) rows = Some r"
  using assms by (induction rows) (auto simp: find_row_Cons is_workflow_def)

lemma decide_review_commit:
  assumes "decide_review E ts tenant run_id reviewer normalized comment row d = Inr (w, d')"
    and "distinct (map rw_run_id (tax_run_workflows d))"
  obtains r where "find_row (is_workflow run_id tenant) (tax_run_workflows d) = Some r"
    "rw_status r = pending_review" "rw_version r = rw_version row"
    "find_row (is_workflow run_id tenant) (tax_run_workflows d') = Some (reviewed ts reviewer normalized comment r)"
    "map rw_run_id (tax_run_workflows d') = map rw_run_id (tax_run_workflows d)"
proof -
  let ?c = "\<lambda>r. is_workflow run_id tenant r \<and> rw_status r = pending_review \<and> rw_version r = rw_version row"
  let ?f = "\<lambda>r. r\<lparr>rw_status := review_status normalized, rw_version := rw_version row + 1,
      rw_reviewed_by := Some reviewer, rw_reviewed_at := Some (ts 0), rw_decision_comment := Some comment\<rparr>"
  from assms(1) have rows: "tax_run_workflows d' = update_rows ?c ?f (tax_run_workflows d)"
    and cnt: "count_rows ?c (tax_run_workflows d) = 1"
    by (auto simp: decide_review_def Let_def tx_Inr workflow_row_def dest!: append_audit_event_workflows
        split: option.splits if_splits)
  from cnt have "filter ?c (tax_run_workflows d) \<noteq> []" by (auto simp: count_rows_def)
  then obtain r where "r \<in> set (tax_run_workflows d)" "?c r" by (auto simp: filter_empty_conv)
  then have r: "find_row (is_workflow run_id tenant) (tax_run_workflows d) = Some r" "?c r"
    using find_row_unique [OF assms(2)] by auto
  have "find_row (is_workflow run_id tenant) (tax_run_workflows d') = Some (?f r)"
    unfolding rows using r by (subst find_row_update_rows) (simp_all add: is_workflow_def)
  then have "find_row (is_workflow run_id tenant) (tax_run_workflows d')
      = Some (reviewed ts reviewer normalized comment r)"
    using r(2) by (simp add: reviewed_def)
  moreover have "map rw_run_id (tax_run_workflows d') = map rw_run_id (tax_run_workflows d)"
    unfolding rows by (rule map_update_rows_id) simp
  ultimately show thesis using that r by blast
qed

definition race_inv ::
  "pystr \<Rightarrow> pystr \<Rightarrow> (pystr \<times> pystr \<times> pystr) list \<Rightarrow> pystr \<Rightarrow> db \<times> review_stage list \<Rightarrow> bool" where
  "race_inv tenant run_id attempts requester s \<longleftrightarrow> (case s of (d, stages) \<Rightarrow>
     distinct (map rw_run_id (tax_run_workflows d))
     \<and> (\<forall>w. find_row (is_workflow run_id tenant) (tax_run_workflows d) = Some w \<longrightarrow> rw_requested_by w = requester)
     \<and> (\<forall>i < length stages. \<forall>row. stages ! i = Checked row \<longrightarrow> fst (attempts ! i) \<noteq> requester)
     \<and> (\<forall>i < length stages. stages ! i = Decided \<longrightarrow> fst (attempts ! i) \<noteq> requester
          \<and> (\<exists>w. find_row (is_workflow run_id tenant) (tax_run_workflows d) = Some w
               \<and> rw_status w \<noteq> pending_review \<and> rw_reviewed_by w = Some (fst (attempts ! i))))
     \<and> (\<forall>i < length stages. \<forall>j < length stages. stages ! i = Decided \<longrightarrow> stages ! j = Decided \<longrightarrow> i = j))"

lemma check_review_Inr:
  "check_review reviewer row = Inr r \<longleftrightarrow> row = Some r \<and> rw_status r = pending_review \<and> rw_requested_by r \<noteq> reviewer"
  by (auto simp: check_review_def split: option.splits)

lemma race_inv_step [inv_intros]:
  assumes "review_step E ts tenant run_id attempts s s'" "race_inv tenant run_id attempts requester s"
  shows "race_inv tenant run_id attempts requester s'"
  using assms(1)
proof (cases rule: review_step.cases)
  case (read i stages reviewer normalized comment d row)
  with assms(2) show ?thesis
    by (auto simp: race_inv_def check_review_Inr nth_list_update)
next
  case (refuse i stages reviewer normalized comment d e)
  with assms(2) show ?thesis
    by (auto simp: race_inv_def nth_list_update)
next
  case (abort i stages row reviewer normalized comment d e d')
  then have "d' = d" by (auto simp: transaction_def split: sum.splits)
  with abort assms(2) show ?thesis
    by (auto simp: race_inv_def nth_list_update)
next
  case (commit i stages row reviewer normalized comment d w d')
  with assms(2) have inv: "race_inv tenant run_id attempts requester (d, stages)" by simp
  from commit have "decide_review E ts tenant run_id reviewer normalized comment row d = Inr (w, d')"
    by (auto simp: transaction_def split: sum.splits)
  then obtain r where r: "find_row (is_workflow run_id tenant) (tax_run_workflows d) = Some r"
    "rw_status r = pending_review"
    "find_row (is_workflow run_id tenant) (tax_run_workflows d') = Some (reviewed ts reviewer normalized comment r)"
    "map rw_run_id (tax_run_workflows d') = map rw_run_id (tax_run_workflows d)"
    using inv by (elim decide_review_commit) (auto simp: race_inv_def)
  have "stages ! j \<noteq> Decided" if "j < length stages" for j
    using inv that r(1,2) by (auto simp: race_inv_def)
  moreover have "fst (attempts ! i) \<noteq> requester" "fst (attempts ! i) = reviewer" "rw_requested_by r = requester"
    using inv commit r(1) by (auto simp: race_inv_def)
  ultimately show ?thesis
    using inv r(3,4) commit(3) reviewed_final [of ts reviewer normalized comment r]
    unfolding commit(1,2) race_inv_def
    by (auto simp: nth_list_update reviewed_def split: if_splits)
qed

lemma race_inv_reachable:
  assumes "(review_step E ts tenant run_id attempts)\<^sup>*\<^sup>* s s'" "race_inv tenant run_id attempts requester s"
  shows "race_inv tenant run_id attempts requester s'"
  using assms by (induction rule: rtranclp_induct) (auto intro: race_inv_step)

section \<open>Requests and their hashes\<close>

lemma dec_str_inject [simp]: "dec_str a = dec_str b \<longleftrightarrow> a = b"
  by (metis dec_parse_str sum.inject(2))

lemma opt_json_inject [simp]: "opt_json a = opt_json b \<longleftrightarrow> a = b"
  by (auto simp: opt_json_def split: option.splits)

lemma opt_json_simps [simp]: "jnorm (opt_json a) = opt_json a" "wf_json E (opt_json a)"
  by (auto simp: opt_json_def split: option.splits)

definition tx_items :: "tax_transaction \<Rightarrow> (pystr \<times> json) list" where
  "tx_items x =
     [(lit ''invoice_id'', JStr (tt_invoice_id x)), (lit ''seller_tax_id'', opt_json (tt_seller_tax_id x)),
      (lit ''buyer_tax_id'', opt_json (tt_buyer_tax_id x)), (lit ''invoice_date'', JStr (tt_invoice_date x)),
      (lit ''amount'', JStr (dec_str (tt_amount x))), (lit ''tax_rate'', JStr (dec_str (tt_tax_rate x))),
      (lit ''tax_amount'', JStr (dec_str (tt_tax_amount x))), (lit ''currency'', JStr (tt_currency x))]"

lemma tx_dict_items: "tx_dict x = JObj (tx_items x)"
  by (simp add: tx_dict_def tx_items_def)

lemma wf_tx_dict [simp]: "wf_json E (tx_dict x)"
  by (simp add: tx_dict_def)

lemma jnorm_tx_dict_inject: "jnorm (tx_dict x) = jnorm (tx_dict y) \<longleftrightarrow> x = y"
proof
  assume eq: "jnorm (tx_dict x) = jnorm (tx_dict y)"
  have n: "map (\<lambda>(k, v). (k, jnorm v)) (tx_items z) = tx_items z" for z
    by (simp add: tx_items_def)
  have d: "distinct (map fst (tx_items z))" for z
    by (simp add: tx_items_def)
  have "map_of (tx_items x) = map_of (tx_items y)"
    using eq sort_key_fst_eq_iff [OF d [of x] d [of y]] by (simp add: tx_dict_items n)
  then have m: "map_of (tx_items x) k = map_of (tx_items y) k" for k by simp
  show "x = y"
    using m [of "lit ''invoice_id''"] m [of "lit ''seller_tax_id''"] m [of "lit ''buyer_tax_id''"]
      m [of "lit ''invoice_date''"] m [of "lit ''amount''"] m [of "lit ''tax_rate''"]
      m [of "lit ''tax_amount''"] m [of "lit ''currency''"]
    by (simp add: tx_items_def tax_transaction.equality)
qed simp

definition ingest_request_bytes :: "tax_transaction list \<Rightarrow> bytes" where
  "ingest_request_bytes rows = utf8 (canonical_json (JList (map tx_dict rows)))"

lemma ingest_request_bytes_inject: "ingest_request_bytes rows = ingest_request_bytes rows' \<longleftrightarrow> rows = rows'"
proof
  assume "ingest_request_bytes rows = ingest_request_bytes rows'"
  then have "canonical_json (JList (map tx_dict rows)) = canonical_json (JList (map tx_dict rows'))"
    by (simp add: ingest_request_bytes_def)
  then have "jnorm (JList (map tx_dict rows)) = jnorm (JList (map tx_dict rows'))"
    by (subst (asm) canonical_json_inject [of demo_env]) auto
  then have "map (\<lambda>x. jnorm (tx_dict x)) rows = map (\<lambda>x. jnorm (tx_dict x)) rows'"
    by (simp add: comp_def)
  then show "rows = rows'"
    by (rule map_injective) (simp add: inj_def jnorm_tx_dict_inject)
qed simp

lemma ingest_request_hash_bytes: "ingest_request_hash E rows = sha256_hex E (ingest_request_bytes rows)"
  by (simp add: ingest_request_hash_def ingest_request_bytes_def sha256_json_def)

lemma ingest_commit:
  assumes "ingest E dl ts uid tenant rows key d = (Inr n, d1)"
  obtains v where "ingestion.keyed E tenant rows (ts, uid) (after_calls 3 ts) key d = Inr (v, d1)"
    "bind_res (jget (lit ''ingested'') v) json_int = Inr n" "v \<noteq> JNull"
proof -
  from assms have "ingest_body E ts uid tenant rows key d = Inr (n, d1)"
    by (auto simp: ingest_def dest: connect_commit)
  then obtain v where "ingestion.keyed E tenant rows (ts, uid) (after_calls 3 ts) key d = Inr (v, d1)"
    "bind_res (jget (lit ''ingested'') v) json_int = Inr n"
    by (auto simp: ingest_body_keyed tx_Inr)
  moreover from this(2) have "v \<noteq> JNull" by (auto simp: jget_def)
  ultimately show thesis using that by blast
qed

lemma connect_accepted:
  "connect E dl (Some t) m d = (Inr x, d') \<Longrightarrow> dl \<noteq> Postgres \<or> tenant_accepted E t"
  by (auto simp: connect_eq split: if_splits)

section \<open>Properties\<close>

text \<open>
  An idempotent request is answered again without a second effect.  If \<open>ingest\<close> with a key
  succeeded, then the same rows with the same key, at any later time and with any later
  idempotency records, return the same count and change nothing.
\<close>

theorem ingest_replay:
  assumes "ingest E dl ts uid tenant rows (Some k) d = (Inr n, d1)"
    and "idempotency_records d2 = idempotency_records d1 @ later"
  shows "ingest E dl ts' uid' tenant rows (Some k) d2 = (Inr n, d2)"
proof -
  from assms(1) obtain v where v: "ingestion.keyed E tenant rows (ts, uid) (after_calls 3 ts) (Some k) d = Inr (v, d1)"
    "bind_res (jget (lit ''ingested'') v) json_int = Inr n" "v \<noteq> JNull"
    by (rule ingest_commit)
  from ingestion.keyed_replay [OF v(1,3) assms(2), of "(ts', uid')" "after_calls 3 ts'"] obtain v' where
    v': "ingestion.keyed E tenant rows (ts', uid') (after_calls 3 ts') (Some k) d2 = Inr (v', d2)"
    "v' = v \<or> v' = jnorm v \<and> (\<exists>d0 d0'. ingest_run E tenant rows (ts, uid) d0 = Inr (v, d0'))" by blast
  from v'(2) have "v' = v" by (auto simp: ingest_run_def tx_Inr)
  with v v' have "ingest_body E ts' uid' tenant rows (Some k) d2 = Inr (n, d2)"
    by (simp add: ingest_body_keyed bind_tx_def lift_res_def)
  with connect_accepted [of E dl tenant] assms(1) show ?thesis
    unfolding ingest_def by (auto simp: connect_eq)
qed

text \<open>
  A key cannot be used for another request.  After a successful \<open>ingest\<close> with a key, different
  rows with the same key are rejected and change nothing, unless the two request texts, which
  differ, have the same digest.
\<close>

theorem ingest_key_reuse:
  assumes "ingest E dl ts uid tenant rows (Some k) d = (Inr n, d1)"
    and "idempotency_records d2 = idempotency_records d1 @ later" and "rows' \<noteq> rows"
  shows "ingest E dl ts' uid' tenant rows' (Some k) d2 =
      (Inl (ValueError (lit ''idempotency key was already used with a different request'')), d2)
    \<or> (ingest_request_bytes rows' \<noteq> ingest_request_bytes rows
       \<and> sha256_hex E (ingest_request_bytes rows') = sha256_hex E (ingest_request_bytes rows))"
proof (cases "ingest_request_hash E rows' = ingest_request_hash E rows")
  case True
  with assms(3) show ?thesis by (simp add: ingest_request_hash_bytes ingest_request_bytes_inject)
next
  case False
  from assms(1) obtain v where v: "ingestion.keyed E tenant rows (ts, uid) (after_calls 3 ts) (Some k) d = Inr (v, d1)"
    "v \<noteq> JNull" by (rule ingest_commit)
  from ingestion.keyed_bound [OF v] obtain r where
    r: "find_row (has_key tenant (lit ''tax.ingest'') k) (idempotency_records d1) = Some r"
    "ir_request_hash r = ingest_request_hash E rows" "\<not> py_blank k" "length k \<le> 100" by blast
  then have "find_row (has_key tenant (lit ''tax.ingest'') k) (idempotency_records d2) = Some r"
    by (simp add: assms(2) find_row_append)
  from ingestion.keyed_conflict [OF this _ r(3,4), of E rows' "(ts', uid')" "after_calls 3 ts'"] False r(2)
  have "ingest_body E ts' uid' tenant rows' (Some k) d2 =
      Inl (ValueError (lit ''idempotency key was already used with a different request''))"
    by (simp add: ingest_body_keyed bind_tx_def)
  with connect_accepted [of E dl tenant] assms(1) show ?thesis
    unfolding ingest_def by (auto simp: connect_eq)
qed

text \<open>
  C8: A run of the default pack finds what the rules say.  The findings that it stores are, row by
  row in the order of the rows, one for each rule that the row violates: a tax id is missing, the
  recorded tax is off by more than a hundredth, the invoice number occurs more than once, the
  amount is at least five million; and the run's row records both counts.
\<close>

theorem default_run_findings:
  assumes "run_rules E dl ts run_id tenant version None None d = (Inr v, d')"
    and "\<forall>r \<in> set (tenant_transactions tenant d). row_scaled r"
  shows "\<exists>new. tax_findings d' = tax_findings d @ new
    \<and> (\<forall>f \<in> set new. tf_run_id f = run_id \<and> tf_tenant f = tenant)
    \<and> map stored_key new = expected_findings (tenant_transactions tenant d)
    \<and> (\<exists>r \<in> set (tax_rule_runs d'). tr_run_id r = run_id \<and> tr_tenant r = tenant
         \<and> tr_transaction_count r = int (length (tenant_transactions tenant d))
         \<and> tr_finding_count r = int (length new))"
proof -
  from assms(1) obtain ver where "connect E dl (Some tenant)
      (run_rules_body E ts run_id tenant ver default_rule_pack None) d = (Inr v, d')"
    by (auto simp: run_rules_def chosen_pack_def Let_def split: sum.splits)
  from run_default_body [OF connect_commit [OF this] assms(2)] show ?thesis by blast
qed

text \<open>
  Four eyes.  A successful \<open>review_run\<close> decided a pending review that somebody else had
  requested, with a comment, as approved or rejected, raised the version by one, and the stored
  row is the returned one.
\<close>

theorem review_four_eyes:
  assumes "review_run E dl ts tenant run_id reviewer decision comment d = (Inr w, d')"
  shows "\<exists>row. find_row (is_workflow run_id tenant) (tax_run_workflows d) = Some row
    \<and> rw_status row = pending_review \<and> rw_requested_by row \<noteq> reviewer \<and> \<not> py_blank comment
    \<and> w = row\<lparr>rw_status := (if py_upper decision = lit ''APPROVE'' then lit ''APPROVED'' else lit ''REJECTED''),
              rw_version := rw_version row + 1, rw_reviewed_by := Some reviewer,
              rw_reviewed_at := Some (ts 0), rw_decision_comment := Some comment\<rparr>
    \<and> find_row (is_workflow run_id tenant) (tax_run_workflows d') = Some w"
  using assms by (rule review_run_Inr) (simp add: reviewed_def review_status_def)

text \<open>
  A decision is final.  Once a review has been decided, every later \<open>review_run\<close> on that row, by
  whomever and with whatever decision, raises and changes nothing.
\<close>

theorem review_is_final:
  assumes "review_run E dl ts tenant run_id reviewer decision comment d = (Inr w, d')"
    and "find_row (is_workflow run_id tenant) (tax_run_workflows d2)
       = find_row (is_workflow run_id tenant) (tax_run_workflows d')"
  shows "\<exists>e. review_run E dl ts' tenant run_id reviewer' decision' comment' d2 = (Inl e, d2)"
proof -
  from assms(1) have "find_row (is_workflow run_id tenant) (tax_run_workflows d2) = Some w"
    and "rw_status w \<noteq> pending_review"
    by (rule review_run_Inr, simp add: assms(2) reviewed_final)+
  then show ?thesis by (rule review_rejected)
qed

text \<open>
  C7: Concurrent reviewers.  However the transactions of any number of reviewers of a run
  interleave, at most one of them decides, none of those who decide is the requester, and the
  stored row names the one who decided.
\<close>

theorem review_race_one_winner:
  assumes "(review_step E ts tenant run_id attempts)\<^sup>*\<^sup>* (d0, replicate n Waiting) (d, stages)"
    and "distinct (map rw_run_id (tax_run_workflows d0))"
    and "find_row (is_workflow run_id tenant) (tax_run_workflows d0) = Some row"
    and "i < length stages" "stages ! i = Decided" "j < length stages" "stages ! j = Decided"
  shows "i = j \<and> fst (attempts ! i) \<noteq> rw_requested_by row
    \<and> (\<exists>w. find_row (is_workflow run_id tenant) (tax_run_workflows d) = Some w
         \<and> rw_status w \<noteq> pending_review \<and> rw_reviewed_by w = Some (fst (attempts ! i)))"
proof -
  have "race_inv tenant run_id attempts (rw_requested_by row) (d0, replicate n Waiting)"
    using assms(2,3) by (auto simp: race_inv_def)
  with assms(1) have "race_inv tenant run_id attempts (rw_requested_by row) (d, stages)"
    by (rule race_inv_reachable)
  with assms(4-) show ?thesis by (simp add: race_inv_def)
qed

text \<open>
  Requesting a review twice changes nothing.  A second \<open>request_review\<close> of a run, by whomever,
  returns the row of the first request.
\<close>

theorem request_review_idempotent:
  assumes "request_review E dl ts tenant run_id requester d = (Inr w, d')" and "\<not> py_blank requester'"
  shows "request_review E dl ts' tenant run_id requester' d' = (Inr w, d')"
proof -
  from assms(1) have body: "request_review_body E ts tenant run_id requester d = Inr (w, d')"
    by (auto simp: request_review_def split: if_splits dest: connect_commit)
  then obtain r where run: "find_row (\<lambda>r. tr_run_id r = run_id \<and> tr_tenant r = tenant) (tax_rule_runs d) = Some r"
    by (auto simp: request_review_body_def tx_Inr split: option.splits)
  have "tax_rule_runs d' = tax_rule_runs d \<and> find_row (is_workflow run_id tenant) (tax_run_workflows d') = Some w"
    using body run
    by (auto simp: request_review_body_def tx_Inr workflow_row_def insert_workflow_def
        elim!: append_audit_event_shape split: option.splits if_splits)
  with run have "request_review_body E ts' tenant run_id requester' d' = Inr (w, d')"
    by (simp add: request_review_body_def bind_tx_def when_tx_def workflow_row_def)
  with connect_accepted [of E dl tenant] assms show ?thesis
    by (auto simp: request_review_def connect_eq split: if_splits)
qed

section \<open>Witnesses\<close>

definition demo_tx :: tax_transaction where
  "demo_tx = \<lparr>tt_invoice_id = lit ''INV-1'', tt_seller_tax_id = None, tt_buyer_tax_id = Some (lit ''B''),
     tt_invoice_date = lit ''2026-01-01'', tt_amount = Dec 95000000000 (-4), tt_tax_rate = Dec 130000 (-6),
     tt_tax_amount = Dec 12350000000 (-4), tt_currency = lit ''CNY''\<rparr>"

lemma demo_ingest:
  "\<exists>d1. ingest demo_env Sqlite demo_clock (lit ''u'') (lit ''acme'') [demo_tx] (Some (lit ''k'')) empty_db = (Inr 1, d1)"
  by (simp add: ingest_def connect_eq ingest_body_def bind_tx_def idempotent_response_def empty_db_def lift_res_def
      append_audit_event_def Let_def insert_audit_event_def append_outbox_event_def
      store_idempotent_response_def py_blank_iff lit_def py_space_def)

lemma ingest_replay_witness:
  "\<exists>d1. ingest demo_env Sqlite demo_clock (lit ''u'') (lit ''acme'') [demo_tx] (Some (lit ''k'')) empty_db = (Inr 1, d1)
     \<and> ingest demo_env Sqlite demo_clock (lit ''v'') (lit ''acme'') [demo_tx] (Some (lit ''k'')) d1 = (Inr 1, d1)"
  using demo_ingest ingest_replay [where later = "[]"] by (metis append_Nil2)

lemma ingest_key_reuse_witness:
  "\<exists>d1. ingest demo_env Sqlite demo_clock (lit ''v'') (lit ''acme'') [] (Some (lit ''k'')) d1
     = (Inl (ValueError (lit ''idempotency key was already used with a different request'')), d1)"
proof -
  obtain d1 where d1: "ingest demo_env Sqlite demo_clock (lit ''u'') (lit ''acme'') [demo_tx] (Some (lit ''k'')) empty_db = (Inr 1, d1)"
    using demo_ingest by blast
  have ne: "[] \<noteq> [demo_tx]" by simp
  have "sha256_hex demo_env (ingest_request_bytes []) \<noteq> sha256_hex demo_env (ingest_request_bytes [demo_tx])"
    by code_simp
  with ingest_key_reuse [OF d1 append_Nil2 [symmetric] ne, of demo_clock "lit ''v''"] show ?thesis by blast
qed

text \<open>A run of the default pack succeeds on scaled rows, here where no audit hash can clash.\<close>

lemma run_default_succeeds:
  assumes "\<forall>r \<in> set (tenant_transactions tenant d). row_scaled r"
    and "tax_rule_runs d = []" "audit_events d = []"
  shows "\<exists>v d'. run_rules E Sqlite ts run_id tenant None None None d = (Inr v, d')"
proof -
  let ?rows = "tenant_transactions tenant d"
  obtain fs where fs: "collect_findings default_rule_pack ?rows = Inr fs"
    "map finding_key fs = concat (map (\<lambda>r. map (\<lambda>c. (tx_id r, tx_invoice_id r, JStr c)) (violations ?rows r)) ?rows)"
    "\<forall>f \<in> set fs. text_finding f"
    using collect_findings_default [OF assms(1)] by blast
  have "\<exists>c. fi_rule_code f = JStr c" if "f \<in> set fs" for f
  proof -
    from that have "finding_key f \<in> set (map finding_key fs)" by simp
    then show ?thesis unfolding fs(2) by (auto simp: finding_key_def)
  qed
  then obtain rows' where rows': "insert_findings tenant run_id fs (tax_findings d) = Inr rows'"
    using insert_findings_total fs(3) by blast
  have same: "tenant_transactions tenant (d\<lparr>tax_rule_runs := rs\<rparr>) = ?rows" for rs
    by (simp add: tenant_transactions_def)
  have "validate_rule_pack default_rule_pack = Inr ()" by code_simp
  moreover obtain ver where "effective_version None default_rule_pack = Inr ver"
    by (simp add: effective_version_def default_rule_pack_def)
  ultimately show ?thesis
    by (simp add: run_rules_def chosen_pack_def Let_def connect_eq run_rules_body_def bind_tx_def
        idempotent_response_def lift_res_def insert_rule_run_def assms same fs(1) store_findings_def rows'
        append_audit_event_def insert_audit_event_def append_outbox_event_def store_idempotent_response_def)
qed

definition demo_row :: tax_transaction_row where
  "demo_row = transaction_row demo_env (lit ''acme'') (lit ''now'') 1 demo_tx"

definition demo_rows_db :: db where
  "demo_rows_db = empty_db\<lparr>tax_transactions := [demo_row]\<rparr>"

lemma default_run_findings_witness:
  "\<exists>v d'. run_rules demo_env Sqlite demo_clock (lit ''r'') (lit ''acme'') None None None demo_rows_db = (Inr v, d')
     \<and> map stored_key (tax_findings d') =
         [(Some 1, lit ''INV-1'', lit ''TAX_ID_REQUIRED''), (Some 1, lit ''INV-1'', lit ''EXTREME_AMOUNT'')]"
proof -
  have rows: "tenant_transactions (lit ''acme'') demo_rows_db = [demo_row]"
    by (simp add: tenant_transactions_def demo_rows_db_def demo_row_def transaction_row_def select_rows_def)
  have sc: "row_scaled demo_row"
    by (simp add: row_scaled_def demo_row_def transaction_row_def demo_tx_def)
  have "expected_cents demo_row = 123500000" by code_simp
  then have exp: "expected_findings [demo_row] =
      [(Some 1, lit ''INV-1'', lit ''TAX_ID_REQUIRED''), (Some 1, lit ''INV-1'', lit ''EXTREME_AMOUNT'')]"
    by (simp add: expected_findings_def violations_def tax_off_def tax_id_missing_def dec_val_def
        count_rows_def demo_row_def transaction_row_def demo_tx_def power_int_minus)
  have "\<exists>v d'. run_rules demo_env Sqlite demo_clock (lit ''r'') (lit ''acme'') None None None demo_rows_db = (Inr v, d')"
    by (rule run_default_succeeds) (simp_all add: rows sc, simp_all add: demo_rows_db_def empty_db_def)
  then obtain v d' where run:
    "run_rules demo_env Sqlite demo_clock (lit ''r'') (lit ''acme'') None None None demo_rows_db = (Inr v, d')"
    by blast
  have "tax_findings demo_rows_db = []" by (simp add: demo_rows_db_def empty_db_def)
  with default_run_findings [OF run] have "map stored_key (tax_findings d') = expected_findings [demo_row]"
    by (auto simp: rows sc)
  with run show ?thesis by (auto simp: exp)
qed

definition demo_workflow :: tax_run_workflow where
  "demo_workflow = \<lparr>rw_run_id = lit ''r'', rw_tenant = lit ''acme'', rw_requested_by = lit ''alice'',
     rw_status = pending_review, rw_version = 1, rw_reviewed_by = None, rw_reviewed_at = None,
     rw_decision_comment = None\<rparr>"

definition demo_review_db :: db where
  "demo_review_db = empty_db\<lparr>tax_run_workflows := [demo_workflow]\<rparr>"

lemma demo_decide:
  "\<exists>w d'. decide_review demo_env demo_clock (lit ''acme'') (lit ''r'') (lit ''bob'') (lit ''APPROVE'') (lit ''ok'')
     demo_workflow demo_review_db = Inr (w, d')"
  by (simp add: decide_review_def Let_def bind_tx_def count_rows_def demo_review_db_def empty_db_def
      is_workflow_def demo_workflow_def when_tx_def append_audit_event_def insert_audit_event_def
      append_outbox_event_def workflow_row_def update_rows_def find_row_Cons)

lemma demo_review:
  "\<exists>w d'. review_run demo_env Sqlite demo_clock (lit ''acme'') (lit ''r'') (lit ''bob'') (lit ''approve'') (lit ''ok'')
     demo_review_db = (Inr w, d')"
proof -
  have up: "py_upper (lit ''approve'') = lit ''APPROVE''" by code_simp
  have nb: "\<not> py_blank (lit ''ok'')" by code_simp
  have row: "find_row (is_workflow (lit ''r'') (lit ''acme'')) (tax_run_workflows demo_review_db) = Some demo_workflow"
    by (simp add: demo_review_db_def is_workflow_def demo_workflow_def find_row_Cons)
  have chk: "check_review (lit ''bob'') (Some demo_workflow) = Inr demo_workflow"
    by (simp add: check_review_def demo_workflow_def)
  from demo_decide obtain w d' where
    "decide_review demo_env demo_clock (lit ''acme'') (lit ''r'') (lit ''bob'') (lit ''APPROVE'') (lit ''ok'')
     demo_workflow demo_review_db = Inr (w, d')" by blast
  then show ?thesis
    by (simp add: review_run_def up check_decision_def nb connect_eq review_body_def bind_tx_def row lift_res_def chk)
qed

lemma review_four_eyes_witness:
  "\<exists>w d'. review_run demo_env Sqlite demo_clock (lit ''acme'') (lit ''r'') (lit ''bob'') (lit ''approve'') (lit ''ok'')
     demo_review_db = (Inr w, d') \<and> rw_version w = 2 \<and> rw_reviewed_by w = Some (lit ''bob'')"
proof -
  from demo_review obtain w d' where r:
    "review_run demo_env Sqlite demo_clock (lit ''acme'') (lit ''r'') (lit ''bob'') (lit ''approve'') (lit ''ok'')
     demo_review_db = (Inr w, d')" by blast
  from review_four_eyes [OF r] have "rw_version w = 2 \<and> rw_reviewed_by w = Some (lit ''bob'')"
    by (auto simp: demo_review_db_def is_workflow_def demo_workflow_def find_row_Cons)
  with r show ?thesis by blast
qed

lemma review_is_final_witness:
  "\<exists>e d'. review_run demo_env Sqlite demo_clock (lit ''acme'') (lit ''r'') (lit ''carol'') (lit ''reject'') (lit ''no'') d'
     = (Inl e, d')"
proof -
  from demo_review obtain w d' where r:
    "review_run demo_env Sqlite demo_clock (lit ''acme'') (lit ''r'') (lit ''bob'') (lit ''approve'') (lit ''ok'')
     demo_review_db = (Inr w, d')" by blast
  from review_is_final [OF r refl] show ?thesis by blast
qed

lemma review_race_one_winner_witness:
  "\<exists>(d::db) w. find_row (is_workflow (lit ''r'') (lit ''acme'')) (tax_run_workflows d) = Some w
     \<and> rw_status w \<noteq> pending_review \<and> rw_reviewed_by w = Some (lit ''bob'')"
proof -
  let ?step = "review_step demo_env demo_clock (lit ''acme'') (lit ''r'')
     [(lit ''bob'', lit ''APPROVE'', lit ''ok''), (lit ''carol'', lit ''REJECT'', lit ''no'')]"
  have row: "find_row (is_workflow (lit ''r'') (lit ''acme'')) (tax_run_workflows demo_review_db) = Some demo_workflow"
    by (simp add: demo_review_db_def is_workflow_def demo_workflow_def find_row_Cons)
  have chk: "check_review r (Some demo_workflow) = Inr demo_workflow" if "r \<noteq> lit ''alice''" for r
    using that by (simp add: check_review_def demo_workflow_def)
  from demo_decide obtain w d' where dec:
    "decide_review demo_env demo_clock (lit ''acme'') (lit ''r'') (lit ''bob'') (lit ''APPROVE'') (lit ''ok'')
     demo_workflow demo_review_db = Inr (w, d')" by blast
  have s1: "?step (demo_review_db, [Waiting, Waiting]) (demo_review_db, [Checked demo_workflow, Waiting])"
    using review_step.read [where i = 0 and stages = "[Waiting, Waiting]"] row chk by fastforce
  have s2: "?step (demo_review_db, [Checked demo_workflow, Waiting]) (demo_review_db, [Checked demo_workflow, Checked demo_workflow])"
    using review_step.read [where i = 1 and stages = "[Checked demo_workflow, Waiting]"] row chk by fastforce
  have "transaction (decide_review demo_env demo_clock (lit ''acme'') (lit ''r'') (lit ''bob'') (lit ''APPROVE'') (lit ''ok'')
     demo_workflow) demo_review_db = (Inr w, d')"
    using dec by (simp add: transaction_def)
  then have s3: "?step (demo_review_db, [Checked demo_workflow, Checked demo_workflow]) (d', [Decided, Checked demo_workflow])"
    using review_step.commit [where i = 0 and stages = "[Checked demo_workflow, Checked demo_workflow]"] by fastforce
  from s1 s2 s3 have "?step\<^sup>*\<^sup>* (demo_review_db, replicate 2 Waiting) (d', [Decided, Checked demo_workflow])"
    by (simp add: numeral_2_eq_2)
  from review_race_one_winner [OF this _ row, of 0 0] show ?thesis
    by (simp add: demo_review_db_def) blast
qed

definition demo_run_db :: db where
  "demo_run_db = empty_db\<lparr>tax_rule_runs := [\<lparr>tr_run_id = lit ''r'', tr_tenant = lit ''acme'', tr_rule_version = [],
     tr_rule_pack_json = [], tr_started_at = [], tr_completed_at = None, tr_transaction_count = 0,
     tr_finding_count = 0\<rparr>]\<rparr>"

lemma request_review_idempotent_witness:
  "\<exists>w d'. request_review demo_env Sqlite demo_clock (lit ''acme'') (lit ''r'') (lit ''alice'') demo_run_db = (Inr w, d')
     \<and> request_review demo_env Sqlite demo_clock (lit ''acme'') (lit ''r'') (lit ''bob'') d' = (Inr w, d')"
proof -
  have "\<not> py_blank (lit ''alice'')" "\<not> py_blank (lit ''bob'')" by code_simp+
  moreover from this have "\<exists>w d'. request_review demo_env Sqlite demo_clock (lit ''acme'') (lit ''r'') (lit ''alice'')
      demo_run_db = (Inr w, d')"
    by (simp add: request_review_def connect_eq request_review_body_def bind_tx_def demo_run_db_def empty_db_def
        find_row_Cons when_tx_def insert_workflow_def append_audit_event_def Let_def insert_audit_event_def
        append_outbox_event_def workflow_row_def is_workflow_def)
  ultimately show ?thesis using request_review_idempotent by blast
qed

end
