(* ===== verification/Outbox.thy ===== *)
theory Outbox
  imports Core Py_Dict
begin

text \<open>
  \<^verbatim>\<open>outbox.py\<close> and the loop of \<^verbatim>\<open>worker.py\<close>: batches that publish the outbox's pending rows with
  bounded retries, dead letters and their replay, the Kafka adapter, and the consumer that
  processes an event at most once.  A publisher is a parameter: what its \<open>i\<close>-th call in a batch does
  with an envelope, deliver it or raise with a text.  Deliveries outlive a rolled-back batch, so
  they are returned beside the database.
\<close>

section \<open>Publishing\<close>

record envelope =
  en_id :: int
  en_tenant :: pystr
  en_topic :: pystr
  en_aggregate_id :: pystr
  en_payload :: json
  en_created_at :: pystr

type_synonym publisher = "nat \<Rightarrow> envelope \<Rightarrow> pystr option"

text \<open>The constructor's check.\<close>

definition outbox_publisher :: "int \<Rightarrow> unit res" where
  "outbox_publisher max_attempts =
     raise_if (max_attempts < 1) (ValueError (lit ''max_attempts must be positive''))"

definition pending :: "int \<Rightarrow> outbox_event \<Rightarrow> bool" where
  "pending max_attempts r \<longleftrightarrow> ox_published_at r = None \<and> ox_dead_lettered_at r = None
     \<and> ox_attempts r < max_attempts"

definition pending_rows :: "int \<Rightarrow> db \<Rightarrow> outbox_event list" where
  "pending_rows max_attempts d = select_rows ox_id (pending max_attempts) (outbox_events d)"

definition envelope_of :: "outbox_event \<Rightarrow> json \<Rightarrow> envelope" where
  "envelope_of r payload = \<lparr>en_id = ox_id r, en_tenant = ox_tenant r, en_topic = ox_topic r,
     en_aggregate_id = ox_aggregate_id r, en_payload = payload, en_created_at = ox_created_at r\<rparr>"

definition unpublished :: "int \<Rightarrow> outbox_event \<Rightarrow> bool" where
  "unpublished i r \<longleftrightarrow> ox_id r = i \<and> ox_published_at r = None"

definition mark_published :: "pystr \<Rightarrow> outbox_event \<Rightarrow> db \<Rightarrow> db" where
  "mark_published now row d = d\<lparr>outbox_events := update_rows (unpublished (ox_id row))
     (\<lambda>r. r\<lparr>ox_published_at := Some now, ox_attempts := ox_attempts row + 1\<rparr>) (outbox_events d)\<rparr>"

definition insert_dead_letter :: "outbox_event \<Rightarrow> pystr \<Rightarrow> pystr \<Rightarrow> (unit, db) tx" where
  "insert_dead_letter row reason now d =
     (if \<exists>l \<in> set (dead_letter_events d). dl_outbox_id l = ox_id row
      then Inl (IntegrityError (lit ''dead_letter_events.outbox_id''))
      else Inr ((), d\<lparr>dead_letter_events := dead_letter_events d @
        [\<lparr>dl_id = fresh_id (map dl_id (dead_letter_events d)), dl_outbox_id = ox_id row,
          dl_tenant = ox_tenant row, dl_topic = ox_topic row, dl_aggregate_id = ox_aggregate_id row,
          dl_payload_json = ox_payload_json row, dl_failure_reason = reason, dl_failed_at = now,
          dl_replayed_at = None\<rparr>]\<rparr>))"

text \<open>The \<^verbatim>\<open>except\<close> branch.\<close>

definition exhausted :: "int \<Rightarrow> outbox_event \<Rightarrow> bool" where
  "exhausted max_attempts row \<longleftrightarrow> ox_attempts row + 1 \<ge> max_attempts"

definition record_failure :: "int \<Rightarrow> clock \<Rightarrow> outbox_event \<Rightarrow> pystr \<Rightarrow> (unit, db) tx" where
  "record_failure max_attempts ts row error =
     bind_tx (update_tx (\<lambda>d. d\<lparr>outbox_events := update_rows (unpublished (ox_id row))
       (\<lambda>r. r\<lparr>ox_attempts := ox_attempts row + 1, ox_last_error := Some error,
              ox_dead_lettered_at := (if exhausted max_attempts row then Some (ts 0) else None)\<rparr>)
       (outbox_events d)\<rparr>)) (\<lambda>_.
     when_tx (exhausted max_attempts row) (insert_dead_letter row error (ts 1)))"

text \<open>
  The loop over the selected rows: the index of the publisher's call, the counts of published and
  failed rows, and the envelopes that were delivered.
\<close>

fun publish_rows ::
  "pyenv \<Rightarrow> publisher \<Rightarrow> int \<Rightarrow> clock \<Rightarrow> nat \<Rightarrow> outbox_event list \<Rightarrow> int \<times> int \<Rightarrow> db \<Rightarrow> envelope list
     \<Rightarrow> ((int \<times> int) \<times> db) res \<times> envelope list" where
  "publish_rows E pub max_attempts ts i [] counts d sent = (Inr (counts, d), sent)"
| "publish_rows E pub max_attempts ts i (row # rows) counts d sent =
     (case loads E (ox_payload_json row) of
        Inl e \<Rightarrow> (Inl e, sent)
      | Inr payload \<Rightarrow>
          (case pub i (envelope_of row payload) of
             Some error \<Rightarrow>
               (case record_failure max_attempts ts row (take 2000 error) d of
                  Inl e \<Rightarrow> (Inl e, sent)
                | Inr (_, d') \<Rightarrow> publish_rows E pub max_attempts
                    (after_calls (if exhausted max_attempts row then 2 else 0) ts) (i + 1) rows
                    (fst counts, snd counts + 1) d' sent)
           | None \<Rightarrow> publish_rows E pub max_attempts (after_calls 1 ts) (i + 1) rows
               (fst counts + 1, snd counts) (mark_published (ts 0) row d)
               (sent @ [envelope_of row payload])))"

record batch_result =
  br_selected :: int
  br_published :: int
  br_failed :: int

definition publish_batch ::
  "pyenv \<Rightarrow> publisher \<Rightarrow> int \<Rightarrow> clock \<Rightarrow> int \<Rightarrow> db \<Rightarrow> batch_result res \<times> db \<times> envelope list" where
  "publish_batch E pub max_attempts ts limit d =
     (if limit < 1 \<or> limit > 1000
      then (Inl (ValueError (lit ''limit must be between 1 and 1000'')), d, [])
      else
        (let rows = take (nat limit) (pending_rows max_attempts d)
         in case publish_rows E pub max_attempts ts 0 rows (0, 0) d [] of
              (Inl e, sent) \<Rightarrow> (Inl e, d, sent)
            | (Inr (counts, d'), sent) \<Rightarrow>
                (Inr \<lparr>br_selected = int (length rows), br_published = fst counts,
                      br_failed = snd counts\<rparr>, d', sent)))"

section \<open>Replaying a dead letter\<close>

definition replay_dead_letter :: "pyenv \<Rightarrow> dialect \<Rightarrow> clock \<Rightarrow> int \<Rightarrow> db \<Rightarrow> unit res \<times> db" where
  "replay_dead_letter E dl ts dead_letter_id = connect E dl None
     (bind_tx (query_tx (\<lambda>d. find_row (\<lambda>l. dl_id l = dead_letter_id \<and> dl_replayed_at l = None) (dead_letter_events d)))
       (\<lambda>row. case row of
          None \<Rightarrow> raise_tx (ValueError (lit ''unknown or already replayed dead letter''))
        | Some l \<Rightarrow> update_tx (\<lambda>d. d\<lparr>
            outbox_events := update_rows (\<lambda>r. ox_id r = dl_outbox_id l)
              (\<lambda>r. r\<lparr>ox_attempts := 0, ox_last_error := None, ox_dead_lettered_at := None\<rparr>) (outbox_events d),
            dead_letter_events := update_rows (\<lambda>l. dl_id l = dead_letter_id)
              (\<lambda>l. l\<lparr>dl_replayed_at := Some (ts 0)\<rparr>) (dead_letter_events d)\<rparr>)))"

section \<open>The worker\<close>

text \<open>
  The loop of \<^verbatim>\<open>run_outbox_worker\<close> for the turns before \<^verbatim>\<open>stopping()\<close> answers true, each with what the publisher
  does in it and the clock; an exception of a batch ends the worker.
\<close>

fun worker_loop ::
  "pyenv \<Rightarrow> int \<Rightarrow> int \<Rightarrow> (publisher \<times> clock) list \<Rightarrow> db \<Rightarrow> envelope list \<Rightarrow> unit res \<times> db \<times> envelope list" where
  "worker_loop E max_attempts batch_size [] d sent = (Inr (), d, sent)"
| "worker_loop E max_attempts batch_size ((pub, ts) # turns) d sent =
     (case publish_batch E pub max_attempts ts batch_size d of
        (Inl e, d', out) \<Rightarrow> (Inl e, d', sent @ out)
      | (Inr _, d', out) \<Rightarrow> worker_loop E max_attempts batch_size turns d' (sent @ out))"

definition run_outbox_worker ::
  "pyenv \<Rightarrow> int \<Rightarrow> int \<Rightarrow> (publisher \<times> clock) list \<Rightarrow> db \<Rightarrow> unit res \<times> db \<times> envelope list" where
  "run_outbox_worker E max_attempts batch_size turns d =
     (case outbox_publisher max_attempts of
        Inl e \<Rightarrow> (Inl e, d, [])
      | Inr _ \<Rightarrow> worker_loop E max_attempts batch_size turns d [])"

section \<open>The consumer\<close>

definition idempotent_consumer :: "pystr \<Rightarrow> unit res" where
  "idempotent_consumer name = raise_if (py_blank name) (ValueError (lit ''consumer_name is required''))"

definition is_receipt :: "pystr \<Rightarrow> pystr \<Rightarrow> consumer_receipt \<Rightarrow> bool" where
  "is_receipt name event_id r \<longleftrightarrow> cr_consumer_name r = name \<and> cr_event_id r = event_id"

definition insert_receipt :: "consumer_receipt \<Rightarrow> (unit, db) tx" where
  "insert_receipt r d =
     (if \<exists>r' \<in> set (consumer_receipts d). is_receipt (cr_consumer_name r) (cr_event_id r) r'
      then Inl (IntegrityError (lit ''consumer_receipts''))
      else Inr ((), d\<lparr>consumer_receipts := consumer_receipts d @ [r]\<rparr>))"

text \<open>The handler, which works on the connection, is a parameter.\<close>

definition process_event ::
  "pyenv \<Rightarrow> dialect \<Rightarrow> clock \<Rightarrow> pystr \<Rightarrow> envelope \<Rightarrow> (envelope \<Rightarrow> (unit, db) tx) \<Rightarrow> db \<Rightarrow> bool res \<times> db" where
  "process_event E dl ts name ev handler = connect E dl None
     (bind_tx (query_tx (\<lambda>d. find_row (is_receipt name (str_of_int (en_id ev))) (consumer_receipts d))) (\<lambda>found.
       if found \<noteq> None then return_tx False
       else bind_tx (handler ev) (\<lambda>_.
         bind_tx (insert_receipt \<lparr>cr_consumer_name = name, cr_event_id = str_of_int (en_id ev),
           cr_tenant = en_tenant ev, cr_processed_at = ts 0\<rparr>) (\<lambda>_. return_tx True))))"

section \<open>The Kafka adapter\<close>

record kafka_message =
  km_topic :: pystr
  km_key :: pystr
  km_value :: json
  km_event_id :: pystr
  km_tenant_id :: pystr
  km_aggregate_id :: pystr

definition rstrip_dots :: "pystr \<Rightarrow> pystr" where
  "rstrip_dots s = rev (dropWhile (\<lambda>c. c = 46) (rev s))"

definition kafka_message_of :: "pystr \<Rightarrow> envelope \<Rightarrow> kafka_message" where
  "kafka_message_of prefix e =
     \<lparr>km_topic = rstrip_dots prefix @ [46] @ en_topic e, km_key = str_of_int (en_id e),
      km_value = en_payload e, km_event_id = str_of_int (en_id e), km_tenant_id = en_tenant e,
      km_aggregate_id = en_aggregate_id e\<rparr>"

text \<open>
  \<^verbatim>\<open>KafkaPublisher.publish\<close>: \<open>deliver\<close> stands for the producer, the errors that its delivery reports
  carried by the end of \<^verbatim>\<open>flush\<close>.
\<close>

definition kafka_publish :: "(nat \<Rightarrow> kafka_message \<Rightarrow> pystr list) \<Rightarrow> pystr \<Rightarrow> publisher" where
  "kafka_publish deliver prefix i e =
     (case deliver i (kafka_message_of prefix e) of
        [] \<Rightarrow> None
      | err # _ \<Rightarrow> Some (lit ''RuntimeError: Kafka delivery failed: '' @ err))"

section \<open>What a batch does to the rows\<close>

text \<open>
  A row after a batch that delivered the rows with the ids \<open>P\<close> out of the selected ids \<open>S\<close>.
\<close>

definition settled :: "int \<Rightarrow> int set \<Rightarrow> int set \<Rightarrow> outbox_event \<Rightarrow> outbox_event \<Rightarrow> bool" where
  "settled max_attempts P S r r' \<longleftrightarrow>
     (if ox_id r \<in> P then \<exists>now. r' = r\<lparr>ox_published_at := Some now, ox_attempts := ox_attempts r + 1\<rparr>
      else if ox_id r \<in> S then
        \<exists>error dead. r' = r\<lparr>ox_attempts := ox_attempts r + 1, ox_last_error := Some error, ox_dead_lettered_at := dead\<rparr>
          \<and> (dead \<noteq> None \<longleftrightarrow> exhausted max_attempts r)
      else r' = r)"

lemma settled_id: "settled m P S r r' \<Longrightarrow> ox_id r' = ox_id r"
  by (auto simp: settled_def split: if_splits)

lemma settled_none [simp]: "settled m {} {} r r' \<longleftrightarrow> r' = r"
  by (simp add: settled_def)

lemma settled_rows_ids:
  "list_all2 (settled m P S) rows rows' \<Longrightarrow> map ox_id rows' = map ox_id rows"
  by (induction rule: list_all2_induct) (auto dest: settled_id)

text \<open>Settling one row and then others with different ids is settling them all.\<close>

lemma settled_trans:
  assumes "settled m P1 {i} r r1" "settled m P2 S r1 r2" "P1 \<subseteq> {i}" "i \<notin> S" "P2 \<subseteq> S"
  shows "settled m (P1 \<union> P2) (insert i S) r r2"
proof (cases "ox_id r = i")
  case True
  with assms settled_id [OF assms(1)] have "ox_id r1 \<notin> P2" "ox_id r1 \<notin> S" by auto
  with assms(2) have "r2 = r1" by (simp add: settled_def)
  with assms True show ?thesis by (auto simp: settled_def split: if_splits)
next
  case False
  with assms have "r1 = r" by (auto simp: settled_def split: if_splits)
  with assms False show ?thesis by (auto simp: settled_def split: if_splits)
qed

lemma list_all2_settled_trans:
  assumes "list_all2 (settled m P1 {i}) rows rows1" "list_all2 (settled m P2 S) rows1 rows2"
    "P1 \<subseteq> {i}" "i \<notin> S" "P2 \<subseteq> S"
  shows "list_all2 (settled m (P1 \<union> P2) (insert i S)) rows rows2"
  by (rule list_all2_trans [OF _ assms(1,2)]) (rule settled_trans [OF _ _ assms(3-5)])

definition unpublished_row :: "outbox_event \<Rightarrow> db \<Rightarrow> bool" where
  "unpublished_row row d \<longleftrightarrow> row \<in> set (outbox_events d) \<and> ox_published_at row = None"

lemma same_row: "distinct (map ox_id rows) \<Longrightarrow> r \<in> set rows \<Longrightarrow> row \<in> set rows \<Longrightarrow> ox_id r = ox_id row \<Longrightarrow> r = row"
  by (simp add: distinct_map inj_on_def)

lemma mark_published_settled:
  assumes "distinct (map ox_id (outbox_events d))" "unpublished_row row d"
  shows "list_all2 (settled m {ox_id row} {ox_id row}) (outbox_events d) (outbox_events (mark_published now row d))"
proof (rule list_all2_all_nthI)
  fix i assume i: "i < length (outbox_events d)"
  let ?r = "outbox_events d ! i"
  show "settled m {ox_id row} {ox_id row} ?r (outbox_events (mark_published now row d) ! i)"
  proof (cases "ox_id ?r = ox_id row")
    case True
    with i assms(2) same_row [OF assms(1)] have "?r = row" by (simp add: unpublished_row_def)
    with i assms(2) show ?thesis
      by (simp add: mark_published_def update_rows_def settled_def unpublished_def unpublished_row_def) blast
  next
    case False
    with i show ?thesis by (simp add: mark_published_def update_rows_def settled_def unpublished_def)
  qed
qed (simp add: mark_published_def)

lemma record_failure_Inr:
  assumes "record_failure m ts row error d = Inr (u, d')"
    and "distinct (map ox_id (outbox_events d))" "unpublished_row row d"
  shows "list_all2 (settled m {} {ox_id row}) (outbox_events d) (outbox_events d')"
    and "\<exists>new. dead_letter_events d' = dead_letter_events d @ new
      \<and> (exhausted m row \<longrightarrow> (\<exists>l \<in> set new. dl_outbox_id l = ox_id row))"
    and "d'\<lparr>outbox_events := outbox_events d, dead_letter_events := dead_letter_events d\<rparr> = d"
proof -
  let ?f = "\<lambda>r. r\<lparr>ox_attempts := ox_attempts row + 1, ox_last_error := Some error,
              ox_dead_lettered_at := (if exhausted m row then Some (ts 0) else None)\<rparr>"
  have rows: "outbox_events d' = update_rows (unpublished (ox_id row)) ?f (outbox_events d)"
    using assms(1) by (auto simp: record_failure_def tx_Inr insert_dead_letter_def split: if_splits)
  show "list_all2 (settled m {} {ox_id row}) (outbox_events d) (outbox_events d')"
    unfolding rows
  proof (rule list_all2_all_nthI)
    fix i assume i: "i < length (outbox_events d)"
    let ?r = "outbox_events d ! i"
    show "settled m {} {ox_id row} ?r (update_rows (unpublished (ox_id row)) ?f (outbox_events d) ! i)"
    proof (cases "ox_id ?r = ox_id row")
      case True
      with i assms(3) same_row [OF assms(2)] have "?r = row" by (simp add: unpublished_row_def)
      with i assms(3) show ?thesis
        by (simp add: update_rows_def settled_def unpublished_def unpublished_row_def) blast
    next
      case False
      with i show ?thesis by (simp add: update_rows_def settled_def unpublished_def)
    qed
  qed simp
  show "\<exists>new. dead_letter_events d' = dead_letter_events d @ new
      \<and> (exhausted m row \<longrightarrow> (\<exists>l \<in> set new. dl_outbox_id l = ox_id row))"
    "d'\<lparr>outbox_events := outbox_events d, dead_letter_events := dead_letter_events d\<rparr> = d"
    using assms(1) by (auto simp: record_failure_def tx_Inr insert_dead_letter_def split: if_splits)
qed

lemma settled_keeps:
  assumes "list_all2 (settled m P {i}) rows rows'" "r \<in> set rows" "ox_id r \<noteq> i" "P \<subseteq> {i}"
  shows "r \<in> set rows'"
  using assms by (auto simp: list_all2_conv_all_nth in_set_conv_nth settled_def) (metis (no_types, lifting) singletonD subsetD)

text \<open>The loop.\<close>

lemma publish_rows_Inr:
  assumes "publish_rows E pub m ts i rows counts d sent = (Inr (counts', d'), sent')"
    and "distinct (map ox_id (outbox_events d))" "distinct (map ox_id rows)"
    and "\<forall>r \<in> set rows. unpublished_row r d"
  shows "\<exists>envs new. sent' = sent @ envs
    \<and> fst counts' = fst counts + int (length envs)
    \<and> snd counts' = snd counts + int (length rows) - int (length envs)
    \<and> distinct (map en_id envs) \<and> en_id ` set envs \<subseteq> ox_id ` set rows
    \<and> list_all2 (settled m (en_id ` set envs) (ox_id ` set rows)) (outbox_events d) (outbox_events d')
    \<and> dead_letter_events d' = dead_letter_events d @ new
    \<and> (\<forall>r \<in> set rows. exhausted m r \<and> ox_id r \<notin> en_id ` set envs \<longrightarrow> (\<exists>l \<in> set new. dl_outbox_id l = ox_id r))
    \<and> d'\<lparr>outbox_events := outbox_events d, dead_letter_events := dead_letter_events d\<rparr> = d"
  using assms
proof (induction rows arbitrary: ts i counts d sent)
  case Nil
  then show ?case by (auto simp: list_all2_same)
next
  case (Cons row rows)
  from Cons.prems(1) obtain payload where payload: "loads E (ox_payload_json row) = Inr payload"
    by (auto split: sum.splits)
  have row: "unpublished_row row d" and fresh: "ox_id row \<notin> ox_id ` set rows" using Cons.prems(3,4) by auto
  have dr: "distinct (map ox_id rows)" using Cons.prems(3) by simp
  have keep: "\<forall>r \<in> set rows. unpublished_row r d1" "distinct (map ox_id (outbox_events d1))"
    if "list_all2 (settled m P {ox_id row}) (outbox_events d) (outbox_events d1)" "P \<subseteq> {ox_id row}" for P d1
  proof -
    have "ox_id r \<noteq> ox_id row" if "r \<in> set rows" for r using imageI [OF that, of ox_id] fresh by auto
    then show "\<forall>r \<in> set rows. unpublished_row r d1"
      using settled_keeps [OF that(1) _ _ that(2)] Cons.prems(4) by (simp add: unpublished_row_def)
    show "distinct (map ox_id (outbox_events d1))"
      using settled_rows_ids [OF that(1)] Cons.prems(2) by simp
  qed
  show ?case
  proof (cases "pub i (envelope_of row payload)")
    case None
    let ?d1 = "mark_published (ts 0) row d"
    have st: "list_all2 (settled m {ox_id row} {ox_id row}) (outbox_events d) (outbox_events ?d1)"
      by (rule mark_published_settled [OF Cons.prems(2) row])
    have run: "publish_rows E pub m (after_calls 1 ts) (i + 1) rows (fst counts + 1, snd counts) ?d1
        (sent @ [envelope_of row payload]) = (Inr (counts', d'), sent')"
      using Cons.prems(1) payload None by simp
    from Cons.IH [OF run keep(2) [OF st subset_refl] dr keep(1) [OF st subset_refl]] obtain envs new where
      ih: "sent' = (sent @ [envelope_of row payload]) @ envs"
        "fst counts' = fst counts + 1 + int (length envs)"
        "snd counts' = snd counts + int (length rows) - int (length envs)"
        "distinct (map en_id envs)" "en_id ` set envs \<subseteq> ox_id ` set rows"
        "list_all2 (settled m (en_id ` set envs) (ox_id ` set rows)) (outbox_events ?d1) (outbox_events d')"
        "dead_letter_events d' = dead_letter_events ?d1 @ new"
        "\<forall>r \<in> set rows. exhausted m r \<and> ox_id r \<notin> en_id ` set envs \<longrightarrow> (\<exists>l \<in> set new. dl_outbox_id l = ox_id r)"
        "d'\<lparr>outbox_events := outbox_events ?d1, dead_letter_events := dead_letter_events ?d1\<rparr> = ?d1"
      by auto
    have id: "en_id (envelope_of row payload) = ox_id row" by (simp add: envelope_of_def)
    have all: "list_all2 (settled m ({ox_id row} \<union> en_id ` set envs) (insert (ox_id row) (ox_id ` set rows)))
        (outbox_events d) (outbox_events d')"
      by (rule list_all2_settled_trans [OF st ih(6) _ fresh ih(5)]) simp
    have frame: "d'\<lparr>outbox_events := outbox_events d, dead_letter_events := dead_letter_events d\<rparr> = d"
      using arg_cong [OF ih(9), of "\<lambda>d1. d1\<lparr>outbox_events := outbox_events d, dead_letter_events := dead_letter_events d\<rparr>"]
      by (simp add: mark_published_def)
    show ?thesis
      using ih fresh all frame
      by (intro exI [of _ "envelope_of row payload # envs"] exI [of _ new])
        (auto simp: id mark_published_def)
  next
    case (Some err)
    with Cons.prems(1) payload obtain d1 where
      rf: "record_failure m ts row (take 2000 err) d = Inr ((), d1)"
      and run: "publish_rows E pub m (after_calls (if exhausted m row then 2 else 0) ts) (i + 1) rows
        (fst counts, snd counts + 1) d1 sent = (Inr (counts', d'), sent')"
      by (auto split: sum.splits)
    note rf' = record_failure_Inr [OF rf Cons.prems(2) row]
    from Cons.IH [OF run keep(2) [OF rf'(1) empty_subsetI] dr keep(1) [OF rf'(1) empty_subsetI]] obtain envs new where
      ih: "sent' = sent @ envs"
        "fst counts' = fst counts + int (length envs)"
        "snd counts' = snd counts + 1 + int (length rows) - int (length envs)"
        "distinct (map en_id envs)" "en_id ` set envs \<subseteq> ox_id ` set rows"
        "list_all2 (settled m (en_id ` set envs) (ox_id ` set rows)) (outbox_events d1) (outbox_events d')"
        "dead_letter_events d' = dead_letter_events d1 @ new"
        "\<forall>r \<in> set rows. exhausted m r \<and> ox_id r \<notin> en_id ` set envs \<longrightarrow> (\<exists>l \<in> set new. dl_outbox_id l = ox_id r)"
        "d'\<lparr>outbox_events := outbox_events d1, dead_letter_events := dead_letter_events d1\<rparr> = d1"
      by auto
    have all: "list_all2 (settled m ({} \<union> en_id ` set envs) (insert (ox_id row) (ox_id ` set rows)))
        (outbox_events d) (outbox_events d')"
      by (rule list_all2_settled_trans [OF rf'(1) ih(6) _ fresh ih(5)]) simp
    from rf'(2) obtain new1 where new1: "dead_letter_events d1 = dead_letter_events d @ new1"
      "exhausted m row \<longrightarrow> (\<exists>l \<in> set new1. dl_outbox_id l = ox_id row)" by blast
    have frame: "d'\<lparr>outbox_events := outbox_events d, dead_letter_events := dead_letter_events d\<rparr> = d"
      using arg_cong [OF ih(9), of "\<lambda>d1. d1\<lparr>outbox_events := outbox_events d, dead_letter_events := dead_letter_events d\<rparr>"]
        rf'(3) by simp
    show ?thesis
      using ih all new1 frame
      by (intro exI [of _ envs] exI [of _ "new1 @ new"]) auto
  qed
qed

text \<open>The rows that a batch selects.\<close>

lemma selected_rows:
  assumes "distinct (map ox_id (outbox_events d))"
  shows "distinct (map ox_id (take n (pending_rows m d)))"
    and "\<forall>r \<in> set (take n (pending_rows m d)). unpublished_row r d \<and> pending m r"
proof -
  have "mset (map ox_id (pending_rows m d)) = mset (map ox_id (filter (pending m) (outbox_events d)))"
    by (simp add: pending_rows_def select_rows_def)
  moreover have "distinct (map ox_id (filter (pending m) (outbox_events d)))"
    using assms by (simp add: distinct_map_filter)
  ultimately have "distinct (map ox_id (pending_rows m d))"
    by (metis mset_eq_imp_distinct_iff)
  then show "distinct (map ox_id (take n (pending_rows m d)))"
    by (simp add: take_map [symmetric] distinct_take)
  show "\<forall>r \<in> set (take n (pending_rows m d)). unpublished_row r d \<and> pending m r"
    by (auto simp: pending_rows_def unpublished_row_def pending_def dest!: in_set_takeD)
qed

lemma publish_batch_Inr:
  assumes "publish_batch E pub m ts limit d = (Inr res, d', sent)"
    and "distinct (map ox_id (outbox_events d))"
  defines "rows \<equiv> take (nat limit) (pending_rows m d)"
  obtains new where "1 \<le> limit" "limit \<le> 1000" "br_selected res = int (length rows)"
    "br_published res = int (length sent)" "br_failed res = int (length rows) - int (length sent)"
    "distinct (map en_id sent)" "en_id ` set sent \<subseteq> ox_id ` set rows"
    "list_all2 (settled m (en_id ` set sent) (ox_id ` set rows)) (outbox_events d) (outbox_events d')"
    "dead_letter_events d' = dead_letter_events d @ new"
    "\<forall>r \<in> set rows. exhausted m r \<and> ox_id r \<notin> en_id ` set sent \<longrightarrow> (\<exists>l \<in> set new. dl_outbox_id l = ox_id r)"
    "d'\<lparr>outbox_events := outbox_events d, dead_letter_events := dead_letter_events d\<rparr> = d"
proof -
  from assms(1) obtain counts where lim: "1 \<le> limit" "limit \<le> 1000"
    and run: "publish_rows E pub m ts 0 rows (0, 0) d [] = (Inr (counts, d'), sent)"
    and res: "res = \<lparr>br_selected = int (length rows), br_published = fst counts, br_failed = snd counts\<rparr>"
    by (auto simp: publish_batch_def Let_def rows_def split: if_splits prod.splits sum.splits)
  have "\<forall>r \<in> set rows. unpublished_row r d"
    using selected_rows(2) [OF assms(2)] by (simp add: rows_def)
  from publish_rows_Inr [OF run assms(2) selected_rows(1) [OF assms(2), of "nat limit" m, folded rows_def] this]
  show thesis using lim res that by auto
qed

section \<open>Sequences of operations\<close>

text \<open>
  The histories of an outbox: events appended by services, committed batches with whatever the
  publisher does, and replays of dead letters.  The last component collects what the committed
  batches delivered.
\<close>

inductive outbox_step :: "pyenv \<Rightarrow> db \<times> envelope list \<Rightarrow> db \<times> envelope list \<Rightarrow> bool" for E where
  append: "append_outbox_event ts tenant topic aggregate payload d = Inr (u, d') \<Longrightarrow>
    outbox_step E (d, trace) (d', trace)"
| batch: "publish_batch E pub m ts limit d = (Inr res, d', sent) \<Longrightarrow>
    outbox_step E (d, trace) (d', trace @ sent)"
| replay: "replay_dead_letter E dl ts i d = (Inr u, d') \<Longrightarrow>
    outbox_step E (d, trace) (d', trace)"

text \<open>Every delivered id is that of a published row, and no id was delivered twice.\<close>

definition sent_ok :: "db \<times> envelope list \<Rightarrow> bool" where
  "sent_ok s \<longleftrightarrow> (case s of (d, trace) \<Rightarrow>
     distinct (map ox_id (outbox_events d)) \<and> distinct (map en_id trace)
     \<and> (\<forall>e \<in> set trace. \<exists>r \<in> set (outbox_events d). ox_id r = en_id e \<and> ox_published_at r \<noteq> None))"

lemma settled_published:
  assumes "list_all2 (settled m P S) rows rows'" "r \<in> set rows"
  shows "\<exists>r' \<in> set rows'. ox_id r' = ox_id r \<and> (ox_published_at r \<noteq> None \<or> ox_id r \<in> P \<longrightarrow> ox_published_at r' \<noteq> None)"
proof -
  from assms(2) obtain i where "i < length rows" "rows ! i = r" by (auto simp: in_set_conv_nth)
  with assms(1) have "rows' ! i \<in> set rows'" "settled m P S r (rows' ! i)"
    by (auto simp: list_all2_conv_all_nth)
  then show ?thesis
    by (intro bexI [of _ "rows' ! i"]) (auto simp: settled_def split: if_splits)
qed

lemma sent_ok_batch:
  assumes "publish_batch E pub m ts limit d = (Inr res, d', sent)" "sent_ok (d, trace)"
  shows "sent_ok (d', trace @ sent)"
proof -
  have ids: "distinct (map ox_id (outbox_events d))" using assms(2) by (simp add: sent_ok_def)
  let ?rows = "take (nat limit) (pending_rows m d)"
  from assms(1) ids show ?thesis
  proof (rule publish_batch_Inr)
    assume sent: "distinct (map en_id sent)" "en_id ` set sent \<subseteq> ox_id ` set ?rows"
      and st: "list_all2 (settled m (en_id ` set sent) (ox_id ` set ?rows)) (outbox_events d) (outbox_events d')"
    have un: "\<forall>r \<in> set ?rows. unpublished_row r d" using selected_rows(2) [OF ids] by simp
    have "en_id ` set trace \<inter> en_id ` set sent = {}"
    proof (rule equals0I)
      fix i assume "i \<in> en_id ` set trace \<inter> en_id ` set sent"
      then obtain e r where e: "e \<in> set trace" "en_id e = i" and r: "r \<in> set ?rows" "ox_id r = i"
        using sent(2) by auto
      from e assms(2) obtain r' where "r' \<in> set (outbox_events d)" "ox_id r' = i" "ox_published_at r' \<noteq> None"
        by (auto simp: sent_ok_def)
      moreover from r(1) un have "r \<in> set (outbox_events d)" "ox_published_at r = None"
        by (simp_all add: unpublished_row_def)
      ultimately show False using same_row [OF ids, of r' r] r(2) by simp
    qed
    moreover have "\<exists>r' \<in> set (outbox_events d'). ox_id r' = en_id e \<and> ox_published_at r' \<noteq> None"
      if "e \<in> set (trace @ sent)" for e
    proof -
      have "\<exists>r \<in> set (outbox_events d). ox_id r = en_id e \<and> (ox_published_at r \<noteq> None \<or> ox_id r \<in> en_id ` set sent)"
      proof (cases "e \<in> set trace")
        case True
        with assms(2) obtain r where "r \<in> set (outbox_events d)" "ox_id r = en_id e" "ox_published_at r \<noteq> None"
          by (auto simp: sent_ok_def)
        then show ?thesis by blast
      next
        case False
        with that have "en_id e \<in> en_id ` set sent" by simp
        moreover from this sent(2) un have "\<exists>r \<in> set (outbox_events d). ox_id r = en_id e"
          by (force simp: unpublished_row_def)
        ultimately show ?thesis by auto
      qed
      then show ?thesis using settled_published [OF st] by metis
    qed
    moreover have "distinct (map ox_id (outbox_events d'))"
      using settled_rows_ids [OF st] ids by simp
    ultimately show ?thesis using assms(2) sent(1) by (auto simp: sent_ok_def)
  qed
qed

lemma replay_Inr:
  assumes "replay_dead_letter E dl ts i d = (Inr u, d')"
  obtains l where "find_row (\<lambda>l. dl_id l = i \<and> dl_replayed_at l = None) (dead_letter_events d) = Some l"
    "d' = d\<lparr>outbox_events := update_rows (\<lambda>r. ox_id r = dl_outbox_id l)
              (\<lambda>r. r\<lparr>ox_attempts := 0, ox_last_error := None, ox_dead_lettered_at := None\<rparr>) (outbox_events d),
            dead_letter_events := update_rows (\<lambda>l. dl_id l = i)
              (\<lambda>l. l\<lparr>dl_replayed_at := Some (ts 0)\<rparr>) (dead_letter_events d)\<rparr>"
  using connect_commit [OF assms [unfolded replay_dead_letter_def]]
  by (auto simp: tx_Inr split: option.splits intro: that)

lemma sent_ok_step:
  assumes "outbox_step E s s'" "sent_ok s"
  shows "sent_ok s'"
  using assms(1)
proof (cases rule: outbox_step.cases)
  case (append ts tenant topic aggregate payload d u d' trace)
  have "fresh_id (map ox_id (outbox_events d)) \<notin> ox_id ` set (outbox_events d)"
    using fresh_id_not_in [of "map ox_id (outbox_events d)"] by simp
  with append assms(2) show ?thesis
    by (auto simp: append_outbox_event_def sent_ok_def)
next
  case (batch pub m ts limit d res d' sent trace)
  with assms(2) show ?thesis by (auto intro: sent_ok_batch)
next
  case (replay dl ts i d u d' trace)
  from replay(3) show ?thesis
  proof (rule replay_Inr)
    fix l assume d': "d' = d\<lparr>outbox_events := update_rows (\<lambda>r. ox_id r = dl_outbox_id l)
              (\<lambda>r. r\<lparr>ox_attempts := 0, ox_last_error := None, ox_dead_lettered_at := None\<rparr>) (outbox_events d),
            dead_letter_events := update_rows (\<lambda>l. dl_id l = i)
              (\<lambda>l. l\<lparr>dl_replayed_at := Some (ts 0)\<rparr>) (dead_letter_events d)\<rparr>"
    let ?f = "\<lambda>r. if ox_id r = dl_outbox_id l
        then r\<lparr>ox_attempts := 0, ox_last_error := None, ox_dead_lettered_at := None\<rparr> else r"
    have rows: "outbox_events d' = map ?f (outbox_events d)" by (simp add: d' update_rows_def)
    have f: "ox_id (?f r) = ox_id r" "ox_published_at (?f r) = ox_published_at r" for r by auto
    have ids: "map ox_id (outbox_events d') = map ox_id (outbox_events d)"
      unfolding rows by (simp add: f)
    have "\<exists>r \<in> set (outbox_events d'). ox_id r = i \<and> ox_published_at r \<noteq> None"
      if "\<exists>r \<in> set (outbox_events d). ox_id r = i \<and> ox_published_at r \<noteq> None" for i
    proof -
      from that obtain r where "r \<in> set (outbox_events d)" "ox_id r = i" "ox_published_at r \<noteq> None" by blast
      moreover from this(1) have "?f r \<in> set (outbox_events d')" unfolding rows set_map by (rule imageI)
      ultimately show ?thesis using f [of r] by metis
    qed
    with assms(2) ids show ?thesis by (simp add: replay(1,2) sent_ok_def)
  qed
qed

section \<open>No row is lost\<close>

text \<open>Every row is published, pending, or dead-lettered with a dead letter; attempts stay in bounds.\<close>

definition accounted :: "int \<Rightarrow> db \<Rightarrow> bool" where
  "accounted m d \<longleftrightarrow> (\<forall>r \<in> set (outbox_events d). 0 \<le> ox_attempts r \<and> ox_attempts r \<le> m
     \<and> (ox_published_at r \<noteq> None \<or> pending m r
        \<or> (ox_dead_lettered_at r \<noteq> None \<and> (\<exists>l \<in> set (dead_letter_events d). dl_outbox_id l = ox_id r))))"

lemma settled_accounted:
  assumes "settled m P S r r'" "pending m r \<or> ox_id r \<notin> S" "P \<subseteq> S" "0 < m"
    and "0 \<le> ox_attempts r" "ox_attempts r \<le> m"
    and "ox_published_at r \<noteq> None \<or> pending m r \<or> ox_dead_lettered_at r \<noteq> None \<and> D (ox_id r)"
    and "exhausted m r \<and> ox_id r \<in> S - P \<longrightarrow> D (ox_id r)"
  shows "0 \<le> ox_attempts r' \<and> ox_attempts r' \<le> m
    \<and> (ox_published_at r' \<noteq> None \<or> pending m r' \<or> ox_dead_lettered_at r' \<noteq> None \<and> D (ox_id r'))"
  using assms by (auto simp: settled_def pending_def exhausted_def split: if_splits)

lemma accounted_batch:
  assumes "publish_batch E pub m ts limit d = (Inr res, d', sent)"
    and "distinct (map ox_id (outbox_events d))" "accounted m d" "0 < m"
  shows "accounted m d'"
proof -
  let ?rows = "take (nat limit) (pending_rows m d)"
  let ?P = "en_id ` set sent" and ?S = "ox_id ` set ?rows"
  from assms(1,2) show ?thesis
  proof (rule publish_batch_Inr)
    fix new
    assume sub: "?P \<subseteq> ?S"
      and st: "list_all2 (settled m ?P ?S) (outbox_events d) (outbox_events d')"
      and dls: "dead_letter_events d' = dead_letter_events d @ new"
        "\<forall>r \<in> set ?rows. exhausted m r \<and> ox_id r \<notin> ?P \<longrightarrow> (\<exists>l \<in> set new. dl_outbox_id l = ox_id r)"
    have sel: "\<forall>r \<in> set ?rows. unpublished_row r d \<and> pending m r" by (rule selected_rows(2) [OF assms(2)])
    let ?D = "\<lambda>i. \<exists>l \<in> set (dead_letter_events d'). dl_outbox_id l = i"
    show ?thesis
      unfolding accounted_def
    proof
      fix r' assume "r' \<in> set (outbox_events d')"
      then obtain i where i: "i < length (outbox_events d')" "r' = outbox_events d' ! i"
        by (auto simp: in_set_conv_nth)
      let ?r = "outbox_events d ! i"
      have set_r: "settled m ?P ?S ?r r'" and mem: "?r \<in> set (outbox_events d)"
        using st i by (auto simp: list_all2_conv_all_nth)
      have row: "?r \<in> set ?rows" if "ox_id ?r \<in> ?S"
      proof -
        from that obtain q where "q \<in> set ?rows" "ox_id q = ox_id ?r" by auto
        moreover from this(1) sel have "q \<in> set (outbox_events d)" by (simp add: unpublished_row_def)
        ultimately show ?thesis using same_row [OF assms(2) mem, of q] by simp
      qed
      have "0 \<le> ox_attempts ?r" "ox_attempts ?r \<le> m"
        "ox_published_at ?r \<noteq> None \<or> pending m ?r \<or> ox_dead_lettered_at ?r \<noteq> None \<and> ?D (ox_id ?r)"
        using assms(3) mem dls(1) by (auto simp: accounted_def)
      moreover have "pending m ?r \<or> ox_id ?r \<notin> ?S" using row sel by blast
      moreover have "exhausted m ?r \<and> ox_id ?r \<in> ?S - ?P \<longrightarrow> ?D (ox_id ?r)"
        using row dls by fastforce
      ultimately show "0 \<le> ox_attempts r' \<and> ox_attempts r' \<le> m
        \<and> (ox_published_at r' \<noteq> None \<or> pending m r'
           \<or> ox_dead_lettered_at r' \<noteq> None \<and> ?D (ox_id r'))"
        using settled_accounted [OF set_r _ sub assms(4), of ?D] by blast
    qed
  qed
qed

section \<open>A publisher that always delivers\<close>

lemma publish_rows_delivers:
  assumes "\<forall>i e. pub i e = None" "\<forall>r \<in> set rows. \<not> isl (loads E (ox_payload_json r))"
  shows "\<exists>counts' d' envs. publish_rows E pub m ts i rows counts d sent = (Inr (counts', d'), sent @ envs)
    \<and> map en_id envs = map ox_id rows"
  using assms(2)
proof (induction rows arbitrary: ts i counts d sent)
  case (Cons row rows)
  then obtain payload where p: "loads E (ox_payload_json row) = Inr payload"
    by (cases "loads E (ox_payload_json row)") auto
  from Cons obtain counts' d' envs where
    "publish_rows E pub m (after_calls 1 ts) (i + 1) rows (fst counts + 1, snd counts)
       (mark_published (ts 0) row d) (sent @ [envelope_of row payload])
      = (Inr (counts', d'), (sent @ [envelope_of row payload]) @ envs)" "map en_id envs = map ox_id rows"
    by (metis list.set_intros(2))
  moreover have "pub i (envelope_of row payload) = None" using assms(1) by blast
  ultimately show ?case using p
    by (intro exI [of _ counts'] exI [of _ d'] exI [of _ "envelope_of row payload # envs"])
      (simp, simp add: envelope_of_def)
qed simp

lemma filter_not_taken:
  assumes "distinct ys"
  shows "filter (\<lambda>y. y \<notin> set (take n ys)) ys = drop n ys"
proof -
  have "filter (\<lambda>y. y \<notin> set (take n ys)) (take n ys) = []" by (simp add: filter_empty_conv)
  moreover have "filter (\<lambda>y. y \<notin> set (take n ys)) (drop n ys) = drop n ys"
    using set_take_disj_set_drop_if_distinct [OF assms, of n n] by (auto simp: filter_id_conv)
  ultimately show ?thesis by (metis append_Nil append_take_drop_id filter_append)
qed

text \<open>The pending rows after a batch that delivered all it selected.\<close>

lemma settled_pending:
  assumes "list_all2 (settled m P P) rows rows'"
  shows "filter (pending m) rows' = filter (\<lambda>r. pending m r \<and> ox_id r \<notin> P) rows"
  using assms
proof (induction rule: list_all2_induct)
  case (Cons r rs r' rs')
  then show ?case by (auto simp: settled_def pending_def split: if_splits)
qed simp

lemma delivering_batch:
  assumes "\<forall>i e. pub i e = None" "1 \<le> limit" "limit \<le> 1000"
    and "sorted_wrt (<) (map ox_id (outbox_events d))"
    and "\<forall>r \<in> set (pending_rows m d). \<not> isl (loads E (ox_payload_json r))"
  shows "\<exists>res d' sent. publish_batch E pub m ts limit d = (Inr res, d', sent)
    \<and> map en_id sent = map ox_id (take (nat limit) (pending_rows m d))
    \<and> pending_rows m d' = drop (nat limit) (pending_rows m d)
    \<and> map ox_id (outbox_events d') = map ox_id (outbox_events d)"
proof -
  let ?rows = "take (nat limit) (pending_rows m d)"
  have ids: "distinct (map ox_id (outbox_events d))"
    using assms(4) strict_sorted_iff by blast
  have "\<forall>r \<in> set ?rows. \<not> isl (loads E (ox_payload_json r))"
    using assms(5) by (meson in_set_takeD)
  from publish_rows_delivers [OF assms(1) this, where m = m and ts = ts and i = 0 and counts = "(0, 0)" and d = d
      and sent = "[]"] obtain counts d' sent where
    run: "publish_rows E pub m ts 0 ?rows (0, 0) d [] = (Inr (counts, d'), sent)" "map en_id sent = map ox_id ?rows"
    by auto
  with assms(2,3) have batch: "publish_batch E pub m ts limit d =
      (Inr \<lparr>br_selected = int (length ?rows), br_published = fst counts, br_failed = snd counts\<rparr>, d', sent)"
    by (simp add: publish_batch_def Let_def)
  have P: "en_id ` set sent = ox_id ` set ?rows" using run(2) by (metis set_map)
  from batch ids have st: "list_all2 (settled m (ox_id ` set ?rows) (ox_id ` set ?rows)) (outbox_events d) (outbox_events d')"
    by (rule publish_batch_Inr) (simp add: P)
  have sorted': "sorted_wrt (<) (map ox_id (outbox_events d'))"
    using assms(4) settled_rows_ids [OF st] by simp
  have pr: "pending_rows m d = filter (pending m) (outbox_events d)"
    unfolding pending_rows_def by (rule select_rows_sorted [OF assms(4)])
  have "distinct (map ox_id (pending_rows m d))"
    unfolding pr using ids by (rule distinct_map_filter)
  then have inj: "inj_on ox_id (set (pending_rows m d))" and dist: "distinct (pending_rows m d)"
    by (simp_all add: distinct_map)
  have "pending_rows m d' = filter (pending m) (outbox_events d')"
    unfolding pending_rows_def by (rule select_rows_sorted [OF sorted'])
  also have "\<dots> = filter (\<lambda>r. ox_id r \<notin> ox_id ` set ?rows) (pending_rows m d)"
    unfolding settled_pending [OF st] pr filter_filter by (simp add: conj_commute)
  also have "\<dots> = filter (\<lambda>r. r \<notin> set ?rows) (pending_rows m d)"
  proof (rule filter_cong [OF refl])
    fix r assume "r \<in> set (pending_rows m d)"
    then show "(ox_id r \<notin> ox_id ` set ?rows) = (r \<notin> set ?rows)"
      using inj by (meson image_eqI inj_on_image_mem_iff in_set_takeD subsetI)
  qed
  also have "\<dots> = drop (nat limit) (pending_rows m d)" by (rule filter_not_taken [OF dist])
  finally show ?thesis using batch run(2) settled_rows_ids [OF st] by blast
qed

section \<open>Draining\<close>

lemma worker_drains:
  assumes "\<forall>(pub, ts) \<in> set turns. \<forall>i e. pub i e = None" "1 \<le> limit" "limit \<le> 1000"
    and "sorted_wrt (<) (map ox_id (outbox_events d))"
    and "\<forall>r \<in> set (pending_rows m d). \<not> isl (loads E (ox_payload_json r))"
    and "length (pending_rows m d) \<le> length turns * nat limit"
  shows "\<exists>d' out. worker_loop E m limit turns d sent = (Inr (), d', sent @ out)
    \<and> map en_id out = map ox_id (pending_rows m d) \<and> pending_rows m d' = []"
  using assms
proof (induction turns arbitrary: d sent)
  case Nil
  then show ?case by simp
next
  case (Cons turn turns)
  obtain pub ts where turn: "turn = (pub, ts)" by (cases turn)
  have pub: "\<forall>i e. pub i e = None" using Cons.prems(1) by (simp add: turn)
  from delivering_batch [OF pub Cons.prems(2-5)] obtain res d1 out1 where
    b: "publish_batch E pub m ts limit d = (Inr res, d1, out1)"
      "map en_id out1 = map ox_id (take (nat limit) (pending_rows m d))"
      "pending_rows m d1 = drop (nat limit) (pending_rows m d)"
      "map ox_id (outbox_events d1) = map ox_id (outbox_events d)" by blast
  have "\<forall>r \<in> set (pending_rows m d1). \<not> isl (loads E (ox_payload_json r))"
    using Cons.prems(5) b(3) by (metis in_set_dropD)
  moreover have "length (pending_rows m d1) \<le> length turns * nat limit"
    using Cons.prems(6) b(3) by simp
  ultimately obtain d' out where
    r: "worker_loop E m limit turns d1 (sent @ out1) = (Inr (), d', (sent @ out1) @ out)"
      "map en_id out = map ox_id (pending_rows m d1)" "pending_rows m d' = []"
    using Cons.IH [of d1 "sent @ out1"] Cons.prems(1-4) b(4) by auto
  have "map ox_id (take (nat limit) (pending_rows m d)) @ map ox_id (drop (nat limit) (pending_rows m d))
      = map ox_id (pending_rows m d)"
    by (metis append_take_drop_id map_append)
  with b r show ?case
    by (intro exI [of _ d'] exI [of _ "out1 @ out"]) (simp add: turn)
qed

section \<open>A replayed event that fails again\<close>

text \<open>
  The dead letter's unique key on the outbox id: a loop that gets through has no selected row that
  is exhausted, fails, and already has a dead letter.
\<close>

definition poisoned :: "publisher \<Rightarrow> int \<Rightarrow> db \<Rightarrow> outbox_event \<Rightarrow> bool" where
  "poisoned pub m d row \<longleftrightarrow> exhausted m row \<and> (\<exists>l \<in> set (dead_letter_events d). dl_outbox_id l = ox_id row)"

definition always_fails :: "publisher \<Rightarrow> outbox_event \<Rightarrow> bool" where
  "always_fails pub row \<longleftrightarrow> (\<forall>i payload. pub i (envelope_of row payload) \<noteq> None)"

lemma publish_rows_not_poisoned:
  assumes "publish_rows E pub m ts i rows counts d sent = (Inr (counts', d'), sent')" "row \<in> set rows"
    and "always_fails pub row"
  shows "\<not> poisoned pub m d row"
  using assms(1,2)
proof (induction rows arbitrary: ts i counts d sent)
  case (Cons r rows)
  from Cons.prems(1) obtain payload where payload: "loads E (ox_payload_json r) = Inr payload"
    by (auto split: sum.splits)
  show ?case
  proof (cases "pub i (envelope_of r payload)")
    case None
    have "r \<noteq> row"
    proof
      assume "r = row"
      with None assms(3) show False unfolding always_fails_def by blast
    qed
    with Cons.prems payload None Cons.IH have "\<not> poisoned pub m (mark_published (ts 0) r d) row" by auto
    then show ?thesis by (simp add: poisoned_def mark_published_def)
  next
    case (Some err)
    with Cons.prems(1) payload obtain d1 where
      rf: "record_failure m ts r (take 2000 err) d = Inr ((), d1)"
      and run: "publish_rows E pub m (after_calls (if exhausted m r then 2 else 0) ts) (i + 1) rows
        (fst counts, snd counts + 1) d1 sent = (Inr (counts', d'), sent')"
      by (auto split: sum.splits)
    have "set (dead_letter_events d) \<subseteq> set (dead_letter_events d1)"
      and "exhausted m r \<longrightarrow> (\<forall>l \<in> set (dead_letter_events d). dl_outbox_id l \<noteq> ox_id r)"
      using rf by (auto simp: record_failure_def tx_Inr insert_dead_letter_def split: if_splits)
    with Cons.prems(2) Cons.IH [OF run] show ?thesis by (auto simp: poisoned_def)
  qed
qed simp

lemma length_take_bound: "1 \<le> limit \<Longrightarrow> int (length (take (nat limit) xs)) \<le> limit"
  by simp

section \<open>Properties\<close>

text \<open>
  C4: Committed batches never deliver an event twice.  In every history of appends, committed
  batches with whatever outcome of each delivery, and dead-letter replays, the envelopes that the
  committed batches delivered have distinct ids, and each of them belongs to a published row.
\<close>

theorem committed_batches_deliver_once:
  assumes "(outbox_step E)\<^sup>*\<^sup>* (d0, []) (d, trace)" and "distinct (map ox_id (outbox_events d0))"
  shows "distinct (map en_id trace)
    \<and> (\<forall>e \<in> set trace. \<exists>r \<in> set (outbox_events d). ox_id r = en_id e \<and> ox_published_at r \<noteq> None)"
proof -
  have "sent_ok (d0, [])" using assms(2) by (simp add: sent_ok_def)
  with assms(1) have "sent_ok (d, trace)"
    by (induction rule: rtranclp_induct) (auto intro: sent_ok_step)
  then show ?thesis by (simp add: sent_ok_def)
qed

text \<open>
  A batch accounts for every row.  If each row was published, pending or dead-lettered with a
  dead letter, and its attempts were between zero and the maximum, then the same holds after a
  committed batch; the batch selected at most \<open>limit\<close> rows, each of them counted once as published,
  which is the number of envelopes delivered, or as failed.
\<close>

theorem batch_accounts_for_rows:
  assumes "publish_batch E pub m ts limit d = (Inr res, d', sent)" and "0 < m"
    and "distinct (map ox_id (outbox_events d))" and "accounted m d"
  shows "accounted m d' \<and> br_selected res \<le> limit
    \<and> br_selected res = br_published res + br_failed res \<and> br_published res = int (length sent)"
  using accounted_batch [OF assms(1,3,4,2)] assms(1,3)
  by (elim publish_batch_Inr) (auto simp del: length_take simp add: length_take_bound)

text \<open>
  C5: The worker drains the outbox.  With a publisher that delivers, readable payloads and enough
  turns for the rows that are pending, the worker runs without an exception, delivers exactly the
  pending events in the order of their ids, and leaves none pending.
\<close>

theorem worker_drains_outbox:
  assumes "\<forall>(pub, ts) \<in> set turns. \<forall>i e. pub i e = None" and "1 \<le> limit" and "limit \<le> 1000"
    and "sorted_wrt (<) (map ox_id (outbox_events d))"
    and "\<forall>r \<in> set (pending_rows m d). \<not> isl (loads E (ox_payload_json r))"
    and "length (pending_rows m d) \<le> length turns * nat limit" and "1 \<le> m"
  shows "\<exists>d' out. run_outbox_worker E m limit turns d = (Inr (), d', out)
    \<and> map en_id out = map ox_id (pending_rows m d) \<and> pending_rows m d' = []"
  using worker_drains [OF assms(1-6), of "[]"] assms(7)
  by (simp add: run_outbox_worker_def outbox_publisher_def)

text \<open>
  C11: A replayed event that exhausts its attempts again stops the outbox.  If a batch selects a row
  on its last attempt that already has a dead letter, as a replayed one does, and its delivery
  fails, then the whole batch raises and rolls back, whatever the other rows do.
\<close>

theorem replayed_failure_blocks_batch:
  assumes "row \<in> set (take (nat limit) (pending_rows m d))" and "exhausted m row"
    and "l \<in> set (dead_letter_events d)" and "dl_outbox_id l = ox_id row"
    and "always_fails pub row"
  shows "\<exists>e sent. publish_batch E pub m ts limit d = (Inl e, d, sent)"
proof -
  have "poisoned pub m d row" using assms(2-4) by (auto simp: poisoned_def)
  then have "fst (publish_rows E pub m ts 0 (take (nat limit) (pending_rows m d)) (0, 0) d []) \<noteq> Inr x" for x
    using publish_rows_not_poisoned [OF _ assms(1,5)]
    by (metis prod.collapse)
  then obtain e sent where
    "publish_rows E pub m ts 0 (take (nat limit) (pending_rows m d)) (0, 0) d [] = (Inl e, sent)"
    by (metis prod.collapse sum.exhaust)
  then show ?thesis by (simp add: publish_batch_def Let_def)
qed

text \<open>
  C10: A consumer processes an event at most once.  If \<open>process_event\<close> answered true, the handler ran and
  its changes were committed together with the receipt; and as long as the receipts are kept, an
  event with the same id is answered false and changes nothing, whatever the handler.
\<close>

theorem consumer_at_most_once:
  assumes "process_event E dl ts name ev handler d = (Inr True, d1)"
    and "set (consumer_receipts d1) \<subseteq> set (consumer_receipts d2)" and "en_id ev' = en_id ev"
  shows "process_event E dl ts' name ev' handler' d2 = (Inr False, d2)
    \<and> (\<exists>d0. handler ev d = Inr ((), d0)
         \<and> d1 = d0\<lparr>consumer_receipts := consumer_receipts d0 @
             [\<lparr>cr_consumer_name = name, cr_event_id = str_of_int (en_id ev), cr_tenant = en_tenant ev,
               cr_processed_at = ts 0\<rparr>]\<rparr>)"
proof -
  from connect_commit [OF assms(1) [unfolded process_event_def]] obtain d0 where
    h: "handler ev d = Inr ((), d0)" "d1 = d0\<lparr>consumer_receipts := consumer_receipts d0 @
             [\<lparr>cr_consumer_name = name, cr_event_id = str_of_int (en_id ev), cr_tenant = en_tenant ev,
               cr_processed_at = ts 0\<rparr>]\<rparr>"
    by (auto simp: tx_Inr insert_receipt_def split: if_splits)
  let ?r = "\<lparr>cr_consumer_name = name, cr_event_id = str_of_int (en_id ev), cr_tenant = en_tenant ev,
               cr_processed_at = ts 0\<rparr>"
  have "?r \<in> set (consumer_receipts d2)" using assms(2) h(2) by auto
  then have "\<exists>r \<in> set (consumer_receipts d2). is_receipt name (str_of_int (en_id ev')) r"
    by (rule bexI [rotated]) (simp add: is_receipt_def assms(3))
  then obtain r where "find_row (is_receipt name (str_of_int (en_id ev'))) (consumer_receipts d2) = Some r"
    using find_row_None [of "is_receipt name (str_of_int (en_id ev'))" "consumer_receipts d2"] by auto
  then have "process_event E dl ts' name ev' handler' d2 = (Inr False, d2)"
    by (simp add: process_event_def connect_def transaction_def bind_tx_def)
  with h show ?thesis by blast
qed

section \<open>Witnesses\<close>

definition demo_outbox_row :: "int \<Rightarrow> int \<Rightarrow> outbox_event" where
  "demo_outbox_row i attempts = \<lparr>ox_id = i, ox_tenant = lit ''acme'', ox_topic = lit ''t'', ox_aggregate_id = lit ''a'',
     ox_payload_json = lit ''{}'', ox_created_at = [], ox_published_at = None, ox_attempts = attempts,
     ox_last_error = None, ox_dead_lettered_at = None\<rparr>"

definition demo_outbox :: db where
  "demo_outbox = empty_db\<lparr>outbox_events := [demo_outbox_row 1 0, demo_outbox_row 2 0, demo_outbox_row 3 0]\<rparr>"

definition deliver_all :: publisher where
  "deliver_all i e = None"

lemma demo_loads: "loads E (lit ''{}'') = Inr (JObj [])"
proof -
  have "lit ''{}'' = canonical_json (JObj [])" by (simp add: canonical_json_def lit_def)
  then show ?thesis using loads_canonical [of E "JObj []"] by simp
qed

lemma demo_pending: "map ox_id (pending_rows 10 demo_outbox) = [1, 2, 3]" "length (pending_rows 10 demo_outbox) = 3"
  "\<forall>r \<in> set (pending_rows 10 demo_outbox). \<not> isl (loads E (ox_payload_json r))"
proof -
  show "map ox_id (pending_rows 10 demo_outbox) = [1, 2, 3]"
    by (simp add: pending_rows_def select_rows_def demo_outbox_def pending_def demo_outbox_row_def)
  then show "length (pending_rows 10 demo_outbox) = 3" by (metis length_map length_Cons list.size(3) numeral_3_eq_3)
  show "\<forall>r \<in> set (pending_rows 10 demo_outbox). \<not> isl (loads E (ox_payload_json r))"
    by (auto simp: pending_rows_def demo_outbox_def demo_outbox_row_def demo_loads)
qed

lemma demo_sorted: "sorted_wrt (<) (map ox_id (outbox_events demo_outbox))"
  by (simp add: demo_outbox_def demo_outbox_row_def)

lemma worker_drains_outbox_witness:
  "\<exists>d' out. run_outbox_worker demo_env 10 2 [(deliver_all, demo_clock), (deliver_all, demo_clock)] demo_outbox
      = (Inr (), d', out) \<and> map en_id out = [1, 2, 3] \<and> pending_rows 10 d' = []"
  using worker_drains_outbox [where turns = "[(deliver_all, demo_clock), (deliver_all, demo_clock)]" and limit = 2
      and d = demo_outbox and m = 10 and E = demo_env, OF _ _ _ demo_sorted demo_pending(3)]
  by (simp add: deliver_all_def demo_pending(1,2))

lemma demo_batch:
  "\<exists>res d' sent. publish_batch demo_env deliver_all 10 demo_clock 2 demo_outbox = (Inr res, d', sent)
     \<and> map en_id sent = [1, 2]"
proof -
  have "\<forall>i e. deliver_all i e = None" by (simp add: deliver_all_def)
  from delivering_batch [OF this _ _ demo_sorted demo_pending(3), of 2 demo_env demo_clock] obtain res d' sent where
    "publish_batch demo_env deliver_all 10 demo_clock 2 demo_outbox = (Inr res, d', sent)"
    "map en_id sent = take 2 (map ox_id (pending_rows 10 demo_outbox))"
    by (auto simp: take_map)
  then show ?thesis by (simp add: demo_pending(1))
qed

lemma batch_accounts_for_rows_witness:
  "\<exists>res d' sent. publish_batch demo_env deliver_all 10 demo_clock 2 demo_outbox = (Inr res, d', sent)
     \<and> accounted 10 d' \<and> br_published res = 2 \<and> br_failed res = 0 + br_selected res - 2"
proof -
  obtain res d' sent where b: "publish_batch demo_env deliver_all 10 demo_clock 2 demo_outbox = (Inr res, d', sent)"
    and s: "map en_id sent = [1, 2]" using demo_batch by auto
  have "accounted 10 demo_outbox" "distinct (map ox_id (outbox_events demo_outbox))"
    by (simp_all add: accounted_def demo_outbox_def demo_outbox_row_def pending_def)
  with batch_accounts_for_rows [OF b] have "accounted 10 d' \<and> br_selected res = br_published res + br_failed res
      \<and> br_published res = int (length sent)" by simp
  moreover have "length sent = 2" using arg_cong [OF s, of length] by simp
  ultimately show ?thesis using b by auto
qed

lemma committed_batches_deliver_once_witness:
  "\<exists>d' sent. (outbox_step demo_env)\<^sup>*\<^sup>* (demo_outbox, []) (d', sent) \<and> sent \<noteq> [] \<and> distinct (map en_id sent)"
proof -
  obtain res d' sent where b: "publish_batch demo_env deliver_all 10 demo_clock 2 demo_outbox = (Inr res, d', sent)"
    and s: "map en_id sent = [1, 2]" using demo_batch by auto
  from outbox_step.batch [OF b, of "[]"] have r: "(outbox_step demo_env)\<^sup>*\<^sup>* (demo_outbox, []) (d', sent)" by simp
  have "distinct (map ox_id (outbox_events demo_outbox))" by (simp add: demo_outbox_def demo_outbox_row_def)
  from committed_batches_deliver_once [OF r this] have "distinct (map en_id sent)" ..
  moreover have "sent \<noteq> []" using s by auto
  ultimately show ?thesis using r by blast
qed

definition demo_replayed :: db where
  "demo_replayed = empty_db\<lparr>outbox_events := [demo_outbox_row 1 9, demo_outbox_row 2 0],
     dead_letter_events := [\<lparr>dl_id = 1, dl_outbox_id = 1, dl_tenant = lit ''acme'', dl_topic = lit ''t'',
       dl_aggregate_id = lit ''a'', dl_payload_json = lit ''{}'', dl_failure_reason = [], dl_failed_at = [],
       dl_replayed_at = Some []\<rparr>]\<rparr>"

definition fail_all :: publisher where
  "fail_all i e = Some (lit ''RuntimeError: down'')"

lemma replayed_failure_blocks_batch_witness:
  "\<exists>e sent. publish_batch demo_env fail_all 10 demo_clock 100 demo_replayed = (Inl e, demo_replayed, sent)"
proof (rule replayed_failure_blocks_batch)
  show "demo_outbox_row 1 9 \<in> set (take (nat 100) (pending_rows 10 demo_replayed))"
    by (simp add: pending_rows_def select_rows_def demo_replayed_def pending_def demo_outbox_row_def)
  show "exhausted 10 (demo_outbox_row 1 9)" by (simp add: exhausted_def demo_outbox_row_def)
  show "\<lparr>dl_id = 1, dl_outbox_id = 1, dl_tenant = lit ''acme'', dl_topic = lit ''t'',
       dl_aggregate_id = lit ''a'', dl_payload_json = lit ''{}'', dl_failure_reason = [], dl_failed_at = [],
       dl_replayed_at = Some []\<rparr> \<in> set (dead_letter_events demo_replayed)"
    by (simp add: demo_replayed_def)
  show "always_fails fail_all (demo_outbox_row 1 9)" by (simp add: always_fails_def fail_all_def)
qed (simp add: demo_outbox_row_def)

lemma consumer_at_most_once_witness:
  "\<exists>d1. process_event demo_env Sqlite demo_clock (lit ''c'') (envelope_of (demo_outbox_row 1 0) JNull)
      (\<lambda>_. return_tx ()) empty_db = (Inr True, d1)
     \<and> process_event demo_env Sqlite demo_clock (lit ''c'') (envelope_of (demo_outbox_row 1 0) JNull)
      (\<lambda>_. return_tx ()) d1 = (Inr False, d1)"
proof -
  obtain d1 where "process_event demo_env Sqlite demo_clock (lit ''c'') (envelope_of (demo_outbox_row 1 0) JNull)
      (\<lambda>_. return_tx ()) empty_db = (Inr True, d1)"
    by (simp add: process_event_def connect_def transaction_def bind_tx_def insert_receipt_def empty_db_def)
  with consumer_at_most_once [OF this subset_refl refl] show ?thesis by blast
qed

end
