(* ===== verification/Risk_Graph.thy ===== *)
theory Risk_Graph
  imports Tax_Flow
begin

text \<open>
  \<^verbatim>\<open>riskgraph.py\<close>: the entities and edges of a tenant's graph, accounts that several entities own,
  and cycles of three nodes.  The main facts: an upsert acts on the entities as a map update, and
  the reported cycles of three distinct nodes are exactly those of the graph, each once.
\<close>

section \<open>Storing the graph\<close>

record entity =
  en_entity_id :: pystr
  en_entity_type :: pystr
  en_attributes :: json

record edge =
  eg_source_id :: pystr
  eg_target_id :: pystr
  eg_relation :: pystr
  eg_amount :: cell
  eg_occurred_at :: pystr
  eg_evidence :: json

definition is_entity :: "pystr \<Rightarrow> pystr \<Rightarrow> graph_entity \<Rightarrow> bool" where
  "is_entity tenant entity_id r \<longleftrightarrow> ge_tenant r = tenant \<and> ge_entity_id r = entity_id"

text \<open>One row of \<^verbatim>\<open>INSERT ... ON CONFLICT (tenant_id, entity_id) DO UPDATE\<close>.\<close>

definition upsert_entity :: "pystr \<Rightarrow> entity \<Rightarrow> graph_entity list \<Rightarrow> graph_entity list" where
  "upsert_entity tenant x rows =
     (if \<exists>r \<in> set rows. is_entity tenant (en_entity_id x) r
      then update_rows (is_entity tenant (en_entity_id x))
        (\<lambda>r. r\<lparr>ge_entity_type := en_entity_type x, ge_attributes_json := canonical_json (en_attributes x)\<rparr>) rows
      else rows @ [\<lparr>ge_tenant = tenant, ge_entity_id = en_entity_id x, ge_entity_type = en_entity_type x,
        ge_attributes_json = canonical_json (en_attributes x)\<rparr>])"

text \<open>PostgreSQL refuses to update a row twice in one statement; SQLite takes the rows in turn.\<close>

definition upsert_entities :: "dialect \<Rightarrow> pystr \<Rightarrow> entity list \<Rightarrow> (unit, db) tx" where
  "upsert_entities dl tenant entities d =
     (if dl = Postgres \<and> \<not> distinct (map en_entity_id entities) then Inl CardinalityViolation
      else Inr ((), d\<lparr>graph_entities := fold (upsert_entity tenant) entities (graph_entities d)\<rparr>))"

definition add_entities ::
  "pyenv \<Rightarrow> dialect \<Rightarrow> clock \<Rightarrow> pystr \<Rightarrow> entity list \<Rightarrow> db \<Rightarrow> unit res \<times> db" where
  "add_entities E dl ts tenant entities = connect E dl (Some tenant)
     (bind_tx (when_tx (entities \<noteq> []) (upsert_entities dl tenant entities)) (\<lambda>_.
      bind_tx (append_audit_event E ts (lit ''riskgraph'') (lit ''ENTITIES_UPSERTED'') (lit ''batch'')
        (JObj [(lit ''count'', JInt (int (length entities)))]) tenant) (\<lambda>_.
      return_tx ())))"

fun insert_edges :: "pystr \<Rightarrow> edge list \<Rightarrow> decimal list \<Rightarrow> graph_edge list \<Rightarrow> graph_edge list" where
  "insert_edges tenant (x # xs) (a # as) rows =
     insert_edges tenant xs as (rows @
       [\<lparr>gx_id = fresh_id (map gx_id rows), gx_tenant = tenant, gx_source_id = eg_source_id x,
         gx_target_id = eg_target_id x, gx_relation = eg_relation x, gx_amount = a,
         gx_occurred_at = eg_occurred_at x, gx_evidence_json = canonical_json (eg_evidence x)\<rparr>])"
| "insert_edges tenant _ _ rows = rows"

definition add_edges ::
  "pyenv \<Rightarrow> dialect \<Rightarrow> clock \<Rightarrow> pystr \<Rightarrow> edge list \<Rightarrow> db \<Rightarrow> unit res \<times> db" where
  "add_edges E dl ts tenant edges = connect E dl (Some tenant)
     (bind_tx (lift_res (map_res (\<lambda>x. money (eg_amount x)) edges)) (\<lambda>amounts.
      bind_tx (update_tx (\<lambda>d. d\<lparr>graph_edges := insert_edges tenant edges amounts (graph_edges d)\<rparr>)) (\<lambda>_.
      bind_tx (append_audit_event E ts (lit ''riskgraph'') (lit ''EDGES_ADDED'') (lit ''batch'')
        (JObj [(lit ''count'', JInt (int (length edges)))]) tenant) (\<lambda>_.
      return_tx ()))))"

section \<open>Investigation\<close>

text \<open>The edges of the tenant between entities that exist.\<close>

definition live_edges :: "pystr \<Rightarrow> db \<Rightarrow> graph_edge list" where
  "live_edges tenant d =
     (let ids = map ge_entity_id (filter (\<lambda>r. ge_tenant r = tenant) (graph_entities d))
      in filter (\<lambda>e. gx_source_id e \<in> set ids \<and> gx_target_id e \<in> set ids)
           (filter (\<lambda>e. gx_tenant e = tenant) (graph_edges d)))"

text \<open>\<^verbatim>\<open>adjacency\<close> and \<^verbatim>\<open>account_owners\<close>: the keys in the order of their first use.\<close>

definition targets :: "graph_edge list \<Rightarrow> pystr \<Rightarrow> pystr list" where
  "targets edges a = remdups (map gx_target_id (filter (\<lambda>e. gx_source_id e = a) edges))"

definition adjacency :: "graph_edge list \<Rightarrow> (pystr \<times> pystr list) list" where
  "adjacency edges = map (\<lambda>a. (a, targets edges a)) (remdups (map gx_source_id edges))"

definition owns_account :: pystr where
  "owns_account = lit ''OWNS_ACCOUNT''"

definition account_owners :: "graph_edge list \<Rightarrow> (pystr \<times> pystr list) list" where
  "account_owners edges =
     (let owning = filter (\<lambda>e. gx_relation e = owns_account) edges
      in map (\<lambda>a. (a, map gx_source_id (filter (\<lambda>e. gx_target_id e = a) owning)))
           (remdups (map gx_target_id owning)))"

definition neighbours :: "(pystr \<times> pystr list) list \<Rightarrow> pystr \<Rightarrow> pystr list" where
  "neighbours adj a = (case map_of adj a of None \<Rightarrow> [] | Some ns \<Rightarrow> ns)"

definition canonical_rotation :: "pystr \<times> pystr \<times> pystr \<Rightarrow> pystr \<times> pystr \<times> pystr" where
  "canonical_rotation t = (case t of (a, b, c) \<Rightarrow> min (a, b, c) (min (b, c, a) (c, a, b)))"

definition cycles_of_three :: "(pystr \<times> pystr list) list \<Rightarrow> (pystr \<times> pystr \<times> pystr) list" where
  "cycles_of_three adj = sort (remdups
     (concat (map (\<lambda>(a, ns). concat (map (\<lambda>b. map (\<lambda>c. canonical_rotation (a, b, c))
       (filter (\<lambda>c. a \<noteq> b \<and> b \<noteq> c \<and> a \<in> set (neighbours adj c)) (neighbours adj b))) ns)) adj)))"

record graph_finding =
  gf_risk_code :: pystr
  gf_score :: int
  gf_entities :: "pystr list"
  gf_explanation :: pystr
  gf_evidence :: json

definition shared_finding :: "pystr \<times> pystr list \<Rightarrow> graph_finding list" where
  "shared_finding ao = (case ao of (account, owners) \<Rightarrow>
     let shared = sort (remdups owners) in
     if length shared > 1 then
       [\<lparr>gf_risk_code = lit ''SHARED_ACCOUNT'', gf_score = min 100 (55 + 10 * int (length shared)),
         gf_entities = shared @ [account],
         gf_explanation = [36134, 25143, 32] @ account @ [32, 30001, 32] @ str_of_int (int (length shared))
           @ [32, 20010, 19981, 21516, 23454, 20307, 20849, 21516, 20851, 32852],
         gf_evidence = JObj [(lit ''owners'', JList (map JStr shared))]\<rparr>]
     else [])"

definition cycle_finding :: "pystr \<times> pystr \<times> pystr \<Rightarrow> graph_finding" where
  "cycle_finding t = (case t of (a, b, c) \<Rightarrow>
     \<lparr>gf_risk_code = lit ''CIRCULAR_RELATION'', gf_score = 85, gf_entities = [a, b, c],
      gf_explanation = [26816, 27979, 21040, 19977, 33410, 28857, 38381, 29615, 20851, 31995, 65306]
        @ py_join [32, 8594, 32] [a, b, c, a],
      gf_evidence = JObj [(lit ''cycle'', JList [JStr a, JStr b, JStr c])]\<rparr>)"

definition finding_order :: "graph_finding \<Rightarrow> int \<times> pystr \<times> pystr list" where
  "finding_order f = (- gf_score f, gf_risk_code f, gf_entities f)"

definition graph_findings :: "graph_edge list \<Rightarrow> graph_finding list" where
  "graph_findings edges = sort_key finding_order
     (concat (map shared_finding (account_owners edges))
      @ map cycle_finding (cycles_of_three (adjacency edges)))"

definition investigate :: "pyenv \<Rightarrow> dialect \<Rightarrow> pystr \<Rightarrow> db \<Rightarrow> graph_finding list res \<times> db" where
  "investigate E dl tenant = connect E dl (Some tenant) (query_tx (\<lambda>d. graph_findings (live_edges tenant d)))"

section \<open>Entities as a map\<close>

definition entity_view :: "graph_entity list \<Rightarrow> pystr \<times> pystr \<rightharpoonup> pystr \<times> pystr" where
  "entity_view rows = map_of (map (\<lambda>r. ((ge_tenant r, ge_entity_id r), (ge_entity_type r, ge_attributes_json r))) rows)"

definition entity_binding :: "pystr \<Rightarrow> entity \<Rightarrow> (pystr \<times> pystr) \<times> pystr \<times> pystr" where
  "entity_binding tenant x =
     ((tenant, en_entity_id x), (en_entity_type x, canonical_json (en_attributes x)))"

lemma entity_view_upsert:
  "entity_view (upsert_entity t x rows) = (entity_view rows)((t, en_entity_id x) \<mapsto> (en_entity_type x, canonical_json (en_attributes x)))"
proof (cases "\<exists>r \<in> set rows. is_entity t (en_entity_id x) r")
  case True
  let ?f = "\<lambda>r. r\<lparr>ge_entity_type := en_entity_type x, ge_attributes_json := canonical_json (en_attributes x)\<rparr>"
  let ?k = "(t, en_entity_id x)" and ?v = "(en_entity_type x, canonical_json (en_attributes x))"
  have "entity_view (update_rows (is_entity t (en_entity_id x)) ?f rows) k =
      (if k = ?k \<and> (\<exists>r \<in> set rows. is_entity t (en_entity_id x) r) then Some ?v else entity_view rows k)" for k
    by (induction rows) (auto simp: entity_view_def update_rows_def is_entity_def)
  with True show ?thesis by (auto simp: upsert_entity_def)
next
  case False
  then have "entity_view rows (t, en_entity_id x) = None"
    by (auto simp: entity_view_def map_of_eq_None_iff is_entity_def)
  then have "entity_view (rows @ [\<lparr>ge_tenant = t, ge_entity_id = en_entity_id x, ge_entity_type = en_entity_type x,
        ge_attributes_json = canonical_json (en_attributes x)\<rparr>]) k =
      (if k = (t, en_entity_id x) then Some (en_entity_type x, canonical_json (en_attributes x)) else entity_view rows k)" for k
    by (auto simp: entity_view_def map_add_def split: option.splits)
  with False show ?thesis by (auto simp: upsert_entity_def)
qed

lemma entity_view_upserts:
  "entity_view (fold (upsert_entity t) xs rows) = entity_view rows ++ map_of (rev (map (entity_binding t) xs))"
  by (induction xs arbitrary: rows) (auto simp: entity_view_upsert entity_binding_def map_add_def fun_eq_iff split: option.splits)

section \<open>Cycles\<close>

definition has_edge :: "graph_edge list \<Rightarrow> pystr \<Rightarrow> pystr \<Rightarrow> bool" where
  "has_edge edges a b \<longleftrightarrow> (\<exists>e \<in> set edges. gx_source_id e = a \<and> gx_target_id e = b)"

lemma set_targets: "set (targets edges a) = {b. has_edge edges a b}"
  by (auto simp: targets_def has_edge_def)

lemma map_of_map_key: "map_of (map (\<lambda>a. (a, f a)) ks) k = (if k \<in> set ks then Some (f k) else None)"
  by (induction ks) auto

lemma set_neighbours: "set (neighbours (adjacency edges) a) = {b. has_edge edges a b}"
proof -
  have "a \<notin> gx_source_id ` set edges \<Longrightarrow> {b. has_edge edges a b} = {}" by (auto simp: has_edge_def)
  then show ?thesis
    by (auto simp: neighbours_def adjacency_def map_of_map_key set_targets)
qed

lemma set_cycles_of_three:
  "set (cycles_of_three (adjacency edges)) = canonical_rotation `
     {(a, b, c). has_edge edges a b \<and> has_edge edges b c \<and> has_edge edges c a \<and> a \<noteq> b \<and> b \<noteq> c}"
  (is "?L = canonical_rotation ` ?T")
proof -
  have key: "(a, ns) \<in> set (adjacency edges) \<longleftrightarrow> a \<in> gx_source_id ` set edges \<and> ns = targets edges a" for a ns
    by (auto simp: adjacency_def)
  have "t \<in> ?L \<longleftrightarrow> (\<exists>a ns b c. (a, ns) \<in> set (adjacency edges) \<and> b \<in> set ns
      \<and> c \<in> set (neighbours (adjacency edges) b) \<and> a \<noteq> b \<and> b \<noteq> c
      \<and> a \<in> set (neighbours (adjacency edges) c) \<and> t = canonical_rotation (a, b, c))" for t
    unfolding cycles_of_three_def set_sort set_remdups set_concat set_map by fastforce
  also have "\<dots> t \<longleftrightarrow> (\<exists>a b c. has_edge edges a b \<and> has_edge edges b c \<and> has_edge edges c a
      \<and> a \<noteq> b \<and> b \<noteq> c \<and> t = canonical_rotation (a, b, c))" for t
  proof -
    have "has_edge edges a b \<Longrightarrow> a \<in> gx_source_id ` set edges" for a b by (auto simp: has_edge_def)
    then show ?thesis
      unfolding key set_neighbours mem_Collect_eq by (metis (mono_tags, lifting) mem_Collect_eq set_targets)
  qed
  finally show ?thesis by blast
qed

lemma canonical_rotation_cases:
  "canonical_rotation (a, b, c) \<in> {(a, b, c), (b, c, a), (c, a, b)}"
  by (simp add: canonical_rotation_def min_def)

lemma canonical_rotation_le:
  "canonical_rotation (a, b, c) \<le> (a, b, c)" "canonical_rotation (a, b, c) \<le> (b, c, a)"
  "canonical_rotation (a, b, c) \<le> (c, a, b)"
  unfolding canonical_rotation_def prod.case by (meson min.cobounded1 min.cobounded2 order_trans)+

lemma canonical_rotation_id:
  "(a, b, c) \<le> (b, c, a) \<Longrightarrow> (a, b, c) \<le> (c, a, b) \<Longrightarrow> canonical_rotation (a, b, c) = (a, b, c)"
  unfolding canonical_rotation_def prod.case by (simp add: min_absorb1)

section \<open>Shared accounts\<close>

definition owners_of :: "graph_edge list \<Rightarrow> pystr \<Rightarrow> pystr set" where
  "owners_of edges account = {gx_source_id e | e. e \<in> set edges \<and> gx_relation e = owns_account \<and> gx_target_id e = account}"

lemma account_owners_iff:
  "(account, owners) \<in> set (account_owners edges) \<longleftrightarrow> owners_of edges account \<noteq> {}
     \<and> owners = map gx_source_id (filter (\<lambda>e. gx_target_id e = account) (filter (\<lambda>e. gx_relation e = owns_account) edges))"
  by (auto simp: account_owners_def Let_def owners_of_def)

lemma sort_remdups: "sort (remdups xs) = sorted_list_of_set (set xs)"
  by (simp add: sorted_list_of_set_sort_remdups)

definition shared_report :: "pystr \<Rightarrow> pystr list \<Rightarrow> graph_finding" where
  "shared_report account owners =
     \<lparr>gf_risk_code = lit ''SHARED_ACCOUNT'', gf_score = min 100 (55 + 10 * int (length owners)),
      gf_entities = owners @ [account],
      gf_explanation = [36134, 25143, 32] @ account @ [32, 30001, 32] @ str_of_int (int (length owners))
        @ [32, 20010, 19981, 21516, 23454, 20307, 20849, 21516, 20851, 32852],
      gf_evidence = JObj [(lit ''owners'', JList (map JStr owners))]\<rparr>"

lemma shared_finding_report:
  "shared_finding (account, owners) =
     (if card (set owners) > 1 then [shared_report account (sorted_list_of_set (set owners))] else [])"
  by (simp add: shared_finding_def Let_def shared_report_def sort_remdups)

lemma set_owners:
  "set (map gx_source_id (filter (\<lambda>e. gx_target_id e = account) (filter (\<lambda>e. gx_relation e = owns_account) edges)))
    = owners_of edges account"
  by (auto simp: owners_of_def)

lemma shared_findings_iff:
  "f \<in> set (graph_findings edges) \<and> gf_risk_code f = lit ''SHARED_ACCOUNT'' \<longleftrightarrow>
     (\<exists>account. card (owners_of edges account) > 1
        \<and> f = shared_report account (sorted_list_of_set (owners_of edges account)))"
proof -
  have "gf_risk_code (cycle_finding t) \<noteq> lit ''SHARED_ACCOUNT''" for t
    by (cases t) (simp add: cycle_finding_def)
  then have "f \<in> set (graph_findings edges) \<and> gf_risk_code f = lit ''SHARED_ACCOUNT'' \<longleftrightarrow>
      (\<exists>ao \<in> set (account_owners edges). f \<in> set (shared_finding ao)) \<and> gf_risk_code f = lit ''SHARED_ACCOUNT''"
    by (auto simp: graph_findings_def)
  also have "\<dots> \<longleftrightarrow> (\<exists>account. owners_of edges account \<noteq> {} \<and> card (owners_of edges account) > 1
        \<and> f = shared_report account (sorted_list_of_set (owners_of edges account)))"
  proof -
    have "(\<exists>ao \<in> set (account_owners edges). f \<in> set (shared_finding ao)) \<longleftrightarrow>
        (\<exists>account owners. (account, owners) \<in> set (account_owners edges) \<and> card (set owners) > 1
          \<and> f = shared_report account (sorted_list_of_set (set owners)))"
      by (force simp: shared_finding_report split: if_splits)
    also have "\<dots> \<longleftrightarrow> (\<exists>account. owners_of edges account \<noteq> {} \<and> card (owners_of edges account) > 1
        \<and> f = shared_report account (sorted_list_of_set (owners_of edges account)))"
      by (simp only: account_owners_iff ex_simps conj_assoc simp_thms set_owners flip: set_owners)
    finally show ?thesis by (auto simp: shared_report_def)
  qed
  also have "\<dots> \<longleftrightarrow> (\<exists>account. card (owners_of edges account) > 1
        \<and> f = shared_report account (sorted_list_of_set (owners_of edges account)))"
    by (metis card.empty less_numeral_extra(1) not_one_less_zero)
  finally show ?thesis .
qed

section \<open>Properties\<close>

text \<open>
  C12: Cycles of three are found exactly.  Of three distinct nodes, a triple is reported if and only
  if its edges lead around and it is the least of its rotations; and no triple is reported twice.
\<close>

theorem cycles_of_three_exact:
  assumes "distinct [x, y, z]"
  shows "((x, y, z) \<in> set (cycles_of_three (adjacency edges)) \<longleftrightarrow>
      has_edge edges x y \<and> has_edge edges y z \<and> has_edge edges z x
      \<and> (x, y, z) \<le> (y, z, x) \<and> (x, y, z) \<le> (z, x, y))
    \<and> distinct (cycles_of_three (adjacency edges))"
proof
  show "distinct (cycles_of_three (adjacency edges))" by (simp add: cycles_of_three_def)
  show "(x, y, z) \<in> set (cycles_of_three (adjacency edges)) \<longleftrightarrow>
      has_edge edges x y \<and> has_edge edges y z \<and> has_edge edges z x
      \<and> (x, y, z) \<le> (y, z, x) \<and> (x, y, z) \<le> (z, x, y)" (is "?in \<longleftrightarrow> ?ok")
  proof
    assume ?in
    then obtain a b c where abc: "has_edge edges a b" "has_edge edges b c" "has_edge edges c a"
      "(x, y, z) = canonical_rotation (a, b, c)" unfolding set_cycles_of_three by auto
    have "(x, y, z) \<le> (a, b, c)" "(x, y, z) \<le> (b, c, a)" "(x, y, z) \<le> (c, a, b)"
      unfolding abc(4) by (rule canonical_rotation_le)+
    moreover have "(x, y, z) \<in> {(a, b, c), (b, c, a), (c, a, b)}"
      unfolding abc(4) by (rule canonical_rotation_cases)
    ultimately show ?ok using abc(1-3) by auto
  next
    assume ok: ?ok
    then have "canonical_rotation (x, y, z) = (x, y, z)" by (intro canonical_rotation_id) auto
    with ok assms show ?in unfolding set_cycles_of_three by (force intro: image_eqI [of _ _ "(x, y, z)"])
  qed
qed

text \<open>
  A cycle of two nodes with a loop is reported as a cycle of three.  The loop over neighbours
  compares neither \<^verbatim>\<open>a\<close> with \<^verbatim>\<open>c\<close>, so two nodes with edges both ways and an edge from the first to
  itself yield a finding with code \<^verbatim>\<open>CIRCULAR_RELATION\<close> in which only those two nodes occur.
\<close>

theorem two_node_cycle_reported:
  assumes "has_edge edges a b" "has_edge edges b a" "has_edge edges a a" "a \<noteq> b"
  shows "\<exists>f \<in> set (graph_findings edges). gf_risk_code f = lit ''CIRCULAR_RELATION'' \<and> set (gf_entities f) = {a, b}"
proof -
  let ?t = "canonical_rotation (a, b, a)"
  have "?t \<in> set (cycles_of_three (adjacency edges))"
    unfolding set_cycles_of_three using assms by (intro image_eqI [of _ _ "(a, b, a)"]) auto
  then have "cycle_finding ?t \<in> set (graph_findings edges)" by (simp add: graph_findings_def)
  moreover have "set (gf_entities (cycle_finding ?t)) = {a, b}"
    using canonical_rotation_cases [of a b a] by (auto simp: cycle_finding_def)
  moreover have "gf_risk_code (cycle_finding ?t) = lit ''CIRCULAR_RELATION''"
    by (cases ?t) (simp add: cycle_finding_def)
  ultimately show ?thesis by blast
qed

text \<open>
  Shared accounts are found exactly.  The findings with code \<^verbatim>\<open>SHARED_ACCOUNT\<close> are, for each account
  that more than one entity owns, the report with its owners in order, the account after them and
  the score that grows with the number of owners up to 100.
\<close>

theorem shared_accounts_exact:
  "f \<in> set (graph_findings edges) \<and> gf_risk_code f = lit ''SHARED_ACCOUNT'' \<longleftrightarrow>
     (\<exists>account. card (owners_of edges account) > 1
        \<and> f = shared_report account (sorted_list_of_set (owners_of edges account)))"
  by (rule shared_findings_iff)

text \<open>
  C13: An upsert is a map update.  After a successful \<open>add_entities\<close> the entities, seen as a map from
  tenant and id to type and attributes, are the former map overwritten by the given entities,
  later ones over earlier ones; nothing else of the graph changes.
\<close>

theorem add_entities_refines_map:
  assumes "add_entities E dl ts tenant xs d = (Inr (), d')"
  shows "entity_view (graph_entities d') =
      entity_view (graph_entities d) ++ map_of (rev (map (entity_binding tenant) xs))
    \<and> graph_edges d' = graph_edges d"
proof -
  from connect_commit [OF assms [unfolded add_entities_def]] obtain d1 h where
    "when_tx (xs \<noteq> []) (upsert_entities dl tenant xs) d = Inr ((), d1)"
    "append_audit_event E ts (lit ''riskgraph'') (lit ''ENTITIES_UPSERTED'') (lit ''batch'')
        (JObj [(lit ''count'', JInt (int (length xs)))]) tenant d1 = Inr (h, d')"
    by (auto simp: bind_tx_Inr)
  then have "graph_entities d' = fold (upsert_entity tenant) xs (graph_entities d)" "graph_edges d' = graph_edges d"
    by (auto simp: when_tx_Inr upsert_entities_def elim!: append_audit_event_shape split: if_splits)
  then show ?thesis by (simp add: entity_view_upserts)
qed

section \<open>Witnesses\<close>

definition demo_edge :: "string \<Rightarrow> string \<Rightarrow> graph_edge" where
  "demo_edge a b = \<lparr>gx_id = 1, gx_tenant = lit ''acme'', gx_source_id = lit a, gx_target_id = lit b,
     gx_relation = lit ''PAYS'', gx_amount = Dec 1 0, gx_occurred_at = [], gx_evidence_json = lit ''{}''\<rparr>"

lemma cycles_of_three_exact_witness:
  "(lit ''a'', lit ''b'', lit ''c'') \<in>
     set (cycles_of_three (adjacency [demo_edge ''b'' ''c'', demo_edge ''c'' ''a'', demo_edge ''a'' ''b'']))"
proof -
  have "distinct [lit ''a'', lit ''b'', lit ''c'']" by simp
  from cycles_of_three_exact [OF this, of "[demo_edge ''b'' ''c'', demo_edge ''c'' ''a'', demo_edge ''a'' ''b'']"]
  show ?thesis by (simp add: has_edge_def demo_edge_def lit_def)
qed

lemma two_node_cycle_reported_witness:
  "\<exists>f \<in> set (graph_findings [demo_edge ''a'' ''b'', demo_edge ''b'' ''a'', demo_edge ''a'' ''a'']).
     gf_risk_code f = lit ''CIRCULAR_RELATION'' \<and> set (gf_entities f) = {lit ''a'', lit ''b''}"
  by (rule two_node_cycle_reported) (simp_all add: has_edge_def demo_edge_def)

lemma add_entities_refines_map_witness:
  "\<exists>d'. add_entities demo_env Sqlite demo_clock (lit ''acme'')
      [\<lparr>en_entity_id = lit ''x'', en_entity_type = lit ''PERSON'', en_attributes = JNull\<rparr>] empty_db = (Inr (), d')
     \<and> entity_view (graph_entities d') (lit ''acme'', lit ''x'') = Some (lit ''PERSON'', canonical_json JNull)"
proof -
  have "\<exists>d'. add_entities demo_env Sqlite demo_clock (lit ''acme'')
      [\<lparr>en_entity_id = lit ''x'', en_entity_type = lit ''PERSON'', en_attributes = JNull\<rparr>] empty_db = (Inr (), d')"
    by (simp add: add_entities_def connect_eq bind_tx_def when_tx_def upsert_entities_def empty_db_def
        append_audit_event_def Let_def insert_audit_event_def append_outbox_event_def)
  then obtain d' where r: "add_entities demo_env Sqlite demo_clock (lit ''acme'')
      [\<lparr>en_entity_id = lit ''x'', en_entity_type = lit ''PERSON'', en_attributes = JNull\<rparr>] empty_db = (Inr (), d')"
    by blast
  with add_entities_refines_map [OF r] show ?thesis by (auto simp: entity_binding_def)
qed

end
