(* ===== verification/Reg_Intel.thy ===== *)
theory Reg_Intel
  imports Core Py_Bytes
begin

text \<open>
  \<^verbatim>\<open>regintel.py\<close>: the versioned documents of a tenant, the tokens of a text, lexical and hybrid search,
  answers with citations, and the evaluation of the ranking.  The arithmetic of the scores and the
  similarities of scikit-learn are parameters.  The main fact: an answer cites documents of the
  tenant as they are stored, or refuses.
\<close>

section \<open>Floating point and the text services\<close>

text \<open>
  The floats of the scores are the elements of a linearly ordered type with the operations that the
  code uses: \<open>fl_dec m e\<close> is the literal \<open>m * 10\<close> to the power \<open>e\<close>, \<open>fl_sum\<close> the built-in \<^verbatim>\<open>sum\<close>, whose
  rounding depends on the version of Python, \<open>fl_round\<close> is \<^verbatim>\<open>round(x, 6)\<close>.  The scores are finite, so that
  they are ordered linearly, and no divisor is zero.  \<open>rg_lower\<close> is \<^verbatim>\<open>str.lower\<close>, and \<open>rg_dense\<close> gives the
  similarities of a query with each text of the corpus that scikit-learn's character n-grams have.
\<close>

record 'f reg_lib =
  fl_int :: "int \<Rightarrow> 'f"
  fl_dec :: "int \<Rightarrow> int \<Rightarrow> 'f"
  fl_add :: "'f \<Rightarrow> 'f \<Rightarrow> 'f"
  fl_sub :: "'f \<Rightarrow> 'f \<Rightarrow> 'f"
  fl_mul :: "'f \<Rightarrow> 'f \<Rightarrow> 'f"
  fl_div :: "'f \<Rightarrow> 'f \<Rightarrow> 'f"
  fl_log :: "'f \<Rightarrow> 'f"
  fl_neg :: "'f \<Rightarrow> 'f"
  fl_sum :: "'f list \<Rightarrow> 'f"
  fl_round :: "'f \<Rightarrow> 'f"
  rg_lower :: "pystr \<Rightarrow> pystr"
  rg_dense :: "pystr list \<Rightarrow> pystr \<Rightarrow> 'f list res"

section \<open>Tokens\<close>

definition ascii_letter :: "int \<Rightarrow> bool" where
  "ascii_letter c \<longleftrightarrow> (65 \<le> c \<and> c \<le> 90) \<or> (97 \<le> c \<and> c \<le> 122)"

definition word_char :: "int \<Rightarrow> bool" where
  "word_char c \<longleftrightarrow> ascii_letter c \<or> is_digit c \<or> c = 95 \<or> c = 45"

definition cjk :: "int \<Rightarrow> bool" where
  "cjk c \<longleftrightarrow> 0x4E00 \<le> c \<and> c \<le> 0x9FFF"

text \<open>\<^verbatim>\<open>TOKEN_RE.findall\<close>.\<close>

function find_tokens :: "pystr \<Rightarrow> pystr list" where
  "find_tokens [] = []"
| "find_tokens (c # s) =
     (if ascii_letter c then (c # takeWhile word_char s) # find_tokens (dropWhile word_char s)
      else if cjk c then (c # takeWhile cjk s) # find_tokens (dropWhile cjk s)
      else find_tokens s)"
  by pat_completeness auto
termination
  by (relation "measure length") (auto simp: less_Suc_eq_le length_dropWhile_le)

definition ascii_lower :: "int \<Rightarrow> int" where
  "ascii_lower c = (if 65 \<le> c \<and> c \<le> 90 then c + 32 else c)"

fun bigrams :: "pystr \<Rightarrow> pystr list" where
  "bigrams (a # b # s) = [a, b] # bigrams (b # s)"
| "bigrams _ = []"

definition tokenize :: "pystr \<Rightarrow> pystr list" where
  "tokenize s = concat (map (\<lambda>token.
     let lowered = map ascii_lower token
     in if list_all cjk lowered \<and> length lowered > 1 then bigrams lowered else [lowered]) (find_tokens s))"

section \<open>Documents\<close>

definition document_hash :: "pyenv \<Rightarrow> pystr \<Rightarrow> pystr \<Rightarrow> pystr \<Rightarrow> pystr" where
  "document_hash E title published content = sha256_json E (JObj
     [(lit ''title'', JStr title), (lit ''published_at'', JStr published), (lit ''content'', JStr content)])"

definition is_document :: "pystr \<Rightarrow> pystr \<Rightarrow> pystr \<Rightarrow> regulation_document \<Rightarrow> bool" where
  "is_document tenant key version r \<longleftrightarrow> rd_tenant r = tenant \<and> rd_document_key r = key \<and> rd_version_hash r = version"

text \<open>\<^verbatim>\<open>INSERT ... ON CONFLICT (tenant_id, document_key, version_hash) DO NOTHING\<close>.\<close>

definition insert_document :: "regulation_document \<Rightarrow> regulation_document list \<Rightarrow> regulation_document list" where
  "insert_document r rows =
     (if \<exists>r' \<in> set rows. is_document (rd_tenant r) (rd_document_key r) (rd_version_hash r) r' then rows else rows @ [r])"

definition add_document ::
  "pyenv \<Rightarrow> dialect \<Rightarrow> clock \<Rightarrow> pystr \<Rightarrow> pystr \<Rightarrow> pystr \<Rightarrow> pystr \<Rightarrow> pystr \<Rightarrow> pystr \<Rightarrow> db \<Rightarrow> pystr res \<times> db" where
  "add_document E dl ts tenant key title source_url published content =
     (let version = document_hash E title published content
      in connect E dl (Some tenant)
        (bind_tx (update_tx (\<lambda>d. d\<lparr>regulation_documents := insert_document
            \<lparr>rd_id = fresh_id (map rd_id (regulation_documents d)), rd_tenant = tenant, rd_document_key = key,
             rd_title = title, rd_source_url = source_url, rd_published_at = published,
             rd_version_hash = version, rd_content = content\<rparr> (regulation_documents d)\<rparr>)) (\<lambda>_.
         bind_tx (append_audit_event E ts (lit ''regintel'') (lit ''DOCUMENT_VERSIONED'') key
            (JObj [(lit ''version_hash'', JStr version)]) tenant) (\<lambda>_.
         return_tx version))))"

definition documents :: "pyenv \<Rightarrow> dialect \<Rightarrow> pystr \<Rightarrow> db \<Rightarrow> regulation_document list res \<times> db" where
  "documents E dl tenant = connect E dl (Some tenant)
     (query_tx (\<lambda>d. select_rows rd_id (\<lambda>r. rd_tenant r = tenant) (regulation_documents d)))"

section \<open>Snippets\<close>

fun py_find :: "pystr \<Rightarrow> pystr \<Rightarrow> int" where
  "py_find [] t = (if t = [] then 0 else -1)"
| "py_find (c # s) t =
     (if py_startswith (c # s) t then 0 else let i = py_find s t in if i < 0 then -1 else i + 1)"

definition best_snippet :: "'f reg_lib \<Rightarrow> pystr \<Rightarrow> pystr list \<Rightarrow> pystr" where
  "best_snippet R content query_tokens =
     (let lowered = rg_lower R content;
          positions = filter (\<lambda>i. 0 \<le> i) (map (py_find lowered) query_tokens);
          start = max 0 ((if positions = [] then 0 else Min (set positions)) - 30)
      in py_strip (take 140 (drop (nat start) content)))"

section \<open>Search\<close>

record 'f lexical_hit =
  lh_document_key :: pystr
  lh_title :: pystr
  lh_source_url :: pystr
  lh_published_at :: pystr
  lh_version_hash :: pystr
  lh_score :: 'f
  lh_query_coverage :: 'f
  lh_snippet :: pystr

definition document_text :: "regulation_document \<Rightarrow> pystr" where
  "document_text r = rd_title r @ [32] @ rd_content r"

definition token_count :: "pystr list \<Rightarrow> pystr \<Rightarrow> int" where
  "token_count tokens t = int (count_rows (\<lambda>x. x = t) tokens)"

text \<open>\<^verbatim>\<open>document_frequency\<close>: in how many documents a token occurs.\<close>

definition token_frequency :: "pystr list list \<Rightarrow> pystr \<Rightarrow> int" where
  "token_frequency docs t = int (count_rows (\<lambda>tokens. t \<in> set tokens) docs)"

definition token_score :: "'f reg_lib \<Rightarrow> int \<Rightarrow> int \<Rightarrow> int \<Rightarrow> 'f" where
  "token_score R n frequency k = fl_mul R (fl_add R (fl_int R 1) (fl_log R (fl_int R k)))
     (fl_add R (fl_log R (fl_div R (fl_int R (n + 1)) (fl_add R (fl_int R frequency) (fl_dec R 5 (-1))))) (fl_int R 1))"

definition scored_document ::
  "('f::linorder) reg_lib \<Rightarrow> pystr list \<Rightarrow> pystr list list \<Rightarrow> regulation_document \<Rightarrow> 'f lexical_hit list" where
  "scored_document R query_tokens docs r =
     (let tokens = tokenize (document_text r);
          found = filter (\<lambda>t. token_count tokens t \<noteq> 0) query_tokens;
          score = fl_sum R (map (\<lambda>t. token_score R (int (length docs)) (token_frequency docs t) (token_count tokens t)) found);
          coverage = fl_div R (fl_int R (int (length (remdups found))))
            (fl_int R (max (int (length (remdups query_tokens))) 1))
      in if score \<noteq> fl_int R 0 \<and> fl_dec R 5 (-1) \<le> coverage
         then [\<lparr>lh_document_key = rd_document_key r, lh_title = rd_title r, lh_source_url = rd_source_url r,
                lh_published_at = rd_published_at r, lh_version_hash = rd_version_hash r,
                lh_score = fl_round R score, lh_query_coverage = fl_round R coverage,
                lh_snippet = best_snippet R (rd_content r) query_tokens\<rparr>]
         else [])"

definition search_rows ::
  "('f::linorder) reg_lib \<Rightarrow> pystr \<Rightarrow> int \<Rightarrow> regulation_document list \<Rightarrow> 'f lexical_hit list" where
  "search_rows R query limit rows =
     (let query_tokens = tokenize query;
          docs = map (\<lambda>r. tokenize (document_text r)) rows
      in py_take limit (sort_key (\<lambda>h. (fl_neg R (lh_score h), lh_title h))
           (concat (map (scored_document R query_tokens docs) rows))))"

definition search ::
  "pyenv \<Rightarrow> dialect \<Rightarrow> ('f::linorder) reg_lib \<Rightarrow> pystr \<Rightarrow> pystr \<Rightarrow> int \<Rightarrow> db \<Rightarrow> 'f lexical_hit list res" where
  "search E dl R tenant query limit d =
     (if tokenize query = [] then Inr []
      else bind_res (fst (documents E dl tenant d)) (\<lambda>rows. Inr (search_rows R query limit rows)))"

record 'f hybrid_hit =
  hh_document_key :: pystr
  hh_title :: pystr
  hh_source_url :: pystr
  hh_published_at :: pystr
  hh_version_hash :: pystr
  hh_lexical_score :: 'f
  hh_char_tfidf_score :: 'f
  hh_hybrid_score :: 'f
  hh_snippet :: pystr

text \<open>The share of the best lexical score that a document's last hit has, and the weighted sum of the two scores.\<close>

definition lexical_part :: "('f::linorder) reg_lib \<Rightarrow> 'f lexical_hit list \<Rightarrow> regulation_document \<Rightarrow> 'f" where
  "lexical_part R hits r =
     (let top = (if hits = [] then fl_int R 1 else Max (set (map lh_score hits)))
      in case find_row (\<lambda>h. lh_version_hash h = rd_version_hash r) (rev hits) of
           None \<Rightarrow> fl_int R 0 | Some h \<Rightarrow> fl_div R (lh_score h) top)"

definition weighted_score :: "('f::linorder) reg_lib \<Rightarrow> 'f \<Rightarrow> 'f lexical_hit list \<Rightarrow> regulation_document \<Rightarrow> 'f \<Rightarrow> 'f" where
  "weighted_score R weight hits r dense =
     fl_add R (fl_mul R weight (lexical_part R hits r)) (fl_mul R (fl_sub R (fl_int R 1) weight) dense)"

definition hybrid_hit_of ::
  "('f::linorder) reg_lib \<Rightarrow> pystr \<Rightarrow> 'f \<Rightarrow> 'f lexical_hit list \<Rightarrow> regulation_document \<times> 'f \<Rightarrow> 'f hybrid_hit" where
  "hybrid_hit_of R query weight hits rd = (case rd of (r, dense) \<Rightarrow>
     \<lparr>hh_document_key = rd_document_key r, hh_title = rd_title r, hh_source_url = rd_source_url r,
      hh_published_at = rd_published_at r, hh_version_hash = rd_version_hash r,
      hh_lexical_score = fl_round R (lexical_part R hits r), hh_char_tfidf_score = fl_round R dense,
      hh_hybrid_score = fl_round R (weighted_score R weight hits r dense),
      hh_snippet = best_snippet R (rd_content r) (tokenize query)\<rparr>)"

definition hybrid_document ::
  "('f::linorder) reg_lib \<Rightarrow> pystr \<Rightarrow> 'f \<Rightarrow> 'f lexical_hit list \<Rightarrow> regulation_document \<times> 'f \<Rightarrow> 'f hybrid_hit list" where
  "hybrid_document R query weight hits rd =
     (if fl_int R 0 < weighted_score R weight hits (fst rd) (snd rd) then [hybrid_hit_of R query weight hits rd] else [])"

definition hybrid_search ::
  "pyenv \<Rightarrow> dialect \<Rightarrow> ('f::linorder) reg_lib \<Rightarrow> pystr \<Rightarrow> pystr \<Rightarrow> int \<Rightarrow> 'f \<Rightarrow> db \<Rightarrow> 'f hybrid_hit list res" where
  "hybrid_search E dl R tenant query limit weight d =
     bind_res (raise_if (\<not> (fl_int R 0 \<le> weight \<and> weight \<le> fl_int R 1))
        (ValueError (lit ''lexical_weight must be between 0 and 1''))) (\<lambda>_.
     bind_res (fst (documents E dl tenant d)) (\<lambda>rows.
       if rows = [] \<or> py_blank query then Inr []
       else bind_res (search E dl R tenant query (int (length rows)) d) (\<lambda>hits.
         bind_res (rg_dense R (map document_text rows) query) (\<lambda>dense.
           Inr (py_take limit (sort_key (\<lambda>h. (fl_neg R (hh_hybrid_score h), hh_title h))
             (concat (map (hybrid_document R query weight hits) (zip rows dense)))))))))"

section \<open>Answers and evaluation\<close>

record 'f citation =
  ci_title :: pystr
  ci_source_url :: pystr
  ci_published_at :: pystr
  ci_version_hash :: pystr
  ci_hybrid_score :: 'f

record 'f reg_answer =
  ra_answer :: pystr
  ra_refused :: bool
  ra_citations :: "'f citation list"

definition refusal :: pystr where
  "refusal = [29616, 26377, 35777, 25454, 19981, 36275, 65292, 25298, 32477, 29983, 25104, 32467, 35770, 12290]"

definition answer_prefix :: pystr where
  "answer_prefix = [26681, 25454, 24050, 25910, 24405, 26448, 26009, 65292, 21487, 26680, 39564, 30340, 20449, 24687, 21253, 25324, 65306]"

definition cite :: "'f hybrid_hit \<Rightarrow> 'f citation" where
  "cite h = \<lparr>ci_title = hh_title h, ci_source_url = hh_source_url h, ci_published_at = hh_published_at h,
     ci_version_hash = hh_version_hash h, ci_hybrid_score = hh_hybrid_score h\<rparr>"

definition answer ::
  "pyenv \<Rightarrow> dialect \<Rightarrow> ('f::linorder) reg_lib \<Rightarrow> pystr \<Rightarrow> pystr \<Rightarrow> 'f \<Rightarrow> db \<Rightarrow> 'f reg_answer res" where
  "answer E dl R tenant query minimum d =
     bind_res (hybrid_search E dl R tenant query 3 (fl_dec R 55 (-2)) d) (\<lambda>hits.
       if hits = [] \<or> hh_hybrid_score (hd hits) < minimum
       then Inr \<lparr>ra_answer = refusal, ra_refused = True, ra_citations = []\<rparr>
       else Inr \<lparr>ra_answer = answer_prefix @ py_join [65307] (map hh_snippet hits), ra_refused = False,
         ra_citations = map cite hits\<rparr>)"

record reg_case =
  rc_query :: pystr
  rc_relevant_keys :: "pystr list"

record reg_detail =
  rt_query :: pystr
  rt_ranked :: "pystr list"
  rt_rank :: "int option"

definition first_rank :: "pystr list \<Rightarrow> pystr list \<Rightarrow> int option" where
  "first_rank ranked relevant =
     (case filter (\<lambda>i. ranked ! i \<in> set relevant) [0 ..< length ranked] of
        [] \<Rightarrow> None | i # _ \<Rightarrow> Some (int i + 1))"

record 'f reg_report =
  rp_cases :: int
  rp_recall :: 'f
  rp_mrr :: 'f
  rp_details :: "reg_detail list"

definition evaluate_case ::
  "pyenv \<Rightarrow> dialect \<Rightarrow> ('f::linorder) reg_lib \<Rightarrow> pystr \<Rightarrow> int \<Rightarrow> db \<Rightarrow> reg_case \<Rightarrow> reg_detail res" where
  "evaluate_case E dl R tenant k d c =
     bind_res (hybrid_search E dl R tenant (rc_query c) k (fl_dec R 55 (-2)) d) (\<lambda>hits.
       let ranked = map hh_document_key hits
       in Inr \<lparr>rt_query = rc_query c, rt_ranked = ranked, rt_rank = first_rank ranked (rc_relevant_keys c)\<rparr>)"

definition evaluate ::
  "pyenv \<Rightarrow> dialect \<Rightarrow> ('f::linorder) reg_lib \<Rightarrow> pystr \<Rightarrow> reg_case list \<Rightarrow> int \<Rightarrow> db \<Rightarrow> 'f reg_report res" where
  "evaluate E dl R tenant cases k d =
     bind_res (raise_if (cases = []) (ValueError (lit ''evaluation cases cannot be empty''))) (\<lambda>_.
     bind_res (map_res (evaluate_case E dl R tenant k d) cases) (\<lambda>details.
       let hits = int (count_rows (\<lambda>x. rt_rank x \<noteq> None) details);
           n = fl_int R (int (length cases));
           reciprocal = foldl (\<lambda>s x. fl_add R s (case rt_rank x of None \<Rightarrow> fl_int R 0 | Some i \<Rightarrow> fl_div R (fl_int R 1) (fl_int R i)))
             (fl_int R 0) details
       in Inr \<lparr>rp_cases = int (length cases), rp_recall = fl_round R (fl_div R (fl_int R hits) n),
            rp_mrr = fl_round R (fl_div R reciprocal n), rp_details = details\<rparr>))"

section \<open>Properties\<close>

lemma set_py_take: "set (py_take n xs) \<subseteq> set xs"
  by (auto simp: py_take_def dest: in_set_takeD)

lemma length_py_take: "0 \<le> n \<Longrightarrow> length (py_take n xs) = min (nat n) (length xs)"
  by (auto simp: py_take_def)

lemma sorted_take: "sorted (map key xs) \<Longrightarrow> 0 \<le> n \<Longrightarrow> sorted (map key (py_take n xs))"
  by (simp add: py_take_def take_map [symmetric] sorted_wrt_take)

lemma documents_rows:
  "fst (documents E dl tenant d) = Inr rows \<Longrightarrow> r \<in> set rows \<Longrightarrow> r \<in> set (regulation_documents d) \<and> rd_tenant r = tenant"
  by (auto simp: documents_def connect_eq split: if_splits)

text \<open>A list whose elements are all images is the image of a list.\<close>

lemma list_of_images: "set ys \<subseteq> f ` A \<Longrightarrow> \<exists>xs. ys = map f xs \<and> set xs \<subseteq> A"
proof -
  assume "set ys \<subseteq> f ` A"
  then have "ys \<in> map f ` lists A" by (auto simp: lists_image [symmetric])
  then show ?thesis by auto
qed

text \<open>
  The hits are made of scored versions: pairs of a document of the tenant and its similarity to the query whose
  weighted score is positive.
\<close>

definition scored_versions :: "('f::linorder) reg_lib \<Rightarrow> 'f \<Rightarrow> 'f lexical_hit list \<Rightarrow> (regulation_document \<times> 'f) list \<Rightarrow> (regulation_document \<times> 'f) set" where
  "scored_versions R weight hits versions = {(r, dense) \<in> set versions. fl_int R 0 < weighted_score R weight hits r dense}"

lemma hybrid_documents: "set (concat (map (hybrid_document R query weight hits) versions)) = hybrid_hit_of R query weight hits ` scored_versions R weight hits versions"
  by (auto simp: hybrid_document_def scored_versions_def)

lemma hybrid_search_hits:
  assumes "hybrid_search E dl R tenant query limit weight d = Inr found" "0 \<le> limit" "found \<noteq> []"
  obtains rows hits dense cited where "fst (documents E dl tenant d) = Inr rows"
    "search E dl R tenant query (int (length rows)) d = Inr hits" "rg_dense R (map document_text rows) query = Inr dense"
    "found = map (hybrid_hit_of R query weight hits) cited" "set cited \<subseteq> scored_versions R weight hits (zip rows dense)"
    "length found \<le> nat limit" "sorted (map (\<lambda>h. (fl_neg R (hh_hybrid_score h), hh_title h)) found)"
proof -
  from assms(1,3) obtain rows hits dense where r: "fst (documents E dl tenant d) = Inr rows"
    "search E dl R tenant query (int (length rows)) d = Inr hits" "rg_dense R (map document_text rows) query = Inr dense"
    and found: "found = py_take limit (sort_key (\<lambda>h. (fl_neg R (hh_hybrid_score h), hh_title h))
        (concat (map (hybrid_document R query weight hits) (zip rows dense))))"
    by (auto simp: hybrid_search_def bind_res_Inr raise_if_Inr split: if_splits)
  have "set found \<subseteq> hybrid_hit_of R query weight hits ` scored_versions R weight hits (zip rows dense)"
    unfolding found hybrid_documents [symmetric] using set_py_take by fastforce
  then obtain cited where "found = map (hybrid_hit_of R query weight hits) cited"
    "set cited \<subseteq> scored_versions R weight hits (zip rows dense)" using list_of_images by blast
  moreover have "length found \<le> nat limit" using assms(2) by (simp add: found length_py_take)
  moreover have "sorted (map (\<lambda>h. (fl_neg R (hh_hybrid_score h), hh_title h)) found)"
    using assms(2) unfolding found by (intro sorted_take) simp_all
  ultimately show ?thesis using that r by blast
qed

text \<open>
  C22: Answers are grounded or refused.  An answer that is not a refusal cites between one and three
  versions of documents of the asking tenant, as they are stored, the best first by score, whose score
  is not below the minimum.  Each is cited with the rounded value of its weighted score, which is positive and
  made of its lexical score and its similarity to the query, and the answer consists of the snippets of these
  versions, in the order of the citations.  A refusal cites nothing.
\<close>

theorem answer_grounded:
  assumes "answer E dl R tenant query minimum d = Inr a"
  shows "if ra_refused a then ra_answer a = refusal \<and> ra_citations a = []
    else 1 \<le> length (ra_citations a) \<and> length (ra_citations a) \<le> 3
      \<and> minimum \<le> ci_hybrid_score (hd (ra_citations a))
      \<and> sorted (map (\<lambda>c. (fl_neg R (ci_hybrid_score c), ci_title c)) (ra_citations a))
      \<and> (\<exists>rows hits dense cited. fst (documents E dl tenant d) = Inr rows
           \<and> search E dl R tenant query (int (length rows)) d = Inr hits
           \<and> rg_dense R (map document_text rows) query = Inr dense
           \<and> set cited \<subseteq> set (zip rows dense)
           \<and> (\<forall>(r, similarity) \<in> set cited. r \<in> set (regulation_documents d) \<and> rd_tenant r = tenant
                \<and> fl_int R 0 < weighted_score R (fl_dec R 55 (-2)) hits r similarity)
           \<and> ra_citations a = map (\<lambda>(r, similarity). \<lparr>ci_title = rd_title r, ci_source_url = rd_source_url r,
                ci_published_at = rd_published_at r, ci_version_hash = rd_version_hash r,
                ci_hybrid_score = fl_round R (weighted_score R (fl_dec R 55 (-2)) hits r similarity)\<rparr>) cited
           \<and> ra_answer a = answer_prefix @ py_join [65307] (map (\<lambda>(r, _). best_snippet R (rd_content r) (tokenize query)) cited))"
proof -
  from assms obtain found where found: "hybrid_search E dl R tenant query 3 (fl_dec R 55 (-2)) d = Inr found"
    and a: "a = (if found = [] \<or> hh_hybrid_score (hd found) < minimum
       then \<lparr>ra_answer = refusal, ra_refused = True, ra_citations = []\<rparr>
       else \<lparr>ra_answer = answer_prefix @ py_join [65307] (map hh_snippet found), ra_refused = False,
         ra_citations = map cite found\<rparr>)"
    by (auto simp: answer_def bind_res_Inr split: if_splits)
  show ?thesis
  proof (cases "found = [] \<or> hh_hybrid_score (hd found) < minimum")
    case True
    then show ?thesis by (simp add: a)
  next
    case False
    then have "found \<noteq> []" "minimum \<le> hh_hybrid_score (hd found)" by auto
    from found _ this(1) obtain rows hits dense cited where h: "fst (documents E dl tenant d) = Inr rows"
      "search E dl R tenant query (int (length rows)) d = Inr hits" "rg_dense R (map document_text rows) query = Inr dense"
      "found = map (hybrid_hit_of R query (fl_dec R 55 (-2)) hits) cited"
      "set cited \<subseteq> scored_versions R (fl_dec R 55 (-2)) hits (zip rows dense)"
      "length found \<le> nat 3" "sorted (map (\<lambda>h. (fl_neg R (hh_hybrid_score h), hh_title h)) found)"
      by (rule hybrid_search_hits) simp
    have "sorted (map (\<lambda>c. (fl_neg R (ci_hybrid_score c), ci_title c)) (map cite found))"
      using h(7) by (simp add: o_def cite_def)
    moreover have "\<forall>(r, similarity) \<in> set cited. r \<in> set (regulation_documents d) \<and> rd_tenant r = tenant
        \<and> fl_int R 0 < weighted_score R (fl_dec R 55 (-2)) hits r similarity"
      using h(5) documents_rows [OF h(1)] by (fastforce simp: scored_versions_def dest: set_zip_leftD)
    moreover have "map cite found = map (\<lambda>(r, similarity). \<lparr>ci_title = rd_title r, ci_source_url = rd_source_url r,
        ci_published_at = rd_published_at r, ci_version_hash = rd_version_hash r,
        ci_hybrid_score = fl_round R (weighted_score R (fl_dec R 55 (-2)) hits r similarity)\<rparr>) cited"
      "map hh_snippet found = map (\<lambda>(r, _). best_snippet R (rd_content r) (tokenize query)) cited"
      unfolding h(4) by (auto simp: cite_def hybrid_hit_of_def)
    moreover have "set cited \<subseteq> set (zip rows dense)" using h(5) by (auto simp: scored_versions_def)
    moreover have "1 \<le> length (map cite found)" "length (map cite found) \<le> 3" "minimum \<le> ci_hybrid_score (hd (map cite found))"
      using False h(6) by (auto simp: hd_map cite_def Suc_le_eq)
    ultimately show ?thesis using False h(1-3) by (simp add: a) blast
  qed
qed

section \<open>Witnesses\<close>

text \<open>Scores in thousandths, without logarithms.\<close>

definition demo_reg :: "int reg_lib" where
  "demo_reg = \<lparr>fl_int = (\<lambda>i. 1000 * i), fl_dec = (\<lambda>m e. if e = -1 then 100 * m else 10 * m), fl_add = (+), fl_sub = (-),
     fl_mul = (\<lambda>a b. a * b div 1000), fl_div = (\<lambda>a b. a * 1000 div b), fl_log = (\<lambda>_. 0), fl_neg = uminus,
     fl_sum = sum_list, fl_round = id, rg_lower = map ascii_lower, rg_dense = (\<lambda>corpus q. Inr (map (\<lambda>_. 400) corpus))\<rparr>"

definition demo_document :: "pystr \<Rightarrow> regulation_document" where
  "demo_document tenant = \<lparr>rd_id = 1, rd_tenant = tenant, rd_document_key = lit ''vat'', rd_title = lit ''VAT rules'',
     rd_source_url = lit ''https://example.invalid/vat'', rd_published_at = lit ''2026-01-01'',
     rd_version_hash = lit ''h1'', rd_content = lit ''The rate is due.''\<rparr>"

definition demo_reg_db :: db where
  "demo_reg_db = empty_db\<lparr>regulation_documents := [demo_document (lit ''acme''), demo_document (lit ''zeta'')]\<rparr>"

lemma demo_answer: "answer demo_env Sqlite demo_reg (lit ''acme'') (lit ''vat rate'') 120 demo_reg_db
    = Inr \<lparr>ra_answer = answer_prefix @ lit ''The rate is due.'', ra_refused = False,
        ra_citations = [\<lparr>ci_title = lit ''VAT rules'', ci_source_url = lit ''https://example.invalid/vat'',
          ci_published_at = lit ''2026-01-01'', ci_version_hash = lit ''h1'', ci_hybrid_score = 730\<rparr>]\<rparr>"
  by code_simp

lemma answer_grounded_witness:
  "\<exists>a. answer demo_env Sqlite demo_reg (lit ''acme'') (lit ''vat rate'') 120 demo_reg_db = Inr a \<and> \<not> ra_refused a
    \<and> length (ra_citations a) \<le> 3 \<and> 120 \<le> ci_hybrid_score (hd (ra_citations a))"
  using answer_grounded [OF demo_answer] demo_answer by fastforce

end
