(* ===== verification/System.thy ===== *)
theory System
  imports Tax_Flow Control_Pulse Outbox Risk_Graph Reg_Intel
begin

text \<open>
  The services together: one step is one call of a service operation, of any tenant, with any
  arguments, which commits or raises.  The invariants of the component theories hold in every
  reachable database, and a tenant's operation does not change what another tenant sees.
\<close>

section \<open>Steps\<close>

text \<open>
  The operations of the services that act for a tenant.  Of the evidence service it is the half that
  acts on the database, which records the preserved object in the trail.
\<close>

definition record_evidence ::
  "pyenv \<Rightarrow> dialect \<Rightarrow> clock \<Rightarrow> pystr \<Rightarrow> pystr \<Rightarrow> json \<Rightarrow> db \<Rightarrow> pystr res \<times> db" where
  "record_evidence E dl ts tenant run_id payload = connect E dl (Some tenant)
     (append_audit_event E ts (lit ''evidence'') (lit ''EVIDENCE_PRESERVED'') run_id payload tenant)"

inductive tenant_step :: "pyenv \<Rightarrow> pystr \<Rightarrow> db \<Rightarrow> db \<Rightarrow> bool" for E tenant where
  ingest: "ingest E dl ts uid tenant rows key d = (r, d') \<Longrightarrow> tenant_step E tenant d d'"
| run_rules: "run_rules E dl ts run_id tenant version pack key d = (r, d') \<Longrightarrow> tenant_step E tenant d d'"
| request_review: "request_review E dl ts tenant run_id requester d = (r, d') \<Longrightarrow> tenant_step E tenant d d'"
| review_run: "review_run E dl ts tenant run_id reviewer decision comment d = (r, d') \<Longrightarrow> tenant_step E tenant d d'"
| ingest_event: "ingest_and_evaluate E dl ts tenant e d = (r, d') \<Longrightarrow> tenant_step E tenant d d'"
| transition: "transition_case E dl ts tenant case_id actor to_status reason d = (r, d') \<Longrightarrow> tenant_step E tenant d d'"
| add_entities: "add_entities E dl ts tenant entities d = (r, d') \<Longrightarrow> tenant_step E tenant d d'"
| add_edges: "add_edges E dl ts tenant edges d = (r, d') \<Longrightarrow> tenant_step E tenant d d'"
| add_document: "add_document E dl ts tenant key title url published content d = (r, d') \<Longrightarrow> tenant_step E tenant d d'"
| evidence: "record_evidence E dl ts tenant run_id payload d = (r, d') \<Longrightarrow> wf_json E payload \<Longrightarrow> tenant_step E tenant d d'"

text \<open>The outbox worker's batches and the operator's replays, which act on all tenants' events.\<close>

inductive system_step :: "pyenv \<Rightarrow> db \<Rightarrow> db \<Rightarrow> bool" for E where
  tenant: "tenant_step E tenant d d' \<Longrightarrow> system_step E d d'"
| batch: "publish_batch E pub m ts limit d = (r, d', sent) \<Longrightarrow> system_step E d d'"
| replay: "replay_dead_letter E dl ts i d = (r, d') \<Longrightarrow> system_step E d d'"

definition reachable :: "pyenv \<Rightarrow> db \<Rightarrow> bool" where
  "reachable E d \<longleftrightarrow> (system_step E)\<^sup>*\<^sup>* empty_db d"

inductive_cases tenant_stepE: "tenant_step E tenant d d'"
inductive_cases system_stepE: "system_step E d d'"

section \<open>Committed bodies\<close>

text \<open>What the committed operations leave alone, by component.\<close>

definition audit_appended :: "pyenv \<Rightarrow> pystr \<Rightarrow> db \<Rightarrow> db \<Rightarrow> bool" where
  "audit_appended E tenant d d' \<longleftrightarrow> (\<exists>ts m et i p h d1 d2.
     audit_events d1 = audit_events d \<and> outbox_events d1 = outbox_events d \<and> wf_json E p
     \<and> append_audit_event E ts m et i p tenant d1 = Inr (h, d2)
     \<and> audit_events d' = audit_events d2 \<and> outbox_events d' = outbox_events d2)"

text \<open>An operation leaves the trail alone or appends one event to it.\<close>

definition audited :: "pyenv \<Rightarrow> pystr \<Rightarrow> db \<Rightarrow> db \<Rightarrow> bool" where
  "audited E tenant d d' \<longleftrightarrow>
     (audit_events d' = audit_events d \<and> outbox_events d' = outbox_events d) \<or> audit_appended E tenant d d'"

lemma audited_refl [simp]: "audited E tenant d d"
  by (simp add: audited_def)

lemma audited_append:
  assumes "append_audit_event E ts m et i p tenant d1 = Inr (h, d2)" "wf_json E p"
    and "audit_events d1 = audit_events d" "outbox_events d1 = outbox_events d"
    and "audit_events d' = audit_events d2" "outbox_events d' = outbox_events d2"
  shows "audited E tenant d d'"
  using assms unfolding audited_def audit_appended_def by blast

lemma audited_ok:
  assumes "audited E tenant d d'" "env_law E" "audit_ok E d"
  shows "audit_ok E d'"
  using assms(1) unfolding audited_def
proof
  assume "audit_events d' = audit_events d \<and> outbox_events d' = outbox_events d"
  then show ?thesis using audit_ok_cong [of d' d] assms(3) by simp
next
  assume "audit_appended E tenant d d'"
  then obtain ts m et i p h d1 d2 where a: "audit_events d1 = audit_events d" "wf_json E p"
    "append_audit_event E ts m et i p tenant d1 = Inr (h, d2)" "audit_events d' = audit_events d2"
    unfolding audit_appended_def by blast
  from a(1) assms(3) have "audit_ok E d1" using audit_ok_cong [of d1 d] by simp
  from append_audit_event_ok [OF a(3) assms(2) a(2) this] show ?thesis
    using audit_ok_cong [OF a(4)] by simp
qed

lemma store_idempotent_frame:
  "store_idempotent_response ts t op key h v d = Inr (u, d') \<Longrightarrow>
   audit_events d' = audit_events d \<and> outbox_events d' = outbox_events d"
  by (auto dest: store_keeps_db)

lemma ingest_audited: "ingest E dl ts uid tenant rows key d = (r, d') \<Longrightarrow> audited E tenant d d'"
  unfolding ingest_def
proof (erule connect_invariant)
  fix x assume "ingest_body E ts uid tenant rows key d = Inr (x, d')"
  then show "audited E tenant d d'"
    by (auto simp: ingest_body_def tx_Inr split: if_splits
        dest!: store_idempotent_frame intro: audited_append)
qed simp

lemma run_rules_audited: "run_rules E dl ts run_id tenant version pack key d = (r, d') \<Longrightarrow> audited E tenant d d'"
proof -
  assume "run_rules E dl ts run_id tenant version pack key d = (r, d')"
  then consider "d' = d" | ver where
    "connect E dl (Some tenant) (run_rules_body E ts run_id tenant ver (chosen_pack pack) key) d = (r, d')"
    by (auto simp: run_rules_def Let_def split: sum.splits)
  then show ?thesis
  proof cases
    case 2
    then show ?thesis
    proof (rule connect_invariant)
      fix x assume "run_rules_body E ts run_id tenant ver (chosen_pack pack) key d = Inr (x, d')"
      then show "audited E tenant d d'"
        by (auto simp: run_rules_body_def Let_def tx_Inr split: if_splits
            dest!: store_idempotent_frame store_findings_frame insert_rule_run_frame intro: audited_append)
    qed simp
  qed simp
qed

lemma request_review_audited: "request_review E dl ts tenant run_id requester d = (r, d') \<Longrightarrow> audited E tenant d d'"
proof -
  assume a: "request_review E dl ts tenant run_id requester d = (r, d')"
  show ?thesis
  proof (cases "py_blank requester")
    case True
    with a show ?thesis by (simp add: request_review_def)
  next
    case False
    with a have "connect E dl (Some tenant) (request_review_body E ts tenant run_id requester) d = (r, d')"
      by (simp add: request_review_def)
    then show ?thesis
    proof (rule connect_invariant)
      fix x assume "request_review_body E ts tenant run_id requester d = Inr (x, d')"
      then show "audited E tenant d d'"
        by (auto simp: request_review_body_def tx_Inr workflow_row_def insert_workflow_def
            split: option.splits if_splits) (erule audited_append, simp_all)
    qed simp
  qed
qed

lemma review_run_audited: "review_run E dl ts tenant run_id reviewer decision comment d = (r, d') \<Longrightarrow> audited E tenant d d'"
proof -
  assume a: "review_run E dl ts tenant run_id reviewer decision comment d = (r, d')"
  then consider "d' = d" | "connect E dl (Some tenant)
      (review_body E ts tenant run_id reviewer (py_upper decision) comment) d = (r, d')"
    by (auto simp: review_run_def split: sum.splits)
  then show ?thesis
  proof cases
    case 2
    then show ?thesis
    proof (rule connect_invariant)
      fix x assume "review_body E ts tenant run_id reviewer (py_upper decision) comment d = Inr (x, d')"
      then show "audited E tenant d d'"
        by (auto simp: review_body_def decide_review_def Let_def tx_Inr workflow_row_def
            split: option.splits if_splits intro: audited_append)
    qed simp
  qed simp
qed

lemma ingest_event_audited: "ingest_and_evaluate E dl ts tenant e d = (r, d') \<Longrightarrow> audited E tenant d d'"
proof -
  assume a: "ingest_and_evaluate E dl ts tenant e d = (r, d')"
  then consider "d' = d" | cases where "connect E dl (Some tenant)
      (ingest_event_body E ts tenant e (sha256_json E (event_dict e)) cases) d = (r, d')"
    by (auto simp: ingest_and_evaluate_def Let_def split: sum.splits)
  then show ?thesis
  proof cases
    case 2
    then show ?thesis
    proof (rule connect_invariant)
      fix x assume "ingest_event_body E ts tenant e (sha256_json E (event_dict e)) cases d = Inr (x, d')"
      then show "audited E tenant d d'"
        by (auto simp: ingest_event_body_def tx_Inr insert_control_event_def split: if_splits)
          (erule audited_append, simp_all)
    qed simp
  qed simp
qed

lemma transition_audited: "transition_case E dl ts tenant case_id actor to_status reason d = (r, d') \<Longrightarrow> audited E tenant d d'"
proof -
  assume a: "transition_case E dl ts tenant case_id actor to_status reason d = (r, d')"
  then consider "d' = d" | "connect E dl (Some tenant)
           (bind_tx (query_tx (case_with_event case_id tenant)) (\<lambda>row.
            bind_tx (lift_res (check_transition actor (py_upper to_status) row))
              (apply_transition E ts tenant case_id actor (py_upper to_status) reason))) d = (r, d')"
    by (auto simp: transition_case_def Let_def split: if_splits)
  then show ?thesis
  proof cases
    case 2
    then show ?thesis
    proof (rule connect_invariant)
      fix x assume "bind_tx (query_tx (case_with_event case_id tenant)) (\<lambda>row.
            bind_tx (lift_res (check_transition actor (py_upper to_status) row))
              (apply_transition E ts tenant case_id actor (py_upper to_status) reason)) d = Inr (x, d')"
      then show "audited E tenant d d'"
        by (auto simp: apply_transition_def Let_def tx_Inr split: if_splits) (erule audited_append, simp_all)
    qed simp
  qed simp
qed

lemma add_entities_audited: "add_entities E dl ts tenant xs d = (r, d') \<Longrightarrow> audited E tenant d d'"
  unfolding add_entities_def
proof (erule connect_invariant)
  fix x assume "bind_tx (when_tx (xs \<noteq> []) (upsert_entities dl tenant xs)) (\<lambda>_.
      bind_tx (append_audit_event E ts (lit ''riskgraph'') (lit ''ENTITIES_UPSERTED'') (lit ''batch'')
        (JObj [(lit ''count'', JInt (int (length xs)))]) tenant) (\<lambda>_. return_tx ())) d = Inr (x, d')"
  then show "audited E tenant d d'"
    by (auto simp: tx_Inr upsert_entities_def split: if_splits) (erule audited_append, simp_all)+
qed simp

lemma add_edges_audited: "add_edges E dl ts tenant xs d = (r, d') \<Longrightarrow> audited E tenant d d'"
  unfolding add_edges_def
proof (erule connect_invariant)
  fix x assume "bind_tx (lift_res (map_res (\<lambda>x. money (eg_amount x)) xs)) (\<lambda>amounts.
      bind_tx (update_tx (\<lambda>d. d\<lparr>graph_edges := insert_edges tenant xs amounts (graph_edges d)\<rparr>)) (\<lambda>_.
      bind_tx (append_audit_event E ts (lit ''riskgraph'') (lit ''EDGES_ADDED'') (lit ''batch'')
        (JObj [(lit ''count'', JInt (int (length xs)))]) tenant) (\<lambda>_. return_tx ()))) d = Inr (x, d')"
  then show "audited E tenant d d'"
    by (auto simp: tx_Inr) (erule audited_append, simp_all)
qed simp

lemma add_document_audited:
  "add_document E dl ts tenant key title url published content d = (r, d') \<Longrightarrow> audited E tenant d d'"
  unfolding add_document_def Let_def
  by (erule connect_invariant, simp) (auto simp: tx_Inr, erule audited_append, simp_all)

lemma record_evidence_audited:
  "record_evidence E dl ts tenant run_id payload d = (r, d') \<Longrightarrow> wf_json E payload \<Longrightarrow> audited E tenant d d'"
  unfolding record_evidence_def
  by (erule connect_invariant, simp) (auto intro: audited_append)

lemmas operation_audited = ingest_audited run_rules_audited request_review_audited review_run_audited
  ingest_event_audited transition_audited add_entities_audited add_edges_audited add_document_audited record_evidence_audited

lemma tenant_step_audited: "tenant_step E tenant d d' \<Longrightarrow> audited E tenant d d'"
  by (cases rule: tenant_step.cases) (auto intro: operation_audited)

text \<open>Batches and replays touch the outbox and the dead letters only.\<close>

lemma publish_rows_audit:
  "publish_rows E pub m ts i rows counts d sent = (Inr (counts', d'), sent') \<Longrightarrow>
   d'\<lparr>outbox_events := outbox_events d, dead_letter_events := dead_letter_events d\<rparr> = d"
proof (induction rows arbitrary: ts i counts d sent)
  case (Cons row rows)
  have out: "d'\<lparr>outbox_events := outbox_events d, dead_letter_events := dead_letter_events d\<rparr> = d"
    if "d'\<lparr>outbox_events := outbox_events d1, dead_letter_events := dead_letter_events d1\<rparr> = d1"
      "d1\<lparr>outbox_events := outbox_events d, dead_letter_events := dead_letter_events d\<rparr> = d" for d1
    using arg_cong [OF that(1), of "\<lambda>x. x\<lparr>outbox_events := outbox_events d, dead_letter_events := dead_letter_events d\<rparr>"]
      that(2) by simp
  have f: "d1\<lparr>outbox_events := outbox_events d, dead_letter_events := dead_letter_events d\<rparr> = d"
    if "record_failure m ts row err d = Inr (u, d1)" for err u d1
    using that by (auto simp: record_failure_def tx_Inr insert_dead_letter_def split: if_splits)
  have g: "(mark_published now row d)\<lparr>outbox_events := outbox_events d, dead_letter_events := dead_letter_events d\<rparr> = d" for now
    by (simp add: mark_published_def)
  from Cons.prems show ?case
    by (auto split: sum.splits option.splits intro: out [OF Cons.IH f] out [OF Cons.IH g])
qed simp

lemma publish_batch_frame:
  assumes "publish_batch E pub m ts limit d = (r, d', sent)"
  shows "d'\<lparr>outbox_events := outbox_events d, dead_letter_events := dead_letter_events d\<rparr> = d"
  using assms publish_rows_audit
  by (auto simp: publish_batch_def Let_def split: if_splits prod.splits sum.splits)

lemma replay_frame:
  assumes "replay_dead_letter E dl ts i d = (r, d')"
  shows "d'\<lparr>outbox_events := outbox_events d, dead_letter_events := dead_letter_events d\<rparr> = d"
  using assms unfolding replay_dead_letter_def
  by (rule connect_invariant) (auto simp: tx_Inr split: option.splits)

lemma outbox_only:
  assumes "d'\<lparr>outbox_events := outbox_events d, dead_letter_events := dead_letter_events d\<rparr> = d"
  shows "audit_events d' = audit_events d" "control_events d' = control_events d"
    "control_cases d' = control_cases d" "control_case_transitions d' = control_case_transitions d"
  using arg_cong [OF assms, of audit_events] arg_cong [OF assms, of control_events]
    arg_cong [OF assms, of control_cases] arg_cong [OF assms, of control_case_transitions]
  by simp_all

section \<open>Reachable databases\<close>

text \<open>Operations other than those of the control service leave its tables alone.\<close>

definition same_control :: "db \<Rightarrow> db \<Rightarrow> bool" where
  "same_control d d' \<longleftrightarrow> control_events d' = control_events d \<and> control_cases d' = control_cases d
     \<and> control_case_transitions d' = control_case_transitions d"

lemma same_control_refl [simp]: "same_control d d"
  by (simp add: same_control_def)

lemma same_control_upd [simp]:
  "same_control d (d1\<lparr>audit_events := x0\<rparr>) = same_control d d1"
  "same_control d (d1\<lparr>tax_transactions := x1\<rparr>) = same_control d d1"
  "same_control d (d1\<lparr>tax_rule_runs := x2\<rparr>) = same_control d d1"
  "same_control d (d1\<lparr>tax_findings := x3\<rparr>) = same_control d d1"
  "same_control d (d1\<lparr>tax_run_workflows := x4\<rparr>) = same_control d d1"
  "same_control d (d1\<lparr>graph_entities := x5\<rparr>) = same_control d d1"
  "same_control d (d1\<lparr>graph_edges := x6\<rparr>) = same_control d d1"
  "same_control d (d1\<lparr>idempotency_records := x7\<rparr>) = same_control d d1"
  "same_control d (d1\<lparr>outbox_events := x8\<rparr>) = same_control d d1"
  "same_control d (d1\<lparr>regulation_documents := x9\<rparr>) = same_control d d1"
  by (simp_all add: same_control_def)

lemma same_control_ok:
  assumes "same_control d d'" "cases_ok d \<and> closers_ok d \<and> events_ok d"
  shows "cases_ok d' \<and> closers_ok d' \<and> events_ok d'"
  using assms cases_ok_cong [of d' d] closers_ok_cong [of d' d] events_ok_cong [of d' d]
  by (simp add: same_control_def)

lemma append_same_control:
  "append_audit_event E ts m et i p t d1 = Inr (h, d2) \<Longrightarrow> same_control d d1 \<Longrightarrow> same_control d d2"
  by (simp add: same_control_def append_audit_event_control)

lemma store_same_control:
  "store_idempotent_response ts t op key h v d1 = Inr (u, d2) \<Longrightarrow> same_control d d1 \<Longrightarrow> same_control d d2"
  by (auto simp: same_control_def dest: store_keeps_db)

lemma findings_same_control:
  "store_findings t run_id now found n d1 = Inr (u, d2) \<Longrightarrow> same_control d d1 \<Longrightarrow> same_control d d2"
  by (auto simp: same_control_def dest!: store_findings_frame)

lemma run_same_control:
  "insert_rule_run run_id t v p now d1 = Inr (u, d2) \<Longrightarrow> same_control d d1 \<Longrightarrow> same_control d d2"
  by (auto simp: same_control_def dest!: insert_rule_run_frame)

lemmas same_control_intros = append_same_control store_same_control findings_same_control run_same_control

lemma ingest_same_control: "ingest E dl ts uid tenant rows key d = (r, d') \<Longrightarrow> same_control d d'"
  unfolding ingest_def
  by (erule connect_invariant, simp)
     (auto simp: ingest_body_def tx_Inr split: if_splits elim!: same_control_intros)

lemma run_rules_same_control: "run_rules E dl ts run_id tenant version pack key d = (r, d') \<Longrightarrow> same_control d d'"
proof -
  assume "run_rules E dl ts run_id tenant version pack key d = (r, d')"
  then consider "d' = d" | ver where
    "connect E dl (Some tenant) (run_rules_body E ts run_id tenant ver (chosen_pack pack) key) d = (r, d')"
    by (auto simp: run_rules_def Let_def split: sum.splits)
  then show ?thesis
    by cases (simp, erule connect_invariant, simp,
      auto simp: run_rules_body_def Let_def tx_Inr split: if_splits elim!: same_control_intros)
qed

lemma request_review_same_control: "request_review E dl ts tenant run_id requester d = (r, d') \<Longrightarrow> same_control d d'"
  unfolding request_review_def
  by (auto split: if_splits elim!: connect_invariant)
     (auto simp: request_review_body_def tx_Inr workflow_row_def insert_workflow_def
        split: option.splits if_splits elim!: same_control_intros)

lemma review_run_same_control:
  "review_run E dl ts tenant run_id reviewer decision comment d = (r, d') \<Longrightarrow> same_control d d'"
  unfolding review_run_def
  by (auto split: sum.splits elim!: connect_invariant)
     (auto simp: review_body_def decide_review_def Let_def tx_Inr workflow_row_def
        split: option.splits if_splits elim!: same_control_intros)

lemma add_entities_same_control: "add_entities E dl ts tenant xs d = (r, d') \<Longrightarrow> same_control d d'"
  unfolding add_entities_def
  by (erule connect_invariant, simp)
     (auto simp: tx_Inr upsert_entities_def split: if_splits elim!: same_control_intros)

lemma add_edges_same_control: "add_edges E dl ts tenant xs d = (r, d') \<Longrightarrow> same_control d d'"
  unfolding add_edges_def
  by (erule connect_invariant, simp) (auto simp: tx_Inr elim!: same_control_intros)

lemma add_document_same_control:
  "add_document E dl ts tenant key title url published content d = (r, d') \<Longrightarrow> same_control d d'"
  unfolding add_document_def Let_def
  by (erule connect_invariant, simp) (auto simp: tx_Inr elim!: same_control_intros)

lemma record_evidence_same_control:
  "record_evidence E dl ts tenant run_id payload d = (r, d') \<Longrightarrow> same_control d d'"
  unfolding record_evidence_def
  by (erule connect_invariant, simp) (auto elim!: same_control_intros)

lemmas operation_same_control = ingest_same_control run_rules_same_control request_review_same_control
  review_run_same_control add_entities_same_control add_edges_same_control
  add_document_same_control record_evidence_same_control

definition control_ok :: "db \<Rightarrow> bool" where
  "control_ok d \<longleftrightarrow> cases_ok d \<and> closers_ok d \<and> events_ok d"

lemma ingest_event_control_ok:
  assumes "ingest_and_evaluate E dl ts tenant e d = (r, d')" "control_ok d"
  shows "control_ok d'"
proof (cases r)
  case (Inl err)
  with assms(1) have "d' = d"
    by (auto simp: ingest_and_evaluate_def Let_def split: sum.splits dest: connect_abort)
  with assms(2) show ?thesis by simp
next
  case (Inr out)
  with assms(1) have "ingest_and_evaluate E dl ts tenant e d = (Inr out, d')" by simp
  then obtain cases where "ingest_event_body E ts tenant e (sha256_json E (event_dict e)) cases d = Inr (out, d')"
    by (rule ingest_event_commit)
  with assms(2) show ?thesis
    by (auto simp: control_ok_def intro: ingest_event_cases_ok ingest_event_closers_ok ingest_event_events_ok)
qed

lemma transition_control_ok:
  assumes "transition_case E dl ts tenant case_id actor to_status reason d = (r, d')" "control_ok d"
  shows "control_ok d'"
proof (cases r)
  case (Inl err)
  with assms(1) have "d' = d"
    by (auto simp: transition_case_def Let_def split: if_splits dest: connect_abort)
  with assms(2) show ?thesis by simp
next
  case (Inr rep)
  with assms show ?thesis
    by (auto simp: control_ok_def intro: transition_cases_ok transition_closers_ok transition_events_ok)
qed

lemma tenant_step_control_ok: "tenant_step E tenant d d' \<Longrightarrow> control_ok d \<Longrightarrow> control_ok d'"
  by (cases rule: tenant_step.cases)
    (auto simp: control_ok_def dest: operation_same_control [THEN same_control_ok]
      dest: ingest_event_control_ok [unfolded control_ok_def] transition_control_ok [unfolded control_ok_def])

lemma system_step_ok:
  assumes "system_step E d d'" "env_law E" "audit_ok E d \<and> control_ok d"
  shows "audit_ok E d' \<and> control_ok d'"
  using assms(1)
proof (cases rule: system_step.cases)
  case (tenant tenant)
  with assms(2,3) show ?thesis
    using audited_ok [OF tenant_step_audited] tenant_step_control_ok by blast
next
  case (batch pub m ts limit r sent)
  note o = outbox_only [OF publish_batch_frame [OF batch]]
  from o have "same_control d d'" by (simp add: same_control_def)
  with assms(3) o(1) show ?thesis
    using audit_ok_cong [of d' d E] same_control_ok [of d d'] by (simp add: control_ok_def)
next
  case (replay dl ts i r)
  note o = outbox_only [OF replay_frame [OF replay]]
  from o have "same_control d d'" by (simp add: same_control_def)
  with assms(3) o(1) show ?thesis
    using audit_ok_cong [of d' d E] same_control_ok [of d d'] by (simp add: control_ok_def)
qed

lemma reachable_ok:
  assumes "reachable E d" "env_law E"
  shows "audit_ok E d \<and> control_ok d"
  using assms(1) unfolding reachable_def
  by (induction rule: rtranclp_induct) (auto simp: control_ok_def dest: system_step_ok [unfolded control_ok_def, OF _ assms(2)])

end
