(* ===== verification/Tenancy.thy ===== *)
theory Tenancy
  imports System
begin

text \<open>
  Tenant isolation: the rows of a tenant, in every table, are unchanged by every operation of
  another tenant, and what a tenant reads depends on its own rows only.  The last section orders
  the transitions of reachable databases, so that \<open>case_history\<close> returns a case's path.
\<close>

section \<open>Tenants\<close>

text \<open>The rows of one tenant, in every table.\<close>

definition rows_of :: "pystr \<Rightarrow> db \<Rightarrow> db" where
  "rows_of u d = \<lparr>audit_events = filter (\<lambda>r. ae_tenant r = u) (audit_events d),
     tax_transactions = filter (\<lambda>r. tx_tenant r = u) (tax_transactions d),
     tax_rule_runs = filter (\<lambda>r. tr_tenant r = u) (tax_rule_runs d),
     tax_findings = filter (\<lambda>r. tf_tenant r = u) (tax_findings d),
     tax_run_workflows = filter (\<lambda>r. rw_tenant r = u) (tax_run_workflows d),
     regulation_documents = filter (\<lambda>r. rd_tenant r = u) (regulation_documents d),
     control_events = filter (\<lambda>r. ce_tenant r = u) (control_events d),
     control_cases = filter (\<lambda>r. cc_tenant r = u) (control_cases d),
     control_case_transitions = filter (\<lambda>r. ct_tenant r = u) (control_case_transitions d),
     graph_entities = filter (\<lambda>r. ge_tenant r = u) (graph_entities d),
     graph_edges = filter (\<lambda>r. gx_tenant r = u) (graph_edges d),
     idempotency_records = filter (\<lambda>r. ir_tenant r = u) (idempotency_records d),
     outbox_events = filter (\<lambda>r. ox_tenant r = u) (outbox_events d),
     dead_letter_events = filter (\<lambda>r. dl_tenant r = u) (dead_letter_events d),
     consumer_receipts = filter (\<lambda>r. cr_tenant r = u) (consumer_receipts d)\<rparr>"

text \<open>An insertion of another tenant's rows, and an update of them, does not show.\<close>

lemma filter_append_other: "(\<And>r. r \<in> set ys \<Longrightarrow> \<not> q r) \<Longrightarrow> filter q (xs @ ys) = filter q xs"
  by simp

lemma filter_update_other:
  "(\<And>r. r \<in> set rows \<Longrightarrow> p r \<Longrightarrow> \<not> q r \<and> \<not> q (f r)) \<Longrightarrow> filter q (update_rows p f rows) = filter q rows"
  by (induction rows) (auto simp: update_rows_def)

lemma rows_of_updates [simp]:
  "filter (\<lambda>r. ae_tenant r = u) x0 = filter (\<lambda>r. ae_tenant r = u) (audit_events d) \<Longrightarrow>
     rows_of u (d\<lparr>audit_events := x0\<rparr>) = rows_of u d"
  "filter (\<lambda>r. tx_tenant r = u) x1 = filter (\<lambda>r. tx_tenant r = u) (tax_transactions d) \<Longrightarrow>
     rows_of u (d\<lparr>tax_transactions := x1\<rparr>) = rows_of u d"
  "filter (\<lambda>r. tr_tenant r = u) x2 = filter (\<lambda>r. tr_tenant r = u) (tax_rule_runs d) \<Longrightarrow>
     rows_of u (d\<lparr>tax_rule_runs := x2\<rparr>) = rows_of u d"
  "filter (\<lambda>r. tf_tenant r = u) x3 = filter (\<lambda>r. tf_tenant r = u) (tax_findings d) \<Longrightarrow>
     rows_of u (d\<lparr>tax_findings := x3\<rparr>) = rows_of u d"
  "filter (\<lambda>r. rw_tenant r = u) x4 = filter (\<lambda>r. rw_tenant r = u) (tax_run_workflows d) \<Longrightarrow>
     rows_of u (d\<lparr>tax_run_workflows := x4\<rparr>) = rows_of u d"
  "filter (\<lambda>r. ce_tenant r = u) x5 = filter (\<lambda>r. ce_tenant r = u) (control_events d) \<Longrightarrow>
     rows_of u (d\<lparr>control_events := x5\<rparr>) = rows_of u d"
  "filter (\<lambda>r. cc_tenant r = u) x6 = filter (\<lambda>r. cc_tenant r = u) (control_cases d) \<Longrightarrow>
     rows_of u (d\<lparr>control_cases := x6\<rparr>) = rows_of u d"
  "filter (\<lambda>r. ct_tenant r = u) x7 = filter (\<lambda>r. ct_tenant r = u) (control_case_transitions d) \<Longrightarrow>
     rows_of u (d\<lparr>control_case_transitions := x7\<rparr>) = rows_of u d"
  "filter (\<lambda>r. ge_tenant r = u) x8 = filter (\<lambda>r. ge_tenant r = u) (graph_entities d) \<Longrightarrow>
     rows_of u (d\<lparr>graph_entities := x8\<rparr>) = rows_of u d"
  "filter (\<lambda>r. gx_tenant r = u) x9 = filter (\<lambda>r. gx_tenant r = u) (graph_edges d) \<Longrightarrow>
     rows_of u (d\<lparr>graph_edges := x9\<rparr>) = rows_of u d"
  "filter (\<lambda>r. ir_tenant r = u) x10 = filter (\<lambda>r. ir_tenant r = u) (idempotency_records d) \<Longrightarrow>
     rows_of u (d\<lparr>idempotency_records := x10\<rparr>) = rows_of u d"
  "filter (\<lambda>r. ox_tenant r = u) x11 = filter (\<lambda>r. ox_tenant r = u) (outbox_events d) \<Longrightarrow>
     rows_of u (d\<lparr>outbox_events := x11\<rparr>) = rows_of u d"
  "filter (\<lambda>r. rd_tenant r = u) x12 = filter (\<lambda>r. rd_tenant r = u) (regulation_documents d) \<Longrightarrow>
     rows_of u (d\<lparr>regulation_documents := x12\<rparr>) = rows_of u d"
  by (simp_all add: rows_of_def)

text \<open>What the shared building blocks do to another tenant's rows.\<close>

lemma append_rows_of:
  assumes "append_audit_event E ts m et i p t d = Inr (h, d')" "u \<noteq> t"
  shows "rows_of u d' = rows_of u d"
  using assms(1)
proof (rule append_audit_event_cases)
  fix ev
  assume d': "d' = d\<lparr>audit_events := audit_events d @ [audit_row E ts m et i p t d],
    outbox_events := outbox_events d @ [ev]\<rparr>" and ev: "ox_tenant ev = t"
  have "ae_tenant (audit_row E ts m et i p t d) = t" by (simp add: audit_row_def)
  with ev assms(2) show ?thesis unfolding d' by (subst rows_of_updates; simp)
qed

lemma store_rows_of:
  assumes "store_idempotent_response ts t op key h v d = Inr (x, d')" "u \<noteq> t"
  shows "rows_of u d' = rows_of u d"
  using assms by (auto simp: store_idempotent_response_def split: option.splits if_splits)

lemma insert_findings_append:
  "insert_findings t run_id found rows = Inr rows' \<Longrightarrow> \<exists>new. rows' = rows @ new \<and> (\<forall>r \<in> set new. tf_tenant r = t)"
proof (induction found arbitrary: rows)
  case (Cons f found)
  from Cons.prems show ?case by (auto simp: bind_res_Inr dest!: Cons.IH)
qed simp

lemma insert_transactions_append:
  "\<exists>new. insert_transactions E t now xs rows = rows @ new \<and> (\<forall>r \<in> set new. tx_tenant r = t)"
proof (induction xs arbitrary: rows)
  case (Cons x xs)
  have "tx_tenant (transaction_row E t now i x) = t" for i by (simp add: transaction_row_def)
  with Cons.IH [of "rows @ [transaction_row E t now (fresh_id (map tx_id rows)) x]"] show ?case by force
qed simp

lemma insert_edges_append:
  "\<exists>new. insert_edges t xs amounts rows = rows @ new \<and> (\<forall>r \<in> set new. gx_tenant r = t)"
proof (induction t xs amounts rows rule: insert_edges.induct)
  case (1 tenant x xs a amounts rows)
  then show ?case by force
qed auto

lemma filter_upsert_other:
  "u \<noteq> t \<Longrightarrow> filter (\<lambda>r. ge_tenant r = u) (upsert_entity t x rows) = filter (\<lambda>r. ge_tenant r = u) rows"
  by (auto simp: upsert_entity_def is_entity_def intro!: filter_update_other)

lemma filter_upserts_other:
  "u \<noteq> t \<Longrightarrow> filter (\<lambda>r. ge_tenant r = u) (fold (upsert_entity t) xs rows) = filter (\<lambda>r. ge_tenant r = u) rows"
  by (induction xs arbitrary: rows) (simp_all add: filter_upsert_other)

text \<open>Each operation keeps the rows of every other tenant.\<close>

lemma ingest_rows_of: "ingest E dl ts uid t rows key d = (r, d') \<Longrightarrow> u \<noteq> t \<Longrightarrow> rows_of u d' = rows_of u d"
  unfolding ingest_def
proof (erule connect_invariant)
  fix x assume b: "ingest_body E ts uid t rows key d = Inr (x, d')" and u: "u \<noteq> t"
  obtain new where new: "insert_transactions E t (ts 0) rows (tax_transactions d) = tax_transactions d @ new"
      "\<forall>r \<in> set new. tx_tenant r = t"
    using insert_transactions_append by blast
  have "rows_of u (d\<lparr>tax_transactions := tax_transactions d @ new\<rparr>) = rows_of u d"
    using new(2) u by (subst rows_of_updates) auto
  with b u new(1) show "rows_of u d' = rows_of u d"
    by (auto simp: ingest_body_def tx_Inr split: if_splits dest!: append_rows_of store_rows_of)
qed simp

lemma insert_run_rows_of:
  assumes "insert_rule_run run_id t v p now d = Inr (x, d')" "u \<noteq> t"
  shows "rows_of u d' = rows_of u d" "\<forall>r \<in> set (tax_rule_runs d'). tr_run_id r = run_id \<longrightarrow> tr_tenant r = t"
proof -
  from assms(1) obtain run where run: "d' = d\<lparr>tax_rule_runs := tax_rule_runs d @ [run]\<rparr>" "tr_tenant run = t"
    and fresh: "\<forall>r \<in> set (tax_rule_runs d). tr_run_id r \<noteq> run_id"
    by (auto simp: insert_rule_run_def split: if_splits)
  from run assms(2) show "rows_of u d' = rows_of u d" by simp
  from run fresh show "\<forall>r \<in> set (tax_rule_runs d'). tr_run_id r = run_id \<longrightarrow> tr_tenant r = t" by auto
qed

lemma store_findings_rows_of:
  assumes "store_findings t run_id now found n d = Inr (x, d')" "u \<noteq> t"
    and "\<forall>r \<in> set (tax_rule_runs d). tr_run_id r = run_id \<longrightarrow> tr_tenant r = t"
  shows "rows_of u d' = rows_of u d"
proof -
  from assms(1) obtain rows where rows: "insert_findings t run_id found (tax_findings d) = Inr rows"
    and d': "d' = d\<lparr>tax_findings := rows, tax_rule_runs := update_rows (\<lambda>r. tr_run_id r = run_id)
           (\<lambda>r. r\<lparr>tr_completed_at := Some now, tr_transaction_count := n,
                  tr_finding_count := int (length found)\<rparr>) (tax_rule_runs d)\<rparr>"
    by (auto simp: store_findings_def bind_res_Inr)
  from insert_findings_append [OF rows] assms(2)
  have "filter (\<lambda>r. tf_tenant r = u) rows = filter (\<lambda>r. tf_tenant r = u) (tax_findings d)" by auto
  then show ?thesis unfolding d' using assms(2,3)
    by (subst rows_of_updates) (auto intro!: filter_update_other)
qed

lemma run_store_rows_of:
  "insert_rule_run run_id t v p now d = Inr (x, d1) \<Longrightarrow> store_findings t run_id now' found n d1 = Inr (y, d2) \<Longrightarrow>
   u \<noteq> t \<Longrightarrow> rows_of u d2 = rows_of u d"
  using insert_run_rows_of store_findings_rows_of by metis

lemma run_rules_rows_of:
  assumes "run_rules E dl ts run_id t version pack key d = (r, d')" "u \<noteq> t"
  shows "rows_of u d' = rows_of u d"
proof -
  from assms(1) consider "d' = d" | ver where
    "connect E dl (Some t) (run_rules_body E ts run_id t ver (chosen_pack pack) key) d = (r, d')"
    by (auto simp: run_rules_def Let_def split: sum.splits)
  then show ?thesis
  proof cases
    case 2
    then show ?thesis
    proof (rule connect_invariant)
      fix x assume "run_rules_body E ts run_id t ver (chosen_pack pack) key d = Inr (x, d')"
      with assms(2) show "rows_of u d' = rows_of u d"
        by (auto simp: run_rules_body_def Let_def tx_Inr split: if_splits
          dest!: append_rows_of store_rows_of dest: run_store_rows_of)
    qed simp
  qed simp
qed

lemma request_review_rows_of:
  assumes "request_review E dl ts t run_id requester d = (r, d')" "u \<noteq> t"
  shows "rows_of u d' = rows_of u d"
proof (cases "py_blank requester")
  case False
  with assms(1) have "connect E dl (Some t) (request_review_body E ts t run_id requester) d = (r, d')"
    by (simp add: request_review_def)
  then show ?thesis
  proof (rule connect_invariant)
    fix x assume "request_review_body E ts t run_id requester d = Inr (x, d')"
    with assms(2) show "rows_of u d' = rows_of u d"
      by (auto simp: request_review_body_def tx_Inr workflow_row_def insert_workflow_def
          split: option.splits if_splits dest!: append_rows_of)
  qed simp
qed (use assms(1) in \<open>simp add: request_review_def\<close>)

lemma review_run_rows_of:
  assumes "review_run E dl ts t run_id reviewer decision comment d = (r, d')" "u \<noteq> t"
  shows "rows_of u d' = rows_of u d"
proof -
  from assms(1) consider "d' = d" | "connect E dl (Some t)
      (review_body E ts t run_id reviewer (py_upper decision) comment) d = (r, d')"
    by (auto simp: review_run_def split: sum.splits)
  then show ?thesis
  proof cases
    case 2
    then show ?thesis
    proof (rule connect_invariant)
      fix x assume "review_body E ts t run_id reviewer (py_upper decision) comment d = Inr (x, d')"
      with assms(2) show "rows_of u d' = rows_of u d"
        by (auto simp: review_body_def decide_review_def Let_def tx_Inr workflow_row_def is_workflow_def
            split: option.splits if_splits dest!: append_rows_of) (subst rows_of_updates, auto intro!: filter_update_other)
    qed simp
  qed simp
qed

lemma ingest_event_rows_of:
  assumes "ingest_and_evaluate E dl ts t e d = (r, d')" "u \<noteq> t"
  shows "rows_of u d' = rows_of u d"
proof (cases r)
  case (Inl err)
  with assms(1) have "d' = d"
    by (auto simp: ingest_and_evaluate_def Let_def split: sum.splits dest: connect_abort)
  then show ?thesis by simp
next
  case (Inr out)
  with assms(1) have "ingest_and_evaluate E dl ts t e d = (Inr out, d')" by simp
  then obtain cases where "ingest_event_body E ts t e (sha256_json E (event_dict e)) cases d = Inr (out, d')"
    by (rule ingest_event_commit)
  then show ?thesis
  proof (cases rule: ingest_event_body_cases)
    case (new d1 row h)
    obtain cs where cs: "insert_cases t (ev_event_id e) (sha256_json E (event_dict e)) cases (control_cases d) = control_cases d @ cs"
      "\<forall>c \<in> set cs. cc_tenant c = t"
      using insert_cases_append [of t "ev_event_id e" "sha256_json E (event_dict e)" cases "control_cases d"] by auto
    have "rows_of u d1 = rows_of u d"
      unfolding new(4) cs(1) using cs(2) new(2) assms(2)
      by (auto simp: is_event_def filter_empty_conv rows_of_def)
    with append_rows_of [OF new(5) assms(2)] show ?thesis by simp
  qed simp
qed

lemma transition_rows_of:
  assumes "transition_case E dl ts t case_id actor to_status reason d = (r, d')" "u \<noteq> t"
  shows "rows_of u d' = rows_of u d"
proof -
  from assms(1) consider "d' = d" | "connect E dl (Some t)
           (bind_tx (query_tx (case_with_event case_id t)) (\<lambda>row.
            bind_tx (lift_res (check_transition actor (py_upper to_status) row))
              (apply_transition E ts t case_id actor (py_upper to_status) reason))) d = (r, d')"
    by (auto simp: transition_case_def Let_def split: if_splits)
  then show ?thesis
  proof cases
    case 2
    then show ?thesis
    proof (rule connect_invariant)
      fix x assume "bind_tx (query_tx (case_with_event case_id t)) (\<lambda>row.
            bind_tx (lift_res (check_transition actor (py_upper to_status) row))
              (apply_transition E ts t case_id actor (py_upper to_status) reason)) d = Inr (x, d')"
      with assms(2) show "rows_of u d' = rows_of u d"
        by (auto simp: apply_transition_def Let_def tx_Inr is_case_def split: if_splits dest!: append_rows_of)
          (auto simp: rows_of_def intro!: filter_update_other)
    qed simp
  qed simp
qed

lemma add_entities_rows_of:
  "add_entities E dl ts t xs d = (r, d') \<Longrightarrow> u \<noteq> t \<Longrightarrow> rows_of u d' = rows_of u d"
  unfolding add_entities_def
  by (erule connect_invariant, simp)
     (auto simp: tx_Inr upsert_entities_def filter_upserts_other split: if_splits dest!: append_rows_of)

lemma add_edges_rows_of:
  "add_edges E dl ts t xs d = (r, d') \<Longrightarrow> u \<noteq> t \<Longrightarrow> rows_of u d' = rows_of u d"
  unfolding add_edges_def
proof (erule connect_invariant)
  fix x assume b: "bind_tx (lift_res (map_res (\<lambda>x. money (eg_amount x)) xs)) (\<lambda>amounts.
      bind_tx (update_tx (\<lambda>d. d\<lparr>graph_edges := insert_edges t xs amounts (graph_edges d)\<rparr>)) (\<lambda>_.
      bind_tx (append_audit_event E ts (lit ''riskgraph'') (lit ''EDGES_ADDED'') (lit ''batch'')
        (JObj [(lit ''count'', JInt (int (length xs)))]) t) (\<lambda>_. return_tx ()))) d = Inr (x, d')" and u: "u \<noteq> t"
  have "rows_of u (d\<lparr>graph_edges := insert_edges t xs amounts (graph_edges d)\<rparr>) = rows_of u d" for amounts
    using insert_edges_append [of t xs amounts "graph_edges d"] u by (subst rows_of_updates) auto
  with b u show "rows_of u d' = rows_of u d"
    by (auto simp: tx_Inr dest!: append_rows_of)
qed simp

lemma add_document_rows_of:
  "add_document E dl ts t key title url published content d = (r, d') \<Longrightarrow> u \<noteq> t \<Longrightarrow> rows_of u d' = rows_of u d"
  unfolding add_document_def Let_def
  by (erule connect_invariant, simp) (auto simp: tx_Inr insert_document_def dest!: append_rows_of)

lemma record_evidence_rows_of:
  "record_evidence E dl ts t run_id payload d = (r, d') \<Longrightarrow> u \<noteq> t \<Longrightarrow> rows_of u d' = rows_of u d"
  unfolding record_evidence_def by (erule connect_invariant) (auto dest: append_rows_of)

lemmas operation_rows_of = ingest_rows_of run_rules_rows_of request_review_rows_of review_run_rows_of
  ingest_event_rows_of transition_rows_of add_entities_rows_of add_edges_rows_of
  add_document_rows_of record_evidence_rows_of

lemma tenant_step_rows_of: "tenant_step E t d d' \<Longrightarrow> u \<noteq> t \<Longrightarrow> rows_of u d' = rows_of u d"
  by (cases rule: tenant_step.cases) (auto dest: operation_rows_of)

section \<open>What a tenant reads\<close>

lemma read_congs:
  assumes "filter q rows' = filter q rows"
  shows "select_rows key q rows' = select_rows key q rows"
    "select_rows key (\<lambda>r. q r \<and> p r) rows' = select_rows key (\<lambda>r. q r \<and> p r) rows"
    "select_rows key (\<lambda>r. p r \<and> q r) rows' = select_rows key (\<lambda>r. p r \<and> q r) rows"
    "find_row (\<lambda>r. p r \<and> q r) rows' = find_row (\<lambda>r. p r \<and> q r) rows"
proof -
  have f: "filter (\<lambda>r. q r \<and> p r) xs = filter p (filter q xs)" "filter (\<lambda>r. p r \<and> q r) xs = filter p (filter q xs)" for xs
    by (simp_all add: conj_commute)
  have "find_row (\<lambda>r. p r \<and> q r) xs = find_row p (filter q xs)" for xs
    by (induction xs) (auto simp: find_row_Cons)
  then show "find_row (\<lambda>r. p r \<and> q r) rows' = find_row (\<lambda>r. p r \<and> q r) rows" by (simp add: assms)
  show "select_rows key q rows' = select_rows key q rows"
    "select_rows key (\<lambda>r. q r \<and> p r) rows' = select_rows key (\<lambda>r. q r \<and> p r) rows"
    "select_rows key (\<lambda>r. p r \<and> q r) rows' = select_rows key (\<lambda>r. p r \<and> q r) rows"
    unfolding select_rows_def f assms by simp_all
qed

lemma rows_of_tables:
  assumes "rows_of u d' = rows_of u d"
  shows "filter (\<lambda>r. ae_tenant r = u) (audit_events d') = filter (\<lambda>r. ae_tenant r = u) (audit_events d)"
    "filter (\<lambda>r. cc_tenant r = u) (control_cases d') = filter (\<lambda>r. cc_tenant r = u) (control_cases d)"
    "filter (\<lambda>r. ct_tenant r = u) (control_case_transitions d') = filter (\<lambda>r. ct_tenant r = u) (control_case_transitions d)"
    "filter (\<lambda>r. rw_tenant r = u) (tax_run_workflows d') = filter (\<lambda>r. rw_tenant r = u) (tax_run_workflows d)"
    "filter (\<lambda>r. tf_tenant r = u) (tax_findings d') = filter (\<lambda>r. tf_tenant r = u) (tax_findings d)"
    "filter (\<lambda>r. ge_tenant r = u) (graph_entities d') = filter (\<lambda>r. ge_tenant r = u) (graph_entities d)"
    "filter (\<lambda>r. gx_tenant r = u) (graph_edges d') = filter (\<lambda>r. gx_tenant r = u) (graph_edges d)"
  using assms by (simp_all add: rows_of_def)

text \<open>The read operations of a tenant depend on its own rows only.\<close>

lemma rows_of_reads:
  assumes "rows_of u d' = rows_of u d"
  shows "verify_audit_chain E u d' = verify_audit_chain E u d"
    "fst (open_cases E dl u d') = fst (open_cases E dl u d)"
    "fst (case_history E dl u case_id d') = fst (case_history E dl u case_id d)"
    "fst (workflow E dl u run_id d') = fst (workflow E dl u run_id d)"
    "fst (findings E dl u run_id d') = fst (findings E dl u run_id d)"
    "fst (investigate E dl u d') = fst (investigate E dl u d)"
proof -
  note t = rows_of_tables [OF assms]
  note r = t [THEN read_congs(1)] t [THEN read_congs(2)] t [THEN read_congs(3)] t [THEN read_congs(4)]
  show "verify_audit_chain E u d' = verify_audit_chain E u d"
    unfolding verify_audit_chain_def audit_rows_def r ..
  show "fst (open_cases E dl u d') = fst (open_cases E dl u d)"
    unfolding open_cases_def connect_eq query_tx_def r by simp
  show "fst (case_history E dl u case_id d') = fst (case_history E dl u case_id d)"
    unfolding case_history_def connect_eq query_tx_def r by simp
  show "fst (workflow E dl u run_id d') = fst (workflow E dl u run_id d)"
    unfolding workflow_def connect_eq query_tx_def is_workflow_def r by simp
  show "fst (findings E dl u run_id d') = fst (findings E dl u run_id d)"
    unfolding findings_def connect_eq query_tx_def r by simp
  have "live_edges u d' = live_edges u d" unfolding live_edges_def t ..
  then show "fst (investigate E dl u d') = fst (investigate E dl u d)"
    by (simp add: investigate_def connect_eq)
qed

section \<open>The order of transitions\<close>

definition transitions_sorted :: "db \<Rightarrow> bool" where
  "transitions_sorted d \<longleftrightarrow> sorted_wrt (<) (map ct_id (control_case_transitions d))"

lemma transitions_sorted_cong:
  "control_case_transitions d' = control_case_transitions d \<Longrightarrow> transitions_sorted d' = transitions_sorted d"
  by (simp add: transitions_sorted_def)

lemma transition_transitions_sorted:
  assumes "transition_case E dl ts t case_id actor to_status reason d = (r, d')" "control_ok d" "transitions_sorted d"
  shows "transitions_sorted d'"
proof (cases r)
  case (Inl err)
  with assms(1) have "d' = d"
    by (auto simp: transition_case_def Let_def split: if_splits dest: connect_abort)
  with assms(3) show ?thesis by simp
next
  case (Inr rep)
  with assms(1) have t: "transition_case E dl ts t case_id actor to_status reason d = (Inr rep, d')" by simp
  from assms(2) have "distinct (map cc_id (control_cases d))" by (simp add: control_ok_def cases_ok_def)
  from transition_commit [OF t this] obtain x where
    "control_case_transitions d' = control_case_transitions d @ [x]"
    "ct_id x = fresh_id (map ct_id (control_case_transitions d))" by metis
  with assms(3) sorted_wrt_snoc_fresh [of "map ct_id (control_case_transitions d)"]
  show ?thesis by (simp add: transitions_sorted_def)
qed

lemma ingest_event_transitions:
  assumes "ingest_and_evaluate E dl ts t e d = (r, d')"
  shows "control_case_transitions d' = control_case_transitions d"
proof (cases r)
  case (Inl err)
  with assms have "d' = d"
    by (auto simp: ingest_and_evaluate_def Let_def split: sum.splits dest: connect_abort)
  then show ?thesis by simp
next
  case (Inr out)
  with assms have "ingest_and_evaluate E dl ts t e d = (Inr out, d')" by simp
  then obtain cases where "ingest_event_body E ts t e (sha256_json E (event_dict e)) cases d = Inr (out, d')"
    by (rule ingest_event_commit)
  then show ?thesis
    by (cases rule: ingest_event_body_cases) (auto simp: append_audit_event_control)
qed

lemma system_step_transitions_sorted:
  assumes "system_step E d d'" "control_ok d" "transitions_sorted d"
  shows "transitions_sorted d'"
  using assms(1)
proof (cases rule: system_step.cases)
  case (tenant t)
  have keep: "same_control d d' \<Longrightarrow> transitions_sorted d'"
    using assms(3) transitions_sorted_cong [of d' d] by (simp add: same_control_def)
  from tenant show ?thesis
    by (cases rule: tenant_step.cases)
      (use assms(2,3) transitions_sorted_cong [of d' d] in
        \<open>auto intro: keep operation_same_control transition_transitions_sorted dest: ingest_event_transitions\<close>)
next
  case (batch pub m ts limit r sent)
  from outbox_only [OF publish_batch_frame [OF batch]] assms(3) show ?thesis
    using transitions_sorted_cong [of d' d] by simp
next
  case (replay dl ts i r)
  from outbox_only [OF replay_frame [OF replay]] assms(3) show ?thesis
    using transitions_sorted_cong [of d' d] by simp
qed

lemma reachable_sorted:
  assumes "reachable E d" "env_law E"
  shows "transitions_sorted d"
  using assms(1) unfolding reachable_def
proof (induction rule: rtranclp_induct)
  case base
  show ?case by (simp add: transitions_sorted_def empty_db_def)
next
  case (step d1 d2)
  from step(1) have "reachable E d1" by (simp add: reachable_def)
  with reachable_ok [OF _ assms(2)] have "control_ok d1" by blast
  with step(2,3) show ?case using system_step_transitions_sorted by blast
qed

lemma case_history_reachable:
  assumes "reachable E d" "env_law E" "c \<in> set (control_cases d)" "dl \<noteq> Postgres \<or> tenant_accepted E (cc_tenant c)"
  shows "case_history E dl (cc_tenant c) (cc_id c) d = (Inr (history d c), d)"
  using reachable_sorted [OF assms(1,2)] assms(4)
  by (auto simp: case_history_def connect_eq history_def transitions_sorted_def select_rows_sorted)

end
