(* ===== verification/Auth.thy ===== *)
theory Auth
  imports Core Py_Bytes Authorization
begin

text \<open>
  \<^verbatim>\<open>auth.py\<close>: issuing tokens, verifying them with the shared secret or with the keys of an OIDC
  provider, and the dependency that answers a request without a valid token or role.  PyJWT is a
  parameter, with what it documents about encoding and decoding as a law.
\<close>

section \<open>Tokens\<close>

text \<open>
  PyJWT: \<^verbatim>\<open>jwt.encode(payload, key, algorithm)\<close>, and \<^verbatim>\<open>jwt.decode(token, key, algorithms, audience,
  issuer, options={"require": ...})\<close> at a time in seconds.
\<close>

record jwt_lib =
  jwt_encode :: "json \<Rightarrow> pystr \<Rightarrow> pystr \<Rightarrow> pystr res"
  jwt_decode :: "int \<Rightarrow> pystr \<Rightarrow> pystr \<Rightarrow> pystr list \<Rightarrow> pystr \<Rightarrow> pystr \<Rightarrow> pystr list \<Rightarrow> json res"

definition algorithm :: pystr where
  "algorithm = lit ''HS256''"

definition valid_roles :: "pystr list" where
  "valid_roles = [lit ''viewer'', lit ''analyst'', lit ''reviewer'', lit ''admin'']"

definition required_claims :: "pystr list" where
  "required_claims = [lit ''sub'', lit ''tenant_id'', lit ''roles'', lit ''iat'', lit ''exp'', lit ''aud'', lit ''iss'']"

definition all_resources :: pystr where
  "all_resources = lit ''*:*:*''"

text \<open>
  \<^verbatim>\<open>issue_token\<close>.  \<open>now\<close> is the current time in whole seconds, to which PyJWT cuts the times of the
  payload; the role names in the message are quoted but not escaped as \<^verbatim>\<open>repr\<close> would.
\<close>

definition unknown_roles :: "pystr list \<Rightarrow> pystr list" where
  "unknown_roles roles = filter (\<lambda>r. r \<notin> set valid_roles) (sort (remdups roles))"

definition token_payload :: "pystr \<Rightarrow> pystr list \<Rightarrow> int \<Rightarrow> int \<Rightarrow> pystr \<Rightarrow> pystr list \<Rightarrow> json" where
  "token_payload subject roles now ttl tenant scopes = JObj
     [(lit ''sub'', JStr subject), (lit ''tenant_id'', JStr tenant),
      (lit ''roles'', JList (map JStr (sort (remdups roles)))),
      (lit ''resource_scopes'', JList (map JStr (sort (remdups scopes)))),
      (lit ''iat'', JInt now), (lit ''exp'', JInt (now + 60 * ttl)),
      (lit ''aud'', JStr (lit ''flagship-lab'')), (lit ''iss'', JStr (lit ''flagship-lab''))]"

definition issue_token ::
  "pyenv \<Rightarrow> jwt_lib \<Rightarrow> int \<Rightarrow> pystr \<Rightarrow> pystr list \<Rightarrow> pystr \<Rightarrow> int \<Rightarrow> pystr \<Rightarrow> pystr list option \<Rightarrow> pystr res" where
  "issue_token E J now subject roles secret ttl tenant resource_scopes =
     (let unknown = unknown_roles roles;
          scopes = (case resource_scopes of None \<Rightarrow> [all_resources] | Some xs \<Rightarrow> xs)
      in bind_res (raise_if (\<not> tenant_accepted E tenant)
             (ValueError (lit ''tenant_id must use 1-64 letters, digits, underscores or hyphens''))) (\<lambda>_.
         bind_res (raise_if (unknown \<noteq> [])
             (ValueError (lit ''unknown roles: ['' @ py_join (lit '', '') (map (\<lambda>r. [39] @ r @ [39]) unknown) @ lit '']''))) (\<lambda>_.
         bind_res (raise_if (scopes = [] \<or> \<not> list_all (\<lambda>s. 3 \<le> length s \<and> length s \<le> 300) scopes)
             (ValueError (lit ''resource_scopes must contain valid scope strings''))) (\<lambda>_.
           jwt_encode J (token_payload subject roles now ttl tenant scopes) secret algorithm))))"

definition decode_token :: "jwt_lib \<Rightarrow> pystr \<Rightarrow> int \<Rightarrow> pystr \<Rightarrow> json res" where
  "decode_token J secret now token =
     jwt_decode J now token secret [algorithm] (lit ''flagship-lab'') (lit ''flagship-lab'') required_claims"

section \<open>Verifiers\<close>

text \<open>A verifier maps the time and a token to claims.\<close>

type_synonym token_verifier = "int \<Rightarrow> pystr \<Rightarrow> json res"

definition hmac_verifier :: "jwt_lib \<Rightarrow> pystr \<Rightarrow> token_verifier" where
  "hmac_verifier J secret now token = decode_token J secret now token"

record oidc_verifier =
  oidc_issuer :: pystr
  oidc_audience :: pystr
  oidc_algorithms :: "pystr list"
  oidc_signing_key :: "pystr \<Rightarrow> pystr res"

text \<open>
  \<^verbatim>\<open>OIDCJWKSTokenVerifier\<close>.  The key set is the function that \<^verbatim>\<open>get_signing_key_from_jwt\<close> is; it and
  the algorithms are the arguments with defaults.
\<close>

definition make_oidc_verifier ::
  "pystr \<Rightarrow> pystr \<Rightarrow> pystr \<Rightarrow> (pystr \<Rightarrow> pystr res) \<Rightarrow> pystr list \<Rightarrow> oidc_verifier res" where
  "make_oidc_verifier issuer audience jwks_url signing_key algorithms =
     bind_res (raise_if (\<not> py_startswith issuer (lit ''https://'')
         \<and> issuer \<notin> {lit ''http://localhost'', lit ''http://127.0.0.1''})
         (ValueError (lit ''OIDC issuer must use HTTPS''))) (\<lambda>_.
     bind_res (raise_if (audience = [] \<or> jwks_url = [])
         (ValueError (lit ''OIDC audience and JWKS URL are required''))) (\<lambda>_.
       Inr \<lparr>oidc_issuer = py_rstrip_char 47 issuer, oidc_audience = audience,
         oidc_algorithms = algorithms, oidc_signing_key = signing_key\<rparr>))"

text \<open>\<^verbatim>\<open>set(v)\<close>: the elements, which must be hashable.\<close>

definition json_set :: "json \<Rightarrow> json list res" where
  "json_set v = bind_res (jiter v) (\<lambda>xs. if list_all hashable xs then Inr xs else Inl TypeError)"

text \<open>The condition on \<^verbatim>\<open>tenant_id\<close>, left to right; only a text has \<^verbatim>\<open>replace\<close>.\<close>

definition check_tenant_claim :: "pyenv \<Rightarrow> json \<Rightarrow> unit res" where
  "check_tenant_claim E tenant =
     (let invalid = PyJWTError (lit ''token contains invalid tenant_id'')
      in if \<not> truthy tenant then Inl invalid
         else case tenant of
           JStr t \<Rightarrow> raise_if (\<not> tenant_accepted E t) invalid
         | JList xs \<Rightarrow> Inl (if length xs > 64 then invalid else AttributeError)
         | JObj kvs \<Rightarrow> Inl (if length kvs > 64 then invalid else AttributeError)
         | _ \<Rightarrow> Inl TypeError)"

definition is_str :: "json \<Rightarrow> bool" where
  "is_str v \<longleftrightarrow> (case v of JStr _ \<Rightarrow> True | _ \<Rightarrow> False)"

definition oidc_verify :: "pyenv \<Rightarrow> jwt_lib \<Rightarrow> oidc_verifier \<Rightarrow> token_verifier" where
  "oidc_verify E J v now token =
     bind_res (oidc_signing_key v token) (\<lambda>key.
     bind_res (jwt_decode J now token key (oidc_algorithms v) (oidc_audience v) (oidc_issuer v) required_claims) (\<lambda>claims.
     bind_res (jget_or (lit ''roles'') (JList []) claims) (\<lambda>roles.
     bind_res (json_set roles) (\<lambda>rs.
     bind_res (jget_or (lit ''roles'') JNull claims) (\<lambda>given.
     bind_res (raise_if (\<not> list_all (\<lambda>r. r \<in> set (map JStr valid_roles)) rs \<or> \<not> truthy given)
         (PyJWTError (lit ''token contains invalid roles''))) (\<lambda>_.
     bind_res (jget_or (lit ''tenant_id'') (JStr []) claims) (\<lambda>tenant.
     bind_res (check_tenant_claim E tenant) (\<lambda>_.
     bind_res (jget_or (lit ''resource_scopes'') JNull claims) (\<lambda>scopes.
     bind_res (raise_if (case scopes of JList xs \<Rightarrow> xs = [] \<or> \<not> list_all is_str xs | _ \<Rightarrow> True)
         (PyJWTError (lit ''token contains invalid resource_scopes''))) (\<lambda>_.
       Inr claims))))))))))"

section \<open>The dependency of the endpoints\<close>

text \<open>
  \<^verbatim>\<open>require_verified_roles\<close>: the check of the allowed roles when the endpoint is declared, and the
  dependency that runs with each request.
\<close>

definition check_allowed_roles :: "pystr list \<Rightarrow> unit res" where
  "check_allowed_roles allowed = raise_if (allowed = [] \<or> \<not> set allowed \<subseteq> set valid_roles)
     (ValueError (lit ''require_roles must receive known roles''))"

definition verified_claims :: "token_verifier \<Rightarrow> int \<Rightarrow> pystr option \<Rightarrow> json res" where
  "verified_claims verify now credentials = (case credentials of
     None \<Rightarrow> Inl (HTTPException 401 (JStr (lit ''missing bearer token'')))
   | Some token \<Rightarrow>
       (case verify now token of
          Inl (PyJWTError e) \<Rightarrow> Inl (HTTPException 401 (JStr (lit ''invalid or expired token'')))
        | r \<Rightarrow> r))"

definition require_verified_roles ::
  "token_verifier \<Rightarrow> pystr list \<Rightarrow> int \<Rightarrow> pystr option \<Rightarrow> json res" where
  "require_verified_roles verify allowed now credentials =
     bind_res (verified_claims verify now credentials) (\<lambda>claims.
     bind_res (jget_or (lit ''roles'') (JList []) claims) (\<lambda>roles.
     bind_res (json_set roles) (\<lambda>rs.
     bind_res (raise_if (\<not> list_ex (\<lambda>r. r \<in> set (map JStr allowed)) rs)
         (HTTPException 403 (JStr (lit ''insufficient role'')))) (\<lambda>_.
       Inr claims))))"

section \<open>What PyJWT documents\<close>

text \<open>
  A token that was encoded with a key is decoded with it to its payload, if its algorithm is among
  the accepted ones, the registered claims are as expected, no required claim is missing and none of the claims
  \<^verbatim>\<open>nbf\<close> and \<^verbatim>\<open>jti\<close> is there, which PyJWT would check as well, from the time it was issued until it expires;
  from then on it is rejected.
\<close>

definition registered_claims :: "pystr \<Rightarrow> pystr \<Rightarrow> int \<Rightarrow> int \<Rightarrow> pystr list \<Rightarrow> json \<Rightarrow> bool" where
  "registered_claims aud iss iat until required payload \<longleftrightarrow> (\<exists>kvs subject. payload = JObj kvs
     \<and> map_of kvs (lit ''aud'') = Some (JStr aud) \<and> map_of kvs (lit ''iss'') = Some (JStr iss)
     \<and> map_of kvs (lit ''sub'') = Some (JStr subject)
     \<and> map_of kvs (lit ''iat'') = Some (JInt iat) \<and> map_of kvs (lit ''exp'') = Some (JInt until)
     \<and> map_of kvs (lit ''nbf'') = None \<and> map_of kvs (lit ''jti'') = None
     \<and> (\<forall>k \<in> set required. map_of kvs k \<noteq> None \<and> map_of kvs k \<noteq> Some JNull))"

definition jwt_law :: "pyenv \<Rightarrow> jwt_lib \<Rightarrow> bool" where
  "jwt_law E J \<longleftrightarrow> (\<forall>payload key alg token now algs aud iss iat until required.
     jwt_encode J payload key alg = Inr token \<longrightarrow> wf_json E payload \<longrightarrow> alg \<in> set algs
     \<longrightarrow> registered_claims aud iss iat until required payload \<longrightarrow>
       (iat \<le> now \<longrightarrow> now < until \<longrightarrow> jwt_decode J now token key algs aud iss required = Inr payload)
       \<and> (until \<le> now \<longrightarrow> (\<exists>m. jwt_decode J now token key algs aud iss required = Inl (PyJWTError m))))"

lemma jwt_lawD:
  assumes "jwt_law E J" "jwt_encode J payload key alg = Inr token" "wf_json E payload" "alg \<in> set algs"
    "registered_claims aud iss iat until required payload"
  shows "iat \<le> now \<Longrightarrow> now < until \<Longrightarrow> jwt_decode J now token key algs aud iss required = Inr payload"
    and "until \<le> now \<Longrightarrow> \<exists>m. jwt_decode J now token key algs aud iss required = Inl (PyJWTError m)"
  using assms unfolding jwt_law_def by blast+

section \<open>Issued tokens\<close>

lemma issue_token_Inr:
  assumes "issue_token E J now subject roles secret ttl tenant scopes = Inr token"
  shows "tenant_accepted E tenant" "set roles \<subseteq> set valid_roles"
    "jwt_encode J (token_payload subject roles now ttl tenant
       (case scopes of None \<Rightarrow> [all_resources] | Some xs \<Rightarrow> xs)) secret algorithm = Inr token"
proof -
  show "tenant_accepted E tenant" and
    "jwt_encode J (token_payload subject roles now ttl tenant
       (case scopes of None \<Rightarrow> [all_resources] | Some xs \<Rightarrow> xs)) secret algorithm = Inr token"
    using assms by (auto simp: issue_token_def Let_def bind_res_Inr raise_if_Inr)
  have "unknown_roles roles = []"
    using assms by (auto simp: issue_token_def Let_def bind_res_Inr raise_if_Inr)
  then show "set roles \<subseteq> set valid_roles"
    by (auto simp: unknown_roles_def filter_empty_conv)
qed

lemma token_payload_registered:
  "registered_claims (lit ''flagship-lab'') (lit ''flagship-lab'') now (now + 60 * ttl) required_claims
     (token_payload subject roles now ttl tenant scopes)"
  by (simp add: registered_claims_def token_payload_def required_claims_def)

lemma wf_strings: "wf_json E (JList (map JStr xs))"
  by simp

lemma token_payload_wf: "wf_json E (token_payload subject roles now ttl tenant scopes)"
  by (auto simp: token_payload_def)

lemma roles_of_payload:
  "jget_or (lit ''roles'') dflt (token_payload subject roles now ttl tenant scopes)
     = Inr (JList (map JStr (sort (remdups roles))))"
  by (simp add: token_payload_def)

lemma json_set_strings [simp]: "json_set (JList (map JStr xs)) = Inr (map JStr xs)"
  by (simp add: json_set_def list_all_iff)

lemma all_resources_grants [simp]: "fnmatchcase (required_scope ty rid act) all_resources"
proof -
  have "fnmatchcase (required_scope ty rid act) all_resources \<longleftrightarrow>
      (\<exists>ws. required_scope ty rid act = concat ws
        \<and> list_all2 fits [AnyText, Literally 58, AnyText, Literally 58, AnyText] ws)"
    by (simp add: fnmatchcase_def glob_match_iff all_resources_def lit_def)
  moreover have "required_scope ty rid act = concat [ty, [58], rid, [58], act]"
    by (simp add: required_scope_def)
  ultimately show ?thesis by (metis (no_types, lifting) fits_AnyText fits_Literally list_all2_Cons list_all2_Nil)
qed

text \<open>
  C17: The life of an issued token.  A token that \<^verbatim>\<open>issue_token\<close> returns was issued for an acceptable
  tenant and known roles.  From its issue until its expiry the dependency of an endpoint answers it
  with exactly the claims it was issued with if it has one of the endpoint's roles, and with status
  403 otherwise; from its expiry on with status 401.  Without explicit scopes it grants every action
  on every resource.
\<close>

theorem issued_token_life:
  assumes "jwt_law E J" and "issue_token E J now subject roles secret ttl tenant scopes = Inr token"
    and "claims = token_payload subject roles now ttl tenant
      (case scopes of None \<Rightarrow> [all_resources] | Some xs \<Rightarrow> xs)"
  shows "tenant_accepted E tenant \<and> set roles \<subseteq> set valid_roles
    \<and> (\<forall>t allowed. now \<le> t \<and> t < now + 60 * ttl \<longrightarrow>
        require_verified_roles (hmac_verifier J secret) allowed t (Some token) =
          (if set roles \<inter> set allowed \<noteq> {} then Inr claims
           else Inl (HTTPException 403 (JStr (lit ''insufficient role'')))))
    \<and> (\<forall>t allowed. now + 60 * ttl \<le> t \<longrightarrow>
        require_verified_roles (hmac_verifier J secret) allowed t (Some token) =
          Inl (HTTPException 401 (JStr (lit ''invalid or expired token''))))
    \<and> (scopes = None \<longrightarrow> (\<forall>ty rid act. authorize_resource claims ty rid act = Inr ()))"
proof (intro conjI allI impI)
  note i = issue_token_Inr [OF assms(2)]
  show "tenant_accepted E tenant" "set roles \<subseteq> set valid_roles" by (fact i)+
  note d = jwt_lawD [OF assms(1) i(3) token_payload_wf _ token_payload_registered, of "[algorithm]"]
  fix t allowed
  show "require_verified_roles (hmac_verifier J secret) allowed t (Some token) =
          (if set roles \<inter> set allowed \<noteq> {} then Inr claims
           else Inl (HTTPException 403 (JStr (lit ''insufficient role''))))"
    if "now \<le> t \<and> t < now + 60 * ttl"
    using that d(1) [of t] by (auto simp: require_verified_roles_def verified_claims_def hmac_verifier_def
        decode_token_def assms(3) roles_of_payload raise_if_def list_ex_iff)
  show "require_verified_roles (hmac_verifier J secret) allowed t (Some token) =
          Inl (HTTPException 401 (JStr (lit ''invalid or expired token'')))"
    if "now + 60 * ttl \<le> t"
    using that d(2) [of t] by (auto simp: require_verified_roles_def verified_claims_def hmac_verifier_def decode_token_def)
next
  fix ty rid act
  assume "scopes = None"
  then show "authorize_resource claims ty rid act = Inr ()"
    by (simp add: assms(3) token_payload_def authorize_resource_list scope_grants_def)
qed

lemma is_str_iff: "is_str v \<longleftrightarrow> (\<exists>s. v = JStr s)"
  by (cases v) (simp_all add: is_str_def)

text \<open>
  C18: What the OIDC verifier guarantees.  Claims that it returns have a non-empty collection of
  roles, all of them known, an acceptable tenant, and a non-empty list of scopes that are all texts.
\<close>

theorem oidc_claims_typed:
  assumes "oidc_verify E J v now token = Inr claims"
  shows "\<exists>kvs roles rs tenant scopes. claims = JObj kvs
    \<and> map_of kvs (lit ''roles'') = Some roles \<and> jiter roles = Inr (map JStr rs) \<and> rs \<noteq> [] \<and> set rs \<subseteq> set valid_roles
    \<and> map_of kvs (lit ''tenant_id'') = Some (JStr tenant) \<and> tenant_accepted E tenant
    \<and> map_of kvs (lit ''resource_scopes'') = Some (JList (map JStr scopes)) \<and> scopes \<noteq> []"
proof -
  from assms obtain roles rs given tenant scopes u where
    r: "jget_or (lit ''roles'') (JList []) claims = Inr roles" "json_set roles = Inr rs"
      "jget_or (lit ''roles'') JNull claims = Inr given" "truthy given"
      "list_all (\<lambda>r. r \<in> set (map JStr valid_roles)) rs"
    and t: "jget_or (lit ''tenant_id'') (JStr []) claims = Inr tenant" "check_tenant_claim E tenant = Inr u"
    and s: "jget_or (lit ''resource_scopes'') JNull claims = Inr scopes"
      "\<not> (case scopes of JList xs \<Rightarrow> xs = [] \<or> \<not> list_all is_str xs | _ \<Rightarrow> True)"
    unfolding oidc_verify_def bind_res_Inr raise_if_Inr sum.inject by blast
  from r(1) obtain kvs where c: "claims = JObj kvs" by (auto simp: jget_or_def split: json.splits)
  have role: "map_of kvs (lit ''roles'') = Some roles"
    using r(1,3,4) c by (auto split: option.splits)
  have it: "jiter roles = Inr rs" "rs \<noteq> []"
    using r(2,3,4) role c by (auto simp: json_set_def bind_res_Inr jiter_def split: if_splits json.splits)
  have "\<forall>r \<in> set rs. \<exists>x \<in> set valid_roles. r = JStr x" using r(5) by (auto simp: list_all_iff)
  moreover from this obtain xs where xs: "rs = map JStr xs" by (metis ex_map_conv)
  ultimately have xs: "rs = map JStr xs" "set xs \<subseteq> set valid_roles" by auto
  have ten: "\<exists>x. map_of kvs (lit ''tenant_id'') = Some (JStr x) \<and> tenant_accepted E x"
  proof (cases tenant)
    case (JStr x)
    with t c show ?thesis
      by (auto simp: check_tenant_claim_def Let_def raise_if_Inr split: if_splits option.splits)
  qed (use t in \<open>simp_all add: check_tenant_claim_def Let_def split: if_splits\<close>)
  from s(2) obtain ss where ss: "scopes = JList ss" "ss \<noteq> []" "list_all is_str ss"
    by (auto split: json.splits)
  have "\<forall>x \<in> set ss. \<exists>y. x = JStr y" using ss(3) by (simp add: list_all_iff is_str_iff)
  then obtain ys where ys: "ss = map JStr ys" by (metis ex_map_conv)
  have "map_of kvs (lit ''resource_scopes'') = Some (JList (map JStr ys))" "ys \<noteq> []"
    using s(1) ss ys c by (auto split: option.splits)
  with c role it xs ten show ?thesis by (intro exI [of _ kvs] exI [of _ roles] exI [of _ xs]) auto
qed

section \<open>Witnesses\<close>

text \<open>A token library whose tokens are the canonical text of the key, the algorithm and the payload.\<close>

definition demo_token :: "json \<Rightarrow> pystr \<Rightarrow> pystr \<Rightarrow> pystr" where
  "demo_token payload key alg = dump (JObj [(lit ''key'', JStr key), (lit ''alg'', JStr alg), (lit ''payload'', payload)])"

definition demo_valid :: "int \<Rightarrow> pystr \<Rightarrow> pystr \<Rightarrow> json \<Rightarrow> bool" where
  "demo_valid now aud iss payload \<longleftrightarrow>
     jget (lit ''aud'') payload = Inr (JStr aud) \<and> jget (lit ''iss'') payload = Inr (JStr iss)
     \<and> (case (jget (lit ''iat'') payload, jget (lit ''exp'') payload) of
          (Inr (JInt i), Inr (JInt e)) \<Rightarrow> i \<le> now \<and> now < e | _ \<Rightarrow> False)"

definition demo_decode :: "int \<Rightarrow> pystr \<Rightarrow> pystr \<Rightarrow> pystr list \<Rightarrow> pystr \<Rightarrow> pystr \<Rightarrow> pystr list \<Rightarrow> json res" where
  "demo_decode now token key algs aud iss required = (case loads demo_env token of
     Inr (JObj [(_, JStr k), (_, JStr a), (_, payload)]) \<Rightarrow>
       if k = key \<and> a \<in> set algs \<and> demo_valid now aud iss payload
            \<and> (\<forall>c \<in> set required. \<not> isl (jget c payload)) then Inr payload
       else Inl (PyJWTError (lit ''invalid token''))
   | _ \<Rightarrow> Inl (PyJWTError (lit ''invalid token'')))"

definition demo_jwt :: jwt_lib where
  "demo_jwt = \<lparr>jwt_encode = (\<lambda>payload key alg. Inr (demo_token payload key alg)), jwt_decode = demo_decode\<rparr>"

lemma demo_decode_token:
  assumes "wf_json demo_env payload"
  shows "demo_decode now (demo_token payload key alg) key' algs aud iss required =
    (if key = key' \<and> alg \<in> set algs \<and> demo_valid now aud iss payload
          \<and> (\<forall>c \<in> set required. \<not> isl (jget c payload)) then Inr payload
     else Inl (PyJWTError (lit ''invalid token'')))"
proof -
  have "loads demo_env (demo_token payload key alg) =
      Inr (JObj [(lit ''key'', JStr key), (lit ''alg'', JStr alg), (lit ''payload'', payload)])"
    unfolding demo_token_def using assms by (intro loads_dump) simp
  then show ?thesis by (simp add: demo_decode_def)
qed

lemma demo_jwt_law [simp]: "jwt_law demo_env demo_jwt"
proof -
  have "(iat \<le> now \<longrightarrow> now < until \<longrightarrow> demo_decode now (demo_token payload key alg) key algs aud iss required = Inr payload)
      \<and> (until \<le> now \<longrightarrow> (\<exists>m. demo_decode now (demo_token payload key alg) key algs aud iss required = Inl (PyJWTError m)))"
    if "wf_json demo_env payload" "alg \<in> set algs" "registered_claims aud iss iat until required payload"
    for payload key alg algs aud iss iat until required now
    using that
    by (auto simp: demo_decode_token registered_claims_def demo_valid_def split: option.splits)
  then show ?thesis by (simp add: jwt_law_def demo_jwt_def)
qed

definition demo_secret :: pystr where
  "demo_secret = lit ''0123456789abcdef0123456789abcdef''"

definition demo_claims :: json where
  "demo_claims = token_payload (lit ''ann'') [lit ''viewer''] 1000 60 (lit ''acme'') [all_resources]"

definition demo_bearer :: pystr where
  "demo_bearer = demo_token demo_claims demo_secret algorithm"

lemma demo_issued:
  "issue_token demo_env demo_jwt 1000 (lit ''ann'') [lit ''viewer''] demo_secret 60 (lit ''acme'') None = Inr demo_bearer"
proof -
  have t: "tenant_accepted demo_env (lit ''acme'')" and u: "unknown_roles [lit ''viewer''] = []"
    and s: "3 \<le> length all_resources \<and> length all_resources \<le> 300" by code_simp+
  show ?thesis
    by (simp add: issue_token_def Let_def t u s demo_jwt_def demo_bearer_def demo_claims_def)
qed

lemma issued_token_life_witness:
  "require_verified_roles (hmac_verifier demo_jwt demo_secret) [lit ''viewer'', lit ''admin''] 1500 (Some demo_bearer)
     = Inr demo_claims
   \<and> require_verified_roles (hmac_verifier demo_jwt demo_secret) [lit ''admin''] 1500 (Some demo_bearer)
     = Inl (HTTPException 403 (JStr (lit ''insufficient role'')))
   \<and> require_verified_roles (hmac_verifier demo_jwt demo_secret) [lit ''admin''] 4600 (Some demo_bearer)
     = Inl (HTTPException 401 (JStr (lit ''invalid or expired token'')))"
  using issued_token_life [OF demo_jwt_law demo_issued, of demo_claims]
  by (simp add: demo_claims_def)

definition demo_oidc :: oidc_verifier where
  "demo_oidc = \<lparr>oidc_issuer = lit ''flagship-lab'', oidc_audience = lit ''flagship-lab'',
     oidc_algorithms = [algorithm], oidc_signing_key = (\<lambda>_. Inr demo_secret)\<rparr>"

lemma demo_oidc_verify: "oidc_verify demo_env demo_jwt demo_oidc 1500 demo_bearer = Inr demo_claims"
proof -
  have w: "wf_json demo_env demo_claims" unfolding demo_claims_def by (rule token_payload_wf)
  have v: "demo_valid 1500 (lit ''flagship-lab'') (lit ''flagship-lab'') demo_claims"
    "\<forall>c \<in> set required_claims. \<not> isl (jget c demo_claims)" by code_simp+
  have t: "tenant_accepted demo_env (lit ''acme'')" by code_simp
  have "jwt_decode demo_jwt 1500 demo_bearer demo_secret [algorithm] (lit ''flagship-lab'') (lit ''flagship-lab'')
      required_claims = Inr demo_claims"
    by (simp add: demo_jwt_def demo_bearer_def demo_decode_token [OF w] v)
  then show ?thesis
    using t by (simp add: oidc_verify_def demo_oidc_def demo_claims_def token_payload_def json_set_def valid_roles_def
        check_tenant_claim_def Let_def is_str_def)
qed

lemma oidc_claims_typed_witness:
  "\<exists>kvs roles rs tenant scopes. demo_claims = JObj kvs
    \<and> map_of kvs (lit ''roles'') = Some roles \<and> jiter roles = Inr (map JStr rs) \<and> rs \<noteq> [] \<and> set rs \<subseteq> set valid_roles
    \<and> map_of kvs (lit ''tenant_id'') = Some (JStr tenant) \<and> tenant_accepted demo_env tenant
    \<and> map_of kvs (lit ''resource_scopes'') = Some (JList (map JStr scopes)) \<and> scopes \<noteq> []"
  by (rule oidc_claims_typed [OF demo_oidc_verify])

end
