(* ===== verification/Evidence.thy ===== *)
theory Evidence
  imports Core Object_Store
begin

text \<open>
  \<^verbatim>\<open>signing.py\<close>, \<^verbatim>\<open>evidence.py\<close> and \<^verbatim>\<open>evidence_service.py\<close>: the signed package of a tax run's evidence, its
  verification, and its preservation in an object store.  The main facts: what was preserved
  verifies, and two accepted packages with the same manifest hash hold the same files.
\<close>

section \<open>Signatures and archives\<close>

text \<open>
  What the code uses of the \<^verbatim>\<open>cryptography\<close> package, \<^verbatim>\<open>hmac\<close> and \<^verbatim>\<open>zipfile\<close>: loading PEM keys, Ed25519, the
  hexadecimal HMAC with SHA-256, and archives as lists of named members in the order they were
  written.  Reading a member may raise.
\<close>

datatype pem_key = Ed25519_Key bytes | Other_Key

record evidence_lib =
  load_private_key :: "bytes \<Rightarrow> pem_key res"
  load_public_key :: "bytes \<Rightarrow> pem_key res"
  ed25519_sign :: "bytes \<Rightarrow> bytes \<Rightarrow> bytes"
  ed25519_verify :: "bytes \<Rightarrow> bytes \<Rightarrow> bytes \<Rightarrow> bool"
  hmac_hex :: "bytes \<Rightarrow> bytes \<Rightarrow> pystr"
  zip_pack :: "(pystr \<times> bytes) list \<Rightarrow> bytes"
  zip_open :: "bytes \<Rightarrow> (pystr \<times> bytes res) list res"

record signature =
  sg_algorithm :: pystr
  sg_key_id :: pystr
  sg_value :: pystr

type_synonym evidence_signer = "bytes \<Rightarrow> signature res"

definition invalid_signing_key :: py_error where
  "invalid_signing_key = ValueError (lit ''evidence signing key must be an Ed25519 private key'')"

text \<open>\<^verbatim>\<open>Ed25519Signer\<close>: the constructor loads the key, \<^verbatim>\<open>sign\<close> uses it.\<close>

definition make_ed25519_signer :: "evidence_lib \<Rightarrow> bytes \<Rightarrow> pystr \<Rightarrow> evidence_signer res" where
  "make_ed25519_signer L pem key_id = bind_res (load_private_key L pem) (\<lambda>key. case key of
     Ed25519_Key k \<Rightarrow> Inr (\<lambda>material. Inr \<lparr>sg_algorithm = lit ''Ed25519'', sg_key_id = key_id,
       sg_value = b64encode (ed25519_sign L k material)\<rparr>)
   | Other_Key \<Rightarrow> Inl invalid_signing_key)"

text \<open>
  \<^verbatim>\<open>AwsKmsSigner\<close>: the client answers a message with the key's id, if it names one, and the signature.
\<close>

definition kms_signer ::
  "(pystr \<Rightarrow> bytes \<Rightarrow> pystr \<Rightarrow> (pystr option \<times> bytes) res) \<Rightarrow> pystr \<Rightarrow> pystr \<Rightarrow> evidence_signer" where
  "kms_signer client key_id algorithm material =
     bind_res (client key_id material algorithm) (\<lambda>(used, sig).
       Inr \<lparr>sg_algorithm = algorithm, sg_key_id = (case used of None \<Rightarrow> key_id | Some k \<Rightarrow> k),
         sg_value = b64encode sig\<rparr>)"

section \<open>The evidence of a run\<close>

definition run_dict :: "tax_rule_run \<Rightarrow> json" where
  "run_dict r = JObj [(lit ''run_id'', JStr (tr_run_id r)), (lit ''tenant_id'', JStr (tr_tenant r)),
     (lit ''rule_version'', JStr (tr_rule_version r)), (lit ''rule_pack_json'', JStr (tr_rule_pack_json r)),
     (lit ''started_at'', JStr (tr_started_at r)), (lit ''completed_at'', opt_json (tr_completed_at r)),
     (lit ''transaction_count'', JInt (tr_transaction_count r)), (lit ''finding_count'', JInt (tr_finding_count r))]"

definition finding_dict :: "tax_finding \<Rightarrow> json" where
  "finding_dict r = JObj [(lit ''id'', JInt (tf_id r)), (lit ''tenant_id'', JStr (tf_tenant r)),
     (lit ''run_id'', JStr (tf_run_id r)),
     (lit ''transaction_id'', case tf_transaction_id r of None \<Rightarrow> JNull | Some i \<Rightarrow> JInt i),
     (lit ''invoice_id'', JStr (tf_invoice_id r)), (lit ''rule_code'', JStr (tf_rule_code r)),
     (lit ''severity'', JStr (tf_severity r)), (lit ''explanation'', JStr (tf_explanation r)),
     (lit ''evidence_json'', JStr (tf_evidence_json r))]"

definition audit_dict :: "audit_event \<Rightarrow> json" where
  "audit_dict r = JObj [(lit ''id'', JInt (ae_id r)), (lit ''tenant_id'', JStr (ae_tenant r)),
     (lit ''module'', JStr (ae_module r)), (lit ''event_type'', JStr (ae_event_type r)),
     (lit ''entity_id'', JStr (ae_entity_id r)), (lit ''occurred_at'', JStr (ae_occurred_at r)),
     (lit ''payload_json'', JStr (ae_payload_json r)), (lit ''previous_hash'', JStr (ae_previous_hash r)),
     (lit ''event_hash'', JStr (ae_event_hash r))]"

definition workflow_dict :: "tax_run_workflow \<Rightarrow> json" where
  "workflow_dict r = JObj [(lit ''run_id'', JStr (rw_run_id r)), (lit ''tenant_id'', JStr (rw_tenant r)),
     (lit ''requested_by'', JStr (rw_requested_by r)), (lit ''status'', JStr (rw_status r)),
     (lit ''version'', JInt (rw_version r)), (lit ''reviewed_by'', opt_json (rw_reviewed_by r)),
     (lit ''reviewed_at'', opt_json (rw_reviewed_at r)), (lit ''decision_comment'', opt_json (rw_decision_comment r))]"

text \<open>\<^verbatim>\<open>_bytes\<close>: every value of these rows is one of JSON's, so that \<^verbatim>\<open>default\<close> is not called.\<close>

definition evidence_bytes :: "json \<Rightarrow> bytes" where
  "evidence_bytes v = utf8 (pdump (indented quote) 0 (jnorm v))"

definition evidence_payloads :: "pystr \<Rightarrow> pystr \<Rightarrow> db \<Rightarrow> (pystr \<times> bytes) list res" where
  "evidence_payloads tenant run_id d =
     (case find_row (\<lambda>r. tr_run_id r = run_id \<and> tr_tenant r = tenant) (tax_rule_runs d) of
        None \<Rightarrow> Inl (ValueError (lit ''unknown run_id''))
      | Some run \<Rightarrow> Inr
          [(lit ''run.json'', evidence_bytes (run_dict run)),
           (lit ''findings.json'', evidence_bytes (JList (map finding_dict
              (select_rows tf_id (\<lambda>r. tf_run_id r = run_id \<and> tf_tenant r = tenant) (tax_findings d))))),
           (lit ''audit_events.json'', evidence_bytes (JList (map audit_dict (audit_rows tenant d)))),
           (lit ''review.json'', evidence_bytes
              (case find_row (\<lambda>r. rw_run_id r = run_id \<and> rw_tenant r = tenant) (tax_run_workflows d) of
                 None \<Rightarrow> JNull | Some w \<Rightarrow> workflow_dict w))])"

definition evidence_manifest ::
  "pyenv \<Rightarrow> pystr \<Rightarrow> pystr \<Rightarrow> pystr \<Rightarrow> pystr \<Rightarrow> (pystr \<times> bytes) list \<Rightarrow> (pystr \<times> json) list" where
  "evidence_manifest E version tenant run_id created payloads =
     [(lit ''format'', JStr version), (lit ''module'', JStr (lit ''taxflow'')), (lit ''tenant_id'', JStr tenant),
      (lit ''entity_id'', JStr run_id), (lit ''created_at'', JStr created),
      (lit ''files'', JObj (map (\<lambda>(name, data). (name, JStr (sha256_hex E data))) payloads))]"

definition hashed_manifest :: "pyenv \<Rightarrow> (pystr \<times> json) list \<Rightarrow> (pystr \<times> json) list" where
  "hashed_manifest E m = m @ [(lit ''manifest_hash'', JStr (sha256_json E (JObj m)))]"

definition signature_json :: "signature \<Rightarrow> json" where
  "signature_json s = JObj [(lit ''algorithm'', JStr (sg_algorithm s)), (lit ''key_id'', JStr (sg_key_id s)),
     (lit ''value'', JStr (sg_value s))]"

definition signed_manifest :: "(pystr \<times> json) list \<Rightarrow> signature \<Rightarrow> (pystr \<times> json) list" where
  "signed_manifest m s = m @ [(lit ''signature'', signature_json s)]"

definition build_zip :: "evidence_lib \<Rightarrow> (pystr \<times> bytes) list \<Rightarrow> (pystr \<times> json) list \<Rightarrow> bytes" where
  "build_zip L payloads manifest =
     zip_pack L (payloads @ [(lit ''manifest.json'', evidence_bytes (JObj manifest))])"

text \<open>\<^verbatim>\<open>build_tax_run_package\<close> reads on an open connection.\<close>

definition build_tax_run_package ::
  "pyenv \<Rightarrow> evidence_lib \<Rightarrow> clock \<Rightarrow> pystr \<Rightarrow> pystr \<Rightarrow> evidence_signer \<Rightarrow> (bytes \<times> (pystr \<times> json) list, db) tx" where
  "build_tax_run_package E L ts run_id tenant signer d =
     bind_res (evidence_payloads tenant run_id d) (\<lambda>payloads.
       let m = hashed_manifest E (evidence_manifest E (lit ''flagship-evidence/v2'') tenant run_id (ts 0) payloads)
       in bind_res (signer (utf8 (canonical_json (JObj m)))) (\<lambda>s.
            let manifest = signed_manifest m s in Inr ((build_zip L payloads manifest, manifest), d)))"

text \<open>
  \<^verbatim>\<open>export_tax_run\<close>: the same with the older format and the keys as arguments; the second component is
  what is written to the output file.
\<close>

definition export_signature ::
  "evidence_lib \<Rightarrow> pystr option \<Rightarrow> pystr \<Rightarrow> bytes option \<Rightarrow> bytes \<Rightarrow> signature option res" where
  "export_signature L signing_secret key_id private_pem material = (case private_pem of
     Some pem \<Rightarrow> bind_res (load_private_key L pem) (\<lambda>key. case key of
         Ed25519_Key k \<Rightarrow> Inr (Some \<lparr>sg_algorithm = lit ''Ed25519'', sg_key_id = key_id,
           sg_value = b64encode (ed25519_sign L k material)\<rparr>)
       | Other_Key \<Rightarrow> Inl invalid_signing_key)
   | None \<Rightarrow> Inr (map_option (\<lambda>secret. \<lparr>sg_algorithm = lit ''HMAC-SHA256'', sg_key_id = key_id,
         sg_value = hmac_hex L (utf8 secret) material\<rparr>) signing_secret))"

definition export_tax_run ::
  "pyenv \<Rightarrow> evidence_lib \<Rightarrow> clock \<Rightarrow> pystr \<Rightarrow> pystr option \<Rightarrow> pystr \<Rightarrow> pystr \<Rightarrow> bytes option
     \<Rightarrow> ((pystr \<times> json) list \<times> bytes, db) tx" where
  "export_tax_run E L ts run_id signing_secret key_id tenant private_pem d =
     bind_res (evidence_payloads tenant run_id d) (\<lambda>payloads.
       let m = hashed_manifest E (evidence_manifest E (lit ''flagship-evidence/v1'') tenant run_id (ts 0) payloads)
       in bind_res (export_signature L signing_secret key_id private_pem (utf8 (canonical_json (JObj m)))) (\<lambda>s.
            let manifest = (case s of None \<Rightarrow> m | Some s \<Rightarrow> signed_manifest m s)
            in Inr ((manifest, build_zip L payloads manifest), d)))"

section \<open>Verification\<close>

text \<open>\<^verbatim>\<open>archive.read(name)\<close>: the last member of the name.\<close>

definition zip_read :: "(pystr \<times> bytes res) list \<Rightarrow> pystr \<Rightarrow> bytes res" where
  "zip_read ms name = (case map_of (rev ms) name of None \<Rightarrow> Inl (KeyError name) | Some r \<Rightarrow> r)"

text \<open>\<^verbatim>\<open>json.loads\<close> of bytes.\<close>

definition loads_bytes :: "pyenv \<Rightarrow> bytes \<Rightarrow> json res" where
  "loads_bytes E b = (case json_bytes_text b of None \<Rightarrow> Inl (ValueError (lit ''invalid encoding'')) | Some s \<Rightarrow> loads E s)"

text \<open>\<^verbatim>\<open>json.loads(path.read_text(encoding="utf-8"))\<close>, on the bytes of the file.\<close>

definition loads_file :: "pyenv \<Rightarrow> bytes \<Rightarrow> json res" where
  "loads_file E b = (case utf8_decode b of None \<Rightarrow> Inl (ValueError (lit ''invalid utf-8'')) | Some s \<Rightarrow> loads E s)"

text \<open>\<^verbatim>\<open>d.pop(k, None)\<close>: the value and the dictionary without the key.\<close>

definition json_pop :: "pystr \<Rightarrow> json \<Rightarrow> (json \<times> json) res" where
  "json_pop k v = (case v of
     JObj kvs \<Rightarrow> Inr (case map_of kvs k of None \<Rightarrow> JNull | Some x \<Rightarrow> x, JObj (filter (\<lambda>kv. fst kv \<noteq> k) kvs))
   | JList xs \<Rightarrow> Inl TypeError
   | _ \<Rightarrow> Inl AttributeError)"

definition ed25519_accepts :: "evidence_lib \<Rightarrow> bytes \<Rightarrow> json \<Rightarrow> bytes \<Rightarrow> bool" where
  "ed25519_accepts L k value material = (case value of
     JStr s \<Rightarrow> (case b64decode s of None \<Rightarrow> False | Some sig \<Rightarrow> ed25519_verify L k sig material)
   | _ \<Rightarrow> False)"

text \<open>\<^verbatim>\<open>hmac.compare_digest(str(value), expected)\<close> refuses texts beyond ASCII.\<close>

definition compare_digest :: "pystr \<Rightarrow> pystr \<Rightarrow> bool res" where
  "compare_digest a b = (if list_all (\<lambda>c. 0 \<le> c \<and> c < 128) (a @ b) then Inr (a = b) else Inl TypeError)"

definition signature_errors ::
  "evidence_lib \<Rightarrow> json \<Rightarrow> bytes \<Rightarrow> pystr option \<Rightarrow> bool \<Rightarrow> bytes option \<Rightarrow> pystr list res" where
  "signature_errors L sig material signing_secret require public_pem =
     (if sig = JNull then Inr (if require then [lit ''signature_missing''] else [])
      else bind_res (jget_or (lit ''algorithm'') JNull sig) (\<lambda>alg.
        bind_res (jget_or (lit ''value'') (JStr []) sig) (\<lambda>value.
        case (if alg = JStr (lit ''Ed25519'') then public_pem else None) of
          Some pem \<Rightarrow> bind_res (load_public_key L pem) (\<lambda>key. case key of
              Other_Key \<Rightarrow> Inr [lit ''unsupported_public_key'']
            | Ed25519_Key k \<Rightarrow> Inr (if ed25519_accepts L k value material then [] else [lit ''signature_mismatch'']))
        | None \<Rightarrow> (case signing_secret of
            Some secret \<Rightarrow>
              if alg \<noteq> JStr (lit ''HMAC-SHA256'') then Inr [lit ''signature_mismatch'']
              else bind_res (compare_digest (scalar_str value) (hmac_hex L (utf8 secret) material)) (\<lambda>same.
                Inr (if same then [] else [lit ''signature_mismatch'']))
          | None \<Rightarrow> Inr (if require then [lit ''verification_key_missing''] else [])))))"

text \<open>The loop over the files of the manifest.\<close>

fun file_errors :: "pyenv \<Rightarrow> (pystr \<times> bytes res) list \<Rightarrow> (pystr \<times> json) list \<Rightarrow> pystr list res" where
  "file_errors E ms [] = Inr []"
| "file_errors E ms ((name, expected) # fs) =
     (case zip_read ms name of
        Inl (KeyError k) \<Rightarrow> bind_res (file_errors E ms fs) (\<lambda>es. Inr ((lit ''missing:'' @ name) # es))
      | Inl e \<Rightarrow> Inl e
      | Inr data \<Rightarrow>
          bind_res (file_errors E ms fs) (\<lambda>es.
            Inr (if JStr (sha256_hex E data) \<noteq> expected then (lit ''hash_mismatch:'' @ name) # es else es)))"

definition json_items :: "json \<Rightarrow> (pystr \<times> json) list res" where
  "json_items v = (case v of JObj kvs \<Rightarrow> Inr kvs | _ \<Rightarrow> Inl AttributeError)"

definition verify_evidence_package ::
  "pyenv \<Rightarrow> evidence_lib \<Rightarrow> bytes \<Rightarrow> pystr option \<Rightarrow> bool \<Rightarrow> bytes option \<Rightarrow> (bool \<times> pystr list) res" where
  "verify_evidence_package E L package signing_secret require public_pem =
     bind_res (zip_open L package) (\<lambda>ms.
     bind_res (zip_read ms (lit ''manifest.json'')) (\<lambda>text.
     bind_res (loads_bytes E text) (\<lambda>whole.
     bind_res (json_pop (lit ''signature'') whole) (\<lambda>(sig, manifest).
     bind_res (signature_errors L sig (utf8 (canonical_json manifest)) signing_secret require public_pem) (\<lambda>es1.
     bind_res (json_pop (lit ''manifest_hash'') manifest) (\<lambda>(supplied, bare).
     bind_res (jget_or (lit ''files'') (JObj []) bare) (\<lambda>files.
     bind_res (json_items files) (\<lambda>items.
     bind_res (file_errors E ms items) (\<lambda>es3.
       let es = es1 @ (if JStr (sha256_json E bare) \<noteq> supplied then [lit ''manifest_hash_mismatch''] else []) @ es3
       in Inr (es = [], es))))))))))"

section \<open>Packages that verify\<close>

lemma map_of_norm_items: "map_of (map (\<lambda>(k, v). (k, jnorm v)) kvs) k = map_option jnorm (map_of kvs k)"
  by (induction kvs) auto

lemma map_of_sorted_items:
  "distinct (map fst kvs) \<Longrightarrow> map_of (sort_key fst (map (\<lambda>(k, v). (k, jnorm v)) kvs)) k = map_option jnorm (map_of kvs k)"
proof -
  assume "distinct (map fst kvs)"
  then have "distinct (map fst (map (\<lambda>(k, v). (k, jnorm v)) kvs))" unfolding map_fst_norm_items .
  then show ?thesis by (simp only: map_of_sort_key map_of_norm_items)
qed

lemma filter_absent_key:
  "k \<notin> fst ` set kvs \<Longrightarrow> filter (\<lambda>kv. fst kv \<noteq> k) (map (\<lambda>(k, v). (k, jnorm v)) kvs) = map (\<lambda>(k, v). (k, jnorm v)) kvs"
  by (induction kvs) auto

text \<open>What the last key of a dictionary holds is popped from its sorted form.\<close>

lemma json_pop_jnorm:
  assumes "distinct (map fst (kvs @ [(k, h)]))"
  shows "json_pop k (jnorm (JObj (kvs @ [(k, h)]))) = Inr (jnorm h, jnorm (JObj kvs))"
proof -
  have k: "k \<notin> fst ` set kvs" using assms by simp
  have "filter (\<lambda>kv. fst kv \<noteq> k) (map (\<lambda>(k, v). (k, jnorm v)) (kvs @ [(k, h)]))
      = map (\<lambda>(k, v). (k, jnorm v)) kvs"
    using filter_absent_key [OF k] by simp
  moreover have "map_of (kvs @ [(k, h)]) k = Some h" using k by (simp add: map_add_Some_iff map_of_eq_None_iff)
  ultimately show ?thesis
    by (simp add: json_pop_def filter_sort map_of_sorted_items [OF assms] del: sort_key_simps map_append)
qed

lemma json_pop_absent:
  assumes "distinct (map fst kvs)" "k \<notin> fst ` set kvs"
  shows "json_pop k (jnorm (JObj kvs)) = Inr (JNull, jnorm (JObj kvs))"
proof -
  note filter_absent_key [OF assms(2)]
  moreover have "map_of kvs k = None" using assms(2) by (simp add: map_of_eq_None_iff)
  ultimately show ?thesis
    by (simp add: json_pop_def filter_sort map_of_sorted_items [OF assms(1)])
qed

lemma jget_or_jnorm:
  "distinct (map fst kvs) \<Longrightarrow>
   jget_or k dflt (jnorm (JObj kvs)) = Inr (case map_of kvs k of None \<Rightarrow> dflt | Some x \<Rightarrow> jnorm x)"
  by (simp add: map_of_sorted_items split: option.splits)

text \<open>What \<^verbatim>\<open>zipfile\<close> documents: members with different names of printable ASCII characters are read back.\<close>

definition zip_law :: "evidence_lib \<Rightarrow> bool" where
  "zip_law L \<longleftrightarrow> (\<forall>ms. distinct (map fst ms) \<longrightarrow> (\<forall>n \<in> set (map fst ms). list_all (\<lambda>c. 32 \<le> c \<and> c < 127) n)
     \<longrightarrow> zip_open L (zip_pack L ms) = Inr (map (\<lambda>(n, b). (n, Inr b)) ms))"

definition key_pair :: "evidence_lib \<Rightarrow> bytes \<Rightarrow> bytes \<Rightarrow> bool" where
  "key_pair L private_key public_key \<longleftrightarrow> (\<forall>m. list_all is_byte (ed25519_sign L private_key m)
     \<and> ed25519_verify L public_key (ed25519_sign L private_key m) m)"

definition payload_names :: "pystr list" where
  "payload_names = [lit ''run.json'', lit ''findings.json'', lit ''audit_events.json'', lit ''review.json'']"

lemma payloads_names: "evidence_payloads tenant run_id d = Inr ps \<Longrightarrow> map fst ps = payload_names"
  by (auto simp: evidence_payloads_def payload_names_def split: option.splits)

lemma zip_read_member:
  assumes "distinct (map fst ms)" "(n, b) \<in> set ms"
  shows "zip_read (map (\<lambda>(n, b). (n, Inr b)) ms) n = Inr b"
proof -
  have "map_of (rev (map (\<lambda>(n, b). (n, Inr b :: bytes res)) ms)) n = Some (Inr b)"
    using assms by (intro map_of_is_SomeI) (force simp: rev_map [symmetric] o_def case_prod_unfold)+
  then show ?thesis by (simp add: zip_read_def)
qed

lemma file_errors_none:
  "\<forall>(n, v) \<in> set fs. \<exists>b. zip_read ms n = Inr b \<and> v = JStr (sha256_hex E b) \<Longrightarrow> file_errors E ms fs = Inr []"
  by (induction fs) auto

lemma b64_plain: "list_all is_byte b \<Longrightarrow> plain_text (b64encode b)"
  using b64encode_ascii [of b] by (auto simp: plain_text_def list_all_iff)

definition manifest_plain :: "pystr \<Rightarrow> pystr \<Rightarrow> pystr \<Rightarrow> bool" where
  "manifest_plain tenant run_id created \<longleftrightarrow> plain_text tenant \<and> plain_text run_id \<and> plain_text created"

lemma plain_sha: "env_law E \<Longrightarrow> plain_text (sha256_hex E b)"
  by (rule plain_hex) (simp add: env_law_def sha_law_def)

text \<open>The manifest with its hash, before it is signed.\<close>

lemma hashed_manifest_ok:
  assumes "env_law E" "map fst ps = payload_names" "manifest_plain tenant run_id created" "plain_text version"
    and "m = hashed_manifest E (evidence_manifest E version tenant run_id created ps)"
  shows "wf_json E (JObj m)" "json_texts plain_text (JObj m)"
    "map fst m = [lit ''format'', lit ''module'', lit ''tenant_id'', lit ''entity_id'', lit ''created_at'',
      lit ''files'', lit ''manifest_hash'']"
    "map_of m (lit ''files'') = Some (JObj (map (\<lambda>(n, b). (n, JStr (sha256_hex E b))) ps))"
proof -
  have f: "map fst (map (\<lambda>(n, b). (n, JStr (sha256_hex E b))) ps) = payload_names"
    using assms(2) by (simp add: o_def case_prod_unfold)
  show n: "map fst m = [lit ''format'', lit ''module'', lit ''tenant_id'', lit ''entity_id'', lit ''created_at'',
      lit ''files'', lit ''manifest_hash'']"
    by (simp add: assms(5) hashed_manifest_def evidence_manifest_def)
  have files: "distinct (map fst (map (\<lambda>(n, b). (n, JStr (sha256_hex E b))) ps))"
    unfolding f by (simp add: payload_names_def)
  have np: "\<forall>n \<in> set (map fst ps). plain_text n" unfolding assms(2) by (simp add: payload_names_def)
  show "wf_json E (JObj m)"
    using files by (auto simp: assms(5) hashed_manifest_def evidence_manifest_def)
  show "json_texts plain_text (JObj m)"
    using np assms(3,4) plain_sha [OF assms(1)]
    by (auto simp: assms(5) hashed_manifest_def evidence_manifest_def manifest_plain_def sha256_json_def)
  show "map_of m (lit ''files'') = Some (JObj (map (\<lambda>(n, b). (n, JStr (sha256_hex E b))) ps))"
    by (simp add: assms(5) hashed_manifest_def evidence_manifest_def)
qed

lemma loads_evidence:
  assumes "wf_json E (JObj kvs)" "json_texts plain_text (JObj kvs)"
  shows "loads_bytes E (evidence_bytes (JObj kvs)) = Inr (jnorm (JObj kvs))"
proof -
  obtain xs where xs: "jnorm (JObj kvs) = JObj xs" by simp
  obtain s where s: "pdump (indented quote) 0 (JObj xs) = 123 # s" "s = [] \<or> hd s \<noteq> 0" using object_start(2) by blast
  have "plain_text (123 # s)" "loads E (123 # s) = Inr (JObj xs)"
    using loads_pdump [of "indented quote" "\<lambda>_. True" E "JObj xs" "[]" 0] plain_pdump(2) [of E "JObj xs" 0]
      wf_jnorm [of E "JObj kvs"] json_texts_jnorm [of plain_text "JObj kvs"] assms unfolding xs s(1) by simp_all
  then show ?thesis
    using s(2) by (simp only: loads_bytes_def evidence_bytes_def xs s(1) json_bytes_text_utf8 option.case)
qed

definition package_members :: "(pystr \<times> bytes) list \<Rightarrow> (pystr \<times> json) list \<Rightarrow> (pystr \<times> bytes res) list" where
  "package_members ps manifest =
     map (\<lambda>(n, b). (n, Inr b)) (ps @ [(lit ''manifest.json'', evidence_bytes (JObj manifest))])"

lemma signed_parts:
  assumes "env_law E" "zip_law L" "map fst ps = payload_names" "manifest_plain tenant run_id created" "plain_text version"
    and m: "m = hashed_manifest E (evidence_manifest E version tenant run_id created ps)"
    and "plain_text (sg_algorithm s)" "plain_text (sg_key_id s)" "plain_text (sg_value s)"
  shows "zip_open L (build_zip L ps (signed_manifest m s)) = Inr (package_members ps (signed_manifest m s))"
    "(n, b) \<in> set ps \<Longrightarrow> zip_read (package_members ps (signed_manifest m s)) n = Inr b"
    "zip_read (package_members ps (signed_manifest m s)) (lit ''manifest.json'') = Inr (evidence_bytes (JObj (signed_manifest m s)))"
    "loads_bytes E (evidence_bytes (JObj (signed_manifest m s))) = Inr (jnorm (JObj (signed_manifest m s)))"
    "json_pop (lit ''signature'') (jnorm (JObj (signed_manifest m s))) = Inr (jnorm (signature_json s), jnorm (JObj m))"
proof -
  let ?ms = "ps @ [(lit ''manifest.json'', evidence_bytes (JObj (signed_manifest m s)))]"
  note h = hashed_manifest_ok [OF assms(1,3,4,5) m]
  have names: "distinct (map fst ?ms)" using assms(3) by (simp add: payload_names_def)
  have "\<forall>n \<in> set payload_names \<union> {lit ''manifest.json''}. list_all (\<lambda>c. 32 \<le> c \<and> c < 127) n" by code_simp
  then have ascii: "\<forall>n \<in> set (map fst ?ms). list_all (\<lambda>c. 32 \<le> c \<and> c < 127) n" using assms(3) by simp
  show "zip_open L (build_zip L ps (signed_manifest m s)) = Inr (package_members ps (signed_manifest m s))"
    using assms(2) [unfolded zip_law_def, rule_format, OF names] ascii by (simp add: build_zip_def package_members_def)
  show "(n, b) \<in> set ps \<Longrightarrow> zip_read (package_members ps (signed_manifest m s)) n = Inr b"
    unfolding package_members_def by (rule zip_read_member [OF names]) simp
  show "zip_read (package_members ps (signed_manifest m s)) (lit ''manifest.json'') = Inr (evidence_bytes (JObj (signed_manifest m s)))"
    unfolding package_members_def by (rule zip_read_member [OF names]) simp
  have keys: "distinct (map fst (m @ [(lit ''signature'', signature_json s)]))"
    using h(3) by simp
  have "wf_json E (JObj (signed_manifest m s))" "json_texts plain_text (JObj (signed_manifest m s))"
    using h(1,2) keys assms(7-9) by (auto simp: signed_manifest_def signature_json_def)
  then show "loads_bytes E (evidence_bytes (JObj (signed_manifest m s))) = Inr (jnorm (JObj (signed_manifest m s)))"
    by (rule loads_evidence)
  show "json_pop (lit ''signature'') (jnorm (JObj (signed_manifest m s))) = Inr (jnorm (signature_json s), jnorm (JObj m))"
    unfolding signed_manifest_def by (rule json_pop_jnorm [OF keys])
qed

lemma verify_signed:
  assumes "env_law E" "zip_law L" "map fst ps = payload_names" "manifest_plain tenant run_id created" "plain_text version"
    and m: "m = hashed_manifest E (evidence_manifest E version tenant run_id created ps)"
    and "plain_text (sg_algorithm s)" "plain_text (sg_key_id s)" "plain_text (sg_value s)"
    and sig: "signature_errors L (jnorm (signature_json s)) (utf8 (canonical_json (JObj m))) secret require pub = Inr []"
  shows "verify_evidence_package E L (build_zip L ps (signed_manifest m s)) secret require pub = Inr (True, [])"
proof -
  let ?ev = "evidence_manifest E version tenant run_id created ps"
  let ?zs = "package_members ps (signed_manifest m s)"
  note h = hashed_manifest_ok [OF assms(1,3,4,5) m] and parts = signed_parts [OF assms(1-9)]
  have hm: "m = ?ev @ [(lit ''manifest_hash'', JStr (sha256_json E (JObj ?ev)))]"
    by (simp add: m hashed_manifest_def)
  have keys: "distinct (map fst (?ev @ [(lit ''manifest_hash'', JStr (sha256_json E (JObj ?ev)))]))"
    using h(3) unfolding hm [symmetric] by simp
  have pop: "json_pop (lit ''manifest_hash'') (jnorm (JObj m)) = Inr (JStr (sha256_json E (JObj ?ev)), jnorm (JObj ?ev))"
    unfolding hm using json_pop_jnorm [OF keys] by simp
  have d: "distinct (map fst ?ev)" using keys by simp
  have files: "jget_or (lit ''files'') (JObj []) (jnorm (JObj ?ev)) = Inr (jnorm (JObj (map (\<lambda>(n, b). (n, JStr (sha256_hex E b))) ps)))"
    unfolding jget_or_jnorm [OF d] by (simp add: evidence_manifest_def)
  define fs where "fs = sort_key fst (map (\<lambda>(k, v). (k, jnorm v)) (map (\<lambda>(n, b). (n, JStr (sha256_hex E b))) ps))"
  have "\<exists>b. zip_read ?zs n = Inr b \<and> v = JStr (sha256_hex E b)" if "(n, v) \<in> set fs" for n v
    using that parts(2) by (auto simp: fs_def)
  then have errs: "file_errors E ?zs fs = Inr []" by (intro file_errors_none) auto
  have items: "json_items (jnorm (JObj (map (\<lambda>(n, b). (n, JStr (sha256_hex E b))) ps))) = Inr fs"
    by (simp add: json_items_def fs_def)
  show ?thesis
    unfolding verify_evidence_package_def parts(1) bind_res_simps parts(3) parts(4) parts(5) prod.case
      canonical_jnorm sig pop files items errs sha256_jnorm
    by simp
qed

lemma ed25519_no_errors:
  assumes "load_public_key L pub = Inr (Ed25519_Key p)" "key_pair L k p"
  shows "signature_errors L (jnorm (signature_json \<lparr>sg_algorithm = lit ''Ed25519'', sg_key_id = key_id,
      sg_value = b64encode (ed25519_sign L k m)\<rparr>)) m secret require (Some pub) = Inr []"
proof -
  have "jnorm (signature_json \<lparr>sg_algorithm = lit ''Ed25519'', sg_key_id = key_id,
      sg_value = b64encode (ed25519_sign L k m)\<rparr>) = JObj [(lit ''algorithm'', JStr (lit ''Ed25519'')),
      (lit ''key_id'', JStr key_id), (lit ''value'', JStr (b64encode (ed25519_sign L k m)))]"
    by (simp add: signature_json_def lit_def)
  then show ?thesis
    using assms by (simp add: signature_errors_def ed25519_accepts_def key_pair_def b64_roundtrip)
qed

lemma hmac_no_errors:
  assumes "list_all is_hex (hmac_hex L (utf8 secret) m)"
  shows "signature_errors L (jnorm (signature_json \<lparr>sg_algorithm = lit ''HMAC-SHA256'', sg_key_id = key_id,
      sg_value = hmac_hex L (utf8 secret) m\<rparr>)) m (Some secret) require pub = Inr []"
proof -
  have "jnorm (signature_json \<lparr>sg_algorithm = lit ''HMAC-SHA256'', sg_key_id = key_id,
      sg_value = hmac_hex L (utf8 secret) m\<rparr>) = JObj [(lit ''algorithm'', JStr (lit ''HMAC-SHA256'')),
      (lit ''key_id'', JStr key_id), (lit ''value'', JStr (hmac_hex L (utf8 secret) m))]"
    by (simp add: signature_json_def lit_def)
  moreover have "list_all (\<lambda>c. 0 \<le> c \<and> c < 128) (hmac_hex L (utf8 secret) m)"
    using assms(1) by (auto simp: list_all_iff is_hex_def)
  ultimately show ?thesis by (simp add: signature_errors_def compare_digest_def)
qed

text \<open>What a signer of the service makes verifies under the public key.\<close>

lemma built_package_verifies:
  assumes "env_law E" "zip_law L" "make_ed25519_signer L pem key_id = Inr signer"
    and "load_private_key L pem = Inr (Ed25519_Key k)" "load_public_key L pub = Inr (Ed25519_Key p)" "key_pair L k p"
    and "manifest_plain tenant run_id (ts 0)" "plain_text key_id"
    and "build_tax_run_package E L ts run_id tenant signer d = Inr ((package, manifest), d')"
  shows "verify_evidence_package E L package secret require (Some pub) = Inr (True, [])" and "d' = d"
proof -
  from assms(3,4) have s: "signer = (\<lambda>material. Inr \<lparr>sg_algorithm = lit ''Ed25519'', sg_key_id = key_id,
       sg_value = b64encode (ed25519_sign L k material)\<rparr>)"
    by (simp add: make_ed25519_signer_def)
  from assms(9) obtain ps where ps: "evidence_payloads tenant run_id d = Inr ps"
    by (auto simp: build_tax_run_package_def bind_res_Inr)
  let ?m = "hashed_manifest E (evidence_manifest E (lit ''flagship-evidence/v2'') tenant run_id (ts 0) ps)"
  let ?s = "\<lparr>sg_algorithm = lit ''Ed25519'', sg_key_id = key_id,
       sg_value = b64encode (ed25519_sign L k (utf8 (canonical_json (JObj ?m))))\<rparr>"
  from assms(9) ps have "package = build_zip L ps (signed_manifest ?m ?s)" and "d' = d"
    by (auto simp: build_tax_run_package_def s Let_def)
  moreover have "verify_evidence_package E L (build_zip L ps (signed_manifest ?m ?s)) secret require (Some pub) = Inr (True, [])"
    using assms(6,8) ed25519_no_errors [OF assms(5,6)]
    by (intro verify_signed [OF assms(1,2) payloads_names [OF ps] assms(7) _ refl]) (simp_all add: key_pair_def b64_plain)
  ultimately show "verify_evidence_package E L package secret require (Some pub) = Inr (True, [])" "d' = d" by simp_all
qed

section \<open>The evidence service\<close>

text \<open>
  \<^verbatim>\<open>EvidenceService\<close> on any object store.  \<^verbatim>\<open>preserve_tax_run\<close> builds the package, stores it and records
  that in the audit trail, in one transaction of the database, of which the first half only reads;
  what was stored stays when the audit event cannot be appended.
\<close>

definition check_retention :: "int \<Rightarrow> unit res" where
  "check_retention retention_days = raise_if (retention_days < 1) (ValueError (lit ''retention_days must be positive''))"

definition evidence_key :: "pystr \<Rightarrow> pystr \<Rightarrow> pystr" where
  "evidence_key tenant run_id = tenant @ lit ''/tax/'' @ run_id @ lit ''.zip''"

definition preserved_payload :: "stored_object \<Rightarrow> (pystr \<times> json) list \<Rightarrow> json" where
  "preserved_payload stored manifest = JObj [(lit ''object'', stored_dict stored),
     (lit ''manifest_hash'', case map_of manifest (lit ''manifest_hash'') of None \<Rightarrow> JNull | Some h \<Rightarrow> h)]"

definition preserve_tax_run ::
  "pyenv \<Rightarrow> evidence_lib \<Rightarrow> dialect \<Rightarrow> clock \<Rightarrow> 's store_put \<Rightarrow> evidence_signer \<Rightarrow> int \<Rightarrow> pystr \<Rightarrow> pystr \<Rightarrow> db \<Rightarrow> 's
     \<Rightarrow> stored_object res \<times> db \<times> 's" where
  "preserve_tax_run E L dl ts put signer retention_days tenant run_id d st =
     (case connect E dl (Some tenant) (build_tax_run_package E L ts run_id tenant signer) d of
        (Inl e, _) \<Rightarrow> (Inl e, d, st)
      | (Inr (package, manifest), _) \<Rightarrow>
          (case put (evidence_key tenant run_id) package retention_days st of
             (Inl e, st') \<Rightarrow> (Inl e, d, st')
           | (Inr stored, st') \<Rightarrow>
               (case connect E dl (Some tenant) (append_audit_event E (after_calls 1 ts) (lit ''evidence'')
                    (lit ''EVIDENCE_PRESERVED'') run_id (preserved_payload stored manifest) tenant) d of
                  (Inl e, d') \<Rightarrow> (Inl e, d', st')
                | (Inr _, d') \<Rightarrow> (Inr stored, d', st'))))"

definition read_evidence :: "'s store_get \<Rightarrow> 's \<Rightarrow> stored_object \<Rightarrow> bytes res" where
  "read_evidence get st stored = get st (so_key stored) (Some (so_version_id stored))"

text \<open>What is preserved in a store that keeps its contract is read back.\<close>

context immutable_store
begin

lemma preserved_package:
  assumes "preserve_tax_run E L dl ts put signer n tenant run_id d st = (Inr stored, d', st1)"
    and "ok st" "plain_text tenant" "plain_text run_id" "later st1 st2"
  obtains package manifest where "build_tax_run_package E L ts run_id tenant signer d = Inr ((package, manifest), d)"
    "get st2 (so_key stored) (Some (so_version_id stored)) = Inr package \<or> collides st stored package"
proof -
  from assms(1) obtain package manifest dx where
    b: "connect E dl (Some tenant) (build_tax_run_package E L ts run_id tenant signer) d = (Inr (package, manifest), dx)"
    and p: "put (evidence_key tenant run_id) package n st = (Inr stored, st1)"
    by (auto simp: preserve_tax_run_def split: prod.splits sum.splits)
  from connect_commit [OF b] have "build_tax_run_package E L ts run_id tenant signer d = Inr ((package, manifest), d)"
    by (auto simp: build_tax_run_package_def bind_res_Inr Let_def)
  moreover have "plain_text (evidence_key tenant run_id)" using assms(3,4) by (simp add: evidence_key_def)
  ultimately show thesis using that get_put [OF assms(2) _ p assms(5)] by blast
qed

end

text \<open>
  C20: Preserved evidence verifies.  If a run's evidence was preserved in a local store with a signer's
  private key, then under the description that was returned, and after any further puts, the store
  gives a package that \<^verbatim>\<open>verify_evidence_package\<close> accepts without errors under the public key, a
  signature being required; or the store held other bytes with the package's digest under its key.
\<close>

theorem preserved_evidence_verifies:
  assumes "written E deadline fs" and "zip_law L"
    and "make_ed25519_signer L pem key_id = Inr signer" and "load_private_key L pem = Inr (Ed25519_Key k)"
    and "load_public_key L pub = Inr (Ed25519_Key p)" and "key_pair L k p" and "plain_text key_id"
    and "manifest_plain tenant run_id (ts 0)"
    and "preserve_tax_run E L dl ts (put_immutable E deadline) signer n tenant run_id d fs = (Inr stored, d', fs1)"
    and "store_later E fs1 fs2"
  shows "(\<exists>package. read_evidence (get_object E) fs2 stored = Inr package
      \<and> verify_evidence_package E L package None True (Some pub) = Inr (True, []))
    \<or> (\<exists>package manifest other. build_tax_run_package E L ts run_id tenant signer d = Inr ((package, manifest), d)
      \<and> map_of fs (version_path (so_key stored) (so_version_id stored)) = Some other
      \<and> other \<noteq> package \<and> sha256_hex E other = sha256_hex E package)"
proof -
  have e: "env_law E" "plain_text tenant" "plain_text run_id"
    using assms(1,8) by (simp_all add: written_def manifest_plain_def)
  from local_store.preserved_package [OF assms(9,1) e(2,3) assms(10)] obtain package manifest where
    b: "build_tax_run_package E L ts run_id tenant signer d = Inr ((package, manifest), d)"
    and g: "get_object E fs2 (so_key stored) (Some (so_version_id stored)) = Inr package \<or> sha_collision E fs stored package" .
  from built_package_verifies(1) [OF e(1) assms(2-6,8,7) b]
  have "verify_evidence_package E L package None True (Some pub) = Inr (True, [])" .
  with g b show ?thesis unfolding read_evidence_def sha_collision_def by blast
qed

lemma exported_package_verifies:
  assumes "env_law E" "zip_law L" "manifest_plain tenant run_id (ts 0)" "plain_text key_id"
    and "export_tax_run E L ts run_id (Some secret) key_id tenant None d = Inr ((manifest, package), d')"
    and "\<And>m. list_all is_hex (hmac_hex L (utf8 secret) m)"
  shows "verify_evidence_package E L package (Some secret) True pub = Inr (True, [])"
proof -
  from assms(5) obtain ps where ps: "evidence_payloads tenant run_id d = Inr ps"
    by (auto simp: export_tax_run_def bind_res_Inr)
  let ?m = "hashed_manifest E (evidence_manifest E (lit ''flagship-evidence/v1'') tenant run_id (ts 0) ps)"
  let ?s = "\<lparr>sg_algorithm = lit ''HMAC-SHA256'', sg_key_id = key_id,
       sg_value = hmac_hex L (utf8 secret) (utf8 (canonical_json (JObj ?m)))\<rparr>"
  from assms(5) ps have "package = build_zip L ps (signed_manifest ?m ?s)"
    by (auto simp: export_tax_run_def export_signature_def Let_def)
  moreover have "verify_evidence_package E L (build_zip L ps (signed_manifest ?m ?s)) (Some secret) True pub = Inr (True, [])"
    using assms(4,6) hmac_no_errors [OF assms(6)]
    by (intro verify_signed [OF assms(1,2) payloads_names [OF ps] assms(3) _ refl]) (simp_all add: plain_hex)
  ultimately show ?thesis by simp
qed

section \<open>Tampering\<close>

definition package_manifest :: "pyenv \<Rightarrow> evidence_lib \<Rightarrow> bytes \<Rightarrow> ((pystr \<times> bytes res) list \<times> json) res" where
  "package_manifest E L package =
     bind_res (zip_open L package) (\<lambda>ms.
     bind_res (zip_read ms (lit ''manifest.json'')) (\<lambda>t.
     bind_res (loads_bytes E t) (\<lambda>whole.
     bind_res (json_pop (lit ''signature'') whole) (\<lambda>(sig, manifest). Inr (ms, manifest)))))"

lemma file_errors_sound:
  "file_errors E ms fs = Inr [] \<Longrightarrow> (n, v) \<in> set fs \<Longrightarrow> \<exists>b. zip_read ms n = Inr b \<and> v = JStr (sha256_hex E b)"
proof (induction fs)
  case (Cons f fs)
  then show ?case
    by (cases f) (auto simp: bind_res_Inr split: sum.splits py_error.splits if_splits)
qed simp

lemma json_pop_obj: "json_pop k v = Inr (x, rest) \<Longrightarrow>
    \<exists>kvs. v = JObj kvs \<and> rest = JObj (filter (\<lambda>kv. fst kv \<noteq> k) kvs) \<and> (map_of kvs k = Some x \<or> map_of kvs k = None \<and> x = JNull)"
  by (auto simp: json_pop_def split: json.splits option.splits)

lemma wf_filter: "wf_json E (JObj kvs) \<Longrightarrow> wf_json E (JObj (filter P kvs))"
  by (auto simp: distinct_map_filter)

text \<open>What an accepted package says: its bare manifest has the recorded hash, and its files theirs.\<close>

lemma accepted_package:
  assumes "verify_evidence_package E L package secret require pub = Inr (True, [])" "float_law E"
  obtains ms kvs bare where "package_manifest E L package = Inr (ms, JObj kvs)"
    "bare = filter (\<lambda>kv. fst kv \<noteq> lit ''manifest_hash'') kvs" "wf_json E (JObj bare)"
    "map_of kvs (lit ''manifest_hash'') = Some (JStr (sha256_json E (JObj bare)))"
    "\<And>fs n v. map_of bare (lit ''files'') = Some (JObj fs) \<Longrightarrow> (n, v) \<in> set fs \<Longrightarrow>
       \<exists>b. zip_read ms n = Inr b \<and> v = JStr (sha256_hex E b)"
proof -
  from assms(1) obtain ms t whole sig manifest es1 supplied bare files items es3 where
    v: "zip_open L package = Inr ms" "zip_read ms (lit ''manifest.json'') = Inr t" "loads_bytes E t = Inr whole"
      "json_pop (lit ''signature'') whole = Inr (sig, manifest)"
      "json_pop (lit ''manifest_hash'') manifest = Inr (supplied, bare)"
      "jget_or (lit ''files'') (JObj []) bare = Inr files" "json_items files = Inr items"
      "file_errors E ms items = Inr es3"
      "es1 @ (if JStr (sha256_json E bare) \<noteq> supplied then [lit ''manifest_hash_mismatch''] else []) @ es3 = []"
    by (auto simp: verify_evidence_package_def bind_res_Inr Let_def split: prod.splits)
  from json_pop_obj [OF v(4)] obtain ks where ks: "whole = JObj ks" "manifest = JObj (filter (\<lambda>kv. fst kv \<noteq> lit ''signature'') ks)"
    by blast
  let ?kvs = "filter (\<lambda>kv. fst kv \<noteq> lit ''signature'') ks"
  let ?bare = "filter (\<lambda>kv. fst kv \<noteq> lit ''manifest_hash'') ?kvs"
  from json_pop_obj [OF v(5)] ks have b: "bare = JObj ?bare"
    "map_of ?kvs (lit ''manifest_hash'') = Some supplied \<or> supplied = JNull" by auto
  have s: "supplied = JStr (sha256_json E bare)" "es3 = []" using v(9) by (auto split: if_splits)
  have "wf_json E whole" using v(3) loads_wf [OF assms(2)] by (auto simp: loads_bytes_def split: option.splits)
  then have wf: "wf_json E (JObj ?bare)" unfolding ks(1) by (intro wf_filter)
  have m: "package_manifest E L package = Inr (ms, JObj ?kvs)"
    using v(1-4) ks(2) by (simp add: package_manifest_def)
  have f: "\<exists>b. zip_read ms n = Inr b \<and> x = JStr (sha256_hex E b)"
    if "map_of ?bare (lit ''files'') = Some (JObj fs)" "(n, x) \<in> set fs" for fs n x
    using that v(6-8) b(1) s(2) file_errors_sound by (fastforce simp: json_items_def)
  show thesis using that [OF m refl wf _ f] b s by auto
qed

lemma jnorm_is_JStr: "jnorm v = JStr s \<longleftrightarrow> v = JStr s"
  by (cases v) simp_all

lemma same_files:
  assumes "wf_json E (JObj fs)" "wf_json E y" "canonical_json y = canonical_json (JObj fs)" "(n, JStr h) \<in> set fs"
  obtains gs where "y = JObj gs" "(n, JStr h) \<in> set gs"
proof -
  have j: "jnorm y = jnorm (JObj fs)" using canonical_json_inject [OF assms(2,1)] assms(3) by simp
  then obtain gs where gs: "y = JObj gs" by (cases y) simp_all
  have "map_of fs n = Some (JStr h)" using assms(1,4) by simp
  then have "map_option canonical_json (map_of gs n) = Some (canonical_json (JStr h))"
    using canonical_object_eq [of E gs fs] assms(1-3) gs by simp
  then obtain v where v: "map_of gs n = Some v" "canonical_json v = canonical_json (JStr h)" by auto
  have "wf_json E v" using assms(2) gs map_of_SomeD [OF v(1)] by auto
  then have "jnorm v = JStr h" using canonical_json_inject [of E v "JStr h"] v(2) by simp
  then have "(n, JStr h) \<in> set gs" using map_of_SomeD [OF v(1)] by (simp add: jnorm_is_JStr)
  with gs that show thesis by blast
qed

text \<open>A manifest that says of its own text and of the package's files what is true.\<close>

definition bare_manifest :: "(pystr \<times> json) list \<Rightarrow> (pystr \<times> json) list" where
  "bare_manifest m = filter (\<lambda>kv. fst kv \<noteq> lit ''manifest_hash'') m"

definition truthful :: "pyenv \<Rightarrow> (pystr \<times> bytes res) list \<Rightarrow> (pystr \<times> json) list \<Rightarrow> bool" where
  "truthful E ms m \<longleftrightarrow> wf_json E (JObj (bare_manifest m))
     \<and> map_of m (lit ''manifest_hash'') = Some (JStr (sha256_json E (JObj (bare_manifest m))))
     \<and> (\<forall>fs n v. map_of (bare_manifest m) (lit ''files'') = Some (JObj fs) \<longrightarrow> (n, v) \<in> set fs \<longrightarrow>
          (\<exists>x. zip_read ms n = Inr x \<and> v = JStr (sha256_hex E x)))"

lemma accepted_truthful:
  assumes "verify_evidence_package E L p secret require pub = Inr (True, [])" "float_law E"
    and "package_manifest E L p = Inr (ms, JObj a)"
  shows "truthful E ms a"
proof -
  obtain ms' kvs bare where
    p: "package_manifest E L p = Inr (ms', JObj kvs)" "bare = filter (\<lambda>kv. fst kv \<noteq> lit ''manifest_hash'') kvs"
      "wf_json E (JObj bare)" "map_of kvs (lit ''manifest_hash'') = Some (JStr (sha256_json E (JObj bare)))"
      "\<And>fs n v. map_of bare (lit ''files'') = Some (JObj fs) \<Longrightarrow> (n, v) \<in> set fs \<Longrightarrow>
         \<exists>b. zip_read ms' n = Inr b \<and> v = JStr (sha256_hex E b)"
    by (rule accepted_package [OF assms(1,2)]) blast
  from p(1) assms(3) have e: "ms' = ms" "kvs = a" by simp_all
  show ?thesis using p(3-) unfolding truthful_def bare_manifest_def p(2) e by blast
qed

lemma wf_member: "wf_json E (JObj kvs) \<Longrightarrow> map_of kvs k = Some v \<Longrightarrow> wf_json E v"
  by (fastforce dest: map_of_SomeD)

lemma map_of_bare: "map_of (bare_manifest m) k = (if k = lit ''manifest_hash'' then None else map_of m k)"
  unfolding bare_manifest_def by (induction m) auto

text \<open>Two truthful manifests with the same bare text agree in every member, and on the digests of their files.\<close>

lemma same_members:
  assumes "truthful E ms a" "truthful E ns b" "canonical_json (JObj (bare_manifest a)) = canonical_json (JObj (bare_manifest b))"
    and "map_of a (lit ''manifest_hash'') = map_of b (lit ''manifest_hash'')"
  shows "map_option canonical_json (map_of a k) = map_option canonical_json (map_of b k)"
proof (cases "k = lit ''manifest_hash''")
  case False
  have "wf_json E (JObj (bare_manifest a))" "wf_json E (JObj (bare_manifest b))" using assms(1,2) by (simp_all add: truthful_def)
  from iffD1 [OF canonical_object_eq [OF this] assms(3)] have "map_option canonical_json (map_of (bare_manifest a) k) =
      map_option canonical_json (map_of (bare_manifest b) k)" by blast
  with False show ?thesis by (simp add: map_of_bare)
qed (use assms(4) in simp)

lemma same_digests:
  assumes "truthful E ms a" "truthful E ns b"
    and "map_option canonical_json (map_of a (lit ''files'')) = map_option canonical_json (map_of b (lit ''files''))"
    and "map_of a (lit ''files'') = Some (JObj fs)" "(n, v) \<in> set fs"
  obtains x z where "zip_read ms n = Inr x" "zip_read ns n = Inr z" "sha256_hex E x = sha256_hex E z"
proof -
  have fa: "map_of (bare_manifest a) (lit ''files'') = Some (JObj fs)" using assms(4) by (simp add: map_of_bare)
  with assms(1,5) obtain x where x: "zip_read ms n = Inr x" "v = JStr (sha256_hex E x)" unfolding truthful_def by blast
  from assms(3,4) obtain y where y: "map_of b (lit ''files'') = Some y" "canonical_json y = canonical_json (JObj fs)"
    by (cases "map_of b (lit ''files'')") auto
  have fb: "map_of (bare_manifest b) (lit ''files'') = Some y" using y(1) by (simp add: map_of_bare)
  have wf: "wf_json E (JObj fs)" "wf_json E y" using assms(1,2) wf_member fa fb unfolding truthful_def by blast+
  from same_files [OF wf y(2)] assms(5) x(2) obtain gs where gs: "y = JObj gs" "(n, JStr (sha256_hex E x)) \<in> set gs" by blast
  with assms(2) fb obtain z where "zip_read ns n = Inr z" "sha256_hex E z = sha256_hex E x" unfolding truthful_def by fastforce
  with x(1) that show thesis by simp
qed

text \<open>The texts that an accepted package's digests are of: its bare manifest and its members.\<close>

definition hashed_texts :: "(pystr \<times> bytes res) list \<Rightarrow> (pystr \<times> json) list \<Rightarrow> bytes set" where
  "hashed_texts ms m = insert (utf8 (canonical_json (JObj (filter (\<lambda>kv. fst kv \<noteq> lit ''manifest_hash'') m))))
     {data. \<exists>name. zip_read ms name = Inr data}"

lemma hashed_bare: "utf8 (canonical_json (JObj (bare_manifest m))) \<in> hashed_texts ms m"
  by (simp add: hashed_texts_def bare_manifest_def)

lemma hashed_member: "zip_read ms name = Inr data \<Longrightarrow> data \<in> hashed_texts ms m"
  unfolding hashed_texts_def by blast

text \<open>
  C21: Tampering with evidence is detected.  If two packages are accepted, under whatever keys, and
  their manifests record the same hash, then the manifests say the same, and each file that they list
  is in both packages with the same bytes; or two different texts of the two packages, of those that
  are hashed, have the same digest.
\<close>

theorem evidence_tamper_evident:
  assumes "env_law E"
    and "verify_evidence_package E L p s1 r1 k1 = Inr (True, [])" and "verify_evidence_package E L q s2 r2 k2 = Inr (True, [])"
    and "package_manifest E L p = Inr (ms, JObj a)" and "package_manifest E L q = Inr (ns, JObj b)"
    and "map_of a (lit ''manifest_hash'') = map_of b (lit ''manifest_hash'')"
  shows "(\<forall>k. map_option canonical_json (map_of a k) = map_option canonical_json (map_of b k))
      \<and> (\<forall>fs. map_of a (lit ''files'') = Some (JObj fs) \<longrightarrow>
           (\<forall>f \<in> set fs. \<exists>data. zip_read ms (fst f) = Inr data \<and> zip_read ns (fst f) = Inr data))
    \<or> (\<exists>x \<in> hashed_texts ms a. \<exists>y \<in> hashed_texts ns b. x \<noteq> y \<and> sha256_hex E x = sha256_hex E y)"
proof (cases "\<exists>x \<in> hashed_texts ms a. \<exists>y \<in> hashed_texts ns b. x \<noteq> y \<and> sha256_hex E x = sha256_hex E y")
  case False
  have fl: "float_law E" using assms(1) by (simp add: env_law_def)
  note t = accepted_truthful [OF assms(2) fl assms(4)] accepted_truthful [OF assms(3) fl assms(5)]
  have "sha256_json E (JObj (bare_manifest a)) = sha256_json E (JObj (bare_manifest b))" using t assms(6) by (simp add: truthful_def)
  with False hashed_bare have "utf8 (canonical_json (JObj (bare_manifest a))) = utf8 (canonical_json (JObj (bare_manifest b)))"
    unfolding sha256_json_def by blast
  then have same: "map_option canonical_json (map_of a k) = map_option canonical_json (map_of b k)" for k
    using same_members [OF t _ assms(6)] by simp
  have "\<exists>data. zip_read ms n = Inr data \<and> zip_read ns n = Inr data"
    if listed: "map_of a (lit ''files'') = Some (JObj fs)" "(n, v) \<in> set fs" for fs n v
  proof -
    obtain x z where "zip_read ms n = Inr x" "zip_read ns n = Inr z" "sha256_hex E x = sha256_hex E z"
      by (rule same_digests [OF t same listed])
    moreover from this have "x = z" using False hashed_member by blast
    ultimately show ?thesis by blast
  qed
  with same show ?thesis by fastforce
qed simp

section \<open>Witnesses\<close>

text \<open>A library whose archives are JSON texts and whose signatures are lengths.\<close>

definition demo_zip :: "(pystr \<times> bytes) list \<Rightarrow> bytes" where
  "demo_zip ms = dump (JList (map (\<lambda>(n, b). JList [JStr n, JStr b]) ms))"

definition demo_unzip :: "bytes \<Rightarrow> (pystr \<times> bytes res) list res" where
  "demo_unzip t = (case loads demo_env t of
     Inr (JList xs) \<Rightarrow> Inr (map (\<lambda>x. case x of JList [JStr n, JStr b] \<Rightarrow> (n, Inr b) | _ \<Rightarrow> ([], Inl BadZipFile)) xs)
   | _ \<Rightarrow> Inl BadZipFile)"

definition demo_evidence :: evidence_lib where
  "demo_evidence = \<lparr>load_private_key = (\<lambda>pem. Inr (Ed25519_Key pem)), load_public_key = (\<lambda>pem. Inr (Ed25519_Key pem)),
     ed25519_sign = (\<lambda>k m. [int (length m) mod 256]), ed25519_verify = (\<lambda>k s m. s = [int (length m) mod 256]),
     hmac_hex = (\<lambda>k m. demo_sha (k @ m)), zip_pack = demo_zip, zip_open = demo_unzip\<rparr>"

lemma demo_zip_law [simp]: "zip_law demo_evidence"
proof -
  have "demo_unzip (demo_zip ms) = Inr (map (\<lambda>(n, b). (n, Inr b)) ms)" for ms
  proof -
    have "loads demo_env (demo_zip ms) = Inr (JList (map (\<lambda>(n, b). JList [JStr n, JStr b]) ms))"
      unfolding demo_zip_def by (rule loads_dump) auto
    then show ?thesis by (simp add: demo_unzip_def case_prod_unfold)
  qed
  then show ?thesis by (simp add: zip_law_def demo_evidence_def)
qed

lemma demo_key_pair [simp]: "key_pair demo_evidence k p"
  by (simp add: key_pair_def demo_evidence_def is_byte_def)

definition demo_run :: tax_rule_run where
  "demo_run = \<lparr>tr_run_id = lit ''r1'', tr_tenant = lit ''acme'', tr_rule_version = lit ''v1'', tr_rule_pack_json = lit ''{}'',
     tr_started_at = lit ''2026-01-01T00Z'', tr_completed_at = None, tr_transaction_count = 0, tr_finding_count = 0\<rparr>"

definition demo_run_db :: db where
  "demo_run_db = empty_db\<lparr>tax_rule_runs := [demo_run]\<rparr>"

definition demo_signer :: "pystr \<Rightarrow> evidence_signer" where
  "demo_signer key_id material = Inr \<lparr>sg_algorithm = lit ''Ed25519'', sg_key_id = key_id,
     sg_value = b64encode [int (length material) mod 256]\<rparr>"

lemma demo_make_signer: "make_ed25519_signer demo_evidence [] key_id = Inr (demo_signer key_id)"
  by (simp add: make_ed25519_signer_def demo_evidence_def demo_signer_def fun_eq_iff)

lemma demo_key_loads: "load_private_key demo_evidence k = Inr (Ed25519_Key k)" "load_public_key demo_evidence k = Inr (Ed25519_Key k)"
  by (simp_all add: demo_evidence_def)

lemma demo_build:
  obtains package manifest ps where "build_tax_run_package demo_env demo_evidence demo_clock (lit ''r1'') (lit ''acme'') (demo_signer key_id)
      demo_run_db = Inr ((package, manifest), demo_run_db)" "evidence_payloads (lit ''acme'') (lit ''r1'') demo_run_db = Inr ps"
      "manifest = signed_manifest (hashed_manifest demo_env (evidence_manifest demo_env (lit ''flagship-evidence/v2'')
         (lit ''acme'') (lit ''r1'') (demo_clock 0) ps)) (projr (demo_signer key_id (utf8 (canonical_json (JObj
           (hashed_manifest demo_env (evidence_manifest demo_env (lit ''flagship-evidence/v2'')
             (lit ''acme'') (lit ''r1'') (demo_clock 0) ps)))))))"
      "package = build_zip demo_evidence ps manifest"
proof -
  have "\<exists>ps. evidence_payloads (lit ''acme'') (lit ''r1'') demo_run_db = Inr ps"
    by (simp add: evidence_payloads_def demo_run_db_def demo_run_def find_row_Cons)
  then obtain ps where "evidence_payloads (lit ''acme'') (lit ''r1'') demo_run_db = Inr ps" by blast
  with that show thesis by (simp add: build_tax_run_package_def demo_signer_def Let_def)
qed

lemma demo_manifest_plain: "manifest_plain (lit ''acme'') (lit ''r1'') (demo_clock 0)"
  by (simp add: manifest_plain_def demo_clock_def)

lemma preserved_evidence_verifies_witness:
  "\<exists>package d'. preserve_tax_run demo_env demo_evidence Sqlite demo_clock (put_immutable demo_env demo_deadline)
      (demo_signer (lit ''k1'')) 30 (lit ''acme'') (lit ''r1'') demo_run_db [] = (Inr (demo_stored package), d', demo_files package)
    \<and> (\<exists>p. read_evidence (get_object demo_env) (demo_files package) (demo_stored package) = Inr p
          \<and> verify_evidence_package demo_env demo_evidence p None True (Some []) = Inr (True, []))"
proof -
  obtain package manifest ps where b: "build_tax_run_package demo_env demo_evidence demo_clock (lit ''r1'') (lit ''acme'')
      (demo_signer (lit ''k1'')) demo_run_db = Inr ((package, manifest), demo_run_db)" by (rule demo_build)
  have k: "evidence_key (lit ''acme'') (lit ''r1'') = demo_key" by (simp add: evidence_key_def demo_key_def lit_append)
  have a: "\<exists>h d'. append_audit_event demo_env ts (lit ''evidence'') (lit ''EVIDENCE_PRESERVED'') (lit ''r1'') payload
      (lit ''acme'') demo_run_db = Inr (h, d')" for ts payload
    by (simp add: append_audit_event_def Let_def bind_tx_def insert_audit_event_def demo_run_db_def empty_db_def
        append_outbox_event_def)
  from a [of "after_calls 1 demo_clock" "preserved_payload (demo_stored package) manifest"] obtain h d' where
    "append_audit_event demo_env (after_calls 1 demo_clock) (lit ''evidence'') (lit ''EVIDENCE_PRESERVED'') (lit ''r1'')
      (preserved_payload (demo_stored package) manifest) (lit ''acme'') demo_run_db = Inr (h, d')" by blast
  then have run: "preserve_tax_run demo_env demo_evidence Sqlite demo_clock (put_immutable demo_env demo_deadline)
      (demo_signer (lit ''k1'')) 30 (lit ''acme'') (lit ''r1'') demo_run_db [] = (Inr (demo_stored package), d', demo_files package)"
    by (simp add: preserve_tax_run_def connect_eq b k demo_put)
  have "written demo_env demo_deadline []" by (simp add: written_def demo_deadline_plain)
  from preserved_evidence_verifies [OF this demo_zip_law demo_make_signer demo_key_loads(1) demo_key_loads(2) [of "[]"]
      demo_key_pair _ demo_manifest_plain run, of "demo_files package"] run
  show ?thesis by (auto simp: store_later_def)
qed

definition demo_hashed :: "(pystr \<times> bytes) list \<Rightarrow> (pystr \<times> json) list" where
  "demo_hashed ps = hashed_manifest demo_env (evidence_manifest demo_env (lit ''flagship-evidence/v2'')
     (lit ''acme'') (lit ''r1'') (demo_clock 0) ps)"

definition demo_signature :: "pystr \<Rightarrow> (pystr \<times> bytes) list \<Rightarrow> signature" where
  "demo_signature key_id ps = projr (demo_signer key_id (utf8 (canonical_json (JObj (demo_hashed ps)))))"

definition demo_package :: "pystr \<Rightarrow> (pystr \<times> bytes) list \<Rightarrow> bytes" where
  "demo_package key_id ps = build_zip demo_evidence ps (signed_manifest (demo_hashed ps) (demo_signature key_id ps))"

lemma demo_package_parts:
  assumes "map fst ps = payload_names" "plain_text key_id"
  shows "package_manifest demo_env demo_evidence (demo_package key_id ps)
      = Inr (package_members ps (signed_manifest (demo_hashed ps) (demo_signature key_id ps)), jnorm (JObj (demo_hashed ps)))"
    and "verify_evidence_package demo_env demo_evidence (demo_package key_id ps) None True (Some []) = Inr (True, [])"
    and "bind_res (zip_open demo_evidence (demo_package key_id ps)) (\<lambda>ms. bind_res (zip_read ms (lit ''manifest.json'')) (\<lambda>t.
      bind_res (loads_bytes demo_env t) (json_pop (lit ''signature'')))) =
        Inr (jnorm (signature_json (demo_signature key_id ps)), jnorm (JObj (demo_hashed ps)))"
proof -
  have s: "plain_text (sg_algorithm (demo_signature key_id ps))" "plain_text (sg_key_id (demo_signature key_id ps))"
    "plain_text (sg_value (demo_signature key_id ps))"
    using assms(2) b64_plain [of "[int (length (utf8 (canonical_json (JObj (demo_hashed ps))))) mod 256]"]
    by (simp_all del: b64encode.simps add: demo_signature_def demo_signer_def is_byte_def)
  have v: "plain_text (lit ''flagship-evidence/v2'')" by simp
  note parts = signed_parts [OF demo_env_law demo_zip_law assms(1) demo_manifest_plain v demo_hashed_def s]
  show "package_manifest demo_env demo_evidence (demo_package key_id ps)
      = Inr (package_members ps (signed_manifest (demo_hashed ps) (demo_signature key_id ps)), jnorm (JObj (demo_hashed ps)))"
    unfolding package_manifest_def demo_package_def parts(1) bind_res_simps parts(3-5) by simp
  show "bind_res (zip_open demo_evidence (demo_package key_id ps)) (\<lambda>ms. bind_res (zip_read ms (lit ''manifest.json'')) (\<lambda>t.
      bind_res (loads_bytes demo_env t) (json_pop (lit ''signature'')))) =
        Inr (jnorm (signature_json (demo_signature key_id ps)), jnorm (JObj (demo_hashed ps)))"
    unfolding demo_package_def parts(1) bind_res_simps parts(3-5) by simp
  have e: "signature_errors demo_evidence (jnorm (signature_json (demo_signature key_id ps)))
      (utf8 (canonical_json (JObj (demo_hashed ps)))) None True (Some []) = Inr []"
    using ed25519_no_errors [OF demo_key_loads(2) [of "[]"] demo_key_pair, of key_id "[]" "utf8 (canonical_json (JObj (demo_hashed ps)))"]
    by (simp add: demo_signature_def demo_signer_def demo_evidence_def)
  show "verify_evidence_package demo_env demo_evidence (demo_package key_id ps) None True (Some []) = Inr (True, [])"
    unfolding demo_package_def
    by (rule verify_signed [OF demo_env_law demo_zip_law assms(1) demo_manifest_plain v demo_hashed_def s e])
qed

lemma demo_packages_differ:
  assumes "map fst ps = payload_names"
  shows "demo_package (lit ''k1'') ps \<noteq> demo_package (lit ''k2'') ps"
proof
  assume "demo_package (lit ''k1'') ps = demo_package (lit ''k2'') ps"
  then have "jnorm (signature_json (demo_signature (lit ''k1'') ps)) = jnorm (signature_json (demo_signature (lit ''k2'') ps))"
    using demo_package_parts(3) [OF assms, of "lit ''k1''"] demo_package_parts(3) [OF assms, of "lit ''k2''"] by simp
  then show False by (simp add: signature_json_def demo_signature_def demo_signer_def lit_def)
qed

text \<open>Two packages of the same run, signed under different key ids.\<close>

lemma evidence_tamper_evident_witness:
  "\<exists>p q ms ns a b. p \<noteq> q \<and> package_manifest demo_env demo_evidence p = Inr (ms, JObj a)
    \<and> package_manifest demo_env demo_evidence q = Inr (ns, JObj b)
    \<and> ((\<forall>k. map_option canonical_json (map_of a k) = map_option canonical_json (map_of b k))
      \<and> (\<forall>fs. map_of a (lit ''files'') = Some (JObj fs) \<longrightarrow>
           (\<forall>f \<in> set fs. \<exists>data. zip_read ms (fst f) = Inr data \<and> zip_read ns (fst f) = Inr data))
    \<or> (\<exists>x \<in> hashed_texts ms a. \<exists>y \<in> hashed_texts ns b. x \<noteq> y \<and> sha256_hex demo_env x = sha256_hex demo_env y))"
proof -
  define ps :: "(pystr \<times> bytes) list" where "ps = map (\<lambda>n. (n, [123, 125])) payload_names"
  have n: "map fst ps = payload_names" by (simp add: ps_def o_def)
  obtain a where a: "jnorm (JObj (demo_hashed ps)) = JObj a" by simp
  have k: "plain_text (lit ''k1'')" "plain_text (lit ''k2'')" by simp_all
  note p = demo_package_parts [OF n k(1)] and q = demo_package_parts [OF n k(2)]
  show ?thesis
    by (intro exI conjI, rule demo_packages_differ [OF n], rule p(1) [unfolded a], rule q(1) [unfolded a],
      rule evidence_tamper_evident [OF demo_env_law p(2) q(2) p(1) [unfolded a] q(1) [unfolded a] refl])
qed

end
