(* ===== verification/Reviews.thy ===== *)
theory Reviews
  imports System
begin

text \<open>
  The four-eyes rule as an invariant of the system: in every reachable database a run has at most one
  workflow, and a workflow whose review is decided names a reviewer who is not its requester.
\<close>

definition decided_by_other :: "tax_run_workflow \<Rightarrow> bool" where
  "decided_by_other w \<longleftrightarrow> rw_status w = pending_review \<or> (\<exists>u. rw_reviewed_by w = Some u \<and> u \<noteq> rw_requested_by w)"

definition workflows_ok :: "db \<Rightarrow> bool" where
  "workflows_ok d \<longleftrightarrow> distinct (map rw_run_id (tax_run_workflows d)) \<and> list_all decided_by_other (tax_run_workflows d)"

lemma workflows_ok_empty: "workflows_ok empty_db"
  by (simp add: workflows_ok_def empty_db_def)

lemma workflows_ok_cong: "tax_run_workflows d' = tax_run_workflows d \<Longrightarrow> workflows_ok d' = workflows_ok d"
  by (simp add: workflows_ok_def)

section \<open>Operations that leave the workflows alone\<close>

definition same_workflows :: "db \<Rightarrow> db \<Rightarrow> bool" where
  "same_workflows d d' \<longleftrightarrow> tax_run_workflows d' = tax_run_workflows d"

lemma same_workflows_refl [simp]: "same_workflows d d"
  by (simp add: same_workflows_def)

lemma same_workflows_upd [simp]:
  "same_workflows d (d1\<lparr>audit_events := x0\<rparr>) = same_workflows d d1"
  "same_workflows d (d1\<lparr>tax_transactions := x1\<rparr>) = same_workflows d d1"
  "same_workflows d (d1\<lparr>tax_rule_runs := x2\<rparr>) = same_workflows d d1"
  "same_workflows d (d1\<lparr>tax_findings := x3\<rparr>) = same_workflows d d1"
  "same_workflows d (d1\<lparr>regulation_documents := x4\<rparr>) = same_workflows d d1"
  "same_workflows d (d1\<lparr>control_events := x5\<rparr>) = same_workflows d d1"
  "same_workflows d (d1\<lparr>control_cases := x6\<rparr>) = same_workflows d d1"
  "same_workflows d (d1\<lparr>control_case_transitions := x7\<rparr>) = same_workflows d d1"
  "same_workflows d (d1\<lparr>graph_entities := x8\<rparr>) = same_workflows d d1"
  "same_workflows d (d1\<lparr>graph_edges := x9\<rparr>) = same_workflows d d1"
  by (simp_all add: same_workflows_def)

lemma same_workflows_intros:
  "append_audit_event E ts m et i p t d1 = Inr (h, d2) \<Longrightarrow> same_workflows d d1 \<Longrightarrow> same_workflows d d2"
  "store_idempotent_response ts t op key h' v d1 = Inr (u, d2) \<Longrightarrow> same_workflows d d1 \<Longrightarrow> same_workflows d d2"
  "store_findings t run_id now found n d1 = Inr (u, d2) \<Longrightarrow> same_workflows d d1 \<Longrightarrow> same_workflows d d2"
  "insert_rule_run run_id t ver pk now d1 = Inr (u, d2) \<Longrightarrow> same_workflows d d1 \<Longrightarrow> same_workflows d d2"
  by (auto simp: same_workflows_def dest!: append_audit_event_workflows store_keeps_db store_findings_frame
      insert_rule_run_frame)

lemma ingest_same_workflows: "ingest E dl ts uid tenant rows key d = (r, d') \<Longrightarrow> same_workflows d d'"
  unfolding ingest_def
  by (erule connect_invariant, simp)
     (auto simp: ingest_body_def tx_Inr split: if_splits elim!: same_workflows_intros)

lemma run_rules_same_workflows: "run_rules E dl ts run_id tenant version pack key d = (r, d') \<Longrightarrow> same_workflows d d'"
  unfolding run_rules_def Let_def
  by (auto split: sum.splits elim!: connect_invariant)
     (auto simp: run_rules_body_def Let_def tx_Inr split: if_splits elim!: same_workflows_intros)

lemma ingest_event_same_workflows: "ingest_and_evaluate E dl ts tenant e d = (r, d') \<Longrightarrow> same_workflows d d'"
  unfolding ingest_and_evaluate_def Let_def
  by (auto split: sum.splits elim!: connect_invariant)
     (auto simp: ingest_event_body_def tx_Inr insert_control_event_def split: if_splits elim!: same_workflows_intros)

lemma transition_same_workflows: "transition_case E dl ts tenant i actor to_status reason d = (r, d') \<Longrightarrow> same_workflows d d'"
  unfolding transition_case_def Let_def
  by (auto split: if_splits elim!: connect_invariant)
     (auto simp: apply_transition_def Let_def tx_Inr split: if_splits elim!: same_workflows_intros)

lemma add_entities_same_workflows: "add_entities E dl ts tenant xs d = (r, d') \<Longrightarrow> same_workflows d d'"
  unfolding add_entities_def
  by (erule connect_invariant, simp)
     (auto simp: tx_Inr upsert_entities_def split: if_splits elim!: same_workflows_intros)

lemma add_edges_same_workflows: "add_edges E dl ts tenant xs d = (r, d') \<Longrightarrow> same_workflows d d'"
  unfolding add_edges_def
  by (erule connect_invariant, simp) (auto simp: tx_Inr elim!: same_workflows_intros)

lemma add_document_same_workflows:
  "add_document E dl ts tenant key title url published content d = (r, d') \<Longrightarrow> same_workflows d d'"
  unfolding add_document_def Let_def
  by (erule connect_invariant, simp) (auto simp: tx_Inr elim!: same_workflows_intros)

lemma record_evidence_same_workflows:
  "record_evidence E dl ts tenant run_id payload d = (r, d') \<Longrightarrow> same_workflows d d'"
  unfolding record_evidence_def
  by (erule connect_invariant, simp) (auto elim!: same_workflows_intros)

lemmas operation_same_workflows = ingest_same_workflows run_rules_same_workflows ingest_event_same_workflows
  transition_same_workflows add_entities_same_workflows add_edges_same_workflows add_document_same_workflows
  record_evidence_same_workflows

section \<open>Requests and decisions\<close>

lemma request_review_workflows_ok:
  assumes "request_review E dl ts tenant run_id requester d = (r, d')" "workflows_ok d"
  shows "workflows_ok d'"
  using assms unfolding request_review_def
  by (auto split: if_splits elim!: connect_invariant)
     (auto simp: request_review_body_def tx_Inr workflow_row_def insert_workflow_def workflows_ok_def
        decided_by_other_def dest!: append_audit_event_workflows split: option.splits if_splits, blast)

lemma distinct_rows_eq: "distinct (map f xs) \<Longrightarrow> x \<in> set xs \<Longrightarrow> y \<in> set xs \<Longrightarrow> f x = f y \<Longrightarrow> x = y"
  by (simp add: distinct_map inj_on_def)

lemma review_run_workflows_ok:
  assumes "review_run E dl ts tenant run_id reviewer decision comment d = (r, d')" "workflows_ok d"
  shows "workflows_ok d'"
proof -
  let ?n = "py_upper decision"
  from assms(1) consider "d' = d" | "connect E dl (Some tenant)
      (review_body E ts tenant run_id reviewer ?n comment) d = (r, d')"
    by (auto simp: review_run_def split: sum.splits)
  then show ?thesis
  proof cases
    case 2
    then show ?thesis
    proof (rule connect_invariant)
      fix w assume "review_body E ts tenant run_id reviewer ?n comment d = Inr (w, d')"
      then obtain row where row: "row \<in> set (tax_run_workflows d)" "is_workflow run_id tenant row"
          "rw_requested_by row \<noteq> reviewer"
        and dec: "decide_review E ts tenant run_id reviewer ?n comment row d = Inr (w, d')"
        by (auto simp: review_body_def tx_Inr check_review_def dest: find_row_Some split: option.splits if_splits)
      let ?c = "\<lambda>r. is_workflow run_id tenant r \<and> rw_status r = pending_review \<and> rw_version r = rw_version row"
      let ?f = "\<lambda>r. r\<lparr>rw_status := review_status ?n, rw_version := rw_version row + 1,
        rw_reviewed_by := Some reviewer, rw_reviewed_at := Some (ts 0), rw_decision_comment := Some comment\<rparr>"
      from dec have rows: "tax_run_workflows d' = update_rows ?c ?f (tax_run_workflows d)"
        by (auto simp: decide_review_def Let_def tx_Inr workflow_row_def dest!: append_audit_event_workflows
            split: option.splits if_splits)
      have same: "v = row" if "v \<in> set (tax_run_workflows d)" "is_workflow run_id tenant v" for v
        using that row distinct_rows_eq [of rw_run_id "tax_run_workflows d" v row] assms(2)
        by (simp add: workflows_ok_def is_workflow_def)
      have f: "decided_by_other (if ?c v then ?f v else v)" if "v \<in> set (tax_run_workflows d)" for v
      proof (cases "is_workflow run_id tenant v")
        case True
        from same [OF that True] row(3) assms(2) that show ?thesis
          by (simp add: decided_by_other_def workflows_ok_def list_all_iff)
      next
        case False
        with that assms(2) show ?thesis by (simp add: workflows_ok_def list_all_iff)
      qed
      have "list_all decided_by_other (tax_run_workflows d')"
        unfolding rows update_rows_def list_all_iff set_map by (intro ballI, erule imageE, simp only: f)
      moreover have "map rw_run_id (tax_run_workflows d') = map rw_run_id (tax_run_workflows d)"
        unfolding rows by (rule map_update_rows_id) simp
      ultimately show "workflows_ok d'" using assms(2) by (simp add: workflows_ok_def)
    qed (rule assms(2))
  qed (simp add: assms(2))
qed

lemma tenant_step_workflows_ok: "tenant_step E tenant d d' \<Longrightarrow> workflows_ok d \<Longrightarrow> workflows_ok d'"
  by (cases rule: tenant_step.cases)
    (auto dest: request_review_workflows_ok review_run_workflows_ok
      dest!: operation_same_workflows simp: same_workflows_def dest: workflows_ok_cong)

lemma outbox_only_workflows:
  assumes "d'\<lparr>outbox_events := outbox_events d, dead_letter_events := dead_letter_events d\<rparr> = d"
  shows "tax_run_workflows d' = tax_run_workflows d"
  using arg_cong [OF assms, of tax_run_workflows] by simp

lemma system_step_workflows_ok: "system_step E d d' \<Longrightarrow> workflows_ok d \<Longrightarrow> workflows_ok d'"
  by (cases rule: system_step.cases)
    (auto dest: tenant_step_workflows_ok outbox_only_workflows [OF publish_batch_frame, THEN workflows_ok_cong]
      outbox_only_workflows [OF replay_frame, THEN workflows_ok_cong])

lemma reachable_workflows_ok: "reachable E d \<Longrightarrow> workflows_ok d"
  unfolding reachable_def
  by (induction rule: rtranclp_induct) (auto simp: workflows_ok_empty dest: system_step_workflows_ok)

end
