(* ===== verification/Api.thy ===== *)
theory Api
  imports Tenancy Auth Evidence Reviews
begin

text \<open>
  \<^verbatim>\<open>fastapi_app.py\<close>: the HTTP interface.  A request passes the dependency that verifies its token, the
  checks of its model, the authorization of the resource, and then calls services of the tenant that
  its claims name; each endpoint is one definition, and \<open>serve\<close> is the table of routes.  \<open>Api_Access\<close>
  ties replies and changes to the policy of the endpoints and to the steps of \<open>System\<close>.
\<close>

section \<open>Applications and requests\<close>

text \<open>
  The libraries an application calls; pydantic's limits on the digits of a decimal and the message of
  a \<^verbatim>\<open>JSONDecodeError\<close> are among them.
\<close>

record 'f libs =
  lb_env :: pyenv
  lb_reg :: "'f reg_lib"
  lb_jwt :: jwt_lib
  lb_evidence :: evidence_lib
  lb_digits :: "decimal \<Rightarrow> int \<Rightarrow> int \<Rightarrow> bool"
  lb_decode_message :: pystr

text \<open>What \<^verbatim>\<open>create_app\<close> binds; the managed evidence is the service's store, signer and retention.\<close>

record ('f, 's) app =
  app_libs :: "'f libs"
  app_dialect :: dialect
  app_jwt_secret :: pystr
  app_dev_tokens :: bool
  app_evidence_secret :: "pystr option"
  app_signing_secret :: pystr
  app_token_verifier :: "token_verifier option"
  app_verifier :: token_verifier
  app_private_pem :: "bytes option"
  app_managed :: "('s store_put \<times> 's store_get \<times> evidence_signer \<times> int) option"

text \<open>
  What a request brings along: the credentials of its header, the time, the clock readings that each
  of its service calls sees, and the random ids.
\<close>

record call =
  cl_token :: "pystr option"
  cl_now :: int
  cl_clock :: "nat \<Rightarrow> clock"
  cl_uid :: pystr

text \<open>The state behind the application: the database, the object store and the exported files.\<close>

record 's server =
  sv_db :: db
  sv_store :: 's
  sv_output :: files

type_synonym ('a, 's) act = "'s server \<Rightarrow> 'a res \<times> 's server"

definition give :: "'a \<Rightarrow> ('a, 's) act" where
  "give x s = (Inr x, s)"

definition yield :: "'a res \<Rightarrow> ('a, 's) act" where
  "yield r s = (r, s)"

definition andthen :: "('a, 's) act \<Rightarrow> ('a \<Rightarrow> ('b, 's) act) \<Rightarrow> ('b, 's) act" where
  "andthen m f s = (case m s of (Inl e, s') \<Rightarrow> (Inl e, s') | (Inr x, s') \<Rightarrow> f x s')"

definition with_db :: "(db \<Rightarrow> 'a res \<times> db) \<Rightarrow> ('a, 's) act" where
  "with_db f s = (case f (sv_db s) of (r, d) \<Rightarrow> (r, s\<lparr>sv_db := d\<rparr>))"

text \<open>
  \<^verbatim>\<open>except ValueError as exc: raise HTTPException(status_code, detail=str(exc))\<close>, which also catches
  the subclass \<^verbatim>\<open>JSONDecodeError\<close>.
\<close>

definition value_error_as :: "pystr \<Rightarrow> int \<Rightarrow> ('a, 's) act \<Rightarrow> ('a, 's) act" where
  "value_error_as message status m s = (case m s of
     (Inl (ValueError t), s') \<Rightarrow> (Inl (HTTPException status (JStr t)), s')
   | (Inl JSONDecodeError, s') \<Rightarrow> (Inl (HTTPException status (JStr message)), s')
   | r \<Rightarrow> r)"

section \<open>Request models\<close>

definition text_within :: "nat \<Rightarrow> nat \<Rightarrow> pystr \<Rightarrow> bool" where
  "text_within lo hi s \<longleftrightarrow> lo \<le> length s \<and> length s \<le> hi"

definition tenant_char :: "int \<Rightarrow> bool" where
  "tenant_char c \<longleftrightarrow> 97 \<le> c \<and> c \<le> 122 \<or> 65 \<le> c \<and> c \<le> 90 \<or> 48 \<le> c \<and> c \<le> 57 \<or> c = 95 \<or> c = 45"

record token_request =
  tk_subject :: pystr
  tk_tenant :: pystr
  tk_roles :: "pystr list"
  tk_ttl :: int
  tk_scopes :: "pystr list"

definition valid_token_request :: "token_request \<Rightarrow> bool" where
  "valid_token_request q \<longleftrightarrow> text_within 1 100 (tk_subject q) \<and> text_within 1 64 (tk_tenant q)
     \<and> list_all tenant_char (tk_tenant q) \<and> 1 \<le> tk_ttl q \<and> tk_ttl q \<le> 480"

record tax_transaction_in =
  ti_invoice_id :: pystr
  ti_seller_tax_id :: "pystr option"
  ti_buyer_tax_id :: "pystr option"
  ti_invoice_date :: pystr
  ti_amount :: decimal
  ti_tax_rate :: decimal
  ti_tax_amount :: decimal
  ti_currency :: pystr

definition valid_transaction :: "'f libs \<Rightarrow> tax_transaction_in \<Rightarrow> bool" where
  "valid_transaction L x \<longleftrightarrow> text_within 1 100 (ti_invoice_id x)
     \<and> dec_le (Dec 0 0) (ti_amount x) \<and> lb_digits L (ti_amount x) 20 4
     \<and> dec_le (Dec 0 0) (ti_tax_rate x) \<and> dec_le (ti_tax_rate x) (Dec 1 0) \<and> lb_digits L (ti_tax_rate x) 9 6
     \<and> dec_le (Dec 0 0) (ti_tax_amount x) \<and> lb_digits L (ti_tax_amount x) 20 4
     \<and> text_within 3 3 (ti_currency x)"

text \<open>\<^verbatim>\<open>TaxTransaction(**item.model_dump())\<close>.\<close>

definition transaction_of :: "tax_transaction_in \<Rightarrow> tax_transaction res" where
  "transaction_of x = make_tax_transaction (ti_invoice_id x) (ti_seller_tax_id x) (ti_buyer_tax_id x)
     (ti_invoice_date x) (CDec (ti_amount x)) (CDec (ti_tax_rate x)) (CDec (ti_tax_amount x)) (ti_currency x)"

definition is_object :: "json \<Rightarrow> bool" where
  "is_object v \<longleftrightarrow> (case v of JObj _ \<Rightarrow> True | _ \<Rightarrow> False)"

record rule_run_request =
  rr_rule_version :: "pystr option"
  rr_rule_pack :: "json option"

definition valid_rule_run :: "rule_run_request \<Rightarrow> bool" where
  "valid_rule_run q \<longleftrightarrow> (case rr_rule_pack q of None \<Rightarrow> True | Some v \<Rightarrow> is_object v)"

record review_decision_in =
  ri_decision :: pystr
  ri_comment :: pystr

definition valid_review :: "review_decision_in \<Rightarrow> bool" where
  "valid_review q \<longleftrightarrow> ri_decision q \<in> {lit ''APPROVE'', lit ''REJECT''} \<and> text_within 3 500 (ri_comment q)"

record document_in =
  di_document_key :: pystr
  di_title :: pystr
  di_source_url :: pystr
  di_published_at :: pystr
  di_content :: pystr

record control_transition_in =
  cti_to_status :: pystr
  cti_reason :: pystr

definition valid_transition :: "control_transition_in \<Rightarrow> bool" where
  "valid_transition q \<longleftrightarrow>
     cti_to_status q \<in> {lit ''OPEN'', lit ''IN_REVIEW'', lit ''REMEDIATED'', lit ''CLOSED''}
     \<and> text_within 3 500 (cti_reason q)"

text \<open>An edge's amount has been read as a decimal.\<close>

definition valid_edge :: "edge \<Rightarrow> bool" where
  "valid_edge x \<longleftrightarrow> (case eg_amount x of CDec _ \<Rightarrow> True | _ \<Rightarrow> False) \<and> is_object (eg_evidence x)"

section \<open>Creating an application\<close>

definition viewers :: "pystr list" where
  "viewers = [lit ''viewer'', lit ''analyst'', lit ''reviewer'', lit ''admin'']"

definition analysts :: "pystr list" where
  "analysts = [lit ''analyst'', lit ''admin'']"

definition reviewers :: "pystr list" where
  "reviewers = [lit ''reviewer'', lit ''admin'']"

definition admins :: "pystr list" where
  "admins = [lit ''admin'']"

definition managed_evidence ::
  "('s store_put \<times> 's store_get) option \<Rightarrow> evidence_signer option \<Rightarrow> int
     \<Rightarrow> ('s store_put \<times> 's store_get \<times> evidence_signer \<times> int) option res" where
  "managed_evidence object_store evidence_signer retention_days = (case (object_store, evidence_signer) of
     (None, None) \<Rightarrow> Inr None
   | (Some (put, get), Some signer) \<Rightarrow> bind_res (check_retention retention_days) (\<lambda>_.
       Inr (Some (put, get, signer, retention_days)))
   | _ \<Rightarrow> Inl (ValueError (lit ''object_store and evidence_signer must be configured together'')))"

definition create_app ::
  "'f libs \<Rightarrow> dialect \<Rightarrow> pystr \<Rightarrow> bool \<Rightarrow> pystr option \<Rightarrow> token_verifier option \<Rightarrow> bytes option
     \<Rightarrow> ('s store_put \<times> 's store_get) option \<Rightarrow> evidence_signer option \<Rightarrow> int \<Rightarrow> ('f, 's) app res" where
  "create_app L dl jwt_secret allow_dev_tokens evidence_secret verifier private_pem object_store signer retention_days =
     bind_res (raise_if (length jwt_secret < 32) (ValueError (lit ''jwt_secret must contain at least 32 characters''))) (\<lambda>_.
     let signing_secret = (case evidence_secret of Some (c # cs) \<Rightarrow> c # cs | _ \<Rightarrow> jwt_secret) in
     bind_res (raise_if (length signing_secret < 32)
        (ValueError (lit ''evidence_signing_secret must contain at least 32 characters''))) (\<lambda>_.
     bind_res (managed_evidence object_store signer retention_days) (\<lambda>managed.
     bind_res (map_res check_allowed_roles [viewers, analysts, reviewers, admins]) (\<lambda>_.
       Inr \<lparr>app_libs = L, app_dialect = dl, app_jwt_secret = jwt_secret, app_dev_tokens = allow_dev_tokens,
         app_evidence_secret = evidence_secret, app_signing_secret = signing_secret,
         app_token_verifier = verifier,
         app_verifier = (case verifier of Some v \<Rightarrow> v | None \<Rightarrow> hmac_verifier (lb_jwt L) jwt_secret),
         app_private_pem = private_pem, app_managed = managed\<rparr>))))"

section \<open>Replies and endpoints\<close>

text \<open>What an endpoint returns, before it is encoded for the client.\<close>

datatype 'f reply =
    Reply_object json
  | Reply_workflow tax_run_workflow
  | Reply_findings "tax_finding list"
  | Reply_package bytes pystr stored_object
  | Reply_file pystr pystr
  | Reply_answer "'f reg_answer"
  | Reply_cases "case_report list" json
  | Reply_open_cases "control_case list"
  | Reply_transition transition_report
  | Reply_history "control_case_transition list"
  | Reply_graph_findings "graph_finding list"

text \<open>
  The dependency on the claims is resolved before the request's model is checked.  A claim that the
  services are called with is a text, as the verifiers' tokens have it; another value raises here.
\<close>

definition authenticated ::
  "('f, 's) app \<Rightarrow> call \<Rightarrow> pystr list \<Rightarrow> bool \<Rightarrow> (json \<Rightarrow> ('a, 's) act) \<Rightarrow> ('a, 's) act" where
  "authenticated A c allowed valid body =
     andthen (yield (require_verified_roles (app_verifier A) allowed (cl_now c) (cl_token c))) (\<lambda>claims.
     andthen (yield (raise_if (\<not> valid) RequestValidationError)) (\<lambda>_. body claims))"

definition text_claim :: "pystr \<Rightarrow> json \<Rightarrow> pystr res" where
  "text_claim k claims = bind_res (jget k claims) json_text"

text \<open>\<^verbatim>\<open>authorize_resource\<close>, followed by the claim that the service is made for.\<close>

definition for_tenant ::
  "json \<Rightarrow> pystr \<Rightarrow> pystr \<Rightarrow> pystr \<Rightarrow> (pystr \<Rightarrow> ('a, 's) act) \<Rightarrow> ('a, 's) act" where
  "for_tenant claims ty rid act body =
     andthen (yield (authorize_resource claims ty rid act)) (\<lambda>_.
     andthen (yield (text_claim (lit ''tenant_id'') claims)) body)"

text \<open>\<^verbatim>\<open>{..., "actor": claims["sub"]}\<close>.\<close>

definition with_actor :: "(pystr \<times> json) list \<Rightarrow> json \<Rightarrow> ('f reply, 's) act" where
  "with_actor kvs claims = andthen (yield (jget (lit ''sub'') claims)) (\<lambda>actor.
     give (Reply_object (JObj (kvs @ [(lit ''actor'', actor)]))))"

definition liveness :: "('f reply, 's) act" where
  "liveness = give (Reply_object (JObj [(lit ''status'', JStr (lit ''ok'')), (lit ''version'', JStr (lit ''0.4.0''))]))"

definition health :: "('f reply, 's) act" where
  "health = give (Reply_object (JObj [(lit ''status'', JStr (lit ''ok'')), (lit ''version'', JStr (lit ''0.4.0'')),
     (lit ''modules'', JList (map JStr [lit ''taxflow'', lit ''regintel'', lit ''controlpulse'', lit ''riskgraph'']))]))"

text \<open>\<^verbatim>\<open>{"status": "ready", "version": "0.4.0", **database_health(db)}\<close>, and 503 for any exception.\<close>

definition readiness :: "('f, 's) app \<Rightarrow> ('f reply, 's) act" where
  "readiness A s = (case with_db (database_health (lb_env (app_libs A)) (app_dialect A)) s of
     (Inr (JObj kvs), s') \<Rightarrow> (Inr (Reply_object (JObj (dict_of
        ([(lit ''status'', JStr (lit ''ready'')), (lit ''version'', JStr (lit ''0.4.0''))] @ kvs)))), s')
   | (_, s') \<Rightarrow> (Inl (HTTPException 503 (JObj [(lit ''status'', JStr (lit ''not_ready'')),
        (lit ''dependency'', JStr (lit ''database''))])), s'))"

definition dev_token :: "('f, 's) app \<Rightarrow> call \<Rightarrow> token_request \<Rightarrow> ('f reply, 's) act" where
  "dev_token A c q =
     andthen (yield (raise_if (\<not> valid_token_request q) RequestValidationError)) (\<lambda>_.
     andthen (yield (raise_if (\<not> app_dev_tokens A)
        (HTTPException 404 (JStr (lit ''development token endpoint disabled''))))) (\<lambda>_.
     andthen (yield (issue_token (lb_env (app_libs A)) (lb_jwt (app_libs A)) (cl_now c) (tk_subject q) (tk_roles q)
        (app_jwt_secret A) (tk_ttl q) (tk_tenant q) (Some (tk_scopes q)))) (\<lambda>token.
     give (Reply_object (JObj [(lit ''access_token'', JStr token), (lit ''token_type'', JStr (lit ''bearer''))])))))"

definition ingest_tax ::
  "('f, 's) app \<Rightarrow> call \<Rightarrow> tax_transaction_in list \<Rightarrow> pystr option \<Rightarrow> ('f reply, 's) act" where
  "ingest_tax A c items key = (let L = app_libs A in
     authenticated A c analysts (list_all (valid_transaction L) items) (\<lambda>claims.
     for_tenant claims (lit ''tax_data'') (lit ''transactions'') (lit ''write'') (\<lambda>tenant.
     andthen (value_error_as (lb_decode_message L) 409
        (andthen (yield (map_res transaction_of items)) (\<lambda>rows.
           with_db (ingest (lb_env L) (app_dialect A) (cl_clock c 0) (cl_uid c) tenant rows key)))) (\<lambda>n.
     with_actor [(lit ''ingested'', JInt n)] claims))))"

text \<open>\<^verbatim>\<open>d[k] = v\<close>.\<close>

definition json_put :: "pystr \<Rightarrow> json \<Rightarrow> json \<Rightarrow> json res" where
  "json_put k v d = (case d of JObj kvs \<Rightarrow> Inr (JObj (dict_put k v kvs)) | _ \<Rightarrow> Inl TypeError)"

definition ensure_workflow :: "('f, 's) app \<Rightarrow> call \<Rightarrow> json \<Rightarrow> pystr \<Rightarrow> pystr \<Rightarrow> (tax_run_workflow, 's) act" where
  "ensure_workflow A c claims tenant run_id = (let E = lb_env (app_libs A) in
     andthen (with_db (workflow E (app_dialect A) tenant run_id)) (\<lambda>known.
       case known of
         Some w \<Rightarrow> give w
       | None \<Rightarrow> andthen (yield (text_claim (lit ''sub'') claims)) (\<lambda>actor.
           with_db (request_review E (app_dialect A) (cl_clock c 1) tenant run_id actor))))"

definition run_tax ::
  "('f, 's) app \<Rightarrow> call \<Rightarrow> rule_run_request \<Rightarrow> pystr option \<Rightarrow> ('f reply, 's) act" where
  "run_tax A c q key = (let L = app_libs A in
     authenticated A c analysts (valid_rule_run q) (\<lambda>claims.
     for_tenant claims (lit ''tax_run'') (lit ''new'') (lit ''create'') (\<lambda>tenant.
     andthen (value_error_as (lb_decode_message L) 409
        (with_db (run_rules (lb_env L) (app_dialect A) (cl_clock c 0) (cl_uid c) tenant
           (rr_rule_version q) (rr_rule_pack q) key))) (\<lambda>result.
     andthen (yield (bind_res (jget (lit ''sub'') claims) (\<lambda>actor. json_put (lit ''actor'') actor result))) (\<lambda>result.
     andthen (yield (bind_res (jget (lit ''run_id'') result) json_text)) (\<lambda>run_id.
     andthen (ensure_workflow A c claims tenant run_id) (\<lambda>w.
     andthen (yield (json_put (lit ''workflow'') (workflow_dict w) result)) (\<lambda>result.
     give (Reply_object result))))))))) "

definition review_tax_run ::
  "('f, 's) app \<Rightarrow> call \<Rightarrow> pystr \<Rightarrow> review_decision_in \<Rightarrow> ('f reply, 's) act" where
  "review_tax_run A c run_id q = (let L = app_libs A in
     authenticated A c reviewers (valid_review q) (\<lambda>claims.
     for_tenant claims (lit ''tax_run'') run_id (lit ''review'') (\<lambda>tenant.
     andthen (value_error_as (lb_decode_message L) 400
        (andthen (yield (text_claim (lit ''sub'') claims)) (\<lambda>actor.
           with_db (review_run (lb_env L) (app_dialect A) (cl_clock c 0) tenant run_id actor
             (ri_decision q) (ri_comment q))))) (\<lambda>w.
     give (Reply_workflow w)))))"

definition tax_findings_of :: "('f, 's) app \<Rightarrow> call \<Rightarrow> pystr \<Rightarrow> ('f reply, 's) act" where
  "tax_findings_of A c run_id =
     authenticated A c viewers True (\<lambda>claims.
     for_tenant claims (lit ''tax_run'') run_id (lit ''read'') (\<lambda>tenant.
     andthen (with_db (findings (lb_env (app_libs A)) (app_dialect A) tenant run_id)) (\<lambda>fs.
     give (Reply_findings fs))))"

definition api_key_id :: pystr where
  "api_key_id = lit ''flagship-api-signing-v1''"

definition evidence_output :: "pystr \<Rightarrow> pystr \<Rightarrow> pystr" where
  "evidence_output tenant run_id = lit ''work/evidence/'' @ tenant @ lit ''/tax-'' @ run_id @ lit ''.zip''"

text \<open>The two ways to the package: the managed service, or an export into a file that is then sent.\<close>

definition managed_package ::
  "('f, 's) app \<Rightarrow> call \<Rightarrow> 's store_put \<Rightarrow> 's store_get \<Rightarrow> evidence_signer \<Rightarrow> int \<Rightarrow> pystr \<Rightarrow> pystr \<Rightarrow> ('f reply, 's) act" where
  "managed_package A c put get signer retention tenant run_id s =
     (case preserve_tax_run (lb_env (app_libs A)) (lb_evidence (app_libs A)) (app_dialect A) (cl_clock c 0) put signer
         retention tenant run_id (sv_db s) (sv_store s) of
        (r, d, st) \<Rightarrow> andthen (yield r) (\<lambda>stored s.
           andthen (yield (read_evidence get (sv_store s) stored)) (\<lambda>package.
           give (Reply_package package (lit ''tax-'' @ run_id @ lit ''.zip'') stored)) s)
          (s\<lparr>sv_db := d, sv_store := st\<rparr>))"

definition exported_file :: "('f, 's) app \<Rightarrow> call \<Rightarrow> pystr \<Rightarrow> pystr \<Rightarrow> ('f reply, 's) act" where
  "exported_file A c tenant run_id =
     andthen (with_db (connect (lb_env (app_libs A)) (app_dialect A) (Some tenant)
        (export_tax_run (lb_env (app_libs A)) (lb_evidence (app_libs A)) (cl_clock c 0) run_id
           (Some (app_signing_secret A)) api_key_id tenant (app_private_pem A)))) (\<lambda>(manifest, package) s.
     (Inr (Reply_file (evidence_output tenant run_id) (lit ''tax-'' @ run_id @ lit ''.zip'')),
      s\<lparr>sv_output := dict_put (evidence_output tenant run_id) package (sv_output s)\<rparr>))"

definition approval_required :: py_error where
  "approval_required = HTTPException 409 (JStr (lit ''tax run requires independent approval''))"

definition tax_evidence :: "('f, 's) app \<Rightarrow> call \<Rightarrow> pystr \<Rightarrow> ('f reply, 's) act" where
  "tax_evidence A c run_id = (let L = app_libs A in
     authenticated A c reviewers True (\<lambda>claims.
     for_tenant claims (lit ''tax_run'') run_id (lit ''evidence'') (\<lambda>tenant.
     value_error_as (lb_decode_message L) 404
       (andthen (with_db (workflow (lb_env L) (app_dialect A) tenant run_id)) (\<lambda>w.
        andthen (yield (raise_if (case w of None \<Rightarrow> True | Some r \<Rightarrow> rw_status r \<noteq> lit ''APPROVED'') approval_required)) (\<lambda>_.
        case app_managed A of
          Some (put, get, signer, retention) \<Rightarrow> managed_package A c put get signer retention tenant run_id
        | None \<Rightarrow> exported_file A c tenant run_id))))))"

definition add_reg_document :: "('f, 's) app \<Rightarrow> call \<Rightarrow> document_in \<Rightarrow> ('f reply, 's) act" where
  "add_reg_document A c q =
     authenticated A c analysts (di_content q \<noteq> []) (\<lambda>claims.
     for_tenant claims (lit ''reg_document'') (di_document_key q) (lit ''write'') (\<lambda>tenant.
     andthen (with_db (add_document (lb_env (app_libs A)) (app_dialect A) (cl_clock c 0) tenant (di_document_key q)
        (di_title q) (di_source_url q) (di_published_at q) (di_content q))) (\<lambda>version.
     with_actor [(lit ''version_hash'', JStr version)] claims)))"

definition answer_reg :: "('f::linorder, 's) app \<Rightarrow> call \<Rightarrow> pystr \<Rightarrow> ('f reply, 's) act" where
  "answer_reg A c query = (let L = app_libs A in
     authenticated A c viewers (query \<noteq> []) (\<lambda>claims.
     for_tenant claims (lit ''reg_corpus'') (lit ''documents'') (lit ''read'') (\<lambda>tenant.
     andthen (with_db (\<lambda>d. (answer (lb_env L) (app_dialect A) (lb_reg L) tenant query (fl_dec (lb_reg L) 12 (-2)) d, d))) (\<lambda>a.
     give (Reply_answer a)))))"

definition add_control_event :: "('f, 's) app \<Rightarrow> call \<Rightarrow> control_event \<Rightarrow> ('f reply, 's) act" where
  "add_control_event A c e =
     authenticated A c analysts (is_object (ev_payload e)) (\<lambda>claims.
     for_tenant claims (lit ''control_event'') (ev_event_id e) (lit ''write'') (\<lambda>tenant.
     andthen (with_db (ingest_and_evaluate (lb_env (app_libs A)) (app_dialect A) (cl_clock c 0) tenant e)) (\<lambda>cases.
     andthen (yield (jget (lit ''sub'') claims)) (\<lambda>actor.
     give (Reply_cases cases actor)))))"

definition control_cases_of :: "('f, 's) app \<Rightarrow> call \<Rightarrow> ('f reply, 's) act" where
  "control_cases_of A c =
     authenticated A c reviewers True (\<lambda>claims.
     for_tenant claims (lit ''control_case'') (lit ''*'') (lit ''list'') (\<lambda>tenant.
     andthen (with_db (open_cases (lb_env (app_libs A)) (app_dialect A) tenant)) (\<lambda>cs.
     give (Reply_open_cases cs))))"

definition transition_control_case ::
  "('f, 's) app \<Rightarrow> call \<Rightarrow> int \<Rightarrow> control_transition_in \<Rightarrow> ('f reply, 's) act" where
  "transition_control_case A c case_id q = (let L = app_libs A in
     authenticated A c reviewers (valid_transition q) (\<lambda>claims.
     for_tenant claims (lit ''control_case'') (str_of_int case_id) (lit ''transition'') (\<lambda>tenant.
     andthen (value_error_as (lb_decode_message L) 400
        (andthen (yield (text_claim (lit ''sub'') claims)) (\<lambda>actor.
           with_db (transition_case (lb_env L) (app_dialect A) (cl_clock c 0) tenant case_id actor
             (cti_to_status q) (cti_reason q))))) (\<lambda>report.
     give (Reply_transition report)))))"

definition control_case_history :: "('f, 's) app \<Rightarrow> call \<Rightarrow> int \<Rightarrow> ('f reply, 's) act" where
  "control_case_history A c case_id =
     authenticated A c reviewers True (\<lambda>claims.
     for_tenant claims (lit ''control_case'') (str_of_int case_id) (lit ''read'') (\<lambda>tenant.
     andthen (with_db (case_history (lb_env (app_libs A)) (app_dialect A) tenant case_id)) (\<lambda>xs.
     give (Reply_history xs))))"

definition post_entities :: "('f, 's) app \<Rightarrow> call \<Rightarrow> entity list \<Rightarrow> ('f reply, 's) act" where
  "post_entities A c items =
     authenticated A c analysts (list_all (\<lambda>x. is_object (en_attributes x)) items) (\<lambda>claims.
     for_tenant claims (lit ''risk_graph'') (lit ''entities'') (lit ''write'') (\<lambda>tenant.
     andthen (with_db (add_entities (lb_env (app_libs A)) (app_dialect A) (cl_clock c 0) tenant items)) (\<lambda>_.
     with_actor [(lit ''upserted'', JInt (int (length items)))] claims)))"

definition post_edges :: "('f, 's) app \<Rightarrow> call \<Rightarrow> edge list \<Rightarrow> ('f reply, 's) act" where
  "post_edges A c items =
     authenticated A c analysts (list_all valid_edge items) (\<lambda>claims.
     for_tenant claims (lit ''risk_graph'') (lit ''edges'') (lit ''write'') (\<lambda>tenant.
     andthen (with_db (add_edges (lb_env (app_libs A)) (app_dialect A) (cl_clock c 0) tenant items)) (\<lambda>_.
     with_actor [(lit ''inserted'', JInt (int (length items)))] claims)))"

definition graph_findings_of :: "('f, 's) app \<Rightarrow> call \<Rightarrow> ('f reply, 's) act" where
  "graph_findings_of A c =
     authenticated A c viewers True (\<lambda>claims.
     for_tenant claims (lit ''risk_graph'') (lit ''findings'') (lit ''read'') (\<lambda>tenant.
     andthen (with_db (investigate (lb_env (app_libs A)) (app_dialect A) tenant)) (\<lambda>fs.
     give (Reply_graph_findings fs))))"

text \<open>The resource is the tenant itself, which is read before it is authorized.\<close>

definition audit_verify :: "('f, 's) app \<Rightarrow> call \<Rightarrow> ('f reply, 's) act" where
  "audit_verify A c = (let E = lb_env (app_libs A) in
     authenticated A c reviewers True (\<lambda>claims.
     andthen (yield (text_claim (lit ''tenant_id'') claims)) (\<lambda>tenant.
     andthen (yield (authorize_resource claims (lit ''audit_chain'') tenant (lit ''verify''))) (\<lambda>_.
     andthen (with_db (connect E (app_dialect A) (Some tenant)
        (\<lambda>d. bind_res (verify_audit_chain E tenant d) (\<lambda>r. Inr (r, d))))) (\<lambda>(valid, events, broken).
     give (Reply_object (JObj [(lit ''valid'', JBool valid), (lit ''events'', JInt events),
       (lit ''broken_hash'', opt_json broken)])))))))"

definition config_check :: "('f, 's) app \<Rightarrow> call \<Rightarrow> ('f reply, 's) act" where
  "config_check A c =
     authenticated A c admins True (\<lambda>claims.
     andthen (yield (authorize_resource claims (lit ''platform_config'') (lit ''runtime'') (lit ''read''))) (\<lambda>_.
     give (Reply_object (JObj [(lit ''jwt_secret_configured'', JBool True),
       (lit ''evidence_signing_key_separated'',
          JBool (\<not> Option.is_none (app_evidence_secret A) \<and> app_signing_secret A \<noteq> app_jwt_secret A)),
       (lit ''development_tokens_enabled'', JBool (app_dev_tokens A)),
       (lit ''external_token_verifier'', JBool (\<not> Option.is_none (app_token_verifier A))),
       (lit ''asymmetric_evidence_signing'', JBool (\<not> Option.is_none (app_private_pem A))),
       (lit ''managed_immutable_evidence'', JBool (\<not> Option.is_none (app_managed A)))]))))"

section \<open>Routes\<close>

datatype request =
    Health_live
  | Health_ready
  | Health
  | Dev_token token_request
  | Post_transactions "tax_transaction_in list" "pystr option"
  | Post_run rule_run_request "pystr option"
  | Post_review pystr review_decision_in
  | Get_findings pystr
  | Get_evidence pystr
  | Post_document document_in
  | Post_answer pystr
  | Post_control_event control_event
  | Get_control_cases
  | Post_transition int control_transition_in
  | Get_case_history int
  | Post_entities "entity list"
  | Post_edges "edge list"
  | Get_graph_findings
  | Get_audit_verify
  | Get_config_check

fun serve :: "('f::linorder, 's) app \<Rightarrow> call \<Rightarrow> request \<Rightarrow> ('f reply, 's) act" where
  "serve A c Health_live = liveness"
| "serve A c Health_ready = readiness A"
| "serve A c Health = health"
| "serve A c (Dev_token q) = dev_token A c q"
| "serve A c (Post_transactions items key) = ingest_tax A c items key"
| "serve A c (Post_run q key) = run_tax A c q key"
| "serve A c (Post_review run_id q) = review_tax_run A c run_id q"
| "serve A c (Get_findings run_id) = tax_findings_of A c run_id"
| "serve A c (Get_evidence run_id) = tax_evidence A c run_id"
| "serve A c (Post_document q) = add_reg_document A c q"
| "serve A c (Post_answer query) = answer_reg A c query"
| "serve A c (Post_control_event e) = add_control_event A c e"
| "serve A c Get_control_cases = control_cases_of A c"
| "serve A c (Post_transition case_id q) = transition_control_case A c case_id q"
| "serve A c (Get_case_history case_id) = control_case_history A c case_id"
| "serve A c (Post_entities items) = post_entities A c items"
| "serve A c (Post_edges items) = post_edges A c items"
| "serve A c Get_graph_findings = graph_findings_of A c"
| "serve A c Get_audit_verify = audit_verify A c"
| "serve A c Get_config_check = config_check A c"

text \<open>The status that the client sees: the decorator's, the exception's, 422 or 500.\<close>

definition success_status :: "request \<Rightarrow> int" where
  "success_status q = (case q of
     Post_transactions _ _ \<Rightarrow> 201 | Post_run _ _ \<Rightarrow> 201 | Post_document _ \<Rightarrow> 201 | Post_control_event _ \<Rightarrow> 201
   | Post_entities _ \<Rightarrow> 201 | Post_edges _ \<Rightarrow> 201 | _ \<Rightarrow> 200)"

definition status_code :: "request \<Rightarrow> 'a res \<Rightarrow> int" where
  "status_code q r = (case r of
     Inr _ \<Rightarrow> success_status q
   | Inl (HTTPException status _) \<Rightarrow> status
   | Inl RequestValidationError \<Rightarrow> 422
   | Inl _ \<Rightarrow> 500)"

end
