(* ===== verification/Api_Access.thy ===== *)
theory Api_Access
  imports Api
begin

text \<open>
  What the HTTP interface guarantees: its actions as steps of the system, the policy of its endpoints,
  the properties that replies and changes follow it and that evidence is released after an
  independent approval only, and their witnesses.
\<close>

section \<open>Actions\<close>

lemma andthen_eq: "andthen m f s = (r, s') \<longleftrightarrow>
    (\<exists>e. m s = (Inl e, s') \<and> r = Inl e) \<or> (\<exists>x s1. m s = (Inr x, s1) \<and> f x s1 = (r, s'))"
  by (auto simp: andthen_def split: prod.splits sum.splits)

lemma yield_eq: "yield r0 s = (r, s') \<longleftrightarrow> r0 = r \<and> s' = s"
  by (auto simp: yield_def)

lemma give_eq: "give x s = (r, s') \<longleftrightarrow> r = Inr x \<and> s' = s"
  by (auto simp: give_def)

lemma with_db_eq: "with_db f s = (r, s') \<longleftrightarrow> (\<exists>d. f (sv_db s) = (r, d) \<and> s' = s\<lparr>sv_db := d\<rparr>)"
  by (auto simp: with_db_def split: prod.splits)

lemma value_error_as_eq: "value_error_as message status m s = (r, s') \<Longrightarrow>
    \<exists>r0. m s = (r0, s') \<and> (r = r0 \<or> isl r0 \<and> (\<exists>t. r = Inl (HTTPException status (JStr t))))"
  by (auto simp: value_error_as_def split: prod.splits sum.splits py_error.splits)

lemmas act_eqs = andthen_eq yield_eq give_eq with_db_eq

text \<open>What a relation of databases that is reflexive and transitive holds of an action.\<close>

definition goes :: "pyenv \<Rightarrow> pystr \<Rightarrow> ('a, 's) act \<Rightarrow> bool" where
  "goes E tenant m \<longleftrightarrow> (\<forall>s. (tenant_step E tenant)\<^sup>*\<^sup>* (sv_db s) (sv_db (snd (m s))))"

named_theorems goes_intros \<open>how the steps of an action's parts make up its own\<close>

lemma goes_give [goes_intros]: "goes E tenant (give x)"
  by (simp add: goes_def give_def)

lemma goes_yield [goes_intros]: "goes E tenant (yield r)"
  by (simp add: goes_def yield_def)

lemma goes_andthen [goes_intros]:
  assumes "goes E tenant m" "\<And>x. goes E tenant (f x)"
  shows "goes E tenant (andthen m f)"
  unfolding goes_def
proof
  fix s
  have m: "(tenant_step E tenant)\<^sup>*\<^sup>* (sv_db s) (sv_db (snd (m s)))" using assms(1) by (simp add: goes_def)
  show "(tenant_step E tenant)\<^sup>*\<^sup>* (sv_db s) (sv_db (snd (andthen m f s)))"
  proof (cases "fst (m s)")
    case (Inr x)
    have "(tenant_step E tenant)\<^sup>*\<^sup>* (sv_db (snd (m s))) (sv_db (snd (f x (snd (m s)))))"
      using assms(2) by (simp add: goes_def)
    with m Inr show ?thesis by (auto simp: andthen_def split: prod.splits)
  qed (use m in \<open>auto simp: andthen_def split: prod.splits\<close>)
qed

lemma goes_value_error_as [goes_intros]: "goes E tenant m \<Longrightarrow> goes E tenant (value_error_as message status m)"
  by (auto simp: goes_def value_error_as_def split: prod.splits sum.splits py_error.splits) (metis snd_conv)+

lemma goes_with_db [goes_intros]:
  "(\<And>d. (tenant_step E tenant)\<^sup>*\<^sup>* d (snd (f d))) \<Longrightarrow> goes E tenant (with_db f)"
  by (auto simp: goes_def with_db_def split: prod.splits) (metis snd_conv)

lemma goes_option [goes_intros]:
  "goes E tenant m \<Longrightarrow> (\<And>x. goes E tenant (f x)) \<Longrightarrow> goes E tenant (case z of None \<Rightarrow> m | Some x \<Rightarrow> f x)"
  by (cases z) simp_all

text \<open>The operations of the services are steps, and queries leave the database alone.\<close>

lemma one_step: "tenant_step E tenant d (snd p) \<Longrightarrow> (tenant_step E tenant)\<^sup>*\<^sup>* d (snd p)"
  by (rule r_into_rtranclp)

lemma snd_eq: "p = (fst p, snd p)"
  by simp

lemma service_steps [goes_intros]:
  "(tenant_step E tenant)\<^sup>*\<^sup>* d (snd (ingest E dl ts uid tenant rows key d))"
  "(tenant_step E tenant)\<^sup>*\<^sup>* d (snd (run_rules E dl ts run_id tenant version pack key d))"
  "(tenant_step E tenant)\<^sup>*\<^sup>* d (snd (request_review E dl ts tenant run_id requester d))"
  "(tenant_step E tenant)\<^sup>*\<^sup>* d (snd (review_run E dl ts tenant run_id reviewer decision comment d))"
  "(tenant_step E tenant)\<^sup>*\<^sup>* d (snd (ingest_and_evaluate E dl ts tenant e d))"
  "(tenant_step E tenant)\<^sup>*\<^sup>* d (snd (transition_case E dl ts tenant case_id actor to_status reason d))"
  "(tenant_step E tenant)\<^sup>*\<^sup>* d (snd (add_entities E dl ts tenant entities d))"
  "(tenant_step E tenant)\<^sup>*\<^sup>* d (snd (add_edges E dl ts tenant edges d))"
  "(tenant_step E tenant)\<^sup>*\<^sup>* d (snd (add_document E dl ts tenant doc_key title url published content d))"
  by (rule one_step, rule tenant_step.intros, rule snd_eq)+

lemma connect_reads: "(\<And>x d'. m d = Inr (x, d') \<Longrightarrow> d' = d) \<Longrightarrow> snd (connect E dl t m d) = d"
  by (cases "connect E dl t m d") (auto elim: connect_invariant)

lemma reads_only: "snd p = d \<Longrightarrow> (tenant_step E tenant)\<^sup>*\<^sup>* d (snd p)"
  by simp

lemma with_db_reads: "(\<And>d. snd (f d) = d) \<Longrightarrow> with_db f s = (fst (f (sv_db s)), s)"
  by (simp add: with_db_def case_prod_beta)

lemma query_steps [goes_intros]:
  "(tenant_step E tenant)\<^sup>*\<^sup>* d (snd (workflow E dl t run_id d))"
  "(tenant_step E tenant)\<^sup>*\<^sup>* d (snd (findings E dl t run_id d))"
  "(tenant_step E tenant)\<^sup>*\<^sup>* d (snd (open_cases E dl t d))"
  "(tenant_step E tenant)\<^sup>*\<^sup>* d (snd (case_history E dl t case_id d))"
  "(tenant_step E tenant)\<^sup>*\<^sup>* d (snd (investigate E dl t d))"
  "(tenant_step E tenant)\<^sup>*\<^sup>* d (snd (connect E dl (Some t) (\<lambda>d. bind_res (q d) (\<lambda>r. Inr (r, d))) d))"
  "(tenant_step E tenant)\<^sup>*\<^sup>* d (snd (connect E dl (Some t) (export_tax_run E L ts run_id secret key_id t pem) d))"
  unfolding workflow_def findings_def open_cases_def case_history_def investigate_def
  by (rule reads_only, rule connect_reads,
      auto simp: query_tx_def bind_res_Inr export_tax_run_def Let_def)+

lemma preserved_manifest:
  assumes "build_tax_run_package E L ts run_id tenant signer d = Inr ((package, manifest), d')"
  shows "\<exists>h. map_of manifest (lit ''manifest_hash'') = Some (JStr h)"
  using assms
  by (auto simp: build_tax_run_package_def bind_res_Inr Let_def signed_manifest_def hashed_manifest_def
      evidence_manifest_def)

lemma preserve_steps [goes_intros]:
  "(tenant_step E tenant)\<^sup>*\<^sup>* d (fst (snd (preserve_tax_run E L dl ts put signer n tenant run_id d st)))"
proof -
  obtain b dx where b: "connect E dl (Some tenant) (build_tax_run_package E L ts run_id tenant signer) d = (b, dx)"
    by fastforce
  show ?thesis
  proof (cases b)
    case (Inr pm)
    obtain package manifest where pm: "pm = (package, manifest)" by fastforce
    from preserved_manifest [OF connect_commit [OF b [unfolded Inr pm]]] obtain h where
      h: "map_of manifest (lit ''manifest_hash'') = Some (JStr h)" by blast
    have "tenant_step E tenant d (snd (connect E dl (Some tenant) (append_audit_event E (after_calls 1 ts)
        (lit ''evidence'') (lit ''EVIDENCE_PRESERVED'') run_id (preserved_payload stored manifest) tenant) d))" for stored
      unfolding record_evidence_def [symmetric]
      by (rule tenant_step.evidence, rule snd_eq) (simp add: preserved_payload_def h stored_dict_def)
    then show ?thesis
      by (auto simp: preserve_tax_run_def b Inr pm split: prod.splits sum.splits) (metis r_into_rtranclp snd_conv)+
  qed (simp add: preserve_tax_run_def b)
qed

lemma goes_managed_package [goes_intros]:
  "goes E tenant (managed_package A c put get signer retention tenant run_id)" if "E = lb_env (app_libs A)"
  unfolding goes_def
proof
  fix s :: "'b server"
  obtain r d st where p: "preserve_tax_run (lb_env (app_libs A)) (lb_evidence (app_libs A)) (app_dialect A) (cl_clock c 0) put signer
         retention tenant run_id (sv_db s) (sv_store s) = (r, d, st)" by (metis prod.collapse)
  have d: "(tenant_step E tenant)\<^sup>*\<^sup>* (sv_db s) d"
    using preserve_steps [of E tenant "sv_db s" "lb_evidence (app_libs A)" "app_dialect A" "cl_clock c 0" put signer
        retention run_id "sv_store s"] p that by simp
  have "sv_db (snd (managed_package A c put get signer retention tenant run_id s)) = d"
    by (simp add: managed_package_def p andthen_def yield_def give_def split: sum.splits prod.splits)
  with d show "(tenant_step E tenant)\<^sup>*\<^sup>* (sv_db s) (sv_db (snd (managed_package A c put get signer retention tenant run_id s)))"
    by simp
qed

lemma goes_exported_file [goes_intros]:
  "goes (lb_env (app_libs A)) tenant (exported_file A c tenant run_id)"
  unfolding exported_file_def
  by (intro goes_intros) (simp add: goes_def split: prod.splits)

section \<open>Guards\<close>

text \<open>The claims that a caller proves with the token of a request.\<close>

definition proves :: "('f, 's) app \<Rightarrow> call \<Rightarrow> pystr list \<Rightarrow> json \<Rightarrow> bool" where
  "proves A c allowed claims \<longleftrightarrow> (\<exists>token roles rs. cl_token c = Some token \<and> app_verifier A (cl_now c) token = Inr claims
     \<and> jget_or (lit ''roles'') (JList []) claims = Inr roles \<and> jiter roles = Inr rs
     \<and> (\<exists>r \<in> set allowed. JStr r \<in> set rs))"

lemma require_verified_roles_proves:
  "require_verified_roles (app_verifier A) allowed (cl_now c) (cl_token c) = Inr claims \<Longrightarrow> proves A c allowed claims"
  by (auto simp: proves_def require_verified_roles_def verified_claims_def bind_res_Inr raise_if_Inr json_set_def
      list_ex_iff split: option.splits sum.splits py_error.splits if_splits)

lemma authenticated_cases:
  assumes "authenticated A c allowed valid body s = (r, s')"
  obtains (refused) e where "r = Inl e" "s' = s"
  | (accepted) claims where "proves A c allowed claims" "valid" "body claims s = (r, s')"
  using assms
  by (auto simp: authenticated_def act_eqs raise_if_def dest!: require_verified_roles_proves split: if_splits)

lemma for_tenant_cases:
  assumes "for_tenant claims ty rid act body s = (r, s')"
  obtains (refused) e where "r = Inl e" "s' = s"
  | (granted) tenant where "authorize_resource claims ty rid act = Inr ()"
      "text_claim (lit ''tenant_id'') claims = Inr tenant" "body tenant s = (r, s')"
  using assms by (auto simp: for_tenant_def act_eqs)

section \<open>Access\<close>

text \<open>The policy: the roles and, for the tenant of the claims, the resource and action of each endpoint.\<close>

definition policy :: "request \<Rightarrow> (pystr list \<times> (pystr \<Rightarrow> pystr \<times> pystr \<times> pystr)) option" where
  "policy q = (case q of
     Health_live \<Rightarrow> None
   | Health_ready \<Rightarrow> None
   | Health \<Rightarrow> None
   | Dev_token _ \<Rightarrow> None
   | Post_transactions _ _ \<Rightarrow> Some (analysts, \<lambda>_. (lit ''tax_data'', lit ''transactions'', lit ''write''))
   | Post_run _ _ \<Rightarrow> Some (analysts, \<lambda>_. (lit ''tax_run'', lit ''new'', lit ''create''))
   | Post_review run_id _ \<Rightarrow> Some (reviewers, \<lambda>_. (lit ''tax_run'', run_id, lit ''review''))
   | Get_findings run_id \<Rightarrow> Some (viewers, \<lambda>_. (lit ''tax_run'', run_id, lit ''read''))
   | Get_evidence run_id \<Rightarrow> Some (reviewers, \<lambda>_. (lit ''tax_run'', run_id, lit ''evidence''))
   | Post_document x \<Rightarrow> Some (analysts, \<lambda>_. (lit ''reg_document'', di_document_key x, lit ''write''))
   | Post_answer _ \<Rightarrow> Some (viewers, \<lambda>_. (lit ''reg_corpus'', lit ''documents'', lit ''read''))
   | Post_control_event e \<Rightarrow> Some (analysts, \<lambda>_. (lit ''control_event'', ev_event_id e, lit ''write''))
   | Get_control_cases \<Rightarrow> Some (reviewers, \<lambda>_. (lit ''control_case'', lit ''*'', lit ''list''))
   | Post_transition i _ \<Rightarrow> Some (reviewers, \<lambda>_. (lit ''control_case'', str_of_int i, lit ''transition''))
   | Get_case_history i \<Rightarrow> Some (reviewers, \<lambda>_. (lit ''control_case'', str_of_int i, lit ''read''))
   | Post_entities _ \<Rightarrow> Some (analysts, \<lambda>_. (lit ''risk_graph'', lit ''entities'', lit ''write''))
   | Post_edges _ \<Rightarrow> Some (analysts, \<lambda>_. (lit ''risk_graph'', lit ''edges'', lit ''write''))
   | Get_graph_findings \<Rightarrow> Some (viewers, \<lambda>_. (lit ''risk_graph'', lit ''findings'', lit ''read''))
   | Get_audit_verify \<Rightarrow> Some (reviewers, \<lambda>tenant. (lit ''audit_chain'', tenant, lit ''verify''))
   | Get_config_check \<Rightarrow> Some (admins, \<lambda>_. (lit ''platform_config'', lit ''runtime'', lit ''read'')))"

definition access ::
  "('f, 's) app \<Rightarrow> call \<Rightarrow> pystr list \<Rightarrow> (pystr \<Rightarrow> pystr \<times> pystr \<times> pystr) \<Rightarrow> 's server \<Rightarrow> 's server \<Rightarrow> bool" where
  "access A c allowed resource s s' \<longleftrightarrow> (\<exists>claims tenant. proves A c allowed claims
     \<and> (case resource tenant of (ty, rid, act) \<Rightarrow> authorize_resource claims ty rid act = Inr ())
     \<and> (s' = s \<or> text_claim (lit ''tenant_id'') claims = Inr tenant
          \<and> (tenant_step (lb_env (app_libs A)) tenant)\<^sup>*\<^sup>* (sv_db s) (sv_db s')))"

definition guards :: "('f, 's) app \<Rightarrow> call \<Rightarrow> pystr list \<Rightarrow> (pystr \<Rightarrow> pystr \<times> pystr \<times> pystr) \<Rightarrow> ('a, 's) act \<Rightarrow> bool" where
  "guards A c allowed resource m \<longleftrightarrow>
     (\<forall>s r s'. m s = (r, s') \<longrightarrow> \<not> isl r \<or> s' \<noteq> s \<longrightarrow> access A c allowed resource s s')"

lemma guarded_access:
  assumes "\<And>claims tenant. goes (lb_env (app_libs A)) tenant (body claims tenant)"
  shows "guards A c allowed (\<lambda>_. (ty, rid, act))
    (authenticated A c allowed valid (\<lambda>claims. for_tenant claims ty rid act (body claims)))"
  unfolding guards_def
proof (intro allI impI)
  fix s r s'
  assume a: "authenticated A c allowed valid (\<lambda>claims. for_tenant claims ty rid act (body claims)) s = (r, s')"
    and nt: "\<not> isl r \<or> s' \<noteq> s"
  from a show "access A c allowed (\<lambda>_. (ty, rid, act)) s s'"
  proof (cases rule: authenticated_cases)
    case (accepted claims)
    from accepted(3) show ?thesis
    proof (cases rule: for_tenant_cases)
      case (granted tenant)
      have "(tenant_step (lb_env (app_libs A)) tenant)\<^sup>*\<^sup>* (sv_db s) (sv_db s')"
        using assms [of tenant claims] granted(3) unfolding goes_def by (metis snd_conv)
      with accepted granted show ?thesis by (auto simp: access_def)
    qed (use nt in auto)
  qed (use nt in auto)
qed

lemma goes_with_actor [goes_intros]: "goes E tenant (with_actor kvs claims)"
  unfolding with_actor_def by (intro goes_intros)

lemma goes_case_prod [goes_intros]: "(\<And>x y. goes E tenant (f x y)) \<Longrightarrow> goes E tenant (case p of (x, y) \<Rightarrow> f x y)"
  by (cases p) simp

lemma answer_steps [goes_intros]: "(tenant_step E tenant)\<^sup>*\<^sup>* d (snd (f d, d))"
  by simp

lemma goes_ensure_workflow [goes_intros]: "goes (lb_env (app_libs A)) tenant (ensure_workflow A c claims tenant run_id)"
  unfolding ensure_workflow_def Let_def by (intro goes_intros)

lemma endpoint_guards:
  "guards A c analysts (\<lambda>_. (lit ''tax_data'', lit ''transactions'', lit ''write'')) (ingest_tax A c items key)"
  "guards A c analysts (\<lambda>_. (lit ''tax_run'', lit ''new'', lit ''create'')) (run_tax A c q key)"
  "guards A c reviewers (\<lambda>_. (lit ''tax_run'', run_id, lit ''review'')) (review_tax_run A c run_id w)"
  "guards A c viewers (\<lambda>_. (lit ''tax_run'', run_id, lit ''read'')) (tax_findings_of A c run_id)"
  "guards A c analysts (\<lambda>_. (lit ''reg_document'', di_document_key x, lit ''write'')) (add_reg_document A c x)"
  "guards A c analysts (\<lambda>_. (lit ''control_event'', ev_event_id e, lit ''write'')) (add_control_event A c e)"
  "guards A c reviewers (\<lambda>_. (lit ''control_case'', lit ''*'', lit ''list'')) (control_cases_of A c)"
  "guards A c reviewers (\<lambda>_. (lit ''control_case'', str_of_int i, lit ''transition'')) (transition_control_case A c i v)"
  "guards A c reviewers (\<lambda>_. (lit ''control_case'', str_of_int i, lit ''read'')) (control_case_history A c i)"
  "guards A c analysts (\<lambda>_. (lit ''risk_graph'', lit ''entities'', lit ''write'')) (post_entities A c nodes)"
  "guards A c analysts (\<lambda>_. (lit ''risk_graph'', lit ''edges'', lit ''write'')) (post_edges A c links)"
  "guards A c viewers (\<lambda>_. (lit ''risk_graph'', lit ''findings'', lit ''read'')) (graph_findings_of A c)"
  unfolding ingest_tax_def run_tax_def review_tax_run_def tax_findings_of_def add_reg_document_def add_control_event_def
    control_cases_of_def transition_control_case_def control_case_history_def post_entities_def post_edges_def
    graph_findings_of_def Let_def
  by (rule guarded_access, intro goes_intros)+

lemma answer_guards:
  "guards A c viewers (\<lambda>_. (lit ''reg_corpus'', lit ''documents'', lit ''read'')) (answer_reg A c query)"
  unfolding answer_reg_def Let_def by (rule guarded_access, intro goes_intros)

lemma evidence_guards:
  "guards A c reviewers (\<lambda>_. (lit ''tax_run'', run_id, lit ''evidence'')) (tax_evidence A c run_id)"
  unfolding tax_evidence_def Let_def by (rule guarded_access, intro goes_intros refl)

lemma audit_guards: "guards A c reviewers (\<lambda>tenant. (lit ''audit_chain'', tenant, lit ''verify'')) (audit_verify A c)"
  unfolding guards_def
proof (intro allI impI)
  fix s r s'
  assume "audit_verify A c s = (r, s')" and nt: "\<not> isl r \<or> s' \<noteq> s"
  then show "access A c reviewers (\<lambda>tenant. (lit ''audit_chain'', tenant, lit ''verify'')) s s'"
    unfolding audit_verify_def Let_def
  proof (cases rule: authenticated_cases)
    case (accepted claims)
    let ?E = "lb_env (app_libs A)"
    have "with_db (connect ?E (app_dialect A) (Some t) (\<lambda>d. bind_res (verify_audit_chain ?E t d) (\<lambda>r. Inr (r, d)))) s
      = (fst (connect ?E (app_dialect A) (Some t) (\<lambda>d. bind_res (verify_audit_chain ?E t d) (\<lambda>r. Inr (r, d))) (sv_db s)), s)" for t
      by (rule with_db_reads, rule connect_reads) (auto simp: bind_res_Inr)
    with accepted nt show ?thesis
      by (auto simp: access_def andthen_eq yield_eq give_eq split: prod.splits)
  qed auto
qed

lemma config_guards:
  "guards A c admins (\<lambda>_. (lit ''platform_config'', lit ''runtime'', lit ''read'')) (config_check A c)"
  unfolding guards_def config_check_def
  by (auto simp: access_def act_eqs elim!: authenticated_cases)

lemma readiness_reads: "snd (readiness A s) = s"
proof -
  have "with_db (database_health (lb_env (app_libs A)) (app_dialect A)) s
      = (fst (database_health (lb_env (app_libs A)) (app_dialect A) (sv_db s)), s)"
    unfolding database_health_def by (rule with_db_reads, rule connect_reads) (simp add: return_tx_def)
  then show ?thesis by (simp add: readiness_def split: sum.splits json.splits)
qed

lemma open_endpoints: "snd (liveness s) = s" "snd (health s) = s" "snd (dev_token A c q s) = s"
  by (auto simp: liveness_def health_def dev_token_def give_def yield_def andthen_def split: sum.splits)

lemma serve_guards:
  "policy q = Some (allowed, resource) \<Longrightarrow> guards A c allowed resource (serve A c q)"
  by (cases q) (auto simp: policy_def endpoint_guards answer_guards evidence_guards audit_guards config_guards)

lemma serve_open: "policy q = None \<Longrightarrow> snd (serve A c q s) = s"
  by (cases q) (simp_all add: policy_def open_endpoints readiness_reads)

lemma tenant_steps_rows_of:
  "(tenant_step E t)\<^sup>*\<^sup>* d d' \<Longrightarrow> u \<noteq> t \<Longrightarrow> rows_of u d' = rows_of u d"
  by (induction rule: rtranclp_induct) (simp_all add: tenant_step_rows_of)

section \<open>What replies depend on\<close>

text \<open>
  Two runs that start with the same rows of a tenant: an action sees only these rows if its result, the store
  and the written files are the same in both, whatever the rows of other tenants are.
\<close>

definition outcome :: "'a res \<times> 's server \<Rightarrow> 'a res \<times> 's \<times> (pystr \<times> bytes) list" where
  "outcome p = (fst p, sv_store (snd p), sv_output (snd p))"

definition sees :: "pystr \<Rightarrow> ('a, 's) act \<Rightarrow> bool" where
  "sees tenant m \<longleftrightarrow> (\<forall>s d. rows_of tenant d = rows_of tenant (sv_db s) \<longrightarrow> outcome (m (s\<lparr>sv_db := d\<rparr>)) = outcome (m s))"

definition keeps :: "('a, 's) act \<Rightarrow> bool" where
  "keeps m \<longleftrightarrow> (\<forall>s. sv_db (snd (m s)) = sv_db s)"

named_theorems sees_intros \<open>what an action sees, and that it keeps the database\<close>

lemma sees_give [sees_intros]: "sees t (give x)" "keeps (give x)"
  by (simp_all add: sees_def keeps_def give_def outcome_def)

lemma sees_yield [sees_intros]: "sees t (yield r)" "keeps (yield r)"
  by (simp_all add: sees_def keeps_def yield_def outcome_def)

lemma sees_value_error_as [sees_intros]:
  "sees t m \<Longrightarrow> sees t (value_error_as message status m)" "keeps m \<Longrightarrow> keeps (value_error_as message status m)"
proof -
  have v: "outcome (value_error_as message status m s) = (case outcome (m s) of
      (r, x) \<Rightarrow> (fst (value_error_as message status (\<lambda>s. (r, s)) s), x))" for s
    by (auto simp: value_error_as_def outcome_def split: prod.splits sum.splits py_error.splits)
  have w: "fst (value_error_as message status (\<lambda>s. (r, s)) s) = fst (value_error_as message status (\<lambda>s. (r, s)) s')" for r :: "'b res" and s s' :: "'a server"
    by (auto simp: value_error_as_def split: sum.splits py_error.splits)
  show "sees t (value_error_as message status m)" if "sees t m"
    unfolding sees_def
  proof (intro allI impI)
    fix s :: "'a server" and d
    assume "rows_of t d = rows_of t (sv_db s)"
    then have "outcome (m (s\<lparr>sv_db := d\<rparr>)) = outcome (m s)" using that by (simp add: sees_def)
    then show "outcome (value_error_as message status m (s\<lparr>sv_db := d\<rparr>)) = outcome (value_error_as message status m s)"
      unfolding v by (auto split: prod.splits intro: w)
  qed
  show "keeps (value_error_as message status m)" if "keeps m"
    using that by (auto simp: keeps_def value_error_as_def split: prod.splits sum.splits py_error.splits) (metis snd_conv)+
qed

lemma sees_with_db [sees_intros]:
  assumes "\<And>d d'. rows_of t d' = rows_of t d \<Longrightarrow> fst (f d') = fst (f d)"
  shows "sees t (with_db f)"
  unfolding sees_def
proof (intro allI impI)
  fix s :: "'b server" and d
  assume "rows_of t d = rows_of t (sv_db s)"
  then have "fst (f d) = fst (f (sv_db s))" by (rule assms)
  then show "outcome (with_db f (s\<lparr>sv_db := d\<rparr>)) = outcome (with_db f s)" by (simp add: with_db_def outcome_def case_prod_beta)
qed

lemma keeps_with_db [sees_intros]: "(\<And>d. snd (f d) = d) \<Longrightarrow> keeps (with_db f)"
  by (simp add: keeps_def with_db_def case_prod_beta)

lemma sees_andthen [sees_intros]:
  assumes "keeps m" "sees t m" "\<And>x. sees t (f x)"
  shows "sees t (andthen m f)"
  unfolding sees_def
proof (intro allI impI)
  fix s :: "'a server" and d
  assume d: "rows_of t d = rows_of t (sv_db s)"
  then have "outcome (m (s\<lparr>sv_db := d\<rparr>)) = outcome (m s)" using assms(2) by (simp add: sees_def)
  moreover have db: "sv_db (snd (m (s\<lparr>sv_db := d\<rparr>))) = d" "sv_db (snd (m s)) = sv_db s" using assms(1) by (simp_all add: keeps_def)
  ultimately have m: "m (s\<lparr>sv_db := d\<rparr>) = (fst (m s), (snd (m s))\<lparr>sv_db := d\<rparr>)"
    by (simp add: outcome_def prod_eq_iff server.equality)
  have "outcome (f x ((snd (m s))\<lparr>sv_db := d\<rparr>)) = outcome (f x (snd (m s)))" for x
    using assms(3) d db(2) by (simp add: sees_def)
  then show "outcome (andthen m f (s\<lparr>sv_db := d\<rparr>)) = outcome (andthen m f s)"
    unfolding andthen_def m by (auto simp: outcome_def split: prod.splits sum.splits)
qed

lemma sees_option [sees_intros]:
  "sees t m \<Longrightarrow> (\<And>x. sees t (f x)) \<Longrightarrow> sees t (case z of None \<Rightarrow> m | Some x \<Rightarrow> f x)"
  by (cases z) simp_all

lemma sees_case_prod [sees_intros]: "(\<And>x y. sees t (f x y)) \<Longrightarrow> sees t (case p of (x, y) \<Rightarrow> f x y)"
  by (cases p) simp

text \<open>The queries of the services, and an answer.\<close>

lemma answer_rows: "rows_of u d' = rows_of u d \<Longrightarrow> answer E dl R u query minimum d' = answer E dl R u query minimum d"
proof -
  assume "rows_of u d' = rows_of u d"
  then have "filter (\<lambda>r. rd_tenant r = u) (regulation_documents d') = filter (\<lambda>r. rd_tenant r = u) (regulation_documents d)"
    by (simp add: rows_of_def)
  note rows = read_congs(1) [OF this]
  have "fst (documents E dl u d') = fst (documents E dl u d)"
    unfolding documents_def connect_eq query_tx_def rows by simp
  moreover from this have "search E dl R u query n d' = search E dl R u query n d" for n by (simp add: search_def)
  ultimately show ?thesis by (simp only: answer_def hybrid_search_def)
qed

lemma payload_rows: "rows_of u d' = rows_of u d \<Longrightarrow> evidence_payloads u run_id d' = evidence_payloads u run_id d"
proof -
  assume eq: "rows_of u d' = rows_of u d"
  note t = rows_of_tables [OF eq]
  note r = t [THEN read_congs(1)] t [THEN read_congs(2)] t [THEN read_congs(3)] t [THEN read_congs(4)]
  have "filter (\<lambda>r. tr_tenant r = u) (tax_rule_runs d') = filter (\<lambda>r. tr_tenant r = u) (tax_rule_runs d)"
    using eq by (simp add: rows_of_def)
  note runs = this [THEN read_congs(4)]
  show ?thesis unfolding evidence_payloads_def audit_rows_def runs r ..
qed

lemma export_rows:
  assumes "rows_of u d' = rows_of u d"
  shows "fst (connect E dl (Some u) (export_tax_run E L ts run_id secret key_id u pem) d')
    = fst (connect E dl (Some u) (export_tax_run E L ts run_id secret key_id u pem) d)"
    "fst (connect E dl (Some u) (build_tax_run_package E L ts run_id u signer) d')
    = fst (connect E dl (Some u) (build_tax_run_package E L ts run_id u signer) d)"
  unfolding connect_eq export_tax_run_def build_tax_run_package_def payload_rows [OF assms]
  by (auto simp: Let_def bind_res_def split: sum.splits option.splits)

text \<open>Whether an audit event can be appended depends on the tenant's rows only.\<close>

lemma append_rows:
  assumes "rows_of u d' = rows_of u d"
  shows "map_sum id (\<lambda>_. ()) (fst (connect E dl (Some u) (append_audit_event E ts m et i p u) d'))
    = map_sum id (\<lambda>_. ()) (fst (connect E dl (Some u) (append_audit_event E ts m et i p u) d))"
proof -
  have f: "filter (\<lambda>r. ae_tenant r = u) (audit_events d') = filter (\<lambda>r. ae_tenant r = u) (audit_events d)"
    using rows_of_tables(1) [OF assms] .
  then have "{r \<in> set (audit_events d'). ae_tenant r = u} = {r \<in> set (audit_events d). ae_tenant r = u}"
    by (metis set_filter)
  then have clash: "(\<exists>r \<in> set (audit_events d'). ae_tenant r = u \<and> ae_event_hash r = h)
      \<longleftrightarrow> (\<exists>r \<in> set (audit_events d). ae_tenant r = u \<and> ae_event_hash r = h)" for h
    by blast
  have "previous_hash u d' = previous_hash u d"
    by (simp add: previous_hash_def audit_rows_def read_congs(1) [OF f])
  then show ?thesis
    by (auto simp: connect_eq append_audit_event_def insert_audit_event_def append_outbox_event_def bind_tx_def clash Let_def)
qed

lemma preserve_rows:
  assumes "rows_of u d' = rows_of u d"
  shows "fst (preserve_tax_run E L dl ts put signer n u run_id d' st) = fst (preserve_tax_run E L dl ts put signer n u run_id d st)
    \<and> snd (snd (preserve_tax_run E L dl ts put signer n u run_id d' st)) = snd (snd (preserve_tax_run E L dl ts put signer n u run_id d st))"
proof -
  obtain b x x' where b: "connect E dl (Some u) (build_tax_run_package E L ts run_id u signer) d = (b, x)"
    "connect E dl (Some u) (build_tax_run_package E L ts run_id u signer) d' = (b, x')"
    using export_rows(2) [OF assms, of E dl L ts run_id signer] by (metis prod.collapse)
  show ?thesis
  proof (cases b)
    case (Inr pm)
    obtain package manifest where pm: "pm = (package, manifest)" by fastforce
    obtain q st' where q: "put (evidence_key u run_id) package n st = (q, st')" by fastforce
    show ?thesis
    proof (cases q)
      case (Inr stored)
      let ?append = "connect E dl (Some u) (append_audit_event E (after_calls 1 ts) (lit ''evidence'')
          (lit ''EVIDENCE_PRESERVED'') run_id (preserved_payload stored manifest) u)"
      obtain a y a' y' where a: "?append d = (a, y)" "?append d' = (a', y')" by fastforce
      with append_rows [OF assms, of E dl "after_calls 1 ts" "lit ''evidence''" "lit ''EVIDENCE_PRESERVED''" run_id
          "preserved_payload stored manifest"] have "map_sum id (\<lambda>_. ()) a' = map_sum id (\<lambda>_. ()) a" by simp
      then show ?thesis
        by (cases a; cases a') (simp_all add: preserve_tax_run_def b \<open>b = Inr pm\<close> pm q Inr a del: One_nat_def)
    qed (simp add: preserve_tax_run_def b Inr pm q)
  qed (simp add: preserve_tax_run_def b)
qed

lemma sees_managed_package [sees_intros]: "sees tenant (managed_package A c put get signer retention tenant run_id)"
  unfolding sees_def
proof (intro allI impI)
  fix s :: "'a server" and d
  assume d: "rows_of tenant d = rows_of tenant (sv_db s)"
  let ?p = "\<lambda>d. preserve_tax_run (lb_env (app_libs A)) (lb_evidence (app_libs A)) (app_dialect A) (cl_clock c 0) put signer
       retention tenant run_id d (sv_store s)"
  obtain r st dx dx' where "?p d = (r, dx, st)" "?p (sv_db s) = (r, dx', st)"
    using preserve_rows [OF d] by (metis prod.collapse)
  then show "outcome (managed_package A c put get signer retention tenant run_id (s\<lparr>sv_db := d\<rparr>))
      = outcome (managed_package A c put get signer retention tenant run_id s)"
    by (simp add: managed_package_def outcome_def andthen_def yield_def give_def split: sum.splits)
qed

lemma sees_exported_file [sees_intros]: "sees tenant (exported_file A c tenant run_id)"
  unfolding exported_file_def
proof (intro sees_intros)
  show "snd (connect E dl (Some tenant) (export_tax_run E L ts run_id secret key_id tenant pem) d) = d" for E dl L ts secret key_id pem d
    by (rule connect_reads) (auto simp: export_tax_run_def bind_res_Inr Let_def)
qed (auto simp: sees_def outcome_def intro: export_rows(1))

text \<open>
  Once a request passes its guards it is the endpoint's body that runs, from whatever database.
\<close>

lemma guarded_run:
  assumes "authenticated A c allowed valid (\<lambda>claims. for_tenant claims ty rid act (body claims)) s = (r, s')"
    and "\<not> isl r \<or> s' \<noteq> s"
  obtains claims tenant where "proves A c allowed claims" "authorize_resource claims ty rid act = Inr ()"
    "text_claim (lit ''tenant_id'') claims = Inr tenant"
    "\<forall>s. authenticated A c allowed valid (\<lambda>claims. for_tenant claims ty rid act (body claims)) s = body claims tenant s"
proof -
  from assms obtain claims tenant where a: "require_verified_roles (app_verifier A) allowed (cl_now c) (cl_token c) = Inr claims" "valid"
    "authorize_resource claims ty rid act = Inr ()" "text_claim (lit ''tenant_id'') claims = Inr tenant"
    by (auto simp: authenticated_def for_tenant_def act_eqs raise_if_def split: if_splits)
  then show thesis
    using that [of claims tenant] require_verified_roles_proves [OF a(1)]
    by (simp add: authenticated_def for_tenant_def andthen_def yield_def raise_if_def)
qed

text \<open>A request whose reply and files depend, in the database, on the rows of the claims' tenant only.\<close>

definition sees_own ::
  "('f, 's) app \<Rightarrow> call \<Rightarrow> pystr list \<Rightarrow> (pystr \<Rightarrow> pystr \<times> pystr \<times> pystr) \<Rightarrow> ('a, 's) act \<Rightarrow> 's server \<Rightarrow> bool" where
  "sees_own A c allowed resource m s \<longleftrightarrow> (\<exists>claims tenant. proves A c allowed claims
     \<and> (case resource tenant of (ty, rid, act) \<Rightarrow> authorize_resource claims ty rid act = Inr ())
     \<and> text_claim (lit ''tenant_id'') claims = Inr tenant
     \<and> (\<forall>d. rows_of tenant d = rows_of tenant (sv_db s) \<longrightarrow> outcome (m (s\<lparr>sv_db := d\<rparr>)) = outcome (m s)))"

definition shielded :: "('f, 's) app \<Rightarrow> call \<Rightarrow> pystr list \<Rightarrow> (pystr \<Rightarrow> pystr \<times> pystr \<times> pystr) \<Rightarrow> ('a, 's) act \<Rightarrow> bool" where
  "shielded A c allowed resource m \<longleftrightarrow> (\<forall>s r s'. m s = (r, s') \<longrightarrow> \<not> isl r \<or> s' \<noteq> s \<longrightarrow> sees_own A c allowed resource m s)"

lemma guarded_shielded:
  assumes "\<And>claims tenant. sees tenant (body claims tenant)"
  shows "shielded A c allowed (\<lambda>_. (ty, rid, act))
    (authenticated A c allowed valid (\<lambda>claims. for_tenant claims ty rid act (body claims)))"
  unfolding shielded_def
proof (intro allI impI)
  fix s r s'
  assume "authenticated A c allowed valid (\<lambda>claims. for_tenant claims ty rid act (body claims)) s = (r, s')" "\<not> isl r \<or> s' \<noteq> s"
  then obtain claims tenant where "proves A c allowed claims" "authorize_resource claims ty rid act = Inr ()"
    "text_claim (lit ''tenant_id'') claims = Inr tenant"
    and run: "\<forall>s. authenticated A c allowed valid (\<lambda>claims. for_tenant claims ty rid act (body claims)) s = body claims tenant s"
    by (rule guarded_run)
  moreover have "outcome (body claims tenant (s\<lparr>sv_db := d\<rparr>)) = outcome (body claims tenant s)"
    if "rows_of tenant d = rows_of tenant (sv_db s)" for d
    using assms that by (simp add: sees_def)
  ultimately show "sees_own A c allowed (\<lambda>_. (ty, rid, act))
      (authenticated A c allowed valid (\<lambda>claims. for_tenant claims ty rid act (body claims))) s"
    unfolding sees_own_def by auto
qed

lemma query_keeps [sees_intros]:
  "snd (workflow E dl t run_id d) = d" "snd (findings E dl t run_id d) = d" "snd (open_cases E dl t d) = d"
  "snd (case_history E dl t case_id d) = d" "snd (investigate E dl t d) = d" "snd (x, d) = d"
  unfolding workflow_def findings_def open_cases_def case_history_def investigate_def
  by (simp_all, (rule connect_reads, auto simp: query_tx_def bind_res_Inr)+)

lemma answer_sees: "rows_of u d' = rows_of u d \<Longrightarrow> fst (answer E dl R u query minimum d', d') = fst (answer E dl R u query minimum d, d)"
  unfolding fst_conv by (rule answer_rows)

lemma endpoint_shielded:
  "shielded A c viewers (\<lambda>_. (lit ''tax_run'', run_id, lit ''read'')) (tax_findings_of A c run_id)"
  "shielded A c reviewers (\<lambda>_. (lit ''control_case'', lit ''*'', lit ''list'')) (control_cases_of A c)"
  "shielded A c reviewers (\<lambda>_. (lit ''control_case'', str_of_int i, lit ''read'')) (control_case_history A c i)"
  "shielded A c viewers (\<lambda>_. (lit ''risk_graph'', lit ''findings'', lit ''read'')) (graph_findings_of A c)"
  "shielded A c viewers (\<lambda>_. (lit ''reg_corpus'', lit ''documents'', lit ''read'')) (answer_reg A c query)"
  "shielded A c reviewers (\<lambda>_. (lit ''tax_run'', run_id, lit ''evidence'')) (tax_evidence A c run_id)"
  unfolding tax_findings_of_def control_cases_of_def control_case_history_def graph_findings_of_def answer_reg_def
    tax_evidence_def Let_def
  by (rule guarded_shielded, intro sees_intros, (erule rows_of_reads answer_sees)?)+

lemma audit_shielded: "shielded A c reviewers (\<lambda>tenant. (lit ''audit_chain'', tenant, lit ''verify'')) (audit_verify A c)"
  unfolding shielded_def
proof (intro allI impI)
  fix s r s'
  let ?E = "lb_env (app_libs A)"
  let ?verify = "\<lambda>t. connect ?E (app_dialect A) (Some t) (\<lambda>d. bind_res (verify_audit_chain ?E t d) (\<lambda>r. Inr (r, d)))"
  let ?body = "\<lambda>t. andthen (with_db (?verify t)) (\<lambda>(valid, events, broken).
       give (Reply_object (JObj [(lit ''valid'', JBool valid), (lit ''events'', JInt events), (lit ''broken_hash'', opt_json broken)])))"
  assume "audit_verify A c s = (r, s')" "\<not> isl r \<or> s' \<noteq> s"
  then obtain claims tenant where a: "require_verified_roles (app_verifier A) reviewers (cl_now c) (cl_token c) = Inr claims"
    "authorize_resource claims (lit ''audit_chain'') tenant (lit ''verify'') = Inr ()" "text_claim (lit ''tenant_id'') claims = Inr tenant"
    by (auto simp: audit_verify_def Let_def authenticated_def act_eqs raise_if_def split: if_splits)
  then have run: "audit_verify A c s = ?body tenant s" for s
    by (simp add: audit_verify_def Let_def authenticated_def andthen_def yield_def raise_if_def)
  have "snd (?verify tenant d) = d" for d by (rule connect_reads) (auto simp: bind_res_Inr)
  moreover have "fst (?verify tenant d') = fst (?verify tenant d)" if "rows_of tenant d' = rows_of tenant d" for d d'
    by (simp add: connect_eq rows_of_reads(1) [OF that] bind_res_def split: sum.splits)
  ultimately have "sees tenant (?body tenant)" by (intro sees_intros)
  with a(2,3) require_verified_roles_proves [OF a(1)] show "sees_own A c reviewers (\<lambda>tenant. (lit ''audit_chain'', tenant, lit ''verify'')) (audit_verify A c) s"
    unfolding sees_own_def sees_def run by auto
qed

text \<open>The requests that ask for data of the tenant.\<close>

definition reading :: "request \<Rightarrow> bool" where
  "reading q = (case q of Get_findings _ \<Rightarrow> True | Get_evidence _ \<Rightarrow> True | Post_answer _ \<Rightarrow> True | Get_control_cases \<Rightarrow> True
     | Get_case_history _ \<Rightarrow> True | Get_graph_findings \<Rightarrow> True | Get_audit_verify \<Rightarrow> True | _ \<Rightarrow> False)"

lemma serve_shielded: "policy q = Some (allowed, resource) \<Longrightarrow> reading q \<Longrightarrow> shielded A c allowed resource (serve A c q)"
  by (cases q) (auto simp: policy_def reading_def endpoint_shielded audit_shielded)

text \<open>What a caller proves is unique.\<close>

lemma proves_unique: "proves A c allowed claims \<Longrightarrow> proves A c allowed claims' \<Longrightarrow> claims' = claims"
  by (auto simp: proves_def)

text \<open>
  C23: Every reply and every change is authorized.  If a request to an endpoint of the policy is
  answered with success, or changes anything, then its token was accepted, the claims have one of the
  endpoint's roles and a scope that grants the endpoint's action on its resource; what it changes in
  the database are operations of the tenant that the claims name, so that no other tenant's rows
  change.  If it is a request for data, then its reply and the files and objects that it leaves are the
  same in every other database with the same rows of that tenant: other tenants' rows do not show in it.
  The other endpoints change nothing.
\<close>

theorem api_access_policy:
  assumes "serve A c q s = (r, s')" and "\<not> isl r \<or> s' \<noteq> s"
  shows "case policy q of
     None \<Rightarrow> s' = s
   | Some (allowed, resource) \<Rightarrow> (\<exists>claims tenant. proves A c allowed claims
       \<and> (case resource tenant of (ty, rid, act) \<Rightarrow> authorize_resource claims ty rid act = Inr ())
       \<and> (s' = s \<or> text_claim (lit ''tenant_id'') claims = Inr tenant
            \<and> (tenant_step (lb_env (app_libs A)) tenant)\<^sup>*\<^sup>* (sv_db s) (sv_db s')
            \<and> (\<forall>u. u \<noteq> tenant \<longrightarrow> rows_of u (sv_db s') = rows_of u (sv_db s)))
       \<and> (reading q \<longrightarrow> text_claim (lit ''tenant_id'') claims = Inr tenant
            \<and> (\<forall>d. rows_of tenant d = rows_of tenant (sv_db s) \<longrightarrow> outcome (serve A c q (s\<lparr>sv_db := d\<rparr>)) = outcome (r, s'))))"
proof (cases "policy q")
  case None
  with serve_open [of q A c s] assms(1) show ?thesis by simp
next
  case (Some p)
  obtain allowed resource where p: "p = (allowed, resource)" by fastforce
  with serve_guards [of q allowed resource A c] Some assms have "access A c allowed resource s s'"
    by (simp add: guards_def)
  then obtain claims tenant where a: "proves A c allowed claims"
    "case resource tenant of (ty, rid, act) \<Rightarrow> authorize_resource claims ty rid act = Inr ()"
    "s' = s \<or> text_claim (lit ''tenant_id'') claims = Inr tenant
        \<and> (tenant_step (lb_env (app_libs A)) tenant)\<^sup>*\<^sup>* (sv_db s) (sv_db s')"
    unfolding access_def by (elim exE conjE)
  show ?thesis
  proof (cases "reading q")
    case True
    with serve_shielded [of q allowed resource A c] Some p assms have "sees_own A c allowed resource (serve A c q) s"
      unfolding shielded_def by blast
    then obtain claims' tenant' where b: "proves A c allowed claims'"
      "case resource tenant' of (ty, rid, act) \<Rightarrow> authorize_resource claims' ty rid act = Inr ()"
      "text_claim (lit ''tenant_id'') claims' = Inr tenant'"
      "\<forall>d. rows_of tenant' d = rows_of tenant' (sv_db s) \<longrightarrow> outcome (serve A c q (s\<lparr>sv_db := d\<rparr>)) = outcome (r, s')"
      unfolding sees_own_def assms(1) by (elim exE conjE)
    from proves_unique [OF a(1) b(1)] a(3) b(3) have "s' = s \<or> (tenant_step (lb_env (app_libs A)) tenant')\<^sup>*\<^sup>* (sv_db s) (sv_db s')"
      by auto
    with b(3) have "s' = s \<or> text_claim (lit ''tenant_id'') claims' = Inr tenant'
        \<and> (tenant_step (lb_env (app_libs A)) tenant')\<^sup>*\<^sup>* (sv_db s) (sv_db s')
        \<and> (\<forall>u. u \<noteq> tenant' \<longrightarrow> rows_of u (sv_db s') = rows_of u (sv_db s))"
      using tenant_steps_rows_of by blast
    with b show ?thesis unfolding Some p option.case prod.case by (intro exI conjI impI)
  next
    case False
    from a(3) have "s' = s \<or> text_claim (lit ''tenant_id'') claims = Inr tenant
        \<and> (tenant_step (lb_env (app_libs A)) tenant)\<^sup>*\<^sup>* (sv_db s) (sv_db s')
        \<and> (\<forall>u. u \<noteq> tenant \<longrightarrow> rows_of u (sv_db s') = rows_of u (sv_db s))"
      using tenant_steps_rows_of by blast
    with a(1,2) False show ?thesis unfolding Some p option.case prod.case by (intro exI conjI) simp_all
  qed
qed

section \<open>Sessions\<close>

text \<open>Requests that are served one after the other.\<close>

fun serve_all :: "('f::linorder, 's) app \<Rightarrow> (call \<times> request) list \<Rightarrow> 's server \<Rightarrow> 's server" where
  "serve_all A [] s = s"
| "serve_all A ((c, q) # qs) s = serve_all A qs (snd (serve A c q s))"

lemma tenant_steps_reachable:
  "(tenant_step E t)\<^sup>*\<^sup>* d d' \<Longrightarrow> reachable E d \<Longrightarrow> reachable E d'"
  unfolding reachable_def
  by (induction rule: rtranclp_induct) (auto intro: rtranclp.rtrancl_into_rtrancl system_step.tenant)

lemma serve_reachable:
  assumes "reachable (lb_env (app_libs A)) (sv_db s)"
  shows "reachable (lb_env (app_libs A)) (sv_db (snd (serve A c q s)))"
proof (cases "policy q")
  case None
  with assms show ?thesis by (simp add: serve_open)
next
  case (Some p)
  obtain allowed resource where p: "p = (allowed, resource)" by fastforce
  have "access A c allowed resource s (snd (serve A c q s)) \<or> snd (serve A c q s) = s"
    using serve_guards [of q allowed resource A c] Some p unfolding guards_def by (metis prod.collapse)
  then show ?thesis using assms by (auto simp: access_def intro: tenant_steps_reachable)
qed

lemma serve_all_reachable:
  "reachable (lb_env (app_libs A)) (sv_db s) \<Longrightarrow> reachable (lb_env (app_libs A)) (sv_db (serve_all A qs s))"
  by (induction A qs s rule: serve_all.induct) (simp_all add: serve_reachable)

lemma reachable_empty: "reachable E empty_db"
  by (simp add: reachable_def)

section \<open>Released evidence\<close>

lemma connect_query: "connect E dl t (query_tx f) d = (Inr x, d') \<Longrightarrow> x = f d \<and> d' = d"
  by (auto dest!: connect_commit simp: query_tx_def)

text \<open>
  C24: Evidence is released after an independent approval only.  In a server whose database went
  through any requests, if the evidence of a run is answered then the caller proved a reviewer's claims,
  and the run's workflow, of the claims' tenant, is approved by somebody who did not request the
  review.
\<close>

theorem evidence_released_after_approval:
  assumes "sv_db s0 = empty_db" and "serve A c (Get_evidence run_id) (serve_all A qs s0) = (Inr reply, s')"
  shows "\<exists>claims tenant w u. proves A c reviewers claims \<and> text_claim (lit ''tenant_id'') claims = Inr tenant
    \<and> w \<in> set (tax_run_workflows (sv_db (serve_all A qs s0))) \<and> rw_run_id w = run_id \<and> rw_tenant w = tenant
    \<and> rw_status w = lit ''APPROVED'' \<and> rw_reviewed_by w = Some u \<and> u \<noteq> rw_requested_by w"
proof -
  let ?s = "serve_all A qs s0"
  from assms(2) have "tax_evidence A c run_id ?s = (Inr reply, s')" by simp
  then show ?thesis unfolding tax_evidence_def Let_def
  proof (cases rule: authenticated_cases)
    case (accepted claims)
    from accepted(3) show ?thesis
    proof (cases rule: for_tenant_cases)
      case (granted tenant)
      let ?row = "find_row (is_workflow run_id tenant) (tax_run_workflows (sv_db ?s))"
      from value_error_as_eq [OF granted(3)] have "\<not> (case ?row of None \<Rightarrow> True | Some r \<Rightarrow> rw_status r \<noteq> lit ''APPROVED'')"
        by (auto simp: andthen_eq yield_eq raise_if_def with_db_eq workflow_def dest!: connect_query split: if_splits)
      then obtain w where w: "?row = Some w" "rw_status w = lit ''APPROVED''"
        by (auto split: option.splits)
      have "workflows_ok (sv_db ?s)"
        by (rule reachable_workflows_ok, rule serve_all_reachable) (simp add: assms(1) reachable_empty)
      then have "decided_by_other w" using find_row_Some [OF w(1)] by (simp add: workflows_ok_def list_all_iff)
      then obtain u where "rw_reviewed_by w = Some u" "u \<noteq> rw_requested_by w"
        using w(2) by (auto simp: decided_by_other_def pending_review_def)
      with accepted(1) granted(2) find_row_Some [OF w(1)] w(2) show ?thesis by (auto simp: is_workflow_def)
    qed simp
  qed simp
qed

section \<open>Witnesses\<close>

definition demo_libs :: "int libs" where
  "demo_libs = \<lparr>lb_env = demo_env, lb_reg = demo_reg, lb_jwt = demo_jwt, lb_evidence = demo_evidence,
     lb_digits = (\<lambda>_ _ _. True), lb_decode_message = lit ''no JSON''\<rparr>"

text \<open>The claims of an analyst and of a reviewer, whose tokens are their names.\<close>

definition demo_claims_of :: "pystr \<Rightarrow> pystr \<Rightarrow> json" where
  "demo_claims_of subject role = JObj [(lit ''sub'', JStr subject), (lit ''tenant_id'', JStr (lit ''acme'')),
     (lit ''roles'', JList [JStr role]), (lit ''resource_scopes'', JList [JStr all_resources])]"

definition demo_verifier :: token_verifier where
  "demo_verifier now token = Inr (demo_claims_of token (if token = lit ''ann'' then lit ''analyst'' else lit ''reviewer''))"

definition demo_app :: "(int, unit) app" where
  "demo_app = \<lparr>app_libs = demo_libs, app_dialect = Sqlite, app_jwt_secret = demo_secret, app_dev_tokens = False,
     app_evidence_secret = None, app_signing_secret = demo_secret, app_token_verifier = Some demo_verifier,
     app_verifier = demo_verifier, app_private_pem = None, app_managed = None\<rparr>"

lemma demo_app_created:
  "create_app demo_libs Sqlite demo_secret False None (Some demo_verifier) None None None 2555 = Inr demo_app"
proof -
  have "length demo_secret = 32" "map_res check_allowed_roles [viewers, analysts, reviewers, admins] = Inr [(), (), (), ()]"
    by code_simp+
  then show ?thesis by (simp add: create_app_def managed_evidence_def demo_app_def Let_def)
qed

definition demo_call :: "pystr \<Rightarrow> pystr \<Rightarrow> call" where
  "demo_call token t = \<lparr>cl_token = Some token, cl_now = 0, cl_clock = (\<lambda>i j. t @ [48 + int i, 48 + int j]), cl_uid = lit ''r1''\<rparr>"

definition demo_start :: "unit server" where
  "demo_start = \<lparr>sv_db = empty_db, sv_store = (), sv_output = []\<rparr>"

definition demo_pack :: json where
  "demo_pack = JObj [(lit ''pack_id'', JStr (lit ''p'')), (lit ''version'', JStr (lit ''v'')), (lit ''rules'', JList [JObj [(lit ''code'', JStr (lit ''A'')),
     (lit ''operator'', JStr (lit ''required_all'')), (lit ''severity'', JStr (lit ''LOW'')), (lit ''message'', JStr (lit ''m''))]])]"

definition demo_session :: "(call \<times> request) list" where
  "demo_session =
     [(demo_call (lit ''ann'') (lit ''a''), Post_run \<lparr>rr_rule_version = None, rr_rule_pack = Some demo_pack\<rparr> None),
      (demo_call (lit ''rob'') (lit ''b''), Post_review (lit ''r1'') \<lparr>ri_decision = lit ''APPROVE'', ri_comment = lit ''fine''\<rparr>)]"

definition approved_run :: "db \<Rightarrow> bool" where
  "approved_run d \<longleftrightarrow> (case find_row (is_workflow (lit ''r1'') (lit ''acme'')) (tax_run_workflows d) of
       None \<Rightarrow> False | Some w \<Rightarrow> rw_status w = lit ''APPROVED'')
     \<and> \<not> Option.is_none (find_row (\<lambda>r. tr_run_id r = lit ''r1'' \<and> tr_tenant r = lit ''acme'') (tax_rule_runs d))"

lemma demo_approved: "approved_run (sv_db (serve_all demo_app demo_session demo_start))"
  by code_simp

lemma demo_reviewer: "require_verified_roles demo_verifier reviewers now (Some (lit ''rob'')) = Inr (demo_claims_of (lit ''rob'') (lit ''reviewer''))"
  by (simp add: require_verified_roles_def verified_claims_def demo_verifier_def demo_claims_of_def reviewers_def json_set_def
      list_ex_iff raise_if_def)

lemma demo_grants: "authorize_resource (demo_claims_of subject role) ty rid act = Inr ()"
  "text_claim (lit ''tenant_id'') (demo_claims_of subject role) = Inr (lit ''acme'')"
  "jget (lit ''sub'') (demo_claims_of subject role) = Inr (JStr subject)"
  by (simp_all add: demo_claims_of_def authorize_resource_list scope_grants_def text_claim_def)

lemma demo_releases:
  assumes "approved_run (sv_db s)"
  shows "\<exists>reply s'. serve demo_app (demo_call (lit ''rob'') t) (Get_evidence (lit ''r1'')) s = (Inr reply, s')"
proof -
  from assms obtain w r where w: "find_row (is_workflow (lit ''r1'') (lit ''acme'')) (tax_run_workflows (sv_db s)) = Some w"
      "rw_status w = lit ''APPROVED''"
    and r: "find_row (\<lambda>r. tr_run_id r = lit ''r1'' \<and> tr_tenant r = lit ''acme'') (tax_rule_runs (sv_db s)) = Some r"
    by (auto simp: approved_run_def Option.is_none_def split: option.splits)
  have q: "workflow demo_env Sqlite (lit ''acme'') (lit ''r1'') (sv_db s) = (Inr (Some w), sv_db s)"
    by (simp add: workflow_def connect_eq query_tx_def w)
  show ?thesis
    by (simp add: tax_evidence_def Let_def authenticated_def for_tenant_def andthen_def yield_def demo_app_def demo_call_def
        demo_libs_def demo_reviewer demo_grants q value_error_as_def raise_if_def w exported_file_def with_db_def connect_eq
        export_tax_run_def evidence_payloads_def r export_signature_def)
qed

lemma evidence_released_after_approval_witness:
  "\<exists>w u. w \<in> set (tax_run_workflows (sv_db (serve_all demo_app demo_session demo_start))) \<and> rw_run_id w = lit ''r1''
    \<and> rw_status w = lit ''APPROVED'' \<and> rw_reviewed_by w = Some u \<and> u \<noteq> rw_requested_by w"
proof -
  from demo_releases [OF demo_approved] obtain reply s' where
    r: "serve demo_app (demo_call (lit ''rob'') (lit ''c'')) (Get_evidence (lit ''r1'')) (serve_all demo_app demo_session demo_start) = (Inr reply, s')"
    by blast
  have "sv_db demo_start = empty_db" by (simp add: demo_start_def)
  from evidence_released_after_approval [OF this r] show ?thesis by blast
qed

text \<open>An analyst posts an entity.\<close>

lemma demo_analyst: "require_verified_roles demo_verifier analysts now (Some (lit ''ann'')) = Inr (demo_claims_of (lit ''ann'') (lit ''analyst''))"
  by (simp add: require_verified_roles_def verified_claims_def demo_verifier_def demo_claims_of_def analysts_def json_set_def
      list_ex_iff raise_if_def)

lemma demo_posts:
  "\<exists>reply s'. serve demo_app (demo_call (lit ''ann'') t) (Post_entities [\<lparr>en_entity_id = lit ''e'', en_entity_type = lit ''ORG'',
     en_attributes = JObj []\<rparr>]) demo_start = (Inr reply, s') \<and> s' \<noteq> demo_start"
  by (simp add: post_entities_def authenticated_def for_tenant_def andthen_def yield_def give_def demo_app_def demo_call_def
      demo_libs_def demo_analyst demo_grants with_db_def add_entities_def connect_eq with_actor_def is_object_def
      demo_start_def empty_db_def bind_tx_def when_tx_def upsert_entities_def append_audit_event_def insert_audit_event_def
      append_outbox_event_def Let_def)

lemma api_access_policy_witness:
  "\<exists>q s' claims. policy q = Some (analysts, \<lambda>_. (lit ''risk_graph'', lit ''entities'', lit ''write''))
    \<and> s' \<noteq> demo_start \<and> snd (serve demo_app (demo_call (lit ''ann'') (lit ''t'')) q demo_start) = s'
    \<and> proves demo_app (demo_call (lit ''ann'') (lit ''t'')) analysts claims
    \<and> authorize_resource claims (lit ''risk_graph'') (lit ''entities'') (lit ''write'') = Inr ()
    \<and> (\<exists>tenant. text_claim (lit ''tenant_id'') claims = Inr tenant
        \<and> (tenant_step demo_env tenant)\<^sup>*\<^sup>* (sv_db demo_start) (sv_db s'))"
proof -
  let ?q = "Post_entities [\<lparr>en_entity_id = lit ''e'', en_entity_type = lit ''ORG'', en_attributes = JObj []\<rparr>]"
  from demo_posts obtain reply s' where
    r: "serve demo_app (demo_call (lit ''ann'') (lit ''t'')) ?q demo_start = (Inr reply, s')" "s' \<noteq> demo_start" by blast
  have p: "policy ?q = Some (analysts, \<lambda>_. (lit ''risk_graph'', lit ''entities'', lit ''write''))" by (simp add: policy_def)
  have e: "lb_env (app_libs demo_app) = demo_env" by (simp add: demo_app_def demo_libs_def)
  from api_access_policy [OF r(1)] r(2) obtain claims tenant where
    "proves demo_app (demo_call (lit ''ann'') (lit ''t'')) analysts claims"
    "authorize_resource claims (lit ''risk_graph'') (lit ''entities'') (lit ''write'') = Inr ()"
    "text_claim (lit ''tenant_id'') claims = Inr tenant" "(tenant_step demo_env tenant)\<^sup>*\<^sup>* (sv_db demo_start) (sv_db s')"
    by (auto simp: p e)
  with p r show ?thesis by (metis snd_conv)
qed

end
