(* ===== verification/Server.thy ===== *)
theory Server
  imports Api_Access
begin

text \<open>
  \<^verbatim>\<open>server.py\<close>: the plain HTTP server, which passes JSON bodies to the services of the default tenant
  without tokens and without request models.  A request is its method, its target and its body; the result
  is \<open>None\<close> where the source is used outside of what this library models: a field whose JSON value has a type
  that the annotation of the class does not name, a numeral of one of the special decimals, a target that is not
  an absolute path, and percent escapes that are no UTF-8.
\<close>

section \<open>Targets\<close>

text \<open>\<^verbatim>\<open>s.partition(c)\<close> and \<^verbatim>\<open>s.rpartition(c)\<close>, as the parts before and from the first or after the last \<open>c\<close>.\<close>

definition before :: "int \<Rightarrow> pystr \<Rightarrow> pystr" where
  "before c s = takeWhile (\<lambda>x. x \<noteq> c) s"

definition behind :: "int \<Rightarrow> pystr \<Rightarrow> pystr" where
  "behind c s = drop 1 (dropWhile (\<lambda>x. x \<noteq> c) s)"

definition after_last :: "int \<Rightarrow> pystr \<Rightarrow> pystr" where
  "after_last c s = rev (takeWhile (\<lambda>x. x \<noteq> c) (rev s))"

text \<open>
  \<^verbatim>\<open>urlparse\<close> of a target that starts with one slash: the path without the parameters of its last
  segment, and the query.  Tabs and line ends are removed, and a fragment is cut off.
\<close>

definition cleaned :: "pystr \<Rightarrow> pystr" where
  "cleaned raw = filter (\<lambda>c. c \<notin> {9, 10, 13}) raw"

definition absolute_path :: "pystr \<Rightarrow> bool" where
  "absolute_path raw \<longleftrightarrow> py_startswith (cleaned raw) [47] \<and> \<not> py_startswith (cleaned raw) [47, 47]"

definition url_path :: "pystr \<Rightarrow> pystr" where
  "url_path raw = (let p = before 63 (before 35 (cleaned raw)) in
     take (length p - length (after_last 47 p)) p @ before 59 (after_last 47 p))"

definition url_query :: "pystr \<Rightarrow> pystr" where
  "url_query raw = behind 63 (before 35 (cleaned raw))"

text \<open>\<^verbatim>\<open>unquote\<close>: the escapes of each run of ASCII characters are decoded together.\<close>

fun unquote_to_bytes :: "pystr \<Rightarrow> bytes" where
  "unquote_to_bytes (c # h # l # s) = (case (hex_value h, hex_value l) of
     (Some a, Some b) \<Rightarrow> if c = 37 then (16 * a + b) # unquote_to_bytes s else c # unquote_to_bytes (h # l # s)
   | _ \<Rightarrow> c # unquote_to_bytes (h # l # s))"
| "unquote_to_bytes s = s"

function unquote :: "pystr \<Rightarrow> pystr option" where
  "unquote [] = Some []"
| "unquote (c # s) = (if c < 128
     then (case utf8_decode (unquote_to_bytes (c # takeWhile (\<lambda>x. x < 128) s)) of
        None \<Rightarrow> None
      | Some t \<Rightarrow> map_option ((@) t) (unquote (dropWhile (\<lambda>x. x < 128) s)))
     else map_option ((#) c) (unquote s))"
  by pat_completeness auto
termination
  by (relation "measure length") (auto simp: le_imp_less_Suc length_dropWhile_le)

text \<open>\<^verbatim>\<open>parse_qs\<close>: the decoded pairs with a value, and the first value of a name.\<close>

definition plus_to_space :: "pystr \<Rightarrow> pystr" where
  "plus_to_space s = map (\<lambda>c. if c = 43 then 32 else c) s"

fun query_pairs :: "pystr list \<Rightarrow> (pystr \<times> pystr) list option" where
  "query_pairs [] = Some []"
| "query_pairs (item # items) =
     (if behind 61 item = [] then query_pairs items
      else case (unquote (plus_to_space (before 61 item)), unquote (plus_to_space (behind 61 item))) of
        (Some name, Some value) \<Rightarrow> map_option ((#) (name, value)) (query_pairs items)
      | _ \<Rightarrow> None)"

definition parse_qs :: "pystr \<Rightarrow> (pystr \<times> pystr) list option" where
  "parse_qs query = query_pairs (py_split 38 query)"

definition first_value :: "pystr \<Rightarrow> (pystr \<times> pystr) list \<Rightarrow> pystr" where
  "first_value name pairs = (case map_of pairs name of None \<Rightarrow> [] | Some v \<Rightarrow> v)"

section \<open>Bodies\<close>

text \<open>
  \<^verbatim>\<open>f(**v)\<close>: a value that is no object, a missing or an unknown name raise.
\<close>

definition keyword_args :: "string list \<Rightarrow> string list \<Rightarrow> json \<Rightarrow> (pystr \<times> json) list res" where
  "keyword_args required optional v = (case v of
     JObj kvs \<Rightarrow> bind_res (raise_if (\<not> (list_all (\<lambda>k. lit k \<in> fst ` set kvs) required
         \<and> list_all (\<lambda>(k, x). k \<in> set (map lit (required @ optional))) kvs)) TypeError) (\<lambda>_. Inr kvs)
   | _ \<Rightarrow> Inl TypeError)"

definition arg :: "string \<Rightarrow> (pystr \<times> json) list \<Rightarrow> json" where
  "arg k kvs = (case map_of kvs (lit k) of None \<Rightarrow> JNull | Some v \<Rightarrow> v)"

fun text_value :: "json \<Rightarrow> pystr option" where
  "text_value (JStr s) = Some s"
| "text_value _ = None"

fun optional_text :: "json \<Rightarrow> pystr option option" where
  "optional_text JNull = Some None"
| "optional_text (JStr s) = Some (Some s)"
| "optional_text _ = None"

fun bool_value :: "json \<Rightarrow> bool option" where
  "bool_value (JBool b) = Some b"
| "bool_value _ = None"

text \<open>
  What \<^verbatim>\<open>Decimal(str(v))\<close> reads: \<^verbatim>\<open>str\<close> of \<^verbatim>\<open>None\<close>, of a list and of a dictionary is no numeral, as \<open>CNull\<close>
  is not.  A text that starts like the name of an infinity or of a \<^verbatim>\<open>NaN\<close> is left out.
\<close>

definition special_numeral :: "pystr \<Rightarrow> bool" where
  "special_numeral s = (case snd (scan_sign (py_remove 95 (py_strip s))) of [] \<Rightarrow> False
     | c # r \<Rightarrow> c \<in> {73, 105, 78, 110, 83, 115})"

definition numeral_cell :: "pystr \<Rightarrow> cell option" where
  "numeral_cell s = (if special_numeral s then None else Some (CStr s))"

fun amount_cell :: "json \<Rightarrow> cell option" where
  "amount_cell (JInt i) = Some (CInt i)"
| "amount_cell (JFloat s) = numeral_cell (float_str s)"
| "amount_cell (JStr s) = numeral_cell s"
| "amount_cell (JBool b) = Some (CStr (if b then lit ''True'' else lit ''False''))"
| "amount_cell _ = Some CNull"

text \<open>A constructor on the arguments that are typed; the exceptions of the call come first.\<close>

definition construct :: "string list \<Rightarrow> string list \<Rightarrow> ((pystr \<times> json) list \<Rightarrow> 'a res option) \<Rightarrow> json \<Rightarrow> 'a res option" where
  "construct required optional rest v = (case keyword_args required optional v of Inl e \<Rightarrow> Some (Inl e) | Inr kvs \<Rightarrow> rest kvs)"

definition transaction_json :: "json \<Rightarrow> tax_transaction res option" where
  "transaction_json = construct [''invoice_id'', ''seller_tax_id'', ''buyer_tax_id'', ''invoice_date'', ''amount'', ''tax_rate'', ''tax_amount'']
     [''currency''] (\<lambda>kvs. case (text_value (arg ''invoice_id'' kvs), optional_text (arg ''seller_tax_id'' kvs),
        optional_text (arg ''buyer_tax_id'' kvs), text_value (arg ''invoice_date'' kvs), amount_cell (arg ''amount'' kvs),
        amount_cell (arg ''tax_rate'' kvs), amount_cell (arg ''tax_amount'' kvs),
        (case map_of kvs (lit ''currency'') of None \<Rightarrow> Some (lit ''CNY'') | Some v \<Rightarrow> text_value v)) of
       (Some invoice, Some seller, Some buyer, Some dt, Some amount, Some tax_rate, Some tax, Some currency) \<Rightarrow>
         Some (make_tax_transaction invoice seller buyer dt amount tax_rate tax currency)
     | _ \<Rightarrow> None)"

definition control_event_json :: "json \<Rightarrow> control_event res option" where
  "control_event_json = construct [''event_id'', ''event_type'', ''actor'', ''resource'', ''occurred_at'', ''approved'', ''privileged'',
     ''outcome'', ''payload''] [] (\<lambda>kvs. case (text_value (arg ''event_id'' kvs), text_value (arg ''event_type'' kvs),
        text_value (arg ''actor'' kvs), text_value (arg ''resource'' kvs), text_value (arg ''occurred_at'' kvs),
        bool_value (arg ''approved'' kvs), bool_value (arg ''privileged'' kvs), text_value (arg ''outcome'' kvs)) of
       (Some i, Some ty, Some a, Some res, Some t, Some ap, Some pr, Some out) \<Rightarrow>
         Some (Inr \<lparr>ev_event_id = i, ev_event_type = ty, ev_actor = a, ev_resource = res, ev_occurred_at = t,
           ev_approved = ap, ev_privileged = pr, ev_outcome = out, ev_payload = arg ''payload'' kvs\<rparr>)
     | _ \<Rightarrow> None)"

definition entity_json :: "json \<Rightarrow> entity res option" where
  "entity_json = construct [''entity_id'', ''entity_type'', ''attributes''] []
     (\<lambda>kvs. case (text_value (arg ''entity_id'' kvs), text_value (arg ''entity_type'' kvs)) of
       (Some i, Some ty) \<Rightarrow> Some (Inr \<lparr>en_entity_id = i, en_entity_type = ty, en_attributes = arg ''attributes'' kvs\<rparr>)
     | _ \<Rightarrow> None)"

definition edge_json :: "json \<Rightarrow> edge res option" where
  "edge_json = construct [''source_id'', ''target_id'', ''relation'', ''amount'', ''occurred_at'', ''evidence''] []
     (\<lambda>kvs. case (text_value (arg ''source_id'' kvs), text_value (arg ''target_id'' kvs), text_value (arg ''relation'' kvs),
        amount_cell (arg ''amount'' kvs), text_value (arg ''occurred_at'' kvs)) of
       (Some a, Some b, Some r, Some x, Some t) \<Rightarrow> Some (Inr \<lparr>eg_source_id = a, eg_target_id = b, eg_relation = r,
          eg_amount = x, eg_occurred_at = t, eg_evidence = arg ''evidence'' kvs\<rparr>)
     | _ \<Rightarrow> None)"

text \<open>A comprehension: the first exception ends it, and so does the first value outside of the model.\<close>

fun each_item :: "('a \<Rightarrow> 'b res option) \<Rightarrow> 'a list \<Rightarrow> 'b list res option" where
  "each_item f [] = Some (Inr [])"
| "each_item f (x # xs) = (case f x of
     None \<Rightarrow> None
   | Some (Inl e) \<Rightarrow> Some (Inl e)
   | Some (Inr y) \<Rightarrow> map_option (\<lambda>r. bind_res r (\<lambda>ys. Inr (y # ys))) (each_item f xs))"

text \<open>\<^verbatim>\<open>body or {}\<close>, and \<^verbatim>\<open>body if isinstance(body, list) else (body or {}).get(k, [])\<close> with its elements.\<close>

definition body_or_empty :: "json \<Rightarrow> json" where
  "body_or_empty body = (if truthy body then body else JObj [])"

definition body_items :: "string \<Rightarrow> json \<Rightarrow> json list res" where
  "body_items k body = (case body of JList xs \<Rightarrow> Inr xs
     | _ \<Rightarrow> bind_res (jget_or (lit k) (JList []) (body_or_empty body)) jiter)"

section \<open>Dispatching\<close>

datatype 'f payload =
    Object_payload json
  | Findings_payload "tax_finding list"
  | Answer_payload "'f reg_answer"
  | Cases_payload "case_report list"
  | Open_cases_payload "control_case list"
  | Graph_payload "graph_finding list"
  | Invalid_request py_error
  | Internal_error py_error

definition own_tenant :: pystr where
  "own_tenant = lit ''default''"

type_synonym 'f served = "((int \<times> 'f payload) res \<times> db) option"

text \<open>An operation on the database that a status and a payload follow, and one whose argument is read from the body.\<close>

definition served :: "int \<Rightarrow> ('a \<Rightarrow> 'f payload) \<Rightarrow> 'a res \<times> db \<Rightarrow> 'f served" where
  "served status payload p = (case p of (r, d) \<Rightarrow> Some (bind_res r (\<lambda>x. Inr (status, payload x)), d))"

definition with_arg :: "'a res option \<Rightarrow> ('a \<Rightarrow> 'f served) \<Rightarrow> db \<Rightarrow> 'f served" where
  "with_arg r f d = (case r of None \<Rightarrow> None | Some (Inl e) \<Rightarrow> Some (Inl e, d) | Some (Inr x) \<Rightarrow> f x)"

definition items_of :: "string \<Rightarrow> (json \<Rightarrow> 'a res option) \<Rightarrow> json \<Rightarrow> 'a list res option" where
  "items_of k read body = (case body_items k body of Inl e \<Rightarrow> Some (Inl e) | Inr xs \<Rightarrow> each_item read xs)"

definition health_payload :: json where
  "health_payload = JObj [(lit ''status'', JStr (lit ''ok'')),
     (lit ''modules'', JList (map JStr [lit ''taxflow'', lit ''regintel'', lit ''controlpulse'', lit ''riskgraph'']))]"

definition document_args :: "json \<Rightarrow> (pystr \<times> pystr \<times> pystr \<times> pystr \<times> pystr) res option" where
  "document_args = construct [''document_key'', ''title'', ''source_url'', ''published_at'', ''content''] []
     (\<lambda>kvs. case (text_value (arg ''document_key'' kvs), text_value (arg ''title'' kvs), text_value (arg ''source_url'' kvs),
        text_value (arg ''published_at'' kvs), text_value (arg ''content'' kvs)) of
       (Some k, Some t, Some u, Some p, Some c) \<Rightarrow> Some (Inr (k, t, u, p, c))
     | _ \<Rightarrow> None)"

text \<open>A member of the body, in the types that its use is modelled for.\<close>

definition member :: "string \<Rightarrow> json \<Rightarrow> (json \<Rightarrow> 'a option) \<Rightarrow> json \<Rightarrow> 'a res option" where
  "member k dflt typed body = (case jget_or (lit k) dflt (body_or_empty body) of
     Inl e \<Rightarrow> Some (Inl e) | Inr v \<Rightarrow> map_option Inr (typed v))"

definition audit_report :: "pyenv \<Rightarrow> dialect \<Rightarrow> db \<Rightarrow> (bool \<times> int \<times> pystr option) res \<times> db" where
  "audit_report E dl = connect E dl None (\<lambda>d. bind_res (verify_audit_chain E own_tenant d) (\<lambda>r. Inr (r, d)))"

definition dispatch_get ::
  "pyenv \<Rightarrow> dialect \<Rightarrow> pystr \<Rightarrow> (pystr \<times> pystr) list \<Rightarrow> db \<Rightarrow> 'f served option" where
  "dispatch_get E dl path query d =
     (if path = lit ''/health'' then Some (Some (Inr (200, Object_payload health_payload), d))
      else if path = lit ''/audit/verify'' then Some (served 200 (\<lambda>(valid, count, broken). Object_payload (JObj
        [(lit ''valid'', JBool valid), (lit ''events'', JInt count), (lit ''broken_hash'', opt_json broken)])) (audit_report E dl d))
      else if path = lit ''/tax/findings'' then Some (served 200 Findings_payload (findings E dl own_tenant (first_value (lit ''run_id'') query) d))
      else if path = lit ''/controls/cases'' then Some (served 200 Open_cases_payload (open_cases E dl own_tenant d))
      else if path = lit ''/graph/findings'' then Some (served 200 Graph_payload (investigate E dl own_tenant d))
      else None)"

definition dispatch_post ::
  "pyenv \<Rightarrow> ('f::linorder) reg_lib \<Rightarrow> dialect \<Rightarrow> clock \<Rightarrow> pystr \<Rightarrow> pystr \<Rightarrow> json \<Rightarrow> db \<Rightarrow> 'f served option" where
  "dispatch_post E R dl ts uid path body d =
     (if path = lit ''/tax/transactions'' then Some (with_arg (items_of ''transactions'' transaction_json body) (\<lambda>rows.
        served 201 (\<lambda>n. Object_payload (JObj [(lit ''ingested'', JInt n)])) (ingest E dl ts uid own_tenant rows None d)) d)
      else if path = lit ''/tax/runs'' then Some (with_arg (member ''rule_version'' JNull optional_text body) (\<lambda>version.
        served 201 Object_payload (run_rules E dl ts uid own_tenant version None None d)) d)
      else if path = lit ''/reg/documents'' then Some (with_arg (document_args (body_or_empty body)) (\<lambda>(key, title, url, published, content).
        served 201 (\<lambda>v. Object_payload (JObj [(lit ''version_hash'', JStr v)]))
          (add_document E dl ts own_tenant key title url published content d)) d)
      else if path = lit ''/reg/answer'' then Some (with_arg (member ''query'' (JStr []) text_value body) (\<lambda>query.
        served 200 Answer_payload (answer E dl R own_tenant query (fl_dec R 12 (-2)) d, d)) d)
      else if path = lit ''/controls/events'' then Some (with_arg (control_event_json (body_or_empty body)) (\<lambda>e.
        served 201 Cases_payload (ingest_and_evaluate E dl ts own_tenant e d)) d)
      else if path = lit ''/graph/entities'' then Some (with_arg (items_of ''entities'' entity_json body) (\<lambda>xs.
        served 201 (\<lambda>_. Object_payload (JObj [(lit ''upserted'', JInt (int (length xs)))])) (add_entities E dl ts own_tenant xs d)) d)
      else if path = lit ''/graph/edges'' then Some (with_arg (items_of ''edges'' edge_json body) (\<lambda>xs.
        served 201 (\<lambda>_. Object_payload (JObj [(lit ''inserted'', JInt (int (length xs)))])) (add_edges E dl ts own_tenant xs d)) d)
      else None)"

definition no_route :: "pystr \<Rightarrow> pystr \<Rightarrow> 'f payload" where
  "no_route meth path = Object_payload (JObj [(lit ''error'', JStr (lit ''route_not_found'')),
     (lit ''method'', JStr meth), (lit ''path'', JStr path)])"

definition dispatch ::
  "pyenv \<Rightarrow> ('f::linorder) reg_lib \<Rightarrow> dialect \<Rightarrow> clock \<Rightarrow> pystr \<Rightarrow> pystr \<Rightarrow> pystr \<Rightarrow> json \<Rightarrow> db \<Rightarrow> 'f served" where
  "dispatch E R dl ts uid meth raw body d =
     (if \<not> absolute_path raw then None
      else case parse_qs (url_query raw) of None \<Rightarrow> None
      | Some query \<Rightarrow>
         (case (if meth = lit ''GET'' then dispatch_get E dl (url_path raw) query d
                else if meth = lit ''POST'' then dispatch_post E R dl ts uid (url_path raw) body d else None) of
            Some reply \<Rightarrow> reply
          | None \<Rightarrow> Some (Inr (404, no_route meth (url_path raw)), d)))"

section \<open>The handler\<close>

text \<open>The exceptions that are answered as the client's fault: \<^verbatim>\<open>TypeError\<close>, \<^verbatim>\<open>ValueError\<close> and \<^verbatim>\<open>KeyError\<close>.\<close>

fun client_fault :: "py_error \<Rightarrow> bool" where
  "client_fault (ValueError m) \<longleftrightarrow> True"
| "client_fault JSONDecodeError \<longleftrightarrow> True"
| "client_fault (KeyError k) \<longleftrightarrow> True"
| "client_fault TypeError \<longleftrightarrow> True"
| "client_fault _ \<longleftrightarrow> False"

text \<open>The header gives the length to read; \<open>read\<close> is what the connection then holds.\<close>

definition request_body :: "pyenv \<Rightarrow> pystr option \<Rightarrow> (int \<Rightarrow> bytes) \<Rightarrow> json res" where
  "request_body E content_length read =
     bind_res (json_int (JStr (case content_length of None \<Rightarrow> lit ''0'' | Some s \<Rightarrow> s))) (\<lambda>n.
       if n = 0 then Inr JNull else loads_bytes E (read n))"

definition refused_reply :: "py_error \<Rightarrow> int \<times> 'f payload" where
  "refused_reply e = (if client_fault e then (400, Invalid_request e) else (500, Internal_error e))"

definition handle ::
  "pyenv \<Rightarrow> ('f::linorder) reg_lib \<Rightarrow> dialect \<Rightarrow> clock \<Rightarrow> pystr \<Rightarrow> pystr \<Rightarrow> pystr \<Rightarrow> pystr option \<Rightarrow> (int \<Rightarrow> bytes) \<Rightarrow> db
     \<Rightarrow> ((int \<times> 'f payload) \<times> db) option" where
  "handle E R dl ts uid meth raw content_length read d =
     (case request_body E content_length read of
        Inl e \<Rightarrow> Some (refused_reply e, d)
      | Inr body \<Rightarrow> map_option (\<lambda>(r, d'). (case r of Inl e \<Rightarrow> refused_reply e | Inr reply \<Rightarrow> reply, d'))
          (dispatch E R dl ts uid meth raw body d))"

section \<open>What a request does\<close>

text \<open>A reply leaves the database alone, or has the status 201 and made one step of the server's tenant.\<close>

definition confined :: "pyenv \<Rightarrow> db \<Rightarrow> 'f served \<Rightarrow> bool" where
  "confined E d reply \<longleftrightarrow> (\<forall>r d'. reply = Some (r, d') \<longrightarrow> d' = d \<or> (\<exists>x. r = Inr (201, x)) \<and> tenant_step E own_tenant d d')"

lemma confined_with_arg: "(\<And>x. confined E d (f x)) \<Longrightarrow> confined E d (with_arg r f d)"
  by (auto simp: with_arg_def confined_def split: option.splits sum.splits)

lemma confined_reads: "snd p = d \<Longrightarrow> confined E d (served status f p)"
  by (cases p) (simp add: served_def confined_def)

lemma confined_writes:
  assumes "\<And>r d'. p = (r, d') \<Longrightarrow> tenant_step E own_tenant d d'" and "\<And>e d'. p = (Inl e, d') \<Longrightarrow> d' = d"
  shows "confined E d (served 201 f p)"
proof (cases p)
  case (Pair r d')
  with assms show ?thesis by (cases r) (auto simp: served_def confined_def)
qed

text \<open>A raising operation has changed nothing.\<close>

lemma raising_unchanged:
  "ingest E dl ts uid t rows key d = (Inl e, d') \<Longrightarrow> d' = d"
  "run_rules E dl ts run_id t version pack key d = (Inl e, d') \<Longrightarrow> d' = d"
  "add_document E dl ts t doc_key title url published content d = (Inl e, d') \<Longrightarrow> d' = d"
  "ingest_and_evaluate E dl ts t ev d = (Inl e, d') \<Longrightarrow> d' = d"
  "add_entities E dl ts t xs d = (Inl e, d') \<Longrightarrow> d' = d"
  "add_edges E dl ts t es d = (Inl e, d') \<Longrightarrow> d' = d"
  by (auto simp: ingest_def run_rules_def add_document_def ingest_and_evaluate_def add_entities_def add_edges_def Let_def
      split: sum.splits dest: connect_abort)

lemma queries_unchanged:
  "snd (findings E dl t run_id d) = d" "snd (open_cases E dl t d) = d" "snd (investigate E dl t d) = d"
  "snd (audit_report E dl d) = d"
  unfolding findings_def open_cases_def investigate_def audit_report_def
  by (rule connect_reads, auto simp: query_tx_def bind_res_Inr)+

lemma confined_posts:
  "confined E d (served 201 f1 (ingest E dl ts uid own_tenant rows key d))"
  "confined E d (served 201 f2 (run_rules E dl ts run_id own_tenant version pack key d))"
  "confined E d (served 201 f3 (add_document E dl ts own_tenant doc_key title url published content d))"
  "confined E d (served 201 f4 (ingest_and_evaluate E dl ts own_tenant ev d))"
  "confined E d (served 201 f5 (add_entities E dl ts own_tenant xs d))"
  "confined E d (served 201 f6 (add_edges E dl ts own_tenant es d))"
  by (rule confined_writes, erule tenant_step.intros, erule raising_unchanged)+

lemma confined_get: "dispatch_get E dl path query d = Some reply \<Longrightarrow> confined E d reply"
  by (auto simp: dispatch_get_def queries_unchanged intro!: confined_reads split: if_splits) (simp add: confined_def)

lemma confined_post: "dispatch_post E R dl ts uid path body d = Some reply \<Longrightarrow> confined E d reply"
  by (auto simp: dispatch_post_def confined_reads intro!: confined_with_arg confined_posts split: if_splits prod.splits)

lemma confined_dispatch: "confined E d (dispatch E R dl ts uid meth raw body d)"
proof -
  have "confined E d (Some (Inr (404, x), d))" "confined E d None" for x by (simp_all add: confined_def)
  then show ?thesis
    by (auto simp: dispatch_def dest: confined_get confined_post split: option.split)
qed

lemma handle_cases [consumes 1, case_names unread dispatched]:
  assumes "handle E R dl ts uid meth raw content_length read d = Some (reply, d')"
  obtains e where "request_body E content_length read = Inl e" "reply = refused_reply e" "d' = d"
  | body r where "request_body E content_length read = Inr body" "dispatch E R dl ts uid meth raw body d = Some (r, d')"
      "reply = (case r of Inl e \<Rightarrow> refused_reply e | Inr x \<Rightarrow> x)"
proof (cases "request_body E content_length read")
  case (Inl e)
  with assms show ?thesis using that(1) [of e] by (simp add: handle_def)
next
  case (Inr body)
  with assms obtain r where "dispatch E R dl ts uid meth raw body d = Some (r, d')"
    "reply = (case r of Inl e \<Rightarrow> refused_reply e | Inr x \<Rightarrow> x)" by (auto simp: handle_def)
  then show ?thesis using Inr by (intro that(2))
qed

section \<open>What a created reply stands for\<close>

text \<open>
  The operation of the default tenant that each route makes of the body, its value and what it does to the
  database.
\<close>

definition made :: "pyenv \<Rightarrow> dialect \<Rightarrow> clock \<Rightarrow> pystr \<Rightarrow> pystr \<Rightarrow> json \<Rightarrow> db \<Rightarrow> 'f payload \<Rightarrow> db \<Rightarrow> bool" where
  "made E dl ts uid path body d payload d' \<longleftrightarrow>
     (\<exists>rows n. path = lit ''/tax/transactions'' \<and> items_of ''transactions'' transaction_json body = Some (Inr rows)
        \<and> ingest E dl ts uid own_tenant rows None d = (Inr n, d') \<and> payload = Object_payload (JObj [(lit ''ingested'', JInt n)]))
   \<or> (\<exists>version report. path = lit ''/tax/runs'' \<and> member ''rule_version'' JNull optional_text body = Some (Inr version)
        \<and> run_rules E dl ts uid own_tenant version None None d = (Inr report, d') \<and> payload = Object_payload report)
   \<or> (\<exists>key title url published content v. path = lit ''/reg/documents''
        \<and> document_args (body_or_empty body) = Some (Inr (key, title, url, published, content))
        \<and> add_document E dl ts own_tenant key title url published content d = (Inr v, d')
        \<and> payload = Object_payload (JObj [(lit ''version_hash'', JStr v)]))
   \<or> (\<exists>e cases. path = lit ''/controls/events'' \<and> control_event_json (body_or_empty body) = Some (Inr e)
        \<and> ingest_and_evaluate E dl ts own_tenant e d = (Inr cases, d') \<and> payload = Cases_payload cases)
   \<or> (\<exists>xs. path = lit ''/graph/entities'' \<and> items_of ''entities'' entity_json body = Some (Inr xs)
        \<and> add_entities E dl ts own_tenant xs d = (Inr (), d')
        \<and> payload = Object_payload (JObj [(lit ''upserted'', JInt (int (length xs)))]))
   \<or> (\<exists>xs. path = lit ''/graph/edges'' \<and> items_of ''edges'' edge_json body = Some (Inr xs)
        \<and> add_edges E dl ts own_tenant xs d = (Inr (), d')
        \<and> payload = Object_payload (JObj [(lit ''inserted'', JInt (int (length xs)))]))"

lemma post_made:
  "dispatch_post E R dl ts uid path body d = Some (Some (Inr (201, payload), d')) \<Longrightarrow> made E dl ts uid path body d payload d'"
  by (auto simp: dispatch_post_def with_arg_def served_def bind_res_Inr made_def split: if_splits option.splits sum.splits prod.splits)

text \<open>Such an operation adds one event to the tenant's trail, of the route's type; a control event that is known adds none.\<close>

definition records :: "pystr \<Rightarrow> string \<Rightarrow> db \<Rightarrow> db \<Rightarrow> bool" where
  "records t event d d' \<longleftrightarrow> (\<exists>r. audit_rows t d' = audit_rows t d @ [r] \<and> ae_event_type r = lit event)"

lemma records_append:
  assumes "append_audit_event E ts m (lit event) entity payload t d1 = Inr (h, d2)"
    and "audit_events d1 = audit_events d" and "audit_events d' = audit_events d2"
  shows "records t event d d'"
proof -
  have "audit_rows t d1 = audit_rows t d" "audit_rows t d' = audit_rows t d2" using assms(2,3) by (simp_all add: audit_rows_def)
  with append_audit_event_rows [OF assms(1), of t] show ?thesis by (auto simp: records_def audit_row_def)
qed

lemma operations_record:
  "ingest E dl ts uid t rows None d = (Inr n, d') \<Longrightarrow> records t ''BATCH_INGESTED'' d d'"
  "run_rules E dl ts uid t version None None d = (Inr report, d') \<Longrightarrow> records t ''RULE_RUN_COMPLETED'' d d'"
  "add_document E dl ts t key title url published content d = (Inr v, d') \<Longrightarrow> records t ''DOCUMENT_VERSIONED'' d d'"
  "add_entities E dl ts t xs d = (Inr u, d') \<Longrightarrow> records t ''ENTITIES_UPSERTED'' d d'"
  "add_edges E dl ts t es d = (Inr u, d') \<Longrightarrow> records t ''EDGES_ADDED'' d d'"
  "ingest_and_evaluate E dl ts t e d = (Inr cases, d') \<Longrightarrow> records t ''EVENT_EVALUATED'' d d'
     \<or> d' = d \<and> (\<exists>x \<in> set (control_events d). is_event t (ev_event_id e) x)"
proof -
  show "records t ''BATCH_INGESTED'' d d'" if "ingest E dl ts uid t rows None d = (Inr n, d')"
    using connect_commit [OF that [unfolded ingest_def]]
    by (auto simp: ingest_body_def tx_Inr idempotent_response_def store_idempotent_response_def intro!: records_append)
  show "records t ''DOCUMENT_VERSIONED'' d d'" if "add_document E dl ts t key title url published content d = (Inr v, d')"
    using connect_commit [OF that [unfolded add_document_def Let_def]] by (auto simp: tx_Inr intro!: records_append)
  show "records t ''EDGES_ADDED'' d d'" if "add_edges E dl ts t es d = (Inr u, d')"
    using connect_commit [OF that [unfolded add_edges_def]] by (auto simp: tx_Inr intro!: records_append)
  show "records t ''ENTITIES_UPSERTED'' d d'" if "add_entities E dl ts t xs d = (Inr u, d')"
    using connect_commit [OF that [unfolded add_entities_def]]
    by (auto simp: tx_Inr when_tx_Inr upsert_entities_def intro!: records_append split: if_splits)
  show "records t ''RULE_RUN_COMPLETED'' d d'" if "run_rules E dl ts uid t version None None d = (Inr report, d')"
    using that
    by (auto simp: run_rules_def Let_def run_rules_body_def tx_Inr idempotent_response_def store_idempotent_response_def
        insert_rule_run_def store_findings_def bind_res_Inr split: sum.splits if_splits dest!: connect_commit)
      (erule records_append; simp)
  show "records t ''EVENT_EVALUATED'' d d' \<or> d' = d \<and> (\<exists>x \<in> set (control_events d). is_event t (ev_event_id e) x)"
    if "ingest_and_evaluate E dl ts t e d = (Inr cases, d')"
  proof -
    from that obtain found where "ingest_event_body E ts t e (sha256_json E (event_dict e)) found d = Inr (cases, d')"
      by (rule ingest_event_commit)
    then show ?thesis
    proof (cases rule: ingest_event_body_cases)
      case (known r)
      from find_row_Some [OF known(1)] have "\<exists>x \<in> set (control_events d). is_event t (ev_event_id e) x" by (intro bexI [of _ r]) simp_all
      with known(2) show ?thesis by simp
    next
      case (new d1 r h)
      have "records t ''EVENT_EVALUATED'' d d'" by (rule records_append [OF new(5)]) (simp_all add: new(4))
      then show ?thesis ..
    qed
  qed
qed

definition known_event :: "json \<Rightarrow> db \<Rightarrow> bool" where
  "known_event body d \<longleftrightarrow> (\<exists>e. control_event_json body = Some (Inr e) \<and> (\<exists>x \<in> set (control_events d). is_event own_tenant (ev_event_id e) x))"

lemma made_records:
  "made E dl ts uid path body d payload d' \<Longrightarrow> length (audit_rows own_tenant d') = length (audit_rows own_tenant d) + 1
     \<or> path = lit ''/controls/events'' \<and> d' = d \<and> known_event (body_or_empty body) d"
  unfolding made_def known_event_def by (fastforce dest: operations_record simp: records_def)

lemma created_by_post:
  "dispatch E R dl ts uid meth raw body d = Some (Inr (201, payload), d') \<Longrightarrow>
     meth = lit ''POST'' \<and> made E dl ts uid (url_path raw) body d payload d'"
  by (auto simp: dispatch_def dispatch_get_def served_def bind_res_Inr split: if_splits option.splits prod.splits dest!: post_made)

text \<open>What is only asked for is answered from the rows of the default tenant.\<close>

definition asking :: "pystr \<Rightarrow> pystr \<Rightarrow> bool" where
  "asking meth path \<longleftrightarrow> meth = lit ''GET'' \<or> meth = lit ''POST'' \<and> path = lit ''/reg/answer''"

definition answered :: "'f served \<Rightarrow> (int \<times> 'f payload) res option" where
  "answered reply = map_option fst reply"

lemma answered_served: "fst p' = fst p \<Longrightarrow> answered (served status f p') = answered (served status f p)"
  by (simp add: answered_def served_def case_prod_beta)

lemma own_reads:
  assumes "rows_of own_tenant d' = rows_of own_tenant d"
  shows "map_option answered (dispatch_get E dl path query d') = map_option answered (dispatch_get E dl path query d)"
    "map_option answered (dispatch_post E R dl ts uid (lit ''/reg/answer'') body d') = map_option answered (dispatch_post E R dl ts uid (lit ''/reg/answer'') body d)"
proof -
  have "fst (audit_report E dl d') = fst (audit_report E dl d)"
    by (simp add: audit_report_def connect_def transaction_def rows_of_reads(1) [OF assms] bind_res_def split: sum.splits)
  note reads = this [THEN answered_served] rows_of_reads(2-6) [OF assms, THEN answered_served]
  show "map_option answered (dispatch_get E dl path query d') = map_option answered (dispatch_get E dl path query d)"
    by (simp add: dispatch_get_def reads) (simp add: answered_def)
  show "map_option answered (dispatch_post E R dl ts uid (lit ''/reg/answer'') body d') = map_option answered (dispatch_post E R dl ts uid (lit ''/reg/answer'') body d)"
    by (simp add: dispatch_post_def with_arg_def answered_def served_def answer_rows [OF assms] split: option.splits sum.splits)
qed

lemma answered_route:
  "map_option answered x' = map_option answered x \<Longrightarrow>
   answered (case x' of Some reply \<Rightarrow> reply | None \<Rightarrow> Some (Inr n, d')) = answered (case x of Some reply \<Rightarrow> reply | None \<Rightarrow> Some (Inr n, d))"
  by (cases x; cases x') (simp_all add: answered_def)

lemma asked_of_own:
  assumes "rows_of own_tenant d' = rows_of own_tenant d" and "asking meth (url_path raw)"
  shows "answered (dispatch E R dl ts uid meth raw body d') = answered (dispatch E R dl ts uid meth raw body d)"
proof -
  have "map_option answered (if meth = lit ''GET'' then dispatch_get E dl (url_path raw) query d'
        else if meth = lit ''POST'' then dispatch_post E R dl ts uid (url_path raw) body d' else None)
      = map_option answered (if meth = lit ''GET'' then dispatch_get E dl (url_path raw) query d
        else if meth = lit ''POST'' then dispatch_post E R dl ts uid (url_path raw) body d else None)" for query
    using own_reads [OF assms(1)] assms(2) by (auto simp: asking_def)
  note routes = answered_route [OF this]
  show ?thesis
  proof (cases "absolute_path raw \<and> parse_qs (url_query raw) \<noteq> None")
    case True
    then obtain query where "parse_qs (url_query raw) = Some query" "absolute_path raw" by blast
    then show ?thesis by (simp only: dispatch_def if_False option.case simp_thms routes)
  qed (auto simp: dispatch_def answered_def)
qed

text \<open>
  C38: The plain server is confined to one tenant and to committed operations.  A request that it answers
  with another status than 201 has changed nothing.  One that it answers with 201 is a \<^verbatim>\<open>POST\<close> whose route made
  its operation of the tenant \<^verbatim>\<open>default\<close> with what it read in the body, and reports its result: the operation
  succeeded, the tenant's audit trail has one event more, unless the request sent a control event that was
  stored before, other tenants' rows are unchanged and the database stays reachable.  What is only asked for, by
  \<^verbatim>\<open>GET\<close> or at \<^verbatim>\<open>/reg/answer\<close>, is answered alike in every database with the same rows of the tenant.  Whenever
  \<^verbatim>\<open>GET /audit/verify\<close> is answered with 200 it reports a valid trail with its number of events.
\<close>

theorem plain_server_confined:
  assumes "handle E R dl ts uid meth raw content_length read d = Some ((status, payload), d')"
    and "reachable E d" and "env_law E"
  shows "reachable E d' \<and> (status \<noteq> 201 \<longrightarrow> d' = d) \<and> (u \<noteq> own_tenant \<longrightarrow> rows_of u d' = rows_of u d)
    \<and> (status = 201 \<longrightarrow> meth = lit ''POST'' \<and> (\<exists>body. request_body E content_length read = Inr body
           \<and> made E dl ts uid (url_path raw) body d payload d'
           \<and> (length (audit_rows own_tenant d') = length (audit_rows own_tenant d) + 1
              \<or> url_path raw = lit ''/controls/events'' \<and> d' = d \<and> known_event (body_or_empty body) d)))
    \<and> (asking meth (url_path raw) \<and> rows_of own_tenant d2 = rows_of own_tenant d \<longrightarrow>
         map_option fst (handle E R dl ts uid meth raw content_length read d2) = Some (status, payload))
    \<and> (meth = lit ''GET'' \<and> url_path raw = lit ''/audit/verify'' \<and> status = 200 \<longrightarrow> payload = Object_payload (JObj
         [(lit ''valid'', JBool True), (lit ''events'', JInt (int (length (audit_rows own_tenant d)))),
          (lit ''broken_hash'', JNull)]))"
  using assms(1)
proof (cases rule: handle_cases)
  case (unread e)
  then show ?thesis using assms(2) by (auto simp: refused_reply_def handle_def split: if_splits)
next
  case (dispatched body r)
  from confined_dispatch [of E d R dl ts uid meth raw body] dispatched
  have change: "d' = d \<or> status = 201 \<and> tenant_step E own_tenant d d'" by (auto simp: confined_def)
  then have "reachable E d'" using assms(2) tenant_steps_reachable [of E own_tenant d d'] by blast
  moreover have "rows_of u d' = rows_of u d" if "u \<noteq> own_tenant" using change that tenant_step_rows_of by blast
  moreover have created: "meth = lit ''POST'' \<and> made E dl ts uid (url_path raw) body d payload d'" if "status = 201"
  proof -
    have "r = Inr (201, payload)" using dispatched(3) that by (auto simp: refused_reply_def split: sum.splits if_splits)
    with dispatched(2) show ?thesis by (intro created_by_post) simp
  qed
  moreover have "length (audit_rows own_tenant d') = length (audit_rows own_tenant d) + 1
      \<or> url_path raw = lit ''/controls/events'' \<and> d' = d \<and> known_event (body_or_empty body) d" if "status = 201"
    using created [OF that] by (intro made_records) blast
  moreover have "payload = Object_payload (JObj [(lit ''valid'', JBool True),
      (lit ''events'', JInt (int (length (audit_rows own_tenant d)))), (lit ''broken_hash'', JNull)])"
    if "meth = lit ''GET''" "url_path raw = lit ''/audit/verify''"
  proof -
    have "verify_audit_chain E own_tenant d = Inr (True, int (length (audit_rows own_tenant d)), None)"
      using verify_audit_chain_ok [OF assms(3)] reachable_ok [OF assms(2,3)] by blast
    then have "audit_report E dl d = (Inr (True, int (length (audit_rows own_tenant d)), None), d)"
      by (simp add: audit_report_def connect_def transaction_def)
    with dispatched that show ?thesis
      by (auto simp: dispatch_def dispatch_get_def served_def opt_json_def split: if_splits option.splits)
  qed
  moreover have "map_option fst (handle E R dl ts uid meth raw content_length read d2) = Some (status, payload)"
    if "rows_of own_tenant d2 = rows_of own_tenant d" "asking meth (url_path raw)"
    using asked_of_own [OF that, of E R dl ts uid body] dispatched(1,2) dispatched(3) [symmetric]
    by (cases r) (auto simp: handle_def answered_def)
  ultimately show ?thesis using change dispatched(1) by blast
qed

text \<open>
  A numeral that \<^verbatim>\<open>Decimal\<close> refuses is no \<^verbatim>\<open>ValueError\<close>: the request is answered as the server's fault.
\<close>

lemma bad_amount_is_internal:
  assumes "transaction_json item = Some (Inl InvalidOperation)"
    and "request_body E content_length read = Inr (JList [item])"
  shows "handle E R dl ts uid (lit ''POST'') (lit ''/tax/transactions'') content_length read d
    = Some ((500, Internal_error InvalidOperation), d)"
proof -
  have t: "absolute_path (lit ''/tax/transactions'')" "parse_qs (url_query (lit ''/tax/transactions'')) = Some []"
    "url_path (lit ''/tax/transactions'') = lit ''/tax/transactions''" by code_simp+
  show ?thesis
    by (simp add: handle_def assms dispatch_def t dispatch_post_def items_of_def body_items_def with_arg_def refused_reply_def)
qed

section \<open>Witnesses\<close>

definition demo_request :: bytes where
  "demo_request = utf8 (lit ''[{~entity_id~:~E1~,~entity_type~:~ORGANIZATION~,~attributes~:{}}]'')"

definition demo_handled :: "((int \<times> int payload) \<times> db) option" where
  "demo_handled = handle demo_env demo_reg Sqlite demo_clock (lit ''u'') (lit ''POST'') (lit ''/graph/entities?x=%41'')
     (Some (lit ''66'')) (\<lambda>_. map (\<lambda>b. if b = 126 then 34 else b) demo_request) empty_db"

lemma demo_created: "case demo_handled of Some ((status, payload), d) \<Rightarrow> status = 201 \<and> length (graph_entities d) = 1 | None \<Rightarrow> False"
  by code_simp

lemma plain_server_confined_witness:
  "\<exists>payload d. demo_handled = Some ((201, payload), d) \<and> length (graph_entities d) = 1 \<and> reachable demo_env d
    \<and> rows_of (lit ''acme'') d = rows_of (lit ''acme'') empty_db"
proof -
  from demo_created obtain payload d where h: "demo_handled = Some ((201, payload), d)" "length (graph_entities d) = 1"
    by (auto split: option.splits)
  with plain_server_confined [OF h(1) [unfolded demo_handled_def] reachable_empty demo_env_law, of "lit ''acme''"]
  show ?thesis by (auto simp: own_tenant_def)
qed

end
