(* ===== verification/Table_Json.thy ===== *)
theory Table_Json
  imports Evidence Event_Stream
begin

text \<open>
  Rows as JSON objects: what \<^verbatim>\<open>dict(row)\<close> and \<^verbatim>\<open>_json_row\<close> make of a row of each table, and what an
  \<^verbatim>\<open>insert\<close> of such an object makes of it.  Reading the normalised object of a row gives the row, for
  every table.
\<close>

section \<open>Columns\<close>

text \<open>
  A value of a column as it is inserted.  A value of another type than the column's, or a missing
  column, raises; the driver decides on the exception, and no object that a backup writes has one.
\<close>

definition column :: "pystr \<Rightarrow> (json \<Rightarrow> 'a res) \<Rightarrow> json \<Rightarrow> 'a res" where
  "column name read v = bind_res (jget name v) read"

definition int_value :: "json \<Rightarrow> int res" where
  "int_value v = (case v of JInt i \<Rightarrow> Inr i | _ \<Rightarrow> Inl TypeError)"

definition opt_text_value :: "json \<Rightarrow> pystr option res" where
  "opt_text_value v = (case v of JNull \<Rightarrow> Inr None | JStr s \<Rightarrow> Inr (Some s) | _ \<Rightarrow> Inl TypeError)"

definition opt_int_value :: "json \<Rightarrow> int option res" where
  "opt_int_value v = (case v of JNull \<Rightarrow> Inr None | JInt i \<Rightarrow> Inr (Some i) | _ \<Rightarrow> Inl TypeError)"

text \<open>A \<^verbatim>\<open>Numeric\<close> column takes the text of a decimal.\<close>

definition decimal_value :: "json \<Rightarrow> decimal res" where
  "decimal_value v = (case v of JStr s \<Rightarrow> dec_parse s | _ \<Rightarrow> Inl TypeError)"

section \<open>Rows\<close>

definition audit_of :: "json \<Rightarrow> audit_event res" where
  "audit_of v =
     bind_res (column (lit ''id'') int_value v) (\<lambda>x0.
     bind_res (column (lit ''tenant_id'') json_text v) (\<lambda>x1.
     bind_res (column (lit ''module'') json_text v) (\<lambda>x2.
     bind_res (column (lit ''event_type'') json_text v) (\<lambda>x3.
     bind_res (column (lit ''entity_id'') json_text v) (\<lambda>x4.
     bind_res (column (lit ''occurred_at'') json_text v) (\<lambda>x5.
     bind_res (column (lit ''payload_json'') json_text v) (\<lambda>x6.
     bind_res (column (lit ''previous_hash'') json_text v) (\<lambda>x7.
     bind_res (column (lit ''event_hash'') json_text v) (\<lambda>x8.
       Inr \<lparr>ae_id = x0, ae_tenant = x1, ae_module = x2, ae_event_type = x3, ae_entity_id = x4,
         ae_occurred_at = x5, ae_payload_json = x6, ae_previous_hash = x7, ae_event_hash = x8\<rparr>)))))))))"

definition transaction_dict :: "tax_transaction_row \<Rightarrow> json" where
  "transaction_dict r = JObj [(lit ''id'', JInt (tx_id r)), (lit ''tenant_id'', JStr (tx_tenant r)),
     (lit ''invoice_id'', JStr (tx_invoice_id r)),
     (lit ''seller_tax_id'', opt_json (tx_seller_tax_id r)),
     (lit ''buyer_tax_id'', opt_json (tx_buyer_tax_id r)),
     (lit ''invoice_date'', JStr (tx_invoice_date r)),
     (lit ''amount'', JStr (dec_str (tx_amount r))),
     (lit ''tax_rate'', JStr (dec_str (tx_tax_rate r))),
     (lit ''tax_amount'', JStr (dec_str (tx_tax_amount r))),
     (lit ''currency'', JStr (tx_currency r)), (lit ''source_hash'', JStr (tx_source_hash r)),
     (lit ''ingested_at'', JStr (tx_ingested_at r))]"

definition transaction_row_of :: "json \<Rightarrow> tax_transaction_row res" where
  "transaction_row_of v =
     bind_res (column (lit ''id'') int_value v) (\<lambda>x0.
     bind_res (column (lit ''tenant_id'') json_text v) (\<lambda>x1.
     bind_res (column (lit ''invoice_id'') json_text v) (\<lambda>x2.
     bind_res (column (lit ''seller_tax_id'') opt_text_value v) (\<lambda>x3.
     bind_res (column (lit ''buyer_tax_id'') opt_text_value v) (\<lambda>x4.
     bind_res (column (lit ''invoice_date'') json_text v) (\<lambda>x5.
     bind_res (column (lit ''amount'') decimal_value v) (\<lambda>x6.
     bind_res (column (lit ''tax_rate'') decimal_value v) (\<lambda>x7.
     bind_res (column (lit ''tax_amount'') decimal_value v) (\<lambda>x8.
     bind_res (column (lit ''currency'') json_text v) (\<lambda>x9.
     bind_res (column (lit ''source_hash'') json_text v) (\<lambda>x10.
     bind_res (column (lit ''ingested_at'') json_text v) (\<lambda>x11.
       Inr \<lparr>tx_id = x0, tx_tenant = x1, tx_invoice_id = x2, tx_seller_tax_id = x3,
         tx_buyer_tax_id = x4, tx_invoice_date = x5, tx_amount = x6, tx_tax_rate = x7,
         tx_tax_amount = x8, tx_currency = x9, tx_source_hash = x10, tx_ingested_at = x11\<rparr>))))))))))))"

definition rule_run_of :: "json \<Rightarrow> tax_rule_run res" where
  "rule_run_of v =
     bind_res (column (lit ''run_id'') json_text v) (\<lambda>x0.
     bind_res (column (lit ''tenant_id'') json_text v) (\<lambda>x1.
     bind_res (column (lit ''rule_version'') json_text v) (\<lambda>x2.
     bind_res (column (lit ''rule_pack_json'') json_text v) (\<lambda>x3.
     bind_res (column (lit ''started_at'') json_text v) (\<lambda>x4.
     bind_res (column (lit ''completed_at'') opt_text_value v) (\<lambda>x5.
     bind_res (column (lit ''transaction_count'') int_value v) (\<lambda>x6.
     bind_res (column (lit ''finding_count'') int_value v) (\<lambda>x7.
       Inr \<lparr>tr_run_id = x0, tr_tenant = x1, tr_rule_version = x2, tr_rule_pack_json = x3,
         tr_started_at = x4, tr_completed_at = x5, tr_transaction_count = x6, tr_finding_count = x7\<rparr>))))))))"

definition finding_of :: "json \<Rightarrow> tax_finding res" where
  "finding_of v =
     bind_res (column (lit ''id'') int_value v) (\<lambda>x0.
     bind_res (column (lit ''tenant_id'') json_text v) (\<lambda>x1.
     bind_res (column (lit ''run_id'') json_text v) (\<lambda>x2.
     bind_res (column (lit ''transaction_id'') opt_int_value v) (\<lambda>x3.
     bind_res (column (lit ''invoice_id'') json_text v) (\<lambda>x4.
     bind_res (column (lit ''rule_code'') json_text v) (\<lambda>x5.
     bind_res (column (lit ''severity'') json_text v) (\<lambda>x6.
     bind_res (column (lit ''explanation'') json_text v) (\<lambda>x7.
     bind_res (column (lit ''evidence_json'') json_text v) (\<lambda>x8.
       Inr \<lparr>tf_id = x0, tf_tenant = x1, tf_run_id = x2, tf_transaction_id = x3, tf_invoice_id = x4,
         tf_rule_code = x5, tf_severity = x6, tf_explanation = x7, tf_evidence_json = x8\<rparr>)))))))))"

definition workflow_of :: "json \<Rightarrow> tax_run_workflow res" where
  "workflow_of v =
     bind_res (column (lit ''run_id'') json_text v) (\<lambda>x0.
     bind_res (column (lit ''tenant_id'') json_text v) (\<lambda>x1.
     bind_res (column (lit ''requested_by'') json_text v) (\<lambda>x2.
     bind_res (column (lit ''status'') json_text v) (\<lambda>x3.
     bind_res (column (lit ''version'') int_value v) (\<lambda>x4.
     bind_res (column (lit ''reviewed_by'') opt_text_value v) (\<lambda>x5.
     bind_res (column (lit ''reviewed_at'') opt_text_value v) (\<lambda>x6.
     bind_res (column (lit ''decision_comment'') opt_text_value v) (\<lambda>x7.
       Inr \<lparr>rw_run_id = x0, rw_tenant = x1, rw_requested_by = x2, rw_status = x3, rw_version = x4,
         rw_reviewed_by = x5, rw_reviewed_at = x6, rw_decision_comment = x7\<rparr>))))))))"

definition document_dict :: "regulation_document \<Rightarrow> json" where
  "document_dict r = JObj [(lit ''id'', JInt (rd_id r)), (lit ''tenant_id'', JStr (rd_tenant r)),
     (lit ''document_key'', JStr (rd_document_key r)), (lit ''title'', JStr (rd_title r)),
     (lit ''source_url'', JStr (rd_source_url r)),
     (lit ''published_at'', JStr (rd_published_at r)),
     (lit ''version_hash'', JStr (rd_version_hash r)), (lit ''content'', JStr (rd_content r))]"

definition document_of :: "json \<Rightarrow> regulation_document res" where
  "document_of v =
     bind_res (column (lit ''id'') int_value v) (\<lambda>x0.
     bind_res (column (lit ''tenant_id'') json_text v) (\<lambda>x1.
     bind_res (column (lit ''document_key'') json_text v) (\<lambda>x2.
     bind_res (column (lit ''title'') json_text v) (\<lambda>x3.
     bind_res (column (lit ''source_url'') json_text v) (\<lambda>x4.
     bind_res (column (lit ''published_at'') json_text v) (\<lambda>x5.
     bind_res (column (lit ''version_hash'') json_text v) (\<lambda>x6.
     bind_res (column (lit ''content'') json_text v) (\<lambda>x7.
       Inr \<lparr>rd_id = x0, rd_tenant = x1, rd_document_key = x2, rd_title = x3, rd_source_url = x4,
         rd_published_at = x5, rd_version_hash = x6, rd_content = x7\<rparr>))))))))"

definition control_event_dict :: "control_event_row \<Rightarrow> json" where
  "control_event_dict r = JObj [(lit ''id'', JInt (ce_id r)), (lit ''tenant_id'', JStr (ce_tenant r)),
     (lit ''event_id'', JStr (ce_event_id r)), (lit ''event_type'', JStr (ce_event_type r)),
     (lit ''actor'', JStr (ce_actor r)), (lit ''resource'', JStr (ce_resource r)),
     (lit ''occurred_at'', JStr (ce_occurred_at r)), (lit ''approved'', JInt (ce_approved r)),
     (lit ''privileged'', JInt (ce_privileged r)), (lit ''outcome'', JStr (ce_outcome r)),
     (lit ''payload_json'', JStr (ce_payload_json r)),
     (lit ''evidence_hash'', JStr (ce_evidence_hash r))]"

definition control_event_row_of :: "json \<Rightarrow> control_event_row res" where
  "control_event_row_of v =
     bind_res (column (lit ''id'') int_value v) (\<lambda>x0.
     bind_res (column (lit ''tenant_id'') json_text v) (\<lambda>x1.
     bind_res (column (lit ''event_id'') json_text v) (\<lambda>x2.
     bind_res (column (lit ''event_type'') json_text v) (\<lambda>x3.
     bind_res (column (lit ''actor'') json_text v) (\<lambda>x4.
     bind_res (column (lit ''resource'') json_text v) (\<lambda>x5.
     bind_res (column (lit ''occurred_at'') json_text v) (\<lambda>x6.
     bind_res (column (lit ''approved'') int_value v) (\<lambda>x7.
     bind_res (column (lit ''privileged'') int_value v) (\<lambda>x8.
     bind_res (column (lit ''outcome'') json_text v) (\<lambda>x9.
     bind_res (column (lit ''payload_json'') json_text v) (\<lambda>x10.
     bind_res (column (lit ''evidence_hash'') json_text v) (\<lambda>x11.
       Inr \<lparr>ce_id = x0, ce_tenant = x1, ce_event_id = x2, ce_event_type = x3, ce_actor = x4,
         ce_resource = x5, ce_occurred_at = x6, ce_approved = x7, ce_privileged = x8,
         ce_outcome = x9, ce_payload_json = x10, ce_evidence_hash = x11\<rparr>))))))))))))"

definition case_dict :: "control_case \<Rightarrow> json" where
  "case_dict r = JObj [(lit ''id'', JInt (cc_id r)), (lit ''tenant_id'', JStr (cc_tenant r)),
     (lit ''event_id'', JStr (cc_event_id r)), (lit ''control_id'', JStr (cc_control_id r)),
     (lit ''severity'', JStr (cc_severity r)), (lit ''explanation'', JStr (cc_explanation r)),
     (lit ''evidence_hash'', JStr (cc_evidence_hash r)), (lit ''status'', JStr (cc_status r)),
     (lit ''version'', JInt (cc_version r))]"

definition case_of :: "json \<Rightarrow> control_case res" where
  "case_of v =
     bind_res (column (lit ''id'') int_value v) (\<lambda>x0.
     bind_res (column (lit ''tenant_id'') json_text v) (\<lambda>x1.
     bind_res (column (lit ''event_id'') json_text v) (\<lambda>x2.
     bind_res (column (lit ''control_id'') json_text v) (\<lambda>x3.
     bind_res (column (lit ''severity'') json_text v) (\<lambda>x4.
     bind_res (column (lit ''explanation'') json_text v) (\<lambda>x5.
     bind_res (column (lit ''evidence_hash'') json_text v) (\<lambda>x6.
     bind_res (column (lit ''status'') json_text v) (\<lambda>x7.
     bind_res (column (lit ''version'') int_value v) (\<lambda>x8.
       Inr \<lparr>cc_id = x0, cc_tenant = x1, cc_event_id = x2, cc_control_id = x3, cc_severity = x4,
         cc_explanation = x5, cc_evidence_hash = x6, cc_status = x7, cc_version = x8\<rparr>)))))))))"

definition transition_dict :: "control_case_transition \<Rightarrow> json" where
  "transition_dict r = JObj [(lit ''id'', JInt (ct_id r)), (lit ''tenant_id'', JStr (ct_tenant r)),
     (lit ''case_id'', JInt (ct_case_id r)), (lit ''from_status'', JStr (ct_from_status r)),
     (lit ''to_status'', JStr (ct_to_status r)), (lit ''actor'', JStr (ct_actor r)),
     (lit ''reason'', JStr (ct_reason r)), (lit ''occurred_at'', JStr (ct_occurred_at r))]"

definition transition_of :: "json \<Rightarrow> control_case_transition res" where
  "transition_of v =
     bind_res (column (lit ''id'') int_value v) (\<lambda>x0.
     bind_res (column (lit ''tenant_id'') json_text v) (\<lambda>x1.
     bind_res (column (lit ''case_id'') int_value v) (\<lambda>x2.
     bind_res (column (lit ''from_status'') json_text v) (\<lambda>x3.
     bind_res (column (lit ''to_status'') json_text v) (\<lambda>x4.
     bind_res (column (lit ''actor'') json_text v) (\<lambda>x5.
     bind_res (column (lit ''reason'') json_text v) (\<lambda>x6.
     bind_res (column (lit ''occurred_at'') json_text v) (\<lambda>x7.
       Inr \<lparr>ct_id = x0, ct_tenant = x1, ct_case_id = x2, ct_from_status = x3, ct_to_status = x4,
         ct_actor = x5, ct_reason = x6, ct_occurred_at = x7\<rparr>))))))))"

definition entity_dict :: "graph_entity \<Rightarrow> json" where
  "entity_dict r = JObj [(lit ''tenant_id'', JStr (ge_tenant r)), (lit ''entity_id'', JStr (ge_entity_id r)),
     (lit ''entity_type'', JStr (ge_entity_type r)),
     (lit ''attributes_json'', JStr (ge_attributes_json r))]"

definition entity_of :: "json \<Rightarrow> graph_entity res" where
  "entity_of v =
     bind_res (column (lit ''tenant_id'') json_text v) (\<lambda>x0.
     bind_res (column (lit ''entity_id'') json_text v) (\<lambda>x1.
     bind_res (column (lit ''entity_type'') json_text v) (\<lambda>x2.
     bind_res (column (lit ''attributes_json'') json_text v) (\<lambda>x3.
       Inr \<lparr>ge_tenant = x0, ge_entity_id = x1, ge_entity_type = x2, ge_attributes_json = x3\<rparr>))))"

definition edge_dict :: "graph_edge \<Rightarrow> json" where
  "edge_dict r = JObj [(lit ''id'', JInt (gx_id r)), (lit ''tenant_id'', JStr (gx_tenant r)),
     (lit ''source_id'', JStr (gx_source_id r)), (lit ''target_id'', JStr (gx_target_id r)),
     (lit ''relation'', JStr (gx_relation r)), (lit ''amount'', JStr (dec_str (gx_amount r))),
     (lit ''occurred_at'', JStr (gx_occurred_at r)),
     (lit ''evidence_json'', JStr (gx_evidence_json r))]"

definition edge_of :: "json \<Rightarrow> graph_edge res" where
  "edge_of v =
     bind_res (column (lit ''id'') int_value v) (\<lambda>x0.
     bind_res (column (lit ''tenant_id'') json_text v) (\<lambda>x1.
     bind_res (column (lit ''source_id'') json_text v) (\<lambda>x2.
     bind_res (column (lit ''target_id'') json_text v) (\<lambda>x3.
     bind_res (column (lit ''relation'') json_text v) (\<lambda>x4.
     bind_res (column (lit ''amount'') decimal_value v) (\<lambda>x5.
     bind_res (column (lit ''occurred_at'') json_text v) (\<lambda>x6.
     bind_res (column (lit ''evidence_json'') json_text v) (\<lambda>x7.
       Inr \<lparr>gx_id = x0, gx_tenant = x1, gx_source_id = x2, gx_target_id = x3, gx_relation = x4,
         gx_amount = x5, gx_occurred_at = x6, gx_evidence_json = x7\<rparr>))))))))"

definition idempotency_dict :: "idempotency_record \<Rightarrow> json" where
  "idempotency_dict r = JObj [(lit ''tenant_id'', JStr (ir_tenant r)), (lit ''operation'', JStr (ir_operation r)),
     (lit ''idempotency_key'', JStr (ir_key r)), (lit ''request_hash'', JStr (ir_request_hash r)),
     (lit ''response_json'', JStr (ir_response_json r)),
     (lit ''status_code'', JInt (ir_status_code r)), (lit ''created_at'', JStr (ir_created_at r))]"

definition idempotency_of :: "json \<Rightarrow> idempotency_record res" where
  "idempotency_of v =
     bind_res (column (lit ''tenant_id'') json_text v) (\<lambda>x0.
     bind_res (column (lit ''operation'') json_text v) (\<lambda>x1.
     bind_res (column (lit ''idempotency_key'') json_text v) (\<lambda>x2.
     bind_res (column (lit ''request_hash'') json_text v) (\<lambda>x3.
     bind_res (column (lit ''response_json'') json_text v) (\<lambda>x4.
     bind_res (column (lit ''status_code'') int_value v) (\<lambda>x5.
     bind_res (column (lit ''created_at'') json_text v) (\<lambda>x6.
       Inr \<lparr>ir_tenant = x0, ir_operation = x1, ir_key = x2, ir_request_hash = x3,
         ir_response_json = x4, ir_status_code = x5, ir_created_at = x6\<rparr>)))))))"

definition outbox_dict :: "outbox_event \<Rightarrow> json" where
  "outbox_dict r = JObj [(lit ''id'', JInt (ox_id r)), (lit ''tenant_id'', JStr (ox_tenant r)),
     (lit ''topic'', JStr (ox_topic r)), (lit ''aggregate_id'', JStr (ox_aggregate_id r)),
     (lit ''payload_json'', JStr (ox_payload_json r)),
     (lit ''created_at'', JStr (ox_created_at r)),
     (lit ''published_at'', opt_json (ox_published_at r)),
     (lit ''attempts'', JInt (ox_attempts r)), (lit ''last_error'', opt_json (ox_last_error r)),
     (lit ''dead_lettered_at'', opt_json (ox_dead_lettered_at r))]"

definition outbox_of :: "json \<Rightarrow> outbox_event res" where
  "outbox_of v =
     bind_res (column (lit ''id'') int_value v) (\<lambda>x0.
     bind_res (column (lit ''tenant_id'') json_text v) (\<lambda>x1.
     bind_res (column (lit ''topic'') json_text v) (\<lambda>x2.
     bind_res (column (lit ''aggregate_id'') json_text v) (\<lambda>x3.
     bind_res (column (lit ''payload_json'') json_text v) (\<lambda>x4.
     bind_res (column (lit ''created_at'') json_text v) (\<lambda>x5.
     bind_res (column (lit ''published_at'') opt_text_value v) (\<lambda>x6.
     bind_res (column (lit ''attempts'') int_value v) (\<lambda>x7.
     bind_res (column (lit ''last_error'') opt_text_value v) (\<lambda>x8.
     bind_res (column (lit ''dead_lettered_at'') opt_text_value v) (\<lambda>x9.
       Inr \<lparr>ox_id = x0, ox_tenant = x1, ox_topic = x2, ox_aggregate_id = x3, ox_payload_json = x4,
         ox_created_at = x5, ox_published_at = x6, ox_attempts = x7, ox_last_error = x8,
         ox_dead_lettered_at = x9\<rparr>))))))))))"

definition dead_letter_dict :: "dead_letter_event \<Rightarrow> json" where
  "dead_letter_dict r = JObj [(lit ''id'', JInt (dl_id r)), (lit ''outbox_id'', JInt (dl_outbox_id r)),
     (lit ''tenant_id'', JStr (dl_tenant r)), (lit ''topic'', JStr (dl_topic r)),
     (lit ''aggregate_id'', JStr (dl_aggregate_id r)),
     (lit ''payload_json'', JStr (dl_payload_json r)),
     (lit ''failure_reason'', JStr (dl_failure_reason r)),
     (lit ''failed_at'', JStr (dl_failed_at r)), (lit ''replayed_at'', opt_json (dl_replayed_at r))]"

definition dead_letter_of :: "json \<Rightarrow> dead_letter_event res" where
  "dead_letter_of v =
     bind_res (column (lit ''id'') int_value v) (\<lambda>x0.
     bind_res (column (lit ''outbox_id'') int_value v) (\<lambda>x1.
     bind_res (column (lit ''tenant_id'') json_text v) (\<lambda>x2.
     bind_res (column (lit ''topic'') json_text v) (\<lambda>x3.
     bind_res (column (lit ''aggregate_id'') json_text v) (\<lambda>x4.
     bind_res (column (lit ''payload_json'') json_text v) (\<lambda>x5.
     bind_res (column (lit ''failure_reason'') json_text v) (\<lambda>x6.
     bind_res (column (lit ''failed_at'') json_text v) (\<lambda>x7.
     bind_res (column (lit ''replayed_at'') opt_text_value v) (\<lambda>x8.
       Inr \<lparr>dl_id = x0, dl_outbox_id = x1, dl_tenant = x2, dl_topic = x3, dl_aggregate_id = x4,
         dl_payload_json = x5, dl_failure_reason = x6, dl_failed_at = x7, dl_replayed_at = x8\<rparr>)))))))))"

definition receipt_dict :: "consumer_receipt \<Rightarrow> json" where
  "receipt_dict r = JObj [(lit ''consumer_name'', JStr (cr_consumer_name r)), (lit ''event_id'', JStr (cr_event_id r)),
     (lit ''tenant_id'', JStr (cr_tenant r)), (lit ''processed_at'', JStr (cr_processed_at r))]"

definition receipt_of :: "json \<Rightarrow> consumer_receipt res" where
  "receipt_of v =
     bind_res (column (lit ''consumer_name'') json_text v) (\<lambda>x0.
     bind_res (column (lit ''event_id'') json_text v) (\<lambda>x1.
     bind_res (column (lit ''tenant_id'') json_text v) (\<lambda>x2.
     bind_res (column (lit ''processed_at'') json_text v) (\<lambda>x3.
       Inr \<lparr>cr_consumer_name = x0, cr_event_id = x1, cr_tenant = x2, cr_processed_at = x3\<rparr>))))"

section \<open>Reading what was written\<close>

lemma column_jnorm:
  "distinct (map fst kvs) \<Longrightarrow> map_of kvs name = Some v \<Longrightarrow> column name read (jnorm (JObj kvs)) = read (jnorm v)"
  by (simp only: column_def jget_jnorm) simp

lemma jnorm_opt_json [simp]: "jnorm (opt_json v) = opt_json v"
  by (simp add: opt_json_def split: option.splits)

lemma jnorm_opt_int [simp]: "jnorm (case v of None \<Rightarrow> JNull | Some i \<Rightarrow> JInt i) = (case v of None \<Rightarrow> JNull | Some i \<Rightarrow> JInt i)"
  by (simp split: option.splits)

lemma value_simps:
  "int_value (JInt i) = Inr i" "opt_text_value (opt_json o1) = Inr o1"
  "opt_int_value (case o2 of None \<Rightarrow> JNull | Some i \<Rightarrow> JInt i) = Inr o2"
  "decimal_value (JStr (dec_str d)) = Inr d"
  by (simp_all add: int_value_def opt_text_value_def opt_int_value_def decimal_value_def dec_parse_str opt_json_def
      split: option.splits)

lemma jnorm_scalars: "jnorm (JInt i) = JInt i" "jnorm (JStr s) = JStr s"
  by simp_all

lemmas column_simps = column_jnorm value_simps jnorm_scalars

lemma wf_options [simp]: "wf_json E (opt_json o1)" "wf_json E (case o2 of None \<Rightarrow> JNull | Some i \<Rightarrow> JInt i)"
  by (simp_all add: opt_json_def split: option.splits)

text \<open>
  What a backup relies on of a table's objects: the row is read back from its normalised object, which
  is a JSON value of distinct names.
\<close>

locale row_codec =
  fixes enc :: "'r \<Rightarrow> json" and dec :: "json \<Rightarrow> 'r res"
  assumes dec_enc: "dec (jnorm (enc r)) = Inr r" and wf_enc: "wf_json E (enc r)"
begin

lemma rows_back: "map_res dec (map jnorm (map enc rows)) = Inr rows"
  by (induction rows) (simp_all add: dec_enc)

lemma wf_rows: "wf_json E (JList (map enc rows))"
  by (simp add: wf_enc)

end

interpretation audits: row_codec audit_dict audit_of
  by unfold_locales (simp_all add: audit_dict_def audit_of_def column_simps del: jnorm.simps)

interpretation transactions: row_codec transaction_dict transaction_row_of
  by unfold_locales (simp_all add: transaction_dict_def transaction_row_of_def column_simps del: jnorm.simps)

interpretation runs: row_codec run_dict rule_run_of
  by unfold_locales (simp_all add: run_dict_def rule_run_of_def column_simps del: jnorm.simps)

interpretation finds: row_codec finding_dict finding_of
  by unfold_locales (simp_all add: finding_dict_def finding_of_def column_simps del: jnorm.simps)

interpretation workflows: row_codec workflow_dict workflow_of
  by unfold_locales (simp_all add: workflow_dict_def workflow_of_def column_simps del: jnorm.simps)

interpretation docs: row_codec document_dict document_of
  by unfold_locales (simp_all add: document_dict_def document_of_def column_simps del: jnorm.simps)

interpretation control_rows: row_codec control_event_dict control_event_row_of
  by unfold_locales (simp_all add: control_event_dict_def control_event_row_of_def column_simps del: jnorm.simps)

interpretation cases: row_codec case_dict case_of
  by unfold_locales (simp_all add: case_dict_def case_of_def column_simps del: jnorm.simps)

interpretation transitions: row_codec transition_dict transition_of
  by unfold_locales (simp_all add: transition_dict_def transition_of_def column_simps del: jnorm.simps)

interpretation nodes: row_codec entity_dict entity_of
  by unfold_locales (simp_all add: entity_dict_def entity_of_def column_simps del: jnorm.simps)

interpretation links: row_codec edge_dict edge_of
  by unfold_locales (simp_all add: edge_dict_def edge_of_def column_simps del: jnorm.simps)

interpretation keys: row_codec idempotency_dict idempotency_of
  by unfold_locales (simp_all add: idempotency_dict_def idempotency_of_def column_simps del: jnorm.simps)

interpretation outboxes: row_codec outbox_dict outbox_of
  by unfold_locales (simp_all add: outbox_dict_def outbox_of_def column_simps del: jnorm.simps)

interpretation letters: row_codec dead_letter_dict dead_letter_of
  by unfold_locales (simp_all add: dead_letter_dict_def dead_letter_of_def column_simps del: jnorm.simps)

interpretation receipts: row_codec receipt_dict receipt_of
  by unfold_locales (simp_all add: receipt_dict_def receipt_of_def column_simps del: jnorm.simps)

end
