(* ===== verification/Backup.thy ===== *)
theory Backup
  imports Table_Json
begin

text \<open>
  \<^verbatim>\<open>backup.py\<close>: encrypted backups of all tables in an object store, and their restoration into another
  database.  AES-GCM is a parameter.  What a backup of a reachable database restores is that
  database, in the order of its primary keys.
\<close>

section \<open>Tables\<close>

text \<open>The rows of each table in the order of its primary key.\<close>

definition by_primary_key :: "db \<Rightarrow> db" where
  "by_primary_key d = \<lparr>audit_events = sort_key ae_id (audit_events d),
     tax_transactions = sort_key tx_id (tax_transactions d),
     tax_rule_runs = sort_key tr_run_id (tax_rule_runs d),
     tax_findings = sort_key tf_id (tax_findings d),
     tax_run_workflows = sort_key rw_run_id (tax_run_workflows d),
     regulation_documents = sort_key rd_id (regulation_documents d),
     control_events = sort_key ce_id (control_events d),
     control_cases = sort_key cc_id (control_cases d),
     control_case_transitions = sort_key ct_id (control_case_transitions d),
     graph_entities = sort_key (\<lambda>r. (ge_tenant r, ge_entity_id r)) (graph_entities d),
     graph_edges = sort_key gx_id (graph_edges d),
     idempotency_records = sort_key (\<lambda>r. (ir_tenant r, ir_operation r, ir_key r)) (idempotency_records d),
     outbox_events = sort_key ox_id (outbox_events d),
     dead_letter_events = sort_key dl_id (dead_letter_events d),
     consumer_receipts = sort_key (\<lambda>r. (cr_consumer_name r, cr_event_id r)) (consumer_receipts d)\<rparr>"

text \<open>The tables as lists of objects, by their names; tables come before those that refer to them.\<close>

definition table_rows :: "db \<Rightarrow> (pystr \<times> json list) list" where
  "table_rows d =
     [(lit ''audit_events'', map audit_dict (audit_events d)),
      (lit ''consumer_receipts'', map receipt_dict (consumer_receipts d)),
      (lit ''control_cases'', map case_dict (control_cases d)),
      (lit ''control_events'', map control_event_dict (control_events d)),
      (lit ''dead_letter_events'', map dead_letter_dict (dead_letter_events d)),
      (lit ''graph_edges'', map edge_dict (graph_edges d)),
      (lit ''graph_entities'', map entity_dict (graph_entities d)),
      (lit ''idempotency_records'', map idempotency_dict (idempotency_records d)),
      (lit ''outbox_events'', map outbox_dict (outbox_events d)),
      (lit ''regulation_documents'', map document_dict (regulation_documents d)),
      (lit ''tax_rule_runs'', map run_dict (tax_rule_runs d)),
      (lit ''tax_transactions'', map transaction_dict (tax_transactions d)),
      (lit ''control_case_transitions'', map transition_dict (control_case_transitions d)),
      (lit ''tax_findings'', map finding_dict (tax_findings d)),
      (lit ''tax_run_workflow'', map workflow_dict (tax_run_workflows d))]"

definition table_counts :: "db \<Rightarrow> (pystr \<times> json) list" where
  "table_counts d = map (\<lambda>(name, rows). (name, JInt (int (length rows)))) (table_rows d)"

text \<open>The primary keys, unique constraints and foreign keys of the schema.\<close>

definition constraints_ok :: "db \<Rightarrow> bool" where
  "constraints_ok d \<longleftrightarrow>
     distinct (map ae_id (audit_events d)) \<and> distinct (map (\<lambda>r. (ae_tenant r, ae_event_hash r)) (audit_events d))
     \<and> distinct (map tx_id (tax_transactions d)) \<and> distinct (map tr_run_id (tax_rule_runs d))
     \<and> distinct (map tf_id (tax_findings d)) \<and> distinct (map rw_run_id (tax_run_workflows d))
     \<and> distinct (map rd_id (regulation_documents d))
     \<and> distinct (map (\<lambda>r. (rd_tenant r, rd_document_key r, rd_version_hash r)) (regulation_documents d))
     \<and> distinct (map ce_id (control_events d)) \<and> distinct (map (\<lambda>r. (ce_tenant r, ce_event_id r)) (control_events d))
     \<and> distinct (map cc_id (control_cases d)) \<and> distinct (map ct_id (control_case_transitions d))
     \<and> distinct (map (\<lambda>r. (ge_tenant r, ge_entity_id r)) (graph_entities d)) \<and> distinct (map gx_id (graph_edges d))
     \<and> distinct (map (\<lambda>r. (ir_tenant r, ir_operation r, ir_key r)) (idempotency_records d))
     \<and> distinct (map ox_id (outbox_events d)) \<and> distinct (map dl_id (dead_letter_events d))
     \<and> distinct (map dl_outbox_id (dead_letter_events d))
     \<and> distinct (map (\<lambda>r. (cr_consumer_name r, cr_event_id r)) (consumer_receipts d))
     \<and> list_all (\<lambda>r. tf_run_id r \<in> set (map tr_run_id (tax_rule_runs d))) (tax_findings d)
     \<and> list_all (\<lambda>r. rw_run_id r \<in> set (map tr_run_id (tax_rule_runs d))) (tax_run_workflows d)
     \<and> list_all (\<lambda>r. ct_case_id r \<in> set (map cc_id (control_cases d))) (control_case_transitions d)"

section \<open>Creating a backup\<close>

text \<open>
  AES-GCM with a key, a nonce, a text and associated data; \<open>py_repr\<close> is the text of a verification
  report in an error message.
\<close>

record backup_lib =
  aes_encrypt :: "bytes \<Rightarrow> bytes \<Rightarrow> bytes \<Rightarrow> bytes \<Rightarrow> bytes"
  aes_decrypt :: "bytes \<Rightarrow> bytes \<Rightarrow> bytes \<Rightarrow> bytes \<Rightarrow> bytes res"
  py_repr :: "json \<Rightarrow> pystr"

record backup_result =
  bk_stored :: stored_object
  bk_tables :: "(pystr \<times> json) list"
  bk_plaintext_sha256 :: pystr

definition backup_format :: pystr where
  "backup_format = lit ''flagship-logical-backup/v1''"

definition backup_algorithm :: pystr where
  "backup_algorithm = lit ''AES-256-GCM''"

definition check_backup_key :: "bytes \<Rightarrow> unit res" where
  "check_backup_key key = raise_if (length key \<noteq> 32) (ValueError (lit ''backup encryption key must be exactly 32 bytes''))"

definition backup_payload :: "pystr \<Rightarrow> pystr \<Rightarrow> db \<Rightarrow> json" where
  "backup_payload created backup_id d = JObj
     [(lit ''format'', JStr backup_format), (lit ''created_at'', JStr created), (lit ''backup_id'', JStr backup_id),
      (lit ''tables'', JObj (map (\<lambda>(name, rows). (name, JList rows)) (table_rows d))),
      (lit ''counts'', JObj (table_counts d))]"

definition backup_envelope :: "pyenv \<Rightarrow> backup_lib \<Rightarrow> bytes \<Rightarrow> bytes \<Rightarrow> bytes \<Rightarrow> json" where
  "backup_envelope E B key nonce plaintext = JObj
     [(lit ''format'', JStr backup_format), (lit ''algorithm'', JStr backup_algorithm),
      (lit ''nonce'', JStr (b64encode nonce)), (lit ''plaintext_sha256'', JStr (sha256_hex E plaintext)),
      (lit ''ciphertext'', JStr (b64encode (aes_encrypt B key nonce plaintext (utf8 backup_format))))]"

definition backup_object_key :: "pystr \<Rightarrow> pystr" where
  "backup_object_key backup_id = lit ''backups/'' @ backup_id @ lit ''.json.enc''"

text \<open>The bytes of the stored object, for the rows of all tables.\<close>

definition backup_object :: "pyenv \<Rightarrow> backup_lib \<Rightarrow> bytes \<Rightarrow> bytes \<Rightarrow> pystr \<Rightarrow> pystr \<Rightarrow> db \<Rightarrow> bytes" where
  "backup_object E B nonce key created backup_id rows = utf8 (canonical_json (backup_envelope E B key nonce
     (utf8 (canonical_json (backup_payload created backup_id rows)))))"

definition backup_create ::
  "pyenv \<Rightarrow> backup_lib \<Rightarrow> dialect \<Rightarrow> clock \<Rightarrow> bytes \<Rightarrow> bytes \<Rightarrow> 's store_put \<Rightarrow> int \<Rightarrow> pystr \<Rightarrow> db \<Rightarrow> 's
     \<Rightarrow> backup_result res \<times> 's" where
  "backup_create E B dl ts nonce key put retention_days backup_id d st =
     (case fst (connect E dl None (query_tx by_primary_key) d) of
        Inl e \<Rightarrow> (Inl e, st)
      | Inr rows \<Rightarrow>
          (let (r, st') = put (backup_object_key backup_id) (backup_object E B nonce key (ts 0) backup_id rows) retention_days st
           in (bind_res r (\<lambda>stored. Inr \<lparr>bk_stored = stored, bk_tables = table_counts rows,
                 bk_plaintext_sha256 = sha256_hex E (utf8 (canonical_json (backup_payload (ts 0) backup_id rows)))\<rparr>), st')))"

section \<open>Restoring a backup\<close>

text \<open>Whatever fails while the ciphertext is decoded and decrypted is reported as a failed authentication.\<close>

definition decrypt_envelope :: "backup_lib \<Rightarrow> bytes \<Rightarrow> json \<Rightarrow> bytes res" where
  "decrypt_envelope B key envelope =
     (case bind_res (jget (lit ''nonce'') envelope) (\<lambda>n. bind_res (json_text n) (\<lambda>n.
           bind_res (jget (lit ''ciphertext'') envelope) (\<lambda>c. bind_res (json_text c) (\<lambda>c.
             case (b64decode n, b64decode c) of
               (Some nonce, Some ct) \<Rightarrow> aes_decrypt B key nonce ct (utf8 backup_format)
             | _ \<Rightarrow> Inl (ValueError (lit ''Incorrect padding'')))))) of
        Inr plaintext \<Rightarrow> Inr plaintext
      | Inl _ \<Rightarrow> Inl (ValueError (lit ''backup authentication failed'')))"

definition open_envelope :: "pyenv \<Rightarrow> backup_lib \<Rightarrow> bytes \<Rightarrow> bytes \<Rightarrow> json res" where
  "open_envelope E B key object =
     bind_res (loads_bytes E object) (\<lambda>envelope.
     bind_res (jget_or (lit ''format'') JNull envelope) (\<lambda>f.
     bind_res (jget_or (lit ''algorithm'') JNull envelope) (\<lambda>a.
     bind_res (raise_if (f \<noteq> JStr backup_format \<or> a \<noteq> JStr backup_algorithm)
        (ValueError (lit ''unsupported backup envelope''))) (\<lambda>_.
     bind_res (decrypt_envelope B key envelope) (\<lambda>plaintext.
     bind_res (jget (lit ''plaintext_sha256'') envelope) (\<lambda>h.
     bind_res (raise_if (JStr (sha256_hex E plaintext) \<noteq> h) (ValueError (lit ''backup plaintext hash mismatch''))) (\<lambda>_.
       loads_bytes E plaintext)))))))"

text \<open>\<^verbatim>\<open>payload["tables"].get(name, [])\<close>, inserted if it is not empty.\<close>

definition table_of :: "(json \<Rightarrow> 'r res) \<Rightarrow> json \<Rightarrow> pystr \<Rightarrow> 'r list res" where
  "table_of read tables name = bind_res (jget_or name (JList []) tables) (\<lambda>rows.
     if \<not> truthy rows then Inr []
     else case rows of JList xs \<Rightarrow> map_res read xs | _ \<Rightarrow> Inl TypeError)"

definition tables_of :: "json \<Rightarrow> db res" where
  "tables_of t =
     bind_res (table_of audit_of t (lit ''audit_events'')) (\<lambda>x0.
     bind_res (table_of receipt_of t (lit ''consumer_receipts'')) (\<lambda>x1.
     bind_res (table_of case_of t (lit ''control_cases'')) (\<lambda>x2.
     bind_res (table_of control_event_row_of t (lit ''control_events'')) (\<lambda>x3.
     bind_res (table_of dead_letter_of t (lit ''dead_letter_events'')) (\<lambda>x4.
     bind_res (table_of edge_of t (lit ''graph_edges'')) (\<lambda>x5.
     bind_res (table_of entity_of t (lit ''graph_entities'')) (\<lambda>x6.
     bind_res (table_of idempotency_of t (lit ''idempotency_records'')) (\<lambda>x7.
     bind_res (table_of outbox_of t (lit ''outbox_events'')) (\<lambda>x8.
     bind_res (table_of document_of t (lit ''regulation_documents'')) (\<lambda>x9.
     bind_res (table_of rule_run_of t (lit ''tax_rule_runs'')) (\<lambda>x10.
     bind_res (table_of transaction_row_of t (lit ''tax_transactions'')) (\<lambda>x11.
     bind_res (table_of transition_of t (lit ''control_case_transitions'')) (\<lambda>x12.
     bind_res (table_of finding_of t (lit ''tax_findings'')) (\<lambda>x13.
     bind_res (table_of workflow_of t (lit ''tax_run_workflow'')) (\<lambda>x14.
       Inr \<lparr>audit_events = x0, tax_transactions = x11, tax_rule_runs = x10, tax_findings = x13,
         tax_run_workflows = x14, regulation_documents = x9, control_events = x3, control_cases = x2,
         control_case_transitions = x12, graph_entities = x6, graph_edges = x5, idempotency_records = x7,
         outbox_events = x8, dead_letter_events = x4, consumer_receipts = x1\<rparr>)))))))))))))))"

text \<open>
  The transaction that replaces every table.  The tables are read before the constraints are checked,
  where the database checks each insertion; either way nothing is changed when one fails.
\<close>

definition replace_tables :: "json \<Rightarrow> (unit, db) tx" where
  "replace_tables payload d =
     bind_res (jget (lit ''tables'') payload) (\<lambda>t.
     bind_res (tables_of t) (\<lambda>d'.
     bind_res (raise_if (\<not> constraints_ok d') (IntegrityError (lit ''restored rows''))) (\<lambda>_.
       Inr ((), d'))))"

text \<open>\<^verbatim>\<open>counts == expected_counts\<close> for a dictionary of counts.\<close>

definition counts_equal :: "(pystr \<times> json) list \<Rightarrow> json \<Rightarrow> bool" where
  "counts_equal counts expected = (case expected of
     JObj kvs \<Rightarrow> set (map fst kvs) = set (map fst counts)
       \<and> list_all (\<lambda>(name, n). case map_of kvs name of None \<Rightarrow> False | Some v \<Rightarrow> hashable v \<and> scalar_eq n v) counts
   | _ \<Rightarrow> False)"

definition chain_report :: "bool \<times> int \<times> pystr option \<Rightarrow> json" where
  "chain_report r = (case r of (valid, events, broken) \<Rightarrow> JObj
     [(lit ''valid'', JBool valid), (lit ''events'', JInt events), (lit ''broken_hash'', opt_json broken)])"

definition verify_restored :: "pyenv \<Rightarrow> json \<Rightarrow> db \<Rightarrow> (bool \<times> json) res" where
  "verify_restored E expected d =
     (let tenants = remdups (map ae_tenant (audit_events d))
      in bind_res (map_res (\<lambda>t. verify_audit_chain E t d) tenants) (\<lambda>chains.
           let valid = (counts_equal (table_counts d) expected \<and> list_all fst chains)
           in Inr (valid, JObj [(lit ''valid'', JBool valid), (lit ''counts'', JObj (table_counts d)),
                (lit ''audit_chains'', JObj (zip tenants (map chain_report chains)))])))"

text \<open>The payload of a stored backup, as a restoration opens it.\<close>

definition stored_payload :: "pyenv \<Rightarrow> backup_lib \<Rightarrow> bytes \<Rightarrow> 's store_get \<Rightarrow> 's \<Rightarrow> stored_object \<Rightarrow> json res" where
  "stored_payload E B key get st stored =
     bind_res (get st (so_key stored) (Some (so_version_id stored))) (open_envelope E B key)"

text \<open>\<^verbatim>\<open>restore\<close>: the tables are committed before they are verified.\<close>

definition backup_restore ::
  "pyenv \<Rightarrow> backup_lib \<Rightarrow> dialect \<Rightarrow> bytes \<Rightarrow> 's store_get \<Rightarrow> 's \<Rightarrow> stored_object \<Rightarrow> db \<Rightarrow> json res \<times> db" where
  "backup_restore E B dl key get st stored d =
     (case stored_payload E B key get st stored of
        Inl e \<Rightarrow> (Inl e, d)
      | Inr payload \<Rightarrow>
          (case connect E dl None (replace_tables payload) d of
             (Inl e, d') \<Rightarrow> (Inl e, d')
           | (Inr _, d') \<Rightarrow>
               (bind_res (jget (lit ''counts'') payload) (\<lambda>expected.
                bind_res (fst (connect E dl None (\<lambda>d. bind_res (verify_restored E expected d) (\<lambda>r. Inr (r, d))) d'))
                  (\<lambda>(valid, report).
                  if valid then Inr report
                  else Inl (ValueError (lit ''restored database verification failed: '' @ py_repr B report)))), d')))"

section \<open>What is restored\<close>

text \<open>What AES-GCM documents: a ciphertext is decrypted under the key, nonce and data it was made with.\<close>

definition aes_law :: "backup_lib \<Rightarrow> bool" where
  "aes_law B \<longleftrightarrow> (\<forall>key nonce m aad. length key = 32 \<longrightarrow> length nonce = 12 \<longrightarrow> list_all is_byte m \<longrightarrow>
     list_all is_byte (aes_encrypt B key nonce m aad)
     \<and> aes_decrypt B key nonce (aes_encrypt B key nonce m aad) aad = Inr m)"

lemma loads_utf8_canonical:
  assumes "wf_json E j" "json_texts plain_text j" "\<exists>kvs. j = JObj kvs"
  shows "loads_bytes E (utf8 (canonical_json j)) = Inr (jnorm j)"
proof -
  obtain s where s: "canonical_json j = 123 # s" "s = [] \<or> hd s \<noteq> 0"
    using assms(3) object_start(1) by (metis canonical_json_def jnorm.simps(2))
  have "plain_text (123 # s)" "loads E (123 # s) = Inr (jnorm j)"
    using plain_canonical [OF assms(1,2)] loads_canonical [OF assms(1)] by (simp_all only: s(1))
  then show ?thesis using s(2) by (simp only: loads_bytes_def s(1) json_bytes_text_utf8 option.case)
qed

lemma backup_objects:
  "\<exists>kvs. backup_payload created backup_id d = JObj kvs" "\<exists>kvs. backup_envelope E B key nonce m = JObj kvs"
  by (simp_all add: backup_payload_def backup_envelope_def)

lemma wf_payload: "wf_json E (backup_payload created backup_id d)"
  by (simp add: backup_payload_def table_rows_def table_counts_def audits.wf_enc transactions.wf_enc
      runs.wf_enc finds.wf_enc workflows.wf_enc docs.wf_enc control_rows.wf_enc cases.wf_enc transitions.wf_enc
      nodes.wf_enc links.wf_enc keys.wf_enc outboxes.wf_enc letters.wf_enc receipts.wf_enc)

lemma jget_field:
  "distinct (map fst kvs) \<Longrightarrow> map_of kvs k = Some v \<Longrightarrow> jget k (jnorm (JObj kvs)) = Inr (jnorm v)"
  by (simp only: jget_jnorm) (simp add: jget_def)

lemma jget_or_field:
  "distinct (map fst kvs) \<Longrightarrow> map_of kvs k = Some v \<Longrightarrow> jget_or k dflt (jnorm (JObj kvs)) = Inr (jnorm v)"
  by (simp only: jget_or_jnorm) simp

lemma connect_unscoped:
  "connect E dl None m d = (case m d of Inl e \<Rightarrow> (Inl e, d) | Inr (x, d') \<Rightarrow> (Inr x, d'))"
  by (simp add: connect_def transaction_def)

text \<open>The fields of a payload that a restoration reads.\<close>

lemma payload_fields:
  "jget (lit ''tables'') (jnorm (backup_payload created backup_id d)) =
     Inr (jnorm (JObj (map (\<lambda>(name, rows). (name, JList rows)) (table_rows d))))"
  "jget (lit ''counts'') (jnorm (backup_payload created backup_id d)) = Inr (jnorm (JObj (table_counts d)))"
  unfolding backup_payload_def by (simp_all add: jget_field del: jnorm.simps)

lemma table_names: "distinct (map fst (table_rows d))"
  by (simp add: table_rows_def)

lemma table_back:
  assumes "map_of (table_rows d) name = Some (map enc rows)" "row_codec enc dec"
  shows "table_of dec (jnorm (JObj (map (\<lambda>(name, rows). (name, JList rows)) (table_rows d)))) name = Inr rows"
proof -
  have m: "map_of (map (\<lambda>(name, rows). (name, JList rows)) ts) name = map_option JList (map_of ts name)" for ts :: "(pystr \<times> json list) list"
    by (induction ts) auto
  have d: "distinct (map fst (map (\<lambda>(name, rows). (name, JList rows)) (table_rows d)))"
    using table_names [of d] by (simp add: o_def case_prod_unfold)
  have "map_res dec (map jnorm (map enc rows)) = Inr rows" by (rule row_codec.rows_back [OF assms(2)])
  then show ?thesis
    unfolding table_of_def jget_or_jnorm [OF d] m assms(1) by (cases rows) simp_all
qed

lemma tables_back: "tables_of (jnorm (JObj (map (\<lambda>(name, rows). (name, JList rows)) (table_rows d)))) = Inr d"
proof -
  note codecs = audits.row_codec_axioms transactions.row_codec_axioms runs.row_codec_axioms finds.row_codec_axioms
    workflows.row_codec_axioms docs.row_codec_axioms control_rows.row_codec_axioms cases.row_codec_axioms
    transitions.row_codec_axioms nodes.row_codec_axioms links.row_codec_axioms keys.row_codec_axioms
    outboxes.row_codec_axioms letters.row_codec_axioms receipts.row_codec_axioms
  have t: "map_of (table_rows d) (lit ''audit_events'') = Some (map audit_dict (audit_events d))"
    "map_of (table_rows d) (lit ''consumer_receipts'') = Some (map receipt_dict (consumer_receipts d))"
    "map_of (table_rows d) (lit ''control_cases'') = Some (map case_dict (control_cases d))"
    "map_of (table_rows d) (lit ''control_events'') = Some (map control_event_dict (control_events d))"
    "map_of (table_rows d) (lit ''dead_letter_events'') = Some (map dead_letter_dict (dead_letter_events d))"
    "map_of (table_rows d) (lit ''graph_edges'') = Some (map edge_dict (graph_edges d))"
    "map_of (table_rows d) (lit ''graph_entities'') = Some (map entity_dict (graph_entities d))"
    "map_of (table_rows d) (lit ''idempotency_records'') = Some (map idempotency_dict (idempotency_records d))"
    "map_of (table_rows d) (lit ''outbox_events'') = Some (map outbox_dict (outbox_events d))"
    "map_of (table_rows d) (lit ''regulation_documents'') = Some (map document_dict (regulation_documents d))"
    "map_of (table_rows d) (lit ''tax_rule_runs'') = Some (map run_dict (tax_rule_runs d))"
    "map_of (table_rows d) (lit ''tax_transactions'') = Some (map transaction_dict (tax_transactions d))"
    "map_of (table_rows d) (lit ''control_case_transitions'') = Some (map transition_dict (control_case_transitions d))"
    "map_of (table_rows d) (lit ''tax_findings'') = Some (map finding_dict (tax_findings d))"
    "map_of (table_rows d) (lit ''tax_run_workflow'') = Some (map workflow_dict (tax_run_workflows d))"
    by (simp_all add: table_rows_def)
  show ?thesis
    by (simp add: tables_of_def t [THEN table_back] codecs del: jnorm.simps)
qed

lemma replace_payload:
  "constraints_ok d \<Longrightarrow> replace_tables (jnorm (backup_payload created backup_id d)) d' = Inr ((), d)"
  by (simp add: replace_tables_def payload_fields tables_back del: jnorm.simps jget_def)

section \<open>Sorted tables\<close>

lemma distinct_sorted_map [simp]: "distinct (map f (sort_key g xs)) \<longleftrightarrow> distinct (map f xs)"
  by (metis distinct_map distinct_sort set_sort)

lemma list_all_sorted [simp]: "list_all P (sort_key g xs) \<longleftrightarrow> list_all P xs"
  by (simp add: list_all_iff)

lemma constraints_sorted: "constraints_ok (by_primary_key d) \<longleftrightarrow> constraints_ok d"
  by (simp add: constraints_ok_def by_primary_key_def)

lemma audit_rows_sorted: "audit_rows t (by_primary_key d) = audit_rows t d"
  by (simp add: audit_rows_def select_rows_def by_primary_key_def filter_sort sort_key_id_if_sorted)

lemma audit_ok_sorted: "audit_ok E (by_primary_key d) \<longleftrightarrow> audit_ok E d"
  by (simp add: audit_ok_def audit_rows_sorted)

lemma counts_equal_jnorm:
  assumes "distinct (map fst kvs)" "\<forall>kv \<in> set kvs. \<exists>i. snd kv = JInt i"
  shows "counts_equal kvs (jnorm (JObj kvs))"
proof -
  have "map_of (sort_key fst (map (\<lambda>(k, v). (k, jnorm v)) kvs)) k = Some v \<and> hashable v \<and> scalar_eq v v"
    if kv: "(k, v) \<in> set kvs" for k v
  proof -
    obtain i where "v = JInt i" using bspec [OF assms(2) kv] by auto
    with kv assms(1) map_of_sorted_items [OF assms(1), of k] show ?thesis
      by (simp add: scalar_eq_def number_of_def dec_le_def)
  qed
  moreover have "fst ` set (sort_key fst (map (\<lambda>(k, v). (k, jnorm v)) kvs)) = fst ` set kvs"
    by force
  ultimately show ?thesis by (auto simp: counts_equal_def list_all_iff)
qed

lemma counts_equal_back: "counts_equal (table_counts d) (jnorm (JObj (table_counts d)))"
  using table_names [of d] by (intro counts_equal_jnorm) (auto simp: table_counts_def o_def case_prod_unfold)

lemma verify_restored_valid:
  assumes "env_law E" "audit_ok E d"
  obtains chains where "verify_restored E (jnorm (JObj (table_counts d))) d =
    Inr (True, JObj [(lit ''valid'', JBool True), (lit ''counts'', JObj (table_counts d)), (lit ''audit_chains'', chains)])"
proof -
  have "map_res (\<lambda>t. verify_audit_chain E t d) ts = Inr (map (\<lambda>t. (True, int (length (audit_rows t d)), None)) ts)" for ts
    by (induction ts) (simp_all add: verify_audit_chain_ok [OF assms])
  with that show thesis
    by (simp add: verify_restored_def Let_def counts_equal_back list_all_iff del: jnorm.simps)
qed

lemma map_res_all:
  "map_res f xs = Inr ys \<Longrightarrow> list_all P ys \<Longrightarrow> x \<in> set xs \<Longrightarrow> \<exists>y. f x = Inr y \<and> P y"
  by (induction xs arbitrary: ys) (auto simp: bind_res_Inr)

lemma verified_chains:
  assumes "verify_restored E expected d = Inr (True, report)"
  shows "counts_equal (table_counts d) expected"
    and "t \<in> ae_tenant ` set (audit_events d) \<Longrightarrow> \<exists>n h. verify_audit_chain E t d = Inr (True, n, h)"
proof -
  from assms obtain chains where c: "map_res (\<lambda>t. verify_audit_chain E t d) (remdups (map ae_tenant (audit_events d))) = Inr chains"
    "counts_equal (table_counts d) expected" "list_all fst chains"
    by (auto simp: verify_restored_def Let_def bind_res_Inr)
  show "counts_equal (table_counts d) expected" by (rule c(2))
  show "\<exists>n h. verify_audit_chain E t d = Inr (True, n, h)" if "t \<in> ae_tenant ` set (audit_events d)"
    using map_res_all [OF c(1,3), of t] that by auto
qed

section \<open>Opening what was sealed\<close>

lemma utf8_bytes: "plain_text s \<Longrightarrow> list_all is_byte (utf8 s)"
  by (induction s) (auto simp: plain_text_def utf8_char_def is_byte_def)

lemma envelope_ok:
  assumes "aes_law B" "env_law E" "length key = 32" "length nonce = 12" "list_all is_byte nonce" "list_all is_byte m"
  shows "wf_json E (backup_envelope E B key nonce m)" "json_texts plain_text (backup_envelope E B key nonce m)"
  using assms by (simp_all add: backup_envelope_def backup_format_def backup_algorithm_def aes_law_def b64_plain plain_sha)

lemma open_sealed:
  assumes "aes_law B" "env_law E" "length key = 32" "length nonce = 12" "list_all is_byte nonce"
    and "json_texts plain_text (backup_payload created backup_id d)"
  shows "open_envelope E B key (backup_object E B nonce key created backup_id d) = Inr (jnorm (backup_payload created backup_id d))"
proof -
  let ?m = "utf8 (canonical_json (backup_payload created backup_id d))"
  let ?e = "jnorm (backup_envelope E B key nonce ?m)"
  have f: "jget_or (lit ''format'') JNull ?e = Inr (JStr backup_format)"
    "jget_or (lit ''algorithm'') JNull ?e = Inr (JStr backup_algorithm)"
    "jget (lit ''nonce'') ?e = Inr (JStr (b64encode nonce))"
    "jget (lit ''ciphertext'') ?e = Inr (JStr (b64encode (aes_encrypt B key nonce ?m (utf8 backup_format))))"
    "jget (lit ''plaintext_sha256'') ?e = Inr (JStr (sha256_hex E ?m))"
    unfolding backup_envelope_def
    by (simp_all add: jget_field jget_or_field jnorm_scalars del: jnorm.simps b64encode.simps)
  have m: "list_all is_byte ?m" using plain_canonical [OF wf_payload assms(6)] by (rule utf8_bytes)
  have a: "list_all is_byte (aes_encrypt B key nonce ?m (utf8 backup_format))"
    "aes_decrypt B key nonce (aes_encrypt B key nonce ?m (utf8 backup_format)) (utf8 backup_format) = Inr ?m"
    using assms(1,3,4) m by (simp_all add: aes_law_def)
  have "decrypt_envelope B key ?e = Inr ?m"
    by (simp add: decrypt_envelope_def f b64_roundtrip [OF assms(5)] b64_roundtrip [OF a(1)] a(2) del: b64encode.simps)
  then show ?thesis
    using loads_utf8_canonical [OF envelope_ok [OF assms(1-5) m] backup_objects(2)] loads_utf8_canonical [OF wf_payload assms(6) backup_objects(1)]
    by (simp add: open_envelope_def backup_object_def f)
qed

lemma restore_sealed:
  assumes "aes_law B" "env_law E" "length key = 32" "length nonce = 12" "list_all is_byte nonce"
    and "json_texts plain_text (backup_payload created backup_id d)" and "constraints_ok d" "audit_ok E d"
    and "get st (so_key stored) (Some (so_version_id stored)) = Inr (backup_object E B nonce key created backup_id d)"
  obtains report where "backup_restore E B dl key get st stored dest = (Inr report, d)" "jget (lit ''valid'') report = Inr (JBool True)"
proof -
  from open_sealed [OF assms(1-6)] assms(9)
  have p: "stored_payload E B key get st stored = Inr (jnorm (backup_payload created backup_id d))"
    by (simp add: stored_payload_def)
  obtain chains where "verify_restored E (jnorm (JObj (table_counts d))) d =
      Inr (True, JObj [(lit ''valid'', JBool True), (lit ''counts'', JObj (table_counts d)), (lit ''audit_chains'', chains)])"
    by (rule verify_restored_valid [OF assms(2,8)])
  with p assms(7) that [of "JObj [(lit ''valid'', JBool True), (lit ''counts'', JObj (table_counts d)), (lit ''audit_chains'', chains)]"]
  show thesis by (simp add: backup_restore_def connect_unscoped replace_payload payload_fields)
qed

lemma create_puts:
  assumes "backup_create E B dl ts nonce key put n backup_id d st = (Inr result, st')"
  shows "put (backup_object_key backup_id) (backup_object E B nonce key (ts 0) backup_id (by_primary_key d)) n st
    = (Inr (bk_stored result), st')"
proof -
  have "fst (connect E dl None (query_tx by_primary_key) d) = Inr (by_primary_key d)"
    by (simp add: connect_unscoped query_tx_def)
  with assms show ?thesis by (auto simp: backup_create_def bind_res_Inr split: prod.splits)
qed

text \<open>
  C25: A backup restores the database.  What a backup of a database with intact audit trails stored is
  restored, after any further puts, into any other database: the destination then holds the rows of
  the source in the order of their primary keys, whatever it held, and the report says that it is
  valid; or the store held other bytes with the same digest where the backup was to be stored.
\<close>

theorem backup_restores:
  assumes "written E deadline fs" and "aes_law B"
    and "length key = 32" and "length nonce = 12" and "list_all is_byte nonce"
    and "constraints_ok d" and "audit_ok E d" and "plain_text backup_id"
    and "json_texts plain_text (backup_payload (ts 0) backup_id (by_primary_key d))"
    and "backup_create E B dl ts nonce key (put_immutable E deadline) n backup_id d fs = (Inr result, fs1)"
    and "store_later E fs1 fs2"
  shows "(\<exists>report. backup_restore E B dl' key (get_object E) fs2 (bk_stored result) dest = (Inr report, by_primary_key d)
      \<and> jget (lit ''valid'') report = Inr (JBool True))
    \<or> sha_collision E fs (bk_stored result) (backup_object E B nonce key (ts 0) backup_id (by_primary_key d))"
proof -
  have e: "env_law E" using assms(1) by (simp add: written_def)
  have k: "plain_text (backup_object_key backup_id)" using assms(8) by (simp add: backup_object_key_def)
  have d: "constraints_ok (by_primary_key d)" "audit_ok E (by_primary_key d)"
    using assms(6,7) by (simp_all add: constraints_sorted audit_ok_sorted)
  from local_store.get_put [OF assms(1) k create_puts [OF assms(10)] assms(11)] show ?thesis
    using restore_sealed [OF assms(2) e assms(3-5,9) d, of "get_object E" fs2 "bk_stored result"] by metis
qed

text \<open>
  C26: What a restoration leaves behind.  One that answers has replaced every table: the destination
  meets the schema's constraints, has the counts that the payload records, and every tenant's audit
  trail verifies.  One that raises has left the destination as it was, or with the tables of the payload,
  which are committed before they are verified.
\<close>

theorem restore_outcomes:
  assumes "backup_restore E B dl key get st stored d = (r, d')"
  shows "case r of
      Inr report \<Rightarrow> constraints_ok d' \<and> (\<exists>payload expected. stored_payload E B key get st stored = Inr payload
        \<and> jget (lit ''counts'') payload = Inr expected \<and> counts_equal (table_counts d') expected
        \<and> (\<forall>t \<in> ae_tenant ` set (audit_events d'). \<exists>n h. verify_audit_chain E t d' = Inr (True, n, h)))
    | Inl e \<Rightarrow> d' = d \<or> (\<exists>payload. stored_payload E B key get st stored = Inr payload
        \<and> replace_tables payload d = Inr ((), d'))"
proof (cases "stored_payload E B key get st stored")
  case (Inl e)
  then have "r = Inl e" "d' = d" using assms by (simp_all add: backup_restore_def)
  then show ?thesis by simp
next
  case p: (Inr payload)
  show ?thesis
  proof (cases "replace_tables payload d")
    case (Inl e)
    with p have "r = Inl e" "d' = d" using assms by (simp_all add: backup_restore_def connect_unscoped)
    then show ?thesis by simp
  next
    case (Inr x)
    then have x: "replace_tables payload d = Inr ((), snd x)" by (cases x) simp
    then have c: "constraints_ok (snd x)"
      by (auto simp: replace_tables_def bind_res_Inr raise_if_def split: if_splits)
    have s: "backup_restore E B dl key get st stored d = (bind_res (jget (lit ''counts'') payload) (\<lambda>expected.
        bind_res (verify_restored E expected (snd x)) (\<lambda>(valid, report).
          if valid then Inr report
          else Inl (ValueError (lit ''restored database verification failed: '' @ py_repr B report)))), snd x)"
      using p x by (simp add: backup_restore_def connect_unscoped bind_res_def split: sum.splits)
    show ?thesis
    proof (cases r)
      case (Inr report)
      let ?check = "\<lambda>expected. bind_res (verify_restored E expected (snd x)) (\<lambda>(valid, report).
          if valid then Inr report
          else Inl (ValueError (lit ''restored database verification failed: '' @ py_repr B report)))"
      have "bind_res (jget (lit ''counts'') payload) ?check = Inr report" "d' = snd x"
        using s assms Inr by simp_all
      then obtain expected where "jget (lit ''counts'') payload = Inr expected"
        "verify_restored E expected (snd x) = Inr (True, report)" "d' = snd x"
        by (auto simp: bind_res_Inr split: if_splits)
      with Inr p c verified_chains show ?thesis by auto
    next
      case (Inl e)
      moreover have "d' = snd x" using s assms by simp
      ultimately show ?thesis using p x by simp
    qed
  qed
qed

section \<open>Witnesses\<close>

text \<open>A cipher that appends a tag of the key's length, and a database with one audited event.\<close>

definition demo_backup_lib :: backup_lib where
  "demo_backup_lib = \<lparr>aes_encrypt = (\<lambda>key nonce m aad. int (length key) # m),
     aes_decrypt = (\<lambda>key nonce c aad. case c of [] \<Rightarrow> Inl (ValueError []) | t # m \<Rightarrow>
       bind_res (raise_if (t \<noteq> int (length key)) (ValueError [])) (\<lambda>_. Inr m)),
     py_repr = dump\<rparr>"

lemma demo_aes_law [simp]: "aes_law demo_backup_lib"
  by (simp add: aes_law_def demo_backup_lib_def is_byte_def)

definition demo_backup_db :: db where
  "demo_backup_db = demo_append (lit ''r1'') (JObj [(lit ''n'', JInt 1)]) demo_run_db"

lemma demo_backup_db_eq: "\<exists>h. append_audit_event demo_env demo_clock (lit ''tax'') (lit ''ingest'') (lit ''r1'')
    (JObj [(lit ''n'', JInt 1)]) (lit ''acme'') demo_run_db = Inr (h, demo_backup_db)"
  by (simp add: demo_backup_db_def demo_append_def append_audit_event_def Let_def bind_tx_def insert_audit_event_def
      demo_run_db_def empty_db_def append_outbox_event_def)

lemma demo_backup_db_ok: "constraints_ok demo_backup_db" "audit_ok demo_env demo_backup_db"
proof -
  show "constraints_ok demo_backup_db" by code_simp
  have "audit_ok demo_env demo_run_db"
    by (simp add: audit_ok_def audit_rows_def demo_run_db_def empty_db_def select_rows_def)
  with demo_backup_db_eq show "audit_ok demo_env demo_backup_db"
    using append_audit_event_ok [OF _ demo_env_law] by fastforce
qed

lemma demo_backup_plain:
  "json_texts plain_text (backup_payload (demo_clock 0) (lit ''nightly'') (by_primary_key demo_backup_db))"
proof -
  have "json_texts (list_all scalar_value) (backup_payload (demo_clock 0) (lit ''nightly'') (by_primary_key demo_backup_db))"
    by code_simp
  then show ?thesis by (simp add: plain_text_list_all [abs_def])
qed

lemma demo_create:
  "\<exists>result fs. backup_create demo_env demo_backup_lib Sqlite demo_clock (replicate 12 7) (replicate 32 1)
      (put_immutable demo_env demo_deadline) 30 (lit ''nightly'') demo_backup_db [] = (Inr result, fs)"
proof -
  have k: "safe_key (backup_object_key (lit ''nightly'')) = Inr (backup_object_key (lit ''nightly''))" by code_simp
  show ?thesis
    by (simp add: backup_create_def connect_unscoped query_tx_def put_immutable_def k Let_def blocked_def is_dir_def)
qed

lemma backup_restores_witness:
  "\<exists>result fs report. backup_create demo_env demo_backup_lib Sqlite demo_clock (replicate 12 7) (replicate 32 1)
      (put_immutable demo_env demo_deadline) 30 (lit ''nightly'') demo_backup_db [] = (Inr result, fs)
    \<and> backup_restore demo_env demo_backup_lib Sqlite (replicate 32 1) (get_object demo_env) fs (bk_stored result) empty_db
      = (Inr report, by_primary_key demo_backup_db)"
proof -
  obtain result fs where c: "backup_create demo_env demo_backup_lib Sqlite demo_clock (replicate 12 7) (replicate 32 1)
      (put_immutable demo_env demo_deadline) 30 (lit ''nightly'') demo_backup_db [] = (Inr result, fs)"
    using demo_create by blast
  have w: "written demo_env demo_deadline []" by (simp add: written_def demo_deadline_plain)
  have "store_later demo_env fs fs" by (simp add: store_later_def)
  from backup_restores [OF w demo_aes_law _ _ _ demo_backup_db_ok plain_lit demo_backup_plain c this, of Sqlite empty_db] c
  show ?thesis by (auto simp: sha_collision_def is_byte_def list_all_iff)
qed

text \<open>A store that gives the backup's bytes, restored under its key.\<close>

lemma restore_outcomes_witness:
  "\<exists>report. constraints_ok (by_primary_key demo_backup_db)
    \<and> backup_restore demo_env demo_backup_lib Sqlite (replicate 32 1)
      (\<lambda>st _ _. Inr st) (backup_object demo_env demo_backup_lib (replicate 12 7) (replicate 32 1) (demo_clock 0) (lit ''nightly'')
        (by_primary_key demo_backup_db)) (demo_stored []) empty_db = (Inr report, by_primary_key demo_backup_db)"
proof -
  have d: "constraints_ok (by_primary_key demo_backup_db)" "audit_ok demo_env (by_primary_key demo_backup_db)"
    by (simp_all add: constraints_sorted audit_ok_sorted demo_backup_db_ok)
  have l: "length (replicate 32 1 :: int list) = 32" "length (replicate 12 7 :: int list) = 12" "list_all is_byte (replicate 12 7)"
    by (simp_all add: is_byte_def list_all_iff)
  obtain report where r: "backup_restore demo_env demo_backup_lib Sqlite (replicate 32 1)
      (\<lambda>st _ _. Inr st) (backup_object demo_env demo_backup_lib (replicate 12 7) (replicate 32 1) (demo_clock 0) (lit ''nightly'')
        (by_primary_key demo_backup_db)) (demo_stored []) empty_db = (Inr report, by_primary_key demo_backup_db)"
    by (rule restore_sealed [OF demo_aes_law demo_env_law l demo_backup_plain d, where get = "\<lambda>st _ _. Inr st"]) simp_all
  from restore_outcomes [OF r] r show ?thesis by auto
qed

end
