(* ===== verification/Admission.thy ===== *)
theory Admission
  imports Evidence
begin

text \<open>
  \<^verbatim>\<open>admission.py\<close>: the verification of the evidence that a release was admitted with.  The file system
  (resolving paths, which follows symbolic links, and reading files), \<^verbatim>\<open>urlparse\<close>, \<^verbatim>\<open>fromisoformat\<close>, the
  case conversions and the text of other values are parameters.  What is shown is what an admitted release guarantees.
\<close>

section \<open>Paths and parameters\<close>

text \<open>A path: whether it is absolute, and its components.\<close>

type_synonym pypath = "bool \<times> pystr list"

definition path_of :: "pystr \<Rightarrow> pypath" where
  "path_of s = (py_startswith s [47], filter (\<lambda>p. p \<noteq> [] \<and> p \<noteq> lit ''.'') (py_split 47 s))"

definition path_parent :: "pypath \<Rightarrow> pypath" where
  "path_parent p = (fst p, butlast (snd p))"

definition path_join :: "pypath \<Rightarrow> pypath \<Rightarrow> pypath" where
  "path_join p q = (if fst q then q else (fst p, snd p @ snd q))"

definition relative_to :: "pypath \<Rightarrow> pypath \<Rightarrow> bool" where
  "relative_to p base \<longleftrightarrow> fst p = fst base \<and> take (length (snd base)) (snd p) = snd base"

text \<open>
  \<open>ad_strict\<close> and \<open>ad_resolve\<close> are \<^verbatim>\<open>Path.resolve\<close> with and without \<^verbatim>\<open>strict\<close>; a regular file has its bytes.
  \<open>ad_iso\<close> gives the offset from UTC, if there is one, and the time in microseconds.
\<close>

record admission_lib =
  ad_strict :: "pypath \<Rightarrow> pypath res"
  ad_resolve :: "pypath \<Rightarrow> pypath"
  ad_file :: "pypath \<Rightarrow> bytes option"
  ad_urlparse :: "pystr \<Rightarrow> (pystr \<times> pystr \<times> pystr) res"
  ad_iso :: "pystr \<Rightarrow> (int option \<times> int) res"
  ad_now :: int
  ad_lower :: "pystr \<Rightarrow> pystr"
  ad_casefold :: "pystr \<Rightarrow> pystr"
  ad_str :: "json \<Rightarrow> pystr"
  ad_message :: "py_error \<Rightarrow> pystr"

definition str_of_value :: "admission_lib \<Rightarrow> json \<Rightarrow> pystr" where
  "str_of_value L v = (case v of JStr s \<Rightarrow> s | _ \<Rightarrow> ad_str L v)"

text \<open>\<^verbatim>\<open>str(d.get(k, ""))\<close> of a dictionary.\<close>

definition item_text :: "admission_lib \<Rightarrow> (pystr \<times> json) list \<Rightarrow> pystr \<Rightarrow> pystr" where
  "item_text L kvs k = (case map_of kvs k of None \<Rightarrow> [] | Some v \<Rightarrow> str_of_value L v)"

definition field_is :: "(pystr \<times> json) list \<Rightarrow> pystr \<Rightarrow> json \<Rightarrow> bool" where
  "field_is kvs k v \<longleftrightarrow> (case map_of kvs k of None \<Rightarrow> False | Some x \<Rightarrow> scalar_eq x v)"

definition hex_text :: "nat \<Rightarrow> pystr \<Rightarrow> bool" where
  "hex_text n s \<longleftrightarrow> length s = n \<and> list_all (\<lambda>c. 48 \<le> c \<and> c \<le> 57 \<or> 97 \<le> c \<and> c \<le> 102) s"

definition required_controls :: "pystr list" where
  "required_controls = map lit [''alert_delivery'', ''kafka_delivery_replay'', ''kms_object_lock'',
     ''managed_postgres_pitr_restore'', ''oidc_key_rotation'', ''otlp_trace_delivery'', ''staging_migration_rollback'']"

section \<open>Evidence files\<close>

text \<open>
  Reading in chunks until a read gives nothing, as \<^verbatim>\<open>iter(lambda: stream.read(n), b"")\<close> does: the chunks
  that the digest is updated with.
\<close>

function read_chunks :: "nat \<Rightarrow> bytes \<Rightarrow> bytes list" where
  "read_chunks n data = (if n = 0 \<or> data = [] then [] else take n data # read_chunks n (drop n data))"
  by pat_completeness auto
termination
  by (relation "measure (\<lambda>(n, data). length data)") auto

declare read_chunks.simps [simp del]

definition chunked_sha256 :: "pyenv \<Rightarrow> nat \<Rightarrow> bytes \<Rightarrow> pystr" where
  "chunked_sha256 E n data = sha256_hex E (concat (read_chunks n data))"

definition control_error :: "pystr \<Rightarrow> string \<Rightarrow> pystr" where
  "control_error name message = lit ''control '' @ name @ lit message"

text \<open>The errors of one control's file, and the files seen so far; an error ends the check.\<close>

definition verify_file ::
  "pyenv \<Rightarrow> admission_lib \<Rightarrow> pypath \<Rightarrow> pystr \<Rightarrow> (pystr \<times> json) list \<Rightarrow> pypath list \<Rightarrow> (pystr list \<times> pypath list) res" where
  "verify_file E L manifest name item seen =
     (let relative = path_of (item_text L item (lit ''evidence_file''));
          base = ad_resolve L (path_join (path_parent manifest) (path_of (lit ''evidence'')))
      in if fst relative \<or> snd relative = [] \<or> hd (snd relative) \<noteq> lit ''evidence''
         then Inr ([control_error name '' evidence_file must be a relative path under evidence/''], seen)
         else case ad_strict L (path_join (path_parent manifest) relative) of
           Inl (FileNotFoundError _) \<Rightarrow> Inr ([control_error name '' evidence_file does not exist''], seen)
         | Inl (OSError _) \<Rightarrow> Inr ([control_error name '' evidence_file does not exist''], seen)
         | Inl e \<Rightarrow> Inl e
         | Inr resolved \<Rightarrow>
             (case (relative_to resolved base, ad_file L resolved) of
                (True, Some data) \<Rightarrow>
                  if resolved \<in> set seen
                  then Inr ([control_error name '' evidence_file must not be reused by another control''], seen)
                  else if data = [] \<or> length data > 50 * 1024 * 1024
                  then Inr ([control_error name '' evidence_file must be between 1 byte and 50 MiB''], seen @ [resolved])
                  else if \<not> field_is item (lit ''evidence_sha256'') (JStr (chunked_sha256 E (1024 * 1024) data))
                  then Inr ([control_error name '' evidence_sha256 does not match evidence_file''], seen @ [resolved])
                  else Inr ([], seen @ [resolved])
              | _ \<Rightarrow> Inr ([control_error name '' evidence_file escapes evidence/ or is not a regular file''], seen)))"

section \<open>Controls\<close>

definition durable_uri :: "pystr \<times> pystr \<times> pystr \<Rightarrow> bool" where
  "durable_uri u \<longleftrightarrow> (case u of (scheme, netloc, path) \<Rightarrow>
     scheme \<in> {lit ''https'', lit ''s3'', lit ''gs'', lit ''urn''}
     \<and> \<not> (scheme \<in> {lit ''https'', lit ''s3'', lit ''gs''} \<and> netloc = []) \<and> \<not> (scheme = lit ''urn'' \<and> path = []))"

definition age_errors :: "admission_lib \<Rightarrow> int \<Rightarrow> pystr \<Rightarrow> (pystr \<times> json) list \<Rightarrow> pystr list res" where
  "age_errors L max_age_hours name item =
     (case bind_res (ad_iso L (replace_z (item_text L item (lit ''verified_at_utc'')))) (\<lambda>(offset, checked).
         bind_res (raise_if (offset \<noteq> Some 0) (ValueError [])) (\<lambda>_. Inr (ad_now L - checked))) of
        Inr age \<Rightarrow> Inr (if age < 0 \<or> age > max_age_hours * 3600 * 1000000
          then [control_error name '' evidence is expired or future-dated''] else [])
      | Inl (ValueError _) \<Rightarrow> Inr [control_error name '' verified_at_utc is invalid'']
      | Inl TypeError \<Rightarrow> Inr [control_error name '' verified_at_utc is invalid'']
      | Inl e \<Rightarrow> Inl e)"

definition stripped_fold :: "admission_lib \<Rightarrow> (pystr \<times> json) list \<Rightarrow> pystr \<Rightarrow> pystr" where
  "stripped_fold L kvs k = ad_casefold L (py_strip (item_text L kvs k))"

definition control_errors ::
  "pyenv \<Rightarrow> admission_lib \<Rightarrow> pypath \<Rightarrow> int \<Rightarrow> pystr \<Rightarrow> pystr \<Rightarrow> (pystr \<times> json) list \<Rightarrow> pypath list
     \<Rightarrow> (pystr list \<times> pypath list) res" where
  "control_errors E L manifest max_age_hours deployed_by name item seen =
     (let verifier = stripped_fold L item (lit ''verifier'');
          e1 = (if field_is item (lit ''status'') (JStr (lit ''passed'')) then [] else [control_error name '' is not passed'']);
          e2 = (if verifier = [] then [control_error name '' has no verifier'']
                else if verifier = deployed_by
                then [control_error name '' verifier must be independent from deployed_by''] else [])
      in bind_res (ad_urlparse L (item_text L item (lit ''evidence_uri''))) (\<lambda>u.
         let e3 = (if durable_uri u then [] else [control_error name '' evidence_uri must be durable (https, s3, gs or urn)''])
         in bind_res (if hex_text 64 (item_text L item (lit ''evidence_sha256''))
               then verify_file E L manifest name item seen
               else Inr ([control_error name '' evidence_sha256 must be 64 lowercase hex characters''], seen)) (\<lambda>(e4, seen').
            bind_res (age_errors L max_age_hours name item) (\<lambda>e5.
              Inr (e1 @ e2 @ e3 @ e4 @ e5, seen')))))"

fun controls_errors ::
  "pyenv \<Rightarrow> admission_lib \<Rightarrow> pypath \<Rightarrow> int \<Rightarrow> pystr \<Rightarrow> (pystr \<times> json) list \<Rightarrow> pystr list \<Rightarrow> pypath list \<Rightarrow> pystr list res" where
  "controls_errors E L manifest max_age_hours deployed_by controls [] seen = Inr []"
| "controls_errors E L manifest max_age_hours deployed_by controls (name # names) seen =
     (case map_of controls name of
        Some (JObj item) \<Rightarrow>
          bind_res (control_errors E L manifest max_age_hours deployed_by name item seen) (\<lambda>(es, seen').
          bind_res (controls_errors E L manifest max_age_hours deployed_by controls names seen') (\<lambda>rest. Inr (es @ rest)))
      | _ \<Rightarrow> bind_res (controls_errors E L manifest max_age_hours deployed_by controls names seen) (\<lambda>rest.
          Inr ((lit ''missing required control: '' @ name) # rest)))"

section \<open>Admission\<close>

definition refused :: "pystr \<Rightarrow> json" where
  "refused message = JObj [(lit ''valid'', JBool False), (lit ''errors'', JList [JStr message])]"

text \<open>What is read of the manifest; a text that is no UTF-8 is among the errors that are reported.\<close>

definition read_manifest :: "pyenv \<Rightarrow> admission_lib \<Rightarrow> pystr \<Rightarrow> (pypath \<times> json) res" where
  "read_manifest E L path = bind_res (ad_strict L (path_of path)) (\<lambda>manifest.
     case ad_file L manifest of
       None \<Rightarrow> Inl (OSError (lit ''not a regular file''))
     | Some data \<Rightarrow> bind_res (loads_file E data) (\<lambda>document. Inr (manifest, document)))"

definition header_errors :: "admission_lib \<Rightarrow> pystr \<Rightarrow> (pystr \<times> json) list \<Rightarrow> pystr list" where
  "header_errors L release_sha document =
     (if field_is document (lit ''schema_version'') (JInt 3) then [] else [lit ''schema_version must be 3'']) @
     (if field_is document (lit ''project'') (JStr (lit ''flagship-lab'')) then [] else [lit ''project must be flagship-lab'']) @
     (if field_is document (lit ''release_sha'') (JStr release_sha) then []
      else [lit ''evidence release_sha does not match the requested release'']) @
     (if ad_lower L (py_strip (item_text L document (lit ''environment'')))
           \<in> {[], lit ''dev'', lit ''development'', lit ''local'', lit ''test''}
      then [lit ''environment must identify a production-like deployment''] else []) @
     (if stripped_fold L document (lit ''deployed_by'') = [] then [lit ''deployed_by is required''] else [])"

definition controls_of :: "(pystr \<times> json) list \<Rightarrow> pystr list \<times> (pystr \<times> json) list" where
  "controls_of document = (case map_of document (lit ''controls'') of
     Some (JObj controls) \<Rightarrow> ([], controls) | _ \<Rightarrow> ([lit ''controls must be an object''], []))"

definition admission_report ::
  "pyenv \<Rightarrow> admission_lib \<Rightarrow> pystr \<Rightarrow> int \<Rightarrow> pypath \<Rightarrow> json \<Rightarrow> json res" where
  "admission_report E L release_sha max_age_hours manifest document = (case document of
     JObj kvs \<Rightarrow> (case controls_of kvs of (e2, controls) \<Rightarrow>
       bind_res (controls_errors E L manifest max_age_hours (stripped_fold L kvs (lit ''deployed_by'')) controls
          (sort required_controls) []) (\<lambda>e3.
       let errors = header_errors L release_sha kvs @ e2 @ e3
       in Inr (JObj [(lit ''valid'', JBool (errors = [])), (lit ''project'', JStr (lit ''flagship-lab'')),
            (lit ''release_sha'', JStr release_sha), (lit ''errors'', JList (map JStr errors))])))
   | _ \<Rightarrow> Inl AttributeError)"

definition verify_admission :: "pyenv \<Rightarrow> admission_lib \<Rightarrow> pystr \<Rightarrow> pystr \<Rightarrow> int \<Rightarrow> json res" where
  "verify_admission E L path release_sha max_age_hours =
     (if \<not> hex_text 40 release_sha then Inr (refused (lit ''release_sha must be a lowercase 40-character Git SHA''))
      else if \<not> (1 \<le> max_age_hours \<and> max_age_hours \<le> 168)
      then Inr (refused (lit ''max_age_hours must be between 1 and 168''))
      else case read_manifest E L path of
        Inr (manifest, document) \<Rightarrow> admission_report E L release_sha max_age_hours manifest document
      | Inl e \<Rightarrow> (case e of
          OSError _ \<Rightarrow> Inr (refused (lit ''cannot read admission evidence: '' @ ad_message L e))
        | FileNotFoundError _ \<Rightarrow> Inr (refused (lit ''cannot read admission evidence: '' @ ad_message L e))
        | JSONDecodeError \<Rightarrow> Inr (refused (lit ''cannot read admission evidence: '' @ ad_message L e))
        | ValueError t \<Rightarrow> if t = lit ''invalid utf-8''
            then Inr (refused (lit ''cannot read admission evidence: '' @ ad_message L e)) else Inl e
        | _ \<Rightarrow> Inl e))"

section \<open>What an admitted release guarantees\<close>

lemma concat_chunks: "0 < n \<Longrightarrow> concat (read_chunks n data) = data"
proof (induction n data rule: read_chunks.induct)
  case (1 n data)
  then show ?case by (subst read_chunks.simps) auto
qed

lemma chunked_sha [simp]: "0 < n \<Longrightarrow> chunked_sha256 E n data = sha256_hex E data"
  by (simp add: chunked_sha256_def concat_chunks)

lemma field_is_text [simp]: "field_is kvs k (JStr s) \<longleftrightarrow> map_of kvs k = Some (JStr s)"
proof -
  have "scalar_eq x (JStr s) \<longleftrightarrow> x = JStr s" for x
    by (cases x) (auto simp: scalar_eq_def number_of_def split: sum.splits)
  then show ?thesis by (auto simp: field_is_def split: option.splits)
qed

text \<open>The file that a control's evidence is, and what is required of it.\<close>

definition evidence_file_ok :: "pyenv \<Rightarrow> admission_lib \<Rightarrow> pypath \<Rightarrow> (pystr \<times> json) list \<Rightarrow> pypath \<Rightarrow> bool" where
  "evidence_file_ok E L manifest item p \<longleftrightarrow>
     relative_to p (ad_resolve L (path_join (path_parent manifest) (path_of (lit ''evidence''))))
     \<and> (\<exists>data. ad_file L p = Some data \<and> data \<noteq> [] \<and> length data \<le> 50 * 1024 * 1024
          \<and> map_of item (lit ''evidence_sha256'') = Some (JStr (sha256_hex E data)))"

definition control_passes :: "pyenv \<Rightarrow> admission_lib \<Rightarrow> pypath \<Rightarrow> int \<Rightarrow> pystr \<Rightarrow> (pystr \<times> json) list \<Rightarrow> pypath \<Rightarrow> bool" where
  "control_passes E L manifest max_age_hours deployed_by item p \<longleftrightarrow>
     map_of item (lit ''status'') = Some (JStr (lit ''passed''))
     \<and> stripped_fold L item (lit ''verifier'') \<noteq> [] \<and> stripped_fold L item (lit ''verifier'') \<noteq> deployed_by
     \<and> evidence_file_ok E L manifest item p
     \<and> (\<exists>checked. ad_iso L (replace_z (item_text L item (lit ''verified_at_utc''))) = Inr (Some 0, checked)
          \<and> 0 \<le> ad_now L - checked \<and> ad_now L - checked \<le> max_age_hours * 3600 * 1000000)"

lemma verify_file_clean:
  assumes "verify_file E L manifest name item seen = Inr ([], seen')"
  obtains p where "seen' = seen @ [p]" "p \<notin> set seen" "evidence_file_ok E L manifest item p"
  using assms
  by (auto simp: verify_file_def Let_def evidence_file_ok_def split: if_splits sum.splits py_error.splits
      bool.splits option.splits)

lemma age_clean: "age_errors L h name item = Inr [] \<Longrightarrow>
    \<exists>checked. ad_iso L (replace_z (item_text L item (lit ''verified_at_utc''))) = Inr (Some 0, checked)
      \<and> 0 \<le> ad_now L - checked \<and> ad_now L - checked \<le> h * 3600 * 1000000"
  by (auto simp: age_errors_def bind_res_Inr bind_res_Inl raise_if_def split: sum.splits py_error.splits if_splits)

lemma control_clean:
  assumes "control_errors E L manifest h deployed_by name item seen = Inr ([], seen')"
  obtains p where "seen' = seen @ [p]" "p \<notin> set seen" "control_passes E L manifest h deployed_by item p"
proof -
  from assms have c: "map_of item (lit ''status'') = Some (JStr (lit ''passed''))"
    "stripped_fold L item (lit ''verifier'') \<noteq> []" "stripped_fold L item (lit ''verifier'') \<noteq> deployed_by"
    "verify_file E L manifest name item seen = Inr ([], seen')" "age_errors L h name item = Inr []"
    by (auto simp: control_errors_def Let_def bind_res_Inr split: if_splits)
  from c(4) obtain p where "seen' = seen @ [p]" "p \<notin> set seen" "evidence_file_ok E L manifest item p"
    by (rule verify_file_clean)
  with c age_clean [OF c(5)] that show thesis by (simp add: control_passes_def)
qed

lemma controls_clean:
  assumes "controls_errors E L manifest h deployed_by controls names seen = Inr []"
  shows "\<exists>files. length files = length names \<and> distinct files \<and> set files \<inter> set seen = {}
    \<and> list_all2 (\<lambda>name p. \<exists>item. map_of controls name = Some (JObj item) \<and> control_passes E L manifest h deployed_by item p) names files"
  using assms
proof (induction names arbitrary: seen)
  case (Cons name names)
  from Cons.prems obtain item seen' where c: "map_of controls name = Some (JObj item)"
    "control_errors E L manifest h deployed_by name item seen = Inr ([], seen')"
    "controls_errors E L manifest h deployed_by controls names seen' = Inr []"
    by (auto simp: bind_res_Inr split: option.splits json.splits)
  from c(2) obtain p where p: "seen' = seen @ [p]" "p \<notin> set seen" "control_passes E L manifest h deployed_by item p"
    by (rule control_clean)
  from Cons.IH [OF c(3)] obtain files where "length files = length names" "distinct files" "set files \<inter> set seen' = {}"
    "list_all2 (\<lambda>name p. \<exists>item. map_of controls name = Some (JObj item) \<and> control_passes E L manifest h deployed_by item p) names files"
    by blast
  with c(1) p show ?case by (intro exI [of _ "p # files"]) auto
qed simp

text \<open>
  C29: What an admitted release guarantees.  If the verification answers that a release is valid, then the
  manifest could be read and names this project, release and schema, a production-like environment and
  a deployer; and every required control has passed, was verified within the allowed hours by
  somebody other than the deployer, and has a file of its own under the evidence directory, which
  no other control uses and whose bytes have the recorded digest.
\<close>

theorem admitted_release:
  assumes "verify_admission E L path release_sha max_age_hours = Inr report" and "jget (lit ''valid'') report = Inr (JBool True)"
  shows "\<exists>manifest kvs controls files. read_manifest E L path = Inr (manifest, JObj kvs)
    \<and> header_errors L release_sha kvs = [] \<and> map_of kvs (lit ''release_sha'') = Some (JStr release_sha)
    \<and> stripped_fold L kvs (lit ''deployed_by'') \<noteq> []
    \<and> map_of kvs (lit ''controls'') = Some (JObj controls) \<and> distinct files
    \<and> list_all2 (\<lambda>name p. \<exists>item. map_of controls name = Some (JObj item)
         \<and> control_passes E L manifest max_age_hours (stripped_fold L kvs (lit ''deployed_by'')) item p)
        (sort required_controls) files \<and> 1 \<le> max_age_hours \<and> max_age_hours \<le> 168"
proof -
  from assms obtain manifest document where m: "read_manifest E L path = Inr (manifest, document)"
    "admission_report E L release_sha max_age_hours manifest document = Inr report" "1 \<le> max_age_hours" "max_age_hours \<le> 168"
    by (auto simp: verify_admission_def refused_def split: if_splits sum.splits py_error.splits)
  from m(2) obtain kvs e2 controls e3 where r: "document = JObj kvs" "controls_of kvs = (e2, controls)"
    "controls_errors E L manifest max_age_hours (stripped_fold L kvs (lit ''deployed_by'')) controls (sort required_controls) [] = Inr e3"
    "report = JObj [(lit ''valid'', JBool (header_errors L release_sha kvs @ e2 @ e3 = [])), (lit ''project'', JStr (lit ''flagship-lab'')),
       (lit ''release_sha'', JStr release_sha), (lit ''errors'', JList (map JStr (header_errors L release_sha kvs @ e2 @ e3)))]"
    by (auto simp: admission_report_def bind_res_Inr Let_def split: json.splits prod.splits)
  from assms(2) r(4) have e: "header_errors L release_sha kvs = []" "e2 = []" "e3 = []" by simp_all
  then have "map_of kvs (lit ''controls'') = Some (JObj controls)"
    using r(2) by (auto simp: controls_of_def split: option.splits json.splits)
  moreover have "map_of kvs (lit ''release_sha'') = Some (JStr release_sha)" "stripped_fold L kvs (lit ''deployed_by'') \<noteq> []"
    using e(1) by (auto simp: header_errors_def split: if_splits)
  ultimately show ?thesis using controls_clean [OF r(3) [unfolded e(3)]] m r(1) e(1) by blast
qed

section \<open>Witness\<close>

definition demo_control :: "pystr \<Rightarrow> json" where
  "demo_control name = JObj [(lit ''status'', JStr (lit ''passed'')), (lit ''verifier'', JStr (lit ''vera'')),
     (lit ''evidence_uri'', JStr (lit ''https://e'')), (lit ''evidence_file'', JStr (lit ''evidence/'' @ name)),
     (lit ''evidence_sha256'', JStr (demo_sha [1])), (lit ''verified_at_utc'', JStr (lit ''now''))]"

definition demo_release :: pystr where
  "demo_release = replicate 40 48"

definition demo_admission :: json where
  "demo_admission = JObj [(lit ''schema_version'', JInt 3), (lit ''project'', JStr (lit ''flagship-lab'')),
     (lit ''release_sha'', JStr demo_release), (lit ''environment'', JStr (lit ''staging'')),
     (lit ''deployed_by'', JStr (lit ''dora'')), (lit ''controls'', JObj (map (\<lambda>n. (n, demo_control n)) required_controls))]"

definition demo_admission_lib :: admission_lib where
  "demo_admission_lib = \<lparr>ad_strict = Inr, ad_resolve = id,
     ad_file = (\<lambda>p. if snd p = [lit ''admission.json''] then Some (utf8 (dump demo_admission)) else Some [1]),
     ad_urlparse = (\<lambda>u. Inr (lit ''https'', lit ''e'', [])), ad_iso = (\<lambda>s. Inr (Some 0, 0)), ad_now = 1,
     ad_lower = id, ad_casefold = id, ad_str = dump, ad_message = (\<lambda>e. [])\<rparr>"

lemma demo_manifest: "read_manifest demo_env demo_admission_lib (lit ''/admission.json'')
    = Inr ((True, [lit ''admission.json'']), demo_admission)"
proof -
  have "json_texts (list_all scalar_value) demo_admission" by code_simp
  then have p: "json_texts plain_text demo_admission" by (simp add: plain_text_list_all [abs_def])
  have w: "wf_json demo_env demo_admission"
    by (simp add: demo_admission_def demo_control_def required_controls_def)
  have "path_of (lit ''/admission.json'') = (True, [lit ''admission.json''])" by code_simp
  then show ?thesis
    using plain_pdump(5) [OF w p] loads_dump [OF w]
    by (simp add: read_manifest_def demo_admission_lib_def loads_file_def utf8_decode_utf8)
qed

definition demo_path :: "pystr \<Rightarrow> pypath" where
  "demo_path name = (True, [lit ''evidence'', name])"

lemma demo_path_of: "47 \<notin> set name \<Longrightarrow> name \<noteq> [] \<Longrightarrow> name \<noteq> lit ''.'' \<Longrightarrow> path_of (lit ''evidence/'' @ name) = (False, [lit ''evidence'', name])"
proof -
  assume n: "47 \<notin> set name" "name \<noteq> []" "name \<noteq> lit ''.''"
  have "lit ''evidence/'' @ name = lit ''evidence'' @ 47 # name" "47 \<notin> set (lit ''evidence'')" by (simp_all add: lit_def)
  with n show ?thesis by (simp add: path_of_def py_split_append py_split_plain py_startswith_def) (simp add: lit_def)
qed

lemma demo_control_clean:
  assumes "47 \<notin> set name" "name \<noteq> []" "name \<noteq> lit ''.''" "demo_path name \<notin> set seen" "demo_control name = JObj item"
  shows "control_errors demo_env demo_admission_lib (True, [lit ''admission.json'']) 24 (lit ''dora'') name item seen
    = Inr ([], seen @ [demo_path name])"
proof -
  have i: "item_text demo_admission_lib item (lit ''evidence_file'') = lit ''evidence/'' @ name"
    "item_text demo_admission_lib item (lit ''evidence_sha256'') = demo_sha [1]"
    "item_text demo_admission_lib item (lit ''verifier'') = lit ''vera''"
    "map_of item (lit ''status'') = Some (JStr (lit ''passed''))"
    "map_of item (lit ''evidence_sha256'') = Some (JStr (demo_sha [1]))"
    using assms(5) by (auto simp: demo_control_def item_text_def str_of_value_def)
  have e: "path_of (lit ''evidence'') = (False, [lit ''evidence''])" by code_simp
  have h: "hex_text 64 (demo_sha [1])" "durable_uri (lit ''https'', lit ''e'', [])"
    "py_strip (lit ''vera'') \<noteq> []" "py_strip (lit ''vera'') \<noteq> lit ''dora''" by code_simp+
  have "verify_file demo_env demo_admission_lib (True, [lit ''admission.json'']) name item seen = Inr ([], seen @ [demo_path name])"
    using assms(4) i e demo_path_of [OF assms(1-3)]
    by (simp add: verify_file_def demo_admission_lib_def path_join_def path_parent_def relative_to_def demo_path_def demo_env_def)
  then show ?thesis using i h
    by (simp add: control_errors_def stripped_fold_def age_errors_def) (simp add: demo_admission_lib_def raise_if_def)
qed

lemma demo_controls_clean:
  assumes "\<forall>name \<in> set names. 47 \<notin> set name \<and> name \<noteq> [] \<and> name \<noteq> lit ''.'' \<and> map_of controls name = Some (demo_control name)"
    and "distinct names" "demo_path ` set names \<inter> set seen = {}"
  shows "controls_errors demo_env demo_admission_lib (True, [lit ''admission.json'']) 24 (lit ''dora'') controls names seen = Inr []"
  using assms
proof (induction names arbitrary: seen)
  case (Cons name names)
  obtain item where item: "demo_control name = JObj item" by (simp add: demo_control_def)
  have "demo_path name \<notin> set seen" "demo_path ` set names \<inter> set (seen @ [demo_path name]) = {}"
    using Cons.prems(2,3) by (auto simp: demo_path_def)
  with Cons item demo_control_clean [OF _ _ _ _ item] show ?case by simp
qed simp

lemma admitted_release_witness:
  "\<exists>report (files :: pypath list). verify_admission demo_env demo_admission_lib (lit ''/admission.json'') demo_release 24 = Inr report
    \<and> jget (lit ''valid'') report = Inr (JBool True) \<and> distinct files \<and> length files = 7"
proof -
  obtain kvs where kvs: "demo_admission = JObj kvs" by (simp add: demo_admission_def)
  let ?controls = "map (\<lambda>n. (n, demo_control n)) required_controls"
  have t: "py_strip (lit ''staging'') = lit ''staging''" "py_strip (lit ''dora'') = lit ''dora''" "hex_text 40 demo_release"
    by code_simp+
  have f: "map_of kvs (lit ''controls'') = Some (JObj ?controls)" "field_is kvs (lit ''schema_version'') (JInt 3)"
    "map_of kvs (lit ''project'') = Some (JStr (lit ''flagship-lab''))" "map_of kvs (lit ''release_sha'') = Some (JStr demo_release)"
    "item_text demo_admission_lib kvs (lit ''environment'') = lit ''staging''"
    "item_text demo_admission_lib kvs (lit ''deployed_by'') = lit ''dora''"
    using kvs by (auto simp: demo_admission_def field_is_def item_text_def str_of_value_def scalar_eq_def number_of_def dec_le_def)
  then have c: "controls_of kvs = ([], ?controls)" by (simp add: controls_of_def)
  have dep: "stripped_fold demo_admission_lib kvs (lit ''deployed_by'') = lit ''dora''"
    using f t by (simp add: stripped_fold_def) (simp add: demo_admission_lib_def)
  then have he: "header_errors demo_admission_lib demo_release kvs = []"
    using f t by (simp add: header_errors_def) (simp add: demo_admission_lib_def)
  have "\<forall>name \<in> set required_controls. 47 \<notin> set name \<and> name \<noteq> [] \<and> name \<noteq> lit ''.'' \<and> map_of ?controls name = Some (demo_control name)"
    "distinct required_controls"
    by (simp_all add: required_controls_def) (simp_all add: lit_def)
  then have "controls_errors demo_env demo_admission_lib (True, [lit ''admission.json'']) 24 (lit ''dora'') ?controls
      (sort required_controls) [] = Inr []"
    by (intro demo_controls_clean) simp_all
  then obtain report where r: "admission_report demo_env demo_admission_lib demo_release 24 (True, [lit ''admission.json'']) demo_admission
      = Inr report" "jget (lit ''valid'') report = Inr (JBool True)"
    by (simp add: admission_report_def kvs c he dep Let_def)
  then have v: "verify_admission demo_env demo_admission_lib (lit ''/admission.json'') demo_release 24 = Inr report"
    using t(3) by (simp add: verify_admission_def demo_manifest)
  have l: "length (sort required_controls) = 7" by (simp add: required_controls_def)
  from admitted_release [OF v r(2)] have "\<exists>files :: pypath list. distinct files \<and> length files = 7"
    by (elim exE conjE) (intro exI conjI, assumption, drule list_all2_lengthD, use l in simp)
  with v r(2) show ?thesis by blast
qed

end
