(* ===== verification/Outbox_Settling.thy ===== *)
theory Outbox_Settling
  imports Outbox
begin

text \<open>
  The retries of \<^verbatim>\<open>run_outbox_worker\<close> end: every turn that selects rows uses up at least one of the attempts
  that the pending rows have left, whatever the publisher does, so that after that many turns each
  event has been published or dead-lettered.
\<close>

section \<open>The attempts that are left\<close>

definition attempts_left :: "int \<Rightarrow> outbox_event \<Rightarrow> nat" where
  "attempts_left m r = (if pending m r then nat (m - ox_attempts r) else 0)"

definition retries_left :: "int \<Rightarrow> db \<Rightarrow> nat" where
  "retries_left m d = sum_list (map (attempts_left m) (outbox_events d))"

lemma settled_attempts:
  assumes "settled m P S r r'" "P \<subseteq> S" "ox_id r \<in> S \<longrightarrow> pending m r"
  shows "attempts_left m r' + (if ox_id r \<in> S then 1 else 0) \<le> attempts_left m r"
  using assms by (auto simp: settled_def attempts_left_def pending_def split: if_splits)

lemma settled_attempts_sum:
  assumes "list_all2 (settled m P S) rows rows'" "P \<subseteq> S" "\<forall>r \<in> set rows. ox_id r \<in> S \<longrightarrow> pending m r"
  shows "sum_list (map (attempts_left m) rows') + length (filter (\<lambda>r. ox_id r \<in> S) rows)
    \<le> sum_list (map (attempts_left m) rows)"
  using assms(1,3)
proof (induction rule: list_all2_induct)
  case (Cons r rs r' rs')
  have "attempts_left m r' + (if ox_id r \<in> S then 1 else 0) \<le> attempts_left m r"
    by (rule settled_attempts [OF Cons.hyps(1) assms(2)]) (use Cons.prems in simp)
  moreover have "sum_list (map (attempts_left m) rs') + length (filter (\<lambda>r. ox_id r \<in> S) rs)
      \<le> sum_list (map (attempts_left m) rs)"
    by (rule Cons.IH) (use Cons.prems in simp)
  ultimately show ?case by (cases "ox_id r \<in> S") simp_all
qed simp

lemma attempts_left_zero: "attempts_left m r = 0 \<longleftrightarrow> \<not> pending m r"
  by (simp add: attempts_left_def pending_def)

lemma retries_left_zero: "retries_left m d = 0 \<longleftrightarrow> pending_rows m d = []"
proof -
  have "retries_left m d = 0 \<longleftrightarrow> (\<forall>r \<in> set (outbox_events d). \<not> pending m r)"
    by (simp add: retries_left_def attempts_left_zero)
  also have "\<dots> \<longleftrightarrow> set (pending_rows m d) = {}" by (auto simp: pending_rows_def)
  finally show ?thesis by simp
qed

section \<open>Batches that return\<close>

text \<open>What could make a batch raise is absent: unreadable payloads, and earlier dead letters of pending rows.\<close>

definition no_dead_letter :: "db \<Rightarrow> outbox_event \<Rightarrow> bool" where
  "no_dead_letter d r \<longleftrightarrow> (\<forall>l \<in> set (dead_letter_events d). dl_outbox_id l \<noteq> ox_id r)"

definition deliverable :: "pyenv \<Rightarrow> int \<Rightarrow> db \<Rightarrow> bool" where
  "deliverable E m d \<longleftrightarrow> (\<forall>r \<in> set (outbox_events d). pending m r \<longrightarrow>
     \<not> isl (loads E (ox_payload_json r)) \<and> no_dead_letter d r)"

lemma record_failure_returns:
  assumes "no_dead_letter d row"
  shows "\<exists>d'. record_failure m ts row error d = Inr ((), d')
    \<and> (\<forall>l \<in> set (dead_letter_events d'). l \<in> set (dead_letter_events d) \<or> exhausted m row \<and> dl_outbox_id l = ox_id row)"
proof (cases "exhausted m row")
  case True
  with assms show ?thesis
    by (auto simp: record_failure_def bind_tx_def update_tx_def when_tx_def insert_dead_letter_def no_dead_letter_def)
qed (simp add: record_failure_def bind_tx_def update_tx_def when_tx_def return_tx_def)

lemma publish_rows_returns:
  assumes "distinct (map ox_id rows)" "\<forall>r \<in> set rows. \<not> isl (loads E (ox_payload_json r)) \<and> no_dead_letter d r"
  shows "\<exists>counts' d' sent'. publish_rows E pub m ts i rows counts d sent = (Inr (counts', d'), sent')
    \<and> (\<forall>l \<in> set (dead_letter_events d'). l \<in> set (dead_letter_events d)
         \<or> (\<exists>r \<in> set rows. exhausted m r \<and> dl_outbox_id l = ox_id r))"
  using assms
proof (induction rows arbitrary: ts i counts d sent)
  case (Cons row rows)
  from Cons.prems(2) obtain payload where p: "loads E (ox_payload_json row) = Inr payload"
    by (cases "loads E (ox_payload_json row)") auto
  have dr: "distinct (map ox_id rows)" using Cons.prems(1) by simp
  show ?case
  proof (cases "pub i (envelope_of row payload)")
    case None
    have "\<forall>r \<in> set rows. \<not> isl (loads E (ox_payload_json r)) \<and> no_dead_letter (mark_published (ts 0) row d) r"
      using Cons.prems(2) by (simp add: no_dead_letter_def mark_published_def)
    from Cons.IH [OF dr this, of "after_calls 1 ts" "i + 1" "(fst counts + 1, snd counts)" "sent @ [envelope_of row payload]"]
    obtain counts' d' sent' where
      "publish_rows E pub m (after_calls 1 ts) (i + 1) rows (fst counts + 1, snd counts) (mark_published (ts 0) row d)
        (sent @ [envelope_of row payload]) = (Inr (counts', d'), sent')"
      "\<forall>l \<in> set (dead_letter_events d'). l \<in> set (dead_letter_events (mark_published (ts 0) row d))
         \<or> (\<exists>r \<in> set rows. exhausted m r \<and> dl_outbox_id l = ox_id r)" by blast
    with p None show ?thesis
      by (intro exI [of _ counts'] exI [of _ d'] exI [of _ sent']) (auto simp: mark_published_def)
  next
    case (Some error)
    from record_failure_returns [of d row m ts "take 2000 error"] Cons.prems(2) obtain d1 where
      r: "record_failure m ts row (take 2000 error) d = Inr ((), d1)"
        "\<forall>l \<in> set (dead_letter_events d1). l \<in> set (dead_letter_events d) \<or> exhausted m row \<and> dl_outbox_id l = ox_id row"
      by auto
    have "\<forall>r \<in> set rows. \<not> isl (loads E (ox_payload_json r)) \<and> no_dead_letter d1 r"
      using Cons.prems r(2) by (force simp: no_dead_letter_def)
    from Cons.IH [OF dr this, of "after_calls (if exhausted m row then 2 else 0) ts" "i + 1" "(fst counts, snd counts + 1)" sent]
    obtain counts' d' sent' where
      "publish_rows E pub m (after_calls (if exhausted m row then 2 else 0) ts) (i + 1) rows (fst counts, snd counts + 1) d1 sent
        = (Inr (counts', d'), sent')"
      "\<forall>l \<in> set (dead_letter_events d'). l \<in> set (dead_letter_events d1)
         \<or> (\<exists>r \<in> set rows. exhausted m r \<and> dl_outbox_id l = ox_id r)" by blast
    with p Some r show ?thesis
      by (intro exI [of _ counts'] exI [of _ d'] exI [of _ sent']) auto
  qed
qed simp

lemma deliverable_batch:
  assumes "deliverable E m d" "distinct (map ox_id (outbox_events d))" "1 \<le> limit" "limit \<le> 1000"
  shows "\<exists>res d' sent. publish_batch E pub m ts limit d = (Inr res, d', sent) \<and> deliverable E m d'
    \<and> retries_left m d' \<le> retries_left m d - (if pending_rows m d = [] then 0 else 1)
    \<and> map ox_id (outbox_events d') = map ox_id (outbox_events d)"
proof -
  let ?rows = "take (nat limit) (pending_rows m d)"
  have sel: "distinct (map ox_id ?rows)" "\<forall>r \<in> set ?rows. unpublished_row r d \<and> pending m r"
    by (rule selected_rows [OF assms(2)])+
  then have "\<forall>r \<in> set ?rows. \<not> isl (loads E (ox_payload_json r)) \<and> no_dead_letter d r"
    using assms(1) by (simp add: deliverable_def unpublished_row_def)
  from publish_rows_returns [OF sel(1) this, of pub m ts 0 "(0, 0)" "[]"] obtain counts d' sent where
    run: "publish_rows E pub m ts 0 ?rows (0, 0) d [] = (Inr (counts, d'), sent)"
    and dl: "\<forall>l \<in> set (dead_letter_events d'). l \<in> set (dead_letter_events d)
         \<or> (\<exists>r \<in> set ?rows. exhausted m r \<and> dl_outbox_id l = ox_id r)" by blast
  with assms(3,4) have batch: "publish_batch E pub m ts limit d =
      (Inr \<lparr>br_selected = int (length ?rows), br_published = fst counts, br_failed = snd counts\<rparr>, d', sent)"
    by (simp add: publish_batch_def Let_def)
  obtain P where P: "P \<subseteq> ox_id ` set ?rows"
    and st: "list_all2 (settled m P (ox_id ` set ?rows)) (outbox_events d) (outbox_events d')"
    using batch assms(2) by (rule publish_batch_Inr) blast
  have pend: "\<forall>r \<in> set (outbox_events d). ox_id r \<in> ox_id ` set ?rows \<longrightarrow> r \<in> set ?rows"
    using same_row [OF assms(2)] sel(2) by (fastforce simp: unpublished_row_def)
  have "sum_list (map (attempts_left m) (outbox_events d')) + length (filter (\<lambda>r. ox_id r \<in> ox_id ` set ?rows) (outbox_events d))
      \<le> sum_list (map (attempts_left m) (outbox_events d))"
    by (rule settled_attempts_sum [OF st P]) (use pend sel(2) in blast)
  moreover have "filter (\<lambda>r. ox_id r \<in> ox_id ` set ?rows) (outbox_events d) \<noteq> []" if "pending_rows m d \<noteq> []"
  proof -
    have "hd ?rows \<in> set ?rows" using that assms(3) by (intro hd_in_set) simp
    with sel(2) show ?thesis by (force simp: filter_empty_conv unpublished_row_def)
  qed
  ultimately have left: "retries_left m d' \<le> retries_left m d - (if pending_rows m d = [] then 0 else 1)"
    unfolding retries_left_def by (cases "filter (\<lambda>r. ox_id r \<in> ox_id ` set ?rows) (outbox_events d)") auto
  have "deliverable E m d'"
    unfolding deliverable_def
  proof (intro ballI impI)
    fix r' assume r': "r' \<in> set (outbox_events d')" "pending m r'"
    then obtain r where r: "r \<in> set (outbox_events d)" "settled m P (ox_id ` set ?rows) r r'"
      using st by (auto simp: list_all2_conv_all_nth in_set_conv_nth) metis
    have s: "pending m r" "ox_payload_json r' = ox_payload_json r" "ox_id r' = ox_id r"
      "exhausted m r \<longrightarrow> ox_id r \<notin> ox_id ` set ?rows"
      using r r'(2) pend sel(2) by (auto simp: settled_def pending_def split: if_splits)
    then have "\<not> isl (loads E (ox_payload_json r'))" "no_dead_letter d r"
      using assms(1) r(1) by (simp_all add: deliverable_def)
    moreover have "\<not> (exhausted m q \<and> ox_id q = ox_id r)" if "q \<in> set ?rows" for q
      using same_row [OF assms(2), of q r] that r(1) sel(2) s(4) by (auto simp: unpublished_row_def)
    ultimately show "\<not> isl (loads E (ox_payload_json r')) \<and> no_dead_letter d' r'"
      using dl s(3) by (metis no_dead_letter_def)
  qed
  with batch left settled_rows_ids [OF st] show ?thesis by blast
qed

section \<open>The worker\<close>

lemma loop_settles:
  assumes "deliverable E m d" "accounted m d" "distinct (map ox_id (outbox_events d))" "1 \<le> limit" "limit \<le> 1000" "0 < m"
    and "retries_left m d \<le> length turns"
  shows "\<exists>d' out. worker_loop E m limit turns d sent = (Inr (), d', out) \<and> pending_rows m d' = []
    \<and> accounted m d' \<and> map ox_id (outbox_events d') = map ox_id (outbox_events d)"
  using assms(1-3,7)
proof (induction turns arbitrary: d sent)
  case Nil
  then show ?case by (simp add: retries_left_zero)
next
  case (Cons turn turns)
  obtain pub ts where turn: "turn = (pub, ts)" by (cases turn)
  from deliverable_batch [OF Cons.prems(1,3) assms(4,5), of pub ts] obtain res d1 out where
    b: "publish_batch E pub m ts limit d = (Inr res, d1, out)" "deliverable E m d1"
      "retries_left m d1 \<le> retries_left m d - (if pending_rows m d = [] then 0 else 1)"
      "map ox_id (outbox_events d1) = map ox_id (outbox_events d)" by blast
  have "accounted m d1" by (rule accounted_batch [OF b(1) Cons.prems(3,2) assms(6)])
  moreover have "retries_left m d1 \<le> length turns"
    using b(3) Cons.prems(4) retries_left_zero [of m d] by (cases "pending_rows m d = []") simp_all
  ultimately obtain d' out' where "worker_loop E m limit turns d1 (sent @ out) = (Inr (), d', out')"
    "pending_rows m d' = []" "accounted m d'" "map ox_id (outbox_events d') = map ox_id (outbox_events d1)"
    using Cons.IH [of d1 "sent @ out"] b(2,4) Cons.prems(3) by auto
  with b turn show ?case by simp
qed

text \<open>
  C27: The worker's retries end where nothing was replayed.  Suppose that the payloads of the pending rows are
  readable and that no pending row has a dead letter of an earlier life; without that the worker need not
  settle, since a replayed event that fails for good rolls its batch back for ever.  Then, however the
  publisher behaves in each of the worker's turns, after as many turns as the pending rows have attempts left
  the worker has raised nothing and selects nothing any more: every event has been published, or dead-lettered
  with a dead letter.
\<close>

theorem worker_settles:
  assumes "deliverable E m d" and "accounted m d" and "distinct (map ox_id (outbox_events d))"
    and "1 \<le> limit" and "limit \<le> 1000" and "1 \<le> m" and "retries_left m d \<le> length turns"
  shows "\<exists>d' out. run_outbox_worker E m limit turns d = (Inr (), d', out) \<and> pending_rows m d' = []
    \<and> map ox_id (outbox_events d') = map ox_id (outbox_events d)
    \<and> (\<forall>r \<in> set (outbox_events d'). ox_published_at r \<noteq> None
         \<or> ox_dead_lettered_at r \<noteq> None \<and> (\<exists>l \<in> set (dead_letter_events d'). dl_outbox_id l = ox_id r))"
proof -
  from loop_settles [OF assms(1-5) _ assms(7), of "[]"] assms(6) obtain d' out where
    l: "worker_loop E m limit turns d [] = (Inr (), d', out)" "pending_rows m d' = []" "accounted m d'"
      "map ox_id (outbox_events d') = map ox_id (outbox_events d)" by auto
  have "\<not> pending m r" if "r \<in> set (outbox_events d')" for r
  proof -
    have "r \<notin> set (pending_rows m d')" using l(2) by simp
    with that show ?thesis by (simp add: pending_rows_def)
  qed
  with l assms(6) show ?thesis
    by (auto simp: run_outbox_worker_def outbox_publisher_def accounted_def)
qed

text \<open>Three events and a publisher that never delivers: two attempts of each row take six turns at most.\<close>

lemma worker_settles_witness:
  "\<exists>d' out. run_outbox_worker demo_env 2 1 (replicate 6 (\<lambda>i e. Some (lit ''down''), demo_clock)) demo_outbox = (Inr (), d', out)
    \<and> pending_rows 2 d' = []"
proof -
  have "deliverable demo_env 2 demo_outbox"
    by (auto simp: deliverable_def demo_outbox_def demo_outbox_row_def demo_loads no_dead_letter_def empty_db_def)
  moreover have "accounted 2 demo_outbox"
    by (auto simp: accounted_def pending_def demo_outbox_def demo_outbox_row_def)
  moreover have "retries_left 2 demo_outbox \<le> 6" by code_simp
  ultimately show ?thesis
    using worker_settles [of demo_env 2 demo_outbox 1 "replicate 6 (\<lambda>i e. Some (lit ''down''), demo_clock)"]
      strict_sorted_iff demo_sorted by auto
qed

end
