(* ===== verification/Operations.thy ===== *)
theory Operations
  imports Backup Preflight Admission Outbox_Settling
begin

text \<open>
  \<^verbatim>\<open>operations.py\<close> and \<^verbatim>\<open>operation_metrics.py\<close>: the commands that an operator runs, composed of backups, dead
  letters, the preflight and the admission check, with the exit and the metrics of a run.  The
  database servers, the environment and the files are explicit.
\<close>

section \<open>The world of an operator\<close>

datatype command =
    Backup_create pystr int
  | Backup_restore pystr pystr
  | Dlq_list
  | Dlq_replay int
  | Preflight_run
  | Admission_verify pystr pystr int

text \<open>The databases by their URLs, the object stores by their directories, and the files that operations write.\<close>

record world =
  wd_dbs :: "pystr \<Rightarrow> db"
  wd_stores :: "pystr \<Rightarrow> files"
  wd_files :: "(pypath \<times> bytes) list"

text \<open>\<open>op_write\<close> is whether a file can be written at a path, which depends on the directories.\<close>

record ops_lib =
  op_env :: pyenv
  op_backup :: backup_lib
  op_admission :: admission_lib
  op_catalogue :: "pystr \<Rightarrow> pg_catalogue"
  op_dialect :: "pystr \<Rightarrow> dialect"
  op_deadline :: "int \<Rightarrow> pystr"
  op_clock :: clock
  op_nonce :: bytes
  op_write :: "pypath \<Rightarrow> unit res"

type_synonym environ = "pystr \<Rightarrow> pystr option"

text \<open>\<^verbatim>\<open>os.environ.get(name)\<close> that is tested for being empty, and \<^verbatim>\<open>os.environ.get(name, default)\<close>.\<close>

definition env_value :: "environ \<Rightarrow> pystr \<Rightarrow> pystr option" where
  "env_value env name = (case env name of Some (c # cs) \<Rightarrow> Some (c # cs) | _ \<Rightarrow> None)"

definition env_or :: "environ \<Rightarrow> pystr \<Rightarrow> pystr \<Rightarrow> pystr" where
  "env_or env name dflt = (case env name of None \<Rightarrow> dflt | Some v \<Rightarrow> v)"

definition encryption_key :: "environ \<Rightarrow> bytes res" where
  "encryption_key env = (case env_value env (lit ''FLAGSHIP_BACKUP_KEY_BASE64'') of
     None \<Rightarrow> Inl (SystemExit (lit ''FLAGSHIP_BACKUP_KEY_BASE64 is required''))
   | Some encoded \<Rightarrow> (case b64decode_strict encoded of
       None \<Rightarrow> Inl (SystemExit (lit ''FLAGSHIP_BACKUP_KEY_BASE64 must be valid base64''))
     | Some key \<Rightarrow> bind_res (raise_if (length key \<noteq> 32) (SystemExit (lit ''decoded backup key must be exactly 32 bytes'')))
         (\<lambda>_. Inr key)))"

definition store_dir :: "environ \<Rightarrow> pystr" where
  "store_dir env = env_or env (lit ''FLAGSHIP_OPERATIONS_STORE'') (lit ''work/operations-store'')"

definition restore_metadata_path :: "pystr \<Rightarrow> pystr \<Rightarrow> pypath" where
  "restore_metadata_path dir backup_id = path_join (path_of dir) (path_of (lit ''backup-'' @ backup_id @ lit ''.restore.json''))"

text \<open>\<^verbatim>\<open>str(path)\<close>.\<close>

definition path_text :: "pypath \<Rightarrow> pystr" where
  "path_text p = (if fst p then 47 # py_join [47] (snd p) else if snd p = [] then lit ''.'' else py_join [47] (snd p))"

section \<open>Commands\<close>

definition run_backup_create :: "ops_lib \<Rightarrow> environ \<Rightarrow> pystr \<Rightarrow> pystr \<Rightarrow> int \<Rightarrow> world \<Rightarrow> json res \<times> world" where
  "run_backup_create L env url backup_id retention_days w = (let dir = store_dir env in
     case encryption_key env of
       Inl e \<Rightarrow> (Inl e, w)
     | Inr key \<Rightarrow>
         (case backup_create (op_env L) (op_backup L) (op_dialect L url) (op_clock L) (op_nonce L) key
             (put_immutable (op_env L) (op_deadline L)) retention_days backup_id (wd_dbs w url) (wd_stores w dir) of
            (Inl e, st) \<Rightarrow> (Inl e, w\<lparr>wd_stores := (wd_stores w)(dir := st)\<rparr>)
          | (Inr result, st) \<Rightarrow>
              (let w' = w\<lparr>wd_stores := (wd_stores w)(dir := st)\<rparr>; p = restore_metadata_path dir backup_id in
               case op_write L p of
                 Inl e \<Rightarrow> (Inl e, w')
               | Inr _ \<Rightarrow>
                   (Inr (JObj [(lit ''stored'', stored_dict (bk_stored result)), (lit ''tables'', JObj (bk_tables result)),
                       (lit ''restore_metadata'', JStr (path_text p))]),
                    w'\<lparr>wd_files := dict_put p (utf8 (pdump (indented quote_ascii) 0 (stored_dict (bk_stored result)))) (wd_files w)\<rparr>))))"

definition read_restore_metadata :: "pyenv \<Rightarrow> pystr \<Rightarrow> world \<Rightarrow> stored_object res" where
  "read_restore_metadata E file w = (case map_of (wd_files w) (path_of file) of
     None \<Rightarrow> Inl (FileNotFoundError file)
   | Some data \<Rightarrow> bind_res (loads_file E data) stored_of_json)"

definition run_backup_restore :: "ops_lib \<Rightarrow> environ \<Rightarrow> pystr \<Rightarrow> pystr \<Rightarrow> world \<Rightarrow> json res \<times> world" where
  "run_backup_restore L env file target w =
     (case bind_res (read_restore_metadata (op_env L) file w) (\<lambda>stored.
           bind_res (encryption_key env) (\<lambda>key. Inr (stored, key))) of
        Inl e \<Rightarrow> (Inl e, w)
      | Inr (stored, key) \<Rightarrow>
          (case backup_restore (op_env L) (op_backup L) (op_dialect L target) key (get_object (op_env L))
              (wd_stores w (store_dir env)) stored (wd_dbs w target) of
             (r, d) \<Rightarrow> (r, w\<lparr>wd_dbs := (wd_dbs w)(target := d)\<rparr>)))"

definition unreplayed :: "db \<Rightarrow> dead_letter_event list" where
  "unreplayed d = select_rows dl_id (\<lambda>l. dl_replayed_at l = None) (dead_letter_events d)"

definition run_dlq_list :: "ops_lib \<Rightarrow> pystr \<Rightarrow> world \<Rightarrow> json res \<times> world" where
  "run_dlq_list L url w = (bind_res (fst (connect (op_env L) (op_dialect L url) None (query_tx unreplayed) (wd_dbs w url)))
     (\<lambda>ls. Inr (JList (map dead_letter_dict ls))), w)"

definition run_dlq_replay :: "ops_lib \<Rightarrow> pystr \<Rightarrow> int \<Rightarrow> world \<Rightarrow> json res \<times> world" where
  "run_dlq_replay L url i w = (case replay_dead_letter (op_env L) (op_dialect L url) (op_clock L) i (wd_dbs w url) of
     (r, d) \<Rightarrow> (bind_res r (\<lambda>_. Inr (JObj [(lit ''dead_letter_id'', JInt i), (lit ''status'', JStr (lit ''queued_for_replay''))])),
       w\<lparr>wd_dbs := (wd_dbs w)(url := d)\<rparr>))"

text \<open>\<^verbatim>\<open>os.environ.get("FLAGSHIP_ALLOW_DEV_TOKENS", "false").lower() == "true"\<close>.\<close>

definition dev_tokens_allowed :: "admission_lib \<Rightarrow> environ \<Rightarrow> bool" where
  "dev_tokens_allowed A env \<longleftrightarrow> ad_lower A (env_or env (lit ''FLAGSHIP_ALLOW_DEV_TOKENS'') (lit ''false'')) = lit ''true''"

definition run_preflight_command :: "ops_lib \<Rightarrow> environ \<Rightarrow> pystr \<Rightarrow> json res" where
  "run_preflight_command L env url =
     (case run_preflight url (env_or env (lit ''FLAGSHIP_OIDC_ISSUER'') []) (env_or env (lit ''FLAGSHIP_OIDC_AUDIENCE'') [])
         (env_or env (lit ''FLAGSHIP_OIDC_JWKS_URL'') []) (env_or env (lit ''FLAGSHIP_BACKUP_KEY_BASE64'') [])
         (dev_tokens_allowed (op_admission L) env) (op_catalogue L url) of
        Inl (PreflightError message) \<Rightarrow> Inr (JObj [(lit ''valid'', JBool False), (lit ''error'', JStr message)])
      | r \<Rightarrow> r)"

fun execute :: "ops_lib \<Rightarrow> environ \<Rightarrow> command \<Rightarrow> world \<Rightarrow> json res \<times> world" where
  "execute L env (Admission_verify file release_sha max_age_hours) w =
     (verify_admission (op_env L) (op_admission L) file release_sha max_age_hours, w)"
| "execute L env cmd w =
     (case env_value env (lit ''FLAGSHIP_DATABASE_URL'') of
        None \<Rightarrow> (Inl (SystemExit (lit ''FLAGSHIP_DATABASE_URL is required'')), w)
      | Some url \<Rightarrow>
          (case cmd of
             Preflight_run \<Rightarrow> (run_preflight_command L env url, w)
           | Backup_create backup_id retention_days \<Rightarrow> run_backup_create L env url backup_id retention_days w
           | Backup_restore file target \<Rightarrow> run_backup_restore L env file target w
           | Dlq_list \<Rightarrow> run_dlq_list L url w
           | Dlq_replay i \<Rightarrow> run_dlq_replay L url i w
           | Admission_verify _ _ _ \<Rightarrow> (Inl TypeError, w)))"

section \<open>The exit\<close>

text \<open>
  How \<^verbatim>\<open>main\<close> ends: with the printed result, with status 2 after printing an invalid one, or with an
  exception.  \<open>record\<close> is \<^verbatim>\<open>record_operation\<close> where a metrics directory is set; an exception of its own only
  surfaces if the operation raised none.
\<close>

datatype outcome = Printed json | Exit_two json | Raised py_error

definition result_valid :: "json \<Rightarrow> bool" where
  "result_valid v = (case v of
     JObj kvs \<Rightarrow> (case map_of kvs (lit ''valid'') of None \<Rightarrow> True | Some x \<Rightarrow> truthy x) | _ \<Rightarrow> True)"

definition operations_main ::
  "ops_lib \<Rightarrow> environ \<Rightarrow> (bool \<Rightarrow> unit res) option \<Rightarrow> command \<Rightarrow> world \<Rightarrow> outcome \<times> world" where
  "operations_main L env record cmd w = (case execute L env cmd w of
     (Inl e, w') \<Rightarrow> (Raised e, w')
   | (Inr result, w') \<Rightarrow>
       (case (case record of None \<Rightarrow> Inr () | Some f \<Rightarrow> f (result_valid result)) of
          Inl e \<Rightarrow> Raised e
        | Inr _ \<Rightarrow> if result_valid result then Printed result else Exit_two result, w'))"

section \<open>Metrics of operations\<close>

text \<open>The clock's seconds, read from and written to texts.\<close>

record 'f seconds =
  sc_parse :: "pystr \<Rightarrow> 'f res"
  sc_text :: "'f \<Rightarrow> pystr"

definition operation_token :: "pystr \<Rightarrow> bool" where
  "operation_token s \<longleftrightarrow> (case s of [] \<Rightarrow> False
     | c # cs \<Rightarrow> 97 \<le> c \<and> c \<le> 122 \<and> length cs \<le> 62
         \<and> list_all (\<lambda>c. 97 \<le> c \<and> c \<le> 122 \<or> 48 \<le> c \<and> c \<le> 57 \<or> c = 95) cs)"

definition labelled :: "string \<Rightarrow> pystr \<Rightarrow> pystr" where
  "labelled metric operation = lit metric @ lit ''{operation='' @ [34] @ operation @ [34] @ lit ''} ''"

text \<open>The number in the first line of the previous text that has the label of the last success.\<close>

definition numeral_text :: "pystr \<Rightarrow> bool" where
  "numeral_text s \<longleftrightarrow> s \<noteq> [] \<and> list_all (\<lambda>c. 48 \<le> c \<and> c \<le> 57 \<or> c = 46) s"

definition success_prefix :: "pystr \<Rightarrow> pystr" where
  "success_prefix operation = labelled ''flagship_operation_last_success_timestamp_seconds'' operation"

definition previous_success :: "pystr \<Rightarrow> pystr \<Rightarrow> pystr option" where
  "previous_success operation previous =
     map_option (drop (length (success_prefix operation)))
       (find (\<lambda>line. py_startswith line (success_prefix operation) \<and> numeral_text (drop (length (success_prefix operation)) line))
         (py_split 10 previous))"

definition operation_lines :: "'f seconds \<Rightarrow> pystr \<Rightarrow> bool \<Rightarrow> 'f \<Rightarrow> 'f option \<Rightarrow> pystr list" where
  "operation_lines S operation success timestamp last_success =
     [lit ''# HELP flagship_operation_success Whether the latest operation succeeded.'',
      lit ''# TYPE flagship_operation_success gauge'',
      labelled ''flagship_operation_success'' operation @ (if success then lit ''1'' else lit ''0''),
      lit ''# HELP flagship_operation_last_run_timestamp_seconds Unix time of the latest operation attempt.'',
      lit ''# TYPE flagship_operation_last_run_timestamp_seconds gauge'',
      labelled ''flagship_operation_last_run_timestamp_seconds'' operation @ sc_text S timestamp]
     @ (case last_success of None \<Rightarrow> [] | Some t \<Rightarrow>
         [lit ''# HELP flagship_operation_last_success_timestamp_seconds Unix time of the latest successful operation.'',
          lit ''# TYPE flagship_operation_last_success_timestamp_seconds gauge'',
          success_prefix operation @ sc_text S t])"

text \<open>The text that replaces the file's previous one, which is empty if there was no file.\<close>

definition record_operation :: "'f seconds \<Rightarrow> pystr \<Rightarrow> bool \<Rightarrow> 'f \<Rightarrow> pystr \<Rightarrow> pystr res" where
  "record_operation S operation success timestamp previous =
     bind_res (raise_if (\<not> operation_token operation)
        (ValueError (lit ''operation must be a bounded Prometheus label token''))) (\<lambda>_.
     bind_res (if success then Inr (Some timestamp)
        else case previous_success operation previous of
          None \<Rightarrow> Inr None | Some t \<Rightarrow> bind_res (sc_parse S t) (\<lambda>t. Inr (Some t))) (\<lambda>last_success.
       Inr (py_join [10] (operation_lines S operation success timestamp last_success) @ [10])))"

section \<open>A backup and its restoration as commands\<close>

lemma put_plain:
  assumes "written E deadline fs" "plain_text key" "put_immutable E deadline key data n fs = (Inr s, fs')"
  shows "plain_stored s"
proof -
  have e: "env_law E" "\<And>n. plain_text (deadline n)" and r: "(store_step E)\<^sup>*\<^sup>* [] fs"
    using assms(1) by (simp_all add: written_def)
  have "tree_ok fs" "versions_ok E fs" using stores_keep [OF r e(1)] by simp_all
  then show ?thesis
    by (rule put_holds [OF assms(3) e(1) _ _ assms(2) e(2)]) (simp add: holds_object_def describes_def)
qed

lemma restore_metadata_read:
  assumes "plain_stored s" "map_of (wd_files w) (path_of file) = Some (utf8 (pdump (indented quote_ascii) 0 (stored_dict s)))"
  shows "read_restore_metadata E file w = Inr s"
proof -
  have j: "wf_json E (stored_dict s)" "json_texts plain_text (stored_dict s)" for E
    using assms(1) by (simp_all add: stored_dict_def plain_stored_def)
  have "stored_of_json (stored_dict s) = Inr s"
    by (auto simp: stored_of_json_def stored_dict_def)
  then show ?thesis
    using assms(2) plain_pdump(4) [OF j] loads_pdump [OF layouts_ok(5) j, of "[]"]
    by (simp add: read_restore_metadata_def loads_file_def utf8_decode_utf8)
qed

lemma create_command:
  assumes "execute L env (Backup_create backup_id n) w = (Inr r, w1)"
  obtains url key result st where "env_value env (lit ''FLAGSHIP_DATABASE_URL'') = Some url" "encryption_key env = Inr key"
    "backup_create (op_env L) (op_backup L) (op_dialect L url) (op_clock L) (op_nonce L) key
       (put_immutable (op_env L) (op_deadline L)) n backup_id (wd_dbs w url) (wd_stores w (store_dir env)) = (Inr result, st)"
    "wd_dbs w1 = wd_dbs w" "wd_stores w1 (store_dir env) = st"
    "map_of (wd_files w1) (restore_metadata_path (store_dir env) backup_id)
      = Some (utf8 (pdump (indented quote_ascii) 0 (stored_dict (bk_stored result))))"
  using assms
  by (auto simp: run_backup_create_def Let_def map_of_dict_put split: option.splits sum.splits prod.splits)

lemma encryption_key_length: "encryption_key env = Inr key \<Longrightarrow> length key = 32"
  by (auto simp: encryption_key_def bind_res_Inr raise_if_Inr split: option.splits)

text \<open>
  C30: The operator's drill.  If \<^verbatim>\<open>backup-create\<close> ends well for a database with intact trails, then
  \<^verbatim>\<open>backup-restore\<close> with the metadata file that it wrote, under the same environment, puts the rows of
  that database into any target, prints a valid report and exits with success; or the object store held
  other bytes with the digest of the backup in its place.
\<close>

theorem backup_drill:
  assumes "execute L env (Backup_create backup_id n) w = (Inr r, w1)"
    and "env_value env (lit ''FLAGSHIP_DATABASE_URL'') = Some url" and "encryption_key env = Inr key"
    and "path_of file = restore_metadata_path (store_dir env) backup_id"
    and "written (op_env L) (op_deadline L) (wd_stores w (store_dir env))" and "aes_law (op_backup L)"
    and "length (op_nonce L) = 12" and "list_all is_byte (op_nonce L)"
    and "constraints_ok (wd_dbs w url)" and "audit_ok (op_env L) (wd_dbs w url)" and "plain_text backup_id"
    and "json_texts plain_text (backup_payload (op_clock L 0) backup_id (by_primary_key (wd_dbs w url)))"
  shows "(\<exists>report. operations_main L env None (Backup_restore file target) w1
        = (Printed report, w1\<lparr>wd_dbs := (wd_dbs w)(target := by_primary_key (wd_dbs w url))\<rparr>)
      \<and> jget (lit ''valid'') report = Inr (JBool True))
    \<or> (\<exists>stored. sha_collision (op_env L) (wd_stores w (store_dir env)) stored
        (backup_object (op_env L) (op_backup L) (op_nonce L) key (op_clock L 0) backup_id (by_primary_key (wd_dbs w url))))"
proof -
  let ?d = "by_primary_key (wd_dbs w url)"
  from assms(1) obtain result st where c: "backup_create (op_env L) (op_backup L) (op_dialect L url) (op_clock L) (op_nonce L) key
       (put_immutable (op_env L) (op_deadline L)) n backup_id (wd_dbs w url) (wd_stores w (store_dir env)) = (Inr result, st)"
    "wd_dbs w1 = wd_dbs w" "wd_stores w1 (store_dir env) = st"
    "map_of (wd_files w1) (path_of file) = Some (utf8 (pdump (indented quote_ascii) 0 (stored_dict (bk_stored result))))"
    by (rule create_command) (use assms(2-4) in auto)
  have e: "env_law (op_env L)" using assms(5) by (simp add: written_def)
  have k: "plain_text (backup_object_key backup_id)" using assms(11) by (simp add: backup_object_key_def)
  note put = create_puts [OF c(1)]
  have m: "read_restore_metadata (op_env L) file w1 = Inr (bk_stored result)"
    by (rule restore_metadata_read [OF put_plain [OF assms(5) k put] c(4)])
  have d: "constraints_ok ?d" "audit_ok (op_env L) ?d"
    using assms(9,10) by (simp_all add: constraints_sorted audit_ok_sorted)
  have "store_later (op_env L) st st" by (simp add: store_later_def)
  from local_store.get_put [OF assms(5) k put this] show ?thesis
  proof
    assume "get_object (op_env L) st (so_key (bk_stored result)) (Some (so_version_id (bk_stored result))) =
      Inr (backup_object (op_env L) (op_backup L) (op_nonce L) key (op_clock L 0) backup_id ?d)"
    then obtain report where report: "backup_restore (op_env L) (op_backup L) (op_dialect L target) key (get_object (op_env L)) st
        (bk_stored result) (wd_dbs w target) = (Inr report, ?d)" "jget (lit ''valid'') report = Inr (JBool True)"
      by (rule restore_sealed [OF assms(6) e encryption_key_length [OF assms(3)] assms(7,8,12) d])
    then have "result_valid report"
      by (auto simp: result_valid_def jget_Inr)
    with report m c(2,3) assms(2,3) show ?thesis
      by (simp add: operations_main_def run_backup_restore_def)
  qed blast
qed

text \<open>A database is backed up and restored as another one.\<close>

definition demo_ops :: ops_lib where
  "demo_ops = \<lparr>op_env = demo_env, op_backup = demo_backup_lib, op_admission = demo_admission_lib, op_catalogue = (\<lambda>_. demo_pg),
     op_dialect = (\<lambda>_. Sqlite), op_deadline = demo_deadline, op_clock = demo_clock, op_nonce = replicate 12 7,
     op_write = (\<lambda>_. Inr ())\<rparr>"

definition demo_environ :: environ where
  "demo_environ = map_of [(lit ''FLAGSHIP_DATABASE_URL'', lit ''sqlite:///a''),
     (lit ''FLAGSHIP_BACKUP_KEY_BASE64'', replicate 43 65 @ [61])]"

definition demo_world :: world where
  "demo_world = \<lparr>wd_dbs = (\<lambda>_. empty_db)(lit ''sqlite:///a'' := demo_backup_db), wd_stores = (\<lambda>_. []), wd_files = []\<rparr>"

lemma backup_drill_witness:
  "\<exists>r w1 report. execute demo_ops demo_environ (Backup_create (lit ''nightly'') 30) demo_world = (Inr r, w1)
    \<and> operations_main demo_ops demo_environ None
        (Backup_restore (lit ''work/operations-store/backup-nightly.restore.json'') (lit ''sqlite:///b'')) w1
      = (Printed report, w1\<lparr>wd_dbs := (wd_dbs demo_world)(lit ''sqlite:///b'' := by_primary_key demo_backup_db)\<rparr>)"
proof -
  have env: "env_value demo_environ (lit ''FLAGSHIP_DATABASE_URL'') = Some (lit ''sqlite:///a'')"
    "encryption_key demo_environ = Inr (replicate 32 0)" by code_simp+
  have path: "path_of (lit ''work/operations-store/backup-nightly.restore.json'') = restore_metadata_path (store_dir demo_environ) (lit ''nightly'')"
    by code_simp
  have k: "safe_key (backup_object_key (lit ''nightly'')) = Inr (backup_object_key (lit ''nightly''))" by code_simp
  have "\<exists>result st. backup_create demo_env demo_backup_lib Sqlite demo_clock (replicate 12 7) (replicate 32 0)
      (put_immutable demo_env demo_deadline) 30 (lit ''nightly'') demo_backup_db [] = (Inr result, st)"
    by (simp add: backup_create_def connect_unscoped query_tx_def put_immutable_def k Let_def blocked_def is_dir_def)
  then obtain result st where c: "backup_create demo_env demo_backup_lib Sqlite demo_clock (replicate 12 7) (replicate 32 0)
      (put_immutable demo_env demo_deadline) 30 (lit ''nightly'') demo_backup_db [] = (Inr result, st)" by blast
  then have x: "\<exists>r w1. execute demo_ops demo_environ (Backup_create (lit ''nightly'') 30) demo_world = (Inr r, w1)"
    by (simp add: run_backup_create_def env) (simp add: demo_ops_def demo_world_def Let_def)
  then obtain r w1 where x: "execute demo_ops demo_environ (Backup_create (lit ''nightly'') 30) demo_world = (Inr r, w1)" by blast
  have "written demo_env demo_deadline []" by (simp add: written_def demo_deadline_plain)
  with backup_drill [OF x env path, of "lit ''sqlite:///b''"] demo_backup_db_ok demo_backup_plain show ?thesis
    using x by (auto simp: demo_ops_def demo_world_def sha_collision_def is_byte_def list_all_iff)
qed

section \<open>The last success\<close>

text \<open>What is required of the texts of seconds: they are numerals on one line, and reading one back writes the same.\<close>

definition seconds_law :: "'f seconds \<Rightarrow> bool" where
  "seconds_law S \<longleftrightarrow> (\<forall>t. numeral_text (sc_text S t) \<and> (\<exists>u. sc_parse S (sc_text S t) = Inr u \<and> sc_text S u = sc_text S t))"

lemma written_lines:
  assumes "seconds_law S" "operation_token operation"
  shows "py_split 10 (py_join [10] (operation_lines S operation success t last_success) @ [10])
    = operation_lines S operation success t last_success @ [[]]"
proof -
  let ?ls = "operation_lines S operation success t last_success"
  have "numeral_text (sc_text S t)" for t using assms(1) by (simp add: seconds_law_def)
  then have n: "10 \<notin> set (sc_text S t)" for t by (fastforce simp: numeral_text_def list_all_iff)
  have o: "10 \<notin> set operation"
    using assms(2) by (auto simp: operation_token_def list_all_iff split: list.splits)
  have "\<forall>l \<in> set (?ls @ [[]]). 10 \<notin> set l"
    using n o by (auto simp: operation_lines_def success_prefix_def labelled_def split: option.splits) (auto simp: lit_def)
  from py_split_join [OF _ this]
  have "py_split 10 (py_join [10] (?ls @ [[]])) = ?ls @ [[]]" by simp
  moreover have "py_join [10] (xs @ [[]]) = py_join [10] xs @ [10]" if "xs \<noteq> []" for xs
    using that by (induction xs) (auto simp: py_join_Cons)
  moreover have "?ls \<noteq> []" by (simp add: operation_lines_def)
  ultimately show ?thesis by simp
qed

lemma success_written:
  assumes "seconds_law S" "operation_token operation"
  shows "previous_success operation (py_join [10] (operation_lines S operation success t last_success) @ [10])
    = map_option (sc_text S) last_success"
proof -
  have n: "numeral_text (sc_text S t)" for t using assms(1) by (simp add: seconds_law_def)
  have p: "py_startswith (p @ x) p" for p x by (simp add: py_startswith_def)
  have c: "\<not> py_startswith (35 # x) (success_prefix operation)" for x
    by (simp add: py_startswith_def success_prefix_def labelled_def lit_def)
  have h: "\<exists>y. lit (CHR ''#'' # x) = 35 # y" for x by (simp add: lit_def)
  have "\<not> py_startswith (labelled ''flagship_operation_success'' operation @ x) (success_prefix operation)"
    "\<not> py_startswith (labelled ''flagship_operation_last_run_timestamp_seconds'' operation @ x) (success_prefix operation)" for x
    by (simp_all add: py_startswith_def success_prefix_def labelled_def lit_def)
  moreover have "\<not> py_startswith [] (success_prefix operation)"
    by (simp add: py_startswith_def success_prefix_def labelled_def lit_def)
  moreover have "\<not> py_startswith (lit (CHR ''#'' # x)) (success_prefix operation)" for x
    using h [of x] c by auto
  ultimately show ?thesis
    unfolding previous_success_def written_lines [OF assms]
    by (simp add: operation_lines_def n p split: option.splits)
qed

text \<open>Failing runs, one after the other.\<close>

definition failing_runs :: "'f seconds \<Rightarrow> pystr \<Rightarrow> 'f list \<Rightarrow> pystr \<Rightarrow> pystr res" where
  "failing_runs S operation ts text = foldl (\<lambda>r t. bind_res r (record_operation S operation False t)) (Inr text) ts"

lemma failing_run:
  assumes "seconds_law S" "operation_token operation" "previous_success operation text = Some (sc_text S t)"
  shows "\<exists>text'. record_operation S operation False t' text = Inr text' \<and> previous_success operation text' = Some (sc_text S t)"
proof -
  from assms(1) obtain u where u: "sc_parse S (sc_text S t) = Inr u" "sc_text S u = sc_text S t"
    unfolding seconds_law_def by blast
  with assms(2,3) success_written [OF assms(1,2), of False t' "Some u"] show ?thesis
    by (simp add: record_operation_def raise_if_def)
qed

text \<open>
  C31: The time of the last success survives failures.  After a successful run and any number of failing
  ones, each of which reads the text that the run before wrote, the text still gives the time of the
  success, so that the age of the last good backup is not forgotten.
\<close>

theorem last_success_kept:
  assumes "seconds_law S" and "record_operation S operation True t previous = Inr text"
  shows "\<exists>text'. failing_runs S operation ts text = Inr text' \<and> previous_success operation text' = Some (sc_text S t)"
proof -
  from assms(2) have o: "operation_token operation"
    and "text = py_join [10] (operation_lines S operation True t (Some t)) @ [10]"
    by (auto simp: record_operation_def bind_res_Inr raise_if_Inr)
  then have p: "previous_success operation text = Some (sc_text S t)"
    using success_written [OF assms(1) o, of True t "Some t"] by simp
  then show ?thesis
  proof (induction ts rule: rev_induct)
    case (snoc t' ts)
    then obtain text1 where "failing_runs S operation ts text = Inr text1" "previous_success operation text1 = Some (sc_text S t)"
      by blast
    with failing_run [OF assms(1) o, of text1 t t'] show ?case by (simp add: failing_runs_def)
  qed (simp add: failing_runs_def)
qed

definition demo_seconds :: "int seconds" where
  "demo_seconds = \<lparr>sc_parse = (\<lambda>s. Inr (int (length s) - 1)), sc_text = (\<lambda>i. replicate (Suc (nat i)) 49)\<rparr>"

lemma last_success_kept_witness:
  "\<exists>text text'. record_operation demo_seconds (lit ''backup_create'') True 5 [] = Inr text
    \<and> failing_runs demo_seconds (lit ''backup_create'') [7, 8] text = Inr text'
    \<and> previous_success (lit ''backup_create'') text' = Some (replicate 6 49)"
proof -
  have law: "seconds_law demo_seconds"
    by (auto simp: seconds_law_def demo_seconds_def numeral_text_def list_all_iff)
  have "operation_token (lit ''backup_create'')" by code_simp
  then have "\<exists>text. record_operation demo_seconds (lit ''backup_create'') True 5 [] = Inr text"
    by (simp add: record_operation_def raise_if_def)
  then obtain s1 where "record_operation demo_seconds (lit ''backup_create'') True 5 [] = Inr s1" by blast
  with last_success_kept [OF law this, of "[7, 8]"] show ?thesis by (auto simp: demo_seconds_def eval_nat_numeral)
qed

end
