(* ===== verification/Tax_Generator.thy ===== *)
theory Tax_Generator
  imports Tax_Flow Py_Time
begin

text \<open>
  \<^verbatim>\<open>generate_transactions\<close> of \<^verbatim>\<open>taxflow.py\<close>: the invoices of demonstrations and benchmarks.  What the random
  generator draws for a row is a value of \<open>draw\<close>; the anomaly that a draw plans is then exactly what
  the default rules find in the row.
\<close>

section \<open>Texts of dates and numbers\<close>

text \<open>\<^verbatim>\<open>date(y, m, 1) + timedelta(days=n)\<close>.\<close>

lemma days_in_month_pos: "0 < days_in_month y m"
  by (simp add: days_in_month_def)

function month_after :: "int \<Rightarrow> int \<Rightarrow> int \<Rightarrow> int \<times> int \<times> int" where
  "month_after y m n =
     (if n < days_in_month y m then (y, m, n + 1)
      else if m = 12 then month_after (y + 1) 1 (n - 31) else month_after y (m + 1) (n - days_in_month y m))"
  by pat_completeness auto
termination
  by (relation "measure (\<lambda>(y, m, n). nat n)") (auto simp: days_in_month_def split: if_splits)

declare month_after.simps [simp del]

text \<open>\<^verbatim>\<open>f"{i:0kd}"\<close> of a number that is not negative.\<close>

definition zero_padded :: "nat \<Rightarrow> int \<Rightarrow> pystr" where
  "zero_padded k i = replicate (k - length (str_of_int i)) 48 @ str_of_int i"

definition invoice_day :: "int \<Rightarrow> pystr" where
  "invoice_day days = (case month_after 2026 1 days of (y, m, d) \<Rightarrow>
     zero_padded 4 y @ [45] @ zero_padded 2 m @ [45] @ zero_padded 2 d)"

section \<open>The generator\<close>

datatype anomaly = Missing_tax_id | Tax_mismatch | Duplicate | Extreme_amount

text \<open>
  The draws of a row: the text of the amount, the rate, the numbers of the seller and of the buyer, the
  day, and the anomaly if the row is to have one.
\<close>

record draw =
  dr_amount :: pystr
  dr_rate :: decimal
  dr_seller :: int
  dr_buyer :: int
  dr_day :: int
  dr_anomaly :: "anomaly option"

definition demo_rates :: "decimal list" where
  "demo_rates = [Dec 0 0, Dec 3 (-2), Dec 6 (-2), Dec 9 (-2), Dec 13 (-2)]"

definition dec_add :: "decimal \<Rightarrow> decimal \<Rightarrow> decimal" where
  "dec_add a b = (let e = min (expo a) (expo b) in dec_fix (Dec (rescale e a + rescale e b) e))"

definition clean_transaction :: "int \<Rightarrow> draw \<Rightarrow> tax_transaction res" where
  "clean_transaction i d = bind_res (money (CStr (dr_amount d))) (\<lambda>amount.
     bind_res (money (CDec (dec_mul amount (dr_rate d)))) (\<lambda>tax_amount.
       make_tax_transaction (lit ''INV-'' @ zero_padded 9 i) (Some (lit ''SELLER-'' @ zero_padded 5 (dr_seller d)))
         (Some (lit ''BUYER-'' @ zero_padded 5 (dr_buyer d))) (invoice_day (dr_day d)) (CDec amount) (CDec (dr_rate d))
         (CDec tax_amount) (lit ''CNY'')))"

text \<open>\<^verbatim>\<open>TaxTransaction(**values)\<close> of values that were a transaction's.\<close>

definition remade :: "tax_transaction \<Rightarrow> tax_transaction res" where
  "remade x = make_tax_transaction (tt_invoice_id x) (tt_seller_tax_id x) (tt_buyer_tax_id x) (tt_invoice_date x)
     (CDec (tt_amount x)) (CDec (tt_tax_rate x)) (CDec (tt_tax_amount x)) (tt_currency x)"

definition extreme :: "tax_transaction \<Rightarrow> tax_transaction res" where
  "extreme x = bind_res (money (CStr (lit ''9500000''))) (\<lambda>a. bind_res (money (CStr (lit ''1235000''))) (\<lambda>t.
     remade (x\<lparr>tt_amount := a, tt_tax_amount := t\<rparr>)))"

definition anomalous :: "tax_transaction list \<Rightarrow> anomaly \<Rightarrow> tax_transaction \<Rightarrow> tax_transaction res" where
  "anomalous before a x = (case a of
     Missing_tax_id \<Rightarrow> remade (x\<lparr>tt_seller_tax_id := None\<rparr>)
   | Tax_mismatch \<Rightarrow> bind_res (money (CDec (dec_add (tt_tax_amount x) (Dec 1731 (-2))))) (\<lambda>t. remade (x\<lparr>tt_tax_amount := t\<rparr>))
   | Duplicate \<Rightarrow> if before \<noteq> [] then remade (x\<lparr>tt_invoice_id := tt_invoice_id (last before)\<rparr>) else extreme x
   | Extreme_amount \<Rightarrow> extreme x)"

definition generate_row :: "int \<Rightarrow> draw \<Rightarrow> tax_transaction list \<Rightarrow> tax_transaction res" where
  "generate_row i d before = bind_res (clean_transaction i d) (\<lambda>x.
     case dr_anomaly d of None \<Rightarrow> Inr x | Some a \<Rightarrow> anomalous before a x)"

fun generate_from :: "int \<Rightarrow> draw list \<Rightarrow> tax_transaction list \<Rightarrow> tax_transaction list res" where
  "generate_from i [] before = Inr before"
| "generate_from i (d # ds) before = bind_res (generate_row i d before) (\<lambda>x. generate_from (i + 1) ds (before @ [x]))"

definition generate_transactions :: "draw list \<Rightarrow> tax_transaction list res" where
  "generate_transactions draws = generate_from 0 draws []"

section \<open>Prices\<close>

text \<open>A transaction with an amount of \<open>u\<close> and a tax of \<open>t\<close> ten-thousandths, at \<open>p\<close> percent.\<close>

definition priced :: "tax_transaction \<Rightarrow> int \<Rightarrow> int \<Rightarrow> int \<Rightarrow> bool" where
  "priced x u p t \<longleftrightarrow> tt_amount x = Dec u (-4) \<and> tt_tax_rate x = Dec (p * 10 ^ 4) (-6) \<and> tt_tax_amount x = Dec t (-4)
     \<and> \<bar>u\<bar> < 10 ^ 11 \<and> \<bar>p\<bar> < 100 \<and> \<bar>t\<bar> < 10 ^ 12"

lemma quantize_units: "\<bar>u\<bar> < 10 ^ 28 \<Longrightarrow> quantize_half_up e (Dec u e) = Inr (Dec u e)"
  using num_digits_bound [of u 28] by (simp add: quantize_half_up_def dec_prec_def)

lemma money_units: "\<bar>u\<bar> < 10 ^ 28 \<Longrightarrow> money (CDec (Dec u (-4))) = Inr (Dec u (-4))"
  by (simp add: money_def dec_parse_str quantize_units)

lemma remade_priced: "priced x u p t \<Longrightarrow> remade x = Inr x"
proof -
  assume x: "priced x u p t"
  then have "\<bar>p\<bar> < 100" "\<bar>u\<bar> < 10 ^ 28" "\<bar>t\<bar> < 10 ^ 28" by (simp_all add: priced_def)
  moreover from this have "\<bar>p * 10 ^ 4\<bar> < 10 ^ 28" by (simp add: abs_mult)
  ultimately have "rate (CDec (Dec (p * 10 ^ 4) (-6))) = Inr (Dec (p * 10 ^ 4) (-6))"
    "money (CDec (Dec u (-4))) = Inr (Dec u (-4))" "money (CDec (Dec t (-4))) = Inr (Dec t (-4))"
    using quantize_units [of "p * 10 ^ 4" "-6"] by (simp_all only: rate_def cell_decimal.simps minus_minus dec_parse_str bind_res_simps money_units)
  with x show ?thesis by (simp add: remade_def priced_def make_tax_transaction_def)
qed

lemma rate_cases:
  assumes "r \<in> set demo_rates"
  obtains p where "r = Dec p (-2) \<or> r = Dec 0 0 \<and> p = 0" "0 \<le> p" "p \<le> 13" "r = Dec 13 (-2) \<longleftrightarrow> p = 13"
  using assms by (auto simp: demo_rates_def)

text \<open>The draws of the source: amounts from 50 to 100000 and one of the five rates.\<close>

definition amount_units :: "draw \<Rightarrow> int" where
  "amount_units d = (case dec_parse (dr_amount d) of Inr (Dec u e) \<Rightarrow> u | _ \<Rightarrow> 0)"

definition draw_ok :: "draw \<Rightarrow> bool" where
  "draw_ok d \<longleftrightarrow> (\<exists>u. dec_parse (dr_amount d) = Inr (Dec u (-4)) \<and> 50 * 10 ^ 4 \<le> u \<and> u \<le> 100000 * 10 ^ 4)
     \<and> dr_rate d \<in> set demo_rates"

lemma tax_bound: "0 \<le> u \<Longrightarrow> u \<le> 10 ^ 9 \<Longrightarrow> 0 \<le> p \<Longrightarrow> p \<le> 13 \<Longrightarrow> \<bar>div_half_up (u * p) 100\<bar> < 10 ^ 11"
proof -
  assume "0 \<le> u" "u \<le> 10 ^ 9" "0 \<le> p" "p \<le> 13"
  then have "0 \<le> u * p" "u * p \<le> 10 ^ 9 * 13" by (simp, intro mult_mono) auto
  moreover have "2 * \<bar>div_half_up (u * p) 100 * 100 - u * p\<bar> \<le> 100" by (rule div_half_up_error(1)) simp
  ultimately show ?thesis by simp
qed

lemma clean_priced:
  assumes "draw_ok d"
  obtains x u p where "clean_transaction i d = Inr x" "priced x u p (div_half_up (u * p) 100)" "u < 5 * 10 ^ 10"
    "\<bar>div_half_up (u * p) 100\<bar> < 10 ^ 11"
    "0 \<le> p" "p \<le> 13" "dr_rate d = Dec 13 (-2) \<longleftrightarrow> p = 13" "tt_invoice_id x = lit ''INV-'' @ zero_padded 9 i"
    "\<not> tax_id_missing (tt_seller_tax_id x)" "\<not> tax_id_missing (tt_buyer_tax_id x)"
proof -
  from assms obtain u where u: "dec_parse (dr_amount d) = Inr (Dec u (-4))" "50 * 10 ^ 4 \<le> u" "u \<le> 10 ^ 9"
    and r: "dr_rate d \<in> set demo_rates" by (auto simp: draw_ok_def)
  from r obtain p where p: "dr_rate d = Dec p (-2) \<or> dr_rate d = Dec 0 0 \<and> p = 0" "0 \<le> p" "p \<le> 13"
    "dr_rate d = Dec 13 (-2) \<longleftrightarrow> p = 13" by (rule rate_cases)
  have up: "0 \<le> u * p" "u * p \<le> 10 ^ 9 * 13" using u p by (simp, intro mult_mono) auto
  have t: "\<bar>div_half_up (u * p) 100\<bar> < 10 ^ 11" using tax_bound u p by simp
  have m: "money (CStr (dr_amount d)) = Inr (Dec u (-4))"
    using u by (simp add: money_def quantize_units)
  have x: "money (CDec (dec_mul (Dec u (-4)) (dr_rate d))) = Inr (Dec (div_half_up (u * p) 100) (-4))"
    using p(1)
  proof
    assume "dr_rate d = Dec p (-2)"
    moreover have "num_digits (div_half_up (u * p) 100) \<le> 28" using num_digits_bound [of "div_half_up (u * p) 100" 28] t by simp
    ultimately show ?thesis
      using up by (simp add: money_def dec_parse_str dec_mul_exact quantize_half_up_def dec_prec_def)
  next
    assume "dr_rate d = Dec 0 0 \<and> p = 0"
    then show ?thesis by (simp add: money_def dec_parse_str dec_mul_exact quantize_units div_half_up_def)
  qed
  have n: "num_digits (p * 10000) \<le> 28" using num_digits_bound [of "p * 10000" 28] p by simp
  have y: "rate (CDec (dr_rate d)) = Inr (Dec (p * 10 ^ 4) (-6))"
    using p(1) n by (auto simp: rate_def dec_parse_str quantize_half_up_def dec_prec_def)
  show ?thesis
    by (rule that [of "\<lparr>tt_invoice_id = lit ''INV-'' @ zero_padded 9 i, tt_seller_tax_id = Some (lit ''SELLER-'' @ zero_padded 5 (dr_seller d)),
        tt_buyer_tax_id = Some (lit ''BUYER-'' @ zero_padded 5 (dr_buyer d)), tt_invoice_date = invoice_day (dr_day d),
        tt_amount = Dec u (-4), tt_tax_rate = Dec (p * 10 ^ 4) (-6), tt_tax_amount = Dec (div_half_up (u * p) 100) (-4),
        tt_currency = lit ''CNY''\<rparr>" u p])
      (use u p t in \<open>simp_all add: clean_transaction_def m x y make_tax_transaction_def money_units priced_def tax_id_missing_def\<close>)
qed

section \<open>What the rules find in a generated row\<close>

lemma cents_off: "1 / 100 < \<bar>of_int c / 100 - of_int t / 10 ^ 4 :: rat\<bar> \<longleftrightarrow> 100 < \<bar>100 * c - t\<bar>" for c t :: int
proof -
  have "of_int c / 100 - of_int t / 10 ^ 4 = (of_int (100 * c - t) / 10000 :: rat)" by (simp add: field_simps)
  then have "\<bar>of_int c / 100 - of_int t / 10 ^ 4 :: rat\<bar> = of_int \<bar>100 * c - t\<bar> / 10000" by (simp only: abs_divide of_int_abs abs_numeral)
  moreover have "1 / 100 < (of_int m / 10000 :: rat) \<longleftrightarrow> 100 < m" for m
  proof -
    have "1 / 100 < (of_int m / 10000 :: rat) \<longleftrightarrow> of_int 100 < (of_int m :: rat)" by (simp add: field_simps)
    then show ?thesis by (simp only: of_int_less_iff)
  qed
  ultimately show ?thesis by (simp only:)
qed

lemma off_priced:
  assumes "priced x u p t"
  shows "tax_off (transaction_row E tenant now i x) \<longleftrightarrow> 100 < \<bar>100 * div_half_up (u * p * 10 ^ 4) (10 ^ 8) - t\<bar>"
proof -
  let ?c = "div_half_up (u * p * 10 ^ 4) (10 ^ 8)"
  have c: "expected_cents (transaction_row E tenant now i x) = ?c"
    using assms by (simp add: expected_cents_def transaction_row_def priced_def mult.assoc)
  have t: "tx_tax_amount (transaction_row E tenant now i x) = Dec t (-4)"
    using assms by (simp add: transaction_row_def priced_def)
  have v: "dec_val (Dec c (-2)) = of_int c / 100" "dec_val (Dec t (-4)) = of_int t / 10 ^ 4" for c t
    by (simp_all add: dec_val_def power_int_minus field_simps)
  show ?thesis unfolding tax_off_def c t v by (rule cents_off)
qed

text \<open>The codes found in a row, but for the one that depends on the other rows.\<close>

definition own_violations :: "tax_transaction_row \<Rightarrow> pystr list" where
  "own_violations r = filter (\<lambda>c. c \<noteq> lit ''DUPLICATE_INVOICE'') (violations [] r)"

lemma own_violations_eq: "own_violations r =
    (if tax_id_missing (tx_seller_tax_id r) \<or> tax_id_missing (tx_buyer_tax_id r) then [lit ''TAX_ID_REQUIRED''] else [])
    @ (if tax_off r then [lit ''VAT_RECALC''] else []) @ (if 5000000 \<le> dec_val (tx_amount r) then [lit ''EXTREME_AMOUNT''] else [])"
  by (simp add: own_violations_def violations_def lit_def)

lemma own_violations_priced:
  assumes "priced x u p t"
  shows "own_violations (transaction_row E tenant now i x) =
    (if tax_id_missing (tt_seller_tax_id x) \<or> tax_id_missing (tt_buyer_tax_id x) then [lit ''TAX_ID_REQUIRED''] else [])
    @ (if 100 < \<bar>100 * div_half_up (u * p * 10 ^ 4) (10 ^ 8) - t\<bar> then [lit ''VAT_RECALC''] else [])
    @ (if 5 * 10 ^ 10 \<le> u then [lit ''EXTREME_AMOUNT''] else [])"
proof -
  have "5000000 \<le> dec_val (Dec u (-4)) \<longleftrightarrow> (of_int (5 * 10 ^ 10) :: rat) \<le> of_int u"
    by (simp add: dec_val_def power_int_minus field_simps)
  then show ?thesis
    using assms off_priced [OF assms, of E tenant now i] unfolding own_violations_eq
    by (simp add: transaction_row_def priced_def del: of_int_mult of_int_numeral of_int_power)
qed

lemma cents_near: "\<bar>100 * div_half_up (u * p * 10 ^ 4) (10 ^ 8) - div_half_up (u * p) 100\<bar> \<le> 100" for u p :: int
proof -
  have "2 * \<bar>div_half_up (u * p * 10 ^ 4) (10 ^ 8) * 10 ^ 8 - u * p * 10 ^ 4\<bar> \<le> 10 ^ 8" by (rule div_half_up_error(1)) simp
  moreover have "2 * \<bar>div_half_up (u * p) 100 * 100 - u * p\<bar> \<le> 100" by (rule div_half_up_error(1)) simp
  ultimately show ?thesis by simp
qed

lemma extreme_cents: "div_half_up (95000000000 * p * 10 ^ 4) (10 ^ 8) = 9500000 * p"
proof -
  have "2 * \<bar>div_half_up (95000000000 * p * 10 ^ 4) (10 ^ 8) * 10 ^ 8 - 95000000000 * p * 10 ^ 4\<bar> \<le> 10 ^ 8"
    by (rule div_half_up_error(1)) simp
  then show ?thesis by simp
qed

text \<open>What a draw plans: the codes of its anomaly; the first row has no predecessor to duplicate.\<close>

definition extreme_codes :: "draw \<Rightarrow> pystr list" where
  "extreme_codes d = (if dr_rate d = Dec 13 (-2) then [] else [lit ''VAT_RECALC'']) @ [lit ''EXTREME_AMOUNT'']"

definition planned :: "bool \<Rightarrow> draw \<Rightarrow> pystr list" where
  "planned first d = (case dr_anomaly d of
     None \<Rightarrow> []
   | Some Missing_tax_id \<Rightarrow> [lit ''TAX_ID_REQUIRED'']
   | Some Tax_mismatch \<Rightarrow> [lit ''VAT_RECALC'']
   | Some Duplicate \<Rightarrow> if first then extreme_codes d else []
   | Some Extreme_amount \<Rightarrow> extreme_codes d)"

definition planned_id :: "int \<Rightarrow> draw \<Rightarrow> tax_transaction list \<Rightarrow> pystr" where
  "planned_id i d before = (if dr_anomaly d = Some Duplicate \<and> before \<noteq> [] then tt_invoice_id (last before)
     else lit ''INV-'' @ zero_padded 9 i)"

definition as_planned :: "pyenv \<Rightarrow> int \<Rightarrow> draw \<Rightarrow> tax_transaction list \<Rightarrow> tax_transaction \<Rightarrow> bool" where
  "as_planned E i d before x \<longleftrightarrow> tt_invoice_id x = planned_id i d before
     \<and> (\<forall>tenant now k. row_scaled (transaction_row E tenant now k x)
          \<and> own_violations (transaction_row E tenant now k x) = planned (before = []) d)"

lemma priced_scaled: "priced x u p t \<Longrightarrow> row_scaled (transaction_row E tenant now k x)"
  by (simp add: priced_def row_scaled_def transaction_row_def abs_mult)

lemma as_planned_priced:
  assumes "priced x u p t" and "tt_invoice_id x = planned_id i d before"
    and "planned (before = []) d =
      (if tax_id_missing (tt_seller_tax_id x) \<or> tax_id_missing (tt_buyer_tax_id x) then [lit ''TAX_ID_REQUIRED''] else [])
      @ (if 100 < \<bar>100 * div_half_up (u * p * 10 ^ 4) (10 ^ 8) - t\<bar> then [lit ''VAT_RECALC''] else [])
      @ (if 5 * 10 ^ 10 \<le> u then [lit ''EXTREME_AMOUNT''] else [])"
  shows "as_planned E i d before x"
  using assms by (simp add: as_planned_def priced_scaled own_violations_priced)

lemma extreme_priced:
  assumes "priced x u p t"
  shows "extreme x = Inr (x\<lparr>tt_amount := Dec 95000000000 (-4), tt_tax_amount := Dec 12350000000 (-4)\<rparr>)"
    and "priced (x\<lparr>tt_amount := Dec 95000000000 (-4), tt_tax_amount := Dec 12350000000 (-4)\<rparr>) 95000000000 p 12350000000"
proof -
  have m: "money (CStr (lit ''9500000'')) = Inr (Dec 95000000000 (-4))" "money (CStr (lit ''1235000'')) = Inr (Dec 12350000000 (-4))"
    by code_simp+
  show p: "priced (x\<lparr>tt_amount := Dec 95000000000 (-4), tt_tax_amount := Dec 12350000000 (-4)\<rparr>) 95000000000 p 12350000000"
    using assms by (simp add: priced_def)
  show "extreme x = Inr (x\<lparr>tt_amount := Dec 95000000000 (-4), tt_tax_amount := Dec 12350000000 (-4)\<rparr>)"
    using remade_priced [OF p] by (simp add: extreme_def m)
qed

lemma extreme_as_planned:
  assumes "priced x u p t" and "tt_invoice_id x = lit ''INV-'' @ zero_padded 9 i"
    and "\<not> tax_id_missing (tt_seller_tax_id x)" "\<not> tax_id_missing (tt_buyer_tax_id x)" "dr_rate d = Dec 13 (-2) \<longleftrightarrow> p = 13"
    and "dr_anomaly d = Some Extreme_amount \<or> dr_anomaly d = Some Duplicate \<and> before = []"
  shows "\<exists>y. extreme x = Inr y \<and> as_planned E i d before y"
proof -
  let ?y = "x\<lparr>tt_amount := Dec 95000000000 (-4), tt_tax_amount := Dec 12350000000 (-4)\<rparr>"
  have c: "100 < \<bar>100 * (9500000 * p) - 12350000000\<bar> \<longleftrightarrow> p \<noteq> 13" by linarith
  have "planned (before = []) d = extreme_codes d" using assms(6) by (auto simp: planned_def)
  then have "as_planned E i d before ?y"
    using assms by (intro as_planned_priced [OF extreme_priced(2) [OF assms(1)]], unfold extreme_cents c)
      (auto simp: planned_id_def extreme_codes_def)
  with extreme_priced(1) [OF assms(1)] show ?thesis by blast
qed

lemma mismatch_sum:
  "\<bar>t\<bar> < 10 ^ 11 \<Longrightarrow> money (CDec (dec_add (Dec t (-4)) (Dec 1731 (-2)))) = Inr (Dec (t + 173100) (-4))"
proof -
  assume t: "\<bar>t\<bar> < 10 ^ 11"
  then have "\<bar>t + 173100\<bar> < 10 ^ 28" by simp
  moreover from this have "num_digits (t + 173100) \<le> dec_prec" using num_digits_bound [of "t + 173100" 28] by (simp add: dec_prec_def)
  ultimately show ?thesis by (simp add: dec_add_def rescale_def dec_fix_exact money_units)
qed

lemma generate_row_planned:
  assumes "draw_ok d"
  shows "\<exists>x. generate_row i d before = Inr x \<and> as_planned E i d before x"
proof -
  from clean_priced [OF assms, of i] obtain x u p where x: "clean_transaction i d = Inr x" "priced x u p (div_half_up (u * p) 100)"
    "u < 5 * 10 ^ 10" "\<bar>div_half_up (u * p) 100\<bar> < 10 ^ 11" "dr_rate d = Dec 13 (-2) \<longleftrightarrow> p = 13" "tt_invoice_id x = lit ''INV-'' @ zero_padded 9 i"
    "\<not> tax_id_missing (tt_seller_tax_id x)" "\<not> tax_id_missing (tt_buyer_tax_id x)" by blast
  note near = cents_near [of u p] x(3)
  consider "dr_anomaly d = None" | "dr_anomaly d = Some Missing_tax_id" | "dr_anomaly d = Some Tax_mismatch"
    | "dr_anomaly d = Some Duplicate" "before \<noteq> []"
    | "dr_anomaly d = Some Extreme_amount \<or> dr_anomaly d = Some Duplicate \<and> before = []"
    by (metis anomaly.exhaust option.exhaust)
  then show ?thesis
  proof cases
    case 1
    have "as_planned E i d before x"
      using near by (intro as_planned_priced [OF x(2)]) (simp_all add: x 1 planned_id_def planned_def)
    with 1 show ?thesis by (simp add: generate_row_def x(1))
  next
    case 2
    have p: "priced (x\<lparr>tt_seller_tax_id := None\<rparr>) u p (div_half_up (u * p) 100)" using x(2) by (simp add: priced_def)
    have "as_planned E i d before (x\<lparr>tt_seller_tax_id := None\<rparr>)"
      using near by (intro as_planned_priced [OF p]) (simp_all add: x 2 planned_id_def planned_def tax_id_missing_def)
    with 2 show ?thesis by (simp add: generate_row_def x(1) anomalous_def remade_priced [OF p])
  next
    case 3
    let ?y = "x\<lparr>tt_tax_amount := Dec (div_half_up (u * p) 100 + 173100) (-4)\<rparr>"
    have p: "priced ?y u p (div_half_up (u * p) 100 + 173100)" using x(2,4) by (simp add: priced_def)
    have t: "tt_tax_amount x = Dec (div_half_up (u * p) 100) (-4)" using x(2) by (simp add: priced_def)
    have "as_planned E i d before ?y"
      using near by (intro as_planned_priced [OF p]) (simp_all add: x 3 planned_id_def planned_def)
    with 3 show ?thesis by (simp add: generate_row_def x(1) anomalous_def t mismatch_sum [OF x(4)] remade_priced [OF p])
  next
    case 4
    let ?y = "x\<lparr>tt_invoice_id := tt_invoice_id (last before)\<rparr>"
    have p: "priced ?y u p (div_half_up (u * p) 100)" using x(2) by (simp add: priced_def)
    have "as_planned E i d before ?y"
      using near by (intro as_planned_priced [OF p]) (simp_all add: x 4 planned_id_def planned_def)
    with 4 show ?thesis by (simp add: generate_row_def x(1) anomalous_def remade_priced [OF p])
  next
    case 5
    from extreme_as_planned [OF x(2,6,7,8,5) 5] show ?thesis
      using 5 by (auto simp: generate_row_def x(1) anomalous_def)
  qed
qed

lemma generate_from_append: "generate_from i (ds @ [d]) before =
    bind_res (generate_from i ds before) (\<lambda>xs. bind_res (generate_row (i + int (length ds)) d xs) (\<lambda>x. Inr (xs @ [x])))"
proof (induction ds arbitrary: i before)
  case (Cons a ds)
  then show ?case by (cases "generate_row i a before") (simp_all add: algebra_simps)
qed simp

text \<open>
  C36: Generated invoices carry the anomalies that were planned, and no others.  For draws in the ranges of
  the source the generator returns one row per draw.  Stored for any tenant, a row violates apart from
  the duplicate rule exactly the rules of its draw's anomaly; and its number is its own, or that of
  the row before where a duplicate was planned.
\<close>

theorem generated_as_planned:
  assumes "\<forall>d \<in> set draws. draw_ok d"
  shows "\<exists>xs. generate_transactions draws = Inr xs \<and> length xs = length draws
    \<and> (\<forall>k < length draws. as_planned E (int k) (draws ! k) (take k xs) (xs ! k))"
  using assms unfolding generate_transactions_def
proof (induction draws rule: rev_induct)
  case (snoc d ds)
  then obtain xs where xs: "generate_from 0 ds [] = Inr xs" "length xs = length ds"
    "\<forall>k < length ds. as_planned E (int k) (ds ! k) (take k xs) (xs ! k)" by auto
  moreover obtain x where "generate_row (int (length ds)) d xs = Inr x" "as_planned E (int (length ds)) d xs x"
    using generate_row_planned [of d "int (length ds)" xs E] snoc.prems by auto
  ultimately show ?case by (auto simp: generate_from_append nth_append less_Suc_eq)
qed simp

definition demo_draw :: "anomaly option \<Rightarrow> draw" where
  "demo_draw a = \<lparr>dr_amount = lit ''1234.5678'', dr_rate = Dec 6 (-2), dr_seller = 17, dr_buyer = 4, dr_day = 59, dr_anomaly = a\<rparr>"

lemma generated_as_planned_witness:
  "\<exists>xs. generate_transactions [demo_draw None, demo_draw (Some Duplicate), demo_draw (Some Tax_mismatch)] = Inr xs
    \<and> tt_invoice_id (xs ! 1) = lit ''INV-000000000''
    \<and> own_violations (transaction_row demo_env [] [] 3 (xs ! 2)) = [lit ''VAT_RECALC'']"
proof -
  let ?ds = "[demo_draw None, demo_draw (Some Duplicate), demo_draw (Some Tax_mismatch)]"
  have "dec_parse (lit ''1234.5678'') = Inr (Dec 12345678 (-4))" by code_simp
  then have "\<forall>d \<in> set ?ds. draw_ok d" by (simp add: demo_draw_def draw_ok_def demo_rates_def)
  from generated_as_planned [OF this, of demo_env] obtain xs where xs: "generate_transactions ?ds = Inr xs" "length xs = 3"
    "\<forall>k < 3. as_planned demo_env (int k) (?ds ! k) (take k xs) (xs ! k)" by auto
  have z: "zero_padded 9 0 = lit ''000000000''" by code_simp
  obtain a b c where abc: "xs = [a, b, c]"
    using xs(2) by (metis (no_types) length_0_conv length_Suc_conv numeral_3_eq_3)
  from xs(3) have "as_planned demo_env 0 (?ds ! 0) [] a" "as_planned demo_env 1 (?ds ! 1) [a] b" "as_planned demo_env 2 (?ds ! 2) [a, b] c"
    by (auto simp: abc dest: spec [of _ 0] spec [of _ 1] spec [of _ 2])
  with xs(1) show ?thesis
    by (simp add: abc as_planned_def planned_id_def planned_def demo_draw_def z lit_def)
qed

end
