(* ===== verification/Cli.thy ===== *)
theory Cli
  imports Server Operations Tax_Generator Event_Stream
begin

text \<open>
  \<^verbatim>\<open>cli.py\<close> with the corpus of \<^verbatim>\<open>regintel_eval.py\<close>: how the command \<^verbatim>\<open>api\<close> makes an application of the
  environment, and the commands that demonstrate and measure the services.  The arguments are the parsed ones;
  each operation has clock readings of its own.
\<close>

section \<open>Sequences of operations\<close>

text \<open>Operations on the database, one after the other; the first exception ends them, and what was committed stays.\<close>

definition then_do :: "(db \<Rightarrow> 'a res \<times> db) \<Rightarrow> ('a \<Rightarrow> db \<Rightarrow> 'b res \<times> db) \<Rightarrow> db \<Rightarrow> 'b res \<times> db" where
  "then_do m f d = (case m d of (Inl e, d') \<Rightarrow> (Inl e, d') | (Inr x, d') \<Rightarrow> f x d')"

definition result :: "'a res \<Rightarrow> db \<Rightarrow> 'a res \<times> db" where
  "result r d = (r, d)"

section \<open>The demonstration corpus\<close>

definition demo_documents :: "(pystr \<times> pystr \<times> pystr \<times> pystr) list" where
  "demo_documents =
    [(lit ''vat-calc'', [22686, 20540, 31246, 31246, 39069, 35745, 31639, 28436, 31034, 35268, 21017],
       [19968, 33324, 35745, 31246, 26041, 27861, 19979, 65292, 28436, 31034, 31246, 39069, 25353, 29031, 19981, 21547, 31246, 38144,
       21806, 39069, 20056, 20197, 36866, 29992, 31246, 29575, 35745, 31639, 12290], lit ''2026-01-01''),
     (lit ''invoice-check'', [30005, 23376, 21457, 31080, 20449, 24687, 26680, 39564, 28436, 31034, 35268, 21017],
       [30005, 23376, 21457, 31080, 26680, 39564, 24212, 26816, 26597, 21457, 31080, 21495, 30721, 12289, 24320, 31080, 26085, 26399,
       12289, 38144, 21806, 26041, 31246, 21495, 12289, 36141, 20080, 26041, 31246, 21495, 21644, 20215, 31246, 21512, 35745, 12290], lit ''2026-01-02''),
     (lit ''cit-deduction'', [20225, 19994, 25152, 24471, 31246, 36153, 29992, 25187, 38500, 28436, 31034, 35268, 21017],
       [20225, 19994, 25152, 24471, 31246, 28436, 31034, 22330, 26223, 20013, 65292, 36153, 29992, 25187, 38500, 38656, 35201, 30495,
       23454, 19994, 21153, 12289, 21512, 35268, 20973, 35777, 24182, 19982, 29983, 20135, 32463, 33829, 30456, 20851, 12290], lit ''2026-01-03''),
     (lit ''iit-special'', [20010, 20154, 25152, 24471, 31246, 19987, 39033, 38468, 21152, 25187, 38500, 28436, 31034, 35268, 21017],
       [20010, 20154, 25152, 24471, 31246, 28436, 31034, 22330, 26223, 21253, 25324, 23376, 22899, 25945, 32946, 12289, 32487, 32493,
       25945, 32946, 12289, 20303, 25151, 36151, 27454, 21033, 24687, 21644, 36193, 20859, 32769, 20154, 31561, 19987, 39033, 38468,
       21152, 25187, 38500, 12290], lit ''2026-01-04''),
     (lit ''export-refund'', [20986, 21475, 36864, 31246, 21333, 35777, 28436, 31034, 35268, 21017],
       [20986, 21475, 36864, 31246, 28436, 31034, 27969, 31243, 38656, 35201, 21305, 37197, 25253, 20851, 21333, 12289, 20986, 21475,
       21457, 31080, 12289, 25910, 27719, 20449, 24687, 21644, 30003, 25253, 25209, 27425, 12290], lit ''2026-01-05''),
     (lit ''transfer-price'', [36716, 35753, 23450, 20215, 21516, 26399, 36164, 26009, 28436, 31034, 35268, 21017],
       [20851, 32852, 20132, 26131, 36798, 21040, 28436, 31034, 38408, 20540, 26102, 65292, 24212, 20934, 22791, 20027, 20307, 25991,
       26723, 12289, 26412, 22320, 25991, 26723, 25110, 29305, 27530, 20107, 39033, 25991, 26723, 24182, 35828, 26126, 23450, 20215,
       26041, 27861, 12290], lit ''2026-01-06''),
     (lit ''social-insurance'', [31038, 20250, 20445, 38505, 32564, 36153, 22522, 25968, 28436, 31034, 35268, 21017],
       [31038, 20250, 20445, 38505, 28436, 31034, 26680, 39564, 27604, 36739, 21592, 24037, 24037, 36164, 25968, 25454, 12289, 32564,
       36153, 22522, 25968, 19978, 19979, 38480, 21644, 23454, 38469, 30003, 25253, 35760, 24405, 12290], lit ''2026-01-07''),
     (lit ''tax-calendar'', [31246, 21153, 30003, 25253, 26085, 21382, 28436, 31034, 35268, 21017],
       [31246, 21153, 30003, 25253, 26085, 21382, 35760, 24405, 31246, 31181, 12289, 25152, 23646, 26399, 12289, 30003, 25253, 25130,
       27490, 26085, 26399, 12289, 36131, 20219, 20154, 21644, 23436, 25104, 29366, 24577, 12290], lit ''2026-01-08'')]"

definition demo_question :: "pystr \<Rightarrow> string \<Rightarrow> reg_case" where
  "demo_question query key = \<lparr>rc_query = query, rc_relevant_keys = [lit key]\<rparr>"

definition demo_cases :: "reg_case list" where
  "demo_cases =
    [demo_question [22686, 20540, 31246, 22914, 20309, 26681, 25454, 38144, 21806, 39069, 31639, 31246, 39069] ''vat-calc'',
     demo_question [26680, 23545, 30005, 23376, 31080, 38656, 35201, 26816, 26597, 21738, 20123, 23383, 27573] ''invoice-check'',
     demo_question [20225, 19994, 25152, 24471, 31246, 36153, 29992, 31246, 21069, 25187, 38500, 20973, 35777] ''cit-deduction'',
     demo_question [20303, 25151, 36151, 27454, 21033, 24687, 23646, 20110, 20160, 20040, 20010, 31246, 25187, 38500] ''iit-special'',
     demo_question [20986, 21475, 36864, 31246, 35201, 21305, 37197, 25253, 20851, 21333, 21527] ''export-refund'',
     demo_question [20851, 32852, 20132, 26131, 21516, 26399, 36164, 26009, 26412, 22320, 25991, 26723] ''transfer-price'',
     demo_question [31038, 20445, 32564, 36153, 22522, 25968, 22914, 20309, 26680, 39564] ''social-insurance'',
     demo_question [30003, 25253, 25130, 27490, 26085, 26399, 21644, 36131, 20219, 20154, 22312, 21738, 37324, 31649, 29702] ''tax-calendar'',
     demo_question [20215, 31246, 21512, 35745, 21644, 36141, 20080, 26041, 31246, 21495, 26680, 39564] ''invoice-check'',
     demo_question [36193, 20859, 32769, 20154, 19987, 39033, 38468, 21152, 25187, 38500] ''iit-special'',
     demo_question [20027, 20307, 25991, 26723, 19982, 23450, 20215, 26041, 27861] ''transfer-price'',
     demo_question [30003, 25253, 25152, 23646, 26399, 23436, 25104, 29366, 24577] ''tax-calendar'']"

text \<open>The sentence that every document ends with.\<close>

definition disclaimer :: pystr where
  "disclaimer =
    [32, 26412, 26448, 26009, 20026, 21512, 25104, 28436, 31034, 25991, 26412, 65292, 19981, 26500, 25104, 31246, 21153,
     24314, 35758, 12290]"

fun load_documents ::
  "pyenv \<Rightarrow> dialect \<Rightarrow> (nat \<Rightarrow> clock) \<Rightarrow> pystr \<Rightarrow> (pystr \<times> pystr \<times> pystr \<times> pystr) list \<Rightarrow> db \<Rightarrow> unit res \<times> db" where
  "load_documents E dl clk tenant [] = result (Inr ())"
| "load_documents E dl clk tenant ((key, title, content, published) # docs) =
     then_do (add_document E dl (clk 0) tenant key title (lit ''https://example.invalid/'' @ key) published (content @ disclaimer))
       (\<lambda>_. load_documents E dl (\<lambda>i. clk (Suc i)) tenant docs)"

definition load_demo_corpus :: "pyenv \<Rightarrow> dialect \<Rightarrow> (nat \<Rightarrow> clock) \<Rightarrow> pystr \<Rightarrow> db \<Rightarrow> unit res \<times> db" where
  "load_demo_corpus E dl clk tenant = load_documents E dl clk tenant demo_documents"

definition reg_eval ::
  "pyenv \<Rightarrow> dialect \<Rightarrow> ('f::linorder) reg_lib \<Rightarrow> (nat \<Rightarrow> clock) \<Rightarrow> int \<Rightarrow> db \<Rightarrow> 'f reg_report res \<times> db" where
  "reg_eval E dl R clk k = then_do (load_demo_corpus E dl clk own_tenant) (\<lambda>_ d. (evaluate E dl R own_tenant demo_cases k d, d))"

section \<open>Starting the interface\<close>

text \<open>Whether a variable has a value that is not empty.\<close>

definition set_in :: "environ \<Rightarrow> string \<Rightarrow> bool" where
  "set_in env name \<longleftrightarrow> env_or env (lit name) [] \<noteq> []"

definition oidc_variables :: "string list" where
  "oidc_variables = [''FLAGSHIP_OIDC_ISSUER'', ''FLAGSHIP_OIDC_AUDIENCE'', ''FLAGSHIP_OIDC_JWKS_URL'']"

definition placeholder_secret :: pystr where
  "placeholder_secret = lit ''development-token-endpoint-disabled-000''"

text \<open>The verifier, if one is configured, with the secret; \<open>keys\<close> makes a key set of its URL.\<close>

definition start_verifier ::
  "(pystr \<Rightarrow> pystr \<Rightarrow> pystr res) \<Rightarrow> environ \<Rightarrow> (oidc_verifier option \<times> pystr) res" where
  "start_verifier keys env =
     (let secret = env_or env (lit ''FLAGSHIP_JWT_SECRET'') []; issuer = env_or env (lit ''FLAGSHIP_OIDC_ISSUER'') [];
          audience = env_or env (lit ''FLAGSHIP_OIDC_AUDIENCE'') []; url = env_or env (lit ''FLAGSHIP_OIDC_JWKS_URL'') [] in
      if list_ex (set_in env) oidc_variables then
        bind_res (raise_if (\<not> list_all (set_in env) oidc_variables) (SystemExit
          (lit ''FLAGSHIP_OIDC_ISSUER, FLAGSHIP_OIDC_AUDIENCE and FLAGSHIP_OIDC_JWKS_URL are required together''))) (\<lambda>_.
        bind_res (make_oidc_verifier issuer audience url (keys url) [lit ''RS256'', lit ''ES256'']) (\<lambda>v.
          Inr (Some v, if secret \<noteq> [] then secret else placeholder_secret)))
      else bind_res (raise_if (secret = []) (SystemExit (lit ''Configure OIDC/JWKS or FLAGSHIP_JWT_SECRET (development only)''))) (\<lambda>_.
        Inr (None, secret)))"

text \<open>The private key with the store and the signer that it brings along.\<close>

definition start_key ::
  "evidence_lib \<Rightarrow> 's store_put \<times> 's store_get \<Rightarrow> (pystr \<Rightarrow> bytes res) \<Rightarrow> environ
     \<Rightarrow> (bytes option \<times> ('s store_put \<times> 's store_get) option \<times> evidence_signer option) res" where
  "start_key L store read_file env =
     bind_res (if set_in env ''FLAGSHIP_EVIDENCE_PRIVATE_KEY_FILE''
       then bind_res (read_file (env_or env (lit ''FLAGSHIP_EVIDENCE_PRIVATE_KEY_FILE'') [])) (\<lambda>pem. Inr (Some pem)) else Inr None) (\<lambda>pem.
     case pem of
       Some (b # bs) \<Rightarrow> bind_res (make_ed25519_signer L (b # bs) (env_or env (lit ''FLAGSHIP_EVIDENCE_KEY_ID'') (lit ''local-ed25519-v1''))) (\<lambda>signer.
         Inr (pem, Some store, Some signer))
     | _ \<Rightarrow> Inr (pem, None, None))"

text \<open>What is started: the application, the database's URL, whether its schema is created, and the store's root.\<close>

record ('f, 's) started =
  st_app :: "('f, 's) app"
  st_database :: pystr
  st_initialize :: bool
  st_store_root :: pystr

definition start_api ::
  "'f libs \<Rightarrow> (pystr \<Rightarrow> dialect) \<Rightarrow> (pystr \<Rightarrow> pystr \<Rightarrow> pystr res) \<Rightarrow> 's store_put \<times> 's store_get \<Rightarrow> (pystr \<Rightarrow> bytes res) \<Rightarrow> environ
     \<Rightarrow> pystr \<Rightarrow> bool \<Rightarrow> ('f, 's) started res" where
  "start_api L dialect_of keys store read_file env db_path allow_dev_tokens =
     bind_res (start_verifier keys env) (\<lambda>(verifier, secret).
     bind_res (start_key (lb_evidence L) store read_file env) (\<lambda>(pem, object_store, signer).
     bind_res (json_int (JStr (env_or env (lit ''FLAGSHIP_EVIDENCE_RETENTION_DAYS'') (lit ''2555'')))) (\<lambda>retention.
     let url = env_or env (lit ''FLAGSHIP_DATABASE_URL'') db_path in
     bind_res (create_app L (dialect_of url) secret allow_dev_tokens (env (lit ''FLAGSHIP_EVIDENCE_SIGNING_SECRET''))
        (map_option (oidc_verify (lb_env L) (lb_jwt L)) verifier) pem object_store signer retention) (\<lambda>app.
       Inr \<lparr>st_app = app, st_database = url, st_initialize = (env (lit ''FLAGSHIP_DATABASE_URL'') = None),
         st_store_root = env_or env (lit ''FLAGSHIP_EVIDENCE_STORE'') (lit ''work/object-store'')\<rparr>))))"

section \<open>The demonstration\<close>

definition vat_title :: pystr where
  "vat_title = [22686, 20540, 31246, 28436, 31034, 35268, 21017]"

definition vat_content :: pystr where
  "vat_content =
    [26412, 28436, 31034, 26448, 26009, 35268, 23450, 65306, 21457, 31080, 31246, 39069, 24212, 24403, 20381, 25454, 19981,
     21547, 31246, 37329, 39069, 21644, 36866, 29992, 31246, 29575, 35745, 31639, 12290, 26448, 26009, 20165, 29992, 20110,
     36719, 20214, 27979, 35797, 65292, 19981, 26500, 25104, 31246, 21153, 24314, 35758, 12290]"

definition vat_question :: pystr where
  "vat_question = [21457, 31080, 31246, 39069, 22914, 20309, 35745, 31639]"

definition cli_event :: control_event where
  "cli_event = \<lparr>ev_event_id = lit ''EVT-1'', ev_event_type = lit ''DEPLOYMENT'', ev_actor = lit ''admin'',
     ev_resource = lit ''production'', ev_occurred_at = lit ''2026-08-11T23:30:00+08:00'', ev_approved = False, ev_privileged = True,
     ev_outcome = lit ''SUCCESS'', ev_payload = JObj [(lit ''change_id'', JNull)]\<rparr>"

definition cli_entities :: "entity list" where
  "cli_entities = map (\<lambda>(i, ty). \<lparr>en_entity_id = lit i, en_entity_type = lit ty, en_attributes = JObj []\<rparr>)
     [(''ORG-A'', ''ORGANIZATION''), (''ORG-B'', ''ORGANIZATION''), (''ORG-C'', ''ORGANIZATION''), (''ACC-1'', ''BANK_ACCOUNT'')]"

definition cli_edges :: "edge list" where
  "cli_edges = map (\<lambda>(a, b, r, n, t). \<lparr>eg_source_id = lit a, eg_target_id = lit b, eg_relation = lit r, eg_amount = CInt n,
       eg_occurred_at = lit t, eg_evidence = JObj []\<rparr>)
     [(''ORG-A'', ''ACC-1'', ''OWNS_ACCOUNT'', 0, ''2026-08-01''), (''ORG-B'', ''ACC-1'', ''OWNS_ACCOUNT'', 0, ''2026-08-01''),
      (''ORG-A'', ''ORG-B'', ''PAYS'', 1000, ''2026-08-01''), (''ORG-B'', ''ORG-C'', ''PAYS'', 1000, ''2026-08-02''),
      (''ORG-C'', ''ORG-A'', ''PAYS'', 1000, ''2026-08-03'')]"

record 'f demo_report =
  dm_taxflow :: json
  dm_regintel :: "'f reg_answer"
  dm_controlpulse :: "case_report list"
  dm_riskgraph :: "graph_finding list"
  dm_valid :: bool
  dm_events :: int

text \<open>\<open>draws\<close> are what the random generator draws for the 500 invoices.\<close>

definition demo ::
  "pyenv \<Rightarrow> dialect \<Rightarrow> ('f::linorder) reg_lib \<Rightarrow> (nat \<Rightarrow> clock) \<Rightarrow> pystr \<Rightarrow> pystr \<Rightarrow> draw list \<Rightarrow> db \<Rightarrow> 'f demo_report res \<times> db" where
  "demo E dl R clk uid run_id draws =
     then_do (result (generate_transactions draws)) (\<lambda>rows.
     then_do (ingest E dl (clk 0) uid own_tenant rows None) (\<lambda>_.
     then_do (run_rules E dl (clk 1) run_id own_tenant None None None) (\<lambda>tax.
     then_do (add_document E dl (clk 2) own_tenant (lit ''demo-vat-001'') vat_title (lit ''https://example.invalid/vat'')
        (lit ''2026-01-01'') vat_content) (\<lambda>_.
     then_do (\<lambda>d. (answer E dl R own_tenant vat_question (fl_dec R 12 (-2)) d, d)) (\<lambda>reg.
     then_do (ingest_and_evaluate E dl (clk 3) own_tenant cli_event) (\<lambda>control.
     then_do (add_entities E dl (clk 4) own_tenant cli_entities) (\<lambda>_.
     then_do (add_edges E dl (clk 5) own_tenant cli_edges) (\<lambda>_.
     then_do (investigate E dl own_tenant) (\<lambda>graph.
     then_do (audit_report E dl) (\<lambda>(valid, events, broken).
     result (Inr \<lparr>dm_taxflow = tax, dm_regintel = reg, dm_controlpulse = control, dm_riskgraph = graph,
       dm_valid = valid, dm_events = events\<rparr>)))))))))))"

section \<open>The benchmark\<close>

text \<open>Floating point arithmetic on the readings of \<^verbatim>\<open>perf_counter\<close>; \<open>tm_least\<close> is the literal \<^verbatim>\<open>1e-9\<close>.\<close>

record 'g timing =
  tm_int :: "int \<Rightarrow> 'g"
  tm_sub :: "'g \<Rightarrow> 'g \<Rightarrow> 'g"
  tm_div :: "'g \<Rightarrow> 'g \<Rightarrow> 'g"
  tm_max :: "'g \<Rightarrow> 'g \<Rightarrow> 'g"
  tm_round :: "'g \<Rightarrow> int \<Rightarrow> 'g"
  tm_least :: 'g

record 'g bench_report =
  bn_result :: json
  bn_generate_seconds :: 'g
  bn_ingest_seconds :: 'g
  bn_rule_seconds :: 'g
  bn_rows_per_second :: 'g

text \<open>The database file must not exist, so that the run starts with an empty one; \<open>now\<close> are the four readings.\<close>

definition benchmark ::
  "pyenv \<Rightarrow> dialect \<Rightarrow> 'g timing \<Rightarrow> (nat \<Rightarrow> 'g) \<Rightarrow> (nat \<Rightarrow> clock) \<Rightarrow> pystr \<Rightarrow> pystr \<Rightarrow> bool \<Rightarrow> pystr \<Rightarrow> int \<Rightarrow> draw list
     \<Rightarrow> 'g bench_report res \<times> db" where
  "benchmark E dl T now clk uid run_id path_exists path rows draws =
     then_do (result (raise_if path_exists (SystemExit (lit ''Refusing to overwrite existing benchmark database: '' @ path)))) (\<lambda>_.
     then_do (result (generate_transactions draws)) (\<lambda>xs.
     then_do (ingest E dl (clk 0) uid own_tenant xs None) (\<lambda>_.
     then_do (run_rules E dl (clk 1) run_id own_tenant None None None) (\<lambda>tax.
     result (Inr \<lparr>bn_result = tax, bn_generate_seconds = tm_round T (tm_sub T (now 1) (now 0)) 4,
       bn_ingest_seconds = tm_round T (tm_sub T (now 2) (now 1)) 4, bn_rule_seconds = tm_round T (tm_sub T (now 3) (now 2)) 4,
       bn_rows_per_second = tm_round T (tm_div T (tm_int T rows) (tm_max T (tm_sub T (now 3) (now 0)) (tm_least T))) 2\<rparr>))))) empty_db"

section \<open>The demonstration of the stream\<close>

definition stream_events :: "control_event list" where
  "stream_events =
     [\<lparr>ev_event_id = lit ''STREAM-1'', ev_event_type = lit ''DEPLOYMENT'', ev_actor = lit ''release-bot'', ev_resource = lit ''production'',
        ev_occurred_at = lit ''2026-08-11T23:00:00+08:00'', ev_approved = False, ev_privileged = True, ev_outcome = lit ''SUCCESS'',
        ev_payload = JObj []\<rparr>,
      \<lparr>ev_event_id = lit ''STREAM-2'', ev_event_type = lit ''BACKUP'', ev_actor = lit ''backup-agent'', ev_resource = lit ''erp-db'',
        ev_occurred_at = lit ''2026-08-12T02:00:00+08:00'', ev_approved = True, ev_privileged = True, ev_outcome = lit ''FAILED'',
        ev_payload = JObj []\<rparr>,
      \<lparr>ev_event_id = lit ''STREAM-3'', ev_event_type = lit ''LOGIN'', ev_actor = lit ''former-user'', ev_resource = lit ''finance'',
        ev_occurred_at = lit ''2026-08-12T10:00:00+08:00'', ev_approved = False, ev_privileged = False, ev_outcome = lit ''SUCCESS'',
        ev_payload = JObj [(lit ''account_status'', JStr (lit ''DISABLED''))]\<rparr>]"

definition stamped :: "(nat \<Rightarrow> pystr) \<Rightarrow> (pystr \<times> control_event) list" where
  "stamped ts = zip (map ts [0..<3]) stream_events"

record stream_report =
  sr_process :: process_report
  sr_verification :: "bool \<times> int \<times> json"
  sr_open_cases :: int

text \<open>
  The files are the stream and the checkpoint.  An exception between two records keeps the lines that were
  appended, which the result then does not show.
\<close>

definition stream_demo ::
  "pyenv \<Rightarrow> dialect \<Rightarrow> (nat \<Rightarrow> pystr) \<Rightarrow> (nat \<Rightarrow> clock) \<Rightarrow> pystr option \<Rightarrow> pystr option \<Rightarrow> db
     \<Rightarrow> (stream_report \<times> pystr option \<times> pystr option) res \<times> db" where
  "stream_demo E dl ts clk file ck =
     then_do (result (stream_appends E (stamped ts) file)) (\<lambda>(records, file').
     then_do (\<lambda>d. case process_available E dl clk own_tenant None file' d ck of (r, d', ck') \<Rightarrow> (bind_res r (\<lambda>x. Inr (x, ck')), d')) (\<lambda>(report, ck').
     then_do (result (stream_verify E file')) (\<lambda>verification.
     then_do (open_cases E dl own_tenant) (\<lambda>cs.
     result (Inr (\<lparr>sr_process = report, sr_verification = verification, sr_open_cases = int (length cs)\<rparr>, file', ck'))))))"

section \<open>What the interface is started with\<close>

lemma set_in_iff: "set_in env name \<longleftrightarrow> (\<exists>v. env (lit name) = Some v \<and> v \<noteq> [])"
  by (auto simp: set_in_def env_or_def split: option.splits)

lemma start_verifier_cases:
  assumes "start_verifier keys env = Inr (verifier, secret)"
  shows "secret = (if set_in env ''FLAGSHIP_JWT_SECRET'' then env_or env (lit ''FLAGSHIP_JWT_SECRET'') [] else placeholder_secret)"
    and "case verifier of
      Some v \<Rightarrow> list_all (set_in env) oidc_variables \<and> make_oidc_verifier (env_or env (lit ''FLAGSHIP_OIDC_ISSUER'') [])
        (env_or env (lit ''FLAGSHIP_OIDC_AUDIENCE'') []) (env_or env (lit ''FLAGSHIP_OIDC_JWKS_URL'') [])
        (keys (env_or env (lit ''FLAGSHIP_OIDC_JWKS_URL'') [])) [lit ''RS256'', lit ''ES256''] = Inr v
    | None \<Rightarrow> \<not> list_ex (set_in env) oidc_variables \<and> set_in env ''FLAGSHIP_JWT_SECRET''"
  using assms by (auto simp: start_verifier_def Let_def bind_res_Inr raise_if_Inr set_in_def split: if_splits)

lemma start_key_managed:
  assumes "start_key L store read_file env = Inr (pem, object_store, signer)"
    and "managed_evidence object_store signer retention = Inr managed"
  shows "managed \<noteq> None \<longleftrightarrow> (\<exists>b bs. pem = Some (b # bs))"
  using assms by (auto simp: start_key_def bind_res_Inr managed_evidence_def check_retention_def raise_if_Inr
      split: if_splits option.splits list.splits prod.splits)

text \<open>
  C39: What the command \<^verbatim>\<open>api\<close> starts.  If it starts, then either all three OIDC variables are set and
  tokens are verified by the OIDC verifier that they make, or none is set and tokens are verified with the
  secret \<^verbatim>\<open>FLAGSHIP_JWT_SECRET\<close>; evidence is kept in the managed store exactly if a private key was read, for at
  least a day; secrets have 32 characters or more.  The secret that signs evidence is the one set for evidence,
  else the one set for tokens, else, with OIDC alone, the placeholder that stands in the source.
\<close>

theorem api_started_as_configured:
  assumes "start_api L dialect_of keys store read_file env db_path allow_dev_tokens = Inr s"
  shows "(case app_token_verifier (st_app s) of
      Some v \<Rightarrow> list_all (set_in env) oidc_variables \<and> app_verifier (st_app s) = v \<and> (\<exists>oidc. v = oidc_verify (lb_env L) (lb_jwt L) oidc
        \<and> make_oidc_verifier (env_or env (lit ''FLAGSHIP_OIDC_ISSUER'') []) (env_or env (lit ''FLAGSHIP_OIDC_AUDIENCE'') [])
            (env_or env (lit ''FLAGSHIP_OIDC_JWKS_URL'') []) (keys (env_or env (lit ''FLAGSHIP_OIDC_JWKS_URL'') []))
            [lit ''RS256'', lit ''ES256''] = Inr oidc)
    | None \<Rightarrow> \<not> list_ex (set_in env) oidc_variables \<and> env (lit ''FLAGSHIP_JWT_SECRET'') = Some (app_jwt_secret (st_app s))
        \<and> app_verifier (st_app s) = hmac_verifier (lb_jwt L) (app_jwt_secret (st_app s)))
    \<and> (app_managed (st_app s) \<noteq> None \<longleftrightarrow> (\<exists>b bs. app_private_pem (st_app s) = Some (b # bs)))
    \<and> (case app_managed (st_app s) of None \<Rightarrow> True | Some (put, get, signer, retention) \<Rightarrow> 1 \<le> retention)
    \<and> 32 \<le> length (app_jwt_secret (st_app s)) \<and> 32 \<le> length (app_signing_secret (st_app s))
    \<and> (app_dev_tokens (st_app s) \<longleftrightarrow> allow_dev_tokens)
    \<and> (st_initialize s \<longleftrightarrow> env (lit ''FLAGSHIP_DATABASE_URL'') = None)
    \<and> app_signing_secret (st_app s) =
        (if set_in env ''FLAGSHIP_EVIDENCE_SIGNING_SECRET'' then env_or env (lit ''FLAGSHIP_EVIDENCE_SIGNING_SECRET'') []
         else if set_in env ''FLAGSHIP_JWT_SECRET'' then env_or env (lit ''FLAGSHIP_JWT_SECRET'') [] else placeholder_secret)"
proof -
  from assms obtain verifier secret pem object_store signer retention app where
    v: "start_verifier keys env = Inr (verifier, secret)"
    and k: "start_key (lb_evidence L) store read_file env = Inr (pem, object_store, signer)"
    and app: "create_app L (dialect_of (env_or env (lit ''FLAGSHIP_DATABASE_URL'') db_path)) secret allow_dev_tokens
        (env (lit ''FLAGSHIP_EVIDENCE_SIGNING_SECRET'')) (map_option (oidc_verify (lb_env L) (lb_jwt L)) verifier) pem object_store
        signer retention = Inr app"
    and s: "st_app s = app" "st_initialize s \<longleftrightarrow> env (lit ''FLAGSHIP_DATABASE_URL'') = None"
    by (fastforce simp: start_api_def Let_def bind_res_Inr)
  define signing where "signing = (case env (lit ''FLAGSHIP_EVIDENCE_SIGNING_SECRET'') of Some (c # cs) \<Rightarrow> c # cs | _ \<Rightarrow> secret)"
  from app obtain managed where m: "managed_evidence object_store signer retention = Inr managed"
    and fields: "app_token_verifier app = map_option (oidc_verify (lb_env L) (lb_jwt L)) verifier" "app_managed app = managed"
      "app_private_pem app = pem" "app_jwt_secret app = secret" "app_signing_secret app = signing" "app_dev_tokens app = allow_dev_tokens"
      "app_verifier app = (case map_option (oidc_verify (lb_env L) (lb_jwt L)) verifier of Some v \<Rightarrow> v | None \<Rightarrow> hmac_verifier (lb_jwt L) secret)"
    and long: "32 \<le> length secret" "32 \<le> length signing"
    by (auto simp: create_app_def Let_def bind_res_Inr raise_if_Inr signing_def [symmetric])
  have retained: "case managed of None \<Rightarrow> True | Some (put, get, signer, retention) \<Rightarrow> 1 \<le> retention"
    using m by (auto simp: managed_evidence_def bind_res_Inr check_retention_def raise_if_Inr split: option.splits prod.splits)
  have signing: "signing = (if set_in env ''FLAGSHIP_EVIDENCE_SIGNING_SECRET'' then env_or env (lit ''FLAGSHIP_EVIDENCE_SIGNING_SECRET'') []
      else secret)"
    by (auto simp: signing_def set_in_def env_or_def split: option.splits list.splits)
  have "env (lit ''FLAGSHIP_JWT_SECRET'') = Some secret" if "verifier = None"
    using start_verifier_cases [OF v] that by (auto simp: set_in_def env_or_def split: option.splits)
  then show ?thesis
    using start_verifier_cases [OF v] start_key_managed [OF k m] long
    by (cases verifier) (simp_all add: s fields retained signing)
qed

section \<open>Runs of the demonstration\<close>

lemma then_do_eq: "then_do m f d = (r, d') \<longleftrightarrow>
    (\<exists>e. m d = (Inl e, d') \<and> r = Inl e) \<or> (\<exists>x d1. m d = (Inr x, d1) \<and> f x d1 = (r, d'))"
  by (auto simp: then_do_def split: prod.splits sum.splits)

definition moves :: "pyenv \<Rightarrow> (db \<Rightarrow> 'a res \<times> db) \<Rightarrow> bool" where
  "moves E m \<longleftrightarrow> (\<forall>d. (tenant_step E own_tenant)\<^sup>*\<^sup>* d (snd (m d)))"

lemma moves_then_do: "moves E m \<Longrightarrow> (\<And>x. moves E (f x)) \<Longrightarrow> moves E (then_do m f)"
  unfolding moves_def
proof (rule allI)
  fix d
  assume m: "\<forall>d. (tenant_step E own_tenant)\<^sup>*\<^sup>* d (snd (m d))" and f: "\<And>x. \<forall>d. (tenant_step E own_tenant)\<^sup>*\<^sup>* d (snd (f x d))"
  obtain r d1 where p: "m d = (r, d1)" by fastforce
  with m have "(tenant_step E own_tenant)\<^sup>*\<^sup>* d d1" by (metis snd_conv)
  with f p show "(tenant_step E own_tenant)\<^sup>*\<^sup>* d (snd (then_do m f d))"
    by (cases r) (auto simp: then_do_def intro: rtranclp_trans)
qed

lemma moves_pure: "moves E (result r)" "moves E (\<lambda>d. (g d, d))"
  by (simp_all add: moves_def result_def)

lemma moves_operations:
  "moves E (ingest E dl ts uid own_tenant rows key)" "moves E (run_rules E dl ts run_id own_tenant version pack key)"
  "moves E (add_document E dl ts own_tenant doc_key title url published content)" "moves E (ingest_and_evaluate E dl ts own_tenant ev)"
  "moves E (add_entities E dl ts own_tenant xs)" "moves E (add_edges E dl ts own_tenant es)"
  by (simp_all add: moves_def service_steps)

lemma moves_queries: "moves E (investigate E dl own_tenant)" "moves E (audit_report E dl)" "moves E (open_cases E dl own_tenant)"
  by (simp_all add: moves_def queries_unchanged)

lemma moves_prod: "(\<And>x y. moves E (f x y)) \<Longrightarrow> moves E (case p of (x, y) \<Rightarrow> f x y)"
  by (cases p) simp

lemmas moves_intros = moves_then_do moves_pure moves_operations moves_queries moves_prod

lemma moves_demo: "moves E (demo E dl R clk uid run_id draws)"
  unfolding demo_def by (intro moves_intros)

text \<open>So does the loading of the corpus.\<close>

lemma moves_corpus: "moves E (load_documents E dl clk own_tenant docs)"
proof (induction docs arbitrary: clk)
  case (Cons x docs)
  obtain key title content published where "x = (key, title, content, published)" by (cases x)
  then show ?case using Cons.IH by (auto intro!: moves_intros)
qed (simp add: moves_pure)

text \<open>
  The demonstration vouches for itself.  Whatever a reachable database holds, whatever is drawn and
  wherever the command stops, it leaves a reachable database with the other tenants' rows unchanged; and if it
  prints its report, the report says that the trail is valid and counts its events.
\<close>

lemma demonstration_verifies:
  assumes "demo E dl R clk uid run_id draws d = (r, d')" and "reachable E d" and "env_law E"
  shows "reachable E d' \<and> (u \<noteq> own_tenant \<longrightarrow> rows_of u d' = rows_of u d)
    \<and> (case r of Inl e \<Rightarrow> True | Inr report \<Rightarrow> dm_valid report \<and> dm_events report = int (length (audit_rows own_tenant d')))"
proof -
  have steps: "(tenant_step E own_tenant)\<^sup>*\<^sup>* d d'"
    using moves_demo [of E dl R clk uid run_id draws] assms(1) by (metis moves_def snd_conv)
  then have reach: "reachable E d'" using assms(2) tenant_steps_reachable by blast
  have "verify_audit_chain E own_tenant d' = Inr (True, int (length (audit_rows own_tenant d')), None)"
    using verify_audit_chain_ok [OF assms(3)] reachable_ok [OF reach assms(3)] by blast
  then have report: "audit_report E dl d' = (Inr (True, int (length (audit_rows own_tenant d')), None), d')"
    by (simp add: audit_report_def connect_def transaction_def)
  have "dm_valid rep \<and> dm_events rep = int (length (audit_rows own_tenant d'))" if "r = Inr rep" for rep
  proof -
    from assms(1) that obtain d1 valid events broken where "audit_report E dl d1 = (Inr (valid, events, broken), d')"
      "dm_valid rep = valid" "dm_events rep = events"
      by (auto simp: demo_def then_do_eq result_def)
    with report queries_unchanged(4) [of E dl d1] show ?thesis by simp
  qed
  then show ?thesis using reach tenant_steps_rows_of [OF steps] by (auto split: sum.splits)
qed

text \<open>The demonstration of the stream on new files: every event is processed, and the stream verifies.\<close>

lemma stream_demo_report:
  assumes "stream_demo E dl ts clk None None d = (Inr (report, file, ck), d')" and "wf_events E (stamped ts)" and "events_ok d"
  shows "sr_verification report = (True, 3, JNull) \<and> pp_processed (sr_process report) = 3 \<and> pp_start_offset (sr_process report) = 0"
proof -
  have three: "length (stamped ts) = 3" "length stream_events = 3" by (simp_all add: stamped_def stream_events_def)
  have read: "read_from E (stream_file E (stamped ts)) 0 = Inr (map jnorm (stream_records E (stamped ts) 0 genesis))"
    using read_stream_file [OF assms(2), of 0] by simp
  have "stream_verify E (stream_file E (stamped ts)) = Inr (True, 3, JNull)"
    using verify_stream_records [OF assms(2), of genesis 0] by (simp add: stream_verify_def read three)
  with assms(1) show ?thesis
    by (auto simp: stream_demo_def then_do_eq result_def stream_appends_None [OF assms(2)] process_available_def checkpoint_def read
        length_stream_records three split: sum.splits prod.splits)
qed

section \<open>Witnesses\<close>

definition oidc_environ :: environ where
  "oidc_environ = map_of [(lit ''FLAGSHIP_OIDC_ISSUER'', lit ''https://id.example''), (lit ''FLAGSHIP_OIDC_AUDIENCE'', lit ''flagship''),
     (lit ''FLAGSHIP_OIDC_JWKS_URL'', lit ''https://id.example/keys'')]"

definition demo_keys :: "pystr \<Rightarrow> pystr \<Rightarrow> pystr res" where
  "demo_keys url token = Inr url"

definition no_store :: "unit store_put \<times> unit store_get" where
  "no_store = (\<lambda>key data n st. (Inl (OSError key), st), \<lambda>st key version. Inl (OSError key))"

text \<open>With OIDC alone the interface starts, and signs evidence with the placeholder.\<close>

lemma demo_start_api: "\<exists>s. start_api demo_libs (\<lambda>_. Sqlite) demo_keys no_store (\<lambda>p. Inl (FileNotFoundError p)) oidc_environ (lit ''api.db'') False = Inr s"
proof -
  have v: "\<not> Option.is_none (case start_verifier demo_keys oidc_environ of Inl e \<Rightarrow> None | Inr (v, secret) \<Rightarrow>
      if v \<noteq> None \<and> secret = placeholder_secret then Some () else None)"
    by code_simp
  then obtain verifier where v: "start_verifier demo_keys oidc_environ = Inr (verifier, placeholder_secret)"
    by (auto split: sum.splits prod.splits if_splits)
  have e: "env_or oidc_environ (lit ''FLAGSHIP_EVIDENCE_RETENTION_DAYS'') (lit ''2555'') = lit ''2555''"
    "set_in oidc_environ ''FLAGSHIP_EVIDENCE_PRIVATE_KEY_FILE'' = False"
    "oidc_environ (lit ''FLAGSHIP_EVIDENCE_SIGNING_SECRET'') = None" "json_int (JStr (lit ''2555'')) = Inr 2555"
    "length placeholder_secret = 39" "map_res check_allowed_roles [viewers, analysts, reviewers, admins] = Inr [(), (), (), ()]"
    by code_simp+
  show ?thesis
    by (simp add: start_api_def v start_key_def e create_app_def managed_evidence_def Let_def del: json_int.simps map_res.simps)
qed

lemma api_started_as_configured_witness:
  "\<exists>s. start_api demo_libs (\<lambda>_. Sqlite) demo_keys no_store (\<lambda>p. Inl (FileNotFoundError p)) oidc_environ (lit ''api.db'') False = Inr s
    \<and> app_signing_secret (st_app s) = placeholder_secret \<and> app_managed (st_app s) = None"
proof -
  from demo_start_api obtain s where
    s: "start_api demo_libs (\<lambda>_. Sqlite) demo_keys no_store (\<lambda>p. Inl (FileNotFoundError p)) oidc_environ (lit ''api.db'') False = Inr s" ..
  have "\<not> set_in oidc_environ ''FLAGSHIP_EVIDENCE_SIGNING_SECRET''" "\<not> set_in oidc_environ ''FLAGSHIP_JWT_SECRET''"
    "\<not> set_in oidc_environ ''FLAGSHIP_EVIDENCE_PRIVATE_KEY_FILE''"
    by code_simp+
  moreover from this(3) have "app_private_pem (st_app s) = None"
    using s by (auto simp: start_api_def start_key_def create_app_def Let_def bind_res_Inr)
  ultimately show ?thesis using api_started_as_configured [OF s] s by (cases "app_managed (st_app s)") auto
qed

end
