(* ===== verification/Risk_Model.thy ===== *)
theory Risk_Model
  imports Tax_Generator "HOL-Library.AList"
begin

text \<open>
  \<^verbatim>\<open>risk_model.py\<close>: the synthetic graphs, their features and labels, and how rows are split for training and
  for testing.  The random draws are arguments; floating point arithmetic, networkx's page rank, numpy's quantiles
  and sorting, and scikit-learn's forest and scores are a record of functions.  Arrays that run in parallel are
  one list of rows, and floats are finite, so that they are ordered linearly.
\<close>

section \<open>The libraries\<close>

type_synonym 'f graph = "((pystr \<times> pystr) \<times> 'f) list"

record 'f forest =
  fo_proba :: "'f list list \<Rightarrow> 'f list res"
  fo_importances :: "'f list"

text \<open>
  \<open>mf_dec m e\<close> is the literal \<open>m * 10\<close> to the power \<open>e\<close>, \<open>mf_round\<close> is \<^verbatim>\<open>round(x, 6)\<close>, \<open>mf_quantiles xs n\<close> are the
  distinct quantiles of \<open>xs\<close> at \<open>n + 1\<close> evenly spaced points, \<open>mf_forest seed x y\<close> is the fitted forest, whose \<open>fo_proba\<close>
  is the second column of \<^verbatim>\<open>predict_proba\<close>.
\<close>

record 'f ml_lib =
  mf_int :: "int \<Rightarrow> 'f"
  mf_dec :: "int \<Rightarrow> int \<Rightarrow> 'f"
  mf_add :: "'f \<Rightarrow> 'f \<Rightarrow> 'f"
  mf_sub :: "'f \<Rightarrow> 'f \<Rightarrow> 'f"
  mf_mul :: "'f \<Rightarrow> 'f \<Rightarrow> 'f"
  mf_div :: "'f \<Rightarrow> 'f \<Rightarrow> 'f"
  mf_neg :: "'f \<Rightarrow> 'f"
  mf_log :: "'f \<Rightarrow> 'f"
  mf_sum :: "'f list \<Rightarrow> 'f"
  mf_round :: "'f \<Rightarrow> 'f"
  mf_ceil :: "'f \<Rightarrow> int"
  mf_pagerank :: "pystr list \<Rightarrow> 'f graph \<Rightarrow> (pystr \<Rightarrow> 'f) res"
  mf_quantiles :: "'f list \<Rightarrow> nat \<Rightarrow> 'f list"
  mf_argsort :: "'f list \<Rightarrow> nat list"
  mf_forest :: "int \<Rightarrow> 'f list list \<Rightarrow> int list \<Rightarrow> 'f forest res"
  mf_average_precision :: "int list \<Rightarrow> 'f list \<Rightarrow> 'f res"
  mf_roc_auc :: "int list \<Rightarrow> 'f list \<Rightarrow> 'f res"
  mf_precision :: "int list \<Rightarrow> bool list \<Rightarrow> 'f res"
  mf_recall :: "int list \<Rightarrow> bool list \<Rightarrow> 'f res"

section \<open>The generated graphs\<close>

definition feature_names :: "string list" where
  "feature_names = [''in_degree'', ''out_degree'', ''weighted_out'', ''unique_counterparties'', ''pagerank'', ''shared_account_count'',
     ''three_cycle_count'', ''night_activity_ratio'']"

record 'f sample =
  sm_x :: "'f list"
  sm_y :: int
  sm_month :: int
  sm_entity :: pystr

record 'f dataset =
  ds_rows :: "'f sample list"
  ds_names :: "string list"

text \<open>
  What is drawn for a node in a month: the targets of its transfers with their amounts, the number of shared
  accounts, the activity at night before it is clipped, and whether its label is flipped.  Of a month also the
  order into which the risky nodes are shuffled.
\<close>

record 'f node_draw =
  nd_transfers :: "(pystr \<times> 'f) list"
  nd_shared :: int
  nd_night :: 'f
  nd_noise :: bool

record 'f month_draw =
  md_node :: "pystr \<Rightarrow> 'f node_draw"
  md_shuffled :: "pystr list"

definition node_names :: "int \<Rightarrow> pystr list" where
  "node_names entities = map (\<lambda>i. lit ''ORG-'' @ zero_padded 5 i) [0..entities - 1]"

text \<open>A transfer to the node itself is skipped; a repeated one adds to the weight of its edge.\<close>

fun add_transfers :: "'f ml_lib \<Rightarrow> pystr \<Rightarrow> (pystr \<times> 'f) list \<Rightarrow> 'f graph \<Rightarrow> 'f graph" where
  "add_transfers F node [] g = g"
| "add_transfers F node ((target, amount) # ts) g = add_transfers F node ts
     (if target = node then g
      else AList.update (node, target) (case map_of g (node, target) of None \<Rightarrow> amount | Some w \<Rightarrow> mf_add F w amount) g)"

text \<open>Three risky nodes at a time become a cycle; what remains of fewer than three does not.\<close>

definition bump :: "pystr \<Rightarrow> (pystr \<Rightarrow> int) \<Rightarrow> pystr \<Rightarrow> int" where
  "bump x counts = counts(x := counts x + 1)"

fun add_cycles :: "'f ml_lib \<Rightarrow> pystr list \<Rightarrow> 'f graph \<times> (pystr \<Rightarrow> int) \<Rightarrow> 'f graph \<times> (pystr \<Rightarrow> int)" where
  "add_cycles F (a # b # c # rest) (g, counts) =
     (let w = mf_int F 250000 in
      add_cycles F rest (AList.update (c, a) w (AList.update (b, c) w (AList.update (a, b) w g)), bump c (bump b (bump a counts))))"
| "add_cycles F rest gc = gc"

definition out_edges :: "'f graph \<Rightarrow> pystr \<Rightarrow> ((pystr \<times> pystr) \<times> 'f) list" where
  "out_edges g node = filter (\<lambda>((a, b), w). a = node) g"

definition in_degree :: "'f graph \<Rightarrow> pystr \<Rightarrow> int" where
  "in_degree g node = int (length (filter (\<lambda>((a, b), w). b = node) g))"

definition clip :: "('f::linorder) ml_lib \<Rightarrow> 'f \<Rightarrow> 'f" where
  "clip F x = min (max x (mf_int F 0)) (mf_int F 1)"

definition features ::
  "('f::linorder) ml_lib \<Rightarrow> 'f graph \<Rightarrow> (pystr \<Rightarrow> int) \<Rightarrow> (pystr \<Rightarrow> 'f) \<Rightarrow> 'f node_draw \<Rightarrow> pystr \<Rightarrow> 'f list" where
  "features F g counts rank n node = (let outgoing = out_edges g node in
     [mf_int F (in_degree g node), mf_int F (int (length outgoing)), foldl (mf_add F) (mf_int F 0) (map snd outgoing),
      mf_int F (int (card (set (map (\<lambda>((a, b), w). b) outgoing)))), rank node, mf_int F (nd_shared n), mf_int F (counts node),
      clip F (nd_night n)])"

definition month_graph :: "'f ml_lib \<Rightarrow> pystr list \<Rightarrow> 'f month_draw \<Rightarrow> 'f graph \<times> (pystr \<Rightarrow> int)" where
  "month_graph F nodes m = add_cycles F (md_shuffled m)
     (fold (\<lambda>node. add_transfers F node (nd_transfers (md_node m node))) nodes [], \<lambda>_. 0)"

definition month_rows ::
  "('f::linorder) ml_lib \<Rightarrow> pystr list \<Rightarrow> (pystr \<Rightarrow> bool) \<Rightarrow> int \<Rightarrow> 'f month_draw \<Rightarrow> 'f sample list res" where
  "month_rows F nodes latent month m = (case month_graph F nodes m of (g, counts) \<Rightarrow>
     bind_res (mf_pagerank F nodes g) (\<lambda>rank.
       Inr (map (\<lambda>node. \<lparr>sm_x = features F g counts rank (md_node m node) node,
          sm_y = (if latent node \<noteq> nd_noise (md_node m node) then 1 else 0), sm_month = month, sm_entity = node\<rparr>) nodes)))"

definition generate_temporal_graph_dataset ::
  "('f::linorder) ml_lib \<Rightarrow> int \<Rightarrow> int \<Rightarrow> (pystr \<Rightarrow> bool) \<Rightarrow> (int \<Rightarrow> 'f month_draw) \<Rightarrow> 'f dataset res" where
  "generate_temporal_graph_dataset F entities months latent draws =
     bind_res (raise_if (entities < 30 \<or> months < 4) (ValueError (lit ''dataset requires at least 30 entities and 4 months''))) (\<lambda>_.
     bind_res (map_res (\<lambda>month. month_rows F (node_names entities) latent month (draws month)) [1..months]) (\<lambda>rows.
       Inr \<lparr>ds_rows = concat rows, ds_names = feature_names\<rparr>))"

section \<open>Drift\<close>

text \<open>
  The histogram with the outer edges moved to the infinities: the inner edges \<open>e1 < e2 < ...\<close> cut the
  line into the values below \<open>e1\<close>, those from \<open>e1\<close> to below \<open>e2\<close>, and so on, the last bin being unbounded.
\<close>

fun bins :: "('f::linorder) list \<Rightarrow> 'f list \<Rightarrow> int list" where
  "bins [] xs = [int (length xs)]"
| "bins (e # es) xs = int (length (filter (\<lambda>x. x < e) xs)) # bins es (filter (\<lambda>x. e \<le> x) xs)"

definition shares :: "('f::linorder) ml_lib \<Rightarrow> int list \<Rightarrow> 'f list" where
  "shares F counts = map (\<lambda>c. max (mf_div F (mf_int F c) (mf_int F (max (sum_list counts) 1))) (mf_dec F 1 (-6))) counts"

definition population_stability_index :: "('f::linorder) ml_lib \<Rightarrow> 'f list \<Rightarrow> 'f list \<Rightarrow> 'f" where
  "population_stability_index F train test = (let edges = mf_quantiles F train 10 in
     if length edges < 3 then mf_int F 0
     else let inner = butlast (tl edges); a = shares F (bins inner train); b = shares F (bins inner test) in
       mf_sum F (map (\<lambda>(s, t). mf_mul F (mf_sub F t s) (mf_log F (mf_div F t s))) (zip a b)))"

definition feature_column :: "nat \<Rightarrow> 'f sample list \<Rightarrow> 'f list" where
  "feature_column i rows = map (\<lambda>r. sm_x r ! i) rows"

definition drift :: "('f::linorder) ml_lib \<Rightarrow> string list \<Rightarrow> 'f sample list \<Rightarrow> 'f sample list \<Rightarrow> (string \<times> 'f) list" where
  "drift F names train test = sort_key (\<lambda>(name, psi). mf_neg F psi)
     (map (\<lambda>(i, name). (name, mf_round F (population_stability_index F (feature_column i train) (feature_column i test)))) (enumerate 0 names))"

section \<open>The hold-out by entities\<close>

definition labels_by_entity :: "'f sample list \<Rightarrow> (pystr \<times> int) list" where
  "labels_by_entity rows = map (\<lambda>e. (e, Max (set (map sm_y (filter (\<lambda>r. sm_entity r = e) rows))))) (sort (remdups (map sm_entity rows)))"

definition held_count :: "'f ml_lib \<Rightarrow> 'f \<Rightarrow> pystr list \<Rightarrow> nat" where
  "held_count F fraction xs = nat (max 1 (mf_ceil F (mf_mul F (mf_int F (int (length xs))) fraction)))"

text \<open>\<open>shuffle\<close> is what \<^verbatim>\<open>rng.shuffle\<close> makes of the risky entities and then of the others.\<close>

definition held_out :: "'f ml_lib \<Rightarrow> (bool \<Rightarrow> pystr list \<Rightarrow> pystr list) \<Rightarrow> 'f \<Rightarrow> 'f sample list \<Rightarrow> pystr list" where
  "held_out F shuffle fraction rows =
     (let risky = shuffle True (sort (map fst (filter (\<lambda>(e, label). label \<noteq> 0) (labels_by_entity rows))));
          normal = shuffle False (sort (map fst (filter (\<lambda>(e, label). label = 0) (labels_by_entity rows))))
      in take (held_count F fraction risky) risky @ take (held_count F fraction normal) normal)"

definition holdout_split :: "pystr list \<Rightarrow> int \<Rightarrow> 'f sample list \<Rightarrow> 'f sample list \<times> 'f sample list" where
  "holdout_split holdout train_through rows =
     (filter (\<lambda>r. sm_month r \<le> train_through \<and> sm_entity r \<notin> set holdout) rows, filter (\<lambda>r. sm_month r > train_through \<and> sm_entity r \<in> set holdout) rows)"

definition classes :: "'f sample list \<Rightarrow> nat" where
  "classes rows = card (set (map sm_y rows))"

text \<open>The report without its fixed texts.\<close>

record 'f holdout_report =
  ho_train_rows :: int
  ho_test_rows :: int
  ho_train_entities :: int
  ho_test_entities :: int
  ho_leakage :: int
  ho_average_precision :: 'f
  ho_roc_auc :: 'f
  ho_drift :: "(string \<times> 'f) list"
  ho_high_drift :: "string list"

definition validate_entity_holdout ::
  "('f::linorder) ml_lib \<Rightarrow> (bool \<Rightarrow> pystr list \<Rightarrow> pystr list) \<Rightarrow> 'f dataset \<Rightarrow> int \<Rightarrow> 'f \<Rightarrow> int \<Rightarrow> 'f holdout_report res" where
  "validate_entity_holdout F shuffle ds train_through fraction seed =
     bind_res (raise_if (\<not> (mf_dec F 1 (-1) \<le> fraction \<and> fraction \<le> mf_dec F 5 (-1)))
        (ValueError (lit ''holdout_fraction must be between 0.1 and 0.5''))) (\<lambda>_.
     case holdout_split (held_out F shuffle fraction (ds_rows ds)) train_through (ds_rows ds) of (train, test) \<Rightarrow>
     bind_res (raise_if (classes train < 2 \<or> classes test < 2)
        (ValueError (lit ''entity holdout requires both classes in train and test''))) (\<lambda>_.
     bind_res (mf_forest F seed (map sm_x train) (map sm_y train)) (\<lambda>model.
     bind_res (fo_proba model (map sm_x test)) (\<lambda>probabilities.
     let train_entities = set (map sm_entity train); test_entities = set (map sm_entity test); ranked = drift F (ds_names ds) train test in
     bind_res (mf_average_precision F (map sm_y test) probabilities) (\<lambda>precision.
     bind_res (mf_roc_auc F (map sm_y test) probabilities) (\<lambda>auc.
       Inr \<lparr>ho_train_rows = int (length train), ho_test_rows = int (length test),
         ho_train_entities = int (card train_entities), ho_test_entities = int (card test_entities),
         ho_leakage = int (card (train_entities \<inter> test_entities)),
         ho_average_precision = mf_round F precision, ho_roc_auc = mf_round F auc, ho_drift = ranked,
         ho_high_drift = map fst (filter (\<lambda>(name, psi). mf_dec F 25 (-2) \<le> psi) ranked)\<rparr>))))))"

section \<open>The baseline by months\<close>

record 'f baseline_metrics =
  bm_train_months :: "int \<times> int"
  bm_test_months :: "int \<times> int"
  bm_train_rows :: int
  bm_test_rows :: int
  bm_positive_rate :: 'f
  bm_average_precision :: 'f
  bm_roc_auc :: 'f
  bm_recall_top :: 'f
  bm_precision :: 'f
  bm_recall :: 'f
  bm_importance :: "(string \<times> 'f) list"

definition month_range :: "'f sample list \<Rightarrow> int \<times> int" where
  "month_range rows = (Min (set (map sm_month rows)), Max (set (map sm_month rows)))"

text \<open>The positive rows among the twentieth with the highest scores, as a share of all positive rows.\<close>

definition top_count :: "'f ml_lib \<Rightarrow> 'f list \<Rightarrow> nat" where
  "top_count F probabilities = nat (max 1 (mf_ceil F (mf_mul F (mf_int F (int (length probabilities))) (mf_dec F 5 (-2)))))"

definition top_positives :: "'f ml_lib \<Rightarrow> 'f list \<Rightarrow> int list \<Rightarrow> int" where
  "top_positives F probabilities ys =
     (let top = take (top_count F probabilities) (mf_argsort F (map (mf_neg F) probabilities))
      in sum_list (map snd (filter (\<lambda>(i, y). i \<in> set top) (enumerate 0 ys))))"

definition train_temporal_baseline ::
  "('f::linorder) ml_lib \<Rightarrow> 'f dataset \<Rightarrow> int \<Rightarrow> int \<Rightarrow> ('f forest \<times> 'f baseline_metrics) res" where
  "train_temporal_baseline F ds train_through seed =
     (let train = filter (\<lambda>r. sm_month r \<le> train_through) (ds_rows ds); test = filter (\<lambda>r. sm_month r > train_through) (ds_rows ds); ys = map sm_y test in
     bind_res (raise_if (train = [] \<or> test = []) (ValueError (lit ''time split must contain train and test rows''))) (\<lambda>_.
     bind_res (mf_forest F seed (map sm_x train) (map sm_y train)) (\<lambda>model.
     bind_res (fo_proba model (map sm_x test)) (\<lambda>probabilities.
     let flagged = map (\<lambda>p. mf_dec F 5 (-1) \<le> p) probabilities in
     bind_res (mf_average_precision F ys probabilities) (\<lambda>average.
     bind_res (mf_roc_auc F ys probabilities) (\<lambda>auc.
     bind_res (mf_precision F ys flagged) (\<lambda>precision.
     bind_res (mf_recall F ys flagged) (\<lambda>recall.
       Inr (model, \<lparr>bm_train_months = month_range train, bm_test_months = month_range test,
         bm_train_rows = int (length train), bm_test_rows = int (length test),
         bm_positive_rate = mf_round F (mf_div F (mf_int F (sum_list ys)) (mf_int F (int (length ys)))),
         bm_average_precision = mf_round F average, bm_roc_auc = mf_round F auc,
         bm_recall_top = mf_round F (mf_div F (mf_int F (top_positives F probabilities ys)) (mf_int F (max (sum_list ys) 1))),
         bm_precision = mf_round F precision, bm_recall = mf_round F recall,
         bm_importance = sort_key (\<lambda>(name, v). mf_neg F v)
           (map (\<lambda>(name, v). (name, mf_round F v)) (zip (ds_names ds) (fo_importances model)))\<rparr>)))))))))"

section \<open>What the generator makes\<close>

text \<open>An edge joins two nodes at most once.\<close>

lemma distinct_transfers: "distinct (map fst g) \<Longrightarrow> distinct (map fst (add_transfers F node ts g))"
  by (induction F node ts g rule: add_transfers.induct) (simp_all add: distinct_update)

lemma distinct_cycles: "distinct (map fst (fst gc)) \<Longrightarrow> distinct (map fst (fst (add_cycles F nodes gc)))"
  by (induction F nodes gc rule: add_cycles.induct) (simp_all add: Let_def distinct_update)

lemma distinct_month_graph: "distinct (map fst (fst (month_graph F nodes m)))"
proof -
  have "distinct (map fst (fold (\<lambda>node. add_transfers F node (nd_transfers (md_node m node))) xs g))" if "distinct (map fst g)" for xs g
    using that by (induction xs arbitrary: g) (simp_all add: distinct_transfers)
  then show ?thesis by (simp add: month_graph_def distinct_cycles)
qed

lemma counterparties_are_edges:
  assumes "distinct (map fst g)"
  shows "card (set (map (\<lambda>((a, b), w). b) (out_edges g node))) = length (out_edges g node)"
proof -
  have "distinct (map (\<lambda>((a, b), w). b) (out_edges g node))"
    using assms by (induction g) (auto simp: out_edges_def image_iff)
  then show ?thesis using distinct_card by fastforce
qed

text \<open>A node is in one cycle of a month at most, and then it is one of the shuffled nodes.\<close>

lemma cycle_counts:
  assumes "distinct nodes" and "\<forall>x \<in> set nodes. snd gc x = 0"
  shows "snd (add_cycles F nodes gc) x = snd gc x \<or> x \<in> set nodes \<and> snd (add_cycles F nodes gc) x = 1"
  using assms
proof (induction F nodes gc rule: add_cycles.induct)
  case (1 F a b c rest g counts)
  define gc where "gc = (AList.update (c, a) (mf_int F 250000) (AList.update (b, c) (mf_int F 250000)
      (AList.update (a, b) (mf_int F 250000) g)), bump c (bump b (bump a counts)))"
  have ne: "a \<noteq> b" "b \<noteq> a" "a \<noteq> c" "c \<noteq> a" "b \<noteq> c" "c \<noteq> b" "distinct rest" "{a, b, c} \<inter> set rest = {}"
    using "1.prems"(1) by auto
  have zero: "counts a = 0" "counts b = 0" "counts c = 0" "\<forall>x \<in> set rest. counts x = 0" using "1.prems"(2) by simp_all
  have same: "add_cycles F (a # b # c # rest) (g, counts) = add_cycles F rest gc"
    by (simp add: Let_def gc_def)
  have bumped: "snd gc x = (if x \<in> {a, b, c} then 1 else counts x)" for x using ne zero by (auto simp: gc_def bump_def)
  with ne zero have "\<forall>x \<in> set rest. snd gc x = 0" by auto
  then have "snd (add_cycles F rest gc) x = snd gc x \<or> x \<in> set rest \<and> snd (add_cycles F rest gc) x = 1"
    using "1.IH" [OF refl] ne(7) by (simp add: gc_def)
  with same bumped [of x] show ?case by (auto split: if_splits)
qed simp_all

lemma zero_padded_inject: "0 \<le> i \<Longrightarrow> 0 \<le> j \<Longrightarrow> zero_padded k i = zero_padded k j \<longleftrightarrow> i = j"
proof -
  have "nat_of_digits (zero_padded k i) = i" if "0 \<le> i" for i
    using that by (simp add: zero_padded_def str_of_int_def nat_of_digits_append nat_of_digits_str_of_nat)
  then show "0 \<le> i \<Longrightarrow> 0 \<le> j \<Longrightarrow> zero_padded k i = zero_padded k j \<longleftrightarrow> i = j" by metis
qed

lemma distinct_node_names: "distinct (node_names entities)"
  by (auto simp: node_names_def distinct_map inj_on_def zero_padded_inject)

definition plausible :: "('f::linorder) ml_lib \<Rightarrow> (pystr \<Rightarrow> bool) \<Rightarrow> 'f sample \<Rightarrow> bool" where
  "plausible F latent r \<longleftrightarrow> length (sm_x r) = length feature_names \<and> sm_x r ! 1 = sm_x r ! 3
     \<and> (sm_x r ! 6 = mf_int F 0 \<or> latent (sm_entity r) \<and> sm_x r ! 6 = mf_int F 1)"

lemma features_read:
  "length (features F g counts rank n node) = length feature_names"
  "features F g counts rank n node ! 6 = mf_int F (counts node)"
  "distinct (map fst g) \<Longrightarrow> features F g counts rank n node ! 1 = features F g counts rank n node ! 3"
  by (simp_all add: features_def Let_def feature_names_def counterparties_are_edges del: set_map)

lemma month_rows_plausible:
  assumes "month_rows F nodes latent month m = Inr rows" and "distinct nodes" and "mset (md_shuffled m) = mset (filter latent nodes)"
  shows "map (\<lambda>r. (sm_month r, sm_entity r)) rows = map (Pair month) nodes \<and> list_all (plausible F latent) rows"
proof -
  obtain g counts where g: "month_graph F nodes m = (g, counts)" by fastforce
  from assms(3) have d: "distinct (md_shuffled m)" "set (md_shuffled m) = {x \<in> set nodes. latent x}"
    using assms(2) by (metis distinct_filter mset_eq_imp_distinct_iff, metis mset_eq_setD set_filter)
  have c: "counts x = 0 \<or> latent x \<and> counts x = 1" for x
    using cycle_counts [OF d(1), of "(fold (\<lambda>node. add_transfers F node (nd_transfers (md_node m node))) nodes [], \<lambda>_. 0)" F x] g d(2)
    by (auto simp: month_graph_def)
  have "distinct (map fst g)" using distinct_month_graph [of F nodes m] g by simp
  note read = features_read(1,2) features_read(3) [OF this, simplified]
  from assms(1) obtain rank where rows: "rows = map (\<lambda>node. \<lparr>sm_x = features F g counts rank (md_node m node) node,
      sm_y = (if latent node \<noteq> nd_noise (md_node m node) then 1 else 0), sm_month = month, sm_entity = node\<rparr>) nodes"
    by (auto simp: month_rows_def bind_res_Inr g)
  have "mf_int F (counts x) = mf_int F 0 \<or> latent x \<and> mf_int F (counts x) = mf_int F 1" for x using c [of x] by auto
  then show ?thesis by (simp add: rows list_all_iff plausible_def read comp_def)
qed

text \<open>
  The generated rows: every entity once in every month, in order; the number of an entity's counterparties
  repeats its number of outgoing edges; and only a risky entity is ever in a cycle, in one of a month at most.
\<close>

lemma generated_rows:
  assumes "generate_temporal_graph_dataset F entities months latent draws = Inr ds"
    and "\<And>month. mset (md_shuffled (draws month)) = mset (filter latent (node_names entities))"
  shows "map (\<lambda>r. (sm_month r, sm_entity r)) (ds_rows ds) = List.product [1..months] (node_names entities)
    \<and> list_all (plausible F latent) (ds_rows ds)"
proof -
  from assms(1) obtain rows where rows: "ds_rows ds = concat rows"
    "list_all2 (\<lambda>month rs. month_rows F (node_names entities) latent month (draws month) = Inr rs) [1..months] rows"
    by (auto simp: generate_temporal_graph_dataset_def bind_res_Inr map_res_Inr)
  from rows(2) have "map (\<lambda>r. (sm_month r, sm_entity r)) (concat rows) = List.product [1..months] (node_names entities)
      \<and> list_all (plausible F latent) (concat rows)"
    by (induction rule: list_all2_induct) (auto dest!: month_rows_plausible [OF _ distinct_node_names assms(2)])
  then show ?thesis by (simp add: rows(1))
qed

section \<open>What the splits keep apart\<close>

lemma bins_total: "sum_list (bins es xs) = int (length xs)"
proof (induction es xs rule: bins.induct)
  case (2 e es xs)
  have "length (filter (\<lambda>x. x < e) xs) + length (filter (\<lambda>x. e \<le> x) xs) = length xs"
    using sum_length_filter_compl [of "\<lambda>x. x < e" xs] by (simp add: not_less)
  with 2 show ?case by simp
qed simp

text \<open>
  C40: The hold-out leaks nothing.  If the validation returns a report, the forest was trained on rows of the
  months up to the limit, and the reported scores compare the labels of the rows of later months with what that
  forest says of exactly these rows; no entity has rows of both kinds, so that the reported leakage is zero, both
  parts have rows of either class, and the features reported for high drift are exactly those whose index, between
  the two parts, is 0.25 or more.
\<close>

theorem entity_holdout_isolated:
  assumes "validate_entity_holdout F shuffle ds train_through fraction seed = Inr report"
  shows "\<exists>train test model. holdout_split (held_out F shuffle fraction (ds_rows ds)) train_through (ds_rows ds) = (train, test)
    \<and> mf_forest F seed (map sm_x train) (map sm_y train) = Inr model
    \<and> (\<exists>probabilities precision auc. fo_proba model (map sm_x test) = Inr probabilities
        \<and> mf_average_precision F (map sm_y test) probabilities = Inr precision \<and> ho_average_precision report = mf_round F precision
        \<and> mf_roc_auc F (map sm_y test) probabilities = Inr auc \<and> ho_roc_auc report = mf_round F auc)
    \<and> (\<forall>r \<in> set train. \<forall>s \<in> set test. sm_month r \<le> train_through \<and> train_through < sm_month s \<and> sm_entity r \<noteq> sm_entity s)
    \<and> 2 \<le> classes train \<and> 2 \<le> classes test
    \<and> ho_train_rows report = int (length train) \<and> ho_test_rows report = int (length test) \<and> ho_leakage report = 0
    \<and> ho_drift report = drift F (ds_names ds) train test
    \<and> set (ho_high_drift report) = {name. \<exists>psi. (name, psi) \<in> set (ho_drift report) \<and> mf_dec F 25 (-2) \<le> psi}"
proof -
  obtain train test where split: "holdout_split (held_out F shuffle fraction (ds_rows ds)) train_through (ds_rows ds) = (train, test)"
    by fastforce
  then have apart: "\<forall>r \<in> set train. \<forall>s \<in> set test. sm_month r \<le> train_through \<and> train_through < sm_month s \<and> sm_entity r \<noteq> sm_entity s"
    by (auto simp: holdout_split_def)
  then have "sm_entity ` set train \<inter> sm_entity ` set test = {}" by fastforce
  then have "ho_leakage report = 0" and fields: "ho_train_rows report = int (length train)" "ho_test_rows report = int (length test)"
    "ho_high_drift report = map fst (filter (\<lambda>(name, psi). mf_dec F 25 (-2) \<le> psi) (ho_drift report))"
    "ho_drift report = drift F (ds_names ds) train test"
    and "2 \<le> classes train" "2 \<le> classes test"
    and scored: "\<exists>model. mf_forest F seed (map sm_x train) (map sm_y train) = Inr model
      \<and> (\<exists>probabilities precision auc. fo_proba model (map sm_x test) = Inr probabilities
        \<and> mf_average_precision F (map sm_y test) probabilities = Inr precision \<and> ho_average_precision report = mf_round F precision
        \<and> mf_roc_auc F (map sm_y test) probabilities = Inr auc \<and> ho_roc_auc report = mf_round F auc)"
    using assms split by (auto simp: validate_entity_holdout_def Let_def bind_res_Inr raise_if_Inr)
  moreover have "set (ho_high_drift report) = {name. \<exists>psi. (name, psi) \<in> set (ho_drift report) \<and> mf_dec F 25 (-2) \<le> psi}"
    by (force simp: fields(3))
  ultimately show ?thesis using split apart fields(1,2,4) scored by blast
qed

lemma baseline_by_time:
  assumes "train_temporal_baseline F ds train_through seed = Inr (model, metrics)"
  shows "snd (bm_train_months metrics) \<le> train_through \<and> train_through < fst (bm_test_months metrics)
    \<and> bm_train_rows metrics + bm_test_rows metrics = int (length (ds_rows ds))"
proof -
  let ?train = "filter (\<lambda>r. sm_month r \<le> train_through) (ds_rows ds)" and ?test = "filter (\<lambda>r. sm_month r > train_through) (ds_rows ds)"
  from assms have m: "?train \<noteq> []" "?test \<noteq> []" "bm_train_months metrics = month_range ?train" "bm_test_months metrics = month_range ?test"
    "bm_train_rows metrics = int (length ?train)" "bm_test_rows metrics = int (length ?test)"
    by (auto simp: train_temporal_baseline_def Let_def bind_res_Inr raise_if_Inr)
  have "length ?train + length ?test = length (ds_rows ds)"
    using sum_length_filter_compl [of "\<lambda>r. sm_month r \<le> train_through" "ds_rows ds"] by (simp add: not_le)
  moreover have "Max (set (map sm_month ?train)) \<le> train_through"
    using m(1) by (subst Max_le_iff) (auto simp: filter_empty_conv)
  moreover have "train_through < Min (set (map sm_month ?test))"
    using m(2) by (subst Min_gr_iff) (auto simp: filter_empty_conv)
  ultimately show ?thesis using m by (simp add: month_range_def)
qed

section \<open>A witness\<close>

text \<open>Numbers in thousandths, a forest that returns the first feature, and four entities in two months.\<close>

definition demo_ml :: "int ml_lib" where
  "demo_ml = \<lparr>mf_int = (\<lambda>i. 1000 * i), mf_dec = (\<lambda>m e. m * (if e = -1 then 100 else if e = -2 then 10 else 0)), mf_add = (+), mf_sub = (-),
     mf_mul = (\<lambda>a b. a * b div 1000), mf_div = (\<lambda>a b. if b = 0 then 0 else a * 1000 div b), mf_neg = uminus, mf_log = (\<lambda>x. x), mf_sum = sum_list,
     mf_round = id, mf_ceil = (\<lambda>x. (x + 999) div 1000), mf_pagerank = (\<lambda>nodes g. Inr (\<lambda>_. 0)), mf_quantiles = (\<lambda>xs n. [0, 1, 2]),
     mf_argsort = (\<lambda>xs. [0..<length xs]), mf_forest = (\<lambda>seed x y. Inr \<lparr>fo_proba = (\<lambda>rows. Inr (map hd rows)), fo_importances = []\<rparr>),
     mf_average_precision = (\<lambda>ys ps. Inr 1000), mf_roc_auc = (\<lambda>ys ps. Inr 1000), mf_precision = (\<lambda>ys ps. Inr 1000),
     mf_recall = (\<lambda>ys ps. Inr 1000)\<rparr>"

definition demo_dataset :: "int dataset" where
  "demo_dataset = \<lparr>ds_rows = concat (map (\<lambda>month. map (\<lambda>(e, y). \<lparr>sm_x = [1000 * y], sm_y = y, sm_month = month, sm_entity = lit e\<rparr>)
     [(''A'', 1), (''B'', 1), (''C'', 0), (''D'', 0)]) [1, 2]), ds_names = [''in_degree'']\<rparr>"

lemma demo_validated: "case validate_entity_holdout demo_ml (\<lambda>_ xs. rev xs) demo_dataset 1 250 7 of
    Inl e \<Rightarrow> False | Inr report \<Rightarrow> ho_train_rows report = 2 \<and> ho_test_rows report = 2 \<and> ho_train_entities report = 2"
  by code_simp

lemma entity_holdout_isolated_witness:
  "\<exists>report. validate_entity_holdout demo_ml (\<lambda>_ xs. rev xs) demo_dataset 1 250 7 = Inr report \<and> ho_test_rows report = 2 \<and> ho_leakage report = 0"
proof -
  from demo_validated obtain report where
    r: "validate_entity_holdout demo_ml (\<lambda>_ xs. rev xs) demo_dataset 1 250 7 = Inr report" "ho_test_rows report = 2"
    by (auto split: sum.splits)
  from entity_holdout_isolated [OF r(1)] r show ?thesis by blast
qed

end
