(* ===== verification/Startup.thy ===== *)
theory Startup
  imports Operations Risk_Model
begin

text \<open>
  What the processes are started with: the database's URL and the options of its engine (\<^verbatim>\<open>core.py\<close>), the
  Kafka producer of the outbox worker (\<^verbatim>\<open>worker.py\<close>), the exporter and the identifiers of traces
  (\<^verbatim>\<open>telemetry.py\<close>), and the command that measures the risk model (\<^verbatim>\<open>cli.py\<close>).
\<close>

section \<open>The database\<close>

text \<open>\<^verbatim>\<open>p in s\<close> and \<^verbatim>\<open>s.removeprefix(p)\<close>.\<close>

fun occurs_in :: "pystr \<Rightarrow> pystr \<Rightarrow> bool" where
  "occurs_in p [] \<longleftrightarrow> p = []"
| "occurs_in p (c # s) \<longleftrightarrow> py_startswith (c # s) p \<or> occurs_in p s"

definition remove_prefix :: "pystr \<Rightarrow> pystr \<Rightarrow> pystr" where
  "remove_prefix p s = (if py_startswith s p then drop (length p) s else s)"

text \<open>\<open>resolve\<close> is the absolute path in POSIX form; its directory is created.\<close>

definition database_url :: "(pystr \<Rightarrow> pystr) \<Rightarrow> pystr \<Rightarrow> pystr" where
  "database_url resolve raw = (if occurs_in (lit ''://'') raw then raw else lit ''sqlite:///'' @ resolve raw)"

definition database_path :: "pystr \<Rightarrow> pystr" where
  "database_path url = remove_prefix (lit ''sqlite:///'') url"

datatype pool =
    Static_pool
  | Null_pool
  | Sized_pool int int int

text \<open>\<^verbatim>\<open>pool_pre_ping\<close> is always set; SQLite's connections get their arguments and pragmas.\<close>

record engine_options =
  eo_pool :: pool
  eo_timeout :: "int option"
  eo_pragmas :: "string list"

definition ends_with :: "pystr \<Rightarrow> pystr \<Rightarrow> bool" where
  "ends_with s p \<longleftrightarrow> py_startswith (rev s) (rev p)"

definition sqlite_pragmas :: "string list" where
  "sqlite_pragmas = [''PRAGMA foreign_keys=ON'', ''PRAGMA journal_mode=WAL'', ''PRAGMA busy_timeout=30000'']"

definition engine_for :: "pystr \<Rightarrow> engine_options" where
  "engine_for url = (if py_startswith url (lit ''sqlite'')
     then \<lparr>eo_pool = (if ends_with url (lit '':memory:'') then Static_pool else Null_pool), eo_timeout = Some 30, eo_pragmas = sqlite_pragmas\<rparr>
     else \<lparr>eo_pool = Sized_pool 10 20 1800, eo_timeout = None, eo_pragmas = []\<rparr>)"

lemma occurs_in_prefix: "py_startswith s p \<Longrightarrow> occurs_in p s"
  by (cases s) (auto simp: py_startswith_def)

lemma occurs_in_append: "occurs_in p t \<Longrightarrow> occurs_in p (s @ t)"
  by (induction s) auto

lemma prefix_append: "py_startswith (p @ s) p"
  by (simp add: py_startswith_def)

text \<open>A URL stays as it is, a path becomes the URL of an SQLite file that is its absolute path.\<close>

lemma database_url_again: "database_url resolve (database_url resolve raw) = database_url resolve raw"
proof -
  have "occurs_in (lit ''://'') (lit ''sqlite:///'' @ x)" for x
  proof -
    have "lit ''sqlite:///'' @ x = lit ''sqlite'' @ lit ''://'' @ lit ''/'' @ x" by (simp add: lit_append append_assoc [symmetric] del: append_assoc)
    then show ?thesis by (simp add: occurs_in_append occurs_in_prefix prefix_append)
  qed
  then show ?thesis by (simp add: database_url_def)
qed

lemma file_database:
  assumes "\<not> occurs_in (lit ''://'') raw"
  shows "database_path (database_url resolve raw) = resolve raw"
    and "eo_pragmas (engine_for (database_url resolve raw)) = sqlite_pragmas"
proof -
  show "database_path (database_url resolve raw) = resolve raw"
    using assms by (simp add: database_url_def database_path_def remove_prefix_def prefix_append)
  have "lit ''sqlite:///'' @ resolve raw = lit ''sqlite'' @ lit '':///'' @ resolve raw"
    by (simp add: lit_append append_assoc [symmetric] del: append_assoc)
  then show "eo_pragmas (engine_for (database_url resolve raw)) = sqlite_pragmas"
    using assms by (simp add: database_url_def engine_for_def prefix_append)
qed

section \<open>The outbox worker\<close>

text \<open>What the worker is started with: the database and the producer's settings.\<close>

definition worker_start :: "environ \<Rightarrow> bool \<Rightarrow> (pystr \<times> (string \<times> pystr) list) res" where
  "worker_start env kafka_installed = (case (env_value env (lit ''FLAGSHIP_DATABASE_URL''), env_value env (lit ''FLAGSHIP_KAFKA_BOOTSTRAP_SERVERS'')) of
     (Some url, Some brokers) \<Rightarrow>
       bind_res (raise_if (\<not> kafka_installed) (SystemExit (lit ''install the 'kafka' optional dependency to run this worker''))) (\<lambda>_.
         Inr (url, [(''bootstrap.servers'', brokers), (''enable.idempotence'', lit ''True''), (''acks'', lit ''all''),
           (''compression.type'', lit ''zstd''), (''client.id'', lit ''flagship-outbox'')]))
   | _ \<Rightarrow> Inl (SystemExit (lit ''FLAGSHIP_DATABASE_URL and FLAGSHIP_KAFKA_BOOTSTRAP_SERVERS are required'')))"

section \<open>Traces\<close>

record telemetry_config =
  tc_service_name :: pystr
  tc_service_version :: pystr
  tc_otlp_endpoint :: "pystr option"
  tc_excluded_urls :: pystr

definition default_telemetry :: "environ \<Rightarrow> telemetry_config" where
  "default_telemetry env = \<lparr>tc_service_name = lit ''flagship-lab'', tc_service_version = lit ''0.5.0'',
     tc_otlp_endpoint = env (lit ''OTEL_EXPORTER_OTLP_TRACES_ENDPOINT''), tc_excluded_urls = lit ''/health/live,/health/ready,/metrics''\<rparr>"

text \<open>The exporter of the batch processor: the given one, else one for the configured endpoint, else none.\<close>

datatype 'x exporter = Given_exporter 'x | Otlp_exporter pystr int

definition chosen_exporter :: "environ \<Rightarrow> telemetry_config option \<Rightarrow> 'x option \<Rightarrow> 'x exporter option" where
  "chosen_exporter env config given = (let c = (case config of None \<Rightarrow> default_telemetry env | Some c \<Rightarrow> c) in
     case given of Some x \<Rightarrow> Some (Given_exporter x)
     | None \<Rightarrow> (case tc_otlp_endpoint c of Some (a # s) \<Rightarrow> Some (Otlp_exporter (a # s) 5) | _ \<Rightarrow> None))"

text \<open>\<^verbatim>\<open>f"{n:0kx}"\<close> of a number that is not negative.\<close>

function hex_numeral :: "int \<Rightarrow> pystr" where
  "hex_numeral n = (if n < 16 then [hex_digit n] else hex_numeral (n div 16) @ [hex_digit (n mod 16)])"
  by pat_completeness auto
termination
  by (relation "measure nat") auto

declare hex_numeral.simps [simp del]

definition hex_padded :: "nat \<Rightarrow> int \<Rightarrow> pystr" where
  "hex_padded k n = replicate (k - length (hex_numeral n)) 48 @ hex_numeral n"

text \<open>The ids of the current span, if its context is valid.\<close>

definition trace_context :: "int \<times> int \<times> bool \<Rightarrow> pystr option \<times> pystr option" where
  "trace_context context = (case context of (trace_id, span_id, valid) \<Rightarrow>
     if \<not> valid then (None, None) else (Some (hex_padded 32 trace_id), Some (hex_padded 16 span_id)))"

definition hex_number :: "pystr \<Rightarrow> int" where
  "hex_number s = foldl (\<lambda>a c. 16 * a + (case hex_value c of None \<Rightarrow> 0 | Some d \<Rightarrow> d)) 0 s"

lemma hex_number_numeral: "0 \<le> n \<Longrightarrow> hex_number (hex_numeral n) = n"
proof (induction n rule: hex_numeral.induct)
  case (1 n)
  show ?case
  proof (cases "n < 16")
    case True
    with 1(2) show ?thesis by (simp add: hex_numeral.simps [of n] hex_number_def hex_value_digit)
  next
    case False
    with 1 have "hex_number (hex_numeral (n div 16)) = n div 16" by simp
    with False show ?thesis by (simp add: hex_numeral.simps [of n] hex_number_def hex_value_digit)
  qed
qed

lemma hex_numeral_short: "0 \<le> n \<Longrightarrow> n < 16 ^ Suc k \<Longrightarrow> length (hex_numeral n) \<le> Suc k"
proof (induction k arbitrary: n)
  case 0
  then show ?case by (simp add: hex_numeral.simps [of n])
next
  case (Suc k)
  have "n div 16 < 16 ^ Suc k" using Suc.prems by (simp add: div_less_iff_less_mult)
  with Suc show ?case by (simp add: hex_numeral.simps [of n])
qed

text \<open>The id of a trace is written with 32 digits and is read back.\<close>

lemma trace_id_roundtrip:
  assumes "0 \<le> trace_id" "trace_id < 16 ^ 32"
  shows "\<exists>t s. trace_context (trace_id, span_id, True) = (Some t, Some s) \<and> length t = 32 \<and> hex_number t = trace_id"
proof -
  have zeros: "hex_number (replicate k 48 @ s) = hex_number s" for k s
    by (induction k) (simp_all add: hex_number_def hex_value_def)
  have "length (hex_numeral trace_id) \<le> Suc 31" using assms by (intro hex_numeral_short) simp_all
  then show ?thesis using assms(1) by (simp add: trace_context_def hex_padded_def zeros hex_number_numeral)
qed

section \<open>The benchmark of the risk model\<close>

definition risk_benchmark ::
  "('f::linorder) ml_lib \<Rightarrow> (pystr \<Rightarrow> bool) \<Rightarrow> (int \<Rightarrow> 'f month_draw) \<Rightarrow> (bool \<Rightarrow> pystr list \<Rightarrow> pystr list) \<Rightarrow> int \<Rightarrow> int \<Rightarrow> int
     \<Rightarrow> ('f forest \<times> 'f baseline_metrics \<times> 'f holdout_report) res" where
  "risk_benchmark F latent draws shuffle entities months train_through =
     bind_res (generate_temporal_graph_dataset F entities months latent draws) (\<lambda>ds.
     bind_res (train_temporal_baseline F ds train_through 20260811) (\<lambda>(model, metrics).
     bind_res (validate_entity_holdout F shuffle ds train_through (mf_dec F 25 (-2)) 20260811) (\<lambda>report.
       Inr (model, metrics, report))))"

text \<open>The two validations see the same time split: what is tested is later than what is trained on.\<close>

lemma risk_benchmark_by_time:
  assumes "risk_benchmark F latent draws shuffle entities months train_through = Inr (model, metrics, report)"
  shows "snd (bm_train_months metrics) \<le> train_through \<and> train_through < fst (bm_test_months metrics)"
  using assms baseline_by_time by (fastforce simp: risk_benchmark_def bind_res_Inr)

end
