(* ===== verification/Spec2Isabelle.thy ===== *)
theory Spec2Isabelle
  imports Observability Upgrades Repo_Checks Cli Startup
begin

text \<open>
  Flagship Lab: a platform for tax checks, regulatory retrieval, IT controls and relationship risk.
  This library models the Python package \<^verbatim>\<open>src/flagship_lab\<close> with its migrations and scripts, and proves
  what makes its parts correct, alone and together.

  The program.  Four services (\<^verbatim>\<open>taxflow.py\<close> with \<^verbatim>\<open>tax_rules.py\<close>, \<^verbatim>\<open>regintel.py\<close>, \<^verbatim>\<open>controlpulse.py\<close>,
  \<^verbatim>\<open>riskgraph.py\<close>) work on one SQL database (\<^verbatim>\<open>sql_models.py\<close>), each for the tenant it was created for.  What
  they do they record in the tenant's audit trail, a chain of hashes, and in the transactional outbox
  (\<^verbatim>\<open>core.py\<close>), whose events a worker publishes (\<^verbatim>\<open>outbox.py\<close>, \<^verbatim>\<open>worker.py\<close>).  The HTTP interface
  (\<^verbatim>\<open>fastapi_app.py\<close>) verifies tokens (\<^verbatim>\<open>auth.py\<close>), checks scopes (\<^verbatim>\<open>authorization.py\<close>) and calls the services;
  evidence of reviewed runs is signed and kept in a create-only store (\<^verbatim>\<open>evidence.py\<close>,
  \<^verbatim>\<open>evidence_service.py\<close>, \<^verbatim>\<open>signing.py\<close>, \<^verbatim>\<open>object_store.py\<close>).  Operators back up and restore the database
  (\<^verbatim>\<open>backup.py\<close>), check a deployment (\<^verbatim>\<open>preflight.py\<close>) and a release (\<^verbatim>\<open>admission.py\<close>) through commands
  (\<^verbatim>\<open>operations.py\<close>) that leave metrics (\<^verbatim>\<open>operation_metrics.py\<close>).  A plain server of the standard library
  (\<^verbatim>\<open>server.py\<close>) answers for one tenant, and the command line (\<^verbatim>\<open>cli.py\<close>) starts the interface and runs the
  demonstrations and measurements, among them the risk model's (\<^verbatim>\<open>risk_model.py\<close>).

  Representation.  A text is the list of its code points, an exception a value of \<open>py_error\<close>, a raising
  function one into \<open>'a res\<close>; a dictionary is the list of its items.  The database is the record of its
  tables, a transaction a function from the database to a result and a database, and \<open>connect\<close> rolls
  back what a raising transaction did.  Clocks, random identifiers, SHA-256, the special cases of
  Unicode and floating point are a record of functions (\<open>pyenv\<close>), with what is used of them as
  the hypotheses \<open>env_law\<close> and \<open>sha_law\<close>; signatures, ciphers, JWT, HTTP clients, the file system's
  facts and PostgreSQL's catalogue are parameters of the parts that use them.  Where a conclusion rests
  on digests it names the two byte strings that would have to collide.

  Theories, in their order.
  \<^item> \<open>Prelude\<close>, \<open>Py_Text\<close>, \<open>Py_Json\<close>, \<open>Json_Layout\<close>, \<open>Py_Bytes\<close>, \<open>Py_Decimal\<close>, \<open>Py_Dict\<close>, \<open>Py_Time\<close>: the values and library
    functions of Python that the source uses: texts, \<^verbatim>\<open>json.dumps\<close> in its layouts and \<^verbatim>\<open>json.loads\<close> as a
    parser with fuel (the length of the text is always enough), base64, \<^verbatim>\<open>Decimal\<close>, dictionaries, ISO times.
  \<^item> \<open>Schema\<close>, \<open>Hash_Chain\<close>, \<open>Core\<close>: the tables, chains of hashes as a locale, connections and the audit trail.
  \<^item> \<open>Tax_Rules\<close>, \<open>Tax_Flow\<close>, \<open>Tax_Generator\<close>, \<open>Control_Pulse\<close>, \<open>Risk_Graph\<close>, \<open>Reg_Intel\<close>: the services.
  \<^item> \<open>Outbox\<close>, \<open>Outbox_Settling\<close>: publishing, consuming, and the end of the worker's retries.
  \<^item> \<open>Event_Stream\<close>: the append-only file of control events and its processor with a checkpoint.
  \<^item> \<open>System\<close>, \<open>Tenancy\<close>, \<open>Reviews\<close>: every operation of the services as a step of one system, the reachable
    databases, their invariants, and the separation of tenants.
  \<^item> \<open>Authorization\<close>, \<open>Auth\<close>, \<open>Api\<close>, \<open>Api_Access\<close>: shell patterns (matched with whole scopes, which grants
    more than the docstring says), tokens, the routes, and the access policy that replies and changes follow: what a
    route that asks for data replies is the same whatever the rows of other tenants are.
  \<^item> \<open>Object_Store\<close>, \<open>Evidence\<close>: stores as a locale with two instances, packages, their verification.
  \<^item> \<open>Table_Json\<close>, \<open>Backup\<close>: rows as JSON and back (a locale with fifteen instances), backup and restore.
  \<^item> \<open>Preflight\<close>, \<open>Admission\<close>, \<open>Operations\<close>, \<open>Observability\<close>: the operators' checks and commands, logs and metrics.
  \<^item> \<open>Migrations\<close>, \<open>Upgrades\<close>: the revisions of the schema as statements with their effect, what they make of an
    empty database, how that compares with the mapped classes and the preflight, and which downgrades can be undone.
  \<^item> \<open>Repo_Checks\<close>: the scripts that check the repository's protection, its dependencies and its exceptions.
  \<^item> \<open>Server\<close>, \<open>Cli\<close>: the plain server, confined to its default tenant, with its parsing of targets and bodies;
    what the \<^verbatim>\<open>api\<close> command starts from the environment, the demonstrations, the corpus of questions.
  \<^item> \<open>Risk_Model\<close>: the generated graphs, their features and labels, and the splits of the two validations, which
    keep the test's months or entities out of the training.
  \<^item> \<open>Startup\<close>: the engine's options, the worker's producer, the exporter and identifiers of traces.
  The root theory holds the properties of the whole system: audit trails that verify after any history,
  isolation of tenants, case histories.

  Loops.  The worker's loop is a recursion over the list of its turns, and the termination property says
  how many turns are enough; the other loops recurse over lists, or have a measure.

  Not modelled.  Symbolic links and crashes between two writes of the object store; SQLite's and
  PostgreSQL's locking, where a transaction is atomic and the interleaving of reviews is written out; the effect
  of row-level security on queries, which select their tenant themselves, and on connections that name no tenant,
  which the documentation gives to roles that bypass it; what Alembic does beside running the revisions, of which
  the search for the target of a downgrade is written out; column
  widths; the text of driver errors; FastAPI's parsing of requests before the models' constraints;
  the numerics of numpy, networkx and scikit-learn, which are parameters of the risk model, and the files its
  artifacts are written to; OpenTelemetry's instrumentation of the application; argparse's parsers; the socket
  server and the encoding of its replies; SQLite's copying of tables in migrations.
\<close>

text \<open>
  C1: Every reachable trail verifies.  Whatever operations of whatever tenants have run, in any order
  and with any outcome, \<open>verify_audit_chain\<close> answers for every tenant that its trail is valid, and
  counts exactly the tenant's audit events.
\<close>

theorem reachable_trails_verify:
  assumes "reachable E d" and "env_law E"
  shows "verify_audit_chain E t d = Inr (True, int (length (audit_rows t d)), None)"
  using verify_audit_chain_ok [OF assms(2)] reachable_ok [OF assms] by blast

text \<open>
  C3: Every case is where its history says, and nobody closes a case of his own event.  In a
  reachable database \<open>case_history\<close> returns for a case a path of allowed transitions from \<^verbatim>\<open>OPEN\<close> to
  its status, its version is one more than the number of transitions, and whoever moved it to
  \<^verbatim>\<open>CLOSED\<close> is not the actor of the event that opened it.
\<close>

theorem reachable_case_histories:
  assumes "reachable E d" and "env_law E" and "c \<in> set (control_cases d)"
    and "dl \<noteq> Postgres \<or> tenant_accepted E (cc_tenant c)"
  shows "\<exists>path. case_history E dl (cc_tenant c) (cc_id c) d = (Inr path, d)
    \<and> status_path (lit ''OPEN'') path (cc_status c) \<and> cc_version c = 1 + int (length path)
    \<and> (\<exists>e \<in> set (control_events d). is_event (cc_tenant c) (cc_event_id c) e
        \<and> (\<forall>x \<in> set path. ct_to_status x = lit ''CLOSED'' \<longrightarrow> ct_actor x \<noteq> ce_actor e))"
proof -
  from reachable_ok [OF assms(1,2)] have ok: "cases_ok d" "closers_ok d" "events_ok d"
    by (simp_all add: control_ok_def)
  from ok(3) assms(3) obtain e where e: "e \<in> set (control_events d)" "is_event (cc_tenant c) (cc_event_id c) e"
    by (auto simp: events_ok_def)
  have "ct_actor x \<noteq> ce_actor e" if "x \<in> set (history d c)" "ct_to_status x = lit ''CLOSED''" for x
    using that ok(1,2) assms(3) e
    by (fastforce simp: history_def closers_ok_def independent_closer_def cases_ok_def is_case_def distinct_map inj_on_def)
  with case_history_reachable [OF assms] ok(1) assms(3) e show ?thesis
    by (auto simp: cases_ok_def)
qed

text \<open>
  C2: Tenants are isolated.  An operation of one tenant, whatever its arguments and outcome, changes no
  row of another tenant in any table, and what the other tenant reads (its audit trail's report,
  open cases, case histories, workflows, findings and graph findings) is what it read before.
\<close>

theorem tenant_isolation:
  assumes "tenant_step E t d d'" and "u \<noteq> t"
  shows "rows_of u d' = rows_of u d \<and> verify_audit_chain E u d' = verify_audit_chain E u d
    \<and> fst (open_cases E dl u d') = fst (open_cases E dl u d)
    \<and> fst (case_history E dl u case_id d') = fst (case_history E dl u case_id d)
    \<and> fst (workflow E dl u run_id d') = fst (workflow E dl u run_id d)
    \<and> fst (findings E dl u run_id d') = fst (findings E dl u run_id d)
    \<and> fst (investigate E dl u d') = fst (investigate E dl u d)"
  using rows_of_reads [OF tenant_step_rows_of [OF assms]] tenant_step_rows_of [OF assms] by simp

section \<open>Witnesses\<close>

text \<open>A database with one event, its two cases and their trail.\<close>

lemma demo_reachable:
  "\<exists>d out. reachable demo_env d \<and> tenant_step demo_env (lit ''acme'') empty_db d
     \<and> ingest_and_evaluate demo_env Sqlite demo_clock (lit ''acme'') demo_event empty_db = (Inr out, d)"
  using demo_event_ingested tenant_step.ingest_event
  by (fastforce simp: reachable_def intro: system_step.tenant)

lemma demo_ingested_rows:
  assumes "ingest_and_evaluate demo_env Sqlite demo_clock (lit ''acme'') demo_event empty_db = (Inr out, d)"
  shows "length (audit_rows (lit ''acme'') d) = 1" "length (control_cases d) = 2"
    "\<forall>c \<in> set (control_cases d). cc_status c = lit ''OPEN''"
proof -
  let ?h = "sha256_json demo_env (event_dict demo_event)"
  obtain hour where "iso_hour (replace_z (ev_occurred_at demo_event)) = Inr hour" "hour = 23"
    using demo_hour by blast
  then obtain items where items: "evaluate_event demo_event ?h = Inr items" "length items = 2"
    by (simp add: evaluate_event_def) (simp add: demo_event_def)
  from assms obtain cases where c: "evaluate_event demo_event ?h = Inr cases"
    "ingest_event_body demo_env demo_clock (lit ''acme'') demo_event ?h cases empty_db = Inr (out, d)"
    by (rule ingest_event_commit)
  with items have "cases = items" by simp
  from c(2) have "length (audit_rows (lit ''acme'') d) = 1 \<and> length (control_cases d) = 2
    \<and> (\<forall>c \<in> set (control_cases d). cc_status c = lit ''OPEN'')"
  proof (cases rule: ingest_event_body_cases)
    case (known r)
    then show ?thesis by (simp add: empty_db_def)
  next
    case (new d1 r h)
    obtain cs where "control_cases d = cs" "map report_of cs = map (\<lambda>i. i\<lparr>cp_evidence_hash := ?h\<rparr>) cases"
      "\<forall>c \<in> set cs. cc_status c = lit ''OPEN''"
      using insert_cases_append [of "lit ''acme''" "ev_event_id demo_event" ?h cases "control_cases empty_db"]
        append_audit_event_control [OF new(5)] new(4) by (auto simp: empty_db_def)
    moreover have "length cs = 2" if "map report_of cs = map (\<lambda>i. i\<lparr>cp_evidence_hash := ?h\<rparr>) cases" for cs
      using arg_cong [OF that, of length] items(2) \<open>cases = items\<close> by simp
    moreover have "audit_rows (lit ''acme'') d1 = []"
      using new(4) by (simp add: audit_rows_def empty_db_def select_rows_def)
    ultimately show ?thesis
      using append_audit_event_rows [OF new(5)] by simp
  qed
  then show "length (audit_rows (lit ''acme'') d) = 1" "length (control_cases d) = 2"
    "\<forall>c \<in> set (control_cases d). cc_status c = lit ''OPEN''" by simp_all
qed

lemma reachable_trails_verify_witness:
  "\<exists>d. reachable demo_env d \<and> verify_audit_chain demo_env (lit ''acme'') d = Inr (True, 1, None)"
proof -
  from demo_reachable obtain d out where d: "reachable demo_env d"
    "ingest_and_evaluate demo_env Sqlite demo_clock (lit ''acme'') demo_event empty_db = (Inr out, d)" by blast
  with reachable_trails_verify [OF d(1) demo_env_law, of "lit ''acme''"] demo_ingested_rows(1) [OF d(2)]
  show ?thesis by auto
qed

lemma reachable_case_histories_witness:
  "\<exists>d. reachable demo_env d \<and> length (control_cases d) = 2 \<and> (\<forall>c \<in> set (control_cases d).
     \<exists>path. case_history demo_env Sqlite (cc_tenant c) (cc_id c) d = (Inr path, d)
       \<and> status_path (lit ''OPEN'') path (lit ''OPEN''))"
proof -
  from demo_reachable obtain d out where d: "reachable demo_env d"
    "ingest_and_evaluate demo_env Sqlite demo_clock (lit ''acme'') demo_event empty_db = (Inr out, d)" by blast
  from reachable_case_histories [OF d(1) demo_env_law _, of _ Sqlite] d(1) demo_ingested_rows [OF d(2)]
  show ?thesis by fastforce
qed

lemma tenant_isolation_witness:
  "\<exists>d. tenant_step demo_env (lit ''acme'') empty_db d \<and> d \<noteq> empty_db \<and> rows_of (lit ''other'') d = rows_of (lit ''other'') empty_db"
proof -
  from demo_reachable obtain d out where d: "tenant_step demo_env (lit ''acme'') empty_db d"
    "ingest_and_evaluate demo_env Sqlite demo_clock (lit ''acme'') demo_event empty_db = (Inr out, d)" by blast
  from demo_ingested_rows(2) [OF d(2)] have "d \<noteq> empty_db" by (auto simp: empty_db_def)
  with tenant_isolation [OF d(1), of "lit ''other''" Sqlite 0 "[]"] d(1) show ?thesis by auto
qed

end
